(* ===== verification/Platform_Prelude.thy ===== *)
theory Platform_Prelude
  imports Complex_Main
begin

text \<open>
  Shared vocabulary of the development.

  \<^item> Python exceptions are the values of \<open>py_error\<close>; an operation that may raise returns
    \<open>'a res = py_error + 'a\<close>, \<open>Inl\<close> being the raise. \<open>rbind\<close> sequences two such
    operations, \<open>rmap_list\<close> is a list comprehension whose body may raise. An exception that
    leaves changed state behind is the pair of the exception and that state, so these are
    polymorphic in what is raised.
  \<^item> A Python \<open>float\<close> is an exact real number: the IEEE rounding of each double operation is
    not modelled. Where the source itself rounds (\<open>round(x, n)\<close>, \<open>math.floor\<close>,
    \<open>math.ceil\<close>) the rounding is modelled, and where it tests for overflow
    (\<open>math.isfinite\<close>) the bound \<open>2 ^ 1024\<close> of the double format is. A value that
    the source lets be \<open>None\<close> or NaN is an \<open>option\<close>.
  \<^item> A timestamp is an \<open>int\<close> (microseconds of the epoch, UTC), a date an \<open>int\<close> (days of
    the epoch in the zone of the market), an identifier a \<open>string\<close>.
\<close>

section \<open>Exceptions as values\<close>

datatype py_error =
    ValueError string
  | KeyError string
  | TypeError string
  | RuntimeError string
  | IndexError
  | ZeroDivisionError
  | AssertionError
  | OverflowError
  | InvalidOperation
  | AttributeError string
  | BacktestCancelled string
  | BacktestQueueFull nat
  | OutOfFuel

type_synonym 'a res = "py_error + 'a"
type_synonym timestamp = int
type_synonym day = int

named_theorems res_simps \<open>evaluation and inversion of the exception monad\<close>

definition rbind :: "'e + 'a \<Rightarrow> ('a \<Rightarrow> 'e + 'b) \<Rightarrow> 'e + 'b" where
  "rbind m f = (case m of Inl e \<Rightarrow> Inl e | Inr x \<Rightarrow> f x)"

definition raise_if :: "bool \<Rightarrow> 'e \<Rightarrow> 'e + unit" where
  "raise_if b e = (if b then Inl e else Inr ())"

fun rmap_list :: "('a \<Rightarrow> 'e + 'b) \<Rightarrow> 'a list \<Rightarrow> 'e + 'b list" where
  "rmap_list f [] = Inr []"
| "rmap_list f (x # xs) =
     rbind (f x) (\<lambda>y. rbind (rmap_list f xs) (\<lambda>ys. Inr (y # ys)))"

fun rfold :: "('s \<Rightarrow> 'a \<Rightarrow> 'e + 's) \<Rightarrow> 's \<Rightarrow> 'a list \<Rightarrow> 'e + 's" where
  "rfold f s [] = Inr s"
| "rfold f s (x # xs) = rbind (f s x) (\<lambda>s'. rfold f s' xs)"

definition is_ok :: "'e + 'a \<Rightarrow> bool" where
  "is_ok m = (case m of Inl _ \<Rightarrow> False | Inr _ \<Rightarrow> True)"

lemma rbind_simps [simp, res_simps]:
  "rbind (Inl e) f = Inl e" "rbind (Inr x) f = f x"
  by (simp_all add: rbind_def)

lemma rbind_eq_Inr [res_simps]:
  "rbind m f = Inr y \<longleftrightarrow> (\<exists>x. m = Inr x \<and> f x = Inr y)"
  by (cases m) simp_all

lemma rbind_eq_Inl [res_simps]:
  "rbind m f = Inl e \<longleftrightarrow> m = Inl e \<or> (\<exists>x. m = Inr x \<and> f x = Inl e)"
  by (cases m) simp_all

lemma raise_if_eq_Inr [simp, res_simps]: "raise_if b e = Inr u \<longleftrightarrow> \<not> b"
  by (simp add: raise_if_def)

lemma raise_if_simps [simp, res_simps]: "raise_if True e = Inl e" "raise_if False e = Inr ()"
  by (simp_all add: raise_if_def)

lemma is_ok_simps [simp, res_simps]: "\<not> is_ok (Inl e)" "is_ok (Inr x)"
  by (simp_all add: is_ok_def)

lemma is_ok_iff: "is_ok m \<longleftrightarrow> (\<exists>x. m = Inr x)"
  by (cases m) simp_all

lemma rmap_list_length: "rmap_list f xs = Inr ys \<Longrightarrow> length ys = length xs"
  by (induction xs arbitrary: ys) (auto simp: rbind_eq_Inr)

lemma rmap_list_nth:
  "rmap_list f xs = Inr ys \<Longrightarrow> i < length xs \<Longrightarrow> f (xs ! i) = Inr (ys ! i)"
  by (induction xs arbitrary: ys i) (auto simp: rbind_eq_Inr nth_Cons split: nat.splits)

lemma rmap_list_ok: "(\<And>x. x \<in> set xs \<Longrightarrow> is_ok (f x)) \<Longrightarrow> is_ok (rmap_list f xs)"
proof (induction xs)
  case (Cons x xs)
  then obtain y ys where "f x = Inr y" and "rmap_list f xs = Inr ys"
    by (meson is_ok_iff list.set_intros)
  then show ?case by simp
qed simp

lemma rfold_append: "rfold f s (xs @ ys) = rbind (rfold f s xs) (\<lambda>t. rfold f t ys)"
proof (induction xs arbitrary: s)
  case (Cons x xs)
  then show ?case by (cases "f s x") simp_all
qed simp

lemma rfold_invariant:
  assumes "\<And>s x t. x \<in> set xs \<Longrightarrow> P s \<Longrightarrow> f s x = Inr t \<Longrightarrow> P t"
    and "P s" and "rfold f s xs = Inr t"
  shows "P t"
  using assms
proof (induction xs arbitrary: s)
  case (Cons x xs)
  from Cons.prems(3) obtain u where u: "f s x = Inr u" and rest: "rfold f u xs = Inr t"
    by (auto simp: rbind_eq_Inr)
  from Cons.prems(1)[OF _ Cons.prems(2) u] have "P u" by simp
  with rest Cons.prems(1) show ?case by (intro Cons.IH [OF _ _ rest]) auto
qed simp

lemma rfold_ok:
  assumes "\<And>s x. x \<in> set xs \<Longrightarrow> P s \<Longrightarrow> \<exists>t. f s x = Inr t \<and> P t" and "P s"
  shows "\<exists>t. rfold f s xs = Inr t \<and> P t"
  using assms
proof (induction xs arbitrary: s)
  case (Cons x xs)
  then obtain u where "f s x = Inr u" and "P u" by (meson list.set_intros(1))
  with Cons show ?case by (metis list.set_intros(2) rbind_simps(2) rfold.simps(2))
qed simp

text \<open>
  A fold over a list whose invariant speaks of the elements still to come, and the postcondition
  calculus of fallible code: \<open>ends E Q m\<close> says that \<open>m\<close> raises only what satisfies \<open>E\<close> and returns
  only what satisfies \<open>Q\<close>.
\<close>

lemma rfold_invariant_rest:
  assumes "\<And>s x rest t. Q s (x # rest) \<Longrightarrow> f s x = Inr t \<Longrightarrow> Q t rest"
    and "Q s xs" and "rfold f s xs = Inr t"
  shows "Q t []"
  using assms(2,3)
  by (induction xs arbitrary: s) (auto simp: rbind_eq_Inr dest: assms(1))

definition ends :: "('e \<Rightarrow> bool) \<Rightarrow> ('a \<Rightarrow> bool) \<Rightarrow> 'e + 'a \<Rightarrow> bool" where
  "ends E Q m = (case m of Inl e \<Rightarrow> E e | Inr x \<Rightarrow> Q x)"

lemma ends_simps [simp]: "ends E Q (Inl e) = E e" "ends E Q (Inr x) = Q x"
  by (simp_all add: ends_def)

lemma ends_rbind [intro]: "ends E (\<lambda>x. ends E Q (f x)) m \<Longrightarrow> ends E Q (rbind m f)"
  by (cases m) simp_all

lemma ends_rfold:
  "(\<And>s x. x \<in> set xs \<Longrightarrow> P s \<Longrightarrow> ends E P (f s x)) \<Longrightarrow> P s \<Longrightarrow> ends E P (rfold f s xs)"
proof (induction xs arbitrary: s)
  case (Cons x xs)
  then have "ends E P (f s x)" by simp
  with Cons show ?case by (cases "f s x") auto
qed simp

lemma ends_mono: "ends E Q m \<Longrightarrow> (\<And>e. E e \<Longrightarrow> E' e) \<Longrightarrow> (\<And>x. Q x \<Longrightarrow> Q' x) \<Longrightarrow> ends E' Q' m"
  by (cases m) simp_all

lemma ends_Inr: "ends E Q m \<Longrightarrow> m = Inr x \<Longrightarrow> Q x"
  by simp

lemma ends_TrueI: "(\<And>x. m = Inr x \<Longrightarrow> Q x) \<Longrightarrow> ends (\<lambda>_. True) Q m"
  by (cases m) simp_all

section \<open>Rounding\<close>

text \<open>
  Python's \<open>round\<close>: nearest multiple of \<open>10 ^ (-n)\<close>, a tie going to the even multiple.
\<close>

definition round_half_even :: "real \<Rightarrow> int" where
  "round_half_even x =
     (let f = \<lfloor>x\<rfloor>; d = x - of_int f
      in if d < 1 / 2 then f else if d > 1 / 2 then f + 1 else if even f then f else f + 1)"

definition py_round :: "real \<Rightarrow> nat \<Rightarrow> real" where
  "py_round x n = of_int (round_half_even (x * 10 ^ n)) / 10 ^ n"

text \<open>\<open>math.isfinite\<close> of a value computed in doubles: it has not overflowed.\<close>

definition DOUBLE_LIMIT :: real where "DOUBLE_LIMIT = 2 ^ 1024"

definition is_finite :: "real \<Rightarrow> bool" where
  "is_finite x \<longleftrightarrow> \<bar>x\<bar> < DOUBLE_LIMIT"

lemma power_less_DOUBLE_LIMIT: "(2::real) ^ k < DOUBLE_LIMIT \<longleftrightarrow> k < 1024"
  unfolding DOUBLE_LIMIT_def by (rule power_strict_increasing_iff) simp

lemma is_finite_small [simp]: "\<bar>x\<bar> \<le> 1000000000000 \<Longrightarrow> is_finite x"
  using power_less_DOUBLE_LIMIT [of 40] by (simp add: is_finite_def)

lemma round_half_even_bounds:
  "of_int (round_half_even x) \<le> x + 1 / 2" "x - 1 / 2 \<le> of_int (round_half_even x)"
  unfolding round_half_even_def Let_def by (auto; linarith)+

lemma round_half_even_of_int [simp]: "round_half_even (of_int z) = z"
  by (simp add: round_half_even_def)

lemma round_half_even_mono: "x \<le> y \<Longrightarrow> round_half_even x \<le> round_half_even y"
proof -
  assume le: "x \<le> y"
  show ?thesis
  proof (cases "\<lfloor>x\<rfloor> = \<lfloor>y\<rfloor>")
    case True
    with le show ?thesis by (auto simp: round_half_even_def Let_def)
  next
    case False
    with floor_mono [OF le] have "\<lfloor>x\<rfloor> + 1 \<le> \<lfloor>y\<rfloor>" by linarith
    moreover have "round_half_even x \<le> \<lfloor>x\<rfloor> + 1" and "\<lfloor>y\<rfloor> \<le> round_half_even y"
      by (auto simp: round_half_even_def Let_def)
    ultimately show ?thesis by linarith
  qed
qed

lemma py_round_error: "\<bar>py_round x n - x\<bar> \<le> 1 / (2 * 10 ^ n)"
proof -
  let ?p = "10 ^ n :: real" and ?r = "of_int (round_half_even (x * 10 ^ n)) :: real"
  have "\<bar>(?r - x * ?p) / ?p\<bar> = \<bar>?r - x * ?p\<bar> / ?p" by (simp add: abs_divide)
  then have "\<bar>py_round x n - x\<bar> = \<bar>?r - x * ?p\<bar> / ?p"
    by (simp add: py_round_def diff_divide_distrib)
  moreover have "\<bar>?r - x * ?p\<bar> \<le> 1 / 2"
    using round_half_even_bounds [of "x * ?p"] by linarith
  ultimately show ?thesis using divide_right_mono [of "\<bar>?r - x * ?p\<bar>" "1 / 2" ?p] by simp
qed

lemma py_round_mono: "x \<le> y \<Longrightarrow> py_round x n \<le> py_round y n"
  by (simp add: py_round_def divide_right_mono mult_right_mono round_half_even_mono)

lemma py_round_zero [simp]: "py_round 0 n = 0"
  using round_half_even_of_int [of 0] by (simp add: py_round_def)

lemma py_round_nonneg: "0 \<le> x \<Longrightarrow> 0 \<le> py_round x n"
  using py_round_mono [of 0 x n] by simp

lemma py_round_nonpos: "x \<le> 0 \<Longrightarrow> py_round x n \<le> 0"
  using py_round_mono [of x 0 n] by simp

lemma py_round_idem [simp]: "py_round (py_round x n) n = py_round x n"
  by (simp add: py_round_def)

lemma py_round_pos:
  assumes "1 / 10 ^ n \<le> x" shows "0 < py_round x n"
proof -
  have "1 \<le> x * 10 ^ n" using assms by (simp add: field_simps)
  then have "1 \<le> round_half_even (x * 10 ^ n)"
    using round_half_even_mono [of 1 "x * 10 ^ n"] round_half_even_of_int [of 1] by simp
  then show ?thesis by (simp add: py_round_def)
qed

section \<open>Lists\<close>

lemma sum_list_map_filter_split:
  fixes f :: "'a \<Rightarrow> 'b::comm_monoid_add"
  shows "sum_list (map f xs) = sum_list (map f (filter P xs)) + sum_list (map f (filter (\<lambda>x. \<not> P x) xs))"
  by (induction xs) (auto simp: algebra_simps)

lemma sum_list_pos_mem:
  fixes f :: "'a \<Rightarrow> real"
  assumes "\<And>x. x \<in> set xs \<Longrightarrow> 0 \<le> f x" and "y \<in> set xs"
  shows "f y \<le> sum_list (map f xs)"
  using assms(1) assms(2)
  by (intro member_le_sum_list) auto

text \<open>
  \<open>dict.fromkeys\<close> as an ordered de-duplication: the first occurrence of each key stays, in
  the order of the input.
\<close>

fun fromkeys_aux :: "'a set \<Rightarrow> 'a list \<Rightarrow> 'a list" where
  "fromkeys_aux seen [] = []"
| "fromkeys_aux seen (x # xs) =
     (if x \<in> seen then fromkeys_aux seen xs else x # fromkeys_aux (insert x seen) xs)"

definition fromkeys :: "'a list \<Rightarrow> 'a list" where
  "fromkeys xs = fromkeys_aux {} xs"

lemma set_fromkeys_aux: "set (fromkeys_aux seen xs) = set xs - seen"
  by (induction seen xs rule: fromkeys_aux.induct) auto

lemma distinct_fromkeys_aux: "distinct (fromkeys_aux seen xs)"
  by (induction seen xs rule: fromkeys_aux.induct) (auto simp: set_fromkeys_aux)

lemma set_fromkeys [simp]: "set (fromkeys xs) = set xs"
  by (simp add: fromkeys_def set_fromkeys_aux)

lemma distinct_fromkeys [simp]: "distinct (fromkeys xs)"
  by (simp add: fromkeys_def distinct_fromkeys_aux)

lemma fromkeys_aux_id: "distinct xs \<Longrightarrow> set xs \<inter> seen = {} \<Longrightarrow> fromkeys_aux seen xs = xs"
  by (induction seen xs rule: fromkeys_aux.induct) auto

lemma fromkeys_id [simp]: "distinct xs \<Longrightarrow> fromkeys xs = xs"
  by (simp add: fromkeys_def fromkeys_aux_id)

text \<open>The decimal text of a number, as an f-string prints it.\<close>

fun show_nat :: "nat \<Rightarrow> string" where
  "show_nat n =
     (if n < 10 then [char_of (48 + n)] else show_nat (n div 10) @ [char_of (48 + n mod 10)])"

declare show_nat.simps [simp del]

definition read_nat :: "string \<Rightarrow> nat" where
  "read_nat s = foldl (\<lambda>n c. 10 * n + (of_char c - 48)) 0 s"

lemma read_show_nat: "read_nat (show_nat n) = n"
proof (induction n rule: show_nat.induct)
  case (1 n)
  show ?case
  proof (cases "n < 10")
    case True
    then show ?thesis by (simp add: show_nat.simps [of n] read_nat_def)
  next
    case False
    with 1 have "read_nat (show_nat (n div 10)) = n div 10" by simp
    then show ?thesis using False
      by (simp add: show_nat.simps [of n] read_nat_def)
  qed
qed

lemma show_nat_inject [simp]: "show_nat m = show_nat n \<longleftrightarrow> m = n"
  by (metis read_show_nat)

lemma show_nat_digits: "c \<in> set (show_nat n) \<Longrightarrow> 48 \<le> (of_char c :: nat) \<and> (of_char c :: nat) \<le> 57"
proof (induction n rule: show_nat.induct)
  case (1 n)
  have "n mod 10 < 10" by simp
  with 1 show ?case by (cases "n < 10") (auto simp: show_nat.simps [of n])
qed

end
