(* ===== verification/Market_Fees.thy ===== *)
theory Market_Fees
  imports Platform_Prelude
begin

text \<open>
  The market contracts of \<open>backend/markets\<close>: simulated fills, the three fee models
  (\<open>NseFeeModel\<close>, \<open>CryptoFeeModel\<close>, \<open>PercentageFeeModel\<close>), \<open>MarketSpec\<close> with its
  bar lengths, the session rules of both markets, and \<open>market_spec\<close>.

  The locale \<open>fee_contract\<close> is the \<open>FeeModel\<close> protocol with the laws its clients rely
  on (adverse prices, non-negative costs, sale proceeds that grow with the price); it is
  interpreted on the two default models, and \<open>valid_fee_contract\<close> gives it for every model
  whose rates are below one.
\<close>

section \<open>Fills and fee models\<close>

record fill =
  fill_price :: real
  fill_fees :: real
  fill_slippage :: real

definition total_cost :: "fill \<Rightarrow> real" where
  "total_cost f = fill_fees f + fill_slippage f"

record nse_fee_model =
  variable_fee_rate :: real
  fixed_fee_per_order :: real
  slippage_rate :: real

record crypto_fee_model =
  maker_taker_cost_bps :: real
  crypto_slippage_bps :: real

record percentage_fee_model =
  transaction_cost_bps :: real
  slippage_bps :: real

definition NSE_DEFAULT_FEES :: nse_fee_model where
  "NSE_DEFAULT_FEES =
     \<lparr>variable_fee_rate = 0.00111, fixed_fee_per_order = 20, slippage_rate = 0.0005\<rparr>"

definition CRYPTO_DEFAULT_FEES :: crypto_fee_model where
  "CRYPTO_DEFAULT_FEES = \<lparr>maker_taker_cost_bps = 8, crypto_slippage_bps = 2\<rparr>"

definition mk_nse_fee_model :: "real \<Rightarrow> real \<Rightarrow> real \<Rightarrow> nse_fee_model res" where
  "mk_nse_fee_model v f s =
     (if min (min v f) s < 0 then Inl (ValueError ''NSE fees and slippage cannot be negative'')
      else Inr \<lparr>variable_fee_rate = v, fixed_fee_per_order = f, slippage_rate = s\<rparr>)"

definition nse_buy :: "nse_fee_model \<Rightarrow> real \<Rightarrow> real \<Rightarrow> fill" where
  "nse_buy m price quantity =
     (let executed = price * (1 + slippage_rate m); turnover = executed * quantity
      in \<lparr>fill_price = executed,
          fill_fees = turnover * variable_fee_rate m + fixed_fee_per_order m,
          fill_slippage = (executed - price) * quantity\<rparr>)"

definition nse_sell :: "nse_fee_model \<Rightarrow> real \<Rightarrow> real \<Rightarrow> fill" where
  "nse_sell m price quantity =
     (let executed = price * (1 - slippage_rate m); turnover = executed * quantity
      in \<lparr>fill_price = executed,
          fill_fees = turnover * variable_fee_rate m + fixed_fee_per_order m,
          fill_slippage = (price - executed) * quantity\<rparr>)"

definition mk_crypto_fee_model :: "real \<Rightarrow> real \<Rightarrow> crypto_fee_model res" where
  "mk_crypto_fee_model c s =
     (if min c s < 0 then Inl (ValueError ''Crypto costs and slippage cannot be negative'')
      else Inr \<lparr>maker_taker_cost_bps = c, crypto_slippage_bps = s\<rparr>)"

definition crypto_cost_rate :: "crypto_fee_model \<Rightarrow> real" where
  "crypto_cost_rate m = maker_taker_cost_bps m / 10000"

definition crypto_slip_rate :: "crypto_fee_model \<Rightarrow> real" where
  "crypto_slip_rate m = crypto_slippage_bps m / 10000"

definition crypto_buy :: "crypto_fee_model \<Rightarrow> real \<Rightarrow> real \<Rightarrow> fill" where
  "crypto_buy m price quantity =
     (let executed = price * (1 + crypto_slip_rate m)
      in \<lparr>fill_price = executed, fill_fees = executed * quantity * crypto_cost_rate m,
          fill_slippage = (executed - price) * quantity\<rparr>)"

definition crypto_sell :: "crypto_fee_model \<Rightarrow> real \<Rightarrow> real \<Rightarrow> fill" where
  "crypto_sell m price quantity =
     (let executed = price * (1 - crypto_slip_rate m)
      in \<lparr>fill_price = executed, fill_fees = executed * quantity * crypto_cost_rate m,
          fill_slippage = (price - executed) * quantity\<rparr>)"

text \<open>The research cost model of the backtest engine (\<open>backend/backtest/engine.py\<close>).\<close>

definition percentage_fill :: "percentage_fee_model \<Rightarrow> real \<Rightarrow> real \<Rightarrow> real \<Rightarrow> fill" where
  "percentage_fill m price quantity direction =
     (let executed = price * (1 + direction * slippage_bps m / 10000);
          turnover = executed * quantity
      in \<lparr>fill_price = executed, fill_fees = turnover * transaction_cost_bps m / 10000,
          fill_slippage = \<bar>executed - price\<bar> * quantity\<rparr>)"

definition percentage_buy :: "percentage_fee_model \<Rightarrow> real \<Rightarrow> real \<Rightarrow> fill" where
  "percentage_buy m price quantity = percentage_fill m price quantity 1"

definition percentage_sell :: "percentage_fee_model \<Rightarrow> real \<Rightarrow> real \<Rightarrow> fill" where
  "percentage_sell m price quantity = percentage_fill m price quantity (- 1)"

text \<open>The \<open>FeeModel\<close> protocol: the classes that implement it, and dynamic dispatch.\<close>

datatype fee_model =
    NseFees nse_fee_model
  | CryptoFees crypto_fee_model
  | PercentageFees percentage_fee_model

fun fee_buy :: "fee_model \<Rightarrow> real \<Rightarrow> real \<Rightarrow> fill" where
  "fee_buy (NseFees m) = nse_buy m"
| "fee_buy (CryptoFees m) = crypto_buy m"
| "fee_buy (PercentageFees m) = percentage_buy m"

fun fee_sell :: "fee_model \<Rightarrow> real \<Rightarrow> real \<Rightarrow> fill" where
  "fee_sell (NseFees m) = nse_sell m"
| "fee_sell (CryptoFees m) = crypto_sell m"
| "fee_sell (PercentageFees m) = percentage_sell m"

section \<open>The fee-model contract\<close>

text \<open>What a sale leaves after its fees, and what a purchase takes.\<close>

definition net_proceeds :: "fill \<Rightarrow> real \<Rightarrow> real" where
  "net_proceeds f quantity = fill_price f * quantity - fill_fees f"

definition gross_outlay :: "fill \<Rightarrow> real \<Rightarrow> real" where
  "gross_outlay f quantity = fill_price f * quantity + fill_fees f"

locale fee_contract =
  fixes buy :: "real \<Rightarrow> real \<Rightarrow> fill"
    and sell :: "real \<Rightarrow> real \<Rightarrow> fill"
  assumes buy_adverse: "0 \<le> p \<Longrightarrow> p \<le> fill_price (buy p q)"
    and buy_fees_nonneg: "0 \<le> p \<Longrightarrow> 0 \<le> q \<Longrightarrow> 0 \<le> fill_fees (buy p q)"
    and sell_adverse: "0 \<le> p \<Longrightarrow> fill_price (sell p q) \<le> p"
    and sell_fees_nonneg: "0 \<le> p \<Longrightarrow> 0 \<le> q \<Longrightarrow> 0 \<le> fill_fees (sell p q)"
    and proceeds_mono:
      "0 \<le> q \<Longrightarrow> p \<le> p' \<Longrightarrow> net_proceeds (sell p q) q \<le> net_proceeds (sell p' q) q"
begin

lemma proceeds_le_turnover:
  assumes "0 \<le> p" and "0 \<le> q"
  shows "net_proceeds (sell p q) q \<le> p * q"
proof -
  have "fill_price (sell p q) * q \<le> p * q"
    using assms sell_adverse by (simp add: mult_right_mono)
  then show ?thesis using sell_fees_nonneg [OF assms] by (simp add: net_proceeds_def)
qed

lemma outlay_ge_turnover:
  assumes "0 \<le> p" and "0 \<le> q"
  shows "p * q \<le> gross_outlay (buy p q) q"
proof -
  have "p * q \<le> fill_price (buy p q) * q"
    using assms buy_adverse by (simp add: mult_right_mono)
  then show ?thesis using buy_fees_nonneg [OF assms] by (simp add: gross_outlay_def)
qed

lemma round_trip_never_profits:
  assumes "0 \<le> p" and "0 \<le> q"
  shows "net_proceeds (sell p q) q \<le> gross_outlay (buy p q) q"
  using proceeds_le_turnover [OF assms] outlay_ge_turnover [OF assms] by linarith

end

text \<open>
  Rates below one: what the constructors' non-negativity checks leave open and the contract
  needs. The percentage model's own bound is 10000 basis points (\<open>ExecutionSettings.validate\<close>).
\<close>

fun fee_rates_valid :: "fee_model \<Rightarrow> bool" where
  "fee_rates_valid (NseFees m) \<longleftrightarrow>
     0 \<le> variable_fee_rate m \<and> variable_fee_rate m < 1 \<and> 0 \<le> fixed_fee_per_order m
     \<and> 0 \<le> slippage_rate m \<and> slippage_rate m < 1"
| "fee_rates_valid (CryptoFees m) \<longleftrightarrow>
     0 \<le> maker_taker_cost_bps m \<and> maker_taker_cost_bps m < 10000
     \<and> 0 \<le> crypto_slippage_bps m \<and> crypto_slippage_bps m < 10000"
| "fee_rates_valid (PercentageFees m) \<longleftrightarrow>
     0 \<le> transaction_cost_bps m \<and> transaction_cost_bps m < 10000
     \<and> 0 \<le> slippage_bps m \<and> slippage_bps m < 10000"

lemmas fee_defs =
  nse_buy_def nse_sell_def crypto_buy_def crypto_sell_def crypto_cost_rate_def
  crypto_slip_rate_def percentage_buy_def percentage_sell_def percentage_fill_def
  net_proceeds_def gross_outlay_def Let_def

text \<open>Net sale proceeds are affine in the price, with a positive slope per unit.\<close>

fun sale_slope :: "fee_model \<Rightarrow> real" where
  "sale_slope (NseFees m) = (1 - slippage_rate m) * (1 - variable_fee_rate m)"
| "sale_slope (CryptoFees m) = (1 - crypto_slip_rate m) * (1 - crypto_cost_rate m)"
| "sale_slope (PercentageFees m) =
     (1 - slippage_bps m / 10000) * (1 - transaction_cost_bps m / 10000)"

fun sale_fixed_fee :: "fee_model \<Rightarrow> real" where
  "sale_fixed_fee (NseFees m) = fixed_fee_per_order m"
| "sale_fixed_fee (CryptoFees m) = 0"
| "sale_fixed_fee (PercentageFees m) = 0"

lemma net_proceeds_affine:
  "net_proceeds (fee_sell m p q) q = sale_slope m * p * q - sale_fixed_fee m"
  by (cases m) (simp_all add: fee_defs field_simps)

lemma sale_slope_pos: "fee_rates_valid m \<Longrightarrow> 0 < sale_slope m"
  by (cases m) (auto simp: crypto_slip_rate_def crypto_cost_rate_def)

lemma sale_slope_le_1: "fee_rates_valid m \<Longrightarrow> sale_slope m \<le> 1"
  by (cases m) (auto simp: crypto_slip_rate_def crypto_cost_rate_def intro!: mult_le_one)

lemma sale_fixed_fee_nonneg: "fee_rates_valid m \<Longrightarrow> 0 \<le> sale_fixed_fee m"
  by (cases m) auto

lemma fee_buy_price_ge: "fee_rates_valid m \<Longrightarrow> 0 \<le> p \<Longrightarrow> p \<le> fill_price (fee_buy m p q)"
  by (cases m) (auto simp: fee_defs algebra_simps)

lemma fee_buy_fees_nonneg:
  "fee_rates_valid m \<Longrightarrow> 0 \<le> p \<Longrightarrow> 0 \<le> q \<Longrightarrow> 0 \<le> fill_fees (fee_buy m p q)"
  by (cases m) (auto simp: fee_defs)

lemma fee_sell_fees_nonneg:
  "fee_rates_valid m \<Longrightarrow> 0 \<le> p \<Longrightarrow> 0 \<le> q \<Longrightarrow> 0 \<le> fill_fees (fee_sell m p q)"
  by (cases m) (auto simp: fee_defs)

lemma valid_fee_contract:
  assumes "fee_rates_valid m"
  shows "fee_contract (fee_buy m) (fee_sell m)"
proof
  fix p q p' :: real
  show "0 \<le> p \<Longrightarrow> p \<le> fill_price (fee_buy m p q)" by (rule fee_buy_price_ge [OF assms])
  show "0 \<le> p \<Longrightarrow> 0 \<le> q \<Longrightarrow> 0 \<le> fill_fees (fee_buy m p q)"
    by (rule fee_buy_fees_nonneg [OF assms])
  show "0 \<le> p \<Longrightarrow> fill_price (fee_sell m p q) \<le> p"
    using assms by (cases m) (auto simp: fee_defs algebra_simps)
  show "0 \<le> p \<Longrightarrow> 0 \<le> q \<Longrightarrow> 0 \<le> fill_fees (fee_sell m p q)"
    by (rule fee_sell_fees_nonneg [OF assms])
  show "0 \<le> q \<Longrightarrow> p \<le> p' \<Longrightarrow>
      net_proceeds (fee_sell m p q) q \<le> net_proceeds (fee_sell m p' q) q"
    using sale_slope_pos [OF assms] by (simp add: net_proceeds_affine mult_left_mono mult_right_mono)
qed

lemma default_fees_valid [simp]:
  "fee_rates_valid (NseFees NSE_DEFAULT_FEES)" "fee_rates_valid (CryptoFees CRYPTO_DEFAULT_FEES)"
  by (simp_all add: NSE_DEFAULT_FEES_def CRYPTO_DEFAULT_FEES_def)

interpretation nse_fees: fee_contract
  "fee_buy (NseFees NSE_DEFAULT_FEES)" "fee_sell (NseFees NSE_DEFAULT_FEES)"
  by (rule valid_fee_contract, rule default_fees_valid)

interpretation crypto_fees: fee_contract
  "fee_buy (CryptoFees CRYPTO_DEFAULT_FEES)" "fee_sell (CryptoFees CRYPTO_DEFAULT_FEES)"
  by (rule valid_fee_contract, rule default_fees_valid)

section \<open>Markets, timeframes and sessions\<close>

datatype market = NSE | CRYPTO

fun market_name :: "market \<Rightarrow> string" where
  "market_name NSE = ''NSE''" | "market_name CRYPTO = ''CRYPTO''"

definition ascii_upper :: "char \<Rightarrow> char" where
  "ascii_upper c = (let n = of_char c :: nat in if 97 \<le> n \<and> n \<le> 122 then char_of (n - 32) else c)"

definition py_upper :: "string \<Rightarrow> string" where
  "py_upper s = map ascii_upper s"

text \<open>ASCII whitespace as \<open>str.strip\<close> removes it.\<close>

definition is_space :: "char \<Rightarrow> bool" where
  "is_space c = (let n = of_char c :: nat in n = 32 \<or> (9 \<le> n \<and> n \<le> 13) \<or> (28 \<le> n \<and> n \<le> 31))"

definition py_strip :: "string \<Rightarrow> string" where
  "py_strip s = rev (dropWhile is_space (rev (dropWhile is_space s)))"

definition market_timezone :: "string \<Rightarrow> string res" where
  "market_timezone m =
     (let key = py_upper (py_strip m)
      in if key = ''NSE'' then Inr ''Asia/Kolkata''
         else if key = ''CRYPTO'' then Inr ''UTC''
         else Inl (ValueError ''Unsupported market''))"

text \<open>
  The offset of each zone in microseconds. Asia/Kolkata has been UTC+05:30 without daylight
  saving since 1945, so both zones are fixed offsets for every timestamp of the program.
\<close>

definition DAY_US :: int where "DAY_US = 86400000000"

fun zone_offset_us :: "market \<Rightarrow> int" where
  "zone_offset_us NSE = 19800000000"
| "zone_offset_us CRYPTO = 0"

definition local_date :: "market \<Rightarrow> timestamp \<Rightarrow> day" where
  "local_date m t = (t + zone_offset_us m) div DAY_US"

definition local_time :: "market \<Rightarrow> timestamp \<Rightarrow> int" where
  "local_time m t = (t + zone_offset_us m) mod DAY_US"

text \<open>\<open>date.weekday\<close>: Monday is 0; the epoch day is a Thursday.\<close>

definition weekday :: "day \<Rightarrow> int" where
  "weekday d = (d + 3) mod 7"

definition NSE_MARKET_OPEN :: int where "NSE_MARKET_OPEN = 33300000000"
definition NSE_MARKET_CLOSE :: int where "NSE_MARKET_CLOSE = 55800000000"

definition nse_session_is_open :: "day set \<Rightarrow> timestamp \<Rightarrow> bool" where
  "nse_session_is_open holidays moment =
     (if 5 \<le> weekday (local_date NSE moment) then False
      else if local_date NSE moment \<in> holidays then False
      else NSE_MARKET_OPEN \<le> local_time NSE moment \<and> local_time NSE moment \<le> NSE_MARKET_CLOSE)"

definition crypto_session_is_open :: "timestamp \<Rightarrow> bool" where
  "crypto_session_is_open moment = True"

record market_spec =
  ms_market :: market
  ms_timezone :: string
  ms_currency :: string
  ms_fees :: fee_model
  ms_session_is_open :: "timestamp \<Rightarrow> bool"
  ms_bar_minutes :: "(string \<times> int) list"
  ms_daily_session_close :: "int option"

definition spec_minutes :: "market_spec \<Rightarrow> string \<Rightarrow> int res" where
  "spec_minutes s timeframe =
     (case map_of (ms_bar_minutes s) timeframe of
        None \<Rightarrow> Inl (ValueError ''market does not support the timeframe'')
      | Some n \<Rightarrow> Inr n)"

definition NSE_SPEC :: market_spec where
  "NSE_SPEC =
     \<lparr>ms_market = NSE, ms_timezone = ''Asia/Kolkata'', ms_currency = ''INR'',
      ms_fees = NseFees NSE_DEFAULT_FEES, ms_session_is_open = nse_session_is_open {},
      ms_bar_minutes = [(''5m'', 5), (''15m'', 15), (''30m'', 30), (''1h'', 60), (''4h'', 240), (''1d'', 375)],
      ms_daily_session_close = Some NSE_MARKET_CLOSE\<rparr>"

definition CRYPTO_SPEC :: market_spec where
  "CRYPTO_SPEC =
     \<lparr>ms_market = CRYPTO, ms_timezone = ''UTC'', ms_currency = ''USDT'',
      ms_fees = CryptoFees CRYPTO_DEFAULT_FEES, ms_session_is_open = crypto_session_is_open,
      ms_bar_minutes = [(''5m'', 5), (''15m'', 15), (''30m'', 30), (''1h'', 60), (''4h'', 240), (''1d'', 1440)],
      ms_daily_session_close = None\<rparr>"

definition market_spec_of :: "string \<Rightarrow> market_spec res" where
  "market_spec_of m =
     (let key = py_upper (py_strip m)
      in rbind (market_timezone key) (\<lambda>_.
         if key = ''NSE'' then Inr NSE_SPEC
         else if key = ''CRYPTO'' then Inr CRYPTO_SPEC
         else Inl (ValueError ''market must be NSE or CRYPTO'')))"

lemma market_spec_of_valid_fees:
  "market_spec_of m = Inr s \<Longrightarrow> fee_rates_valid (ms_fees s)"
  by (auto simp: market_spec_of_def Let_def rbind_eq_Inr NSE_SPEC_def CRYPTO_SPEC_def
      simp del: fee_rates_valid.simps split: if_splits)

lemma spec_minutes_pos:
  "market_spec_of m = Inr s \<Longrightarrow> spec_minutes s tf = Inr n \<Longrightarrow> 0 < n"
  by (auto simp: market_spec_of_def Let_def rbind_eq_Inr NSE_SPEC_def CRYPTO_SPEC_def
      spec_minutes_def split: if_splits option.splits)

section \<open>Properties\<close>

text \<open>
  Costs never help. For every fee model with rates below one, selling at the price one bought at
  never returns more than was paid, a purchase fills at or above the quoted price, a sale at or
  below it, fees are never negative, and a higher sale price never nets less. The default models
  of both markets are such models.
\<close>

theorem fees_never_create_profit:
  assumes "fee_rates_valid m" and "0 \<le> p" and "0 \<le> q"
  shows "net_proceeds (fee_sell m p q) q \<le> gross_outlay (fee_buy m p q) q
    \<and> p \<le> fill_price (fee_buy m p q) \<and> fill_price (fee_sell m p q) \<le> p
    \<and> 0 \<le> fill_fees (fee_buy m p q) \<and> 0 \<le> fill_fees (fee_sell m p q)
    \<and> (\<forall>p' \<ge> p. net_proceeds (fee_sell m p q) q \<le> net_proceeds (fee_sell m p' q) q)
    \<and> fee_rates_valid (NseFees NSE_DEFAULT_FEES) \<and> fee_rates_valid (CryptoFees CRYPTO_DEFAULT_FEES)"
proof -
  note c = valid_fee_contract [OF assms(1)]
  show ?thesis
    using fee_contract.round_trip_never_profits [OF c assms(2,3)] fee_contract.buy_adverse [OF c assms(2)]
      fee_contract.sell_adverse [OF c assms(2)] fee_contract.buy_fees_nonneg [OF c assms(2,3)]
      fee_contract.sell_fees_nonneg [OF c assms(2,3)] fee_contract.proceeds_mono [OF c assms(3)]
      default_fees_valid by blast
qed

theorem fees_never_create_profit_witness:
  "net_proceeds (fee_sell (NseFees NSE_DEFAULT_FEES) 100 10) 10 \<le> gross_outlay (fee_buy (NseFees NSE_DEFAULT_FEES) 100 10) 10"
  using fees_never_create_profit [of "NseFees NSE_DEFAULT_FEES" 100 10] default_fees_valid(1) by simp

end
