(* ===== verification/Fifo_Ledger.thy ===== *)
theory Fifo_Ledger
  imports Market_Fees
begin

text \<open>
  \<open>backend/core/fifo.py\<close>: the FIFO inventory that backtests and paper trading share, and the
  search for the market price at which a matched sale keeps its net profit target.

  \<open>fifo_consume\<close> is the source's mutating loop; \<open>fifo_take\<close> and \<open>fifo_drop\<close> are its
  reference, and for whole share counts the ledger refines a queue of single shares
  (\<open>units\<close>). The locale \<open>share_ledger\<close> is what the engines use of a ledger: a sale of no more
  than the total succeeds and lowers the total by exactly the quantity sold.
\<close>

section \<open>The inventory\<close>

record inventory_slice =
  slice_id :: string
  slice_at :: timestamp
  slice_price :: real
  slice_quantity :: real
  slice_fees :: real

record fifo_allocation =
  alloc_id :: string
  alloc_quantity :: real
  alloc_price :: real
  alloc_fees :: real

record fifo_match =
  match_quantity :: real
  match_cost_basis_price :: real
  match_entry_fees :: real
  match_allocations :: "fifo_allocation list"

type_synonym inventory = "inventory_slice list"

definition EPSILON :: real where "EPSILON = 1 / 10 ^ 9"

lemma EPSILON_pos [simp]: "0 < EPSILON" "0 \<le> EPSILON" "\<not> EPSILON < 0" "\<not> EPSILON \<le> 0"
  and EPSILON_less_1: "EPSILON < 1"
  by (simp_all add: EPSILON_def)

lemma not_le_EPSILON_pos: "\<not> r \<le> EPSILON \<Longrightarrow> 0 < r"
  using EPSILON_pos(1) by linarith

definition acquisition_cost :: "fifo_match \<Rightarrow> real" where
  "acquisition_cost m = match_cost_basis_price m * match_quantity m + match_entry_fees m"

definition inv_quantity :: "inventory \<Rightarrow> real" where
  "inv_quantity stock = sum_list (map slice_quantity stock)"

definition inv_cost :: "inventory \<Rightarrow> real" where
  "inv_cost stock = sum_list (map (\<lambda>s. slice_price s * slice_quantity s) stock)"

definition fifo_add ::
  "inventory \<Rightarrow> string \<Rightarrow> timestamp \<Rightarrow> real \<Rightarrow> real \<Rightarrow> real \<Rightarrow> inventory res" where
  "fifo_add stock acquisition_id acquired_at price quantity fees =
     (if quantity \<le> 0 \<or> price \<le> 0 \<or> fees < 0
      then Inl (ValueError ''FIFO acquisitions need positive price/quantity and non-negative fees'')
      else Inr (stock @ [\<lparr>slice_id = acquisition_id, slice_at = acquired_at, slice_price = price,
                        slice_quantity = quantity, slice_fees = fees\<rparr>]))"

text \<open>What one iteration of the loop takes from the oldest slice, and what it leaves of it.\<close>

definition slice_alloc :: "inventory_slice \<Rightarrow> real \<Rightarrow> fifo_allocation" where
  "slice_alloc s taken =
     \<lparr>alloc_id = slice_id s, alloc_quantity = taken, alloc_price = slice_price s,
      alloc_fees = slice_fees s * (taken / slice_quantity s)\<rparr>"

definition slice_rest :: "inventory_slice \<Rightarrow> real \<Rightarrow> inventory_slice" where
  "slice_rest s taken =
     s\<lparr>slice_quantity := slice_quantity s - taken,
       slice_fees := slice_fees s - slice_fees s * (taken / slice_quantity s)\<rparr>"

function consume_loop ::
  "inventory \<Rightarrow> real \<Rightarrow> fifo_allocation list \<Rightarrow> (inventory \<times> fifo_allocation list) res" where
  "consume_loop stock remaining allocations =
     (if remaining > EPSILON then
        (case stock of
           [] \<Rightarrow> Inl IndexError
         | s # rest \<Rightarrow>
             (let taken = min remaining (slice_quantity s)
              in if slice_quantity s = 0 then Inl ZeroDivisionError
                 else if slice_quantity (slice_rest s taken) \<le> EPSILON
                 then consume_loop rest (remaining - taken) (allocations @ [slice_alloc s taken])
                 else consume_loop (slice_rest s taken # rest) (remaining - taken)
                        (allocations @ [slice_alloc s taken])))
      else Inr (stock, allocations))"
  by pat_completeness auto
termination
proof (relation "measure (\<lambda>(stock, remaining, _). length stock + (if remaining > EPSILON then 1 else 0))")
  fix stock :: inventory and remaining :: real and allocations :: "fifo_allocation list"
    and s :: inventory_slice and rest :: inventory and taken :: real
  assume taken: "taken = min remaining (slice_quantity s)"
    and rem: "remaining > EPSILON" and stock: "stock = s # rest"
  show "((rest, remaining - taken, allocations @ [slice_alloc s taken]), stock, remaining, allocations)
     \<in> measure (\<lambda>(stock, remaining, _). length stock + (if remaining > EPSILON then 1 else 0))"
    using stock rem by simp
  assume "\<not> slice_quantity (slice_rest s taken) \<le> EPSILON"
  then have "taken = remaining"
    using taken by (auto simp: slice_rest_def min_def split: if_splits)
  then show "((slice_rest s taken # rest, remaining - taken, allocations @ [slice_alloc s taken]),
      stock, remaining, allocations)
     \<in> measure (\<lambda>(stock, remaining, _). length stock + (if remaining > EPSILON then 1 else 0))"
    using stock rem by simp
qed simp

declare consume_loop.simps [simp del]

definition alloc_cost :: "fifo_allocation list \<Rightarrow> real" where
  "alloc_cost as = sum_list (map (\<lambda>a. alloc_price a * alloc_quantity a) as)"

definition alloc_total :: "fifo_allocation list \<Rightarrow> real" where
  "alloc_total as = sum_list (map alloc_quantity as)"

definition alloc_fee_total :: "fifo_allocation list \<Rightarrow> real" where
  "alloc_fee_total as = sum_list (map alloc_fees as)"

definition fifo_consume :: "inventory \<Rightarrow> real \<Rightarrow> (fifo_match \<times> inventory) res" where
  "fifo_consume stock requested =
     (if requested \<le> 0 then Inl (ValueError ''FIFO sale quantity must be positive'')
      else if requested > inv_quantity stock + EPSILON
      then Inl (ValueError ''Cannot sell; FIFO inventory contains only less'')
      else rbind (consume_loop stock requested []) (\<lambda>(stock', allocations).
        if alloc_total allocations = 0 then Inl ZeroDivisionError
        else Inr (\<lparr>match_quantity = alloc_total allocations,
                   match_cost_basis_price = alloc_cost allocations / alloc_total allocations,
                   match_entry_fees = alloc_fee_total allocations,
                   match_allocations = allocations\<rparr>, stock')))"

text \<open>
  \<open>preview_allocations\<close> consumes from a clone: the matches are returned, the inventory is not.
\<close>

fun consume_each :: "inventory \<Rightarrow> real list \<Rightarrow> (fifo_match list \<times> inventory) res" where
  "consume_each stock [] = Inr ([], stock)"
| "consume_each stock (q # qs) =
     rbind (fifo_consume stock q) (\<lambda>(m, stock').
       rbind (consume_each stock' qs) (\<lambda>(ms, stock''). Inr (m # ms, stock'')))"

definition preview_allocations :: "inventory \<Rightarrow> real list \<Rightarrow> fifo_match list res" where
  "preview_allocations stock quantities = rbind (consume_each stock quantities) (\<lambda>(ms, _). Inr ms)"

section \<open>The loop against its reference\<close>

fun fifo_take :: "inventory \<Rightarrow> real \<Rightarrow> fifo_allocation list" where
  "fifo_take [] r = []"
| "fifo_take (s # ss) r =
     (if r \<le> EPSILON then []
      else slice_alloc s (min r (slice_quantity s)) # fifo_take ss (r - min r (slice_quantity s)))"

fun fifo_drop :: "inventory \<Rightarrow> real \<Rightarrow> inventory" where
  "fifo_drop [] r = []"
| "fifo_drop (s # ss) r =
     (if r \<le> EPSILON then s # ss
      else if slice_quantity s - min r (slice_quantity s) \<le> EPSILON
      then fifo_drop ss (r - min r (slice_quantity s))
      else slice_rest s r # ss)"

text \<open>Well-formed inventories: what \<open>add\<close> checks of every slice.\<close>

definition fifo_wf :: "inventory \<Rightarrow> bool" where
  "fifo_wf stock \<longleftrightarrow> (\<forall>s \<in> set stock. 0 < slice_quantity s \<and> 0 < slice_price s \<and> 0 \<le> slice_fees s)"

lemma fifo_wf_simps [simp]:
  "fifo_wf []"
  "fifo_wf (s # ss) \<longleftrightarrow> 0 < slice_quantity s \<and> 0 < slice_price s \<and> 0 \<le> slice_fees s \<and> fifo_wf ss"
  "fifo_wf (xs @ ys) \<longleftrightarrow> fifo_wf xs \<and> fifo_wf ys"
  by (auto simp: fifo_wf_def)

lemma inv_quantity_simps [simp]:
  "inv_quantity [] = 0" "inv_quantity (s # ss) = slice_quantity s + inv_quantity ss"
  "inv_quantity (xs @ ys) = inv_quantity xs + inv_quantity ys"
  by (simp_all add: inv_quantity_def)

lemma inv_cost_simps [simp]:
  "inv_cost [] = 0" "inv_cost (s # ss) = slice_price s * slice_quantity s + inv_cost ss"
  "inv_cost (xs @ ys) = inv_cost xs + inv_cost ys"
  by (simp_all add: inv_cost_def)

lemma alloc_sums_simps [simp]:
  "alloc_total [] = 0" "alloc_total (a # as) = alloc_quantity a + alloc_total as"
  "alloc_cost [] = 0" "alloc_cost (a # as) = alloc_price a * alloc_quantity a + alloc_cost as"
  "alloc_fee_total [] = 0" "alloc_fee_total (a # as) = alloc_fees a + alloc_fee_total as"
  by (simp_all add: alloc_total_def alloc_cost_def alloc_fee_total_def)

lemma slice_parts [simp]:
  "alloc_quantity (slice_alloc s t) = t" "alloc_price (slice_alloc s t) = slice_price s"
  "alloc_id (slice_alloc s t) = slice_id s"
  "slice_quantity (slice_rest s t) = slice_quantity s - t"
  "slice_price (slice_rest s t) = slice_price s" "slice_id (slice_rest s t) = slice_id s"
  "slice_at (slice_rest s t) = slice_at s"
  by (simp_all add: slice_alloc_def slice_rest_def)

lemma consume_loop_done [simp]: "r \<le> EPSILON \<Longrightarrow> consume_loop stock r as = Inr (stock, as)"
  by (simp add: consume_loop.simps)

lemma inv_quantity_nonneg: "fifo_wf stock \<Longrightarrow> 0 \<le> inv_quantity stock"
  by (induction stock) auto

lemma fifo_take_done [simp]: "r \<le> EPSILON \<Longrightarrow> fifo_take stock r = []"
  by (cases stock) auto

lemma fifo_drop_done [simp]: "r \<le> EPSILON \<Longrightarrow> fifo_drop stock r = stock"
  by (cases stock) auto

lemma consume_loop_reference:
  assumes "fifo_wf stock" and "r \<le> inv_quantity stock + EPSILON"
  shows "consume_loop stock r as = Inr (fifo_drop stock r, as @ fifo_take stock r)"
  using assms
proof (induction stock arbitrary: r as)
  case Nil
  then show ?case by simp
next
  case (Cons s ss)
  let ?t = "min r (slice_quantity s)"
  have IH: "consume_loop ss (r - ?t) (as @ [slice_alloc s ?t])
      = Inr (fifo_drop ss (r - ?t), (as @ [slice_alloc s ?t]) @ fifo_take ss (r - ?t))"
    using Cons.prems inv_quantity_nonneg [of ss] by (intro Cons.IH) (auto simp: min_def)
  show ?case
  proof (cases "r \<le> EPSILON")
    case False
    have "\<not> slice_quantity s - ?t \<le> EPSILON \<Longrightarrow> ?t = r" by (auto simp: min_def split: if_splits)
    with False IH Cons.prems show ?thesis
      by (subst consume_loop.simps) (auto simp: Let_def)
  qed simp
qed

lemma fifo_take_total:
  assumes "fifo_wf stock" and "0 \<le> r" and "r \<le> inv_quantity stock + EPSILON"
  shows "alloc_total (fifo_take stock r) \<le> r" and "r - EPSILON \<le> alloc_total (fifo_take stock r)"
  using assms
proof (induction stock arbitrary: r)
  case (Cons s ss)
  case 1
  with Cons.IH(1) [of "r - min r (slice_quantity s)"] inv_quantity_nonneg [of ss]
  show ?case by (auto simp: min_def)
  case 2
  with Cons.IH(2) [of "r - min r (slice_quantity s)"] inv_quantity_nonneg [of ss]
  show ?case by (auto simp: min_def)
qed auto

lemma fifo_drop_quantity:
  assumes "fifo_wf stock" and "0 \<le> r"
  shows "inv_quantity (fifo_drop stock r) \<le> inv_quantity stock - alloc_total (fifo_take stock r)"
    and "inv_quantity stock - alloc_total (fifo_take stock r) - EPSILON
           \<le> inv_quantity (fifo_drop stock r)"
  using assms
proof (induction stock arbitrary: r)
  case (Cons s ss)
  case 1
  with Cons.IH(1) [of "r - min r (slice_quantity s)"] show ?case
    by (auto simp: min_def)
  case 2
  with Cons.IH(2) [of "r - min r (slice_quantity s)"] show ?case
    by (auto simp: min_def)
qed auto

lemma slice_fees_split:
  "0 < slice_quantity s \<Longrightarrow> slice_fees (slice_rest s t) = slice_fees s - alloc_fees (slice_alloc s t)"
  by (simp add: slice_rest_def slice_alloc_def)

lemma slice_rest_fees_nonneg:
  assumes "0 < slice_quantity s" and "t \<le> slice_quantity s" and "0 \<le> slice_fees s"
  shows "0 \<le> slice_fees (slice_rest s t)"
proof -
  have "slice_fees s * (t / slice_quantity s) \<le> slice_fees s * 1"
    using assms by (intro mult_left_mono) simp_all
  then show ?thesis by (simp add: slice_rest_def)
qed

lemma fifo_drop_wf: "fifo_wf stock \<Longrightarrow> fifo_wf (fifo_drop stock r)"
proof (induction stock arbitrary: r)
  case (Cons s ss)
  show ?case
  proof (cases "slice_quantity s - min r (slice_quantity s) \<le> EPSILON")
    case False
    then have "r < slice_quantity s"
      by (auto simp: min_def dest!: not_le_EPSILON_pos split: if_splits)
    with Cons.prems show ?thesis using slice_rest_fees_nonneg [of s r] Cons.IH by auto
  qed (use Cons in auto)
qed auto

lemma fifo_take_fees_nonneg:
  "fifo_wf stock \<Longrightarrow> a \<in> set (fifo_take stock r) \<Longrightarrow> 0 \<le> alloc_fees a"
proof (induction stock arbitrary: r)
  case (Cons s ss)
  then show ?case by (auto simp: slice_alloc_def min_def dest!: not_le_EPSILON_pos split: if_splits)
qed auto

lemma fifo_take_quantity_pos:
  "fifo_wf stock \<Longrightarrow> a \<in> set (fifo_take stock r) \<Longrightarrow> 0 < alloc_quantity a"
proof (induction stock arbitrary: r)
  case (Cons s ss)
  then show ?case by (auto simp: min_def dest!: not_le_EPSILON_pos split: if_splits)
qed auto

lemma fifo_take_prices:
  "a \<in> set (fifo_take stock r) \<Longrightarrow>
     \<exists>s \<in> set stock. alloc_id a = slice_id s \<and> alloc_price a = slice_price s"
proof (induction stock arbitrary: r)
  case (Cons s ss)
  then show ?case by (fastforce split: if_splits)
qed auto

lemma fifo_take_order:
  "\<exists>k \<le> length stock. map alloc_id (fifo_take stock r) = map slice_id (take k stock)
     \<and> map alloc_price (fifo_take stock r) = map slice_price (take k stock)"
proof (induction stock arbitrary: r)
  case (Cons s ss)
  show ?case
  proof (cases "r \<le> EPSILON")
    case False
    obtain k where "k \<le> length ss"
      and "map alloc_id (fifo_take ss (r - min r (slice_quantity s))) = map slice_id (take k ss)"
      and "map alloc_price (fifo_take ss (r - min r (slice_quantity s))) = map slice_price (take k ss)"
      using Cons.IH by blast
    with False show ?thesis by (intro exI [of _ "Suc k"]) simp
  qed (rule exI [of _ 0], simp)
qed simp

lemma fifo_consume_cases:
  assumes "fifo_wf stock" and "fifo_consume stock q = Inr (m, stock')"
  shows "0 < q" and "q \<le> inv_quantity stock + EPSILON"
    and "match_allocations m = fifo_take stock q" and "stock' = fifo_drop stock q"
    and "match_quantity m = alloc_total (fifo_take stock q)"
    and "match_entry_fees m = alloc_fee_total (fifo_take stock q)"
    and "match_cost_basis_price m * match_quantity m = alloc_cost (fifo_take stock q)"
    and "match_quantity m \<noteq> 0"
  using assms consume_loop_reference [OF assms(1), of q "[]"]
  by (auto simp: fifo_consume_def rbind_eq_Inr split: if_splits)

lemma fifo_consume_ok:
  assumes "fifo_wf stock" and "EPSILON < q" and "q \<le> inv_quantity stock + EPSILON"
  shows "is_ok (fifo_consume stock q)"
proof -
  have "0 < q - EPSILON" and "0 \<le> q" using assms(2) EPSILON_pos(1) by linarith+
  moreover have "q - EPSILON \<le> alloc_total (fifo_take stock q)"
    using fifo_take_total(2) [OF assms(1) \<open>0 \<le> q\<close> assms(3)] .
  ultimately show ?thesis
    using assms consume_loop_reference [OF assms(1,3), of "[]"]
    by (auto simp: fifo_consume_def)
qed

section \<open>Whole share counts: a queue of single shares\<close>

definition whole_stock :: "inventory \<Rightarrow> bool" where
  "whole_stock stock \<longleftrightarrow> (\<forall>s \<in> set stock. slice_quantity s \<in> \<nat>)"

definition slice_units :: "inventory_slice \<Rightarrow> (string \<times> real) list" where
  "slice_units s = replicate (nat \<lfloor>slice_quantity s\<rfloor>) (slice_id s, slice_price s)"

definition units :: "inventory \<Rightarrow> (string \<times> real) list" where
  "units stock = concat (map slice_units stock)"

definition alloc_units :: "fifo_allocation list \<Rightarrow> (string \<times> real) list" where
  "alloc_units as = concat (map (\<lambda>a. replicate (nat \<lfloor>alloc_quantity a\<rfloor>) (alloc_id a, alloc_price a)) as)"

lemma whole_stock_simps [simp]:
  "whole_stock []" "whole_stock (s # ss) \<longleftrightarrow> slice_quantity s \<in> \<nat> \<and> whole_stock ss"
  "whole_stock (xs @ ys) \<longleftrightarrow> whole_stock xs \<and> whole_stock ys"
  by (auto simp: whole_stock_def)

lemma units_simps [simp]:
  "units [] = []" "units (s # ss) = slice_units s @ units ss" "units (xs @ ys) = units xs @ units ys"
  "alloc_units [] = []"
  "alloc_units (a # as) = replicate (nat \<lfloor>alloc_quantity a\<rfloor>) (alloc_id a, alloc_price a) @ alloc_units as"
  by (simp_all add: units_def alloc_units_def)

lemma of_nat_le_EPSILON [simp]: "real n \<le> EPSILON \<longleftrightarrow> n = 0"
  using EPSILON_less_1 by (cases n) (auto simp: not_le)

lemma of_nat_diff_le_EPSILON [simp]: "n \<le> k \<Longrightarrow> real k - real n \<le> EPSILON \<longleftrightarrow> k = n"
  using of_nat_le_EPSILON [of "k - n"] by (auto simp: of_nat_diff)

lemma nat_floor_of_nat_diff [simp]: "n \<le> k \<Longrightarrow> nat \<lfloor>real k - real n\<rfloor> = k - n"
  using floor_of_nat [where 'a = real and n = "k - n"] by (simp add: of_nat_diff)

lemma length_units: "whole_stock stock \<Longrightarrow> real (length (units stock)) = inv_quantity stock"
  by (induction stock) (auto simp: slice_units_def elim!: Nats_cases)

lemma whole_fifo_take:
  "whole_stock stock \<Longrightarrow> n \<le> length (units stock) \<Longrightarrow>
     alloc_units (fifo_take stock (real n)) = take n (units stock)
     \<and> alloc_total (fifo_take stock (real n)) = real n"
proof (induction stock arbitrary: n)
  case (Cons s ss)
  from Cons.prems(1) obtain k where k: "slice_quantity s = real k" by (auto elim: Nats_cases)
  show ?case
  proof (cases "n \<le> k")
    case True
    then show ?thesis by (auto simp: k slice_units_def min_def)
  next
    case False
    with Cons.IH [of "n - k"] Cons.prems show ?thesis
      by (simp add: k slice_units_def min_def of_nat_diff)
  qed
qed simp

lemma whole_fifo_drop:
  "whole_stock stock \<Longrightarrow>
     units (fifo_drop stock (real n)) = drop n (units stock) \<and> whole_stock (fifo_drop stock (real n))"
proof (induction stock arbitrary: n)
  case (Cons s ss)
  from Cons.prems obtain k where k: "slice_quantity s = real k" by (auto elim: Nats_cases)
  consider "n = 0" | "0 < n" "n < k" | "0 < n" "k \<le> n" by linarith
  then show ?case
  proof cases
    case 2
    then have "real k - real n = real (k - n)" by (simp add: of_nat_diff)
    then have "real k - real n \<in> \<nat>" by (metis of_nat_in_Nats)
    with 2 Cons.prems show ?thesis by (simp add: k slice_units_def min_def)
  next
    case 3
    with Cons.IH [of "n - k"] Cons.prems show ?thesis
      by (simp add: k slice_units_def min_def of_nat_diff)
  qed (use Cons.prems in simp)
qed simp

lemma whole_consume:
  assumes "fifo_wf stock" and "whole_stock stock" and "0 < n" and "n \<le> length (units stock)"
  obtains m where "fifo_consume stock (real n) = Inr (m, fifo_drop stock (real n))"
    and "match_quantity m = real n" and "alloc_units (match_allocations m) = take n (units stock)"
proof -
  have le: "real n \<le> inv_quantity stock" using assms(2,4) by (simp flip: length_units)
  have "EPSILON < real n" using assms(3) of_nat_le_EPSILON [of n] by linarith
  with le have "is_ok (fifo_consume stock (real n))"
    by (intro fifo_consume_ok [OF assms(1)]) (simp_all add: add_increasing2)
  then obtain m stock' where c: "fifo_consume stock (real n) = Inr (m, stock')"
    by (auto simp: is_ok_iff)
  note facts = fifo_consume_cases [OF assms(1) c]
  from facts c whole_fifo_take [OF assms(2,4)] show ?thesis by (intro that [of m]) auto
qed

text \<open>The cost of a match is the price of the single shares it took, summed.\<close>

lemma Nats_floor: "x \<in> \<nat> \<Longrightarrow> real (nat \<lfloor>x\<rfloor>) = x"
  by (auto elim!: Nats_cases)

lemma sum_list_replicate_real: "sum_list (replicate n (x::real)) = real n * x"
  by (induction n) (simp_all add: algebra_simps)

lemma alloc_cost_units:
  "(\<And>a. a \<in> set as \<Longrightarrow> alloc_quantity a \<in> \<nat>) \<Longrightarrow> alloc_cost as = sum_list (map snd (alloc_units as))"
  by (induction as) (auto simp: sum_list_replicate_real Nats_floor)

lemma inv_cost_units: "whole_stock stock \<Longrightarrow> inv_cost stock = sum_list (map snd (units stock))"
  by (induction stock) (auto simp: slice_units_def sum_list_replicate_real elim!: Nats_cases)

lemma fifo_take_whole:
  "whole_stock stock \<Longrightarrow> a \<in> set (fifo_take stock (real n)) \<Longrightarrow> alloc_quantity a \<in> \<nat>"
proof (induction stock arbitrary: n)
  case (Cons s ss)
  from Cons.prems(1) obtain k where k: "slice_quantity s = real k" by (auto elim: Nats_cases)
  show ?case
  proof (cases "n \<le> k")
    case True
    with Cons.prems k show ?thesis by (auto simp: min_def split: if_splits)
  next
    case False
    with Cons.IH [of "n - k"] Cons.prems k show ?thesis
      by (auto simp: min_def of_nat_diff split: if_splits)
  qed
qed simp

lemma whole_drop_cost:
  assumes "whole_stock stock" and "n \<le> length (units stock)"
  shows "inv_cost stock = alloc_cost (fifo_take stock (real n)) + inv_cost (fifo_drop stock (real n))"
proof -
  have "units stock = alloc_units (fifo_take stock (real n)) @ units (fifo_drop stock (real n))"
    using whole_fifo_take [OF assms] whole_fifo_drop [OF assms(1), of n] by simp
  then have "sum_list (map snd (units stock)) =
      sum_list (map snd (alloc_units (fifo_take stock (real n))))
      + sum_list (map snd (units (fifo_drop stock (real n))))"
    by (metis map_append sum_list_append)
  then show ?thesis
    using assms whole_fifo_drop [OF assms(1), of n]
    by (simp add: inv_cost_units alloc_cost_units fifo_take_whole)
qed

definition inv_fees :: "inventory \<Rightarrow> real" where
  "inv_fees stock = sum_list (map slice_fees stock)"

lemma inv_fees_simps [simp]:
  "inv_fees [] = 0" "inv_fees (s # ss) = slice_fees s + inv_fees ss"
  "inv_fees (xs @ ys) = inv_fees xs + inv_fees ys"
  by (simp_all add: inv_fees_def)

lemma whole_drop_fees:
  "fifo_wf stock \<Longrightarrow> whole_stock stock \<Longrightarrow>
     inv_fees stock = alloc_fee_total (fifo_take stock (real n)) + inv_fees (fifo_drop stock (real n))"
proof (induction stock arbitrary: n)
  case (Cons s ss)
  from Cons.prems(2) obtain k where k: "slice_quantity s = real k" by (auto elim: Nats_cases)
  consider "n = 0" | "0 < n" "n < k" | "0 < n" "k \<le> n" by linarith
  then show ?case
  proof cases
    case 2
    with k Cons.prems show ?thesis by (simp add: min_def slice_fees_split)
  next
    case 3
    have "alloc_fees (slice_alloc s (real k)) = slice_fees s"
      using Cons.prems k by (simp add: slice_alloc_def)
    moreover have "fifo_take (s # ss) (real n) = slice_alloc s (real k) # fifo_take ss (real (n - k))"
      and "fifo_drop (s # ss) (real n) = fifo_drop ss (real (n - k))"
      using 3 k by (auto simp: min_def of_nat_diff)
    moreover have "inv_fees ss = alloc_fee_total (fifo_take ss (real (n - k)))
        + inv_fees (fifo_drop ss (real (n - k)))"
      using Cons.prems by (intro Cons.IH) simp_all
    ultimately show ?thesis by (simp only: inv_fees_simps alloc_sums_simps add.assoc)
  qed simp
qed simp

section \<open>What the engines rely on\<close>

locale share_ledger =
  fixes ledger_ok :: "'l \<Rightarrow> bool"
    and ledger_total :: "'l \<Rightarrow> nat"
    and ledger_sell :: "'l \<Rightarrow> nat \<Rightarrow> ('m \<times> 'l) res"
    and match_size :: "'m \<Rightarrow> nat"
  assumes sell_ok:
    "ledger_ok l \<Longrightarrow> 0 < n \<Longrightarrow> n \<le> ledger_total l \<Longrightarrow> \<exists>m l'. ledger_sell l n = Inr (m, l')"
    and sell_keeps: "ledger_ok l \<Longrightarrow> ledger_sell l n = Inr (m, l') \<Longrightarrow> ledger_ok l'"
    and sell_total: "ledger_ok l \<Longrightarrow> ledger_sell l n = Inr (m, l') \<Longrightarrow> ledger_total l = ledger_total l' + n"
    and sell_size: "ledger_ok l \<Longrightarrow> ledger_sell l n = Inr (m, l') \<Longrightarrow> match_size m = n"
begin

fun sell_each :: "'l \<Rightarrow> nat list \<Rightarrow> ('m list \<times> 'l) res" where
  "sell_each l [] = Inr ([], l)"
| "sell_each l (n # ns) =
     rbind (ledger_sell l n) (\<lambda>(m, l'). rbind (sell_each l' ns) (\<lambda>(ms, l''). Inr (m # ms, l'')))"

lemma sell_each_ok:
  assumes "ledger_ok l" and "\<forall>n \<in> set ns. 0 < n" and "sum_list ns \<le> ledger_total l"
  shows "\<exists>ms l'. sell_each l ns = Inr (ms, l') \<and> ledger_ok l' \<and> map match_size ms = ns
    \<and> ledger_total l = ledger_total l' + sum_list ns"
  using assms
proof (induction ns arbitrary: l)
  case (Cons n ns)
  then obtain m l1 where s: "ledger_sell l n = Inr (m, l1)"
    using sell_ok [of l n] by auto
  note k = sell_keeps [OF Cons.prems(1) s] sell_total [OF Cons.prems(1) s] sell_size [OF Cons.prems(1) s]
  have "sum_list ns \<le> ledger_total l1" using Cons.prems(3) k(2) by simp
  then obtain ms l2 where "sell_each l1 ns = Inr (ms, l2)" "ledger_ok l2" "map match_size ms = ns"
      "ledger_total l1 = ledger_total l2 + sum_list ns"
    using Cons.IH [OF k(1)] Cons.prems(2) by auto
  with s k show ?case by auto
qed simp

end

definition stock_ok :: "inventory \<Rightarrow> bool" where
  "stock_ok stock \<longleftrightarrow> fifo_wf stock \<and> whole_stock stock"

definition sell_shares :: "inventory \<Rightarrow> nat \<Rightarrow> (fifo_match \<times> inventory) res" where
  "sell_shares stock n = fifo_consume stock (real n)"

lemma fifo_consume_shares:
  assumes "stock_ok stock" and "fifo_consume stock (real n) = Inr (m, stock')"
  shows "n \<le> length (units stock)" and "0 < n" and "stock_ok stock'"
    and "units stock' = drop n (units stock)"
    and "alloc_units (match_allocations m) = take n (units stock)"
    and "match_quantity m = real n"
proof -
  from assms(1) have wf: "fifo_wf stock" "whole_stock stock" by (auto simp: stock_ok_def)
  note c = fifo_consume_cases [OF wf(1) assms(2)]
  have "real n < real (length (units stock)) + 1"
    using c(2) EPSILON_less_1 length_units [OF wf(2)] by simp
  then show le: "n \<le> length (units stock)" by linarith
  show "0 < n" using c(1) by simp
  show "stock_ok stock'" and "units stock' = drop n (units stock)"
    using whole_fifo_drop [OF wf(2), of n] fifo_drop_wf [OF wf(1)] c(4) by (simp_all add: stock_ok_def)
  show "alloc_units (match_allocations m) = take n (units stock)" and "match_quantity m = real n"
    using whole_fifo_take [OF wf(2) le] c(3,5) by simp_all
qed

interpretation fifo: share_ledger stock_ok "\<lambda>l. length (units l)" sell_shares
  "\<lambda>m. nat \<lfloor>match_quantity m\<rfloor>"
proof
  fix l l' :: inventory and n :: nat and m :: fifo_match
  assume ok: "stock_ok l"
  show "0 < n \<Longrightarrow> n \<le> length (units l) \<Longrightarrow> \<exists>m l'. sell_shares l n = Inr (m, l')"
    using ok by (metis whole_consume sell_shares_def stock_ok_def)
  assume "sell_shares l n = Inr (m, l')"
  then have c: "fifo_consume l (real n) = Inr (m, l')" by (simp add: sell_shares_def)
  from fifo_consume_shares [OF ok c]
  show "stock_ok l'" and "length (units l) = length (units l') + n" and "nat \<lfloor>match_quantity m\<rfloor> = n"
    by auto
qed

lemma consume_each_sell_each:
  "consume_each stock (map real ns) = fifo.sell_each stock ns"
proof (induction ns arbitrary: stock)
  case (Cons n ns)
  have "fifo_consume stock (real n) = sell_shares stock n" by (simp add: sell_shares_def)
  with Cons.IH show ?case by (simp add: rbind_def split: sum.splits prod.splits)
qed simp

lemma consume_each_units:
  assumes "stock_ok stock" and "consume_each stock (map real ns) = Inr (ms, stock')"
  shows "concat (map (\<lambda>m. alloc_units (match_allocations m)) ms) = take (sum_list ns) (units stock)
    \<and> map match_quantity ms = map real ns"
  using assms
proof (induction ns arbitrary: stock ms)
  case (Cons n ns)
  then obtain m stock1 ms' where c: "fifo_consume stock (real n) = Inr (m, stock1)"
    and rest: "consume_each stock1 (map real ns) = Inr (ms', stock')" and ms: "ms = m # ms'"
    by (auto simp: rbind_eq_Inr)
  note s = fifo_consume_shares [OF Cons.prems(1) c]
  from Cons.IH [OF s(3) rest] s ms show ?case by (auto simp: take_add)
qed simp

lemma preview_runs:
  assumes "stock_ok stock" and "\<forall>n \<in> set ns. 0 < n" and "sum_list ns \<le> length (units stock)"
  shows "\<exists>ms. preview_allocations stock (map real ns) = Inr ms \<and> map match_quantity ms = map real ns
    \<and> concat (map (\<lambda>m. alloc_units (match_allocations m)) ms) = take (sum_list ns) (units stock)"
proof -
  obtain ms stock' where "consume_each stock (map real ns) = Inr (ms, stock')"
    using fifo.sell_each_ok [OF assms] by (auto simp: consume_each_sell_each)
  with consume_each_units [OF assms(1) this] show ?thesis by (simp add: preview_allocations_def)
qed

section \<open>Properties\<close>

definition example_stock :: inventory where
  "example_stock =
     [\<lparr>slice_id = ''A'', slice_at = 0, slice_price = 100, slice_quantity = 10, slice_fees = 20\<rparr>,
      \<lparr>slice_id = ''B'', slice_at = 1, slice_price = 90, slice_quantity = 5, slice_fees = 10\<rparr>]"

lemma example_stock_ok [simp]: "stock_ok example_stock" "length (units example_stock) = 15"
  using of_nat_in_Nats [where 'a = real, of 10] of_nat_in_Nats [where 'a = real, of 5]
  by (simp_all add: stock_ok_def example_stock_def slice_units_def)

lemma stock_ok_parts: "stock_ok stock \<Longrightarrow> fifo_wf stock" "stock_ok stock \<Longrightarrow> whole_stock stock"
  by (simp_all add: stock_ok_def)

text \<open>
  C1. First in, first out. On whole share counts the inventory is a queue of single shares: a sale
  of no more shares than are held succeeds, it takes exactly the oldest shares and leaves the
  others in their order, and its cost basis is the average entry price of the shares taken.
\<close>

theorem fifo_consume_refines_queue:
  assumes "stock_ok stock" and "0 < n" and "n \<le> length (units stock)"
  shows "\<exists>m stock'. fifo_consume stock (real n) = Inr (m, stock') \<and> stock_ok stock'
    \<and> alloc_units (match_allocations m) = take n (units stock)
    \<and> units stock' = drop n (units stock)
    \<and> match_quantity m = real n
    \<and> match_cost_basis_price m = sum_list (map snd (take n (units stock))) / real n"
proof -
  note wf = stock_ok_parts [OF assms(1)]
  obtain m where c: "fifo_consume stock (real n) = Inr (m, fifo_drop stock (real n))"
    using whole_consume [OF wf assms(2,3)] by blast
  note s = fifo_consume_shares [OF assms(1) c] and f = fifo_consume_cases [OF wf(1) c]
  have "match_cost_basis_price m * real n = sum_list (map snd (take n (units stock)))"
    using f(3,7) s(5,6) alloc_cost_units [of "fifo_take stock (real n)"]
      fifo_take_whole [OF wf(2)] by simp
  then have "match_cost_basis_price m = sum_list (map snd (take n (units stock))) / real n"
    using assms(2) by (simp add: field_simps)
  with c s show ?thesis by blast
qed

theorem fifo_consume_refines_queue_witness:
  "\<exists>m stock'. fifo_consume example_stock (real 12) = Inr (m, stock')
    \<and> alloc_units (match_allocations m) = replicate 10 (''A'', 100) @ replicate 2 (''B'', 90)
    \<and> units stock' = replicate 3 (''B'', 90)"
proof -
  have "take 12 (units example_stock) = replicate 10 (''A'', 100) @ replicate 2 (''B'', 90)"
    and "drop 12 (units example_stock) = replicate 3 (''B'', 90)"
    by (simp_all add: example_stock_def slice_units_def eval_nat_numeral)
  with fifo_consume_refines_queue [of example_stock 12] show ?thesis
    by fastforce
qed

text \<open>
  Nothing is lost by a sale: quantity, cost and entry fees of the inventory before it are those
  of the match plus those of the inventory after it, so the proportional fee allocation charges
  every rupee of entry fees exactly once.
\<close>

theorem fifo_consume_conserves:
  assumes "stock_ok stock" and "fifo_consume stock (real n) = Inr (m, stock')"
  shows "inv_quantity stock = match_quantity m + inv_quantity stock'
    \<and> inv_cost stock = match_cost_basis_price m * match_quantity m + inv_cost stock'
    \<and> inv_fees stock = match_entry_fees m + inv_fees stock'"
proof -
  note wf = stock_ok_parts [OF assms(1)]
  note s = fifo_consume_shares [OF assms] and f = fifo_consume_cases [OF wf(1) assms(2)]
  have "real (length (units stock)) = real n + real (length (units stock'))"
    using s(1,4) by simp
  then show ?thesis
    using f(4,6,7) s(6) stock_ok_parts(2) [OF s(3)] length_units wf(2)
      whole_drop_cost [OF wf(2) s(1)] whole_drop_fees [OF wf, of n]
    by simp
qed

theorem fifo_consume_conserves_witness:
  "\<exists>m stock'. fifo_consume example_stock (real 12) = Inr (m, stock')
    \<and> inv_fees stock' = 30 - match_entry_fees m"
proof -
  obtain m stock' where c: "fifo_consume example_stock (real 12) = Inr (m, stock')"
    using fifo.sell_ok [of example_stock 12] by (auto simp: sell_shares_def)
  from fifo_consume_conserves [OF _ c] have "inv_fees example_stock = match_entry_fees m + inv_fees stock'"
    by simp
  with c show ?thesis by (intro exI [of _ m] exI [of _ stock']) (simp add: example_stock_def)
qed

text \<open>
  C34. Every outcome of \<open>consume\<close>, for any well-formed inventory and any real quantity. A
  quantity that is not positive and one beyond the inventory (plus the tolerance) raise
  \<open>ValueError\<close>; a positive quantity within the tolerance of zero passes both guards and ends in
  a \<open>ZeroDivisionError\<close>; every other sale succeeds.
\<close>

theorem fifo_consume_outcomes:
  assumes "fifo_wf stock"
  shows "((\<exists>e. fifo_consume stock q = Inl (ValueError e)) \<longleftrightarrow> q \<le> 0 \<or> inv_quantity stock + EPSILON < q)
    \<and> (fifo_consume stock q = Inl ZeroDivisionError \<longleftrightarrow> 0 < q \<and> q \<le> EPSILON)
    \<and> (is_ok (fifo_consume stock q) \<longleftrightarrow> EPSILON < q \<and> q \<le> inv_quantity stock + EPSILON)"
proof -
  note nn = inv_quantity_nonneg [OF assms]
  consider "q \<le> 0 \<or> inv_quantity stock + EPSILON < q" | "0 < q" "q \<le> EPSILON"
    | "EPSILON < q" "q \<le> inv_quantity stock + EPSILON" by linarith
  then show ?thesis
  proof cases
    case 1
    then have "\<exists>e. fifo_consume stock q = Inl (ValueError e)" by (auto simp: fifo_consume_def)
    moreover have "\<not> (EPSILON < q \<and> q \<le> 0)" using EPSILON_pos(1) by linarith
    ultimately show ?thesis using 1 nn by auto
  next
    case 2
    then have "fifo_consume stock q = Inl ZeroDivisionError"
      using nn by (auto simp: fifo_consume_def)
    with 2 nn show ?thesis by auto
  next
    case 3
    have "0 < q" using 3(1) EPSILON_pos(1) by linarith
    moreover have "is_ok (fifo_consume stock q)" by (rule fifo_consume_ok [OF assms 3])
    ultimately show ?thesis using 3 by (auto simp: is_ok_iff)
  qed
qed

theorem fifo_consume_outcomes_witness:
  "\<exists>e. fifo_consume example_stock 16 = Inl (ValueError e)"
proof -
  have "inv_quantity example_stock + EPSILON < 16"
    by (simp add: example_stock_def EPSILON_def)
  then show ?thesis
    using fifo_consume_outcomes [of example_stock 16] stock_ok_parts(1) [of example_stock] by simp
qed

text \<open>
  Fractional quantities. For any well-formed inventory a sale that succeeds matches the
  requested quantity up to the tolerance of \<open>1e-9\<close>, allocates from a prefix of the acquisitions
  in their order, each at its own entry price, and leaves a well-formed inventory that is smaller
  by the matched quantity up to the tolerance.
\<close>

theorem fifo_consume_fractional:
  assumes "fifo_wf stock" and "fifo_consume stock q = Inr (m, stock')"
  shows "fifo_wf stock' \<and> \<bar>match_quantity m - q\<bar> \<le> EPSILON
    \<and> \<bar>inv_quantity stock - match_quantity m - inv_quantity stock'\<bar> \<le> EPSILON
    \<and> (\<exists>k \<le> length stock. map alloc_id (match_allocations m) = map slice_id (take k stock)
         \<and> map alloc_price (match_allocations m) = map slice_price (take k stock))"
proof -
  note c = fifo_consume_cases [OF assms]
  have "0 \<le> q" using c(1) by simp
  note t = fifo_take_total [OF assms(1) \<open>0 \<le> q\<close> c(2)] fifo_drop_quantity [OF assms(1) \<open>0 \<le> q\<close>]
  show ?thesis
    using t fifo_drop_wf [OF assms(1)] fifo_take_order [of stock q] c(3-5)
      EPSILON_pos by (auto simp: abs_le_iff)
qed

theorem fifo_consume_fractional_witness:
  "\<exists>m stock'. fifo_consume example_stock (5 / 2) = Inr (m, stock') \<and> \<bar>match_quantity m - 5 / 2\<bar> \<le> EPSILON"
proof -
  note wf = stock_ok_parts(1) [OF example_stock_ok(1)]
  have "EPSILON < 5 / 2" and "5 / 2 \<le> inv_quantity example_stock + EPSILON"
    by (simp_all add: EPSILON_def example_stock_def)
  then obtain m stock' where "fifo_consume example_stock (5 / 2) = Inr (m, stock')"
    using fifo_consume_ok [OF wf] by (metis is_ok_iff surj_pair)
  with fifo_consume_fractional [OF wf this] show ?thesis by blast
qed

text \<open>
  The preview of several sales is what the sales would do one after the other: when their total
  is in stock the preview succeeds, with one match per quantity and the shares of the matches
  being consecutive runs of the queue; it never changes the inventory, which it does not return.
\<close>

theorem preview_allocations_runs:
  assumes "stock_ok stock" and "\<forall>n \<in> set ns. 0 < n" and "sum_list ns \<le> length (units stock)"
  shows "\<exists>ms. preview_allocations stock (map real ns) = Inr ms \<and> map match_quantity ms = map real ns
    \<and> concat (map (\<lambda>m. alloc_units (match_allocations m)) ms) = take (sum_list ns) (units stock)"
  using preview_runs [OF assms] .

theorem preview_allocations_runs_witness:
  "\<exists>ms. preview_allocations example_stock (map real [4, 8]) = Inr ms \<and> map match_quantity ms = [4, 8]"
  using preview_allocations_runs [of example_stock "[4, 8]"] by auto

end
