(* ===== verification/Profit_Target.thy ===== *)
theory Profit_Target
  imports Fifo_Ledger
begin

text \<open>
  \<open>net_profit_target_price\<close> of \<open>backend/core/fifo.py\<close>: a doubling search for a price that is
  high enough, 64 bisection steps, and a final rounding up to paise. The doubling loop is given
  fuel; \<open>grow_high_fuel_irrelevant\<close> and \<open>net_profit_target_never_diverges\<close> show that 1025 units
  are enough, because the search starts at 1 or more and raises once it passes \<open>2 ^ 1024\<close>.
\<close>

definition desired_proceeds :: "fifo_match \<Rightarrow> real \<Rightarrow> real" where
  "desired_proceeds m target_pct = acquisition_cost m * (1 + target_pct / 100)"

definition sale_proceeds :: "fifo_match \<Rightarrow> fee_model \<Rightarrow> real \<Rightarrow> real" where
  "sale_proceeds m fees raw_price =
     (let f = fee_sell fees raw_price (match_quantity m)
      in fill_price f * match_quantity m - fill_fees f)"

fun grow_high :: "nat \<Rightarrow> (real \<Rightarrow> real) \<Rightarrow> real \<Rightarrow> real \<Rightarrow> real res" where
  "grow_high 0 proceeds desired high = Inl OutOfFuel"
| "grow_high (Suc fuel) proceeds desired high =
     (if proceeds high < desired then
        (if \<not> is_finite (high * 2) then Inl (ValueError ''FIFO profit target cannot be represented'')
         else grow_high fuel proceeds desired (high * 2))
      else Inr high)"

fun bisect :: "nat \<Rightarrow> (real \<Rightarrow> real) \<Rightarrow> real \<Rightarrow> real \<Rightarrow> real \<Rightarrow> real" where
  "bisect 0 proceeds desired low high = high"
| "bisect (Suc n) proceeds desired low high =
     (let middle = (low + high) / 2
      in if proceeds middle \<ge> desired then bisect n proceeds desired low middle
         else bisect n proceeds desired middle high)"

definition initial_high :: "fifo_match \<Rightarrow> real \<Rightarrow> real" where
  "initial_high m target_pct = max (match_cost_basis_price m * (1 + target_pct / 100)) 1"

definition net_profit_target_price :: "fifo_match \<Rightarrow> fee_model \<Rightarrow> real \<Rightarrow> real res" where
  "net_profit_target_price m fees target_pct =
     (if target_pct \<le> 0 then Inl (ValueError ''FIFO profit target must be positive'')
      else rbind (grow_high 1025 (sale_proceeds m fees) (desired_proceeds m target_pct)
                    (initial_high m target_pct)) (\<lambda>high0.
        let high = bisect 64 (sale_proceeds m fees) (desired_proceeds m target_pct) 0 high0
        in Inr (of_int \<lceil>high * 100\<rceil> / 100)))"

section \<open>The doubling loop\<close>

lemma grow_high_reaches: "grow_high fuel pr d h = Inr h' \<Longrightarrow> d \<le> pr h'"
  by (induction fuel arbitrary: h) (auto split: if_splits)

lemma grow_high_minimal: "grow_high fuel pr d h = Inr h' \<Longrightarrow> h' = h \<or> pr (h' / 2) < d"
proof (induction fuel arbitrary: h)
  case (Suc fuel)
  show ?case
  proof (cases "pr h < d")
    case True
    with Suc.prems have rec: "grow_high fuel pr d (h * 2) = Inr h'" by (auto split: if_splits)
    from Suc.IH [OF rec] True show ?thesis by auto
  qed (use Suc.prems in auto)
qed simp

lemma grow_high_ge: "0 \<le> h \<Longrightarrow> grow_high fuel pr d h = Inr h' \<Longrightarrow> h \<le> h'"
proof (induction fuel arbitrary: h)
  case (Suc fuel)
  show ?case
  proof (cases "pr h < d")
    case True
    with Suc.prems have "grow_high fuel pr d (h * 2) = Inr h'" by (auto split: if_splits)
    with Suc.IH [of "h * 2"] Suc.prems(1) show ?thesis by simp
  qed (use Suc.prems in auto)
qed simp

text \<open>After \<open>k\<close> doublings of a start of at least 1, less than \<open>1024 - k\<close> more can be finite.\<close>

lemma grow_high_no_fuel_error:
  "2 ^ k \<le> h \<Longrightarrow> 1024 < k + fuel \<Longrightarrow> k \<le> 1024 \<Longrightarrow> grow_high fuel pr d h \<noteq> Inl OutOfFuel"
proof (induction fuel arbitrary: h k)
  case (Suc fuel)
  show ?case
  proof (cases "pr h < d \<and> is_finite (h * 2)")
    case True
    have step: "(2::real) ^ Suc k \<le> h * 2" using Suc.prems(1) by simp
    have "(2::real) ^ Suc k < DOUBLE_LIMIT"
      using True step unfolding is_finite_def by linarith
    then have "Suc k < 1024" by (simp only: power_less_DOUBLE_LIMIT)
    with True Suc.IH [OF step] Suc.prems(2) show ?thesis by simp
  qed auto
qed simp

lemma grow_high_more_fuel:
  "grow_high fuel pr d h \<noteq> Inl OutOfFuel \<Longrightarrow> grow_high (fuel + k) pr d h = grow_high fuel pr d h"
  by (induction fuel arbitrary: h) auto

lemma grow_high_fuel_irrelevant:
  assumes "1 \<le> h" and "1025 \<le> fuel"
  shows "grow_high fuel pr d h = grow_high 1025 pr d h"
proof -
  have "grow_high 1025 pr d h \<noteq> Inl OutOfFuel"
    using assms(1) by (intro grow_high_no_fuel_error [of 0]) simp_all
  with grow_high_more_fuel [of 1025 pr d h "fuel - 1025"] assms(2) show ?thesis by simp
qed

lemma grow_high_ok:
  assumes "1 \<le> h" and reach: "\<And>p. B \<le> p \<Longrightarrow> d \<le> pr p" and "B \<le> DOUBLE_LIMIT / 2" and "1024 < k + fuel"
    and "2 ^ k \<le> h" and "k \<le> 1024"
  shows "\<exists>h'. grow_high fuel pr d h = Inr h'"
proof (cases "grow_high fuel pr d h")
  case (Inl e)
  then have "e \<noteq> OutOfFuel" using grow_high_no_fuel_error [OF assms(5,4,6)] by auto
  have "grow_high fuel pr d h = Inl e \<Longrightarrow> 0 \<le> h \<Longrightarrow> e \<noteq> OutOfFuel \<Longrightarrow>
      \<exists>p. pr p < d \<and> \<not> is_finite (p * 2) \<and> 0 \<le> p" for fuel h
    by (induction fuel arbitrary: h) (fastforce split: if_splits)+
  from this [OF Inl _ \<open>e \<noteq> OutOfFuel\<close>] \<open>1 \<le> h\<close> obtain p
    where p: "pr p < d" "\<not> is_finite (p * 2)" "0 \<le> p" by auto
  have "p < DOUBLE_LIMIT / 2"
    using reach [of p] p(1) assms(3) by (meson le_less_trans not_le)
  then have False using p by (simp add: is_finite_def)
  then show ?thesis ..
qed auto

section \<open>The bisection\<close>

lemma bisect_sound: "d \<le> pr high \<Longrightarrow> d \<le> pr (bisect n pr d low high)"
  by (induction n arbitrary: low high) (auto simp: Let_def)

lemma bisect_close:
  assumes "pr low < d" and "low \<le> high"
  shows "\<exists>p. pr p < d \<and> p \<le> bisect n pr d low high
    \<and> bisect n pr d low high - p = (high - low) / 2 ^ n"
  using assms
proof (induction n arbitrary: low high)
  case (Suc n)
  let ?m = "(low + high) / 2"
  show ?case
  proof (cases "pr ?m \<ge> d")
    case True
    have "low \<le> ?m" using Suc.prems by simp
    from Suc.IH [OF Suc.prems(1) this] True show ?thesis
      by (auto simp: Let_def field_simps)
  next
    case False
    then have "pr ?m < d" and "?m \<le> high" using Suc.prems by auto
    from Suc.IH [OF this] False show ?thesis
      by (auto simp: Let_def field_simps)
  qed
qed auto

section \<open>The target price\<close>

text \<open>The exact price at which the sale's net proceeds reach the desired ones.\<close>

definition exact_target :: "fifo_match \<Rightarrow> fee_model \<Rightarrow> real \<Rightarrow> real" where
  "exact_target m fees pct =
     (desired_proceeds m pct + sale_fixed_fee fees) / (sale_slope fees * match_quantity m)"

lemma ceil_paise:
  fixes x :: real
  shows "x \<le> of_int \<lceil>x * 100\<rceil> / 100" and "of_int \<lceil>x * 100\<rceil> / 100 < x + 1 / 100"
  by linarith+

lemma initial_high_ge_1: "1 \<le> initial_high m pct"
  by (simp add: initial_high_def)

lemma sale_proceeds_net:
  "sale_proceeds m fees p = net_proceeds (fee_sell fees p (match_quantity m)) (match_quantity m)"
  by (simp add: sale_proceeds_def net_proceeds_def Let_def)

lemma sale_proceeds_affine:
  "sale_proceeds m fees p = sale_slope fees * p * match_quantity m - sale_fixed_fee fees"
  by (simp add: sale_proceeds_net net_proceeds_affine)

lemma sale_proceeds_reach:
  assumes "fee_rates_valid fees" and "0 < match_quantity m"
  shows "desired_proceeds m pct \<le> sale_proceeds m fees p \<longleftrightarrow> exact_target m fees pct \<le> p"
  using assms sale_slope_pos [OF assms(1)]
  by (simp add: sale_proceeds_affine exact_target_def pos_divide_le_eq algebra_simps)

lemma net_profit_target_cases:
  assumes "net_profit_target_price m fees pct = Inr r"
  obtains h b where "grow_high 1025 (sale_proceeds m fees) (desired_proceeds m pct)
        (initial_high m pct) = Inr h"
    and "b = bisect 64 (sale_proceeds m fees) (desired_proceeds m pct) 0 h"
    and "r = of_int \<lceil>b * 100\<rceil> / 100"
  using assms unfolding net_profit_target_price_def
  by (auto simp: rbind_eq_Inr Let_def split: if_splits)

lemma net_profit_target_sound:
  assumes "net_profit_target_price m fees pct = Inr r"
    and "fee_rates_valid fees" and "0 \<le> match_quantity m"
  shows "desired_proceeds m pct \<le> sale_proceeds m fees r"
  using assms(1)
proof (rule net_profit_target_cases)
  fix h b
  assume h: "grow_high 1025 (sale_proceeds m fees) (desired_proceeds m pct) (initial_high m pct) = Inr h"
    and b: "b = bisect 64 (sale_proceeds m fees) (desired_proceeds m pct) 0 h"
    and r: "r = of_int \<lceil>b * 100\<rceil> / 100"
  have "desired_proceeds m pct \<le> sale_proceeds m fees b"
    unfolding b by (rule bisect_sound) (rule grow_high_reaches [OF h])
  also have "b \<le> r" unfolding r by (rule ceil_paise)
  then have "sale_proceeds m fees b \<le> sale_proceeds m fees r"
    using fee_contract.proceeds_mono [OF valid_fee_contract [OF assms(2)] assms(3)]
    by (simp add: sale_proceeds_net)
  finally show ?thesis .
qed

lemma net_profit_target_returns:
  assumes "0 < pct" and "fee_rates_valid fees" and "0 < match_quantity m"
    and "exact_target m fees pct \<le> DOUBLE_LIMIT / 2"
  shows "\<exists>r. net_profit_target_price m fees pct = Inr r"
proof -
  have "\<exists>h. grow_high 1025 (sale_proceeds m fees) (desired_proceeds m pct) (initial_high m pct) = Inr h"
    by (rule grow_high_ok [where B = "exact_target m fees pct" and k = 0])
      (use assms sale_proceeds_reach [OF assms(2,3)] in \<open>auto simp: initial_high_def\<close>)
  then obtain h where h: "grow_high 1025 (sale_proceeds m fees) (desired_proceeds m pct)
      (initial_high m pct) = Inr h" ..
  from assms(1) have "\<not> pct \<le> 0" by simp
  then show ?thesis
    unfolding net_profit_target_price_def Let_def h by (simp only: if_False rbind_simps) blast
qed

lemma net_profit_target_tight:
  assumes "net_profit_target_price m fees pct = Inr r"
    and "fee_rates_valid fees" and "0 < match_quantity m" and "0 < desired_proceeds m pct"
  shows "r < exact_target m fees pct + 1 / 100
    + max (initial_high m pct) (2 * exact_target m fees pct) / 2 ^ 64"
  using assms(1)
proof (rule net_profit_target_cases)
  let ?pr = "sale_proceeds m fees" and ?d = "desired_proceeds m pct" and ?x = "exact_target m fees pct"
  fix h b
  assume h: "grow_high 1025 ?pr ?d (initial_high m pct) = Inr h"
    and b: "b = bisect 64 ?pr ?d 0 h" and r: "r = of_int \<lceil>b * 100\<rceil> / 100"
  have below: "?pr p < ?d \<longleftrightarrow> p < ?x" for p
    using sale_proceeds_reach [OF assms(2,3), of pct p] by linarith
  have "h \<le> max (initial_high m pct) (2 * ?x)"
    using grow_high_minimal [OF h] below [of "h / 2"] by auto
  then have bound: "h / 2 ^ 64 \<le> max (initial_high m pct) (2 * ?x) / 2 ^ 64"
    by (rule divide_right_mono) simp
  have "0 \<le> h" using grow_high_ge [OF _ h] initial_high_ge_1 [of m pct] by linarith
  moreover have "?pr 0 < ?d"
    using assms(4) sale_fixed_fee_nonneg [OF assms(2)] by (simp add: sale_proceeds_affine)
  ultimately obtain p where p: "?pr p < ?d" "b - p = h / 2 ^ 64"
    using bisect_close [of ?pr 0 ?d h 64] unfolding b by auto
  have "p < ?x" using p(1) by (simp only: below)
  moreover have "r < b + 1 / 100" unfolding r by (rule ceil_paise)
  ultimately show ?thesis using p(2) bound by linarith
qed

text \<open>
  C4. For a positive target, fee rates below one and a positive matched quantity whose exact
  break-even price is representable, \<open>net_profit_target_price\<close> returns (the doubling loop ends and
  never reports an unrepresentable price), the returned price leaves at least the configured net
  return after the sell slippage and fees, and it overshoots the exact price by less than one
  paisa plus the bisection residue.
\<close>

theorem net_profit_target_correct:
  assumes "0 < pct" and "fee_rates_valid fees" and "0 < match_quantity m"
    and "0 < acquisition_cost m" and "exact_target m fees pct \<le> DOUBLE_LIMIT / 2"
  shows "\<exists>r. net_profit_target_price m fees pct = Inr r
    \<and> acquisition_cost m * (1 + pct / 100)
        \<le> net_proceeds (fee_sell fees r (match_quantity m)) (match_quantity m)
    \<and> r < exact_target m fees pct + 1 / 100
        + max (initial_high m pct) (2 * exact_target m fees pct) / 2 ^ 64"
proof -
  obtain r where r: "net_profit_target_price m fees pct = Inr r"
    using net_profit_target_returns [OF assms(1-3,5)] by blast
  have "0 < desired_proceeds m pct" using assms(1,4) by (simp add: desired_proceeds_def)
  with r net_profit_target_sound [OF r assms(2)] net_profit_target_tight [OF r assms(2,3)] assms(3)
  show ?thesis by (auto simp: desired_proceeds_def sale_proceeds_net)
qed

definition example_match :: fifo_match where
  "example_match = \<lparr>match_quantity = 10, match_cost_basis_price = 100, match_entry_fees = 21,
     match_allocations = []\<rparr>"

lemma DOUBLE_LIMIT_large: "1000 \<le> DOUBLE_LIMIT / 2"
  using power_less_DOUBLE_LIMIT [of 11] by simp

theorem net_profit_target_correct_witness:
  "\<exists>r. net_profit_target_price example_match (NseFees NSE_DEFAULT_FEES) 5 = Inr r
    \<and> 1021 * (1 + 5 / 100) \<le> net_proceeds (fee_sell (NseFees NSE_DEFAULT_FEES) r 10) 10"
proof -
  have "exact_target example_match (NseFees NSE_DEFAULT_FEES) 5 \<le> DOUBLE_LIMIT / 2"
    by (rule order_trans [OF _ DOUBLE_LIMIT_large])
      (simp add: exact_target_def desired_proceeds_def acquisition_cost_def example_match_def
        NSE_DEFAULT_FEES_def)
  moreover have "acquisition_cost example_match = 1021" and "match_quantity example_match = 10"
    by (simp_all add: acquisition_cost_def example_match_def)
  ultimately show ?thesis
    using net_profit_target_correct [of 5 "NseFees NSE_DEFAULT_FEES" example_match]
      default_fees_valid(1) by fastforce
qed

text \<open>
  The guard of the target: a percentage that is not positive always raises, and a positive one
  never makes the doubling loop run for ever.
\<close>

theorem net_profit_target_errors:
  "(pct \<le> 0 \<longrightarrow>
      net_profit_target_price m fees pct = Inl (ValueError ''FIFO profit target must be positive''))
   \<and> net_profit_target_price m fees pct \<noteq> Inl OutOfFuel"
proof -
  have "grow_high 1025 pr d (initial_high m pct) \<noteq> Inl OutOfFuel" for pr d
    by (rule grow_high_no_fuel_error [of 0]) (simp_all add: initial_high_def)
  then show ?thesis by (auto simp: net_profit_target_price_def rbind_eq_Inl Let_def)
qed

theorem net_profit_target_errors_witness:
  "net_profit_target_price example_match (NseFees NSE_DEFAULT_FEES) 0
     = Inl (ValueError ''FIFO profit target must be positive'')"
  using net_profit_target_errors [of 0 example_match "NseFees NSE_DEFAULT_FEES"] by simp

end
