(* ===== verification/Strategy_Config.thy ===== *)
theory Strategy_Config
  imports Market_Fees "HOL-Library.AList"
begin

text \<open>
  \<open>backend/strategies/base.py\<close> (\<open>default_config\<close>, \<open>resolve_config\<close>) and
  \<open>backend/strategies/lot_policy.py\<close> (the price-band ladder).

  A configuration is a Python dict with string keys: an association list in insertion order, whose
  update keeps the position of a key it already has (\<open>AList.update\<close>). Its values are \<open>pyval\<close>.
  An infinite float is a \<open>PyFloat\<close> of at least \<open>2 ^ 1024\<close>; NaN is not a value of the model.
  \<open>py_float\<close> and \<open>py_int\<close> are the constructors \<open>float(v)\<close> and \<open>int(v)\<close>, with
  the decimal literals they accept from a string.
\<close>

section \<open>Configuration values\<close>

datatype pyval =
    PyNone
  | PyBool bool
  | PyInt int
  | PyFloat real
  | PyStr string
  | PyList "pyval list"

type_synonym config = "(string \<times> pyval) list"

definition is_digit :: "char \<Rightarrow> bool" where
  "is_digit c \<longleftrightarrow> 48 \<le> (of_char c :: nat) \<and> (of_char c :: nat) \<le> 57"

fun underscores_ok :: "bool \<Rightarrow> string \<Rightarrow> bool" where
  "underscores_ok after_digit [] = True"
| "underscores_ok after_digit (c # cs) =
     (if c = CHR ''_'' then after_digit \<and> (case cs of [] \<Rightarrow> False | d # ds \<Rightarrow> is_digit d) \<and> underscores_ok False cs
      else underscores_ok (is_digit c) cs)"

definition digits_value :: "string \<Rightarrow> nat" where
  "digits_value ds = foldl (\<lambda>n c. 10 * n + (of_char c - 48)) 0 ds"

text \<open>A sign in front of a literal, and its literal.\<close>

fun split_sign :: "string \<Rightarrow> int \<times> string" where
  "split_sign (c # cs) =
     (if c = CHR ''-'' then (-1, cs) else if c = CHR ''+'' then (1, cs) else (1, c # cs))"
| "split_sign [] = (1, [])"

definition parse_int :: "string \<Rightarrow> int option" where
  "parse_int s =
     (let t = py_strip s; (sgn, body) = split_sign t; ds = filter (\<lambda>c. c \<noteq> CHR ''_'') body
      in if ds \<noteq> [] \<and> list_all is_digit ds \<and> underscores_ok False body
         then Some (sgn * int (digits_value ds)) else None)"

definition parse_mantissa :: "string \<Rightarrow> real option" where
  "parse_mantissa s =
     (let whole = takeWhile (\<lambda>c. c \<noteq> CHR ''.'') s;
          frac = drop 1 (dropWhile (\<lambda>c. c \<noteq> CHR ''.'') s)
      in if whole @ frac \<noteq> [] \<and> list_all is_digit (whole @ frac)
         then Some (real (digits_value (whole @ frac)) / 10 ^ length frac) else None)"

definition parse_float :: "string \<Rightarrow> real option" where
  "parse_float s =
     (let t = py_strip s; (sgn, body) = split_sign t;
          plain = filter (\<lambda>c. c \<noteq> CHR ''_'') body;
          is_e = (\<lambda>c. c = CHR ''e'' \<or> c = CHR ''E'');
          mant = takeWhile (\<lambda>c. \<not> is_e c) plain;
          expo = dropWhile (\<lambda>c. \<not> is_e c) plain
      in if \<not> underscores_ok False body then None
         else (case parse_mantissa mant of
             None \<Rightarrow> None
           | Some m \<Rightarrow>
               (if expo = [] then Some (of_int sgn * m)
                else let (esgn, ds) = split_sign (drop 1 expo)
                     in if ds = [] \<or> \<not> list_all is_digit ds then None
                        else Some (of_int sgn * (if esgn = 1 then m * 10 ^ digits_value ds
                                                 else m / 10 ^ digits_value ds)))))"

fun py_float :: "pyval \<Rightarrow> real res" where
  "py_float (PyBool b) = Inr (if b then 1 else 0)"
| "py_float (PyInt i) = (if is_finite (of_int i) then Inr (of_int i) else Inl OverflowError)"
| "py_float (PyFloat r) = Inr r"
| "py_float (PyStr s) =
     (case parse_float s of None \<Rightarrow> Inl (ValueError ''could not convert string to float'') | Some r \<Rightarrow> Inr r)"
| "py_float PyNone = Inl (TypeError ''float() argument must be a string or a real number'')"
| "py_float (PyList _) = Inl (TypeError ''float() argument must be a string or a real number'')"

fun py_int :: "pyval \<Rightarrow> int res" where
  "py_int (PyBool b) = Inr (if b then 1 else 0)"
| "py_int (PyInt i) = Inr i"
| "py_int (PyFloat r) =
     (if is_finite r then Inr (if 0 \<le> r then \<lfloor>r\<rfloor> else \<lceil>r\<rceil>) else Inl OverflowError)"
| "py_int (PyStr s) =
     (case parse_int s of None \<Rightarrow> Inl (ValueError ''invalid literal for int() with base 10'') | Some i \<Rightarrow> Inr i)"
| "py_int PyNone = Inl (TypeError ''int() argument must be a string or a real number'')"
| "py_int (PyList _) = Inl (TypeError ''int() argument must be a string or a real number'')"

fun is_bool :: "pyval \<Rightarrow> bool" where
  "is_bool (PyBool _) = True" | "is_bool _ = False"

text \<open>\<open>isinstance(v, (int, float))\<close>, and \<open>float.is_integer\<close>: infinities are no integers.\<close>

fun is_number :: "pyval \<Rightarrow> bool" where
  "is_number (PyBool _) = True"
| "is_number (PyInt _) = True"
| "is_number (PyFloat _) = True"
| "is_number _ = False"

definition is_integer :: "real \<Rightarrow> bool" where
  "is_integer r \<longleftrightarrow> is_finite r \<and> of_int \<lfloor>r\<rfloor> = r"

text \<open>
  \<open>v < bound\<close> and \<open>v > bound\<close> against a number: numbers and Booleans compare, any other
  value raises. Equality compares numbers across their types.
\<close>

fun num_value :: "pyval \<Rightarrow> real option" where
  "num_value (PyBool b) = Some (if b then 1 else 0)"
| "num_value (PyInt i) = Some (of_int i)"
| "num_value (PyFloat r) = Some r"
| "num_value _ = None"

fun num_elem :: "pyval \<Rightarrow> real res" where
  "num_elem v = (case num_value v of None \<Rightarrow> Inl (TypeError ''not supported between instances'') | Some r \<Rightarrow> Inr r)"

lemma zip_left_size [termination_simp]:
  "(a, b) \<in> set (zip xs ys) \<Longrightarrow> size a < Suc (size_list size xs)"
  by (drule set_zip_leftD) (induction xs; auto)

fun py_eq :: "pyval \<Rightarrow> pyval \<Rightarrow> bool" where
  "py_eq (PyStr s) (PyStr t) = (s = t)"
| "py_eq PyNone PyNone = True"
| "py_eq (PyList xs) (PyList ys) = (length xs = length ys \<and> list_all (\<lambda>(x, y). py_eq x y) (zip xs ys))"
| "py_eq u v = (case (num_value u, num_value v) of (Some a, Some b) \<Rightarrow> a = b | _ \<Rightarrow> False)"

section \<open>Strategy configuration: defaults, merge and checks\<close>

record field_def =
  fd_type :: string
  fd_default :: "pyval option"
  fd_minimum :: "real option"
  fd_maximum :: "real option"
  fd_enum :: "pyval list option"
  fd_min_items :: "nat option"
  fd_max_items :: "nat option"

type_synonym config_schema = "(string \<times> field_def) list"

definition default_config :: "config_schema \<Rightarrow> config" where
  "default_config schema =
     List.map_filter (\<lambda>(name, d). map_option (Pair name) (fd_default d)) schema"

text \<open>One item of an integer array.\<close>

definition array_item :: "string \<Rightarrow> pyval \<Rightarrow> int res" where
  "array_item name item =
     (if is_bool item \<or> \<not> is_number item then Inl (ValueError (name @ '' must contain whole numbers''))
      else rbind (py_float item) (\<lambda>r.
        if \<not> is_integer r then Inl (ValueError (name @ '' must contain whole numbers'')) else py_int item))"

definition array_bounds :: "string \<Rightarrow> field_def \<Rightarrow> int list \<Rightarrow> pyval res" where
  "array_bounds name d converted =
     (if case_option False (\<lambda>k. length converted < k) (fd_min_items d)
      then Inl (ValueError (name @ '' must contain at least that many values''))
      else if case_option False (\<lambda>k. length converted > k) (fd_max_items d)
      then Inl (ValueError (name @ '' must contain at most that many values''))
      else if case_option False (\<lambda>m. list_ex (\<lambda>i. of_int i < m) converted) (fd_minimum d)
      then Inl (ValueError (name @ '' values must be at least the minimum''))
      else if case_option False (\<lambda>m. list_ex (\<lambda>i. of_int i > m) converted) (fd_maximum d)
      then Inl (ValueError (name @ '' values must be at most the maximum''))
      else Inr (PyList (map PyInt converted)))"

text \<open>
  The conversion by the field's type. \<open>py_str\<close> stands for \<open>str(v)\<close> on a value that is no
  string; on a string it is the identity.
\<close>

definition convert_value :: "(pyval \<Rightarrow> string) \<Rightarrow> string \<Rightarrow> field_def \<Rightarrow> pyval \<Rightarrow> pyval res" where
  "convert_value py_str name d v =
     (if fd_type d = ''integer'' then
        (if is_bool v then Inl (ValueError (name @ '' must be a whole number''))
         else rbind (py_float v) (\<lambda>r.
           if \<not> is_integer r then Inl (ValueError (name @ '' must be a whole number''))
           else rbind (py_int v) (\<lambda>i. Inr (PyInt i))))
      else if fd_type d = ''integer_array'' then
        (case v of
           PyList items \<Rightarrow> rbind (rmap_list (array_item name) items) (array_bounds name d)
         | _ \<Rightarrow> Inl (ValueError (name @ '' must be an integer array'')))
      else if fd_type d = ''number'' then
        (if is_bool v then Inl (ValueError (name @ '' must be a number''))
         else rbind (py_float v) (\<lambda>r. Inr (PyFloat r)))
      else if fd_type d = ''boolean'' then
        (if is_bool v then Inr v else Inl (ValueError (name @ '' must be true or false'')))
      else if fd_type d = ''string'' then
        Inr (case v of PyStr s \<Rightarrow> PyStr s | _ \<Rightarrow> PyStr (py_str v))
      else Inr v)"

definition check_bounds :: "string \<Rightarrow> field_def \<Rightarrow> pyval \<Rightarrow> unit res" where
  "check_bounds name d v =
     (if fd_type d = ''integer_array'' then Inr ()
      else rbind (case fd_minimum d of None \<Rightarrow> Inr ()
              | Some m \<Rightarrow> rbind (num_elem v) (\<lambda>r. raise_if (r < m) (ValueError (name @ '' must be at least the minimum''))))
           (\<lambda>_. case fd_maximum d of None \<Rightarrow> Inr ()
              | Some m \<Rightarrow> rbind (num_elem v) (\<lambda>r. raise_if (r > m) (ValueError (name @ '' must be at most the maximum'')))))"

definition check_enum :: "string \<Rightarrow> field_def \<Rightarrow> pyval \<Rightarrow> unit res" where
  "check_enum name d v =
     (case fd_enum d of None \<Rightarrow> Inr ()
      | Some vs \<Rightarrow> raise_if (\<not> list_ex (py_eq v) vs) (ValueError (name @ '' must be one of the enumerated values'')))"

definition resolve_value :: "(pyval \<Rightarrow> string) \<Rightarrow> string \<Rightarrow> field_def \<Rightarrow> pyval \<Rightarrow> pyval res" where
  "resolve_value py_str name d v =
     rbind (convert_value py_str name d v) (\<lambda>w.
       rbind (check_bounds name d w) (\<lambda>_. rbind (check_enum name d w) (\<lambda>_. Inr w)))"

definition resolve_step :: "(pyval \<Rightarrow> string) \<Rightarrow> config_schema \<Rightarrow> config \<Rightarrow> string \<times> pyval \<Rightarrow> config res" where
  "resolve_step py_str schema resolved entry =
     (case map_of schema (fst entry) of
        None \<Rightarrow> Inl (KeyError (fst entry))
      | Some d \<Rightarrow> rbind (resolve_value py_str (fst entry) d (snd entry))
          (\<lambda>w. Inr (AList.update (fst entry) w resolved)))"

definition resolve_config :: "(pyval \<Rightarrow> string) \<Rightarrow> config_schema \<Rightarrow> config \<Rightarrow> config res" where
  "resolve_config py_str schema config =
     (if list_ex (\<lambda>(k, _). k \<notin> fst ` set schema) config
      then Inl (ValueError ''Unknown strategy configuration keys'')
      else rfold (resolve_step py_str schema) (default_config schema) config)"

section \<open>The price-band ladder\<close>

record price_band_ladder =
  price_threshold :: real
  high_price_quantities :: "int list"
  low_price_quantities :: "int list"
  dip_step_pct :: real
  maximum_position_capital :: real

definition positive_quantity :: "string \<Rightarrow> pyval \<Rightarrow> int res" where
  "positive_quantity name item =
     (if is_bool item \<or> \<not> is_number item then Inl (ValueError (name @ '' must contain positive whole quantities''))
      else rbind (py_float item) (\<lambda>r.
        if \<not> is_integer r then Inl (ValueError (name @ '' must contain positive whole quantities''))
        else rbind (py_int item) (\<lambda>i.
          if i \<le> 0 then Inl (ValueError (name @ '' must contain positive whole quantities'')) else Inr i)))"

definition positive_quantities :: "pyval option \<Rightarrow> string \<Rightarrow> int list res" where
  "positive_quantities value name =
     (case value of
        Some (PyList (item # items)) \<Rightarrow> rmap_list (positive_quantity name) (item # items)
      | _ \<Rightarrow> Inl (ValueError (name @ '' must be a non-empty integer array'')))"

definition required_float :: "config \<Rightarrow> string \<Rightarrow> real res" where
  "required_float values key =
     (case map_of values key of None \<Rightarrow> Inl (KeyError key) | Some v \<Rightarrow> py_float v)"

definition ladder_from_config :: "config \<Rightarrow> price_band_ladder option res" where
  "ladder_from_config values =
     (if map_of values ''lot_sizing_mode'' \<noteq> Some (PyStr ''PRICE_BAND_LADDER'') then Inr None
      else rbind (positive_quantities (map_of values ''high_price_quantities'') ''high_price_quantities'') (\<lambda>high.
        rbind (positive_quantities (map_of values ''low_price_quantities'') ''low_price_quantities'') (\<lambda>low.
        if length high \<noteq> length low
        then Inl (ValueError ''High- and low-price quantity ladders must have the same number of lots'')
        else rbind (required_float values ''price_band_threshold'') (\<lambda>threshold.
          rbind (required_float values ''dip_step_pct'') (\<lambda>dip.
          rbind (required_float values ''maximum_position_capital'') (\<lambda>capital.
          if threshold \<le> 0 then Inl (ValueError ''price_band_threshold must be greater than zero'')
          else if \<not> (0 < dip \<and> dip < 100) then Inl (ValueError ''dip_step_pct must be between 0 and 100'')
          else if capital \<le> 0 then Inl (ValueError ''maximum_position_capital must be greater than zero'')
          else Inr (Some \<lparr>price_threshold = threshold, high_price_quantities = high,
                 low_price_quantities = low, dip_step_pct = dip,
                 maximum_position_capital = capital\<rparr>)))))))"

definition maximum_entries :: "price_band_ladder \<Rightarrow> nat" where
  "maximum_entries l = length (high_price_quantities l)"

definition ladder_quantity :: "price_band_ladder \<Rightarrow> int \<Rightarrow> real \<Rightarrow> int res" where
  "ladder_quantity l entry_number first_entry_price =
     (if entry_number < 0 \<or> entry_number \<ge> int (maximum_entries l)
      then Inl (ValueError ''Entry number is outside the configured quantity ladder'')
      else let ladder = (if first_entry_price \<ge> price_threshold l
                         then high_price_quantities l else low_price_quantities l)
           in if nat entry_number < length ladder then Inr (ladder ! nat entry_number) else Inl IndexError)"

definition dip_price :: "price_band_ladder \<Rightarrow> real \<Rightarrow> real" where
  "dip_price l last_entry_price = last_entry_price * (1 - dip_step_pct l / 100)"

definition additional_entry_allowed :: "price_band_ladder \<Rightarrow> real \<Rightarrow> real \<Rightarrow> bool" where
  "additional_entry_allowed l signal_price last_entry_price \<longleftrightarrow> signal_price \<le> dip_price l last_entry_price"

definition within_capital :: "price_band_ladder \<Rightarrow> real \<Rightarrow> real \<Rightarrow> real \<Rightarrow> bool" where
  "within_capital l current_open_capital entry_price quantity \<longleftrightarrow>
     current_open_capital + entry_price * quantity \<le> maximum_position_capital l"

section \<open>What the ladder promises\<close>

definition ladder_ok :: "price_band_ladder \<Rightarrow> bool" where
  "ladder_ok l \<longleftrightarrow> 0 < price_threshold l \<and> 0 < dip_step_pct l \<and> dip_step_pct l < 100
     \<and> 0 < maximum_position_capital l \<and> high_price_quantities l \<noteq> []
     \<and> length (low_price_quantities l) = length (high_price_quantities l)
     \<and> (\<forall>q \<in> set (high_price_quantities l) \<union> set (low_price_quantities l). 0 < q)"

lemma positive_quantity_pos: "positive_quantity name v = Inr i \<Longrightarrow> 0 < i"
  by (auto simp: positive_quantity_def rbind_eq_Inr split: if_splits)

lemma positive_quantities_ok:
  assumes "positive_quantities value name = Inr qs"
  shows "qs \<noteq> []" and "\<forall>q \<in> set qs. 0 < q"
proof -
  from assms obtain item items where r: "rmap_list (positive_quantity name) (item # items) = Inr qs"
    by (auto simp: positive_quantities_def split: option.splits pyval.splits list.splits)
  then show "qs \<noteq> []" using rmap_list_length by fastforce
  show "\<forall>q \<in> set qs. 0 < q"
    using rmap_list_nth [OF r] rmap_list_length [OF r] positive_quantity_pos
    by (metis in_set_conv_nth)
qed

lemma ladder_from_config_ok: "ladder_from_config values = Inr (Some l) \<Longrightarrow> ladder_ok l"
  by (auto simp: ladder_from_config_def ladder_ok_def rbind_eq_Inr dest: positive_quantities_ok
      split: if_splits)

lemma ladder_quantity_ok:
  assumes "ladder_ok l"
  shows "(\<exists>q. ladder_quantity l k p = Inr q) \<longleftrightarrow> 0 \<le> k \<and> k < int (maximum_entries l)"
    and "ladder_quantity l k p = Inr q \<Longrightarrow> 0 < q"
  using assms
  by (auto simp: ladder_quantity_def ladder_ok_def maximum_entries_def Let_def split: if_splits)

lemma dip_price_less: "ladder_ok l \<Longrightarrow> 0 < p \<Longrightarrow> 0 < dip_price l p \<and> dip_price l p < p"
  by (auto simp: ladder_ok_def dip_price_def)

section \<open>Resolution is idempotent\<close>

text \<open>Schemas as the strategies write them: distinct names, defaults that pass their own checks.\<close>

definition schema_ok :: "(pyval \<Rightarrow> string) \<Rightarrow> config_schema \<Rightarrow> bool" where
  "schema_ok py_str schema \<longleftrightarrow> distinct (map fst schema)
     \<and> (\<forall>(name, d) \<in> set schema. \<forall>v. fd_default d = Some v \<longrightarrow> resolve_value py_str name d v = Inr v)"

definition settled :: "(pyval \<Rightarrow> string) \<Rightarrow> config_schema \<Rightarrow> config \<Rightarrow> bool" where
  "settled py_str schema c \<longleftrightarrow> distinct (map fst c)
     \<and> (\<forall>(k, v) \<in> set c. \<exists>d. map_of schema k = Some d \<and> resolve_value py_str k d v = Inr v)"

lemma array_item_whole: "array_item name v = Inr i \<Longrightarrow> is_integer (of_int i)"
proof (cases v)
  case (PyFloat r)
  assume "array_item name v = Inr i"
  with PyFloat have "is_integer r" "i = \<lfloor>r\<rfloor> \<or> i = \<lceil>r\<rceil>"
    by (auto simp: array_item_def split: if_splits)
  then show ?thesis by (metis ceiling_of_int is_integer_def)
qed (auto simp: array_item_def is_integer_def split: if_splits)

lemma array_item_idem: "array_item name v = Inr i \<Longrightarrow> array_item name (PyInt i) = Inr i"
  using array_item_whole by (auto simp: array_item_def is_integer_def)

lemma array_items_idem:
  "rmap_list (array_item name) vs = Inr is \<Longrightarrow> rmap_list (array_item name) (map PyInt is) = Inr is"
  by (induction vs arbitrary: "is") (auto simp: rbind_eq_Inr array_item_idem)

lemma digits_not_marks:
  assumes "list_all is_digit ds"
  shows "c \<in> set ds \<Longrightarrow> c \<noteq> CHR ''.'' \<and> c \<noteq> CHR ''e'' \<and> c \<noteq> CHR ''E''"
  using assms by (auto simp: list_all_iff is_digit_def)

lemma parse_mantissa_digits:
  assumes "list_all is_digit ds" and "ds \<noteq> []"
  shows "parse_mantissa ds = Some (real (digits_value ds))"
proof -
  have w: "takeWhile (\<lambda>c. c \<noteq> CHR ''.'') ds = ds" and f: "dropWhile (\<lambda>c. c \<noteq> CHR ''.'') ds = []"
    using digits_not_marks [OF assms(1)] by auto
  show ?thesis unfolding parse_mantissa_def Let_def w f using assms by simp
qed

lemma parse_int_float: "parse_int s = Some i \<Longrightarrow> parse_float s = Some (of_int i)"
proof -
  assume int: "parse_int s = Some i"
  obtain sgn body where sb: "split_sign (py_strip s) = (sgn, body)" by fastforce
  let ?ds = "filter (\<lambda>c. c \<noteq> CHR ''_'') body"
  from int sb have ds: "?ds \<noteq> []" "list_all is_digit ?ds" "underscores_ok False body"
    and i: "i = sgn * int (digits_value ?ds)"
    by (auto simp: parse_int_def Let_def split: if_splits)
  note marks = digits_not_marks [OF ds(2)]
  have w: "takeWhile (\<lambda>c. \<not> (c = CHR ''e'' \<or> c = CHR ''E'')) ?ds = ?ds"
    and e: "dropWhile (\<lambda>c. \<not> (c = CHR ''e'' \<or> c = CHR ''E'')) ?ds = []"
    using marks by (auto simp: takeWhile_eq_all_conv dropWhile_eq_Nil_conv)
  show ?thesis
    unfolding parse_float_def Let_def sb prod.case w e parse_mantissa_digits [OF ds(2,1)]
    using ds(3) i by simp
qed

lemma py_int_whole:
  assumes "py_float v = Inr r" and "is_integer r" and "py_int v = Inr i"
  shows "of_int i = r"
proof (cases v)
  case (PyFloat x)
  with assms have "of_int \<lfloor>x\<rfloor> = x" "r = x" "i = \<lfloor>x\<rfloor> \<or> i = \<lceil>x\<rceil>"
    by (auto simp: is_integer_def split: if_splits)
  then show ?thesis by (metis ceiling_of_int)
next
  case (PyStr s)
  with assms parse_int_float [of s i] show ?thesis by (auto split: option.splits)
qed (use assms in \<open>auto split: if_splits\<close>)

lemma convert_value_idem:
  assumes "convert_value py_str name d v = Inr w"
  shows "convert_value py_str name d w = Inr w"
proof -
  consider (int) "fd_type d = ''integer''" | (arr) "fd_type d = ''integer_array''"
    | (num) "fd_type d = ''number''" | (bool) "fd_type d = ''boolean''" | (str) "fd_type d = ''string''"
    | (other) "fd_type d \<notin> {''integer'', ''integer_array'', ''number'', ''boolean'', ''string''}"
    by blast
  then show ?thesis
  proof cases
    case int
    with assms obtain r i where r: "py_float v = Inr r" "is_integer r" "py_int v = Inr i" "w = PyInt i"
      by (auto simp: convert_value_def rbind_eq_Inr split: if_splits)
    from py_int_whole [OF this(1-3)] r(2,4) int show ?thesis
      by (auto simp: convert_value_def is_integer_def)
  next
    case arr
    with assms show ?thesis
      by (auto simp: convert_value_def rbind_eq_Inr array_bounds_def array_items_idem
          split: pyval.splits if_splits)
  next
    case num
    with assms show ?thesis by (auto simp: convert_value_def rbind_eq_Inr split: if_splits)
  next
    case bool
    with assms show ?thesis by (auto simp: convert_value_def split: if_splits)
  next
    case str
    with assms show ?thesis by (auto simp: convert_value_def split: pyval.splits)
  next
    case other
    with assms show ?thesis by (simp add: convert_value_def)
  qed
qed

lemma resolve_value_idem:
  "resolve_value py_str name d v = Inr w \<Longrightarrow> resolve_value py_str name d w = Inr w"
  by (auto simp: resolve_value_def rbind_eq_Inr dest: convert_value_idem)

lemma set_update_distinct:
  "distinct (map fst c) \<Longrightarrow> set (AList.update k w c) = {(k, w)} \<union> {e \<in> set c. fst e \<noteq> k}"
  by (induction c) (auto, force+)

lemma default_config_simps [simp]:
  "default_config [] = []"
  "default_config ((k, d) # schema) =
     (case fd_default d of None \<Rightarrow> default_config schema | Some v \<Rightarrow> (k, v) # default_config schema)"
  by (simp_all add: default_config_def map_filter_simps split: option.splits)

lemma set_default_config:
  "(k, v) \<in> set (default_config schema) \<longleftrightarrow> (\<exists>d. (k, d) \<in> set schema \<and> fd_default d = Some v)"
proof (induction schema)
  case (Cons e schema)
  then show ?case by (cases e) (auto split: option.splits)
qed simp

lemma default_config_keys: "fst ` set (default_config schema) \<subseteq> fst ` set schema"
  by (auto simp: set_default_config) force

lemma distinct_default_config:
  "distinct (map fst schema) \<Longrightarrow> distinct (map fst (default_config schema))"
proof (induction schema)
  case (Cons e schema)
  then show ?case using default_config_keys [of schema] by (cases e) (auto split: option.splits)
qed simp

lemma default_config_settled:
  assumes "schema_ok py_str schema"
  shows "settled py_str schema (default_config schema)"
proof -
  have d: "distinct (map fst schema)" using assms by (simp add: schema_ok_def)
  have "\<exists>d. map_of schema k = Some d \<and> resolve_value py_str k d v = Inr v"
    if "(k, v) \<in> set (default_config schema)" for k v
  proof -
    from that obtain f where "(k, f) \<in> set schema" "fd_default f = Some v"
      by (auto simp: set_default_config)
    moreover from this have "resolve_value py_str k f v = Inr v"
      using assms by (force simp: schema_ok_def)
    ultimately show ?thesis using d by (intro exI [of _ f]) simp
  qed
  with distinct_default_config [OF d] show ?thesis by (auto simp: settled_def)
qed

lemma resolve_step_settled:
  assumes "settled py_str schema c" and "resolve_step py_str schema c e = Inr c'"
  shows "settled py_str schema c'"
proof -
  obtain k v where e: "e = (k, v)" by (cases e)
  with assms(2) obtain d w where d: "map_of schema k = Some d"
    and w: "resolve_value py_str k d v = Inr w" and c': "c' = AList.update k w c"
    by (auto simp: resolve_step_def rbind_eq_Inr split: option.splits)
  from assms(1) have "distinct (map fst c)" by (simp add: settled_def)
  then show ?thesis
    using assms(1) c' d resolve_value_idem [OF w]
    by (auto simp: settled_def set_update_distinct distinct_update)
qed

lemma resolve_config_settled:
  assumes "schema_ok py_str schema" and "resolve_config py_str schema c = Inr r"
  shows "settled py_str schema r"
proof (rule rfold_invariant [where P = "settled py_str schema" and f = "resolve_step py_str schema"])
  show "rfold (resolve_step py_str schema) (default_config schema) c = Inr r"
    using assms(2) by (simp add: resolve_config_def split: if_splits)
qed (auto intro: resolve_step_settled default_config_settled [OF assms(1)])

text \<open>
  The keys of the result start with those of the defaults, in their order; writing settled entries
  over a dict whose keys are a prefix of theirs gives those entries.
\<close>

lemma resolve_step_keys:
  assumes "resolve_step py_str schema c e = Inr c'"
  shows "\<exists>ks. map fst c' = map fst c @ ks"
  using assms by (auto simp: resolve_step_def rbind_eq_Inr update_keys split: option.splits)

lemma resolve_config_keys:
  assumes "resolve_config py_str schema c = Inr r"
  shows "\<exists>ks. map fst r = map fst (default_config schema) @ ks"
proof (rule rfold_invariant [where P = "\<lambda>c. \<exists>ks. map fst c = map fst (default_config schema) @ ks"
      and f = "resolve_step py_str schema" and s = "default_config schema"])
  show "rfold (resolve_step py_str schema) (default_config schema) c = Inr r"
    using assms by (simp add: resolve_config_def split: if_splits)
qed (use resolve_step_keys in fastforce)+

lemma update_at:
  "k \<notin> fst ` set before \<Longrightarrow> AList.update k w (before @ (k, v) # after) = before @ (k, w) # after"
  by (induction before) auto

lemma update_fresh: "k \<notin> fst ` set c \<Longrightarrow> AList.update k w c = c @ [(k, w)]"
  by (induction c) auto

lemma resolve_settled_over:
  assumes "\<forall>(k, v) \<in> set es. \<exists>d. map_of schema k = Some d \<and> resolve_value py_str k d v = Inr v"
    and "distinct (map fst (before @ es))" and "\<exists>ks. map fst es = map fst rest @ ks"
  shows "rfold (resolve_step py_str schema) (before @ rest) es = Inr (before @ es)"
  using assms
proof (induction es arbitrary: before rest)
  case (Cons e es)
  obtain k v where e: "e = (k, v)" by (cases e)
  with Cons.prems(1) obtain d where d: "map_of schema k = Some d" "resolve_value py_str k d v = Inr v"
    by auto
  have new: "k \<notin> fst ` set before" using Cons.prems(2) e by auto
  have step: "resolve_step py_str schema (before @ rest) e = Inr ((before @ [(k, v)]) @ tl rest)"
  proof (cases rest)
    case Nil
    with d e new show ?thesis by (simp add: resolve_step_def update_fresh)
  next
    case (Cons f fs)
    with Cons.prems(3) e have "fst f = k" by simp
    with Cons d e new show ?thesis by (cases f) (simp add: resolve_step_def update_at)
  qed
  have "\<exists>ks. map fst es = map fst (tl rest) @ ks"
    using Cons.prems(3) by (cases rest) auto
  then have "rfold (resolve_step py_str schema) ((before @ [(k, v)]) @ tl rest) es
      = Inr ((before @ [(k, v)]) @ es)"
    using Cons.prems(1,2) e by (intro Cons.IH) auto
  with step e show ?case by simp
qed simp

lemma settled_keys: "settled py_str schema r \<Longrightarrow> fst ` set r \<subseteq> fst ` set schema"
proof -
  assume st: "settled py_str schema r"
  have "k \<in> fst ` set schema" if "(k, v) \<in> set r" for k v
    using st that by (force simp: settled_def dest!: map_of_SomeD)
  then show ?thesis by auto
qed

lemma resolve_fold_keys:
  "rfold (resolve_step py_str schema) s es = Inr r \<Longrightarrow> fst ` set s \<union> fst ` set es \<subseteq> fst ` set r"
proof (induction es arbitrary: s)
  case (Cons e es)
  then obtain u where u: "resolve_step py_str schema s e = Inr u"
    and rest: "rfold (resolve_step py_str schema) u es = Inr r"
    by (auto simp: rbind_eq_Inr)
  then obtain w where "u = AList.update (fst e) w s"
    by (auto simp: resolve_step_def rbind_eq_Inr split: option.splits)
  then have "fst ` set u = insert (fst e) (fst ` set s)"
    using dom_update [of "fst e" w s] by simp
  with Cons.IH [OF rest] show ?case by simp
qed simp

lemma resolve_value_fixed:
  "resolve_value py_str k d v = Inr v \<Longrightarrow>
     convert_value py_str k d v = Inr v \<and> check_bounds k d v = Inr () \<and> check_enum k d v = Inr ()"
  by (auto simp: resolve_value_def rbind_eq_Inr)

lemma resolve_config_fixed:
  assumes "schema_ok py_str schema" and "resolve_config py_str schema c = Inr r"
  shows "resolve_config py_str schema r = Inr r"
proof -
  note st = resolve_config_settled [OF assms]
  have "\<not> list_ex (\<lambda>(k, _). k \<notin> fst ` set schema) r"
    using settled_keys [OF st] by (force simp: list_ex_iff)
  moreover have "rfold (resolve_step py_str schema) ([] @ default_config schema) r = Inr ([] @ r)"
    using st resolve_config_keys [OF assms(2)] by (intro resolve_settled_over) (auto simp: settled_def)
  ultimately show ?thesis by (simp add: resolve_config_def)
qed

text \<open>What a client may read from a resolved configuration: the default keys, with values of their types.\<close>

lemma resolved_lookup:
  assumes "schema_ok py_str schema" and "resolve_config py_str schema c = Inr r"
    and "map_of schema key = Some d" and "fd_default d \<noteq> None"
  shows "\<exists>v. map_of r key = Some v \<and> resolve_value py_str key d v = Inr v"
proof -
  obtain w where "(key, w) \<in> set (default_config schema)"
    using map_of_SomeD [OF assms(3)] assms(4) by (auto simp: set_default_config)
  then have "key \<in> fst ` set (default_config schema)" by force
  moreover obtain ks where "map fst r = map fst (default_config schema) @ ks" using resolve_config_keys [OF assms(2)] by blast
  ultimately have "key \<in> fst ` set r" by (metis Un_iff image_set set_append)
  then obtain v where v: "map_of r key = Some v" by (metis domD dom_map_of_conv_image_fst)
  then have "(key, v) \<in> set r" by (rule map_of_SomeD)
  with resolve_config_settled [OF assms(1,2)] assms(3) v show ?thesis by (force simp: settled_def)
qed

section \<open>The configuration of the RSI dip ladder\<close>

definition number_field :: "real \<Rightarrow> real \<Rightarrow> real option \<Rightarrow> field_def" where
  "number_field def low high = \<lparr>fd_type = ''number'', fd_default = Some (PyFloat def),
     fd_minimum = Some low, fd_maximum = high, fd_enum = None, fd_min_items = None, fd_max_items = None\<rparr>"

definition integer_field :: "int \<Rightarrow> real \<Rightarrow> real option \<Rightarrow> field_def" where
  "integer_field def low high = \<lparr>fd_type = ''integer'', fd_default = Some (PyInt def),
     fd_minimum = Some low, fd_maximum = high, fd_enum = None, fd_min_items = None, fd_max_items = None\<rparr>"

definition array_field :: "int list \<Rightarrow> field_def" where
  "array_field def = \<lparr>fd_type = ''integer_array'', fd_default = Some (PyList (map PyInt def)),
     fd_minimum = Some 1, fd_maximum = None, fd_enum = None, fd_min_items = Some 1, fd_max_items = Some 10\<rparr>"

definition RSI_CONFIG_SCHEMA :: config_schema where
  "RSI_CONFIG_SCHEMA =
     [(''rsi_length'', integer_field 14 2 (Some 100)),
      (''rsi_low'', number_field 30 1 (Some 90)),
      (''rsi_recovery'', number_field 35 2 (Some 99)),
      (''setup_expiry_bars'', integer_field 24 1 (Some 500)),
      (''target_pct'', number_field 5 (1 / 100) (Some 100)),
      (''lot_sizing_mode'', \<lparr>fd_type = ''string'', fd_default = Some (PyStr ''PRICE_BAND_LADDER''),
         fd_minimum = None, fd_maximum = None, fd_enum = Some [PyStr ''PRICE_BAND_LADDER''],
         fd_min_items = None, fd_max_items = None\<rparr>),
      (''price_band_threshold'', number_field 1000 (1 / 100) None),
      (''high_price_quantities'', array_field [5, 10, 25, 50]),
      (''low_price_quantities'', array_field [10, 20, 50, 100]),
      (''dip_step_pct'', number_field 5 (1 / 100) (Some 99)),
      (''maximum_position_capital'', number_field 250000 1 None)]"

text \<open>
  \<open>_check\<close>: after the resolution both thresholds are floats, so a missing key or another type
  is the comparison's own exception.
\<close>

definition config_number :: "config \<Rightarrow> string \<Rightarrow> real res" where
  "config_number cfg key =
     (case map_of cfg key of None \<Rightarrow> Inl (KeyError key) | Some v \<Rightarrow> num_elem v)"

definition rsi_check :: "config \<Rightarrow> unit res" where
  "rsi_check cfg =
     rbind (config_number cfg ''rsi_low'') (\<lambda>low.
       rbind (config_number cfg ''rsi_recovery'') (\<lambda>recovery.
         if low \<ge> recovery then Inl (ValueError ''rsi_low must be lower than rsi_recovery'')
         else rbind (ladder_from_config cfg) (\<lambda>_. Inr ())))"

definition rsi_resolve :: "(pyval \<Rightarrow> string) \<Rightarrow> config \<Rightarrow> config res" where
  "rsi_resolve py_str config =
     rbind (resolve_config py_str RSI_CONFIG_SCHEMA config) (\<lambda>resolved.
       rbind (rsi_check resolved) (\<lambda>_. Inr resolved))"

definition rsi_required_history :: "(pyval \<Rightarrow> string) \<Rightarrow> config \<Rightarrow> int res" where
  "rsi_required_history py_str config =
     rbind (rsi_resolve py_str config) (\<lambda>cfg.
       case map_of cfg ''rsi_length'' of
         Some (PyInt n) \<Rightarrow> Inr (n + 2)
       | Some _ \<Rightarrow> Inl (TypeError ''unsupported operand'')
       | None \<Rightarrow> Inl (KeyError ''rsi_length''))"

lemmas field_defs = number_field_def integer_field_def array_field_def

lemmas resolve_defs = resolve_value_def convert_value_def check_bounds_def check_enum_def
  array_item_def array_bounds_def is_integer_def

lemma rsi_schema_ok: "schema_ok py_str RSI_CONFIG_SCHEMA"
  by (simp add: schema_ok_def RSI_CONFIG_SCHEMA_def field_defs resolve_defs)

lemma rsi_example:
  "\<exists>r. resolve_config (\<lambda>_. []) RSI_CONFIG_SCHEMA [(''rsi_low'', PyStr ''25.5'')] = Inr r
    \<and> map_of r ''rsi_low'' = Some (PyFloat (51 / 2))"
  by (simp add: resolve_config_def RSI_CONFIG_SCHEMA_def field_defs resolve_defs resolve_step_def
      parse_float_def parse_mantissa_def digits_value_def is_digit_def py_strip_def is_space_def)

section \<open>Properties\<close>

text \<open>
  A configuration that has been resolved resolves to itself. \<open>resolve\<close> converts and checks
  every value, and the engines resolve the stored snapshot again (\<open>validate_config\<close>,
  \<open>required_history\<close>, \<open>decision_frame\<close>): for every schema whose defaults pass their own
  checks that second pass neither raises nor changes a value or the order of the keys.
\<close>

theorem resolve_config_idempotent:
  assumes "schema_ok py_str schema" and "resolve_config py_str schema c = Inr r"
  shows "resolve_config py_str schema r = Inr r"
  using assms by (rule resolve_config_fixed)

theorem resolve_config_idempotent_witness:
  "\<exists>r. resolve_config (\<lambda>_. []) RSI_CONFIG_SCHEMA [(''rsi_low'', PyStr ''25.5'')] = Inr r
    \<and> resolve_config (\<lambda>_. []) RSI_CONFIG_SCHEMA r = Inr r \<and> map_of r ''rsi_low'' = Some (PyFloat (51 / 2))"
proof -
  obtain r where r: "resolve_config (\<lambda>_. []) RSI_CONFIG_SCHEMA [(''rsi_low'', PyStr ''25.5'')] = Inr r"
    and "map_of r ''rsi_low'' = Some (PyFloat (51 / 2))"
    using rsi_example by blast
  with resolve_config_idempotent [OF rsi_schema_ok r] show ?thesis by blast
qed



text \<open>
  The ladder that is read from a configuration: its bounds hold (positive threshold and capital,
  a dip step strictly between 0 and 100), both quantity lists are non-empty, of equal length and
  positive; so \<open>quantity\<close> is defined on exactly the entry numbers below \<open>maximum_entries\<close>,
  positive there and a \<open>ValueError\<close> elsewhere, never an index error.
\<close>

theorem ladder_from_config_sound:
  assumes "ladder_from_config values = Inr (Some l)"
  shows "ladder_ok l \<and> 0 < maximum_entries l
    \<and> (if 0 \<le> k \<and> k < int (maximum_entries l)
       then \<exists>q. ladder_quantity l k p = Inr q \<and> 0 < q
       else \<exists>e. ladder_quantity l k p = Inl (ValueError e))"
proof -
  note ok = ladder_from_config_ok [OF assms]
  have "\<exists>q. ladder_quantity l k p = Inr q \<and> 0 < q" if "0 \<le> k \<and> k < int (maximum_entries l)"
    using that ladder_quantity_ok [OF ok] by blast
  moreover have "\<exists>e. ladder_quantity l k p = Inl (ValueError e)" if "\<not> (0 \<le> k \<and> k < int (maximum_entries l))"
    using that by (auto simp: ladder_quantity_def)
  ultimately show ?thesis using ok by (auto simp: ladder_ok_def maximum_entries_def)
qed

definition example_ladder :: price_band_ladder where
  "example_ladder = \<lparr>price_threshold = 1000, high_price_quantities = [5, 10, 25, 50],
     low_price_quantities = [10, 20, 50, 100], dip_step_pct = 5, maximum_position_capital = 250000\<rparr>"

lemma example_ladder_config:
  "ladder_from_config (default_config RSI_CONFIG_SCHEMA) = Inr (Some example_ladder)"
  by (simp add: ladder_from_config_def RSI_CONFIG_SCHEMA_def field_defs positive_quantities_def
      positive_quantity_def is_integer_def required_float_def example_ladder_def)

theorem ladder_from_config_sound_witness:
  "ladder_ok example_ladder \<and> (\<exists>q. ladder_quantity example_ladder 3 1500 = Inr q \<and> 0 < q)"
  using ladder_from_config_sound [OF example_ladder_config, of 3 1500]
  by (simp add: example_ladder_def maximum_entries_def)

text \<open>
  The dips compound. When every additional entry of a ladder is allowed against the entry price
  before it, the \<open>n\<close>-th one is at or below the first price times \<open>(1 - dip / 100) ^ n\<close>;
  in particular the entries of a cycle are strictly cheaper and cheaper.
\<close>

theorem ladder_dips_compound:
  assumes "ladder_ok l" and "\<forall>i < n. additional_entry_allowed l (price (Suc i)) (price i)"
    and "\<forall>i \<le> n. 0 < price i"
  shows "price n \<le> price 0 * (1 - dip_step_pct l / 100) ^ n \<and> (\<forall>i < n. price (Suc i) < price i)"
  using assms(2,3)
proof (induction n)
  case (Suc n)
  have dip: "0 < 1 - dip_step_pct l / 100" using assms(1) by (simp add: ladder_ok_def)
  have IH: "price n \<le> price 0 * (1 - dip_step_pct l / 100) ^ n" "\<forall>i < n. price (Suc i) < price i"
    using Suc by simp_all
  have step: "price (Suc n) \<le> dip_price l (price n)"
    using Suc.prems(1) by (simp add: additional_entry_allowed_def)
  have "dip_price l (price n) < price n" using dip_price_less [OF assms(1)] Suc.prems(2) by simp
  moreover have "dip_price l (price n) \<le> price 0 * (1 - dip_step_pct l / 100) ^ n * (1 - dip_step_pct l / 100)"
    unfolding dip_price_def using IH(1) dip by (intro mult_right_mono) simp_all
  ultimately show ?case using IH(2) step by (auto simp: less_Suc_eq mult_ac)
qed simp

theorem ladder_dips_compound_witness:
  "(80::real) \<le> 100 * (1 - 5 / 100) ^ 2"
proof -
  let ?price = "\<lambda>i. if i = 0 then 100 else if i = (1::nat) then 95 else (80::real)"
  have "ladder_ok example_ladder" by (simp add: ladder_ok_def example_ladder_def)
  moreover have "\<forall>i < 2. additional_entry_allowed example_ladder (?price (Suc i)) (?price i)"
    by (auto simp: additional_entry_allowed_def dip_price_def example_ladder_def less_2_cases_iff)
  ultimately show ?thesis
    using ladder_dips_compound [of example_ladder 2 ?price] by (simp add: example_ladder_def)
qed

end
