(* ===== verification/Strategies.thy ===== *)
theory Strategies
  imports Strategy_Config "HOL-Library.List_Lexorder" "HOL-Library.Char_ord"
begin

text \<open>
  \<open>backend/core/models.py\<close> (candles, market context, signal decisions),
  \<open>backend/strategies/base.py\<close> (the prefix evaluation of a strategy),
  \<open>backend/strategies/registry.py\<close>, the seeded Wilder averages of \<open>backend/core/indicators.py\<close>
  and the strategy \<open>backend/strategies/rsi_dip_ladder_v1.py\<close>.

  A pandas series is a list of \<open>real option\<close>, \<open>None\<close> being NaN. pandas itself is a
  parameter: \<open>sort_index\<close> and \<open>ewm\<close>, the exponentially weighted mean, whose documented
  laws are the locale \<open>causal_smoother\<close>; the recurrence of the pandas manual is its
  interpretation. Python plug-ins enter through the record \<open>strategy\<close>.
\<close>

section \<open>Candles, contexts and decisions\<close>

record candle =
  ca_at :: timestamp
  ca_open :: real
  ca_high :: real
  ca_low :: real
  ca_close :: real
  ca_volume :: real

record raw_candle =
  rc_at :: timestamp
  rc_open :: "real option"
  rc_high :: "real option"
  rc_low :: "real option"
  rc_close :: "real option"
  rc_volume :: "real option"
  rc_complete :: bool

definition CANDLE_COLUMNS :: "string list" where
  "CANDLE_COLUMNS = [''Open'', ''High'', ''Low'', ''Close'', ''Volume'']"

definition numeric_candle :: "raw_candle \<Rightarrow> candle option" where
  "numeric_candle r =
     (case (rc_open r, rc_high r, rc_low r, rc_close r, rc_volume r) of
        (Some a, Some b, Some c, Some d, Some e) \<Rightarrow>
          Some \<lparr>ca_at = rc_at r, ca_open = a, ca_high = b, ca_low = c, ca_close = d, ca_volume = e\<rparr>
      | _ \<Rightarrow> None)"

definition normalize_candles ::
  "(candle list \<Rightarrow> candle list) \<Rightarrow> string list \<Rightarrow> raw_candle list \<Rightarrow> candle list res" where
  "normalize_candles sort_index columns rows =
     (if filter (\<lambda>c. c \<notin> set columns) CANDLE_COLUMNS \<noteq> [] then Inl (ValueError ''Candles are missing'')
      else let source = (if ''Complete'' \<in> set columns then filter rc_complete rows else rows)
           in Inr (sort_index (List.map_filter numeric_candle source)))"

text \<open>What a source of candles answers: the columns of the frame and its rows.\<close>

type_synonym candle_source =
  "string \<Rightarrow> string \<Rightarrow> timestamp \<Rightarrow> timestamp \<Rightarrow> int \<Rightarrow> (string list \<times> raw_candle list) res"

datatype decision = BUY | SELL | NO_DECISION

record market_context =
  mc_market :: string
  mc_symbol :: string
  mc_timeframe :: string

definition mk_market_context :: "string \<Rightarrow> string \<Rightarrow> string \<Rightarrow> market_context res" where
  "mk_market_context market symbol timeframe =
     (if market \<notin> {''NSE'', ''CRYPTO''} then Inl (ValueError ''Unsupported market'')
      else if symbol = [] \<or> py_strip symbol = [] then Inl (ValueError ''MarketContext requires a symbol'')
      else if timeframe = [] then Inl (ValueError ''MarketContext requires a timeframe'')
      else Inr \<lparr>mc_market = market, mc_symbol = symbol, mc_timeframe = timeframe\<rparr>)"

record signal_decision =
  sd_decision :: decision
  sd_strategy_id :: string
  sd_strategy_version :: string
  sd_market :: string
  sd_symbol :: string
  sd_timeframe :: string
  sd_candle_at :: timestamp
  sd_signal_price :: "real option"
  sd_target_price :: "real option"
  sd_stop_price :: "real option"
  sd_reasons :: "string list"
  sd_rsi :: "real option"
  sd_snapshot :: config

definition mk_signal_decision :: "signal_decision \<Rightarrow> signal_decision res" where
  "mk_signal_decision d =
     (if sd_decision d \<noteq> NO_DECISION \<and> sd_signal_price d = None
      then Inl (ValueError ''An actionable decision must carry a signal price'') else Inr d)"

definition actionable :: "signal_decision \<Rightarrow> bool" where
  "actionable d \<longleftrightarrow> sd_decision d \<noteq> NO_DECISION"

section \<open>The strategy interface\<close>

record decision_row =
  dr_candle :: candle
  dr_decision :: decision
  dr_signal_price :: "real option"
  dr_target_price :: "real option"
  dr_stop_price :: "real option"

text \<open>
  A plug-in: \<open>st_ref\<close> is the identity of the object, \<open>st_vectorised\<close> its own
  \<open>decision_frame\<close> when it has one (the columns of the frame it returns, and its rows).
\<close>

record strategy =
  st_ref :: nat
  st_id :: string
  st_name :: string
  st_version :: string
  st_markets :: "string list"
  st_timeframes :: "string list"
  st_schema :: config_schema
  st_required_history :: "config \<Rightarrow> int res"
  st_validate_config :: "config \<Rightarrow> unit res"
  st_evaluate :: "candle list \<Rightarrow> market_context \<Rightarrow> config \<Rightarrow> signal_decision res"
  st_vectorised ::
    "(candle list \<Rightarrow> market_context \<Rightarrow> config \<Rightarrow> (string list \<times> decision_row list) res) option"

definition DECISION_FRAME_COLUMNS :: "string list" where
  "DECISION_FRAME_COLUMNS = CANDLE_COLUMNS @ [''Decision'', ''SignalPrice'', ''TargetPrice'', ''StopPrice'']"

definition prefix_row ::
  "strategy \<Rightarrow> market_context \<Rightarrow> config \<Rightarrow> candle list \<Rightarrow> nat \<Rightarrow> decision_row res" where
  "prefix_row s ctx config data position =
     rbind (st_evaluate s (take (position + 1) data) ctx config) (\<lambda>d.
       Inr \<lparr>dr_candle = data ! position, dr_decision = sd_decision d, dr_signal_price = sd_signal_price d,
            dr_target_price = sd_target_price d, dr_stop_price = sd_stop_price d\<rparr>)"

definition decision_frame ::
  "strategy \<Rightarrow> candle list \<Rightarrow> market_context \<Rightarrow> config \<Rightarrow> decision_row list res" where
  "decision_frame s data ctx config =
     rbind (case st_vectorised s of
              Some vectorised \<Rightarrow> vectorised data ctx config
            | None \<Rightarrow> rbind (rmap_list (prefix_row s ctx config data) [0..<length data])
                (\<lambda>rows. Inr (DECISION_FRAME_COLUMNS, rows)))
       (\<lambda>(columns, rows).
          if filter (\<lambda>c. c \<notin> set columns) DECISION_FRAME_COLUMNS \<noteq> []
          then Inl (ValueError ''decision frame is missing columns'') else Inr rows)"

definition assert_supported :: "string list \<Rightarrow> string list \<Rightarrow> market_context \<Rightarrow> unit res" where
  "assert_supported markets timeframes ctx =
     (if mc_market ctx \<notin> set markets then Inl (ValueError ''does not support the market'')
      else if mc_timeframe ctx \<notin> set timeframes then Inl (ValueError ''does not support the timeframe'')
      else Inr ())"

section \<open>The registry\<close>

type_synonym registry = "(string \<times> strategy) list"

definition register :: "registry \<Rightarrow> strategy \<Rightarrow> registry res" where
  "register reg s =
     (if case map_of reg (st_id s) of None \<Rightarrow> False | Some t \<Rightarrow> st_ref t \<noteq> st_ref s
      then Inl (ValueError ''A strategy with this id is already registered'')
      else rbind (st_validate_config s (default_config (st_schema s)))
             (\<lambda>_. Inr (AList.update (st_id s) s reg)))"

definition registry_get :: "registry \<Rightarrow> string \<Rightarrow> strategy res" where
  "registry_get reg sid = (case map_of reg sid of None \<Rightarrow> Inl (KeyError sid) | Some s \<Rightarrow> Inr s)"

definition registry_list :: "registry \<Rightarrow> string option \<Rightarrow> strategy list" where
  "registry_list reg market =
     sort_key st_id (case market of None \<Rightarrow> map snd reg
       | Some m \<Rightarrow> filter (\<lambda>s. m \<in> set (st_markets s)) (map snd reg))"

definition registry_ids :: "registry \<Rightarrow> string list" where
  "registry_ids reg = sort (map fst reg)"

definition registry_ok :: "registry \<Rightarrow> bool" where
  "registry_ok reg \<longleftrightarrow> distinct (map fst reg) \<and> (\<forall>(k, s) \<in> set reg. k = st_id s)"

section \<open>Seeded Wilder averages\<close>

type_synonym series = "real option list"

fun valid_positions_from :: "nat \<Rightarrow> series \<Rightarrow> nat list" where
  "valid_positions_from i [] = []"
| "valid_positions_from i (x # xs) =
     (if x = None then valid_positions_from (Suc i) xs else i # valid_positions_from (Suc i) xs)"

definition series_mean :: "real list \<Rightarrow> real" where
  "series_mean xs = sum_list xs / real (length xs)"

definition wilder_rma :: "(real \<Rightarrow> series \<Rightarrow> series) \<Rightarrow> series \<Rightarrow> nat \<Rightarrow> series res" where
  "wilder_rma ewm numeric n =
     (if n \<le> 0 then Inl (ValueError ''RMA length must be greater than 0'')
      else let valid_positions = valid_positions_from 0 numeric
           in if length valid_positions < n then Inr (replicate (length numeric) None)
              else let seed_position = valid_positions ! (n - 1);
                       seed = series_mean (map (\<lambda>i. the (numeric ! i)) (take n valid_positions))
                   in Inr (ewm (1 / real n)
                        (replicate seed_position None @ Some seed # drop (seed_position + 1) numeric)))"

fun diff_from :: "real option \<Rightarrow> series \<Rightarrow> series" where
  "diff_from previous [] = []"
| "diff_from previous (x # xs) =
     (case (previous, x) of (Some a, Some b) \<Rightarrow> Some (b - a) | _ \<Rightarrow> None) # diff_from x xs"

definition rsi_point :: "real option \<Rightarrow> real option \<Rightarrow> real option" where
  "rsi_point average_gain average_loss =
     (if average_loss = Some 0 then Some 100
      else if average_gain = Some 0 then Some 0
      else case (average_gain, average_loss) of
          (Some g, Some l) \<Rightarrow> Some (100 - 100 / (1 + g / l))
        | _ \<Rightarrow> None)"

definition wilder_rsi :: "(real \<Rightarrow> series \<Rightarrow> series) \<Rightarrow> series \<Rightarrow> nat \<Rightarrow> series res" where
  "wilder_rsi ewm numeric n =
     (if n \<le> 0 then Inl (ValueError ''RSI length must be greater than 0'')
      else let change = diff_from None numeric;
               gains = map (map_option (max 0)) change;
               losses = map (map_option (\<lambda>x. - min 0 x)) change
           in rbind (wilder_rma ewm gains n) (\<lambda>average_gain.
                rbind (wilder_rma ewm losses n) (\<lambda>average_loss.
                  Inr (map2 rsi_point average_gain average_loss))))"

section \<open>The RSI dip ladder\<close>

record rsi_params =
  rp_length :: nat
  rp_low :: real
  rp_recovery :: real
  rp_expiry :: int
  rp_target_pct :: real

text \<open>The loop of \<open>compute_indicators\<close>: armed, bars since the arming, previous value.\<close>

record rsi_state =
  rs_armed :: bool
  rs_armed_bars :: int
  rs_previous :: "real option"

definition rsi_start :: rsi_state where
  "rsi_start = \<lparr>rs_armed = False, rs_armed_bars = 0, rs_previous = None\<rparr>"

definition rsi_arm :: "rsi_params \<Rightarrow> rsi_state \<Rightarrow> real option \<Rightarrow> rsi_state" where
  "rsi_arm p st current =
     (if case current of Some c \<Rightarrow> c \<le> rp_low p | None \<Rightarrow> False
      then st\<lparr>rs_armed := True, rs_armed_bars := 0\<rparr>
      else if rs_armed st
      then st\<lparr>rs_armed_bars := rs_armed_bars st + 1,
              rs_armed := \<not> rs_armed_bars st + 1 > rp_expiry p\<rparr>
      else st)"

definition crosses_recovery :: "rsi_params \<Rightarrow> real option \<Rightarrow> real option \<Rightarrow> bool" where
  "crosses_recovery p previous current =
     (case (previous, current) of
        (Some a, Some b) \<Rightarrow> a < rp_recovery p \<and> rp_recovery p \<le> b | _ \<Rightarrow> False)"

definition rsi_step :: "rsi_params \<Rightarrow> rsi_state \<Rightarrow> real option \<Rightarrow> bool \<times> rsi_state" where
  "rsi_step p st current =
     (let st1 = rsi_arm p st current;
          recovered = rs_armed st1 \<and> crosses_recovery p (rs_previous st) current
      in (recovered, st1\<lparr>rs_armed := rs_armed st1 \<and> \<not> recovered, rs_previous := current\<rparr>))"

fun rsi_loop :: "rsi_params \<Rightarrow> rsi_state \<Rightarrow> series \<Rightarrow> bool list" where
  "rsi_loop p st [] = []"
| "rsi_loop p st (x # xs) = (case rsi_step p st x of (r, st') \<Rightarrow> r # rsi_loop p st' xs)"

definition rsi_recoveries :: "rsi_params \<Rightarrow> series \<Rightarrow> bool list" where
  "rsi_recoveries p rsi = rsi_loop p rsi_start rsi"

definition rsi_compute :: "(real \<Rightarrow> series \<Rightarrow> series) \<Rightarrow> rsi_params \<Rightarrow> candle list \<Rightarrow> (series \<times> bool list) res" where
  "rsi_compute ewm p data =
     rbind (wilder_rsi ewm (map (\<lambda>c. Some (ca_close c)) data) (rp_length p))
       (\<lambda>rsi. Inr (rsi, rsi_recoveries p rsi))"

definition rsi_target :: "rsi_params \<Rightarrow> real \<Rightarrow> real" where
  "rsi_target p close = py_round (close * (1 + rp_target_pct p / 100)) 4"

definition rsi_decision_frame ::
  "(real \<Rightarrow> series \<Rightarrow> series) \<Rightarrow> rsi_params \<Rightarrow> candle list \<Rightarrow> decision_row list res" where
  "rsi_decision_frame ewm p data =
     rbind (rsi_compute ewm p data) (\<lambda>(rsi, recovery).
       Inr (map (\<lambda>i. let c = data ! i; buy = recovery ! i \<and> rp_length p + 2 - 1 \<le> i
                     in \<lparr>dr_candle = c, dr_decision = (if buy then BUY else NO_DECISION),
                         dr_signal_price = Some (ca_close c),
                         dr_target_price = (if buy then Some (rsi_target p (ca_close c)) else None),
                         dr_stop_price = None\<rparr>)
              [0..<length data]))"

text \<open>\<open>now\<close>: the context's \<open>as_of\<close>, or the clock, read only when there is no candle.\<close>

definition rsi_evaluate ::
  "(real \<Rightarrow> series \<Rightarrow> series) \<Rightarrow> rsi_params \<Rightarrow> config \<Rightarrow> market_context \<Rightarrow> timestamp \<Rightarrow> candle list
     \<Rightarrow> signal_decision res" where
  "rsi_evaluate ewm p cfg ctx now data =
     rbind (rsi_compute ewm p data) (\<lambda>(rsi, recovery).
       let close = (if data = [] then None else Some (ca_close (last data)));
           none = \<lparr>sd_decision = NO_DECISION, sd_strategy_id = ''rsi_dip_ladder_v1'',
             sd_strategy_version = ''1.0.0'', sd_market = mc_market ctx, sd_symbol = mc_symbol ctx,
             sd_timeframe = mc_timeframe ctx, sd_candle_at = (if data = [] then now else ca_at (last data)),
             sd_signal_price = close, sd_target_price = None, sd_stop_price = None,
             sd_reasons = [''INSUFFICIENT_HISTORY''],
             sd_rsi = (if data = [] then None else last rsi), sd_snapshot = cfg\<rparr>
       in if length data < rp_length p + 2 then mk_signal_decision none
          else if \<not> last recovery then mk_signal_decision (none\<lparr>sd_reasons := [''NO_RSI_RECOVERY'']\<rparr>)
          else mk_signal_decision (none\<lparr>sd_decision := BUY,
                 sd_target_price := map_option (rsi_target p) close,
                 sd_reasons := [''RSI_LOW_ARMED'', ''RSI_RECOVERED'']\<rparr>))"

section \<open>The arming automaton against its specification\<close>

definition low_bar :: "rsi_params \<Rightarrow> series \<Rightarrow> nat \<Rightarrow> bool" where
  "low_bar p xs j \<longleftrightarrow> (\<exists>c. xs ! j = Some c \<and> c \<le> rp_low p)"

text \<open>
  Armed at bar \<open>i\<close>: some bar at most \<open>expiry\<close> bars back was at or below the low
  threshold, and no recovery has been signalled since.
\<close>

definition armed_at :: "rsi_params \<Rightarrow> series \<Rightarrow> nat \<Rightarrow> bool list \<Rightarrow> bool" where
  "armed_at p xs i recoveries \<longleftrightarrow>
     (\<exists>j \<le> i. low_bar p xs j \<and> int (i - j) \<le> rp_expiry p \<and> (\<forall>k. j \<le> k \<and> k < i \<longrightarrow> \<not> recoveries ! k))"

fun rsi_run :: "rsi_params \<Rightarrow> rsi_state \<Rightarrow> series \<Rightarrow> rsi_state" where
  "rsi_run p st [] = st"
| "rsi_run p st (x # xs) = rsi_run p (snd (rsi_step p st x)) xs"

lemma rsi_loop_append:
  "rsi_loop p st (xs @ ys) = rsi_loop p st xs @ rsi_loop p (rsi_run p st xs) ys"
  by (induction xs arbitrary: st) (simp_all add: split_beta)

lemma rsi_run_append: "rsi_run p st (xs @ ys) = rsi_run p (rsi_run p st xs) ys"
  by (induction xs arbitrary: st) simp_all

lemma length_rsi_loop [simp]: "length (rsi_loop p st xs) = length xs"
  by (induction xs arbitrary: st) (simp_all add: split_beta)

lemma length_rsi_recoveries [simp]: "length (rsi_recoveries p xs) = length xs"
  by (simp add: rsi_recoveries_def)

lemma rsi_recoveries_take: "rsi_recoveries p (take k xs) = take k (rsi_recoveries p xs)"
proof (cases "k \<le> length xs")
  case True
  have "rsi_recoveries p xs = rsi_recoveries p (take k xs @ drop k xs)" by simp
  also have "\<dots> = rsi_recoveries p (take k xs) @ rsi_loop p (rsi_run p rsi_start (take k xs)) (drop k xs)"
    by (simp only: rsi_recoveries_def rsi_loop_append)
  finally show ?thesis using True by simp
qed simp

lemma rsi_recoveries_snoc:
  "rsi_recoveries p (xs @ [x]) = rsi_recoveries p xs @ [fst (rsi_step p (rsi_run p rsi_start xs) x)]"
  by (simp add: rsi_recoveries_def rsi_loop_append split_beta)

text \<open>What the state after a prefix says: the last arming and how long ago it was.\<close>

definition rsi_inv :: "rsi_params \<Rightarrow> series \<Rightarrow> bool" where
  "rsi_inv p xs \<longleftrightarrow> (let st = rsi_run p rsi_start xs; n = length xs; r = rsi_recoveries p xs in
     rs_previous st = (if xs = [] then None else last xs)
     \<and> (rs_armed st \<longrightarrow> (\<exists>j < n. low_bar p xs j \<and> rs_armed_bars st = int (n - 1 - j)
           \<and> rs_armed_bars st \<le> max 0 (rp_expiry p) \<and> (\<forall>k. j < k \<and> k < n \<longrightarrow> \<not> low_bar p xs k)
           \<and> (\<forall>k. j \<le> k \<and> k < n \<longrightarrow> \<not> r ! k)))
     \<and> (\<not> rs_armed st \<longrightarrow> (\<forall>j < n. low_bar p xs j \<longrightarrow>
           rp_expiry p < int (n - 1 - j) \<or> (\<exists>k. j \<le> k \<and> k < n \<and> r ! k))))"

lemma low_bar_append [simp]:
  "j < length xs \<Longrightarrow> low_bar p (xs @ ys) j = low_bar p xs j"
  "low_bar p (xs @ [x]) (length xs) \<longleftrightarrow> (\<exists>c. x = Some c \<and> c \<le> rp_low p)"
  by (auto simp: low_bar_def nth_append)

lemma rsi_inv_previous: "rs_previous (rsi_run p rsi_start xs) = (if xs = [] then None else last xs)"
  by (cases xs rule: rev_cases) (simp_all add: rsi_start_def rsi_run_append rsi_step_def Let_def)

lemma rsi_inv_run: "0 \<le> rp_expiry p \<Longrightarrow> rsi_inv p xs"
proof (induction xs rule: rev_induct)
  case Nil
  then show ?case by (simp add: rsi_inv_def rsi_start_def)
next
  case (snoc x xs)
  let ?st = "rsi_run p rsi_start xs" and ?n = "length xs" and ?r = "rsi_recoveries p xs"
  let ?low = "\<exists>c. x = Some c \<and> c \<le> rp_low p" and ?c = "crosses_recovery p (rs_previous ?st) x"
  have run: "rsi_run p rsi_start (xs @ [x]) = snd (rsi_step p ?st x)" by (simp add: rsi_run_append)
  note IH = snoc.IH [OF snoc.prems, unfolded rsi_inv_def Let_def]
  consider (low) ?low | (live) "\<not> ?low" "rs_armed ?st" | (idle) "\<not> ?low" "\<not> rs_armed ?st" by blast
  then show ?case
  proof cases
    case low
    then have step: "rsi_step p ?st x = (?c, ?st\<lparr>rs_armed := \<not> ?c, rs_armed_bars := 0, rs_previous := x\<rparr>)"
      by (auto simp: rsi_step_def rsi_arm_def Let_def)
    show ?thesis
      unfolding rsi_inv_def Let_def run step rsi_recoveries_snoc
      using low by (auto simp: nth_append less_Suc_eq intro!: exI [of _ ?n])
  next
    case live
    then obtain j where j: "j < ?n" "low_bar p xs j" "rs_armed_bars ?st = int (?n - 1 - j)"
      "\<forall>k. j < k \<and> k < ?n \<longrightarrow> \<not> low_bar p xs k" "\<forall>k. j \<le> k \<and> k < ?n \<longrightarrow> \<not> ?r ! k"
      using IH by blast
    from j(1,3) have bars: "rs_armed_bars ?st + 1 = int (?n - j)" by simp
    have step: "rsi_step p ?st x =
        (int (?n - j) \<le> rp_expiry p \<and> ?c,
         ?st\<lparr>rs_armed := int (?n - j) \<le> rp_expiry p \<and> \<not> ?c, rs_armed_bars := int (?n - j), rs_previous := x\<rparr>)"
      using live bars
      by (auto simp: rsi_step_def rsi_arm_def Let_def not_less intro!: rsi_state.equality split: option.splits)
    have older: "j' \<le> j" if "low_bar p xs j'" "j' < ?n" for j' using that j(4) by (meson not_le)
    consider (kept) "int (?n - j) \<le> rp_expiry p" "\<not> ?c" | (used) "int (?n - j) \<le> rp_expiry p" ?c
      | (expired) "rp_expiry p < int (?n - j)" by linarith
    then show ?thesis
    proof cases
      case kept
      have "\<not> low_bar p (xs @ [x]) k" if "j < k" "k < Suc ?n" for k
        using that j(4) live(1) by (cases "k = ?n") auto
      moreover have "\<not> (?r @ [False]) ! k" if "j \<le> k" "k < Suc ?n" for k
        using that j(5) by (cases "k = ?n") (auto simp: nth_append)
      ultimately show ?thesis unfolding rsi_inv_def Let_def run step rsi_recoveries_snoc
        using kept j(1,2) by (intro conjI impI exI [of _ j]) simp_all
    next
      case used
      then show ?thesis unfolding rsi_inv_def Let_def run step rsi_recoveries_snoc
        by (intro conjI impI allI disjI2 exI [of _ ?n]) (simp_all add: nth_append)
    next
      case expired
      have "rp_expiry p < int (?n - j')" if "low_bar p xs j'" "j' < ?n" for j'
        using older [OF that] expired that(2) by linarith
      with expired live(1) show ?thesis unfolding rsi_inv_def Let_def run step rsi_recoveries_snoc
        by (auto simp: nth_append less_Suc_eq)
    qed
  next
    case idle
    then have step: "rsi_step p ?st x = (False, ?st\<lparr>rs_previous := x\<rparr>)"
      by (auto simp: rsi_step_def rsi_arm_def Let_def split: option.splits)
    show ?thesis
      unfolding rsi_inv_def Let_def run step rsi_recoveries_snoc
      using idle IH by (auto simp: nth_append less_Suc_eq)
  qed
qed

lemma armed_at_snoc:
  "armed_at p (xs @ [x]) (length xs) r \<longleftrightarrow>
     (\<exists>c. x = Some c \<and> c \<le> rp_low p) \<and> 0 \<le> rp_expiry p
     \<or> (\<exists>j < length xs. low_bar p xs j \<and> int (length xs - j) \<le> rp_expiry p
          \<and> (\<forall>k. j \<le> k \<and> k < length xs \<longrightarrow> \<not> r ! k))"
proof -
  have "(\<exists>j \<le> n. P j) \<longleftrightarrow> P n \<or> (\<exists>j < n. P j)" for n and P :: "nat \<Rightarrow> bool" by (auto simp: le_less)
  then show ?thesis unfolding armed_at_def by (auto simp: low_bar_append cong: conj_cong)
qed

lemma rsi_recovery_last:
  assumes "0 \<le> rp_expiry p"
  shows "last (rsi_recoveries p (xs @ [x])) \<longleftrightarrow>
    armed_at p (xs @ [x]) (length xs) (rsi_recoveries p xs)
    \<and> crosses_recovery p (if xs = [] then None else last xs) x"
proof -
  let ?st = "rsi_run p rsi_start xs" and ?n = "length xs" and ?r = "rsi_recoveries p xs"
  let ?low = "\<exists>c. x = Some c \<and> c \<le> rp_low p"
  note inv = rsi_inv_run [OF assms, of xs, unfolded rsi_inv_def Let_def]
  consider (low) ?low | (live) "\<not> ?low" "rs_armed ?st" | (idle) "\<not> ?low" "\<not> rs_armed ?st" by blast
  then have "rs_armed (rsi_arm p ?st x) \<longleftrightarrow> armed_at p (xs @ [x]) ?n ?r"
  proof cases
    case low
    with assms show ?thesis by (auto simp: armed_at_snoc rsi_arm_def)
  next
    case live
    then obtain j where j: "j < ?n" "low_bar p xs j" "rs_armed_bars ?st = int (?n - 1 - j)"
      "\<forall>k. j < k \<and> k < ?n \<longrightarrow> \<not> low_bar p xs k" "\<forall>k. j \<le> k \<and> k < ?n \<longrightarrow> \<not> ?r ! k"
      using inv by blast
    then have older: "int (?n - j) \<le> int (?n - j')" if "low_bar p xs j'" "j' < ?n" for j'
      using that by (meson diff_le_mono2 not_le of_nat_mono)
    from live j(1,3) have "rs_armed (rsi_arm p ?st x) \<longleftrightarrow> int (?n - j) \<le> rp_expiry p"
      by (auto simp: rsi_arm_def split: option.splits)
    also have "\<dots> \<longleftrightarrow> armed_at p (xs @ [x]) ?n ?r"
      unfolding armed_at_snoc using live(1) j older by (meson order_trans)
    finally show ?thesis .
  next
    case idle
    then have "\<not> rs_armed (rsi_arm p ?st x)" by (auto simp: rsi_arm_def split: option.splits)
    moreover have "rp_expiry p < int (?n - j) \<or> (\<exists>k. j \<le> k \<and> k < ?n \<and> ?r ! k)" if "low_bar p xs j" "j < ?n" for j
    proof -
      have "int (?n - 1 - j) \<le> int (?n - j)" by simp
      with inv idle(2) that show ?thesis by (meson order_less_le_trans)
    qed
    ultimately show ?thesis unfolding armed_at_snoc using idle(1) by (meson not_le)
  qed
  then show ?thesis by (simp add: rsi_recoveries_snoc rsi_step_def Let_def rsi_inv_previous)
qed

lemma rsi_recoveries_spec:
  assumes "0 \<le> rp_expiry p" and "i < length xs"
  shows "rsi_recoveries p xs ! i \<longleftrightarrow>
    armed_at p xs i (rsi_recoveries p xs)
    \<and> crosses_recovery p (if i = 0 then None else xs ! (i - 1)) (xs ! i)"
proof -
  have xs: "take (Suc i) xs = take i xs @ [xs ! i]" by (simp add: assms(2) take_Suc_conv_app_nth)
  have "rsi_recoveries p xs ! i = last (rsi_recoveries p (take (Suc i) xs))"
    unfolding rsi_recoveries_take using assms(2) by (simp add: take_Suc_conv_app_nth)
  also have "\<dots> \<longleftrightarrow> armed_at p (take (Suc i) xs) i (take i (rsi_recoveries p xs))
    \<and> crosses_recovery p (if i = 0 then None else xs ! (i - 1)) (xs ! i)"
    using rsi_recovery_last [OF assms(1), of "take i xs" "xs ! i"] assms(2)
    by (auto simp: xs rsi_recoveries_take last_conv_nth min_def)
  also have "armed_at p (take (Suc i) xs) i (take i (rsi_recoveries p xs)) = armed_at p xs i (rsi_recoveries p xs)"
    by (auto simp: armed_at_def low_bar_def)
  finally show ?thesis .
qed

section \<open>Causality\<close>

text \<open>
  What the indicators use of the pandas mean: one value per row, a value at row \<open>t\<close> that depends
  on the rows up to \<open>t\<close> only, and NaN as long as no observation has been seen.
\<close>

locale causal_smoother =
  fixes ewm :: "real \<Rightarrow> series \<Rightarrow> series"
  assumes ewm_take: "ewm a (take k xs) = take k (ewm a xs)"
    and ewm_length: "length (ewm a xs) = length xs"
    and ewm_none: "ewm a (replicate k None) = replicate k None"

lemma valid_positions_append:
  "valid_positions_from i (xs @ ys) = valid_positions_from i xs @ valid_positions_from (i + length xs) ys"
  by (induction xs arbitrary: i) auto

lemma valid_positions_bounds:
  "j \<in> set (valid_positions_from i xs) \<Longrightarrow> i \<le> j \<and> j < i + length xs"
  by (induction xs arbitrary: i) (force split: if_splits)+

lemma length_diff_from [simp]: "length (diff_from prev xs) = length xs"
  by (induction xs arbitrary: prev) auto

lemma diff_from_take: "diff_from prev (take k xs) = take k (diff_from prev xs)"
proof (induction xs arbitrary: prev k)
  case (Cons x xs)
  then show ?case by (cases k) auto
qed simp

lemma take_seeded:
  assumes "s < k"
  shows "take k (replicate s None @ v # drop (s + 1) xs) = replicate s None @ v # drop (s + 1) (take k xs)"
proof -
  have "k - s = Suc (k - (s + 1))" using assms by simp
  with assms show ?thesis by (simp add: drop_take)
qed

context causal_smoother
begin

lemma wilder_rma_length: "wilder_rma ewm xs n = Inr ys \<Longrightarrow> length ys = length xs"
proof -
  assume rma: "wilder_rma ewm xs n = Inr ys"
  show ?thesis
  proof (cases "length (valid_positions_from 0 xs) < n")
    case False
    with rma have "0 < n" by (auto simp: wilder_rma_def split: if_splits)
    with False have "valid_positions_from 0 xs ! (n - 1) \<in> set (valid_positions_from 0 xs)" by simp
    from valid_positions_bounds [OF this] rma False \<open>0 < n\<close> show ?thesis
      by (auto simp: wilder_rma_def Let_def ewm_length)
  qed (use rma in \<open>auto simp: wilder_rma_def Let_def split: if_splits\<close>)
qed

lemma wilder_rma_take_le:
  assumes "wilder_rma ewm xs n = Inr ys" and "k \<le> length xs"
  shows "wilder_rma ewm (take k xs) n = Inr (take k ys)"
proof -
  let ?A = "valid_positions_from 0 (take k xs)" and ?B = "valid_positions_from k (drop k xs)"
  have n: "0 < n" using assms(1) by (auto simp: wilder_rma_def split: if_splits)
  have vp: "valid_positions_from 0 xs = ?A @ ?B"
    using valid_positions_append [of 0 "take k xs" "drop k xs"] assms(2) by (simp add: min_def)
  let ?sp = "(?A @ ?B) ! (n - 1)"
  let ?seed = "series_mean (map (\<lambda>i. the (xs ! i)) (take n (?A @ ?B)))"
  have ys: "ys = ewm (1 / real n) (replicate ?sp None @ Some ?seed # drop (?sp + 1) xs)"
    if "\<not> length (?A @ ?B) < n"
    using assms(1) n that by (simp add: wilder_rma_def Let_def vp)
  consider (early) "n \<le> length ?A" | (late) "length ?A < n" "n \<le> length (?A @ ?B)" | (never) "length (?A @ ?B) < n"
    by linarith
  then show ?thesis
  proof cases
    case early
    have A: "i < k" if "i \<in> set ?A" for i using valid_positions_bounds [OF that] assms(2) by simp
    have sp: "?sp = ?A ! (n - 1)" "?sp < k" using early n A by (auto simp: nth_append)
    have "map (\<lambda>i. the (xs ! i)) (take n ?A) = map (\<lambda>i. the (take k xs ! i)) (take n ?A)"
      using A by (auto dest: in_set_takeD)
    with early have seed: "?seed = series_mean (map (\<lambda>i. the (take k xs ! i)) (take n ?A))"
      by (simp del: map_eq_conv)
    have "take k (replicate ?sp None @ Some ?seed # drop (?sp + 1) xs)
        = replicate ?sp None @ Some ?seed # drop (?sp + 1) (take k xs)"
      by (rule take_seeded [OF sp(2)])
    with early n ys sp(1) seed show ?thesis
      by (simp add: wilder_rma_def Let_def flip: ewm_take)
  next
    case late
    then have "?sp \<in> set ?B" using n by (auto simp: nth_append)
    then have "k \<le> ?sp" using valid_positions_bounds by blast
    then have "take k (replicate ?sp None @ Some ?seed # drop (?sp + 1) xs) = replicate k None"
      by (simp add: min_def)
    with late n ys assms(2) show ?thesis
      by (simp add: wilder_rma_def Let_def ewm_none flip: ewm_take)
  next
    case never
    with assms n show ?thesis by (auto simp: wilder_rma_def Let_def vp min_def)
  qed
qed

lemma wilder_rma_take:
  assumes "wilder_rma ewm xs n = Inr ys"
  shows "wilder_rma ewm (take k xs) n = Inr (take k ys)"
  using wilder_rma_take_le [OF assms] wilder_rma_length [OF assms] assms
  by (cases "k \<le> length xs") simp_all

lemma wilder_rsi_total: "0 < n \<Longrightarrow> \<exists>ys. wilder_rsi ewm xs n = Inr ys"
  by (simp add: wilder_rsi_def wilder_rma_def Let_def)

lemma wilder_rsi_take:
  assumes "wilder_rsi ewm xs n = Inr ys"
  shows "wilder_rsi ewm (take k xs) n = Inr (take k ys)" and "length ys = length xs"
proof -
  let ?g = "map (map_option (max 0)) (diff_from None xs)"
    and ?l = "map (map_option (\<lambda>x. - min 0 x)) (diff_from None xs)"
  from assms obtain g l where "0 < n" and g: "wilder_rma ewm ?g n = Inr g"
    and l: "wilder_rma ewm ?l n = Inr l" and ys: "ys = map2 rsi_point g l"
    by (auto simp: wilder_rsi_def Let_def rbind_eq_Inr split: if_splits)
  with wilder_rma_take [OF g, of k] wilder_rma_take [OF l, of k]
  show "wilder_rsi ewm (take k xs) n = Inr (take k ys)"
    by (simp add: wilder_rsi_def Let_def diff_from_take take_map take_zip)
  show "length ys = length xs" using ys wilder_rma_length [OF g] wilder_rma_length [OF l] by simp
qed

lemma rsi_compute_take:
  assumes "rsi_compute ewm p data = Inr (rsi, rec)"
  shows "rsi_compute ewm p (take k data) = Inr (take k rsi, take k rec)"
    and "length rsi = length data" and "length rec = length data"
  using assms wilder_rsi_take [of "map (\<lambda>c. Some (ca_close c)) data" "rp_length p" rsi]
  by (auto simp: rsi_compute_def rbind_eq_Inr rsi_recoveries_take take_map)

lemma rsi_frame_is_evaluate:
  assumes "rsi_decision_frame ewm p data = Inr rows" and "i < length data"
  shows "\<exists>d. rsi_evaluate ewm p cfg ctx now (take (i + 1) data) = Inr d
    \<and> rows ! i = \<lparr>dr_candle = data ! i, dr_decision = sd_decision d, dr_signal_price = sd_signal_price d,
        dr_target_price = sd_target_price d, dr_stop_price = sd_stop_price d\<rparr>"
proof -
  from assms(1) obtain rsi rec where c: "rsi_compute ewm p data = Inr (rsi, rec)"
    by (auto simp: rsi_decision_frame_def rbind_eq_Inr)
  have ne: "take (Suc i) data \<noteq> []" and l: "last (take (Suc i) data) = data ! i"
    and r: "last (take (Suc i) rec) = rec ! i"
    using assms(2) rsi_compute_take(3) [OF c] by (auto simp: take_Suc_conv_app_nth)
  show ?thesis
    using assms c rsi_compute_take(1) [OF c, of "i + 1"] ne l r
    by (auto simp: rsi_decision_frame_def rsi_evaluate_def mk_signal_decision_def Let_def min_def)
qed

end

text \<open>
  The recurrence of the pandas manual for \<open>adjust=False, ignore_na=True\<close>: the first observation
  starts the mean, a later one moves it by \<open>alpha\<close>, a NaN leaves it.
\<close>

fun ewm_recursion :: "real \<Rightarrow> real option \<Rightarrow> series \<Rightarrow> series" where
  "ewm_recursion a m [] = []"
| "ewm_recursion a m (x # xs) =
     (let m' = (case x of None \<Rightarrow> m
                | Some v \<Rightarrow> Some (case m of None \<Rightarrow> v | Some y \<Rightarrow> (1 - a) * y + a * v))
      in m' # ewm_recursion a m' xs)"

lemma length_ewm_recursion [simp]: "length (ewm_recursion a m xs) = length xs"
  by (induction xs arbitrary: m) (simp_all add: Let_def)

lemma ewm_recursion_take: "ewm_recursion a m (take k xs) = take k (ewm_recursion a m xs)"
proof (induction xs arbitrary: m k)
  case (Cons x xs)
  then show ?case by (cases k) (simp_all add: Let_def)
qed simp

lemma ewm_recursion_none: "ewm_recursion a None (replicate k None) = replicate k None"
  by (induction k) simp_all

interpretation pandas: causal_smoother "\<lambda>a. ewm_recursion a None"
  by unfold_locales (simp_all add: ewm_recursion_take ewm_recursion_none)

section \<open>The registry keeps its contract\<close>

lemma register_cases:
  assumes "register reg s = Inr reg'"
  shows "reg' = AList.update (st_id s) s reg"
    and "st_validate_config s (default_config (st_schema s)) = Inr ()"
    and "map_of reg (st_id s) = Some t \<Longrightarrow> st_ref t = st_ref s"
  using assms by (auto simp: register_def rbind_eq_Inr split: if_splits option.splits)

lemma map_of_sorted_snd:
  "registry_ok reg \<Longrightarrow> s \<in> snd ` set reg \<longleftrightarrow> map_of reg (st_id s) = Some s"
  by (force simp: registry_ok_def)

lemma rmap_list_cong: "(\<And>x. x \<in> set xs \<Longrightarrow> f x = g x) \<Longrightarrow> rmap_list f xs = rmap_list g xs"
  by (induction xs) simp_all

lemma rmap_list_take: "rmap_list f xs = Inr ys \<Longrightarrow> rmap_list f (take k xs) = Inr (take k ys)"
proof (induction xs arbitrary: ys k)
  case (Cons x xs)
  then show ?case by (cases k) (auto simp: rbind_eq_Inr)
qed simp

section \<open>Properties\<close>


definition example_rsi_params :: rsi_params where
  "example_rsi_params = \<lparr>rp_length = 2, rp_low = 30, rp_recovery = 35, rp_expiry = 24, rp_target_pct = 5\<rparr>"

definition example_candle :: "int \<Rightarrow> real \<Rightarrow> candle" where
  "example_candle t c = \<lparr>ca_at = t, ca_open = c, ca_high = c, ca_low = c, ca_close = c, ca_volume = 1\<rparr>"


text \<open>
  C14. When the RSI strategy signals a recovery: at bar \<open>i\<close> exactly if the RSI crosses the recovery
  level from below at \<open>i\<close>, some bar at most \<open>setup_expiry_bars\<close> back was at or below the low
  level, and no recovery was signalled since that bar. In particular one arming gives one signal.
\<close>

theorem rsi_recovery_signals:
  assumes "0 \<le> rp_expiry p" and "i < length rsi"
  shows "rsi_recoveries p rsi ! i \<longleftrightarrow>
    crosses_recovery p (if i = 0 then None else rsi ! (i - 1)) (rsi ! i)
    \<and> (\<exists>j \<le> i. low_bar p rsi j \<and> int (i - j) \<le> rp_expiry p
         \<and> (\<forall>k. j \<le> k \<and> k < i \<longrightarrow> \<not> rsi_recoveries p rsi ! k))"
  using rsi_recoveries_spec [OF assms] by (auto simp: armed_at_def)

theorem rsi_recovery_signals_witness:
  "rsi_recoveries example_rsi_params [None, Some 20, Some 40] ! 2
   \<and> \<not> rsi_recoveries example_rsi_params [None, Some 20, Some 40, Some 34, Some 36] ! 4"
proof -
  have cross: "crosses_recovery example_rsi_params (Some 20) (Some 40)"
    by (simp add: crosses_recovery_def example_rsi_params_def)
  have "low_bar example_rsi_params [None, Some 20, Some 40] 1"
    by (simp add: low_bar_def example_rsi_params_def)
  moreover have "\<not> rsi_recoveries example_rsi_params [None, Some 20, Some 40] ! 1"
    by (simp add: rsi_recoveries_def rsi_step_def rsi_arm_def rsi_start_def crosses_recovery_def Let_def)
  ultimately have "rsi_recoveries example_rsi_params [None, Some 20, Some 40] ! 2"
    using rsi_recovery_signals [of example_rsi_params 2 "[None, Some 20, Some 40]"] cross
    by (auto simp: example_rsi_params_def intro!: exI [of _ 1] dest: le_neq_implies_less)
  moreover have "\<not> rsi_recoveries example_rsi_params [None, Some 20, Some 40, Some 34, Some 36] ! 4"
    by (simp add: rsi_recoveries_def rsi_step_def rsi_arm_def rsi_start_def crosses_recovery_def
        example_rsi_params_def Let_def)
  ultimately show ?thesis ..
qed

text \<open>
  The registry. Registering keeps one entry per id, under that id; afterwards the id gives the
  strategy just registered, every other id what it gave before; and an id that belongs to another
  object is refused, so a registration never replaces a strategy silently.
\<close>

theorem register_contract:
  assumes "registry_ok reg" and "register reg s = Inr reg'"
  shows "registry_ok reg' \<and> registry_get reg' (st_id s) = Inr s
    \<and> (\<forall>k. k \<noteq> st_id s \<longrightarrow> registry_get reg' k = registry_get reg k)
    \<and> (\<forall>t. registry_get reg (st_id s) = Inr t \<longrightarrow> st_ref t = st_ref s)
    \<and> sorted (registry_ids reg') \<and> distinct (registry_ids reg')"
proof -
  note c = register_cases [OF assms(2)]
  have ok: "registry_ok reg'"
    using assms(1) unfolding c(1) registry_ok_def
    by (auto simp: distinct_update set_update_distinct)
  have get: "registry_get reg' k = (if k = st_id s then Inr s else registry_get reg k)" for k
    by (simp add: registry_get_def c(1) update_conv')
  show ?thesis
  proof (intro conjI allI impI)
    show "sorted (registry_ids reg')" and "distinct (registry_ids reg')"
      using ok by (simp_all add: registry_ids_def registry_ok_def)
    show "st_ref t = st_ref s" if "registry_get reg (st_id s) = Inr t" for t
      using that c(3) [of t] by (simp add: registry_get_def split: option.splits)
  qed (simp_all add: ok get)
qed

definition example_strategy :: strategy where
  "example_strategy = \<lparr>st_ref = 7, st_id = ''rsi_dip_ladder_v1'', st_name = ''RSI Dip Ladder'',
     st_version = ''1.0.0'', st_markets = [''NSE'', ''CRYPTO''], st_timeframes = [''5m''],
     st_schema = RSI_CONFIG_SCHEMA, st_required_history = (\<lambda>_. Inr 16),
     st_validate_config = (\<lambda>_. Inr ()),
     st_evaluate = (\<lambda>data ctx cfg. rsi_evaluate (\<lambda>a. ewm_recursion a None) example_rsi_params cfg ctx 0 data),
     st_vectorised = None\<rparr>"

theorem register_contract_witness:
  "\<exists>reg. register [] example_strategy = Inr reg \<and> registry_get reg ''rsi_dip_ladder_v1'' = Inr example_strategy"
proof -
  have "register [] example_strategy = Inr [(''rsi_dip_ladder_v1'', example_strategy)]"
    by (simp add: register_def example_strategy_def)
  moreover have "registry_ok []" by (simp add: registry_ok_def)
  ultimately show ?thesis
    using register_contract [of "[]" example_strategy] by (auto simp: example_strategy_def)
qed

text \<open>
  The prefix path of \<open>decision_frame\<close> is causal for every strategy: the rows of the first
  \<open>k\<close> candles do not change when later candles are added.
\<close>

theorem decision_frame_causal:
  assumes "st_vectorised s = None" and "decision_frame s data ctx config = Inr rows"
  shows "decision_frame s (take k data) ctx config = Inr (take k rows)"
proof -
  from assms have rows: "rmap_list (prefix_row s ctx config data) [0..<length data] = Inr rows"
    by (auto simp: decision_frame_def rbind_eq_Inr split: if_splits)
  have "rmap_list (prefix_row s ctx config (take k data)) [0..<length (take k data)]
      = rmap_list (prefix_row s ctx config data) (take k [0..<length data])"
    by (cases "k \<le> length data") (auto simp: prefix_row_def min_def intro!: rmap_list_cong)
  also have "\<dots> = Inr (take k rows)" by (rule rmap_list_take [OF rows])
  finally show ?thesis using assms(1) by (simp add: decision_frame_def)
qed

theorem decision_frame_causal_witness:
  "\<exists>rows. decision_frame example_strategy [example_candle 0 10, example_candle 1 9]
       \<lparr>mc_market = ''NSE'', mc_symbol = ''X'', mc_timeframe = ''5m''\<rparr> [] = Inr rows
     \<and> decision_frame example_strategy (take 1 [example_candle 0 10, example_candle 1 9])
       \<lparr>mc_market = ''NSE'', mc_symbol = ''X'', mc_timeframe = ''5m''\<rparr> [] = Inr (take 1 rows)"
proof -
  let ?ctx = "\<lparr>mc_market = ''NSE'', mc_symbol = ''X'', mc_timeframe = ''5m''\<rparr>"
  have "is_ok (decision_frame example_strategy [example_candle 0 10, example_candle 1 9] ?ctx [])"
    by (simp add: decision_frame_def prefix_row_def example_strategy_def rsi_evaluate_def rsi_compute_def
        wilder_rsi_def wilder_rma_def example_rsi_params_def mk_signal_decision_def Let_def upt_rec)
  then obtain rows where rows:
    "decision_frame example_strategy [example_candle 0 10, example_candle 1 9] ?ctx [] = Inr rows"
    by (auto simp: is_ok_iff)
  have "st_vectorised example_strategy = None" by (simp add: example_strategy_def)
  from decision_frame_causal [OF this rows, of 1] rows show ?thesis by blast
qed

end
