(* ===== verification/Execution_Policy.thy ===== *)
theory Execution_Policy
  imports Strategy_Config
begin

text \<open>
  The execution settings of a backtest (\<open>ExecutionSettings\<close> and \<open>BacktestRequest\<close> of
  \<open>backend/backtest/engine.py\<close>) and of paper trading (\<open>backend/paper_trading/execution.py\<close>):
  validation, decoding of a request body, lot sizing, targets and stops. A count that the source
  annotates as \<open>int\<close> but takes from a request unconverted (the paper policy) is a number here.
\<close>

section \<open>Backtest execution settings\<close>

record execution_settings =
  xs_target_pct :: "real option"
  xs_stop_loss_pct :: "real option"
  xs_maximum_holding_bars :: "int option"
  xs_initial_quantity :: real
  xs_allow_additional_buys :: bool
  xs_additional_quantity_pct :: real
  xs_additional_sizing_mode :: string
  xs_minimum_quantity :: real
  xs_maximum_entries_per_cycle :: int
  xs_batch_size :: int
  xs_transaction_cost_bps :: "real option"
  xs_slippage_bps :: "real option"
  xs_whole_units :: bool

definition default_settings :: execution_settings where
  "default_settings = \<lparr>xs_target_pct = None, xs_stop_loss_pct = None, xs_maximum_holding_bars = None,
     xs_initial_quantity = 100, xs_allow_additional_buys = True, xs_additional_quantity_pct = 50,
     xs_additional_sizing_mode = ''REDUCE_EVERY_NEW_LOT'', xs_minimum_quantity = 1,
     xs_maximum_entries_per_cycle = 10, xs_batch_size = 500, xs_transaction_cost_bps = None,
     xs_slippage_bps = None, xs_whole_units = True\<rparr>"

definition SIZING_REDUCTIONS :: "string list" where
  "SIZING_REDUCTIONS = [''REDUCE_EVERY_NEW_LOT'', ''FIXED_PERCENTAGE_OF_FIRST_LOT'']"

definition settings_validate :: "execution_settings \<Rightarrow> execution_settings res" where
  "settings_validate s =
     (if case_option False (\<lambda>t. t \<le> 0) (xs_target_pct s)
      then Inl (ValueError ''target_pct must be greater than zero'')
      else if case_option False (\<lambda>p. \<not> (0 < p \<and> p < 100)) (xs_stop_loss_pct s)
      then Inl (ValueError ''stop_loss_pct must be between 0 and 100'')
      else if case_option False (\<lambda>b. b < 1) (xs_maximum_holding_bars s)
      then Inl (ValueError ''maximum_holding_bars must be at least 1'')
      else if xs_initial_quantity s \<le> 0 \<or> xs_minimum_quantity s \<le> 0
      then Inl (ValueError ''Lot quantities must be positive'')
      else if xs_whole_units s \<and> (\<not> is_integer (xs_initial_quantity s) \<or> \<not> is_integer (xs_minimum_quantity s))
      then Inl (ValueError ''NSE lot quantities must be whole numbers'')
      else if \<not> (0 < xs_additional_quantity_pct s \<and> xs_additional_quantity_pct s \<le> 100)
      then Inl (ValueError ''additional_quantity_pct must be in (0, 100]'')
      else if xs_additional_sizing_mode s \<notin> set SIZING_REDUCTIONS
      then Inl (ValueError ''Unsupported additional sizing mode'')
      else if \<not> (1 \<le> xs_maximum_entries_per_cycle s \<and> xs_maximum_entries_per_cycle s \<le> 100)
      then Inl (ValueError ''maximum_entries_per_cycle must be between 1 and 100'')
      else if xs_batch_size s < 1 then Inl (ValueError ''batch_size must be positive'')
      else if (xs_transaction_cost_bps s = None) \<noteq> (xs_slippage_bps s = None)
      then Inl (ValueError ''transactionCostBps and slippageBps must be provided together'')
      else if case_option False (\<lambda>b. \<not> (0 \<le> b \<and> b \<le> 10000)) (xs_transaction_cost_bps s)
      then Inl (ValueError ''transactionCostBps must be between 0 and 10000'')
      else if case_option False (\<lambda>b. \<not> (0 \<le> b \<and> b \<le> 10000)) (xs_slippage_bps s)
      then Inl (ValueError ''slippageBps must be between 0 and 10000'')
      else Inr s)"

definition settings_fee_model :: "execution_settings \<Rightarrow> fee_model \<Rightarrow> fee_model" where
  "settings_fee_model s market_fees =
     (case (xs_transaction_cost_bps s, xs_slippage_bps s) of
        (Some c, Some b) \<Rightarrow> PercentageFees \<lparr>transaction_cost_bps = c, slippage_bps = b\<rparr>
      | _ \<Rightarrow> market_fees)"

text \<open>The size of a lot before rounding, shared by both policies.\<close>

definition raw_lot :: "real \<Rightarrow> real \<Rightarrow> string \<Rightarrow> nat \<Rightarrow> real" where
  "raw_lot base pct mode entry_number =
     (if entry_number = 0 then base
      else if mode = ''REDUCE_EVERY_NEW_LOT'' then base * (pct / 100) ^ entry_number
      else base * (pct / 100))"

definition settings_lot_quantity :: "execution_settings \<Rightarrow> nat \<Rightarrow> real" where
  "settings_lot_quantity s entry_number =
     (let raw = raw_lot (xs_initial_quantity s) (xs_additional_quantity_pct s)
                  (xs_additional_sizing_mode s) entry_number
      in if xs_whole_units s then max (of_int \<lfloor>xs_minimum_quantity s\<rfloor>) (of_int \<lfloor>raw\<rfloor>)
         else max (xs_minimum_quantity s) (py_round raw 8))"

definition opt_float :: "real option \<Rightarrow> pyval" where
  "opt_float x = (case x of None \<Rightarrow> PyNone | Some r \<Rightarrow> PyFloat r)"

definition opt_int :: "int option \<Rightarrow> pyval" where
  "opt_int x = (case x of None \<Rightarrow> PyNone | Some i \<Rightarrow> PyInt i)"

definition settings_public :: "execution_settings \<Rightarrow> config" where
  "settings_public s =
     [(''targetPct'', opt_float (xs_target_pct s)),
      (''stopLossPct'', opt_float (xs_stop_loss_pct s)),
      (''maximumHoldingBars'', opt_int (xs_maximum_holding_bars s)),
      (''initialQuantity'', PyFloat (xs_initial_quantity s)),
      (''allowAdditionalBuys'', PyBool (xs_allow_additional_buys s)),
      (''additionalQuantityPct'', PyFloat (xs_additional_quantity_pct s)),
      (''additionalSizingMode'', PyStr (xs_additional_sizing_mode s)),
      (''minimumQuantity'', PyFloat (xs_minimum_quantity s)),
      (''maximumEntriesPerCycle'', PyInt (xs_maximum_entries_per_cycle s)),
      (''batchSize'', PyInt (xs_batch_size s)),
      (''transactionCostBps'', opt_float (xs_transaction_cost_bps s)),
      (''slippageBps'', opt_float (xs_slippage_bps s)),
      (''wholeUnits'', PyBool (xs_whole_units s))]"

text \<open>
  \<open>EXECUTION_SETTINGS_SCHEMA\<close> and the aliases: public name, internal name, type, whether the
  default is null, and the enumeration. The schema's minima and maxima serve the settings form;
  \<open>from_mapping\<close> does not read them.
\<close>

datatype setting_kind = KNumber | KInteger | KBoolean | KString

record setting_def =
  sf_public :: string
  sf_internal :: string
  sf_kind :: setting_kind
  sf_nullable :: bool
  sf_enum :: "string list option"

definition setting :: "string \<Rightarrow> string \<Rightarrow> setting_kind \<Rightarrow> bool \<Rightarrow> setting_def" where
  "setting public internal kind nullable =
     \<lparr>sf_public = public, sf_internal = internal, sf_kind = kind, sf_nullable = nullable, sf_enum = None\<rparr>"

definition SETTING_DEFS :: "setting_def list" where
  "SETTING_DEFS =
     [setting ''targetPct'' ''target_pct'' KNumber True,
      setting ''stopLossPct'' ''stop_loss_pct'' KNumber True,
      setting ''maximumHoldingBars'' ''maximum_holding_bars'' KInteger True,
      setting ''initialQuantity'' ''initial_quantity'' KNumber False,
      setting ''allowAdditionalBuys'' ''allow_additional_buys'' KBoolean False,
      setting ''additionalQuantityPct'' ''additional_quantity_pct'' KNumber False,
      (setting ''additionalSizingMode'' ''additional_sizing_mode'' KString False)\<lparr>sf_enum := Some SIZING_REDUCTIONS\<rparr>,
      setting ''minimumQuantity'' ''minimum_quantity'' KNumber False,
      setting ''maximumEntriesPerCycle'' ''maximum_entries_per_cycle'' KInteger False,
      setting ''batchSize'' ''batch_size'' KInteger False,
      setting ''transactionCostBps'' ''transaction_cost_bps'' KNumber True,
      setting ''slippageBps'' ''slippage_bps'' KNumber True]"

definition find_setting :: "string \<Rightarrow> setting_def option" where
  "find_setting key = List.find (\<lambda>d. sf_public d = key \<or> sf_internal d = key) SETTING_DEFS"

definition coerce_setting :: "setting_def \<Rightarrow> pyval \<Rightarrow> pyval res" where
  "coerce_setting d v =
     (if v = PyNone then
        (if sf_nullable d then Inr PyNone else Inl (ValueError (sf_public d @ '' cannot be null'')))
      else case sf_kind d of
          KBoolean \<Rightarrow> (if is_bool v then Inr v else Inl (ValueError (sf_public d @ '' must be true or false'')))
        | KInteger \<Rightarrow>
            (if is_bool v \<or> \<not> is_number v then Inl (ValueError (sf_public d @ '' must be a whole number''))
             else rbind (py_float v) (\<lambda>r.
               if \<not> is_integer r then Inl (ValueError (sf_public d @ '' must be a whole number''))
               else rbind (py_int v) (\<lambda>i. Inr (PyInt i))))
        | KNumber \<Rightarrow>
            (if is_bool v \<or> \<not> is_number v then Inl (ValueError (sf_public d @ '' must be a finite number''))
             else rbind (py_float v) (\<lambda>r.
               if \<not> is_finite r then Inl (ValueError (sf_public d @ '' must be a finite number''))
               else Inr (PyFloat r)))
        | KString \<Rightarrow> (case v of PyStr _ \<Rightarrow> Inr v | _ \<Rightarrow> Inl (ValueError (sf_public d @ '' must be a string''))))"

definition check_setting_enum :: "setting_def \<Rightarrow> pyval \<Rightarrow> unit res" where
  "check_setting_enum d v =
     (case sf_enum d of None \<Rightarrow> Inr ()
      | Some vs \<Rightarrow> raise_if (v \<notin> PyStr ` set vs) (ValueError (sf_public d @ '' must be one of the enumerated values'')))"

fun float_of :: "pyval \<Rightarrow> real option" where
  "float_of (PyFloat r) = Some r" | "float_of _ = None"

fun int_of :: "pyval \<Rightarrow> int option" where
  "int_of (PyInt i) = Some i" | "int_of _ = None"

text \<open>The keyword argument of a converted value; the conversion has fixed its type.\<close>

definition set_setting :: "string \<Rightarrow> pyval \<Rightarrow> execution_settings \<Rightarrow> execution_settings" where
  "set_setting internal v s =
     (if internal = ''target_pct'' then s\<lparr>xs_target_pct := float_of v\<rparr>
      else if internal = ''stop_loss_pct'' then s\<lparr>xs_stop_loss_pct := float_of v\<rparr>
      else if internal = ''maximum_holding_bars'' then s\<lparr>xs_maximum_holding_bars := int_of v\<rparr>
      else if internal = ''initial_quantity'' then s\<lparr>xs_initial_quantity := the (float_of v)\<rparr>
      else if internal = ''allow_additional_buys'' then s\<lparr>xs_allow_additional_buys := (v = PyBool True)\<rparr>
      else if internal = ''additional_quantity_pct'' then s\<lparr>xs_additional_quantity_pct := the (float_of v)\<rparr>
      else if internal = ''additional_sizing_mode'' then
        s\<lparr>xs_additional_sizing_mode := (case v of PyStr t \<Rightarrow> t | _ \<Rightarrow> [])\<rparr>
      else if internal = ''minimum_quantity'' then s\<lparr>xs_minimum_quantity := the (float_of v)\<rparr>
      else if internal = ''maximum_entries_per_cycle'' then s\<lparr>xs_maximum_entries_per_cycle := the (int_of v)\<rparr>
      else if internal = ''batch_size'' then s\<lparr>xs_batch_size := the (int_of v)\<rparr>
      else if internal = ''transaction_cost_bps'' then s\<lparr>xs_transaction_cost_bps := float_of v\<rparr>
      else if internal = ''slippage_bps'' then s\<lparr>xs_slippage_bps := float_of v\<rparr>
      else s)"

definition settings_step :: "bool \<Rightarrow> execution_settings \<Rightarrow> string \<times> pyval \<Rightarrow> execution_settings res" where
  "settings_step whole_units s entry =
     (if fst entry \<in> {''whole_units'', ''wholeUnits''} then
        (if snd entry \<noteq> PyBool whole_units
         then Inl (ValueError ''wholeUnits is determined by the selected market'') else Inr s)
      else case find_setting (fst entry) of
          None \<Rightarrow> Inl (ValueError ''Unknown execution setting'')
        | Some d \<Rightarrow> rbind (coerce_setting d (snd entry)) (\<lambda>v.
            rbind (check_setting_enum d v) (\<lambda>_. Inr (set_setting (sf_internal d) v s))))"

definition settings_from_mapping :: "config \<Rightarrow> bool \<Rightarrow> execution_settings res" where
  "settings_from_mapping values whole_units =
     rbind (rfold (settings_step whole_units) (default_settings\<lparr>xs_whole_units := whole_units\<rparr>) values)
       settings_validate"

record backtest_request =
  br_run_id :: string
  br_market :: string
  br_strategy_id :: string
  br_symbols :: "string list"
  br_timeframe :: string
  br_start_date :: day
  br_end_date :: day
  br_configuration :: config
  br_execution :: execution_settings

definition request_validate :: "backtest_request \<Rightarrow> backtest_request res" where
  "request_validate r =
     (if br_symbols r = [] then Inl (ValueError ''A backtest needs at least one symbol'')
      else if br_end_date r < br_start_date r then Inl (ValueError ''end_date must not be before start_date'')
      else rbind (settings_validate (br_execution r)) (\<lambda>_. Inr r))"

section \<open>Paper execution policy\<close>

record execution_policy =
  ep_sizing_mode :: string
  ep_initial_quantity :: real
  ep_capital_per_lot :: real
  ep_allow_additional_buys :: bool
  ep_additional_quantity_pct :: real
  ep_additional_sizing_mode :: string
  ep_minimum_quantity :: "real option"
  ep_maximum_entries_per_cycle :: real
  ep_price_model :: string
  ep_stop_loss_pct :: "real option"
  ep_maximum_holding_bars :: "real option"
  ep_maximum_open_positions :: real
  ep_maximum_daily_trades :: real
  ep_maximum_daily_loss_pct :: real
  ep_maximum_total_exposure_pct :: real
  ep_whole_units :: bool

definition SIZING_MODES :: "string list" where
  "SIZING_MODES = [''FIXED_QUANTITY'', ''FIXED_CAPITAL'']"

definition PRICE_MODELS :: "string list" where
  "PRICE_MODELS = [''SIGNAL_CLOSE'', ''NEXT_OPEN'']"

definition default_policy :: execution_policy where
  "default_policy = \<lparr>ep_sizing_mode = ''FIXED_QUANTITY'', ep_initial_quantity = 100,
     ep_capital_per_lot = 50000, ep_allow_additional_buys = True, ep_additional_quantity_pct = 50,
     ep_additional_sizing_mode = ''REDUCE_EVERY_NEW_LOT'', ep_minimum_quantity = None,
     ep_maximum_entries_per_cycle = 10, ep_price_model = ''NEXT_OPEN'', ep_stop_loss_pct = None,
     ep_maximum_holding_bars = None, ep_maximum_open_positions = 5, ep_maximum_daily_trades = 5,
     ep_maximum_daily_loss_pct = 2, ep_maximum_total_exposure_pct = 50, ep_whole_units = True\<rparr>"

definition policy_validate :: "execution_policy \<Rightarrow> execution_policy res" where
  "policy_validate p =
     (if ep_sizing_mode p \<notin> set SIZING_MODES
      then Inl (ValueError ''sizing_mode must be FIXED_QUANTITY or FIXED_CAPITAL'')
      else if ep_price_model p \<notin> set PRICE_MODELS
      then Inl (ValueError ''price_model must be SIGNAL_CLOSE or NEXT_OPEN'')
      else if ep_initial_quantity p \<le> 0 \<or> ep_capital_per_lot p \<le> 0
              \<or> case_option False (\<lambda>m. m \<le> 0) (ep_minimum_quantity p)
      then Inl (ValueError ''Quantities and capital per lot must be positive'')
      else if \<not> (0 < ep_additional_quantity_pct p \<and> ep_additional_quantity_pct p \<le> 100)
      then Inl (ValueError ''additional_quantity_pct must be in (0, 100]'')
      else if ep_additional_sizing_mode p \<notin> set SIZING_REDUCTIONS
      then Inl (ValueError ''Unsupported additional sizing mode'')
      else if \<not> (1 \<le> ep_maximum_entries_per_cycle p \<and> ep_maximum_entries_per_cycle p \<le> 100)
      then Inl (ValueError ''maximum_entries_per_cycle must be between 1 and 100'')
      else if case_option False (\<lambda>s. \<not> (0 < s \<and> s < 100)) (ep_stop_loss_pct p)
      then Inl (ValueError ''stop_loss_pct must be between 0 and 100'')
      else if case_option False (\<lambda>b. b < 1) (ep_maximum_holding_bars p)
      then Inl (ValueError ''maximum_holding_bars must be at least 1'')
      else if ep_maximum_open_positions p < 1
      then Inl (ValueError ''maximum_open_positions must be at least 1'')
      else if ep_maximum_daily_trades p < 1
      then Inl (ValueError ''maximum_daily_trades must be at least 1'')
      else if \<not> (0 < ep_maximum_daily_loss_pct p \<and> ep_maximum_daily_loss_pct p \<le> 100)
      then Inl (ValueError ''maximum_daily_loss_pct must be in (0, 100]'')
      else if \<not> (0 < ep_maximum_total_exposure_pct p \<and> ep_maximum_total_exposure_pct p \<le> 100)
      then Inl (ValueError ''maximum_total_exposure_pct must be in (0, 100]'')
      else Inr p)"

definition effective_minimum_quantity :: "execution_policy \<Rightarrow> real" where
  "effective_minimum_quantity p =
     (case ep_minimum_quantity p of Some m \<Rightarrow> m
      | None \<Rightarrow> if ep_whole_units p then 1 else 1 / 10 ^ 8)"

definition policy_lot_quantity :: "execution_policy \<Rightarrow> int \<Rightarrow> real \<Rightarrow> real res" where
  "policy_lot_quantity p entry_number price =
     (if entry_number < 0 then Inl (ValueError ''Entry number cannot be negative'')
      else if ep_sizing_mode p \<noteq> ''FIXED_QUANTITY'' \<and> price = 0 then Inl ZeroDivisionError
      else let base = (if ep_sizing_mode p = ''FIXED_QUANTITY'' then ep_initial_quantity p
                       else ep_capital_per_lot p / price);
               raw = raw_lot base (ep_additional_quantity_pct p) (ep_additional_sizing_mode p) (nat entry_number);
               quantity = (if ep_whole_units p then of_int \<lfloor>raw\<rfloor> else py_round raw 8)
           in Inr (max (effective_minimum_quantity p) quantity))"

definition MINUTE_US :: int where "MINUTE_US = 60000000"

text \<open>\<open>timedelta(minutes=x)\<close> rounds to whole microseconds, ties to even.\<close>

definition policy_targets ::
  "execution_policy \<Rightarrow> real \<Rightarrow> real \<Rightarrow> timestamp \<Rightarrow> int \<Rightarrow> real \<times> real option \<times> timestamp option" where
  "policy_targets p entry_price target_pct entry_time bar_minutes =
     (py_round (entry_price * (1 + target_pct / 100)) 4,
      map_option (\<lambda>s. py_round (entry_price * (1 - s / 100)) 4) (ep_stop_loss_pct p),
      case ep_maximum_holding_bars p of
        None \<Rightarrow> None
      | Some bars \<Rightarrow> if bars = 0 then None
          else Some (entry_time + round_half_even (of_int bar_minutes * bars * of_int MINUTE_US)))"

text \<open>
  \<open>from_mapping\<close>: the values are taken unconverted. A value that is no number where a number is
  compared is a \<open>TypeError\<close>; the model reports it when the field is set, the source at the first
  comparison of \<open>validate\<close>, which another field's \<open>ValueError\<close> may precede.
\<close>

fun py_truth :: "pyval \<Rightarrow> bool" where
  "py_truth PyNone = False"
| "py_truth (PyBool b) = b"
| "py_truth (PyInt i) = (i \<noteq> 0)"
| "py_truth (PyFloat r) = (r \<noteq> 0)"
| "py_truth (PyStr s) = (s \<noteq> [])"
| "py_truth (PyList vs) = (vs \<noteq> [])"

definition opt_number :: "pyval \<Rightarrow> real option res" where
  "opt_number v = (if v = PyNone then Inr None else rbind (num_elem v) (\<lambda>r. Inr (Some r)))"

definition str_or_empty :: "pyval \<Rightarrow> string" where
  "str_or_empty v = (case v of PyStr s \<Rightarrow> s | _ \<Rightarrow> [])"

definition POLICY_ALIASES :: "(string \<times> string) list" where
  "POLICY_ALIASES =
     [(''sizingMode'', ''sizing_mode''), (''initialQuantity'', ''initial_quantity''),
      (''capitalPerLot'', ''capital_per_lot''), (''allowAdditionalBuys'', ''allow_additional_buys''),
      (''additionalQuantityPct'', ''additional_quantity_pct''),
      (''additionalSizingMode'', ''additional_sizing_mode''), (''minimumQuantity'', ''minimum_quantity''),
      (''maximumEntriesPerCycle'', ''maximum_entries_per_cycle''), (''priceModel'', ''price_model''),
      (''stopLossPct'', ''stop_loss_pct''), (''maximumHoldingBars'', ''maximum_holding_bars''),
      (''wholeUnits'', ''whole_units''), (''maximumOpenPositions'', ''maximum_open_positions''),
      (''maximumDailyTrades'', ''maximum_daily_trades''), (''maximumDailyLossPct'', ''maximum_daily_loss_pct''),
      (''maximumTotalExposurePct'', ''maximum_total_exposure_pct'')]"

definition set_policy :: "string \<Rightarrow> pyval \<Rightarrow> execution_policy \<Rightarrow> execution_policy res" where
  "set_policy name v p =
     (if name = ''sizing_mode'' then Inr (p\<lparr>ep_sizing_mode := str_or_empty v\<rparr>)
      else if name = ''initial_quantity'' then rbind (num_elem v) (\<lambda>r. Inr (p\<lparr>ep_initial_quantity := r\<rparr>))
      else if name = ''capital_per_lot'' then rbind (num_elem v) (\<lambda>r. Inr (p\<lparr>ep_capital_per_lot := r\<rparr>))
      else if name = ''allow_additional_buys'' then Inr (p\<lparr>ep_allow_additional_buys := py_truth v\<rparr>)
      else if name = ''additional_quantity_pct'' then rbind (num_elem v) (\<lambda>r. Inr (p\<lparr>ep_additional_quantity_pct := r\<rparr>))
      else if name = ''additional_sizing_mode'' then Inr (p\<lparr>ep_additional_sizing_mode := str_or_empty v\<rparr>)
      else if name = ''minimum_quantity'' then rbind (opt_number v) (\<lambda>r. Inr (p\<lparr>ep_minimum_quantity := r\<rparr>))
      else if name = ''maximum_entries_per_cycle'' then rbind (num_elem v) (\<lambda>r. Inr (p\<lparr>ep_maximum_entries_per_cycle := r\<rparr>))
      else if name = ''price_model'' then Inr (p\<lparr>ep_price_model := str_or_empty v\<rparr>)
      else if name = ''stop_loss_pct'' then rbind (opt_number v) (\<lambda>r. Inr (p\<lparr>ep_stop_loss_pct := r\<rparr>))
      else if name = ''maximum_holding_bars'' then rbind (opt_number v) (\<lambda>r. Inr (p\<lparr>ep_maximum_holding_bars := r\<rparr>))
      else if name = ''maximum_open_positions'' then rbind (num_elem v) (\<lambda>r. Inr (p\<lparr>ep_maximum_open_positions := r\<rparr>))
      else if name = ''maximum_daily_trades'' then rbind (num_elem v) (\<lambda>r. Inr (p\<lparr>ep_maximum_daily_trades := r\<rparr>))
      else if name = ''maximum_daily_loss_pct'' then rbind (num_elem v) (\<lambda>r. Inr (p\<lparr>ep_maximum_daily_loss_pct := r\<rparr>))
      else if name = ''maximum_total_exposure_pct'' then rbind (num_elem v) (\<lambda>r. Inr (p\<lparr>ep_maximum_total_exposure_pct := r\<rparr>))
      else if name = ''whole_units'' then Inr (p\<lparr>ep_whole_units := py_truth v\<rparr>)
      else Inl (ValueError ''Unknown paper execution setting''))"

definition policy_step :: "execution_policy \<Rightarrow> string \<times> pyval \<Rightarrow> execution_policy res" where
  "policy_step p entry =
     set_policy (case map_of POLICY_ALIASES (fst entry) of None \<Rightarrow> fst entry | Some name \<Rightarrow> name) (snd entry) p"

definition policy_from_mapping :: "config \<Rightarrow> execution_policy \<Rightarrow> execution_policy res" where
  "policy_from_mapping values defaults = rbind (rfold policy_step defaults values) policy_validate"

definition policy_public :: "execution_policy \<Rightarrow> config" where
  "policy_public p =
     [(''sizingMode'', PyStr (ep_sizing_mode p)),
      (''initialQuantity'', PyFloat (ep_initial_quantity p)),
      (''capitalPerLot'', PyFloat (ep_capital_per_lot p)),
      (''allowAdditionalBuys'', PyBool (ep_allow_additional_buys p)),
      (''additionalQuantityPct'', PyFloat (ep_additional_quantity_pct p)),
      (''additionalSizingMode'', PyStr (ep_additional_sizing_mode p)),
      (''minimumQuantity'', PyFloat (effective_minimum_quantity p)),
      (''maximumEntriesPerCycle'', PyFloat (ep_maximum_entries_per_cycle p)),
      (''priceModel'', PyStr (ep_price_model p)),
      (''stopLossPct'', opt_float (ep_stop_loss_pct p)),
      (''maximumHoldingBars'', opt_float (ep_maximum_holding_bars p)),
      (''wholeUnits'', PyBool (ep_whole_units p)),
      (''maximumOpenPositions'', PyFloat (ep_maximum_open_positions p)),
      (''maximumDailyTrades'', PyFloat (ep_maximum_daily_trades p)),
      (''maximumDailyLossPct'', PyFloat (ep_maximum_daily_loss_pct p)),
      (''maximumTotalExposurePct'', PyFloat (ep_maximum_total_exposure_pct p))]"

section \<open>Lot sizes\<close>

definition settings_ok :: "execution_settings \<Rightarrow> bool" where
  "settings_ok s \<longleftrightarrow> settings_validate s = Inr s"

definition policy_ok :: "execution_policy \<Rightarrow> bool" where
  "policy_ok p \<longleftrightarrow> policy_validate p = Inr p"

lemma settings_validate_cases: "settings_validate s = Inr t \<Longrightarrow> t = s \<and> settings_ok s"
  by (auto simp: settings_ok_def settings_validate_def split: if_splits)

lemma settings_okD:
  assumes "settings_ok s"
  shows "0 < xs_initial_quantity s" "0 < xs_minimum_quantity s"
    "xs_whole_units s \<Longrightarrow> is_integer (xs_initial_quantity s) \<and> is_integer (xs_minimum_quantity s)"
    "0 < xs_additional_quantity_pct s" "xs_additional_quantity_pct s \<le> 100"
    "xs_additional_sizing_mode s \<in> set SIZING_REDUCTIONS"
    "1 \<le> xs_maximum_entries_per_cycle s" "1 \<le> xs_batch_size s"
    "xs_stop_loss_pct s = Some p \<Longrightarrow> 0 < p \<and> p < 100"
    "xs_target_pct s = Some t \<Longrightarrow> 0 < t"
    "xs_maximum_holding_bars s = Some b \<Longrightarrow> 1 \<le> b"
  using assms by (auto simp: settings_ok_def settings_validate_def split: if_splits)

lemma policy_validate_cases: "policy_validate p = Inr q \<Longrightarrow> q = p \<and> policy_ok p"
  by (auto simp: policy_ok_def policy_validate_def split: if_splits)

lemma policy_okD:
  assumes "policy_ok p"
  shows "0 < ep_initial_quantity p" "0 < ep_capital_per_lot p" "0 < effective_minimum_quantity p"
    "0 < ep_additional_quantity_pct p" "ep_additional_quantity_pct p \<le> 100"
    "ep_sizing_mode p \<in> set SIZING_MODES"
  using assms
  by (auto simp: policy_ok_def policy_validate_def effective_minimum_quantity_def
      split: if_splits option.splits)

lemma raw_lot_bounds:
  assumes "0 < base" and "0 < pct" and "pct \<le> 100"
  shows "0 < raw_lot base pct mode n" and "raw_lot base pct mode n \<le> base"
    and "raw_lot base pct mode (Suc n) \<le> raw_lot base pct mode n"
proof -
  have r: "0 < pct / 100" "pct / 100 \<le> 1" using assms by simp_all
  have p: "(pct / 100) ^ k \<le> 1" for k using r by (intro power_le_one) simp_all
  show "0 < raw_lot base pct mode n" using assms(1) r by (simp add: raw_lot_def)
  show "raw_lot base pct mode n \<le> base"
    using assms(1) r p [of n] by (auto simp: raw_lot_def mult_le_cancel_left1)
  have "base * (pct / 100) ^ Suc n \<le> base * (pct / 100) ^ n"
    using assms(1) r by (intro mult_left_mono power_decreasing) simp_all
  then show "raw_lot base pct mode (Suc n) \<le> raw_lot base pct mode n"
    using assms(1) r by (cases n) (auto simp: raw_lot_def mult_le_cancel_left1)
qed

lemma is_integer_floor: "is_integer r \<Longrightarrow> of_int \<lfloor>r\<rfloor> = r"
  by (simp add: is_integer_def)

lemma settings_lot_pos: "settings_ok s \<Longrightarrow> 0 < settings_lot_quantity s n"
proof -
  assume ok: "settings_ok s"
  have "of_int \<lfloor>xs_minimum_quantity s\<rfloor> = xs_minimum_quantity s" if "xs_whole_units s"
    using settings_okD(3) [OF ok that] by (simp add: is_integer_floor)
  with settings_okD(2) [OF ok] show ?thesis
    by (auto simp: settings_lot_quantity_def Let_def less_max_iff_disj)
qed

lemma settings_lot_whole: "settings_ok s \<Longrightarrow> xs_whole_units s \<Longrightarrow> settings_lot_quantity s n \<in> \<nat>"
proof -
  assume ok: "settings_ok s" and whole: "xs_whole_units s"
  let ?raw = "raw_lot (xs_initial_quantity s) (xs_additional_quantity_pct s) (xs_additional_sizing_mode s) n"
  from whole obtain z :: int where z: "settings_lot_quantity s n = of_int z"
    by (intro that [of "max \<lfloor>xs_minimum_quantity s\<rfloor> \<lfloor>?raw\<rfloor>"])
      (simp add: settings_lot_quantity_def Let_def of_int_max)
  with settings_lot_pos [OF ok, of n] have "0 \<le> z" by simp
  then have "(of_int z :: real) = of_nat (nat z)" by simp
  with z show ?thesis by (metis of_nat_in_Nats)
qed

lemma settings_lot_antimono: "settings_ok s \<Longrightarrow> settings_lot_quantity s (Suc n) \<le> settings_lot_quantity s n"
proof -
  assume ok: "settings_ok s"
  note le = raw_lot_bounds(3) [OF settings_okD(1,4,5) [OF ok], of "xs_additional_sizing_mode s" n]
  have "\<lfloor>raw_lot (xs_initial_quantity s) (xs_additional_quantity_pct s) (xs_additional_sizing_mode s) (Suc n)\<rfloor>
      \<le> \<lfloor>raw_lot (xs_initial_quantity s) (xs_additional_quantity_pct s) (xs_additional_sizing_mode s) n\<rfloor>"
    by (rule floor_mono [OF le])
  with py_round_mono [OF le, of 8] show ?thesis
    by (auto simp: settings_lot_quantity_def Let_def max_def)
qed

section \<open>The settings of a request survive a round trip\<close>

definition settings_finite :: "execution_settings \<Rightarrow> bool" where
  "settings_finite s \<longleftrightarrow> is_finite (xs_initial_quantity s) \<and> is_finite (xs_minimum_quantity s)
     \<and> is_finite (of_int (xs_maximum_entries_per_cycle s)) \<and> is_finite (of_int (xs_batch_size s))
     \<and> case_option True is_finite (xs_target_pct s) \<and> case_option True (\<lambda>b. is_finite (of_int b)) (xs_maximum_holding_bars s)"

lemma find_setting_public [simp]:
  "find_setting ''targetPct'' = Some (setting ''targetPct'' ''target_pct'' KNumber True)"
  "find_setting ''stopLossPct'' = Some (setting ''stopLossPct'' ''stop_loss_pct'' KNumber True)"
  "find_setting ''maximumHoldingBars'' = Some (setting ''maximumHoldingBars'' ''maximum_holding_bars'' KInteger True)"
  "find_setting ''initialQuantity'' = Some (setting ''initialQuantity'' ''initial_quantity'' KNumber False)"
  "find_setting ''allowAdditionalBuys'' = Some (setting ''allowAdditionalBuys'' ''allow_additional_buys'' KBoolean False)"
  "find_setting ''additionalQuantityPct'' = Some (setting ''additionalQuantityPct'' ''additional_quantity_pct'' KNumber False)"
  "find_setting ''additionalSizingMode'' = Some ((setting ''additionalSizingMode'' ''additional_sizing_mode'' KString False)\<lparr>sf_enum := Some SIZING_REDUCTIONS\<rparr>)"
  "find_setting ''minimumQuantity'' = Some (setting ''minimumQuantity'' ''minimum_quantity'' KNumber False)"
  "find_setting ''maximumEntriesPerCycle'' = Some (setting ''maximumEntriesPerCycle'' ''maximum_entries_per_cycle'' KInteger False)"
  "find_setting ''batchSize'' = Some (setting ''batchSize'' ''batch_size'' KInteger False)"
  "find_setting ''transactionCostBps'' = Some (setting ''transactionCostBps'' ''transaction_cost_bps'' KNumber True)"
  "find_setting ''slippageBps'' = Some (setting ''slippageBps'' ''slippage_bps'' KNumber True)"
  by (simp_all add: find_setting_def SETTING_DEFS_def setting_def)

lemma coerce_setting_simps [simp]:
  "coerce_setting (setting p i k True) PyNone = Inr PyNone"
  "is_finite r \<Longrightarrow> coerce_setting (setting p i KNumber b) (PyFloat r) = Inr (PyFloat r)"
  "is_finite (of_int j) \<Longrightarrow> coerce_setting (setting p i KInteger b) (PyInt j) = Inr (PyInt j)"
  "coerce_setting (setting p i KBoolean b) (PyBool c) = Inr (PyBool c)"
  "coerce_setting ((setting p i KString b)\<lparr>sf_enum := e\<rparr>) (PyStr t) = Inr (PyStr t)"
  by (simp_all add: coerce_setting_def setting_def is_integer_def)

lemma check_setting_enum_simps [simp]:
  "check_setting_enum (setting p i k b) v = Inr ()"
  "check_setting_enum ((setting p i k b)\<lparr>sf_enum := Some vs\<rparr>) (PyStr t) = raise_if (t \<notin> set vs) (ValueError (p @ '' must be one of the enumerated values''))"
  by (auto simp: check_setting_enum_def setting_def raise_if_def)

lemma setting_parts [simp]: "sf_internal (setting p i k b) = i" "sf_internal ((setting p i k b)\<lparr>sf_enum := e\<rparr>) = i"
  by (simp_all add: setting_def)

lemma settings_step_float:
  assumes "find_setting key = Some (setting key i KNumber b)" and "key \<notin> {''whole_units'', ''wholeUnits''}"
    and "x = None \<Longrightarrow> b" and "case_option True is_finite x"
  shows "settings_step w s (key, opt_float x) = Inr (set_setting i (opt_float x) s)"
  using assms by (cases x) (auto simp: settings_step_def opt_float_def)

lemma settings_step_int:
  assumes "find_setting key = Some (setting key i KInteger b)" and "key \<notin> {''whole_units'', ''wholeUnits''}"
    and "x = None \<Longrightarrow> b" and "case_option True (\<lambda>j. is_finite (of_int j)) x"
  shows "settings_step w s (key, opt_int x) = Inr (set_setting i (opt_int x) s)"
  using assms by (cases x) (auto simp: settings_step_def opt_int_def)

lemma float_of_opt [simp]: "float_of (opt_float x) = x" "int_of (opt_int y) = y"
  by (simp_all add: opt_float_def opt_int_def split: option.splits)

lemma settings_ok_bps:
  assumes "settings_ok s"
  shows "case_option True is_finite (xs_transaction_cost_bps s)" "case_option True is_finite (xs_slippage_bps s)"
    "case_option True is_finite (xs_stop_loss_pct s)" "is_finite (xs_additional_quantity_pct s)"
  using assms by (auto simp: settings_ok_def settings_validate_def split: if_splits option.splits)

lemma settings_fields_fold:
  assumes "settings_ok s" and "settings_finite s"
  shows "rfold (settings_step w) (default_settings\<lparr>xs_whole_units := w\<rparr>) (butlast (settings_public s))
    = Inr (s\<lparr>xs_whole_units := w\<rparr>)"
proof -
  have fin: "case_option True is_finite (xs_target_pct s)" "case_option True (\<lambda>b. is_finite (of_int b)) (xs_maximum_holding_bars s)"
    "is_finite (xs_initial_quantity s)" "is_finite (xs_minimum_quantity s)"
    "is_finite (of_int (xs_maximum_entries_per_cycle s))" "is_finite (of_int (xs_batch_size s))"
    using assms(2) by (auto simp: settings_finite_def)
  show ?thesis
    unfolding settings_public_def butlast.simps list.simps if_False rfold.simps
    using fin settings_ok_bps [OF assms(1)] settings_okD(6) [OF assms(1)]
    by (simp add: settings_step_float settings_step_int)
      (simp add: settings_step_def set_setting_def default_settings_def)
qed

lemma settings_public_split:
  "settings_public s = butlast (settings_public s) @ [(''wholeUnits'', PyBool (xs_whole_units s))]"
  by (simp add: settings_public_def)

lemma settings_round_trip:
  assumes "settings_ok s" and "settings_finite s"
  shows "settings_from_mapping (settings_public s) w =
    (if w = xs_whole_units s then Inr s else Inl (ValueError ''wholeUnits is determined by the selected market''))"
proof -
  have "rfold (settings_step w) (default_settings\<lparr>xs_whole_units := w\<rparr>) (settings_public s)
      = settings_step w (s\<lparr>xs_whole_units := w\<rparr>) (''wholeUnits'', PyBool (xs_whole_units s))"
    by (subst settings_public_split) (simp add: rfold_append settings_fields_fold [OF assms] rbind_def split: sum.splits)
  with assms(1) show ?thesis
    by (auto simp: settings_from_mapping_def settings_step_def settings_ok_def)
qed

section \<open>Properties\<close>

text \<open>
  C36. Settings decode to what they encode: the public form of validated settings, with the market's
  own \<open>wholeUnits\<close>, is accepted by \<open>from_mapping\<close> and gives the same settings back.
\<close>

theorem settings_public_round_trip:
  assumes "settings_validate s = Inr s" and "settings_finite s"
  shows "settings_from_mapping (settings_public s) (xs_whole_units s) = Inr s
    \<and> (\<exists>e. settings_from_mapping (settings_public s) (\<not> xs_whole_units s) = Inl (ValueError e))"
  using settings_round_trip [of s] assms by (simp add: settings_ok_def)

theorem settings_public_round_trip_witness:
  "settings_from_mapping (settings_public default_settings) True = Inr default_settings"
proof -
  have "settings_validate default_settings = Inr default_settings"
    and "settings_finite default_settings" and "xs_whole_units default_settings"
    by (simp_all add: settings_validate_def settings_finite_def default_settings_def SIZING_REDUCTIONS_def is_integer_def)
  with settings_public_round_trip [of default_settings] show ?thesis by simp
qed

text \<open>
  Lot sizes of a backtest. Under validated settings every lot is positive, at least the minimum
  and at most the larger of the first lot and the minimum, a later lot is never larger than an
  earlier one, and on a whole-unit market every lot is a whole number of shares.
\<close>

theorem settings_lot_sizes:
  assumes "settings_validate s = Inr s" and "m \<le> n"
  shows "0 < settings_lot_quantity s n \<and> xs_minimum_quantity s \<le> settings_lot_quantity s n
    \<and> settings_lot_quantity s n \<le> settings_lot_quantity s m
    \<and> (xs_whole_units s \<longrightarrow> settings_lot_quantity s n \<in> \<nat>)"
proof -
  have ok: "settings_ok s" using assms(1) by (simp add: settings_ok_def)
  have "settings_lot_quantity s n \<le> settings_lot_quantity s m"
    using assms(2) by (induction rule: dec_induct) (auto intro: order_trans settings_lot_antimono [OF ok])
  moreover have "xs_minimum_quantity s \<le> settings_lot_quantity s n"
    using settings_okD(3) [OF ok]
    by (cases "xs_whole_units s") (auto simp: settings_lot_quantity_def Let_def is_integer_floor le_max_iff_disj)
  ultimately show ?thesis using settings_lot_pos [OF ok] settings_lot_whole [OF ok] by blast
qed

theorem settings_lot_sizes_witness:
  "settings_lot_quantity default_settings 3 \<le> settings_lot_quantity default_settings 1
   \<and> settings_lot_quantity default_settings 1 = 50"
proof -
  have "settings_validate default_settings = Inr default_settings"
    by (simp add: settings_validate_def default_settings_def SIZING_REDUCTIONS_def is_integer_def)
  from settings_lot_sizes [OF this, of 1 3] show ?thesis
    by (simp add: settings_lot_quantity_def raw_lot_def default_settings_def)
qed

text \<open>
  Lot sizes of paper trading. A policy that passed validation sizes every lot of every
  non-negative entry number at a positive price: the quantity is positive and never below the
  effective minimum; with fixed capital the first lot, when it is not raised to the minimum, costs
  no more than the capital per lot on a whole-unit market. A negative entry number raises.
\<close>

theorem policy_lot_sizes:
  assumes "policy_validate p = Inr p" and "0 < price"
  shows "(0 \<le> k \<longrightarrow> (\<exists>q. policy_lot_quantity p k price = Inr q \<and> 0 < q \<and> effective_minimum_quantity p \<le> q
      \<and> (ep_sizing_mode p = ''FIXED_CAPITAL'' \<and> ep_whole_units p \<and> q \<noteq> effective_minimum_quantity p
           \<longrightarrow> q * price \<le> ep_capital_per_lot p)))
    \<and> (k < 0 \<longrightarrow> (\<exists>e. policy_lot_quantity p k price = Inl (ValueError e)))"
proof -
  have ok: "policy_ok p" using assms(1) by (simp add: policy_ok_def)
  note d = policy_okD [OF ok]
  let ?cap = "ep_capital_per_lot p / price"
  have cap: "0 < ?cap" using d(2) assms(2) by simp
  have "of_int \<lfloor>raw_lot ?cap (ep_additional_quantity_pct p) m n\<rfloor> * price \<le> ep_capital_per_lot p" for m n
  proof -
    have "of_int \<lfloor>raw_lot ?cap (ep_additional_quantity_pct p) m n\<rfloor> \<le> ?cap"
      using raw_lot_bounds(2) [OF cap d(4,5), of m n] by linarith
    with assms(2) show ?thesis by (simp add: pos_le_divide_eq)
  qed
  then show ?thesis using d(3) assms(2) by (auto simp: policy_lot_quantity_def Let_def max_def)
qed

theorem policy_lot_sizes_witness:
  "\<exists>q. policy_lot_quantity default_policy 2 500 = Inr q \<and> 0 < q"
proof -
  have "policy_validate default_policy = Inr default_policy"
    by (simp add: policy_validate_def default_policy_def SIZING_MODES_def PRICE_MODELS_def SIZING_REDUCTIONS_def)
  from policy_lot_sizes [OF this, of 500 2] show ?thesis by auto
qed

end
