(* ===== verification/Backtest_Metrics.thy ===== *)
theory Backtest_Metrics
  imports Fifo_Ledger
begin

text \<open>
  \<open>backend/backtest/metrics.py\<close>: the run-level metrics, accumulated trade by trade, and the trade
  row the engine hands to it. The equity curve is ordered by the text of the exit timestamps; both
  markets' zones have a fixed offset, so that this is the order of the timestamps themselves.
\<close>

section \<open>Trade rows\<close>

datatype trade_status = OPEN | TARGET_HIT | STOPPED | EXPIRED

record trade_row =
  tr_lot_id :: string
  tr_cycle_id :: string
  tr_lot_number :: nat
  tr_symbol :: string
  tr_signal_at :: "timestamp option"
  tr_signal_price :: "real option"
  tr_entry_at :: timestamp
  tr_entry_price :: real
  tr_cost_basis_price :: real
  tr_fifo_allocations :: "fifo_allocation list"
  tr_quantity :: real
  tr_target_price :: real
  tr_stop_price :: "real option"
  tr_expires_at :: "timestamp option"
  tr_mae_pct :: real
  tr_mfe_pct :: real
  tr_exit_at :: "timestamp option"
  tr_exit_price :: "real option"
  tr_status :: trade_status
  tr_gross_pnl :: real
  tr_fees :: real
  tr_slippage :: real
  tr_net_pnl :: real
  tr_unrealized_pnl :: real
  tr_last_price :: real
  tr_holding_bars :: int
  tr_holding_minutes :: real

section \<open>The accumulator\<close>

record metrics =
  total_signals :: nat
  completed_trades :: nat
  target_hits :: nat
  stopped_trades :: nat
  expired_trades :: nat
  open_trades :: nat
  realized_pnl :: real
  unrealized_pnl :: real
  m_fees :: real
  m_slippage :: real
  exposure_minutes :: real
  winners :: nat
  losers :: nat
  breakeven_trades :: nat
  gross_profit :: real
  gross_loss :: real
  holding_minutes :: "real list"
  mae :: "real list"
  mfe :: "real list"
  closed :: "(timestamp \<times> real) list"
  symbols_processed :: nat
  symbols_failed :: nat

definition new_metrics :: metrics where
  "new_metrics = \<lparr>total_signals = 0, completed_trades = 0, target_hits = 0, stopped_trades = 0,
     expired_trades = 0, open_trades = 0, realized_pnl = 0, unrealized_pnl = 0, m_fees = 0,
     m_slippage = 0, exposure_minutes = 0, winners = 0, losers = 0, breakeven_trades = 0,
     gross_profit = 0, gross_loss = 0, holding_minutes = [], mae = [], mfe = [], closed = [],
     symbols_processed = 0, symbols_failed = 0\<rparr>"

definition add_signal :: "metrics \<Rightarrow> metrics" where
  "add_signal m = m\<lparr>total_signals := total_signals m + 1\<rparr>"

text \<open>\<open>add_trade\<close>: what every row adds, and what a closed one adds beyond it.\<close>

definition add_row_costs :: "metrics \<Rightarrow> trade_row \<Rightarrow> metrics" where
  "add_row_costs m t =
     m\<lparr>m_fees := m_fees m + tr_fees t, m_slippage := m_slippage m + tr_slippage t,
       mae := mae m @ [tr_mae_pct t], mfe := mfe m @ [tr_mfe_pct t],
       exposure_minutes := exposure_minutes m + tr_holding_minutes t\<rparr>"

definition add_result :: "metrics \<Rightarrow> real \<Rightarrow> metrics" where
  "add_result m net =
     (let m1 = m\<lparr>completed_trades := completed_trades m + 1, realized_pnl := realized_pnl m + net\<rparr>
      in if net > 0 then m1\<lparr>winners := winners m + 1, gross_profit := gross_profit m + net\<rparr>
         else if net < 0 then m1\<lparr>losers := losers m + 1, gross_loss := gross_loss m + \<bar>net\<bar>\<rparr>
         else m1\<lparr>breakeven_trades := breakeven_trades m + 1\<rparr>)"

definition add_status :: "metrics \<Rightarrow> trade_status \<Rightarrow> metrics" where
  "add_status m status =
     (case status of
        TARGET_HIT \<Rightarrow> m\<lparr>target_hits := target_hits m + 1\<rparr>
      | STOPPED \<Rightarrow> m\<lparr>stopped_trades := stopped_trades m + 1\<rparr>
      | EXPIRED \<Rightarrow> m\<lparr>expired_trades := expired_trades m + 1\<rparr>
      | OPEN \<Rightarrow> m)"

definition add_trade :: "metrics \<Rightarrow> trade_row \<Rightarrow> metrics" where
  "add_trade m0 t =
     (let m = add_row_costs m0 t
      in if tr_status t = OPEN
         then m\<lparr>open_trades := open_trades m + 1, unrealized_pnl := unrealized_pnl m + tr_unrealized_pnl t\<rparr>
         else let m2 = add_status (add_result m (tr_net_pnl t)) (tr_status t)
              in m2\<lparr>holding_minutes := holding_minutes m2 @ [tr_holding_minutes t],
                    closed := closed m2 @ [(the (tr_exit_at t), tr_net_pnl t)]\<rparr>)"

text \<open>The drawdown loop: peak, equity and worst so far.\<close>

fun drawdown_loop :: "real \<Rightarrow> real \<Rightarrow> real \<Rightarrow> real list \<Rightarrow> real" where
  "drawdown_loop peak equity worst [] = \<bar>worst\<bar>"
| "drawdown_loop peak equity worst (net # nets) =
     (let equity' = equity + net; peak' = max peak equity'
      in drawdown_loop peak' equity' (min worst (equity' - peak')) nets)"

definition maximum_drawdown :: "metrics \<Rightarrow> real" where
  "maximum_drawdown m = drawdown_loop 0 0 0 (map snd (sort_key fst (closed m)))"

definition fmean :: "real list \<Rightarrow> real" where
  "fmean xs = sum_list xs / real (length xs)"

definition median :: "real list \<Rightarrow> real" where
  "median xs = (let ys = sort xs; n = length ys
                in if odd n then ys ! (n div 2) else (ys ! (n div 2 - 1) + ys ! (n div 2)) / 2)"

definition opt_stat :: "(real list \<Rightarrow> real) \<Rightarrow> nat \<Rightarrow> real list \<Rightarrow> real option" where
  "opt_stat f digits xs = (if xs = [] then None else Some (py_round (f xs) digits))"

record run_summary =
  rsm_total_signals :: nat
  rsm_completed :: nat
  rsm_target_hits :: nat
  rsm_stopped :: nat
  rsm_expired :: nat
  rsm_open :: nat
  rsm_realized :: real
  rsm_profitable :: nat
  rsm_losing :: nat
  rsm_breakeven :: nat
  rsm_gross_profit :: real
  rsm_gross_loss :: real
  rsm_profit_factor :: "real option"
  rsm_unrealized :: real
  rsm_fees :: real
  rsm_slippage :: real
  rsm_exposure_minutes :: real
  rsm_win_rate :: "real option"
  rsm_average_mae :: "real option"
  rsm_average_mfe :: "real option"
  rsm_average_holding :: "real option"
  rsm_median_holding :: "real option"
  rsm_maximum_drawdown :: real
  rsm_symbols_processed :: nat
  rsm_symbols_failed :: nat

definition metrics_public :: "metrics \<Rightarrow> run_summary" where
  "metrics_public m = \<lparr>
     rsm_total_signals = total_signals m, rsm_completed = completed_trades m,
     rsm_target_hits = target_hits m, rsm_stopped = stopped_trades m, rsm_expired = expired_trades m,
     rsm_open = open_trades m, rsm_realized = py_round (realized_pnl m) 2,
     rsm_profitable = winners m, rsm_losing = losers m, rsm_breakeven = breakeven_trades m,
     rsm_gross_profit = py_round (gross_profit m) 2, rsm_gross_loss = py_round (gross_loss m) 2,
     rsm_profit_factor =
       (if gross_loss m > 0 then Some (py_round (gross_profit m / gross_loss m) 4) else None),
     rsm_unrealized = py_round (unrealized_pnl m) 2, rsm_fees = py_round (m_fees m) 2,
     rsm_slippage = py_round (m_slippage m) 2, rsm_exposure_minutes = py_round (exposure_minutes m) 2,
     rsm_win_rate = (if completed_trades m \<noteq> 0
       then Some (py_round (real (winners m) / real (completed_trades m) * 100) 2) else None),
     rsm_average_mae = opt_stat fmean 4 (mae m), rsm_average_mfe = opt_stat fmean 4 (mfe m),
     rsm_average_holding = opt_stat fmean 2 (holding_minutes m),
     rsm_median_holding = opt_stat median 2 (holding_minutes m),
     rsm_maximum_drawdown = py_round (maximum_drawdown m) 2,
     rsm_symbols_processed = symbols_processed m, rsm_symbols_failed = symbols_failed m\<rparr>"

section \<open>What the accumulator adds up to\<close>

definition metrics_of :: "trade_row list \<Rightarrow> metrics" where
  "metrics_of rows = foldl add_trade new_metrics rows"

abbreviation closed_rows :: "trade_row list \<Rightarrow> trade_row list" where
  "closed_rows rows \<equiv> filter (\<lambda>t. tr_status t \<noteq> OPEN) rows"

lemma metrics_of_simps [simp]:
  "metrics_of [] = new_metrics" "metrics_of (rows @ [t]) = add_trade (metrics_of rows) t"
  by (simp_all add: metrics_of_def)

lemmas add_trade_defs = add_trade_def add_row_costs_def add_result_def add_status_def new_metrics_def Let_def

lemma metrics_counts:
  "completed_trades (metrics_of rows) = length (closed_rows rows)"
  "open_trades (metrics_of rows) + completed_trades (metrics_of rows) = length rows"
  "winners (metrics_of rows) = length (filter (\<lambda>t. tr_net_pnl t > 0) (closed_rows rows))"
  "losers (metrics_of rows) = length (filter (\<lambda>t. tr_net_pnl t < 0) (closed_rows rows))"
  "completed_trades (metrics_of rows)
     = winners (metrics_of rows) + losers (metrics_of rows) + breakeven_trades (metrics_of rows)"
  "completed_trades (metrics_of rows)
     = target_hits (metrics_of rows) + stopped_trades (metrics_of rows) + expired_trades (metrics_of rows)"
  by (induction rows rule: rev_induct; simp add: add_trade_defs split: trade_status.splits)+

lemma metrics_money:
  "realized_pnl (metrics_of rows) = sum_list (map tr_net_pnl (closed_rows rows))"
  "realized_pnl (metrics_of rows) = gross_profit (metrics_of rows) - gross_loss (metrics_of rows)"
  "0 \<le> gross_profit (metrics_of rows)" "0 \<le> gross_loss (metrics_of rows)"
  "m_fees (metrics_of rows) = sum_list (map tr_fees rows)"
  "closed (metrics_of rows) = map (\<lambda>t. (the (tr_exit_at t), tr_net_pnl t)) (closed_rows rows)"
  by (induction rows rule: rev_induct; simp add: add_trade_defs split: trade_status.splits)+

text \<open>The drawdown is the largest fall from an earlier point of the equity curve, which starts at 0.\<close>

definition equity_at :: "real list \<Rightarrow> nat \<Rightarrow> real" where
  "equity_at nets k = sum_list (take k nets)"

definition drawdown_state :: "real list \<Rightarrow> real \<times> real \<times> real" where
  "drawdown_state nets =
     foldl (\<lambda>(peak, equity, worst) net.
       let equity' = equity + net; peak' = max peak equity' in (peak', equity', min worst (equity' - peak')))
       (0, 0, 0) nets"

lemma drawdown_loop_foldl:
  "drawdown_loop peak equity worst nets =
     \<bar>snd (snd (foldl (\<lambda>(peak, equity, worst) net.
       let equity' = equity + net; peak' = max peak equity' in (peak', equity', min worst (equity' - peak')))
       (peak, equity, worst) nets))\<bar>"
  by (induction nets arbitrary: peak equity worst) (simp_all add: Let_def)

lemma equity_at_snoc [simp]:
  "k \<le> length nets \<Longrightarrow> equity_at (nets @ [x]) k = equity_at nets k"
  "equity_at (nets @ [x]) (Suc (length nets)) = equity_at nets (length nets) + x"
  "equity_at nets 0 = 0"
  by (simp_all add: equity_at_def)

text \<open>After every prefix: the equity, the highest point so far and the largest fall so far.\<close>

definition drawdown_inv :: "real list \<Rightarrow> real \<times> real \<times> real \<Rightarrow> bool" where
  "drawdown_inv nets st \<longleftrightarrow> (case st of (peak, equity, worst) \<Rightarrow>
     equity = equity_at nets (length nets)
     \<and> (\<forall>i \<le> length nets. equity_at nets i \<le> peak) \<and> (\<exists>i \<le> length nets. peak = equity_at nets i)
     \<and> (\<forall>j \<le> length nets. \<forall>i \<le> j. worst \<le> equity_at nets j - equity_at nets i)
     \<and> (\<exists>j \<le> length nets. \<exists>i \<le> j. worst = equity_at nets j - equity_at nets i))"

lemma drawdown_inv_step:
  assumes "drawdown_inv nets (peak, equity, worst)"
  shows "drawdown_inv (nets @ [x])
    (max peak (equity + x), equity + x, min worst (equity + x - max peak (equity + x)))"
proof -
  let ?n = "length nets" and ?e = "equity + x"
  from assms have e: "equity = equity_at nets ?n" and up: "\<forall>i \<le> ?n. equity_at nets i \<le> peak"
    and low: "\<forall>j \<le> ?n. \<forall>i \<le> j. worst \<le> equity_at nets j - equity_at nets i"
    by (auto simp: drawdown_inv_def)
  from assms obtain p i j where p: "p \<le> ?n" "peak = equity_at nets p"
    and w: "j \<le> ?n" "i \<le> j" "worst = equity_at nets j - equity_at nets i"
    by (auto simp: drawdown_inv_def)
  have peak: "\<exists>q \<le> Suc ?n. max peak ?e = equity_at (nets @ [x]) q"
    using p e by (cases "peak \<le> ?e") (auto simp: max_def intro: exI [of _ p] exI [of _ "Suc ?n"])
  then obtain q where q: "q \<le> Suc ?n" "max peak ?e = equity_at (nets @ [x]) q" by blast
  have ups: "\<forall>k \<le> Suc ?n. equity_at (nets @ [x]) k \<le> max peak ?e"
    using up e by (auto simp: le_Suc_eq intro: le_max_iff_disj [THEN iffD2])
  have lows: "min worst (?e - max peak ?e) \<le> equity_at (nets @ [x]) l - equity_at (nets @ [x]) k"
    if "l \<le> Suc ?n" "k \<le> l" for k l
  proof (cases "l = Suc ?n")
    case True
    with ups that e have "?e - max peak ?e \<le> equity_at (nets @ [x]) l - equity_at (nets @ [x]) k" by simp
    then show ?thesis by (rule min.coboundedI2)
  next
    case False
    with low that have "worst \<le> equity_at (nets @ [x]) l - equity_at (nets @ [x]) k" by simp
    then show ?thesis by (rule min.coboundedI1)
  qed
  have "\<exists>l \<le> Suc ?n. \<exists>k \<le> l. min worst (?e - max peak ?e) = equity_at (nets @ [x]) l - equity_at (nets @ [x]) k"
  proof (cases "worst \<le> ?e - max peak ?e")
    case True
    with w show ?thesis by (intro exI [of _ j] conjI exI [of _ i]) auto
  next
    case False
    with q e show ?thesis by (intro exI [of _ "Suc ?n"] conjI exI [of _ q]) (auto simp: min_def)
  qed
  with ups lows e peak show ?thesis unfolding drawdown_inv_def by simp
qed

lemma drawdown_inv_state: "drawdown_inv nets (drawdown_state nets)"
proof (induction nets rule: rev_induct)
  case Nil
  then show ?case by (simp add: drawdown_inv_def drawdown_state_def)
next
  case (snoc x nets)
  obtain peak equity worst where st: "drawdown_state nets = (peak, equity, worst)" by (metis prod_cases3)
  then have "drawdown_state (nets @ [x]) =
      (max peak (equity + x), equity + x, min worst (equity + x - max peak (equity + x)))"
    by (simp add: drawdown_state_def Let_def)
  with drawdown_inv_step [of nets peak equity worst x] snoc st show ?case by simp
qed

lemma drawdown_largest_fall:
  fixes nets :: "real list"
  defines "D \<equiv> drawdown_loop 0 0 0 nets"
  shows "(\<forall>j \<le> length nets. \<forall>i \<le> j. equity_at nets i - equity_at nets j \<le> D)
    \<and> (\<exists>j \<le> length nets. \<exists>i \<le> j. equity_at nets i - equity_at nets j = D)"
proof -
  obtain peak equity worst where st: "drawdown_state nets = (peak, equity, worst)" by (metis prod_cases3)
  with drawdown_inv_state [of nets]
  have low: "\<forall>j \<le> length nets. \<forall>i \<le> j. worst \<le> equity_at nets j - equity_at nets i"
    and att: "\<exists>j \<le> length nets. \<exists>i \<le> j. worst = equity_at nets j - equity_at nets i"
    by (auto simp: drawdown_inv_def)
  from low have "worst \<le> 0" by (metis diff_self le0 order_refl)
  then have D: "D = - worst" using st by (simp add: D_def drawdown_loop_foldl drawdown_state_def)
  show ?thesis unfolding D using low att by (metis minus_diff_eq neg_le_iff_le)
qed

section \<open>Properties\<close>

text \<open>
  The counters of a run reconcile: every row is open or completed, every completed trade is
  exactly one of winner, loser and break-even and exactly one of target hit, stopped and expired,
  the realized profit is the sum of the rows' net results and the gross profit less the gross loss.
\<close>

theorem metrics_reconcile:
  "open_trades (metrics_of rows) + completed_trades (metrics_of rows) = length rows
   \<and> completed_trades (metrics_of rows) =
       winners (metrics_of rows) + losers (metrics_of rows) + breakeven_trades (metrics_of rows)
   \<and> completed_trades (metrics_of rows) =
       target_hits (metrics_of rows) + stopped_trades (metrics_of rows) + expired_trades (metrics_of rows)
   \<and> realized_pnl (metrics_of rows) = sum_list (map tr_net_pnl (filter (\<lambda>t. tr_status t \<noteq> OPEN) rows))
   \<and> realized_pnl (metrics_of rows) = gross_profit (metrics_of rows) - gross_loss (metrics_of rows)
   \<and> 0 \<le> gross_profit (metrics_of rows) \<and> 0 \<le> gross_loss (metrics_of rows)
   \<and> m_fees (metrics_of rows) = sum_list (map tr_fees rows)"
  by (intro conjI metrics_counts metrics_money)

text \<open>
  \<open>maximum_drawdown\<close> is the largest fall of the equity curve: with the closed trades in the
  order of their exits, no earlier point of the cumulative net result lies above a later one by
  more, and some pair of points lies apart by exactly that amount.
\<close>

theorem maximum_drawdown_is_largest_fall:
  "(\<forall>j \<le> length (closed m). \<forall>i \<le> j.
      equity_at (map snd (sort_key fst (closed m))) i - equity_at (map snd (sort_key fst (closed m))) j
        \<le> maximum_drawdown m)
   \<and> (\<exists>j \<le> length (closed m). \<exists>i \<le> j.
      equity_at (map snd (sort_key fst (closed m))) i - equity_at (map snd (sort_key fst (closed m))) j
        = maximum_drawdown m)"
  using drawdown_largest_fall [of "map snd (sort_key fst (closed m))"] by (simp add: maximum_drawdown_def)

theorem maximum_drawdown_is_largest_fall_witness:
  "let m = new_metrics\<lparr>closed := [(2, -30), (1, 50), (3, 10)]\<rparr> in
   equity_at (map snd (sort_key fst (closed m))) 1 - equity_at (map snd (sort_key fst (closed m))) 2
     \<le> maximum_drawdown m"
  using maximum_drawdown_is_largest_fall [of "new_metrics\<lparr>closed := [(2, -30), (1, 50), (3, 10)]\<rparr>"]
  by simp

end
