(* ===== verification/Backtest_Engine.thy ===== *)
theory Backtest_Engine
  imports Profit_Target Execution_Policy Backtest_Metrics "HOL-Library.Multiset"
begin

text \<open>
  \<open>backend/backtest/engine.py\<close>: the replay of one symbol.

  The frame of the strategy's decisions is a list of \<open>bar\<close>s; the arrays the source indexes by
  bar are its columns. \<open>bt_state\<close> holds the loop variables of \<open>_run_symbol\<close>, \<open>bt_env\<close>
  what the loop does not change. The loop body \<open>bar_step\<close> is composed of the source's own steps:
  fill the pending order, let the open lots exit, reset an empty cycle, place an order.

  The metrics and the batches handed to the writer survive an exception of the symbol, so a raise
  is the pair of the exception and these (\<open>bt_output\<close>); everything else of the state is lost with
  the symbol, as in the source. Whether a cancellation has been requested is asked through
  \<open>be_cancelled\<close>, the answer at each bar.
\<close>

section \<open>Bars, lots and state\<close>

record bar =
  b_at :: timestamp
  b_open :: real
  b_high :: real
  b_low :: real
  b_close :: real
  b_buy :: bool
  b_signal_at :: "timestamp option"
  b_signal_price :: "real option"
  b_target :: "real option"
  b_stop :: "real option"
  b_in_window :: bool

record lot =
  lot_id :: string
  lot_cycle :: string
  lot_number :: nat
  lot_signal_at :: "timestamp option"
  lot_signal_price :: "real option"
  lot_entry_bar :: nat
  lot_entry_at :: timestamp
  lot_entry_price :: real
  lot_quantity :: real
  lot_target_price :: real
  lot_target_pct :: real
  lot_stop_price :: "real option"
  lot_expires_bar :: "int option"
  lot_fees :: real
  lot_slippage :: real
  lot_lowest :: real
  lot_highest :: real

record bt_env =
  be_run_id :: string
  be_market :: market
  be_symbol :: string
  be_fees :: fee_model
  be_execution :: execution_settings
  be_config :: config
  be_ladder :: "price_band_ladder option"
  be_bar_minutes :: int
  be_expiry_multiplier :: int
  be_cancelled :: "nat \<Rightarrow> bool"

record bt_output =
  out_metrics :: metrics
  out_written :: "trade_row list list"

record bt_state =
  st_output :: bt_output
  st_batch :: "trade_row list"
  st_lots :: "lot list"
  st_stock :: inventory
  st_pending :: "(nat \<times> nat \<times> string) option"
  st_cycle :: nat
  st_entries :: int
  st_first :: "real option"
  st_last :: "real option"

type_synonym 'a bt_res = "(py_error \<times> bt_output) + 'a"

text \<open>An exception of a pure step, raised with the output as it stands.\<close>

definition with_output :: "bt_output \<Rightarrow> 'a res \<Rightarrow> 'a bt_res" where
  "with_output out m = (case m of Inl e \<Rightarrow> Inl (e, out) | Inr x \<Rightarrow> Inr x)"

definition CANCEL_CHECK_BARS :: nat where "CANCEL_CHECK_BARS = 500"

definition cycle_name :: "string \<Rightarrow> nat \<Rightarrow> string" where
  "cycle_name symbol cycle = symbol @ ''-Cycle'' @ show_nat cycle"

definition lot_name :: "string \<Rightarrow> nat \<Rightarrow> string" where
  "lot_name cycle_id number = cycle_id @ ''-Lot'' @ show_nat number"

text \<open>\<open>x or y\<close> on an optional price: \<open>None\<close> and zero give the alternative.\<close>

definition price_or :: "real option \<Rightarrow> real \<Rightarrow> real" where
  "price_or x y = (case x of Some p \<Rightarrow> if p = 0 then y else p | None \<Rightarrow> y)"

section \<open>Entry\<close>

definition entry_quantity :: "bt_env \<Rightarrow> nat \<Rightarrow> real \<Rightarrow> real res" where
  "entry_quantity env entry_number first_price =
     (case be_ladder env of
        Some l \<Rightarrow>
          if be_market env = NSE
          then rbind (ladder_quantity l (int entry_number) first_price) (\<lambda>q. Inr (of_int q))
          else Inr (settings_lot_quantity (be_execution env) entry_number)
      | None \<Rightarrow> Inr (settings_lot_quantity (be_execution env) entry_number))"

text \<open>The target price before rounding, and the target percentage.\<close>

definition entry_target :: "bt_env \<Rightarrow> bar \<Rightarrow> real \<Rightarrow> (real \<times> real) res" where
  "entry_target env sig entry_price =
     (case xs_target_pct (be_execution env) of
        Some pct \<Rightarrow> Inr (entry_price * (1 + pct / 100), pct)
      | None \<Rightarrow>
          (case be_ladder env of
             Some _ \<Rightarrow> rbind (required_float (be_config env) ''target_pct'')
               (\<lambda>pct. Inr (entry_price * (1 + pct / 100), pct))
           | None \<Rightarrow>
               (let target = (case (b_target sig, b_signal_price sig) of
                    (Some t, Some c) \<Rightarrow> if c > 0 then entry_price * (t / c) else entry_price * (101 / 100)
                  | _ \<Rightarrow> entry_price * (101 / 100))
                in if entry_price = 0 then Inl ZeroDivisionError
                   else Inr (target, (target / entry_price - 1) * 100))))"

definition entry_stop :: "bt_env \<Rightarrow> bar \<Rightarrow> real \<Rightarrow> real option" where
  "entry_stop env sig entry_price =
     (case xs_stop_loss_pct (be_execution env) of
        Some pct \<Rightarrow> Some (entry_price * (1 - pct / 100))
      | None \<Rightarrow>
          (case (b_stop sig, b_signal_price sig) of
             (Some s, Some p) \<Rightarrow>
               if p > 0 \<and> is_finite s \<and> 0 < s \<and> s < p then Some (entry_price * (s / p)) else None
           | _ \<Rightarrow> None))"

definition enter :: "bt_env \<Rightarrow> bar list \<Rightarrow> nat \<Rightarrow> nat \<Rightarrow> nat \<Rightarrow> string \<Rightarrow> real option \<Rightarrow> real \<Rightarrow> lot option res" where
  "enter env bs signal_bar now entry_number cycle_id cycle_first_entry_price current_open_capital =
     (let reference_price = b_open (bs ! now);
          sig = bs ! signal_bar;
          first_price = price_or cycle_first_entry_price (fill_price (fee_buy (be_fees env) reference_price 1))
      in rbind (entry_quantity env entry_number first_price) (\<lambda>quantity.
        let fill = fee_buy (be_fees env) reference_price quantity;
            entry_price = py_round (fill_price fill) 4
        in if case be_ladder env of Some l \<Rightarrow> \<not> within_capital l current_open_capital (fill_price fill) quantity
              | None \<Rightarrow> False
           then Inr None
           else rbind (entry_target env sig entry_price) (\<lambda>(target, target_pct).
             Inr (Some \<lparr>lot_id = lot_name cycle_id (entry_number + 1), lot_cycle = cycle_id,
               lot_number = entry_number + 1, lot_signal_at = b_signal_at sig,
               lot_signal_price = b_signal_price sig, lot_entry_bar = now, lot_entry_at = b_at (bs ! now),
               lot_entry_price = entry_price, lot_quantity = quantity,
               lot_target_price = py_round target 4, lot_target_pct = target_pct,
               lot_stop_price = map_option (\<lambda>s. py_round s 4) (entry_stop env sig entry_price),
               lot_expires_bar = map_option (\<lambda>n. int now + n * be_expiry_multiplier env)
                 (xs_maximum_holding_bars (be_execution env)),
               lot_fees = fill_fees fill, lot_slippage = fill_slippage fill,
               lot_lowest = fill_price fill, lot_highest = fill_price fill\<rparr>))))"

definition single_preview :: "inventory \<Rightarrow> real \<Rightarrow> fifo_match res" where
  "single_preview stock quantity =
     rbind (preview_allocations stock [quantity]) (\<lambda>ms. case ms of [] \<Rightarrow> Inl IndexError | m # _ \<Rightarrow> Inr m)"

definition refresh_target :: "fee_model \<Rightarrow> inventory \<Rightarrow> lot \<Rightarrow> lot res" where
  "refresh_target fees stock l =
     rbind (single_preview stock (lot_quantity l)) (\<lambda>m.
       rbind (net_profit_target_price m fees (lot_target_pct l)) (\<lambda>t. Inr (l\<lparr>lot_target_price := t\<rparr>)))"

definition refresh_fifo_targets :: "bt_env \<Rightarrow> lot list \<Rightarrow> inventory \<Rightarrow> lot list res" where
  "refresh_fifo_targets env lots stock =
     (if be_market env \<noteq> NSE then Inr lots else rmap_list (refresh_target (be_fees env) stock) lots)"

definition fill_pending :: "bt_env \<Rightarrow> bar list \<Rightarrow> nat \<Rightarrow> bt_state \<Rightarrow> bt_state bt_res" where
  "fill_pending env bs now st =
     (case st_pending st of
        None \<Rightarrow> Inr st
      | Some (signal_bar, entry_number, cycle_id) \<Rightarrow>
          rbind (with_output (st_output st)
              (enter env bs signal_bar now entry_number cycle_id (st_first st) (inv_cost (st_stock st))))
            (\<lambda>entered. case entered of
               None \<Rightarrow> Inr (st\<lparr>st_pending := None, st_entries := st_entries st - 1\<rparr>)
             | Some l \<Rightarrow>
                 rbind (with_output (st_output st)
                     (fifo_add (st_stock st) (lot_id l) (lot_entry_at l) (lot_entry_price l) (lot_quantity l) (lot_fees l)))
                   (\<lambda>stock. rbind (with_output (st_output st) (refresh_fifo_targets env (st_lots st @ [l]) stock))
                   (\<lambda>lots. Inr (st\<lparr>st_pending := None, st_lots := lots, st_stock := stock,
                      st_first := Some (price_or (st_first st) (lot_entry_price l)),
                      st_last := Some (lot_entry_price l)\<rparr>)))))"

section \<open>Exits\<close>

definition maybe_exit :: "lot \<Rightarrow> nat \<Rightarrow> bar \<Rightarrow> (trade_status \<times> real) option" where
  "maybe_exit l now b =
     (if now \<le> lot_entry_bar l then None
      else if case_option False (\<lambda>s. b_low b \<le> s) (lot_stop_price l)
      then Some (STOPPED, the (lot_stop_price l))
      else if b_high b \<ge> lot_target_price l then Some (TARGET_HIT, lot_target_price l)
      else if case_option False (\<lambda>e. int now \<ge> e) (lot_expires_bar l) then Some (EXPIRED, b_close b)
      else None)"

definition track_extremes :: "lot \<Rightarrow> nat \<Rightarrow> bar \<Rightarrow> lot" where
  "track_extremes l now b =
     (if now > lot_entry_bar l
      then l\<lparr>lot_lowest := min (lot_lowest l) (b_low b), lot_highest := max (lot_highest l) (b_high b)\<rparr>
      else l)"

text \<open>The common part of a row; \<open>fifo\<close> is the match of the lot on the share market.\<close>

definition row_base :: "bt_env \<Rightarrow> lot \<Rightarrow> fifo_match option \<Rightarrow> trade_row res" where
  "row_base env l fifo =
     (if lot_entry_price l = 0 then Inl ZeroDivisionError
      else Inr \<lparr>tr_lot_id = lot_id l, tr_cycle_id = lot_cycle l, tr_lot_number = lot_number l,
        tr_symbol = be_symbol env, tr_signal_at = lot_signal_at l,
        tr_signal_price = map_option (\<lambda>p. py_round p 4) (lot_signal_price l),
        tr_entry_at = lot_entry_at l, tr_entry_price = lot_entry_price l,
        tr_cost_basis_price = (case fifo of Some m \<Rightarrow> py_round (match_cost_basis_price m) 4
                               | None \<Rightarrow> lot_entry_price l),
        tr_fifo_allocations = (case fifo of
            Some m \<Rightarrow> map (\<lambda>a. a\<lparr>alloc_fees := py_round (alloc_fees a) 4\<rparr>) (match_allocations m) | None \<Rightarrow> []),
        tr_quantity = lot_quantity l, tr_target_price = lot_target_price l,
        tr_stop_price = lot_stop_price l,
        tr_expires_at = map_option (\<lambda>e. lot_entry_at l + MINUTE_US * be_bar_minutes env * (e - int (lot_entry_bar l)))
          (lot_expires_bar l),
        tr_mae_pct = py_round ((lot_lowest l / lot_entry_price l - 1) * 100) 4,
        tr_mfe_pct = py_round ((lot_highest l / lot_entry_price l - 1) * 100) 4,
        tr_exit_at = None, tr_exit_price = None, tr_status = OPEN, tr_gross_pnl = 0, tr_fees = 0,
        tr_slippage = 0, tr_net_pnl = 0, tr_unrealized_pnl = 0, tr_last_price = 0,
        tr_holding_bars = 0, tr_holding_minutes = 0\<rparr>)"

definition row_entry_fees :: "lot \<Rightarrow> fifo_match option \<Rightarrow> real" where
  "row_entry_fees l fifo = (case fifo of Some m \<Rightarrow> match_entry_fees m | None \<Rightarrow> lot_fees l)"

definition open_row :: "bt_env \<Rightarrow> lot \<Rightarrow> fifo_match option \<Rightarrow> real \<Rightarrow> nat \<Rightarrow> trade_row res" where
  "open_row env l fifo last_close last_bar =
     rbind (row_base env l fifo) (\<lambda>base.
       let price = py_round (if last_close = 0 then lot_entry_price l else last_close) 4;
           holding_bars = int (if last_bar = 0 then lot_entry_bar l else last_bar) - int (lot_entry_bar l)
       in Inr (base\<lparr>tr_fees := py_round (row_entry_fees l fifo) 4, tr_slippage := py_round (lot_slippage l) 4,
            tr_unrealized_pnl := py_round ((price - tr_cost_basis_price base) * lot_quantity l - row_entry_fees l fifo) 2,
            tr_last_price := price, tr_holding_bars := holding_bars,
            tr_holding_minutes := of_int (holding_bars * be_bar_minutes env)\<rparr>))"

definition closed_row ::
  "bt_env \<Rightarrow> lot \<Rightarrow> fifo_match option \<Rightarrow> trade_status \<Rightarrow> real \<Rightarrow> timestamp \<Rightarrow> nat \<Rightarrow> trade_row res" where
  "closed_row env l fifo status raw_exit exit_stamp exit_bar =
     rbind (row_base env l fifo) (\<lambda>base.
       let fill = fee_sell (be_fees env) raw_exit (lot_quantity l);
           exit_price = py_round (fill_price fill) 4;
           gross = py_round ((exit_price - tr_cost_basis_price base) * lot_quantity l) 2;
           fees = py_round (row_entry_fees l fifo + fill_fees fill) 4;
           holding_bars = int exit_bar - int (lot_entry_bar l)
       in Inr (base\<lparr>tr_exit_at := Some exit_stamp, tr_exit_price := Some exit_price, tr_status := status,
            tr_gross_pnl := gross, tr_fees := fees,
            tr_slippage := py_round (lot_slippage l + fill_slippage fill) 4,
            tr_net_pnl := py_round (gross - fees) 2, tr_last_price := exit_price,
            tr_holding_bars := holding_bars,
            tr_holding_minutes := of_int (holding_bars * be_bar_minutes env)\<rparr>))"

text \<open>The lot loop of one bar: its accumulator, and one iteration.\<close>

record exit_state =
  ex_output :: bt_output
  ex_batch :: "trade_row list"
  ex_stock :: inventory
  ex_still_open :: "lot list"
  ex_nse_exit :: bool
  ex_changed :: bool

definition emit_row :: "bt_env \<Rightarrow> exit_state \<Rightarrow> trade_row \<Rightarrow> exit_state" where
  "emit_row env ex row =
     (let out = (ex_output ex)\<lparr>out_metrics := add_trade (out_metrics (ex_output ex)) row\<rparr>;
          batch = ex_batch ex @ [row]
      in if int (length batch) \<ge> xs_batch_size (be_execution env)
         then ex\<lparr>ex_output := out\<lparr>out_written := out_written out @ [batch]\<rparr>, ex_batch := []\<rparr>
         else ex\<lparr>ex_output := out, ex_batch := batch\<rparr>)"

definition exit_lot :: "bt_env \<Rightarrow> nat \<Rightarrow> bar \<Rightarrow> exit_state \<Rightarrow> lot \<Rightarrow> exit_state bt_res" where
  "exit_lot env now b ex l0 =
     (let l = track_extremes l0 now b;
          attempt = maybe_exit l now b;
          closing = (case attempt of Some (TARGET_HIT, _) \<Rightarrow> if ex_nse_exit ex then None else attempt
                     | _ \<Rightarrow> attempt)
      in case closing of
           None \<Rightarrow> Inr (ex\<lparr>ex_still_open := ex_still_open ex @ [l]\<rparr>)
         | Some (status, raw_exit) \<Rightarrow>
             (if be_market env = NSE then
                rbind (with_output (ex_output ex) (fifo_consume (ex_stock ex) (lot_quantity l))) (\<lambda>(m, stock).
                  rbind (with_output (ex_output ex) (closed_row env l (Some m) status raw_exit (b_at b) now)) (\<lambda>row.
                    Inr (emit_row env (ex\<lparr>ex_stock := stock, ex_changed := True, ex_nse_exit := True\<rparr>) row)))
              else
                rbind (with_output (ex_output ex) (closed_row env l None status raw_exit (b_at b) now)) (\<lambda>row.
                  Inr (emit_row env (ex\<lparr>ex_changed := False\<rparr>) row))))"

definition exit_lots :: "bt_env \<Rightarrow> bar list \<Rightarrow> nat \<Rightarrow> bt_state \<Rightarrow> bt_state bt_res" where
  "exit_lots env bs now st =
     rbind (rfold (exit_lot env now (bs ! now))
         \<lparr>ex_output = st_output st, ex_batch = st_batch st, ex_stock = st_stock st, ex_still_open = [],
          ex_nse_exit = False, ex_changed = False\<rparr> (st_lots st))
       (\<lambda>ex. rbind (if ex_changed ex
                    then with_output (ex_output ex) (refresh_fifo_targets env (ex_still_open ex) (ex_stock ex))
                    else Inr (ex_still_open ex))
         (\<lambda>lots. Inr (st\<lparr>st_output := ex_output ex, st_batch := ex_batch ex, st_lots := lots,
            st_stock := ex_stock ex\<rparr>)))"

section \<open>Orders\<close>

definition reset_cycle :: "bt_state \<Rightarrow> bt_state" where
  "reset_cycle st =
     (if st_lots st = [] \<and> st_pending st = None
      then st\<lparr>st_entries := 0, st_first := None, st_last := None\<rparr> else st)"

definition entry_limit :: "bt_env \<Rightarrow> int" where
  "entry_limit env =
     (case be_ladder env of
        Some l \<Rightarrow> min (xs_maximum_entries_per_cycle (be_execution env)) (int (maximum_entries l))
      | None \<Rightarrow> xs_maximum_entries_per_cycle (be_execution env))"

definition count_signal :: "bt_state \<Rightarrow> bt_state" where
  "count_signal st =
     st\<lparr>st_output := (st_output st)\<lparr>out_metrics := add_signal (out_metrics (st_output st))\<rparr>\<rparr>"

definition order_at :: "nat \<Rightarrow> string \<Rightarrow> bt_state \<Rightarrow> bt_state" where
  "order_at now cycle_id st =
     st\<lparr>st_pending := Some (now, nat (st_entries st), cycle_id), st_entries := st_entries st + 1\<rparr>"

definition place_order :: "bt_env \<Rightarrow> bar list \<Rightarrow> nat \<Rightarrow> bt_state \<Rightarrow> bt_state" where
  "place_order env bs now st0 =
     (let b = bs ! now in
      if \<not> b_in_window b then st0
      else let st = (if b_buy b then count_signal st0 else st0) in
        case (be_ladder env, st_lots st) of
          (Some l, first # _) \<Rightarrow>
            (if xs_allow_additional_buys (be_execution env) \<and> st_pending st = None
                \<and> st_entries st < entry_limit env \<and> now + 1 < length bs
                \<and> case_option False (additional_entry_allowed l (b_close b)) (st_last st)
             then order_at now (lot_cycle first) st else st)
        | _ \<Rightarrow>
            if \<not> b_buy b then st
            else let st1 = (if st_lots st = [] \<and> st_pending st = None
                            then st\<lparr>st_cycle := st_cycle st + 1, st_entries := 0\<rparr> else st)
                 in if (st_lots st1 = [] \<or> xs_allow_additional_buys (be_execution env))
                       \<and> st_entries st1 < entry_limit env \<and> now + 1 < length bs
                    then order_at now (cycle_name (be_symbol env) (st_cycle st1)) st1 else st1)"

section \<open>The loop and its end\<close>

definition bar_step :: "bt_env \<Rightarrow> bar list \<Rightarrow> bt_state \<Rightarrow> nat \<Rightarrow> bt_state bt_res" where
  "bar_step env bs st now =
     rbind (raise_if (now mod CANCEL_CHECK_BARS = 0 \<and> be_cancelled env now)
         (BacktestCancelled (be_run_id env), st_output st)) (\<lambda>_.
       rbind (fill_pending env bs now st) (\<lambda>st1.
         rbind (exit_lots env bs now st1) (\<lambda>st2.
           Inr (place_order env bs now (reset_cycle st2)))))"

definition start_state :: "bt_output \<Rightarrow> bt_state" where
  "start_state out = \<lparr>st_output = out, st_batch = [], st_lots = [], st_stock = [], st_pending = None,
     st_cycle = 0, st_entries = 0, st_first = None, st_last = None\<rparr>"

definition add_open_row :: "bt_env \<Rightarrow> bar list \<Rightarrow> bt_state \<Rightarrow> lot \<times> fifo_match option \<Rightarrow> bt_state bt_res" where
  "add_open_row env bs st lf =
     rbind (with_output (st_output st) (open_row env (fst lf) (snd lf) (b_close (last bs)) (length bs - 1))) (\<lambda>row.
       Inr (st\<lparr>st_output := (st_output st)\<lparr>out_metrics := add_trade (out_metrics (st_output st)) row\<rparr>,
               st_batch := st_batch st @ [row]\<rparr>))"

definition flush_batch :: "bt_state \<Rightarrow> bt_output" where
  "flush_batch st =
     (if st_batch st = [] then st_output st
      else (st_output st)\<lparr>out_written := out_written (st_output st) @ [st_batch st]\<rparr>)"

definition finish_symbol :: "bt_env \<Rightarrow> bar list \<Rightarrow> bt_state \<Rightarrow> bt_output bt_res" where
  "finish_symbol env bs st =
     rbind (with_output (st_output st)
         (if be_market env = NSE
          then rmap_list (\<lambda>l. rbind (single_preview (st_stock st) (lot_quantity l)) (\<lambda>m. Inr (l, Some m))) (st_lots st)
          else Inr (map (\<lambda>l. (l, None)) (st_lots st))))
       (\<lambda>matched. rbind (rfold (add_open_row env bs) st matched) (\<lambda>st'. Inr (flush_batch st')))"

text \<open>\<open>_run_symbol\<close> from the point where the frame has been split into its columns.\<close>

definition replay :: "bt_env \<Rightarrow> bar list \<Rightarrow> bt_output \<Rightarrow> bt_output bt_res" where
  "replay env bs out =
     rbind (rfold (bar_step env bs) (start_state out) [0..<length bs]) (finish_symbol env bs)"

section \<open>Lemmas on the single steps\<close>

lemma rbind_Inr [simp]: "rbind m Inr = m"
  by (cases m) simp_all

lemma with_output_simps [simp]:
  "with_output out (Inl e) = Inl (e, out)" "with_output out (Inr x) = Inr x"
  "with_output out m = Inr y \<longleftrightarrow> m = Inr y"
  by (auto simp: with_output_def split: sum.splits)

text \<open>What a lot keeps for its whole life: neither a refresh nor the tracked extremes change it.\<close>

definition lot_key :: "lot \<Rightarrow> string \<times> string \<times> nat \<times> real \<times> nat" where
  "lot_key l = (lot_id l, lot_cycle l, lot_number l, lot_quantity l, lot_entry_bar l)"

lemma lot_key_eq:
  assumes "lot_key l' = lot_key l"
  shows "lot_id l' = lot_id l" "lot_cycle l' = lot_cycle l" "lot_number l' = lot_number l"
    "lot_quantity l' = lot_quantity l" "lot_entry_bar l' = lot_entry_bar l"
  using assms by (simp_all add: lot_key_def)

lemma track_extremes_key [simp]: "lot_key (track_extremes l now b) = lot_key l"
  by (simp add: track_extremes_def lot_key_def)

lemma map_lot_key:
  assumes "map lot_key ls' = map lot_key ls"
  shows "map lot_id ls' = map lot_id ls" "map lot_quantity ls' = map lot_quantity ls"
    "map lot_cycle ls' = map lot_cycle ls" "map lot_number ls' = map lot_number ls"
    "map lot_entry_bar ls' = map lot_entry_bar ls" "length ls' = length ls" "ls' = [] \<longleftrightarrow> ls = []"
proof -
  have "map (f \<circ> lot_key) ls' = map (f \<circ> lot_key) ls" for f :: "_ \<Rightarrow> 'a"
    using assms by (metis map_map)
  from this [of fst] this [of "\<lambda>k. fst (snd (snd (snd k)))"] this [of "\<lambda>k. fst (snd k)"]
    this [of "\<lambda>k. fst (snd (snd k))"] this [of "\<lambda>k. snd (snd (snd (snd k)))"]
  show "map lot_id ls' = map lot_id ls" "map lot_quantity ls' = map lot_quantity ls"
    "map lot_cycle ls' = map lot_cycle ls" "map lot_number ls' = map lot_number ls"
    "map lot_entry_bar ls' = map lot_entry_bar ls"
    by (simp_all add: lot_key_def comp_def)
  show "length ls' = length ls" "ls' = [] \<longleftrightarrow> ls = []" using assms map_eq_imp_length_eq by fastforce+
qed

lemma refresh_target_key: "refresh_target fees stock l = Inr l' \<Longrightarrow> lot_key l' = lot_key l"
  by (auto simp: refresh_target_def rbind_eq_Inr lot_key_def)

lemma rmap_list_key:
  "(\<And>x y. f x = Inr y \<Longrightarrow> k y = k x) \<Longrightarrow> rmap_list f xs = Inr ys \<Longrightarrow> map k ys = map k xs"
  by (induction xs arbitrary: ys) (auto simp: rbind_eq_Inr)

lemma refresh_keys: "refresh_fifo_targets env lots stock = Inr lots' \<Longrightarrow> map lot_key lots' = map lot_key lots"
  using rmap_list_key [of "refresh_target (be_fees env) stock" lot_key] refresh_target_key
  by (auto simp: refresh_fifo_targets_def split: if_splits)

text \<open>The rows a symbol has produced so far, written or waiting in the batch.\<close>

definition rows_of :: "bt_output \<Rightarrow> trade_row list \<Rightarrow> trade_row list" where
  "rows_of out batch = concat (out_written out) @ batch"

lemma emit_row_parts [simp]:
  "rows_of (ex_output (emit_row env ex row)) (ex_batch (emit_row env ex row))
     = rows_of (ex_output ex) (ex_batch ex) @ [row]"
  "out_metrics (ex_output (emit_row env ex row)) = add_trade (out_metrics (ex_output ex)) row"
  "ex_stock (emit_row env ex row) = ex_stock ex"
  "ex_still_open (emit_row env ex row) = ex_still_open ex"
  "ex_nse_exit (emit_row env ex row) = ex_nse_exit ex"
  "ex_changed (emit_row env ex row) = ex_changed ex"
  by (simp_all add: emit_row_def rows_of_def Let_def)

lemma closed_row_parts:
  assumes "closed_row env l fifo status raw stamp now = Inr row"
  shows "tr_lot_id row = lot_id l" "tr_status row = status" "tr_exit_at row = Some stamp"
    "tr_holding_bars row = int now - int (lot_entry_bar l)" "tr_quantity row = lot_quantity l"
    "tr_net_pnl row = py_round (tr_gross_pnl row - tr_fees row) 2"
    "tr_gross_pnl row = py_round (tr_gross_pnl row) 2" "tr_fees row = py_round (tr_fees row) 4"
    "tr_entry_at row = lot_entry_at l" "tr_entry_price row = lot_entry_price l"
  using assms by (auto simp: closed_row_def row_base_def rbind_eq_Inr Let_def split: if_splits)

lemma maybe_exit_late: "maybe_exit l now b = Some c \<Longrightarrow> lot_entry_bar l < now"
  by (auto simp: maybe_exit_def split: if_splits)

lemma maybe_exit_closed: "maybe_exit l now b = Some (status, raw) \<Longrightarrow> status \<noteq> OPEN"
  by (auto simp: maybe_exit_def split: if_splits)

text \<open>One iteration of the lot loop: the lot stays, or it leaves with one row.\<close>

lemma exit_lot_cases:
  assumes "exit_lot env now b ex l0 = Inr ex'"
  obtains (stays) l where "lot_key l = lot_key l0" and "ex' = ex\<lparr>ex_still_open := ex_still_open ex @ [l]\<rparr>"
  | (leaves) l fifo stock status raw row ch nx where "lot_key l = lot_key l0"
      and "maybe_exit l now b = Some (status, raw)" and "status = TARGET_HIT \<longrightarrow> \<not> ex_nse_exit ex"
      and "closed_row env l fifo status raw (b_at b) now = Inr row"
      and "if be_market env = NSE
           then \<exists>m. fifo = Some m \<and> fifo_consume (ex_stock ex) (lot_quantity l0) = Inr (m, stock)
           else fifo = None \<and> stock = ex_stock ex"
      and "nx = (ex_nse_exit ex \<or> be_market env = NSE)"
      and "ex' = emit_row env (ex\<lparr>ex_stock := stock, ex_changed := ch, ex_nse_exit := nx\<rparr>) row"
proof -
  let ?l = "track_extremes l0 now b"
  let ?closing = "case maybe_exit ?l now b of Some (TARGET_HIT, _) \<Rightarrow> if ex_nse_exit ex then None else maybe_exit ?l now b
    | _ \<Rightarrow> maybe_exit ?l now b"
  have key: "lot_key ?l = lot_key l0" by simp
  note q = lot_key_eq(4) [OF key]
  show thesis
  proof (cases ?closing)
    case None
    with assms have "ex' = ex\<lparr>ex_still_open := ex_still_open ex @ [?l]\<rparr>"
      by (simp add: exit_lot_def Let_def)
    with key show thesis by (rule stays)
  next
    case (Some c)
    obtain status raw where c: "c = (status, raw)" by (cases c)
    from Some c have m: "maybe_exit ?l now b = Some (status, raw)" and t: "status = TARGET_HIT \<longrightarrow> \<not> ex_nse_exit ex"
      by (auto split: option.splits trade_status.splits if_splits)
    show thesis
    proof (cases "be_market env = NSE")
      case True
      with assms Some c obtain mt stock row where f: "fifo_consume (ex_stock ex) (lot_quantity ?l) = Inr (mt, stock)"
        and r: "closed_row env ?l (Some mt) status raw (b_at b) now = Inr row"
        and e: "ex' = emit_row env (ex\<lparr>ex_stock := stock, ex_changed := True, ex_nse_exit := True\<rparr>) row"
        by (auto simp: exit_lot_def Let_def rbind_eq_Inr)
      from leaves [OF key m t r _ _ e] True f q show thesis by auto
    next
      case False
      with assms Some c obtain row where r: "closed_row env ?l None status raw (b_at b) now = Inr row"
        and e: "ex' = emit_row env (ex\<lparr>ex_changed := False\<rparr>) row"
        by (auto simp: exit_lot_def Let_def rbind_eq_Inr)
      then have e: "ex' = emit_row env (ex\<lparr>ex_stock := ex_stock ex, ex_changed := False, ex_nse_exit := ex_nse_exit ex\<rparr>) row"
        by simp
      from leaves [OF key m t r _ _ e] False show thesis by auto
    qed
  qed
qed

section \<open>The invariant of the replay\<close>

definition env_ok :: "bt_env \<Rightarrow> bool" where
  "env_ok env \<longleftrightarrow> settings_ok (be_execution env) \<and> (\<forall>l. be_ladder env = Some l \<longrightarrow> ladder_ok l)
     \<and> (be_market env = NSE \<longrightarrow> xs_whole_units (be_execution env))"

text \<open>On the share market the FIFO stock holds exactly the shares of the open lots.\<close>

definition stock_inv :: "bt_env \<Rightarrow> inventory \<Rightarrow> real list \<Rightarrow> bool" where
  "stock_inv env stock qs \<longleftrightarrow> (be_market env = NSE \<longrightarrow>
     stock_ok stock \<and> inv_quantity stock = sum_list qs \<and> (\<forall>q \<in> set qs. q \<in> \<nat> \<and> 0 < q))"

definition strip_signals :: "metrics \<Rightarrow> metrics" where
  "strip_signals m = m\<lparr>total_signals := 0\<rparr>"

definition row_ok :: "trade_row \<Rightarrow> bool" where
  "row_ok r \<longleftrightarrow> tr_status r \<noteq> OPEN \<and> 1 \<le> tr_holding_bars r
     \<and> tr_net_pnl r = py_round (tr_gross_pnl r - tr_fees r) 2"

text \<open>What has gone out since \<open>out0\<close>: full batches, then the rows still waiting.\<close>

definition out_inv :: "bt_env \<Rightarrow> bt_output \<Rightarrow> trade_row list \<Rightarrow> bt_output \<Rightarrow> trade_row list \<Rightarrow> bool" where
  "out_inv env out0 new out batch \<longleftrightarrow>
     (\<exists>ws. out_written out = out_written out0 @ ws \<and> new = concat ws @ batch
        \<and> (\<forall>w \<in> set ws. int (length w) = xs_batch_size (be_execution env)))
     \<and> int (length batch) < xs_batch_size (be_execution env)
     \<and> strip_signals (out_metrics out) = foldl add_trade (strip_signals (out_metrics out0)) new
     \<and> (\<forall>r \<in> set new. row_ok r)"

definition full_name :: "bt_env \<Rightarrow> nat \<Rightarrow> nat \<Rightarrow> string" where
  "full_name env c k = lot_name (cycle_name (be_symbol env) c) k"

text \<open>
  The identifiers given away so far, by the rows and the open lots: distinct, of cycles up to the
  current one, and within a cycle that is still alive numbered up to the entries it has filled.
\<close>

definition id_inv :: "bt_env \<Rightarrow> nat \<Rightarrow> bool \<Rightarrow> int \<Rightarrow> string list \<Rightarrow> bool" where
  "id_inv env cyc alive filled ids \<longleftrightarrow> distinct ids
     \<and> (\<forall>i \<in> set ids. \<exists>c k. i = full_name env c k \<and> c \<le> cyc \<and> (alive \<and> c = cyc \<longrightarrow> int k \<le> filled))"

definition filled_entries :: "bt_state \<Rightarrow> int" where
  "filled_entries st = st_entries st - (if st_pending st = None then 0 else 1)"

definition bt_inv :: "bt_env \<Rightarrow> bt_output \<Rightarrow> nat \<Rightarrow> trade_row list \<Rightarrow> bt_state \<Rightarrow> bool" where
  "bt_inv env out0 n new st \<longleftrightarrow>
     out_inv env out0 new (st_output st) (st_batch st)
     \<and> stock_inv env (st_stock st) (map lot_quantity (st_lots st))
     \<and> id_inv env (st_cycle st) (st_lots st \<noteq> [] \<or> st_pending st \<noteq> None) (filled_entries st)
         (map tr_lot_id new @ map lot_id (st_lots st))
     \<and> (\<forall>l \<in> set (st_lots st). lot_cycle l = cycle_name (be_symbol env) (st_cycle st) \<and> lot_entry_bar l < n)
     \<and> int (length (st_lots st)) \<le> filled_entries st \<and> st_entries st \<le> entry_limit env
     \<and> (\<forall>sb en cid. st_pending st = Some (sb, en, cid) \<longrightarrow>
          sb + 1 = n \<and> int en + 1 = st_entries st \<and> cid = cycle_name (be_symbol env) (st_cycle st))"

lemma strip_add_trade: "strip_signals (add_trade m t) = add_trade (strip_signals m) t"
  by (simp add: strip_signals_def add_trade_def add_row_costs_def add_result_def add_status_def Let_def
      split: trade_status.splits)

lemma show_nat_dash: "CHR ''-'' \<notin> set (show_nat n)"
  using show_nat_digits [of "CHR ''-''" n] by auto

lemma full_name_inject [simp]: "full_name env c k = full_name env c' k' \<longleftrightarrow> c = c' \<and> k = k'"
proof
  assume "full_name env c k = full_name env c' k'"
  then have e: "show_nat c @ CHR ''-'' # ''Lot'' @ show_nat k = show_nat c' @ CHR ''-'' # ''Lot'' @ show_nat k'"
    by (simp add: full_name_def lot_name_def cycle_name_def)
  have "takeWhile (\<lambda>x. x \<noteq> CHR ''-'') (show_nat m @ CHR ''-'' # r) = show_nat m" for m r
    using show_nat_dash [of m] by (subst takeWhile_append2) auto
  with e have "show_nat c = show_nat c'" by metis
  with e show "c = c' \<and> k = k'" by simp
qed simp

lemma emit_row_out_inv:
  assumes "out_inv env out0 new (ex_output ex) (ex_batch ex)" and "row_ok row"
    and "env_ok env"
  shows "out_inv env out0 (new @ [row]) (ex_output (emit_row env ex row)) (ex_batch (emit_row env ex row))"
proof -
  from assms(1) obtain ws where ws: "out_written (ex_output ex) = out_written out0 @ ws"
    "new = concat ws @ ex_batch ex" "\<forall>w \<in> set ws. int (length w) = xs_batch_size (be_execution env)"
    and b: "int (length (ex_batch ex)) < xs_batch_size (be_execution env)"
    by (auto simp: out_inv_def)
  have size: "1 \<le> xs_batch_size (be_execution env)" using assms(3) settings_okD(8) by (auto simp: env_ok_def)
  show ?thesis
  proof (cases "int (length (ex_batch ex @ [row])) \<ge> xs_batch_size (be_execution env)")
    case True
    with assms ws b size show ?thesis
      by (auto simp: out_inv_def emit_row_def Let_def strip_add_trade intro!: exI [of _ "ws @ [ex_batch ex @ [row]]"])
  next
    case False
    with assms ws b show ?thesis
      by (auto simp: out_inv_def emit_row_def Let_def strip_add_trade intro!: exI [of _ ws])
  qed
qed

lemma consume_shares_quantity:
  assumes "stock_ok stock" and "q \<in> \<nat>" and "fifo_consume stock q = Inr (m, stock')"
  shows "stock_ok stock' \<and> inv_quantity stock' = inv_quantity stock - q"
proof -
  from assms(2) obtain n where q: "q = real n" by (auto elim: Nats_cases)
  note s = fifo_consume_shares [OF assms(1) assms(3) [unfolded q]]
  have "inv_quantity stock' = real (length (units stock'))"
    using s(3) by (simp add: stock_ok_def length_units)
  also have "\<dots> = real (length (units stock)) - real n" using s(1,4) by (simp add: of_nat_diff)
  finally show ?thesis using s(3) assms(1) q by (simp add: stock_ok_def length_units)
qed

text \<open>One iteration of the lot loop keeps the invariant; \<open>rest\<close> are the lots still to visit.\<close>

definition ex_inv ::
  "bt_env \<Rightarrow> bt_output \<Rightarrow> nat \<Rightarrow> int \<Rightarrow> trade_row list \<Rightarrow> lot list \<Rightarrow> exit_state \<Rightarrow> bool" where
  "ex_inv env out0 cyc filled new rest ex \<longleftrightarrow>
     out_inv env out0 new (ex_output ex) (ex_batch ex)
     \<and> stock_inv env (ex_stock ex) (map lot_quantity (ex_still_open ex @ rest))
     \<and> id_inv env cyc True filled (map tr_lot_id new @ map lot_id (ex_still_open ex @ rest))"

lemma id_inv_mset:
  assumes "id_inv env cyc alive filled ids" and "mset ids' = mset ids"
  shows "id_inv env cyc alive filled ids'"
  using assms mset_eq_imp_distinct_iff [OF assms(2)] mset_eq_setD [OF assms(2)] by (simp add: id_inv_def)

lemma exit_lot_inv:
  assumes "ex_inv env out0 cyc filled new (l0 # rest) ex" and "exit_lot env now b ex l0 = Inr ex'" and "env_ok env"
  shows "\<exists>more ls. ex_inv env out0 cyc filled (new @ more) rest ex'
    \<and> ex_still_open ex' = ex_still_open ex @ ls \<and> set (map lot_key ls) \<subseteq> {lot_key l0} \<and> length ls \<le> 1"
  using assms(2)
proof (cases rule: exit_lot_cases)
  case (stays l)
  with assms(1) lot_key_eq [OF stays(1)] show ?thesis
    by (intro exI [of _ "[]"] exI [of _ "[l]"]) (simp add: ex_inv_def)
next
  case (leaves l fifo stock status raw row ch nx)
  note k = lot_key_eq [OF leaves(1)] and r = closed_row_parts [OF leaves(4)]
  have "row_ok row"
    using r(2,4,6) maybe_exit_late [OF leaves(2)] maybe_exit_closed [OF leaves(2)]
    by (simp add: row_ok_def)
  then have "out_inv env out0 (new @ [row]) (ex_output ex') (ex_batch ex')"
    using assms(1,3) leaves(7) by (simp add: ex_inv_def emit_row_out_inv)
  moreover have "stock_inv env stock (map lot_quantity (ex_still_open ex @ rest))"
  proof (cases "be_market env = NSE")
    case True
    with assms(1) have old: "stock_ok (ex_stock ex)" "lot_quantity l0 \<in> \<nat>"
        "inv_quantity (ex_stock ex) = sum_list (map lot_quantity (ex_still_open ex @ l0 # rest))"
        "\<forall>q \<in> set (map lot_quantity (ex_still_open ex @ rest)). q \<in> \<nat> \<and> 0 < q"
      by (auto simp: ex_inv_def stock_inv_def)
    from leaves(5) True obtain m where "fifo_consume (ex_stock ex) (lot_quantity l0) = Inr (m, stock)" by auto
    from consume_shares_quantity [OF old(1,2) this] old(3,4) show ?thesis
      by (simp add: stock_inv_def)
  qed (simp add: stock_inv_def)
  moreover have "id_inv env cyc True filled (map tr_lot_id (new @ [row]) @ map lot_id (ex_still_open ex @ rest))"
    using assms(1) r(1) k(1) by (auto simp: ex_inv_def elim!: id_inv_mset)
  ultimately show ?thesis
    using leaves(7) by (intro exI [of _ "[row]"] exI [of _ "[]"]) (simp add: ex_inv_def)
qed

lemma exit_fold_inv:
  assumes "ex_inv env out0 cyc filled new lots ex" and "rfold (exit_lot env now b) ex lots = Inr ex'" and "env_ok env"
  shows "\<exists>more ls. ex_inv env out0 cyc filled (new @ more) [] ex'
    \<and> ex_still_open ex' = ex_still_open ex @ ls \<and> set (map lot_key ls) \<subseteq> set (map lot_key lots)
    \<and> length ls \<le> length lots"
  using assms(1,2)
proof (induction lots arbitrary: ex new)
  case Nil
  then show ?case by (intro exI [of _ "[]"]) simp
next
  case (Cons l lots)
  from Cons.prems(2) obtain ex1 where step: "exit_lot env now b ex l = Inr ex1"
    and rest: "rfold (exit_lot env now b) ex1 lots = Inr ex'" by (auto simp: rbind_eq_Inr)
  obtain more1 ls1 where i1: "ex_inv env out0 cyc filled (new @ more1) lots ex1"
    and l1: "ex_still_open ex1 = ex_still_open ex @ ls1" "set (map lot_key ls1) \<subseteq> {lot_key l}" "length ls1 \<le> 1"
    using exit_lot_inv [OF Cons.prems(1) step assms(3)] by blast
  obtain more2 ls2 where i2: "ex_inv env out0 cyc filled ((new @ more1) @ more2) [] ex'"
    and l2: "ex_still_open ex' = ex_still_open ex1 @ ls2" "set (map lot_key ls2) \<subseteq> set (map lot_key lots)" "length ls2 \<le> length lots"
    using Cons.IH [OF i1 rest] by blast
  show ?case
    using i2 l1 l2 by (intro exI [of _ "more1 @ more2"] exI [of _ "ls1 @ ls2"]) auto
qed

lemma id_inv_weaken:
  "id_inv env cyc alive filled ids \<Longrightarrow> (alive' \<Longrightarrow> alive) \<Longrightarrow> filled \<le> filled' \<Longrightarrow> id_inv env cyc alive' filled' ids"
  unfolding id_inv_def by (meson order_trans)

lemma exit_lots_inv:
  assumes "bt_inv env out0 n new st" and "st_pending st = None" and "exit_lots env bs now st = Inr st'" and "env_ok env"
  shows "\<exists>more. bt_inv env out0 n (new @ more) st' \<and> st_pending st' = None"
proof (cases "st_lots st = []")
  case True
  with assms(3) have "st' = st" by (auto simp: exit_lots_def)
  with assms(1,2) show ?thesis by (intro exI [of _ "[]"]) simp
next
  case False
  let ?ex = "\<lparr>ex_output = st_output st, ex_batch = st_batch st, ex_stock = st_stock st, ex_still_open = [],
          ex_nse_exit = False, ex_changed = False\<rparr>"
  from assms(3) obtain ex lots where fold: "rfold (exit_lot env now (bs ! now)) ?ex (st_lots st) = Inr ex"
    and ref: "lots = ex_still_open ex \<or> refresh_fifo_targets env (ex_still_open ex) (ex_stock ex) = Inr lots"
    and st': "st' = st\<lparr>st_output := ex_output ex, st_batch := ex_batch ex, st_lots := lots, st_stock := ex_stock ex\<rparr>"
    by (auto simp: exit_lots_def rbind_eq_Inr split: if_splits)
  have "ex_inv env out0 (st_cycle st) (filled_entries st) new (st_lots st) ?ex"
    using assms(1) False by (simp add: bt_inv_def ex_inv_def)
  from exit_fold_inv [OF this fold assms(4)] obtain more ls where
    inv: "ex_inv env out0 (st_cycle st) (filled_entries st) (new @ more) [] ex"
    and ls: "ex_still_open ex = ls" "set (map lot_key ls) \<subseteq> set (map lot_key (st_lots st))" "length ls \<le> length (st_lots st)"
    by auto
  have keys: "map lot_key lots = map lot_key (ex_still_open ex)" using ref refresh_keys by auto
  note m = map_lot_key [OF keys]
  have old: "\<forall>l \<in> set (st_lots st). lot_cycle l = cycle_name (be_symbol env) (st_cycle st) \<and> lot_entry_bar l < n"
    using assms(1) by (simp add: bt_inv_def)
  have "lot_cycle l = cycle_name (be_symbol env) (st_cycle st) \<and> lot_entry_bar l < n" if "l \<in> set lots" for l
  proof -
    from that have "lot_key l \<in> set (map lot_key (ex_still_open ex))" by (metis keys image_eqI list.set_map)
    with ls(1,2) obtain l2 where "l2 \<in> set (st_lots st)" "lot_key l = lot_key l2" by auto
    with lot_key_eq [of l l2] old show ?thesis by simp
  qed
  moreover have "filled_entries st' = filled_entries st" by (simp add: st' filled_entries_def)
  moreover have "id_inv env (st_cycle st) (lots \<noteq> []) (filled_entries st) (map tr_lot_id (new @ more) @ map lot_id lots)"
    using inv m(1) by (auto simp: ex_inv_def intro: id_inv_weaken)
  moreover have "int (length lots) \<le> filled_entries st" using assms(1) ls(1,3) m(6) by (simp add: bt_inv_def)
  ultimately have "bt_inv env out0 n (new @ more) st'"
    using assms(1,2) inv m(2) by (simp add: bt_inv_def ex_inv_def st')
  then show ?thesis using assms(2) st' by auto
qed

lemma entry_quantity_pos:
  assumes "env_ok env" and "entry_quantity env k p = Inr q"
  shows "0 < q" and "be_market env = NSE \<Longrightarrow> q \<in> \<nat>"
proof -
  have set: "0 < settings_lot_quantity (be_execution env) k"
    "be_market env = NSE \<Longrightarrow> settings_lot_quantity (be_execution env) k \<in> \<nat>"
    using assms(1) settings_lot_pos settings_lot_whole by (auto simp: env_ok_def)
  have lad: "0 < i" if "be_ladder env = Some l" "ladder_quantity l (int k) p = Inr i" for l i
    using that assms(1) ladder_quantity_ok(2) by (auto simp: env_ok_def)
  have whole: "(of_int i :: real) \<in> \<nat>" if "0 < i" for i :: int
    using that by (metis of_int_of_nat_eq of_nat_in_Nats pos_int_cases)
  show "0 < q" and "be_market env = NSE \<Longrightarrow> q \<in> \<nat>"
    using assms(2) set lad whole
    by (auto simp: entry_quantity_def rbind_eq_Inr split: option.splits if_splits)
qed

lemma enter_lot:
  assumes "enter env bs sb now en cid first cap = Inr (Some l)" and "env_ok env"
  shows "lot_id l = lot_name cid (en + 1)" "lot_cycle l = cid" "lot_number l = en + 1" "lot_entry_bar l = now"
    "0 < lot_quantity l" "be_market env = NSE \<Longrightarrow> lot_quantity l \<in> \<nat>"
    "lot_entry_at l = b_at (bs ! now)"
    "lot_entry_price l = py_round (fill_price (fee_buy (be_fees env) (b_open (bs ! now)) (lot_quantity l))) 4"
  using assms entry_quantity_pos [OF assms(2)]
  by (auto simp: enter_def Let_def rbind_eq_Inr split: if_splits)

lemma fifo_add_stock:
  assumes "fifo_add stock i t p q f = Inr stock'"
  shows "inv_quantity stock' = inv_quantity stock + q" and "stock_ok stock \<Longrightarrow> q \<in> \<nat> \<Longrightarrow> stock_ok stock'"
    and "0 < p"
  using assms by (auto simp: fifo_add_def stock_ok_def split: if_splits)

lemma id_inv_snoc:
  assumes "id_inv env cyc True f ids" and "int k = f + 1"
  shows "id_inv env cyc True (f + 1) (ids @ [full_name env cyc k])"
proof -
  have "full_name env cyc k \<notin> set ids"
  proof
    assume "full_name env cyc k \<in> set ids"
    with assms(1) obtain c j where "full_name env cyc k = full_name env c j" "c = cyc \<longrightarrow> int j \<le> f"
      by (auto simp: id_inv_def)
    with assms(2) show False by simp
  qed
  moreover have "id_inv env cyc True (f + 1) ids" by (rule id_inv_weaken [OF assms(1)]) simp_all
  moreover have "\<exists>c j. full_name env cyc k = full_name env c j \<and> c \<le> cyc \<and> (True \<and> c = cyc \<longrightarrow> int j \<le> f + 1)"
    using assms(2) by (intro exI [of _ cyc] exI [of _ k]) simp
  ultimately show ?thesis unfolding id_inv_def by (simp only: distinct_append set_append ball_Un) simp
qed

lemma fill_pending_inv:
  assumes "bt_inv env out0 now new st" and "fill_pending env bs now st = Inr st'" and "env_ok env"
  shows "bt_inv env out0 (now + 1) new st' \<and> st_pending st' = None"
proof (cases "st_pending st")
  case None
  with assms show ?thesis by (fastforce simp: fill_pending_def bt_inv_def)
next
  case (Some pend)
  obtain sb en cid where p: "pend = (sb, en, cid)" by (metis prod_cases3)
  from assms(1) Some p have pend: "int en + 1 = st_entries st" "cid = cycle_name (be_symbol env) (st_cycle st)"
    by (simp_all add: bt_inv_def)
  then have fe: "filled_entries st = int en" using Some by (simp add: filled_entries_def)
  with assms(1) Some have ids: "id_inv env (st_cycle st) True (int en) (map tr_lot_id new @ map lot_id (st_lots st))"
    by (simp add: bt_inv_def)
  from assms(2) Some p obtain entered where
    en: "enter env bs sb now en cid (st_first st) (inv_cost (st_stock st)) = Inr entered"
    by (auto simp: fill_pending_def rbind_eq_Inr)
  show ?thesis
  proof (cases entered)
    case None
    with assms(2) Some p en have st': "st' = st\<lparr>st_pending := None, st_entries := st_entries st - 1\<rparr>"
      by (simp add: fill_pending_def)
    have "filled_entries st' = int en" using pend by (simp add: st' filled_entries_def)
    with assms(1) pend ids fe show ?thesis
      by (auto simp: bt_inv_def st' intro: id_inv_weaken)
  next
    case (Some l)
    with assms(2) \<open>st_pending st = Some pend\<close> p en obtain stock lots where
      add: "fifo_add (st_stock st) (lot_id l) (lot_entry_at l) (lot_entry_price l) (lot_quantity l) (lot_fees l) = Inr stock"
      and ref: "refresh_fifo_targets env (st_lots st @ [l]) stock = Inr lots"
      and st': "st' = st\<lparr>st_pending := None, st_lots := lots, st_stock := stock,
          st_first := Some (price_or (st_first st) (lot_entry_price l)), st_last := Some (lot_entry_price l)\<rparr>"
      by (auto simp: fill_pending_def rbind_eq_Inr)
    note e = enter_lot [OF en [unfolded Some] assms(3)] and m = map_lot_key [OF refresh_keys [OF ref]]
    have "filled_entries st' = int en + 1" using pend by (simp add: st' filled_entries_def)
    moreover have "stock_inv env stock (map lot_quantity lots)"
      using assms(1) m(2) e(5,6) fifo_add_stock [OF add] by (auto simp: bt_inv_def stock_inv_def)
    moreover have "id_inv env (st_cycle st) True (int en + 1) (map tr_lot_id new @ map lot_id lots)"
      using id_inv_snoc [OF ids, of "en + 1"] e(1) pend(2) m(1) by (simp add: full_name_def)
    moreover have "lot_cycle l2 = cid \<and> lot_entry_bar l2 < now + 1" if "l2 \<in> set lots" for l2
    proof -
      from that have "lot_key l2 \<in> set (map lot_key (st_lots st @ [l]))"
        by (metis refresh_keys [OF ref] image_eqI list.set_map)
      then obtain l3 where l3: "l3 \<in> set (st_lots st @ [l])" "lot_key l2 = lot_key l3" by auto
      then show ?thesis
        using lot_key_eq [OF l3(2)] e(2,4) assms(1) pend(2) by (fastforce simp: bt_inv_def)
    qed
    ultimately show ?thesis using assms(1) pend m(6,7) fe by (auto simp: bt_inv_def st' intro: id_inv_weaken)
  qed
qed

lemma reset_cycle_inv:
  assumes "bt_inv env out0 n new st" and "st_pending st = None" and "env_ok env"
  shows "bt_inv env out0 n new (reset_cycle st)" and "st_pending (reset_cycle st) = None"
proof -
  have "0 < entry_limit env"
  proof (cases "be_ladder env")
    case (Some l)
    with assms(3) have "ladder_ok l" and "1 \<le> xs_maximum_entries_per_cycle (be_execution env)"
      using settings_okD(7) by (auto simp: env_ok_def)
    with Some show ?thesis by (auto simp: entry_limit_def ladder_ok_def maximum_entries_def)
  qed (use assms(3) settings_okD(7) in \<open>fastforce simp: entry_limit_def env_ok_def\<close>)
  with assms(1,2) show "bt_inv env out0 n new (reset_cycle st)"
    by (auto simp: reset_cycle_def bt_inv_def filled_entries_def id_inv_def)
  show "st_pending (reset_cycle st) = None" using assms(2) by (simp add: reset_cycle_def)
qed

lemma count_signal_inv: "bt_inv env out0 n new st \<Longrightarrow> bt_inv env out0 n new (count_signal st)"
  by (simp add: bt_inv_def count_signal_def filled_entries_def out_inv_def strip_signals_def add_signal_def)

lemma order_at_inv:
  assumes "bt_inv env out0 (now + 1) new st" and "st_pending st = None" and "st_entries st < entry_limit env"
    and "id_inv env (st_cycle st) True (st_entries st) (map tr_lot_id new @ map lot_id (st_lots st))"
    and "cid = cycle_name (be_symbol env) (st_cycle st)"
  shows "bt_inv env out0 (now + 1) new (order_at now cid st)"
  using assms by (auto simp: bt_inv_def order_at_def filled_entries_def)

lemma place_order_inv:
  assumes "bt_inv env out0 (now + 1) new st0" and "st_pending st0 = None"
  shows "bt_inv env out0 (now + 1) new (place_order env bs now st0)"
proof -
  define st where "st = (if b_buy (bs ! now) then count_signal st0 else st0)"
  have inv: "bt_inv env out0 (now + 1) new st" and pend: "st_pending st = None"
    using assms count_signal_inv [OF assms(1)] by (simp_all add: st_def count_signal_def)
  have fe: "filled_entries st = st_entries st" using pend by (simp add: filled_entries_def)
  have live: "id_inv env (st_cycle st) True (st_entries st) (map tr_lot_id new @ map lot_id (st_lots st))"
    if "st_lots st \<noteq> []" using inv that fe by (simp add: bt_inv_def)
  define st1 where "st1 = (if st_lots st = [] \<and> st_pending st = None
    then st\<lparr>st_cycle := st_cycle st + 1, st_entries := 0\<rparr> else st)"
  have st1: "st_pending st1 = None"
    "id_inv env (st_cycle st1) True (st_entries st1) (map tr_lot_id new @ map lot_id (st_lots st1))"
    "bt_inv env out0 (now + 1) new st1"
  proof -
    show "st_pending st1 = None" using pend by (simp add: st1_def)
    have "id_inv env (Suc (st_cycle st)) True 0 (map tr_lot_id new)" if "st_lots st = []"
      using inv that by (fastforce simp: bt_inv_def id_inv_def)
    then show ids: "id_inv env (st_cycle st1) True (st_entries st1) (map tr_lot_id new @ map lot_id (st_lots st1))"
      using live pend by (simp add: st1_def)
    show "bt_inv env out0 (now + 1) new st1"
      using inv ids pend by (auto simp: bt_inv_def st1_def filled_entries_def intro: id_inv_weaken)
  qed
  show ?thesis
  proof (cases "b_in_window (bs ! now)")
    case True
    show ?thesis
    proof (cases "\<exists>l first rest. be_ladder env = Some l \<and> st_lots st = first # rest")
      case lad: True
      then obtain l first rest where l: "be_ladder env = Some l" "st_lots st = first # rest" by blast
      have "lot_cycle first = cycle_name (be_symbol env) (st_cycle st)" using inv l(2) by (simp add: bt_inv_def)
      with order_at_inv [OF inv pend] live l inv True show ?thesis
        by (simp add: place_order_def flip: st_def)
    next
      case False
      then have "place_order env bs now st0 =
          (if \<not> b_buy (bs ! now) then st
           else if (st_lots st1 = [] \<or> xs_allow_additional_buys (be_execution env))
              \<and> st_entries st1 < entry_limit env \<and> now + 1 < length bs
           then order_at now (cycle_name (be_symbol env) (st_cycle st1)) st1 else st1)"
        using True unfolding place_order_def Let_def st_def [symmetric] st1_def [symmetric]
        by (auto split: option.splits list.splits)
      with inv st1 order_at_inv [OF st1(3,1)] show ?thesis by simp
    qed
  qed (use assms in \<open>simp add: place_order_def\<close>)
qed

lemma bar_step_inv:
  assumes "bt_inv env out0 now new st" and "bar_step env bs st now = Inr st'" and "env_ok env"
  shows "\<exists>more. bt_inv env out0 (now + 1) (new @ more) st'"
proof -
  from assms(2) obtain st1 st2 where f: "fill_pending env bs now st = Inr st1"
    and x: "exit_lots env bs now st1 = Inr st2" and st': "st' = place_order env bs now (reset_cycle st2)"
    by (auto simp: bar_step_def rbind_eq_Inr)
  from fill_pending_inv [OF assms(1) f assms(3)]
  obtain more where i: "bt_inv env out0 (now + 1) (new @ more) st2" "st_pending st2 = None"
    using exit_lots_inv [OF _ _ x assms(3)] by blast
  from place_order_inv [OF reset_cycle_inv [OF i assms(3)]] st' show ?thesis by blast
qed

lemma start_state_inv: "env_ok env \<Longrightarrow> bt_inv env out 0 [] (start_state out)"
proof -
  assume ok: "env_ok env"
  then have "1 \<le> xs_batch_size (be_execution env)" "bt_inv env out 0 [] (start_state out) \<longleftrightarrow>
      0 < xs_batch_size (be_execution env) \<and> 0 \<le> entry_limit env"
    using settings_okD(8)
    by (auto simp: env_ok_def bt_inv_def start_state_def out_inv_def stock_inv_def stock_ok_def id_inv_def filled_entries_def)
  moreover have "0 \<le> entry_limit env"
    using ok settings_okD(7) [of "be_execution env"] by (auto simp: entry_limit_def env_ok_def split: option.splits)
  ultimately show ?thesis by simp
qed

lemma replay_prefix_inv:
  assumes "rfold (bar_step env bs) (start_state out) [0..<n] = Inr st" and "env_ok env"
  shows "\<exists>new. bt_inv env out n new st"
  using assms(1)
proof (induction n arbitrary: st)
  case 0
  with start_state_inv [OF assms(2)] show ?case by auto
next
  case (Suc n)
  then obtain st1 where "rfold (bar_step env bs) (start_state out) [0..<n] = Inr st1"
    and step: "bar_step env bs st1 n = Inr st"
    by (auto simp: rfold_append rbind_eq_Inr)
  with Suc.IH obtain new where "bt_inv env out n new st1" by blast
  from bar_step_inv [OF this step assms(2)] show ?case by auto
qed

section \<open>The end of a symbol\<close>

lemma open_row_parts:
  "open_row env l fifo c k = Inr row \<Longrightarrow> tr_lot_id row = lot_id l \<and> tr_status row = OPEN"
  by (auto simp: open_row_def row_base_def rbind_eq_Inr Let_def split: if_splits)

lemma add_open_rows:
  assumes "rfold (add_open_row env bs) st lfs = Inr st'"
  shows "\<exists>rows. map tr_lot_id rows = map (lot_id \<circ> fst) lfs \<and> (\<forall>r \<in> set rows. tr_status r = OPEN)
    \<and> st_batch st' = st_batch st @ rows \<and> out_written (st_output st') = out_written (st_output st)
    \<and> out_metrics (st_output st') = foldl add_trade (out_metrics (st_output st)) rows"
  using assms
proof (induction lfs arbitrary: st)
  case Nil
  then show ?case by simp
next
  case (Cons lf lfs)
  then obtain st1 where step: "add_open_row env bs st lf = Inr st1"
    and rest: "rfold (add_open_row env bs) st1 lfs = Inr st'" by (auto simp: rbind_eq_Inr)
  from step obtain row where row: "open_row env (fst lf) (snd lf) (b_close (last bs)) (length bs - 1) = Inr row"
    and st1: "st1 = st\<lparr>st_output := (st_output st)\<lparr>out_metrics := add_trade (out_metrics (st_output st)) row\<rparr>,
          st_batch := st_batch st @ [row]\<rparr>"
    by (auto simp: add_open_row_def rbind_eq_Inr)
  from Cons.IH [OF rest] obtain rows where "map tr_lot_id rows = map (lot_id \<circ> fst) lfs" "\<forall>r \<in> set rows. tr_status r = OPEN"
    "st_batch st' = st_batch st1 @ rows" "out_written (st_output st') = out_written (st_output st1)"
    "out_metrics (st_output st') = foldl add_trade (out_metrics (st_output st1)) rows" by blast
  with open_row_parts [OF row] st1 show ?case by (intro exI [of _ "row # rows"]) simp
qed

lemma finish_lots:
  assumes "rmap_list (\<lambda>l. rbind (single_preview stock (lot_quantity l)) (\<lambda>m. Inr (l, Some m))) lots = Inr lfs"
  shows "map fst lfs = lots"
  using assms by (induction lots arbitrary: lfs) (auto simp: rbind_eq_Inr)

lemma finish_symbol_rows:
  assumes "finish_symbol env bs st = Inr out'"
  shows "\<exists>rows. map tr_lot_id rows = map lot_id (st_lots st) \<and> (\<forall>r \<in> set rows. tr_status r = OPEN)
    \<and> out_written out' = out_written (st_output st) @ (if st_batch st @ rows = [] then [] else [st_batch st @ rows])
    \<and> out_metrics out' = foldl add_trade (out_metrics (st_output st)) rows"
proof -
  let ?src = "if be_market env = NSE
    then rmap_list (\<lambda>l. rbind (single_preview (st_stock st) (lot_quantity l)) (\<lambda>m. Inr (l, Some m))) (st_lots st)
    else Inr (map (\<lambda>l. (l, None)) (st_lots st))"
  from assms obtain lfs st' where src: "?src = Inr lfs"
    and fold: "rfold (add_open_row env bs) st lfs = Inr st'" and out': "out' = flush_batch st'"
    by (auto simp: finish_symbol_def rbind_eq_Inr)
  have lfs: "map fst lfs = st_lots st"
    using src finish_lots by (cases "be_market env = NSE") (auto simp: comp_def)
  from add_open_rows [OF fold] obtain rows where rows: "map tr_lot_id rows = map (lot_id \<circ> fst) lfs"
    "\<forall>r \<in> set rows. tr_status r = OPEN" "st_batch st' = st_batch st @ rows"
    "out_written (st_output st') = out_written (st_output st)"
    "out_metrics (st_output st') = foldl add_trade (out_metrics (st_output st)) rows" by blast
  have "map (lot_id \<circ> fst) lfs = map lot_id (st_lots st)" by (simp flip: lfs)
  with rows out' show ?thesis by (intro exI [of _ rows]) (simp add: flush_batch_def)
qed

lemma foldl_strip: "strip_signals (foldl add_trade m rows) = foldl add_trade (strip_signals m) rows"
  by (induction rows arbitrary: m) (simp_all add: strip_add_trade)

text \<open>Everything a replay has handed over, in one statement.\<close>

lemma replay_output:
  assumes "replay env bs out = Inr out'" and "env_ok env"
  shows "\<exists>ws last rows. out_written out' = out_written out @ ws @ (if last = [] then [] else [last])
    \<and> rows = concat ws @ last \<and> (\<forall>w \<in> set ws. int (length w) = xs_batch_size (be_execution env))
    \<and> distinct (map tr_lot_id rows) \<and> (\<forall>r \<in> set rows. tr_status r = OPEN \<or> row_ok r)
    \<and> strip_signals (out_metrics out') = foldl add_trade (strip_signals (out_metrics out)) rows"
proof -
  from assms(1) obtain st where st: "rfold (bar_step env bs) (start_state out) [0..<length bs] = Inr st"
    and fin: "finish_symbol env bs st = Inr out'" by (auto simp: replay_def rbind_eq_Inr)
  obtain new where inv: "bt_inv env out (length bs) new st" using replay_prefix_inv [OF st assms(2)] by blast
  obtain rows where rows: "map tr_lot_id rows = map lot_id (st_lots st)" "\<forall>r \<in> set rows. tr_status r = OPEN"
    "out_written out' = out_written (st_output st) @ (if st_batch st @ rows = [] then [] else [st_batch st @ rows])"
    "out_metrics out' = foldl add_trade (out_metrics (st_output st)) rows"
    using finish_symbol_rows [OF fin] by blast
  from inv have oi: "out_inv env out new (st_output st) (st_batch st)"
    and ids: "distinct (map tr_lot_id new @ map lot_id (st_lots st))"
    by (simp_all only: bt_inv_def id_inv_def)
  from oi obtain ws where ws: "out_written (st_output st) = out_written out @ ws" "new = concat ws @ st_batch st"
      "\<forall>w \<in> set ws. int (length w) = xs_batch_size (be_execution env)"
    and met: "strip_signals (out_metrics (st_output st)) = foldl add_trade (strip_signals (out_metrics out)) new"
    and ok: "\<forall>r \<in> set new. row_ok r"
    unfolding out_inv_def by blast
  have "map tr_lot_id (concat ws @ st_batch st @ rows) = map tr_lot_id new @ map lot_id (st_lots st)"
    using ws(2) rows(1) by simp
  with ids have "distinct (map tr_lot_id (concat ws @ st_batch st @ rows))" by (simp only:)
  moreover have "strip_signals (out_metrics out') = foldl add_trade (strip_signals (out_metrics out)) (concat ws @ st_batch st @ rows)"
    using met rows(4) ws(2) by (simp add: foldl_strip)
  moreover have "\<forall>r \<in> set (concat ws @ st_batch st @ rows). tr_status r = OPEN \<or> row_ok r"
    using ok ws(2) rows(2) by auto
  moreover have "out_written out' = out_written out @ ws @ (if st_batch st @ rows = [] then [] else [st_batch st @ rows])"
    using rows(3) ws(1) by simp
  ultimately show ?thesis using ws(3) by blast
qed

lemma sum_list_map_real: "sum_list (map real ns) = real (sum_list ns)"
  by (induction ns) simp_all

section \<open>Exits of one bar, and causality\<close>

lemma exit_fold_targets:
  assumes "rfold (exit_lot env now b) ex lots = Inr ex'" and "be_market env = NSE"
  shows "\<exists>more. rows_of (ex_output ex') (ex_batch ex') = rows_of (ex_output ex) (ex_batch ex) @ more
    \<and> length (filter (\<lambda>r. tr_status r = TARGET_HIT) more) \<le> (if ex_nse_exit ex then 0 else 1)"
  using assms(1)
proof (induction lots arbitrary: ex)
  case Nil
  then show ?case by simp
next
  case (Cons l lots)
  from Cons.prems obtain ex1 where step: "exit_lot env now b ex l = Inr ex1"
    and rest: "rfold (exit_lot env now b) ex1 lots = Inr ex'" by (auto simp: rbind_eq_Inr)
  from step show ?case
  proof (cases rule: exit_lot_cases)
    case (stays l1)
    with Cons.IH [OF rest] show ?thesis by simp
  next
    case (leaves l1 fifo stock status raw row ch nx)
    from Cons.IH [OF rest] leaves(6,7) assms(2) obtain more where
      "rows_of (ex_output ex') (ex_batch ex') = rows_of (ex_output ex1) (ex_batch ex1) @ more"
      "filter (\<lambda>r. tr_status r = TARGET_HIT) more = []"
      by auto
    with leaves(3,7) closed_row_parts(2) [OF leaves(4)] show ?thesis
      by (intro exI [of _ "row # more"]) (auto simp: rows_of_def emit_row_def Let_def)
  qed
qed

lemma fill_pending_output:
  "fill_pending env bs now st = Inr st' \<Longrightarrow> st_output st' = st_output st \<and> st_batch st' = st_batch st \<and> st_pending st' = None"
  by (auto simp: fill_pending_def rbind_eq_Inr split: option.splits prod.splits)

lemma place_order_parts:
  "st_batch (place_order env bs now st) = st_batch st"
  "out_written (st_output (place_order env bs now st)) = out_written (st_output st)"
  "st_stock (place_order env bs now st) = st_stock st"
  "st_pending (place_order env bs now st) = st_pending st
     \<or> (\<exists>en cid. st_pending (place_order env bs now st) = Some (now, en, cid))"
  by (auto simp: place_order_def order_at_def count_signal_def Let_def split: option.splits list.splits)

lemma exit_lots_parts:
  assumes "exit_lots env bs now st = Inr st'"
  shows "st_pending st' = st_pending st" and "be_market env \<noteq> NSE \<Longrightarrow> st_stock st' = st_stock st"
proof -
  show "st_pending st' = st_pending st" using assms by (auto simp: exit_lots_def rbind_eq_Inr)
  assume m: "be_market env \<noteq> NSE"
  have "ex_stock ex' = ex_stock ex" if "exit_lot env now b ex l = Inr ex'" for b ex l ex'
    using that by (cases rule: exit_lot_cases) (use m in auto)
  then have "ex_stock ex' = ex_stock ex" if "rfold (exit_lot env now b) ex ls = Inr ex'" for b ex ls ex'
    using rfold_invariant [of ls "\<lambda>x. ex_stock x = ex_stock ex" "exit_lot env now b" ex ex'] that by simp
  with assms show "st_stock st' = st_stock st" by (fastforce simp: exit_lots_def rbind_eq_Inr)
qed

lemma bar_step_pending:
  assumes "bar_step env bs st now = Inr st'"
  shows "\<forall>sb en cid. st_pending st' = Some (sb, en, cid) \<longrightarrow> sb = now"
proof -
  from assms obtain st1 st2 where "fill_pending env bs now st = Inr st1" "exit_lots env bs now st1 = Inr st2"
    and st': "st' = place_order env bs now (reset_cycle st2)" by (auto simp: bar_step_def rbind_eq_Inr)
  then have "st_pending (reset_cycle st2) = None"
    using fill_pending_output exit_lots_parts(1) by (fastforce simp: reset_cycle_def)
  then show ?thesis using place_order_parts(4) [of env bs now "reset_cycle st2"] st' by auto
qed

lemma bar_step_extend:
  assumes "now + 1 < length bs" and "\<forall>sb en cid. st_pending st = Some (sb, en, cid) \<longrightarrow> sb < length bs"
  shows "bar_step env (bs @ later) st now = bar_step env bs st now"
proof -
  have n: "(bs @ later) ! now = bs ! now" using assms(1) by (simp add: nth_append)
  have "enter env (bs @ later) sb now en cid f c = enter env bs sb now en cid f c" if "sb < length bs" for sb en cid f c
  proof -
    have sb: "(bs @ later) ! sb = bs ! sb" using that by (simp add: nth_append)
    show ?thesis unfolding enter_def n sb ..
  qed
  then have "fill_pending env (bs @ later) now st = fill_pending env bs now st"
    using assms(2) by (auto simp: fill_pending_def split: option.splits)
  moreover have "exit_lots env (bs @ later) now s = exit_lots env bs now s" for s
    by (simp add: exit_lots_def n)
  moreover have "place_order env (bs @ later) now s = place_order env bs now s" for s
  proof -
    have len: "now + 1 < length (bs @ later) \<longleftrightarrow> now + 1 < length bs" using assms(1) by simp
    show ?thesis unfolding place_order_def n len ..
  qed
  ultimately show ?thesis by (simp add: bar_step_def)
qed

lemma replay_prefix_extend:
  assumes "n < length bs"
  shows "rfold (bar_step env (bs @ later)) (start_state out) [0..<n] = rfold (bar_step env bs) (start_state out) [0..<n]
    \<and> (\<forall>st. rfold (bar_step env bs) (start_state out) [0..<n] = Inr st \<longrightarrow>
         (\<forall>sb en cid. st_pending st = Some (sb, en, cid) \<longrightarrow> sb < length bs))"
  using assms
proof (induction n)
  case 0
  then show ?case by (simp add: start_state_def)
next
  case (Suc n)
  note IH = Suc.IH [OF Suc_lessD [OF Suc.prems]]
  show ?case
  proof (cases "rfold (bar_step env bs) (start_state out) [0..<n]")
    case (Inr st)
    with IH have "\<forall>sb en cid. st_pending st = Some (sb, en, cid) \<longrightarrow> sb < length bs" by blast
    then have "bar_step env (bs @ later) st n = bar_step env bs st n"
      using Suc.prems by (intro bar_step_extend) simp_all
    moreover have "sb < length bs" if "bar_step env bs st n = Inr st'" "st_pending st' = Some (sb, en, cid)" for st' sb en cid
      using bar_step_pending [OF that(1)] that(2) Suc.prems by simp
    ultimately show ?thesis using IH Inr by (auto simp: rfold_append)
  qed (use IH in \<open>simp add: rfold_append\<close>)
qed

section \<open>Properties\<close>

definition example_settings :: execution_settings where
  "example_settings = default_settings\<lparr>xs_target_pct := Some 10, xs_transaction_cost_bps := Some 0,
     xs_slippage_bps := Some 0\<rparr>"

definition example_env :: "market \<Rightarrow> bt_env" where
  "example_env m = \<lparr>be_run_id = ''r'', be_market = m, be_symbol = ''X'',
     be_fees = PercentageFees \<lparr>transaction_cost_bps = 0, slippage_bps = 0\<rparr>,
     be_execution = example_settings, be_config = [], be_ladder = None, be_bar_minutes = 5,
     be_expiry_multiplier = 1, be_cancelled = (\<lambda>_. False)\<rparr>"

definition example_bar :: "int \<Rightarrow> real \<Rightarrow> real \<Rightarrow> bool \<Rightarrow> bar" where
  "example_bar t p h buy = \<lparr>b_at = t, b_open = p, b_high = h, b_low = p, b_close = p, b_buy = buy,
     b_signal_at = Some t, b_signal_price = Some p, b_target = None, b_stop = None, b_in_window = True\<rparr>"

definition fresh_output :: bt_output where
  "fresh_output = \<lparr>out_metrics = new_metrics, out_written = []\<rparr>"

lemma example_env_ok: "env_ok (example_env m)"
  by (simp add: env_ok_def example_env_def example_settings_def default_settings_def settings_ok_def
      settings_validate_def SIZING_REDUCTIONS_def is_integer_def)

lemmas replay_defs = bar_step_def fill_pending_def exit_lots_def reset_cycle_def place_order_def order_at_def
  count_signal_def add_signal_def start_state_def entry_limit_def example_env_def example_settings_def
  default_settings_def example_bar_def fresh_output_def

lemma example_prefix: "is_ok (rfold (bar_step (example_env m) [example_bar 0 100 100 True, example_bar 1 100 100 False])
    (start_state fresh_output) [0..<1])"
  by (simp add: replay_defs)

text \<open>
  C3. On the share market the FIFO inventory and the open lots agree after every bar: the stock is
  well formed and whole, its quantity is the sum of the open lots' quantities, so the sale of any
  one lot, and of all of them one after the other, always finds its shares.
\<close>

theorem replay_stock_matches_lots:
  assumes "env_ok env" and "be_market env = NSE"
    and "rfold (bar_step env bs) (start_state out) [0..<n] = Inr st"
  shows "stock_ok (st_stock st) \<and> inv_quantity (st_stock st) = sum_list (map lot_quantity (st_lots st))
    \<and> (\<forall>l \<in> set (st_lots st). is_ok (fifo_consume (st_stock st) (lot_quantity l)))
    \<and> is_ok (preview_allocations (st_stock st) (map lot_quantity (st_lots st)))"
proof -
  obtain new where "bt_inv env out n new st" using replay_prefix_inv [OF assms(3,1)] by blast
  then have ok: "stock_ok (st_stock st)" and total: "inv_quantity (st_stock st) = sum_list (map lot_quantity (st_lots st))"
    and qs: "\<forall>q \<in> set (map lot_quantity (st_lots st)). q \<in> \<nat> \<and> 0 < q"
    using assms(2) by (simp_all add: bt_inv_def stock_inv_def)
  have "is_ok (fifo_consume (st_stock st) (lot_quantity l))" if "l \<in> set (st_lots st)" for l
  proof -
    from qs that obtain k where k: "lot_quantity l = real k" "0 < k" by (auto elim!: Nats_cases)
    have "lot_quantity l \<le> sum_list (map lot_quantity (st_lots st))"
      using qs that by (intro sum_list_pos_mem) auto
    with total k fifo.sell_ok [OF ok k(2)] ok show ?thesis
      by (auto simp: sell_shares_def stock_ok_def simp flip: length_units)
  qed
  moreover obtain ns where ns: "map lot_quantity (st_lots st) = map real ns" "\<forall>n \<in> set ns. 0 < n"
  proof (rule that [of "map (\<lambda>l. nat \<lfloor>lot_quantity l\<rfloor>) (st_lots st)"])
    show "map lot_quantity (st_lots st) = map real (map (\<lambda>l. nat \<lfloor>lot_quantity l\<rfloor>) (st_lots st))"
      using qs by (auto simp: Nats_floor)
    show "\<forall>n \<in> set (map (\<lambda>l. nat \<lfloor>lot_quantity l\<rfloor>) (st_lots st)). 0 < n"
      using qs by (auto elim!: Nats_cases)
  qed
  moreover have "sum_list ns \<le> length (units (st_stock st))"
  proof -
    have "real (length (units (st_stock st))) = real (sum_list ns)"
      using ok total ns(1) by (simp add: stock_ok_def length_units sum_list_map_real)
    then show ?thesis by simp
  qed
  ultimately show ?thesis using ok total preview_runs [OF ok, of ns] by (auto simp: is_ok_iff)
qed

theorem replay_stock_matches_lots_witness:
  "\<exists>st. rfold (bar_step (example_env NSE) [example_bar 0 100 100 True, example_bar 1 100 100 False])
      (start_state fresh_output) [0..<1] = Inr st
    \<and> inv_quantity (st_stock st) = sum_list (map lot_quantity (st_lots st))"
proof -
  obtain st where st: "rfold (bar_step (example_env NSE) [example_bar 0 100 100 True, example_bar 1 100 100 False])
      (start_state fresh_output) [0..<1] = Inr st"
    using example_prefix [of NSE] by (auto simp: is_ok_iff)
  from replay_stock_matches_lots [OF example_env_ok _ st] st show ?thesis by (auto simp: example_env_def)
qed

definition example_bars :: "bar list" where
  "example_bars = [example_bar 0 100 100 True, example_bar 1 100 100 False, example_bar 2 100 120 False]"

lemma floor_numeral_helper: "py_round 100 4 = 100" "py_round 110 4 = 110" "py_round 1000 2 = 1000"
  using round_half_even_of_int [of 1000000] round_half_even_of_int [of 1100000] round_half_even_of_int [of 100000]
  by (simp_all add: py_round_def)

lemma example_replay:
  "\<exists>row. replay (example_env CRYPTO) example_bars fresh_output
     = Inr \<lparr>out_metrics = add_trade (add_signal new_metrics) row, out_written = [[row]]\<rparr>
   \<and> tr_status row = TARGET_HIT \<and> tr_net_pnl row = 1000 \<and> tr_holding_bars row = 1"
  by (simp add: replay_def example_bars_def eval_nat_numeral upt_rec)
    (simp add: replay_defs enter_def entry_quantity_def entry_target_def entry_stop_def
      price_or_def percentage_buy_def percentage_sell_def percentage_fill_def settings_lot_quantity_def raw_lot_def Let_def
      fifo_add_def refresh_fifo_targets_def floor_numeral_helper exit_lot_def track_extremes_def
      maybe_exit_def closed_row_def row_base_def row_entry_fees_def emit_row_def finish_symbol_def flush_batch_def)



text \<open>
  Batching. Every batch a symbol writes is non-empty, and every one but the last has exactly
  \<open>batch_size\<close> rows; only the last, which also takes the rows of the lots still open, may differ.
\<close>

theorem replay_batches:
  assumes "env_ok env" and "replay env bs out = Inr out'"
  shows "\<exists>ws. out_written out' = out_written out @ ws \<and> (\<forall>w \<in> set ws. w \<noteq> [])
    \<and> (\<forall>w \<in> set (butlast ws). int (length w) = xs_batch_size (be_execution env))"
proof -
  have "1 \<le> xs_batch_size (be_execution env)" using assms(1) settings_okD(8) by (auto simp: env_ok_def)
  moreover obtain ws last where o: "out_written out' = out_written out @ ws @ (if last = [] then [] else [last])"
    "\<forall>w \<in> set ws. int (length w) = xs_batch_size (be_execution env)"
    using replay_output [OF assms(2,1)] by blast
  ultimately show ?thesis
    by (intro exI [of _ "ws @ (if last = [] then [] else [last])"]) (auto simp: butlast_append dest!: in_set_butlastD)
qed

theorem replay_batches_witness:
  "\<exists>out' ws. replay (example_env CRYPTO) example_bars fresh_output = Inr out' \<and> out_written out' = ws \<and> (\<forall>w \<in> set ws. w \<noteq> [])"
proof -
  obtain out' where r: "replay (example_env CRYPTO) example_bars fresh_output = Inr out'"
    using example_replay by blast
  from replay_batches [OF example_env_ok r] r show ?thesis by (auto simp: fresh_output_def)
qed

text \<open>
  At most one profit exit per bar on the share market: of the rows one bar adds, at most one is a
  \<open>TARGET_HIT\<close>, however many lots the bar's high would have reached. The remaining targets are
  recomputed against the reduced stock before they can fire.
\<close>

theorem one_target_hit_per_bar:
  assumes "be_market env = NSE" and "bar_step env bs st now = Inr st'"
  shows "\<exists>more. rows_of (st_output st') (st_batch st') = rows_of (st_output st) (st_batch st) @ more
    \<and> length (filter (\<lambda>r. tr_status r = TARGET_HIT) more) \<le> 1"
proof -
  from assms(2) obtain st1 st2 where f: "fill_pending env bs now st = Inr st1"
    and x: "exit_lots env bs now st1 = Inr st2" and st': "st' = place_order env bs now (reset_cycle st2)"
    by (auto simp: bar_step_def rbind_eq_Inr)
  let ?ex = "\<lparr>ex_output = st_output st1, ex_batch = st_batch st1, ex_stock = st_stock st1, ex_still_open = [],
          ex_nse_exit = False, ex_changed = False\<rparr>"
  from x obtain ex where fold: "rfold (exit_lot env now (bs ! now)) ?ex (st_lots st1) = Inr ex"
    and st2: "st_output st2 = ex_output ex" "st_batch st2 = ex_batch ex"
    by (auto simp: exit_lots_def rbind_eq_Inr)
  have "rows_of (st_output st') (st_batch st') = rows_of (ex_output ex) (ex_batch ex)"
    using place_order_parts(1,2) [of env bs now "reset_cycle st2"] st' st2
    by (simp add: rows_of_def reset_cycle_def)
  moreover have "rows_of (st_output st1) (st_batch st1) = rows_of (st_output st) (st_batch st)"
    using fill_pending_output [OF f] by simp
  ultimately show ?thesis using exit_fold_targets [OF fold assms(1)] by auto
qed

theorem one_target_hit_per_bar_witness:
  "\<exists>st'. bar_step (example_env NSE) example_bars (start_state fresh_output) 0 = Inr st'
    \<and> length (filter (\<lambda>r. tr_status r = TARGET_HIT) (rows_of (st_output st') (st_batch st'))) \<le> 1"
proof -
  obtain st' where st': "bar_step (example_env NSE) example_bars (start_state fresh_output) 0 = Inr st'"
    by (simp add: replay_defs example_bars_def)
  have "be_market (example_env NSE) = NSE" by (simp add: example_env_def)
  from one_target_hit_per_bar [OF this st'] st' show ?thesis
    by (auto simp: rows_of_def start_state_def fresh_output_def)
qed

text \<open>
  C5. No look-ahead. The state after any number of bars smaller than the length of the history, with
  every row emitted so far, is the same for every continuation of that history.
\<close>

theorem replay_is_causal:
  assumes "n < length bs"
  shows "rfold (bar_step env (bs @ later)) (start_state out) [0..<n]
    = rfold (bar_step env bs) (start_state out) [0..<n]"
  using replay_prefix_extend [OF assms] by simp

theorem replay_is_causal_witness:
  "rfold (bar_step (example_env CRYPTO) (example_bars @ [example_bar 3 1 1 True])) (start_state fresh_output) [0..<2]
   = rfold (bar_step (example_env CRYPTO) example_bars) (start_state fresh_output) [0..<2]"
  using replay_is_causal [of 2 example_bars "example_env CRYPTO"] by (simp add: example_bars_def)

text \<open>
  Position limits. After every bar there are no more open lots than the maximum entries of a
  cycle (and of the ladder, when there is one); a pending order was placed on the bar just
  processed, so it fills at the open of the next bar and nowhere else.
\<close>

theorem replay_entry_limits:
  assumes "env_ok env" and "rfold (bar_step env bs) (start_state out) [0..<n] = Inr st"
  shows "int (length (st_lots st)) \<le> entry_limit env
    \<and> (\<forall>l \<in> set (st_lots st). lot_entry_bar l < n)
    \<and> (\<forall>sb en cid. st_pending st = Some (sb, en, cid) \<longrightarrow> sb + 1 = n \<and> int en < entry_limit env)"
proof -
  obtain new where "bt_inv env out n new st" using replay_prefix_inv [OF assms(2,1)] by blast
  then show ?thesis by (auto simp: bt_inv_def filled_entries_def split: if_splits)
qed

theorem replay_entry_limits_witness:
  "\<exists>st. rfold (bar_step (example_env NSE) [example_bar 0 100 100 True, example_bar 1 100 100 False])
      (start_state fresh_output) [0..<1] = Inr st \<and> int (length (st_lots st)) \<le> 10"
proof -
  obtain st where st: "rfold (bar_step (example_env NSE) [example_bar 0 100 100 True, example_bar 1 100 100 False])
      (start_state fresh_output) [0..<1] = Inr st"
    using example_prefix [of NSE] by (auto simp: is_ok_iff)
  from replay_entry_limits [OF example_env_ok st] st show ?thesis
    by (auto simp: example_env_def entry_limit_def example_settings_def default_settings_def)
qed

text \<open>
  Off the share market the inventory only grows: exits never consume it, so after every bar the
  slices of the bar before are still there, including those of lots already closed. The open
  capital the ladder's limit is compared with is therefore the capital of every lot ever entered.
\<close>

theorem crypto_inventory_never_shrinks:
  assumes "be_market env = CRYPTO" and "bar_step env bs st now = Inr st'"
  shows "\<exists>added. st_stock st' = st_stock st @ added \<and> length added \<le> 1"
proof -
  from assms(2) obtain st1 st2 where f: "fill_pending env bs now st = Inr st1"
    and x: "exit_lots env bs now st1 = Inr st2" and st': "st' = place_order env bs now (reset_cycle st2)"
    by (auto simp: bar_step_def rbind_eq_Inr)
  have "st_stock st' = st_stock st1"
    using exit_lots_parts(2) [OF x] assms(1) st' place_order_parts(3) by (simp add: reset_cycle_def)
  with f show ?thesis
    by (auto simp: fill_pending_def rbind_eq_Inr fifo_add_def split: option.splits prod.splits if_splits)
qed

theorem crypto_inventory_never_shrinks_witness:
  "\<exists>st' added. bar_step (example_env CRYPTO) example_bars (start_state fresh_output) 0 = Inr st' \<and> st_stock st' = added"
proof -
  obtain st' where st': "bar_step (example_env CRYPTO) example_bars (start_state fresh_output) 0 = Inr st'"
    by (simp add: replay_defs example_bars_def)
  have "be_market (example_env CRYPTO) = CRYPTO" by (simp add: example_env_def)
  from crypto_inventory_never_shrinks [OF this st'] st' show ?thesis by (auto simp: start_state_def)
qed

end
