(* ===== verification/Backtest_Run.thy ===== *)
theory Backtest_Run
  imports Strategies Backtest_Engine
begin

text \<open>
  \<open>backend/backtest/engine.py\<close>: from the candles of a symbol to the bars of the replay
  (\<open>_run_symbol\<close> up to its loop, \<open>_project_daily_signals_onto_intraday\<close>), and the run over all
  symbols of a request with its failure and cancellation paths (\<open>BacktestEngine.run\<close>).

  The candle source and the order pandas gives an index are parameters; a plug-in strategy is the
  record of \<open>Strategies\<close>. A failure of the writer itself is input/output and not modelled.
\<close>

section \<open>From decisions to bars\<close>

definition day_start :: "market \<Rightarrow> day \<Rightarrow> timestamp" where
  "day_start m d = d * DAY_US - zone_offset_us m"

definition day_end :: "market \<Rightarrow> day \<Rightarrow> timestamp" where
  "day_end m d = day_start m d + DAY_US - 1"

definition plain_bar :: "timestamp \<Rightarrow> decision_row \<Rightarrow> bar" where
  "plain_bar start r = (let c = dr_candle r in
     \<lparr>b_at = ca_at c, b_open = ca_open c, b_high = ca_high c, b_low = ca_low c, b_close = ca_close c,
      b_buy = (dr_decision r = BUY), b_signal_at = Some (ca_at c), b_signal_price = dr_signal_price r,
      b_target = dr_target_price r, b_stop = dr_stop_price r, b_in_window = (ca_at c \<ge> start)\<rparr>)"

text \<open>The last completed five-minute candle of a session.\<close>

definition final_stamp :: "market \<Rightarrow> candle list \<Rightarrow> day \<Rightarrow> timestamp option" where
  "final_stamp m intraday d =
     (case filter (\<lambda>c. local_date m (ca_at c) = d) intraday of [] \<Rightarrow> None | cs \<Rightarrow> Some (ca_at (last cs)))"

definition session_signals :: "market \<Rightarrow> candle list \<Rightarrow> decision_row list \<Rightarrow> candle \<Rightarrow> decision_row list" where
  "session_signals m intraday daily c =
     filter (\<lambda>r. dr_decision r = BUY
        \<and> final_stamp m intraday (local_date m (ca_at (dr_candle r))) = Some (ca_at c)) daily"

text \<open>A later daily row for the same session overwrites an earlier one.\<close>

definition projected_bar :: "market \<Rightarrow> timestamp \<Rightarrow> candle list \<Rightarrow> decision_row list \<Rightarrow> candle \<Rightarrow> bar" where
  "projected_bar m start intraday daily c =
     (let none = \<lparr>b_at = ca_at c, b_open = ca_open c, b_high = ca_high c, b_low = ca_low c, b_close = ca_close c,
        b_buy = False, b_signal_at = None, b_signal_price = None, b_target = None, b_stop = None,
        b_in_window = (ca_at c \<ge> start)\<rparr>
      in case session_signals m intraday daily c of
           [] \<Rightarrow> none
         | rs \<Rightarrow> none\<lparr>b_buy := True, b_signal_at := Some (ca_at (dr_candle (last rs))),
             b_signal_price := dr_signal_price (last rs), b_target := dr_target_price (last rs),
             b_stop := dr_stop_price (last rs)\<rparr>)"

definition project_daily_signals ::
  "market \<Rightarrow> timestamp \<Rightarrow> candle list \<Rightarrow> decision_row list \<Rightarrow> bar list" where
  "project_daily_signals m start intraday daily = map (projected_bar m start intraday daily) intraday"

definition load_candles ::
  "(candle list \<Rightarrow> candle list) \<Rightarrow> candle_source \<Rightarrow> string \<Rightarrow> string \<Rightarrow> timestamp \<Rightarrow> timestamp \<Rightarrow> int \<Rightarrow> candle list res" where
  "load_candles sort_index source symbol timeframe start end_at warmup =
     rbind (source symbol timeframe start end_at warmup) (\<lambda>(columns, rows). normalize_candles sort_index columns rows)"

text \<open>The bars a symbol is replayed on, and the timeframe they have.\<close>

definition symbol_bars ::
  "(candle list \<Rightarrow> candle list) \<Rightarrow> candle_source \<Rightarrow> market_spec \<Rightarrow> strategy \<Rightarrow> backtest_request \<Rightarrow> config \<Rightarrow> string
     \<Rightarrow> (string \<times> bar list) res" where
  "symbol_bars sort_index source spec s request config symbol =
     (let m = ms_market spec; start = day_start m (br_start_date request); end_at = day_end m (br_end_date request) in
      rbind (st_required_history s config) (\<lambda>warmup.
      rbind (load_candles sort_index source symbol (br_timeframe request) start end_at warmup) (\<lambda>data.
      rbind (mk_market_context (market_name m) symbol (br_timeframe request)) (\<lambda>ctx.
      rbind (decision_frame s data ctx config) (\<lambda>rows.
        let frame = filter (\<lambda>r. ca_at (dr_candle r) \<le> end_at) rows in
        if rows = [] then Inr (br_timeframe request, [])
        else if m = NSE \<and> br_timeframe request = ''1d'' then
          rbind (load_candles sort_index source symbol ''5m'' start end_at 0) (\<lambda>intraday.
            Inr (''5m'', project_daily_signals m start intraday frame))
        else Inr (br_timeframe request, map (plain_bar start) frame))))))"

definition run_symbol ::
  "(candle list \<Rightarrow> candle list) \<Rightarrow> candle_source \<Rightarrow> market_spec \<Rightarrow> strategy \<Rightarrow> backtest_request \<Rightarrow> config
     \<Rightarrow> (string \<Rightarrow> nat \<Rightarrow> bool) \<Rightarrow> string \<Rightarrow> bt_output \<Rightarrow> bt_output bt_res" where
  "run_symbol sort_index source spec s request config cancelled symbol out =
     rbind (with_output out (ladder_from_config config)) (\<lambda>ladder.
     rbind (with_output out (spec_minutes spec (br_timeframe request))) (\<lambda>strategy_minutes.
     rbind (with_output out (symbol_bars sort_index source spec s request config symbol)) (\<lambda>(timeframe, bs).
     if bs = [] then Inr out
     else rbind (with_output out (spec_minutes spec timeframe)) (\<lambda>bar_minutes.
       replay \<lparr>be_run_id = br_run_id request, be_market = ms_market spec, be_symbol = symbol,
           be_fees = settings_fee_model (br_execution request) (ms_fees spec), be_execution = br_execution request,
           be_config = config, be_ladder = ladder, be_bar_minutes = bar_minutes,
           be_expiry_multiplier = max 1 \<lceil>of_int strategy_minutes / of_int bar_minutes :: real\<rceil>,
           be_cancelled = cancelled symbol\<rparr> bs out))))"

section \<open>The run\<close>

datatype run_status = QUEUED | RUNNING | COMPLETE | CANCELLED | FAILED | INTERRUPTED

record run_state =
  rn_output :: bt_output
  rn_failed :: "(string \<times> py_error) list"
  rn_progress :: "(nat \<times> string option \<times> nat) list"

definition count_processed :: "bt_output \<Rightarrow> bt_output" where
  "count_processed out = out\<lparr>out_metrics := (out_metrics out)\<lparr>symbols_processed := symbols_processed (out_metrics out) + 1\<rparr>\<rparr>"

definition count_failed :: "bt_output \<Rightarrow> bt_output" where
  "count_failed out = out\<lparr>out_metrics := (out_metrics out)\<lparr>symbols_failed := symbols_failed (out_metrics out) + 1\<rparr>\<rparr>"

definition report_progress :: "nat \<Rightarrow> string option \<Rightarrow> run_state \<Rightarrow> run_state" where
  "report_progress completed current st =
     st\<lparr>rn_progress := rn_progress st @ [(completed, current, length (rn_failed st))]\<rparr>"

definition is_cancelled :: "py_error \<Rightarrow> bool" where
  "is_cancelled e = (case e of BacktestCancelled _ \<Rightarrow> True | _ \<Rightarrow> False)"

text \<open>
  The loop over the symbols: \<open>runner\<close> is \<open>run_symbol\<close>, \<open>cancelled i\<close> the answer of
  \<open>_check_cancel\<close> before symbol \<open>i\<close>.
\<close>

fun run_symbols ::
  "(string \<Rightarrow> bt_output \<Rightarrow> bt_output bt_res) \<Rightarrow> (nat \<Rightarrow> bool) \<Rightarrow> nat \<Rightarrow> string list \<Rightarrow> run_state \<Rightarrow> run_status \<times> run_state" where
  "run_symbols runner cancelled i [] st = (COMPLETE, report_progress i None st)"
| "run_symbols runner cancelled i (symbol # symbols) st =
     (if cancelled i then (CANCELLED, st)
      else let st1 = report_progress i (Some symbol) st in
        case runner symbol (rn_output st1) of
          Inr out \<Rightarrow> run_symbols runner cancelled (i + 1) symbols (st1\<lparr>rn_output := count_processed out\<rparr>)
        | Inl (e, out) \<Rightarrow>
            if is_cancelled e then (CANCELLED, st1\<lparr>rn_output := out\<rparr>)
            else run_symbols runner cancelled (i + 1) symbols
              (st1\<lparr>rn_output := count_failed out, rn_failed := rn_failed st1 @ [(symbol, e)]\<rparr>))"

definition run_start :: run_state where
  "run_start = \<lparr>rn_output = fresh_output, rn_failed = [], rn_progress = []\<rparr>"

record run_result =
  rr_status :: run_status
  rr_summary :: run_summary
  rr_failed :: "(string \<times> py_error) list"
  rr_written :: "trade_row list list"

definition engine_run ::
  "(config \<Rightarrow> config res) \<Rightarrow> strategy \<Rightarrow> (backtest_request \<Rightarrow> config \<Rightarrow> string \<Rightarrow> bt_output \<Rightarrow> bt_output bt_res)
     \<Rightarrow> (nat \<Rightarrow> bool) \<Rightarrow> backtest_request \<Rightarrow> run_result res" where
  "engine_run resolve s runner cancelled request =
     rbind (request_validate request) (\<lambda>_.
     rbind (resolve (br_configuration request)) (\<lambda>config.
     rbind (st_validate_config s config) (\<lambda>_.
       case run_symbols (runner request config) cancelled 0 (br_symbols request) run_start of
         (status, st) \<Rightarrow> Inr \<lparr>rr_status = status, rr_summary = metrics_public (out_metrics (rn_output st)),
           rr_failed = rn_failed st, rr_written = out_written (rn_output st)\<rparr>)))"

section \<open>What a symbol runner keeps\<close>

text \<open>
  The contract between the run and the replay of a symbol: the runner neither counts symbols nor
  drops what earlier symbols have written, whether it returns or raises.
\<close>

definition keeps_symbols :: "bt_output \<Rightarrow> bt_output \<Rightarrow> bool" where
  "keeps_symbols out out' \<longleftrightarrow>
     symbols_processed (out_metrics out') = symbols_processed (out_metrics out)
     \<and> symbols_failed (out_metrics out') = symbols_failed (out_metrics out)
     \<and> (\<exists>ws. out_written out' = out_written out @ ws)"

lemma keeps_symbols_refl [simp]: "keeps_symbols out out" by (simp add: keeps_symbols_def)

lemma keeps_symbols_trans: "keeps_symbols a b \<Longrightarrow> keeps_symbols b c \<Longrightarrow> keeps_symbols a c"
  by (auto simp: keeps_symbols_def)

lemma add_trade_symbols [simp]:
  "symbols_processed (add_trade m t) = symbols_processed m" "symbols_failed (add_trade m t) = symbols_failed m"
  by (simp_all add: add_trade_def add_row_costs_def add_result_def add_status_def Let_def split: trade_status.splits)

lemma emit_row_keeps [simp]: "keeps_symbols out (ex_output ex) \<Longrightarrow> keeps_symbols out (ex_output (emit_row env ex row))"
  by (auto simp: keeps_symbols_def emit_row_def Let_def)

locale symbol_runner =
  fixes runner :: "string \<Rightarrow> bt_output \<Rightarrow> bt_output bt_res"
  assumes returns_keeps: "runner symbol out = Inr out' \<Longrightarrow> keeps_symbols out out'"
    and raises_keeps: "runner symbol out = Inl (e, out') \<Longrightarrow> keeps_symbols out out'"
begin

lemma run_symbols_complete:
  assumes "run_symbols runner cancelled i symbols st = (COMPLETE, st')"
  shows "symbols_processed (out_metrics (rn_output st')) + symbols_failed (out_metrics (rn_output st'))
      = symbols_processed (out_metrics (rn_output st)) + symbols_failed (out_metrics (rn_output st)) + length symbols
    \<and> int (symbols_failed (out_metrics (rn_output st'))) - int (symbols_failed (out_metrics (rn_output st)))
      = int (length (rn_failed st')) - int (length (rn_failed st))
    \<and> last (rn_progress st') = (i + length symbols, None, length (rn_failed st'))"
  using assms
proof (induction symbols arbitrary: i st)
  case Nil
  then show ?case by (auto simp: report_progress_def)
next
  case (Cons symbol symbols)
  let ?st1 = "report_progress i (Some symbol) st"
  have out: "rn_output ?st1 = rn_output st" "rn_failed ?st1 = rn_failed st" by (simp_all add: report_progress_def)
  show ?case
  proof (cases "runner symbol (rn_output st)")
    case (Inr o2)
    with Cons.prems out have "run_symbols runner cancelled (i + 1) symbols (?st1\<lparr>rn_output := count_processed o2\<rparr>) = (COMPLETE, st')"
      by (auto simp: Let_def split: if_splits)
    from Cons.IH [OF this] returns_keeps [OF Inr] out show ?thesis
      by (auto simp: keeps_symbols_def count_processed_def)
  next
    case (Inl eo)
    obtain e o2 where eo: "eo = (e, o2)" by (cases eo)
    with Cons.prems out Inl have "run_symbols runner cancelled (i + 1) symbols
        (?st1\<lparr>rn_output := count_failed o2, rn_failed := rn_failed ?st1 @ [(symbol, e)]\<rparr>) = (COMPLETE, st')"
      by (auto simp: Let_def split: if_splits)
    from Cons.IH [OF this] raises_keeps [OF Inl [unfolded eo]] out show ?thesis
      by (auto simp: keeps_symbols_def count_failed_def)
  qed
qed

lemma run_symbols_keeps_written:
  assumes "run_symbols runner cancelled i symbols st = (status, st')"
  shows "\<exists>ws. out_written (rn_output st') = out_written (rn_output st) @ ws"
  using assms
proof (induction symbols arbitrary: i st)
  case Nil
  then show ?case by (auto simp: report_progress_def)
next
  case (Cons symbol symbols)
  let ?st1 = "report_progress i (Some symbol) st"
  have out: "rn_output ?st1 = rn_output st" "rn_failed ?st1 = rn_failed st" by (simp_all add: report_progress_def)
  show ?case
  proof (cases "cancelled i")
    case False
    show ?thesis
    proof (cases "runner symbol (rn_output st)")
      case (Inr o2)
      with Cons.prems out False have "run_symbols runner cancelled (i + 1) symbols (?st1\<lparr>rn_output := count_processed o2\<rparr>) = (status, st')"
        by (simp add: Let_def)
      from Cons.IH [OF this] returns_keeps [OF Inr] show ?thesis by (auto simp: keeps_symbols_def count_processed_def)
    next
      case (Inl eo)
      obtain e o2 where eo: "eo = (e, o2)" by (cases eo)
      note k = raises_keeps [OF Inl [unfolded eo]]
      show ?thesis
      proof (cases "is_cancelled e")
        case True
        with Cons.prems out False Inl eo k show ?thesis by (auto simp: keeps_symbols_def Let_def)
      next
        case no: False
        with Cons.prems out False Inl eo have "run_symbols runner cancelled (i + 1) symbols
            (?st1\<lparr>rn_output := count_failed o2, rn_failed := rn_failed ?st1 @ [(symbol, e)]\<rparr>) = (status, st')"
          by (simp add: Let_def)
        from Cons.IH [OF this] k show ?thesis by (auto simp: keeps_symbols_def count_failed_def)
      qed
    qed
  qed (use Cons.prems in auto)
qed

end

text \<open>The replay keeps the contract: each of its steps does, returning or raising.\<close>

definition keeps_output :: "('s \<Rightarrow> bt_output) \<Rightarrow> bt_output \<Rightarrow> 's bt_res \<Rightarrow> bool" where
  "keeps_output f out r \<longleftrightarrow> (case r of Inl (e, out') \<Rightarrow> keeps_symbols out out' | Inr s \<Rightarrow> keeps_symbols out (f s))"

lemma keeps_output_simps [simp]:
  "keeps_output f out (Inl (e, out')) = keeps_symbols out out'" "keeps_output f out (Inr s) = keeps_symbols out (f s)"
  by (simp_all add: keeps_output_def)

lemma keeps_output_bind:
  assumes "keeps_output f out m" and "\<And>s. m = Inr s \<Longrightarrow> keeps_output g (f s) (k s)"
  shows "keeps_output g out (rbind m k)"
proof (cases m)
  case (Inl eo)
  with assms(1) show ?thesis by (cases eo) simp
next
  case (Inr s)
  with assms have "keeps_symbols out (f s)" and "keeps_output g (f s) (k s)" by simp_all
  then show ?thesis using Inr keeps_symbols_trans [of out "f s"]
    by (auto simp: keeps_output_def split: sum.splits)
qed

lemma keeps_output_pure:
  "(\<And>x. m = Inr x \<Longrightarrow> keeps_output g out (k x)) \<Longrightarrow> keeps_output g out (rbind (with_output out m) k)"
  by (cases m) simp_all

lemma keeps_output_rfold:
  assumes "\<And>s x. keeps_output f (f s) (step s x)"
  shows "keeps_output f (f s) (rfold step s xs)"
proof (induction xs arbitrary: s)
  case (Cons x xs)
  then show ?case using assms by (auto intro: keeps_output_bind)
qed simp

lemma exit_lot_keeps: "keeps_output ex_output (ex_output ex) (exit_lot env now b ex l)"
  unfolding exit_lot_def Let_def
  by (auto intro!: keeps_output_pure split: option.splits)

lemma exit_lots_keeps: "keeps_output st_output (st_output st) (exit_lots env bs now st)"
proof -
  let ?ex = "\<lparr>ex_output = st_output st, ex_batch = st_batch st, ex_stock = st_stock st, ex_still_open = [],
          ex_nse_exit = False, ex_changed = False\<rparr>"
  have fold: "keeps_output ex_output (ex_output ?ex) (rfold (exit_lot env now (bs ! now)) ?ex (st_lots st))"
    by (rule keeps_output_rfold) (rule exit_lot_keeps)
  show ?thesis unfolding exit_lots_def
    by (rule keeps_output_bind [OF fold [simplified]]) (auto intro!: keeps_output_pure)
qed

lemma fill_pending_keeps: "keeps_output st_output (st_output st) (fill_pending env bs now st)"
  unfolding fill_pending_def by (auto intro!: keeps_output_pure split: option.splits)

lemma place_order_keeps: "keeps_symbols (st_output st) (st_output (place_order env bs now st))"
  by (auto simp: place_order_def order_at_def count_signal_def add_signal_def keeps_symbols_def Let_def
      split: option.splits list.splits)

lemma bar_step_keeps: "keeps_output st_output (st_output st) (bar_step env bs st now)"
proof -
  have "keeps_output st_output (st_output s2) (Inr (place_order env bs now (reset_cycle s2)))" for s2
  proof -
    have "st_output (reset_cycle s2) = st_output s2" by (simp add: reset_cycle_def)
    with place_order_keeps [of "reset_cycle s2" env bs now] show ?thesis by simp
  qed
  then show ?thesis unfolding bar_step_def
    by (cases "now mod CANCEL_CHECK_BARS = 0 \<and> be_cancelled env now")
      (auto intro!: keeps_output_bind [OF fill_pending_keeps] keeps_output_bind [OF exit_lots_keeps])
qed

lemma add_open_row_keeps: "keeps_output st_output (st_output st) (add_open_row env bs st lf)"
  unfolding add_open_row_def by (auto intro!: keeps_output_pure simp: keeps_symbols_def)

lemma finish_symbol_keeps: "keeps_output (\<lambda>x. x) (st_output st) (finish_symbol env bs st)"
  unfolding finish_symbol_def
  by (rule keeps_output_pure, rule keeps_output_bind [OF keeps_output_rfold [OF add_open_row_keeps]])
    (auto simp: flush_batch_def keeps_symbols_def)

lemma replay_keeps: "keeps_output (\<lambda>x. x) out (replay env bs out)"
proof -
  have "keeps_output st_output (st_output (start_state out)) (rfold (bar_step env bs) (start_state out) [0..<length bs])"
    by (rule keeps_output_rfold) (rule bar_step_keeps)
  then show ?thesis unfolding replay_def
    by (intro keeps_output_bind [OF _ finish_symbol_keeps]) (simp add: start_state_def)
qed

lemma run_symbol_keeps:
  "keeps_output (\<lambda>x. x) out (run_symbol sort_index source spec s request config cancelled symbol out)"
  unfolding run_symbol_def by (auto intro!: keeps_output_pure replay_keeps)

interpretation engine: symbol_runner "run_symbol sort_index source spec s request config cancelled"
  for sort_index source spec s request config cancelled
proof
  fix symbol out out' e
  show "run_symbol sort_index source spec s request config cancelled symbol out = Inr out' \<Longrightarrow> keeps_symbols out out'"
    and "run_symbol sort_index source spec s request config cancelled symbol out = Inl (e, out') \<Longrightarrow> keeps_symbols out out'"
    using run_symbol_keeps [of out sort_index source spec s request config cancelled symbol] by auto
qed

section \<open>Accounted runs\<close>

text \<open>What the trades alone contribute to the metrics.\<close>

definition trade_part :: "metrics \<Rightarrow> metrics" where
  "trade_part m = m\<lparr>total_signals := 0, symbols_processed := 0, symbols_failed := 0\<rparr>"

definition accounted :: "bt_output \<Rightarrow> bt_output \<Rightarrow> bool" where
  "accounted out out' \<longleftrightarrow> (\<exists>rows. concat (out_written out') = concat (out_written out) @ rows
     \<and> trade_part (out_metrics out') = foldl add_trade (trade_part (out_metrics out)) rows)"

lemma trade_part_add_trade: "trade_part (add_trade m t) = add_trade (trade_part m) t"
  by (simp add: trade_part_def add_trade_def add_row_costs_def add_result_def add_status_def Let_def
      split: trade_status.splits)

lemma trade_part_foldl: "trade_part (foldl add_trade m rows) = foldl add_trade (trade_part m) rows"
  by (induction rows arbitrary: m) (simp_all add: trade_part_add_trade)

lemma trade_part_strip: "trade_part (strip_signals m) = trade_part m"
  by (simp add: trade_part_def strip_signals_def)

lemma accounted_trans: "accounted a b \<Longrightarrow> accounted b c \<Longrightarrow> accounted a c"
  by (auto simp: accounted_def)

lemma failed_grow:
  assumes "run_symbols runner cancelled i symbols st = (status, st')"
  shows "\<exists>more. rn_failed st' = rn_failed st @ more"
  using assms
proof (induction symbols arbitrary: i st)
  case (Cons symbol symbols)
  then show ?case
    by (fastforce simp: report_progress_def Let_def split: if_splits sum.splits prod.splits)
qed (auto simp: report_progress_def)

locale accounted_runner = symbol_runner +
  assumes returns_accounted: "runner symbol out = Inr out' \<Longrightarrow> accounted out out'"
begin

lemma run_symbols_accounted:
  assumes "run_symbols runner cancelled i symbols st = (COMPLETE, st')" and "rn_failed st' = []"
  shows "accounted (rn_output st) (rn_output st')"
  using assms(1)
proof (induction symbols arbitrary: i st)
  case Nil
  then show ?case by (auto simp: report_progress_def accounted_def)
next
  case (Cons symbol symbols)
  let ?st1 = "report_progress i (Some symbol) st"
  have out: "rn_output ?st1 = rn_output st" "rn_failed ?st1 = rn_failed st" by (simp_all add: report_progress_def)
  show ?case
  proof (cases "runner symbol (rn_output st)")
    case (Inr o2)
    with Cons.prems out have "run_symbols runner cancelled (i + 1) symbols (?st1\<lparr>rn_output := count_processed o2\<rparr>) = (COMPLETE, st')"
      by (auto simp: Let_def split: if_splits)
    from Cons.IH [OF this] have "accounted (count_processed o2) (rn_output st')" by simp
    moreover have "accounted (rn_output st) (count_processed o2)"
      using returns_accounted [OF Inr] by (simp add: accounted_def count_processed_def trade_part_def)
    ultimately show ?thesis by (blast intro: accounted_trans)
  next
    case (Inl eo)
    obtain e o2 where eo: "eo = (e, o2)" by (cases eo)
    with Cons.prems out Inl have "run_symbols runner cancelled (i + 1) symbols
        (?st1\<lparr>rn_output := count_failed o2, rn_failed := rn_failed ?st1 @ [(symbol, e)]\<rparr>) = (COMPLETE, st')"
      by (auto simp: Let_def split: if_splits)
    from failed_grow [OF this] assms(2) show ?thesis by auto
  qed
qed

end

lemma replay_accounted: "env_ok env \<Longrightarrow> replay env bs out = Inr out' \<Longrightarrow> accounted out out'"
proof -
  assume ok: "env_ok env" and r: "replay env bs out = Inr out'"
  from replay_output [OF r ok] obtain rows where "concat (out_written out') = concat (out_written out) @ rows"
    and "strip_signals (out_metrics out') = foldl add_trade (strip_signals (out_metrics out)) rows"
    by (auto split: if_splits)
  then show ?thesis unfolding accounted_def
    by (intro exI [of _ rows]) (metis trade_part_foldl trade_part_strip)
qed

definition request_ok :: "market_spec \<Rightarrow> backtest_request \<Rightarrow> bool" where
  "request_ok spec request \<longleftrightarrow> settings_ok (br_execution request)
     \<and> (ms_market spec = NSE \<longrightarrow> xs_whole_units (br_execution request))"

lemma run_symbol_accounted:
  assumes "request_ok spec request"
  shows "accounted_runner (run_symbol sort_index source spec s request config cancelled)"
proof (unfold_locales)
  fix symbol out out'
  assume r: "run_symbol sort_index source spec s request config cancelled symbol out = Inr out'"
  show "accounted out out'"
  proof (cases "out' = out")
    case False
    with r obtain env bs where env: "replay env bs out = Inr out'" "be_execution env = br_execution request"
      "be_market env = ms_market spec" "ladder_from_config config = Inr (be_ladder env)"
      by (fastforce simp: run_symbol_def rbind_eq_Inr split: if_splits)
    then have "env_ok env" using assms ladder_from_config_ok by (auto simp: env_ok_def request_ok_def)
    from replay_accounted [OF this env(1)] show ?thesis .
  qed (auto simp: accounted_def)
qed

section \<open>The projection of daily signals\<close>

lemma final_stamp_last:
  assumes "final_stamp m intraday d = Some t"
  shows "\<exists>c \<in> set intraday. ca_at c = t \<and> local_date m t = d"
    and "sorted (map ca_at intraday) \<Longrightarrow> \<forall>c \<in> set intraday. local_date m (ca_at c) = d \<longrightarrow> ca_at c \<le> t"
proof -
  let ?cs = "filter (\<lambda>c. local_date m (ca_at c) = d) intraday"
  have ne: "?cs \<noteq> []" and t: "t = ca_at (last ?cs)"
    using assms by (auto simp: final_stamp_def split: list.splits)
  have "last ?cs \<in> set ?cs" using ne by (rule last_in_set)
  with t show "\<exists>c \<in> set intraday. ca_at c = t \<and> local_date m t = d" by auto
  assume "sorted (map ca_at intraday)"
  then have "sorted (map ca_at ?cs)" by (rule sorted_filter)
  moreover have "sorted (map ca_at xs) \<Longrightarrow> c \<in> set xs \<Longrightarrow> ca_at c \<le> ca_at (last xs)" for xs :: "candle list" and c
    by (induction xs) auto
  ultimately have "c \<in> set ?cs \<Longrightarrow> ca_at c \<le> t" for c using t by blast
  then show "\<forall>c \<in> set intraday. local_date m (ca_at c) = d \<longrightarrow> ca_at c \<le> t" by simp
qed

lemma final_stamp_exists:
  "c \<in> set intraday \<Longrightarrow> local_date m (ca_at c) = d \<Longrightarrow> \<exists>t. final_stamp m intraday d = Some t"
proof -
  assume "c \<in> set intraday" and "local_date m (ca_at c) = d"
  then have "filter (\<lambda>c. local_date m (ca_at c) = d) intraday \<noteq> []" by (auto simp: filter_empty_conv)
  then show ?thesis by (auto simp: final_stamp_def split: list.splits)
qed

lemma projected_bar_parts [simp]:
  "b_at (projected_bar m start intraday daily c) = ca_at c"
  "b_buy (projected_bar m start intraday daily c) \<longleftrightarrow> session_signals m intraday daily c \<noteq> []"
  "b_in_window (projected_bar m start intraday daily c) \<longleftrightarrow> start \<le> ca_at c"
  "b_open (projected_bar m start intraday daily c) = ca_open c"
  by (auto simp: projected_bar_def Let_def split: list.splits)

lemma engine_run_cases:
  assumes "engine_run resolve s runner cancelled request = Inr r"
  obtains config st where "request_validate request = Inr request"
    and "run_symbols (runner request config) cancelled 0 (br_symbols request) run_start = (rr_status r, st)"
    and "rr_summary r = metrics_public (out_metrics (rn_output st))" and "rr_failed r = rn_failed st"
    and "rr_written r = out_written (rn_output st)"
proof -
  from assms obtain config where "is_ok (request_validate request)"
    and r: "(case run_symbols (runner request config) cancelled 0 (br_symbols request) run_start of
         (status, st) \<Rightarrow> Inr \<lparr>rr_status = status, rr_summary = metrics_public (out_metrics (rn_output st)),
           rr_failed = rn_failed st, rr_written = out_written (rn_output st)\<rparr>) = (Inr r :: run_result res)"
    by (auto simp: engine_run_def rbind_eq_Inr)
  then have v: "request_validate request = Inr request"
    by (auto simp: request_validate_def is_ok_iff rbind_eq_Inr split: if_splits)
  obtain status st where "run_symbols (runner request config) cancelled 0 (br_symbols request) run_start = (status, st)"
    by fastforce
  with r v show thesis by (intro that [of config st]) auto
qed

section \<open>Properties\<close>

text \<open>
  A completed run accounts for its symbols: the summary counts every symbol of the request as
  processed or failed, and the failed count is the length of the list of failures it reports.
\<close>

theorem run_complete_counts:
  assumes "engine_run resolve s (\<lambda>request config. run_symbol sort_index source spec s request config bar_cancelled)
      cancelled request = Inr r" and "rr_status r = COMPLETE"
  shows "rsm_symbols_processed (rr_summary r) + rsm_symbols_failed (rr_summary r) = length (br_symbols request)
    \<and> rsm_symbols_failed (rr_summary r) = length (rr_failed r)"
proof -
  from assms(1) obtain config st where
    run: "run_symbols (run_symbol sort_index source spec s request config bar_cancelled) cancelled 0
      (br_symbols request) run_start = (COMPLETE, st)"
    and r: "rr_summary r = metrics_public (out_metrics (rn_output st))" "rr_failed r = rn_failed st"
    by (rule engine_run_cases) (use assms(2) in simp)
  from engine.run_symbols_complete [OF run] r show ?thesis
    by (auto simp: metrics_public_def run_start_def fresh_output_def new_metrics_def)
qed

definition example_request :: backtest_request where
  "example_request = \<lparr>br_run_id = ''r'', br_market = ''NSE'', br_strategy_id = ''x'', br_symbols = [''A'', ''B''],
     br_timeframe = ''5m'', br_start_date = 0, br_end_date = 1, br_configuration = [], br_execution = default_settings\<rparr>"

lemma default_settings_ok: "settings_validate default_settings = Inr default_settings"
  by (simp add: settings_validate_def default_settings_def SIZING_REDUCTIONS_def is_integer_def)

definition no_candles :: candle_source where
  "no_candles symbol timeframe start end_at warmup = Inr (CANDLE_COLUMNS, [])"

lemma example_run_symbol:
  "run_symbol id no_candles NSE_SPEC example_strategy example_request [] (\<lambda>_ _. False) (x # xs) out
     = (if py_strip (x # xs) = [] then Inl (ValueError ''MarketContext requires a symbol'', out) else Inr out)"
  by (simp add: run_symbol_def ladder_from_config_def spec_minutes_def NSE_SPEC_def example_request_def
      symbol_bars_def example_strategy_def load_candles_def no_candles_def normalize_candles_def
      mk_market_context_def decision_frame_def CANDLE_COLUMNS_def DECISION_FRAME_COLUMNS_def List.map_filter_def Let_def)

lemma example_run:
  "\<exists>r. engine_run Inr example_strategy
      (\<lambda>request config. run_symbol id no_candles NSE_SPEC example_strategy request config (\<lambda>_ _. False))
      (\<lambda>_. False) example_request = Inr r
    \<and> rr_status r = COMPLETE \<and> rr_failed r = []"
proof -
  have v: "request_validate example_request = Inr example_request"
    by (simp add: request_validate_def example_request_def default_settings_ok)
  have "br_symbols example_request = [''A'', ''B'']" "br_configuration example_request = []"
    "st_validate_config example_strategy = (\<lambda>_. Inr ())"
    by (simp_all add: example_request_def example_strategy_def)
  then show ?thesis
    by (simp add: engine_run_def v example_run_symbol report_progress_def run_start_def py_strip_def is_space_def)
qed

theorem run_complete_counts_witness:
  "\<exists>r. engine_run Inr example_strategy
      (\<lambda>request config. run_symbol id no_candles NSE_SPEC example_strategy request config (\<lambda>_ _. False))
      (\<lambda>_. False) example_request = Inr r
    \<and> rsm_symbols_processed (rr_summary r) + rsm_symbols_failed (rr_summary r) = 2"
proof -
  obtain r where r: "engine_run Inr example_strategy
      (\<lambda>request config. run_symbol id no_candles NSE_SPEC example_strategy request config (\<lambda>_ _. False))
      (\<lambda>_. False) example_request = Inr r" and "rr_status r = COMPLETE" using example_run by blast
  from run_complete_counts [OF this] r show ?thesis by (auto simp: example_request_def)
qed

text \<open>
  When no symbol of a completed run failed, its summary is the one of the trade rows that were
  written: the trade metrics are those accumulated over exactly the written rows, in their order.
\<close>

theorem run_metrics_match_written_rows:
  assumes "engine_run resolve s (\<lambda>request config. run_symbol sort_index source spec s request config bar_cancelled)
      cancelled request = Inr r" and "rr_status r = COMPLETE" and "rr_failed r = []"
    and "ms_market spec = NSE \<longrightarrow> xs_whole_units (br_execution request)"
  shows "\<exists>m. rr_summary r = metrics_public m \<and> trade_part m = metrics_of (concat (rr_written r))"
proof -
  from assms(1) obtain config st where
    v: "request_validate request = Inr request" and
    run: "run_symbols (run_symbol sort_index source spec s request config bar_cancelled) cancelled 0
      (br_symbols request) run_start = (COMPLETE, st)" and nofail: "rn_failed st = []"
    and r: "rr_summary r = metrics_public (out_metrics (rn_output st))" "rr_written r = out_written (rn_output st)"
    by (rule engine_run_cases) (use assms(2,3) in simp)
  from v have "settings_ok (br_execution request)"
    by (auto simp: request_validate_def rbind_eq_Inr dest: settings_validate_cases split: if_splits)
  with assms(4) have "request_ok spec request" by (simp add: request_ok_def)
  from accounted_runner.run_symbols_accounted [OF run_symbol_accounted [OF this] run nofail] r
  show ?thesis
    by (auto simp: accounted_def run_start_def fresh_output_def metrics_of_def trade_part_def new_metrics_def)
qed

theorem run_metrics_match_written_rows_witness:
  "\<exists>r m. engine_run Inr example_strategy
      (\<lambda>request config. run_symbol id no_candles NSE_SPEC example_strategy request config (\<lambda>_ _. False))
      (\<lambda>_. False) example_request = Inr r
    \<and> rr_summary r = metrics_public m \<and> trade_part m = metrics_of (concat (rr_written r))"
proof -
  obtain r where r: "engine_run Inr example_strategy
      (\<lambda>request config. run_symbol id no_candles NSE_SPEC example_strategy request config (\<lambda>_ _. False))
      (\<lambda>_. False) example_request = Inr r" and "rr_status r = COMPLETE" "rr_failed r = []" using example_run by blast
  moreover have "xs_whole_units (br_execution example_request)"
    by (simp add: example_request_def default_settings_def)
  ultimately show ?thesis using run_metrics_match_written_rows [OF r] by blast
qed

definition failing_bars :: "bar list" where
  "failing_bars = [example_bar 0 100 100 True, example_bar 1 100 100 False, example_bar 2 100 120 True,
     (example_bar 3 100 100 False)\<lparr>b_open := 0\<rparr>]"


text \<open>
  Daily signals are executed causally. On the projected five-minute bars a bar carries a signal
  exactly if it is the last candle of a session for which the daily strategy decided to buy; every
  other candle of that session lies at or before it, so the order can fill only in a later session.
\<close>

theorem daily_signals_projected:
  assumes "sorted (map ca_at intraday)" and "c \<in> set intraday"
  shows "b_buy (projected_bar m start intraday daily c) \<longleftrightarrow>
    (\<exists>r \<in> set daily. dr_decision r = BUY \<and> local_date m (ca_at (dr_candle r)) = local_date m (ca_at c)
       \<and> (\<forall>c' \<in> set intraday. local_date m (ca_at c') = local_date m (ca_at c) \<longrightarrow> ca_at c' \<le> ca_at c))"
proof
  assume "b_buy (projected_bar m start intraday daily c)"
  then obtain r where r: "r \<in> set (session_signals m intraday daily c)" by (metis last_in_set projected_bar_parts(2))
  then have f: "final_stamp m intraday (local_date m (ca_at (dr_candle r))) = Some (ca_at c)"
    and "r \<in> set daily" "dr_decision r = BUY" by (auto simp: session_signals_def)
  with final_stamp_last(1) [OF f] final_stamp_last(2) [OF f assms(1)]
  show "\<exists>r \<in> set daily. dr_decision r = BUY \<and> local_date m (ca_at (dr_candle r)) = local_date m (ca_at c)
       \<and> (\<forall>c' \<in> set intraday. local_date m (ca_at c') = local_date m (ca_at c) \<longrightarrow> ca_at c' \<le> ca_at c)" by auto
next
  assume "\<exists>r \<in> set daily. dr_decision r = BUY \<and> local_date m (ca_at (dr_candle r)) = local_date m (ca_at c)
       \<and> (\<forall>c' \<in> set intraday. local_date m (ca_at c') = local_date m (ca_at c) \<longrightarrow> ca_at c' \<le> ca_at c)"
  then obtain r where r: "r \<in> set daily" "dr_decision r = BUY"
    "local_date m (ca_at (dr_candle r)) = local_date m (ca_at c)"
    and le: "\<forall>c' \<in> set intraday. local_date m (ca_at c') = local_date m (ca_at c) \<longrightarrow> ca_at c' \<le> ca_at c" by blast
  obtain t where t: "final_stamp m intraday (local_date m (ca_at c)) = Some t"
    using final_stamp_exists [OF assms(2)] by blast
  have "t = ca_at c"
    using final_stamp_last(1) [OF t] final_stamp_last(2) [OF t assms(1)] le assms(2) by (auto intro: antisym)
  with r t have "r \<in> set (session_signals m intraday daily c)" by (simp add: session_signals_def)
  then show "b_buy (projected_bar m start intraday daily c)" by auto
qed

theorem daily_signals_projected_witness:
  "b_buy (projected_bar NSE 0 [example_candle 0 1, example_candle 5 2]
     [\<lparr>dr_candle = example_candle 0 2, dr_decision = BUY, dr_signal_price = Some 2, dr_target_price = None,
       dr_stop_price = None\<rparr>] (example_candle 5 2))"
  using daily_signals_projected [of "[example_candle 0 1, example_candle 5 2]" "example_candle 5 2" NSE 0
      "[\<lparr>dr_candle = example_candle 0 2, dr_decision = BUY, dr_signal_price = Some 2, dr_target_price = None,
       dr_stop_price = None\<rparr>]"]
  by (simp add: example_candle_def local_date_def DAY_US_def)

end
