(* ===== verification/Backtest_Jobs.thy ===== *)
theory Backtest_Jobs
  imports Backtest_Run
begin

text \<open>
  \<open>backend/backtest/jobs.py\<close>: the bounded background queue of backtest runs, and the run table of
  \<open>BacktestRunRepository\<close> (\<open>backend/data/repositories.py\<close>) it keeps in step.

  Every section the source guards with its lock is one atomic operation on \<open>runner_state\<close>; the
  step relation \<open>job_step\<close> interleaves them in any order, the way request handlers and worker
  threads do. A reservation object is an entry of \<open>js_reservations\<close>. The thread pool is a
  parameter only in that it may have been shut down, when its \<open>submit\<close> raises.
\<close>

section \<open>The run table\<close>

record run_row =
  rw_status :: run_status
  rw_cancel_requested :: bool
  rw_symbols_total :: nat
  rw_symbols_completed :: nat
  rw_current_symbol :: "string option"
  rw_metrics :: "run_summary option"
  rw_error :: "string option"

type_synonym run_table = "string \<rightharpoonup> run_row"

definition run_create :: "run_table \<Rightarrow> string \<Rightarrow> nat \<Rightarrow> run_table" where
  "run_create t run_id symbols_total = t(run_id \<mapsto> \<lparr>rw_status = QUEUED, rw_cancel_requested = False,
     rw_symbols_total = symbols_total, rw_symbols_completed = 0, rw_current_symbol = None,
     rw_metrics = None, rw_error = None\<rparr>)"

definition run_get :: "run_table \<Rightarrow> string \<Rightarrow> run_row res" where
  "run_get t run_id = (case t run_id of None \<Rightarrow> Inl (KeyError run_id) | Some row \<Rightarrow> Inr row)"

text \<open>An \<open>UPDATE ... WHERE run_id = x AND p\<close>: a row that is missing or fails \<open>p\<close> stays.\<close>

definition run_update :: "run_table \<Rightarrow> string \<Rightarrow> (run_row \<Rightarrow> bool) \<Rightarrow> (run_row \<Rightarrow> run_row) \<Rightarrow> run_table" where
  "run_update t run_id p f =
     (case t run_id of None \<Rightarrow> t | Some row \<Rightarrow> if p row then t(run_id \<mapsto> f row) else t)"

definition mark_started :: "run_table \<Rightarrow> string \<Rightarrow> run_table" where
  "mark_started t run_id = run_update t run_id (\<lambda>r. rw_status r = QUEUED) (\<lambda>r. r\<lparr>rw_status := RUNNING\<rparr>)"

definition update_progress :: "run_table \<Rightarrow> string \<Rightarrow> nat \<Rightarrow> string option \<Rightarrow> run_table" where
  "update_progress t run_id completed current =
     run_update t run_id (\<lambda>_. True) (\<lambda>r. r\<lparr>rw_symbols_completed := completed, rw_current_symbol := current\<rparr>)"

definition request_cancel :: "run_table \<Rightarrow> string \<Rightarrow> (run_row \<times> run_table) res" where
  "request_cancel t run_id =
     (let t' = run_update t run_id (\<lambda>r. rw_status r \<in> {QUEUED, RUNNING}) (\<lambda>r. r\<lparr>rw_cancel_requested := True\<rparr>)
      in rbind (run_get t' run_id) (\<lambda>row. Inr (row, t')))"

definition cancel_requested :: "run_table \<Rightarrow> string \<Rightarrow> bool" where
  "cancel_requested t run_id = (case t run_id of None \<Rightarrow> False | Some row \<Rightarrow> rw_cancel_requested row)"

definition TERMINAL_RUN_STATUSES :: "run_status set" where
  "TERMINAL_RUN_STATUSES = {COMPLETE, FAILED, CANCELLED, INTERRUPTED}"

definition run_finish ::
  "run_table \<Rightarrow> string \<Rightarrow> run_status \<Rightarrow> run_summary option \<Rightarrow> string option \<Rightarrow> (run_row \<times> run_table) res" where
  "run_finish t run_id status metrics error =
     (if status \<notin> TERMINAL_RUN_STATUSES then Inl (ValueError ''not a terminal run status'')
      else let t' = run_update t run_id (\<lambda>_. True)
             (\<lambda>r. r\<lparr>rw_status := status, rw_metrics := metrics, rw_error := error, rw_current_symbol := None\<rparr>)
           in rbind (run_get t' run_id) (\<lambda>row. Inr (row, t')))"

definition interrupt_stale :: "run_table \<Rightarrow> run_table" where
  "interrupt_stale t = (\<lambda>run_id. map_option (\<lambda>r.
     if rw_status r \<in> {QUEUED, RUNNING}
     then r\<lparr>rw_status := INTERRUPTED,
            rw_error := Some (case rw_error r of Some e \<Rightarrow> e | None \<Rightarrow> ''Interrupted by a service restart'')\<rparr>
     else r) (t run_id))"

section \<open>The bounded queue\<close>

record reservation =
  rv_count :: nat
  rv_submitted :: bool
  rv_released :: bool

record runner_state =
  js_max_pending :: nat
  js_reserved :: nat
  js_futures :: "string list"
  js_cancel_events :: "(string \<times> bool) list"
  js_reservations :: "reservation list"
  js_shut_down :: bool

text \<open>The constructor's checks; a dict's keys are distinct, so a repeated id keeps one entry.\<close>

definition new_runner :: "int \<Rightarrow> int \<Rightarrow> runner_state res" where
  "new_runner max_workers max_pending =
     (if max_workers < 1 then Inl (ValueError ''max_workers must be positive'')
      else if max_pending < max_workers then Inl (ValueError ''max_pending must be at least max_workers'')
      else Inr \<lparr>js_max_pending = nat max_pending, js_reserved = 0, js_futures = [], js_cancel_events = [],
        js_reservations = [], js_shut_down = False\<rparr>)"

definition pending_count :: "runner_state \<Rightarrow> nat" where
  "pending_count s = length (js_futures s) + js_reserved s"

definition reserve :: "runner_state \<Rightarrow> int \<Rightarrow> (nat \<times> runner_state) res" where
  "reserve s slots =
     (if slots < 1 then Inl (ValueError ''At least one backtest queue slot must be reserved'')
      else if int (pending_count s) + slots > int (js_max_pending s) then Inl (BacktestQueueFull (pending_count s))
      else Inr (length (js_reservations s),
        s\<lparr>js_reserved := js_reserved s + nat slots,
          js_reservations := js_reservations s @ [\<lparr>rv_count = nat slots, rv_submitted = False, rv_released = False\<rparr>]\<rparr>))"

definition add_key :: "'a \<Rightarrow> 'a list \<Rightarrow> 'a list" where
  "add_key x xs = (if x \<in> set xs then xs else xs @ [x])"

definition start_run :: "string \<Rightarrow> runner_state \<Rightarrow> runner_state" where
  "start_run run_id s =
     s\<lparr>js_futures := add_key run_id (js_futures s),
       js_cancel_events := AList.update run_id False (js_cancel_events s)\<rparr>"

text \<open>
  \<open>_submit_reserved\<close>. After a shutdown the pool's \<open>submit\<close> raises on the first request,
  when the slots have been taken off \<open>_reserved\<close> and its cancel event is already stored.
\<close>

definition submit_reserved :: "runner_state \<Rightarrow> string list \<Rightarrow> (py_error \<times> runner_state) + runner_state" where
  "submit_reserved s run_ids =
     (if js_reserved s < length run_ids then Inl (RuntimeError ''Backtest queue reservation was lost'', s)
      else let s1 = s\<lparr>js_reserved := js_reserved s - length run_ids\<rparr> in
        if js_shut_down s \<and> run_ids \<noteq> []
        then Inl (RuntimeError ''cannot schedule new futures after shutdown'',
          s1\<lparr>js_cancel_events := AList.update (hd run_ids) False (js_cancel_events s1)\<rparr>)
        else Inr (foldl (\<lambda>s r. start_run r s) s1 run_ids))"

definition reservation_submit :: "runner_state \<Rightarrow> nat \<Rightarrow> string list \<Rightarrow> (py_error \<times> runner_state) + runner_state" where
  "reservation_submit s r run_ids =
     (let rv = js_reservations s ! r in
      if rv_submitted rv \<or> rv_released rv
      then Inl (RuntimeError ''Backtest queue reservation is no longer active'', s)
      else if length run_ids \<noteq> rv_count rv
      then Inl (ValueError ''Reserved backtest slots does not match submitted requests'', s)
      else rbind (submit_reserved s run_ids) (\<lambda>s'.
        Inr (s'\<lparr>js_reservations := (js_reservations s')[r := rv\<lparr>rv_submitted := True\<rparr>]\<rparr>)))"

definition release_reservation :: "nat \<Rightarrow> runner_state \<Rightarrow> runner_state" where
  "release_reservation slots s = s\<lparr>js_reserved := js_reserved s - slots\<rparr>"

definition reservation_release :: "runner_state \<Rightarrow> nat \<Rightarrow> runner_state" where
  "reservation_release s r =
     (let rv = js_reservations s ! r in
      if \<not> rv_submitted rv \<and> \<not> rv_released rv
      then (release_reservation (rv_count rv) s)\<lparr>js_reservations := (js_reservations s)[r := rv\<lparr>rv_released := True\<rparr>]\<rparr>
      else s)"

text \<open>\<open>with self.reserve(n) as reservation: reservation.submit(requests)\<close>: the exit always releases.\<close>

definition submit_many :: "runner_state \<Rightarrow> string list \<Rightarrow> (py_error \<times> runner_state) + runner_state" where
  "submit_many s run_ids =
     (case reserve s (int (length run_ids)) of
        Inl e \<Rightarrow> Inl (e, s)
      | Inr (r, s1) \<Rightarrow>
          (case reservation_submit s1 r run_ids of
             Inl (e, s2) \<Rightarrow> Inl (e, reservation_release s2 r)
           | Inr s2 \<Rightarrow> Inr (reservation_release s2 r)))"

text \<open>The \<open>finally\<close> of \<open>_execute\<close>: the run leaves both dicts.\<close>

definition run_done :: "string \<Rightarrow> runner_state \<Rightarrow> runner_state" where
  "run_done run_id s =
     s\<lparr>js_futures := filter (\<lambda>x. x \<noteq> run_id) (js_futures s),
       js_cancel_events := filter (\<lambda>e. fst e \<noteq> run_id) (js_cancel_events s)\<rparr>"

definition set_event :: "string \<Rightarrow> runner_state \<Rightarrow> runner_state" where
  "set_event run_id s =
     s\<lparr>js_cancel_events := map (\<lambda>(k, v). (k, v \<or> k = run_id)) (js_cancel_events s)\<rparr>"

definition job_cancel :: "runner_state \<Rightarrow> run_table \<Rightarrow> string \<Rightarrow> (run_row \<times> runner_state \<times> run_table) res" where
  "job_cancel s t run_id =
     rbind (request_cancel t run_id) (\<lambda>(row, t'). Inr (row, set_event run_id s, t'))"

definition shutdown :: "runner_state \<Rightarrow> runner_state" where
  "shutdown s = s\<lparr>js_cancel_events := map (\<lambda>(k, v). (k, True)) (js_cancel_events s), js_shut_down := True\<rparr>"

text \<open>\<open>_execute_owned\<close>: a run cancelled while queued never starts the engine.\<close>

definition execute_owned :: "run_table \<Rightarrow> string \<Rightarrow> (run_table \<Rightarrow> run_table) \<Rightarrow> run_table res" where
  "execute_owned t run_id engine =
     (if cancel_requested t run_id then rbind (run_finish t run_id CANCELLED None None) (\<lambda>(row, t'). Inr t')
      else Inr (engine t))"

section \<open>Interleavings\<close>

inductive job_step :: "runner_state \<Rightarrow> runner_state \<Rightarrow> bool" where
  Reserve: "reserve s n = Inr (r, s') \<Longrightarrow> job_step s s'"
| Submit: "r < length (js_reservations s) \<Longrightarrow> reservation_submit s r run_ids = Inr s' \<Longrightarrow> job_step s s'"
| SubmitRaises: "r < length (js_reservations s) \<Longrightarrow> reservation_submit s r run_ids = Inl (e, s') \<Longrightarrow> job_step s s'"
| Release: "r < length (js_reservations s) \<Longrightarrow> job_step s (reservation_release s r)"
| Done: "job_step s (run_done run_id s)"
| Cancel: "job_step s (set_event run_id s)"
| Shutdown: "job_step s (shutdown s)"

inductive job_reachable :: "runner_state \<Rightarrow> bool" where
  Start: "new_runner w p = Inr s \<Longrightarrow> job_reachable s"
| Step: "job_reachable s \<Longrightarrow> job_step s s' \<Longrightarrow> job_reachable s'"

inductive_cases job_stepE: "job_step s s'"

definition is_active :: "reservation \<Rightarrow> bool" where
  "is_active rv \<longleftrightarrow> \<not> rv_submitted rv \<and> \<not> rv_released rv"

definition active_slots :: "reservation list \<Rightarrow> nat" where
  "active_slots rvs = sum_list (map (\<lambda>rv. if is_active rv then rv_count rv else 0) rvs)"

text \<open>The bound, and, before a shutdown, the reserved slots are those of the active reservations.\<close>

definition job_inv :: "runner_state \<Rightarrow> bool" where
  "job_inv s \<longleftrightarrow> pending_count s \<le> js_max_pending s \<and> distinct (js_futures s)
     \<and> (\<not> js_shut_down s \<longrightarrow> js_reserved s = active_slots (js_reservations s))"

lemma active_slots_simps [simp]:
  "active_slots [] = 0" "active_slots (rvs @ [rv]) = active_slots rvs + (if is_active rv then rv_count rv else 0)"
  by (simp_all add: active_slots_def)

lemma active_slots_update:
  assumes "r < length rvs" and "is_active (rvs ! r)" and "\<not> is_active rv"
  shows "active_slots rvs = active_slots (rvs[r := rv]) + rv_count (rvs ! r)"
proof -
  let ?f = "\<lambda>rv. if is_active rv then rv_count rv else 0"
  have split: "rvs = take r rvs @ rvs ! r # drop (Suc r) rvs" using assms(1) by (rule id_take_nth_drop)
  have upd: "rvs[r := rv] = take r rvs @ rv # drop (Suc r) rvs" using assms(1) by (rule upd_conv_take_nth_drop)
  have "active_slots rvs = active_slots (take r rvs) + rv_count (rvs ! r) + active_slots (drop (Suc r) rvs)"
    using assms(2) by (subst split) (simp add: active_slots_def)
  with assms(3) show ?thesis by (simp add: upd active_slots_def)
qed

lemma start_runs_parts:
  "length (js_futures (foldl (\<lambda>s r. start_run r s) s ids)) \<le> length (js_futures s) + length ids
   \<and> (distinct (js_futures s) \<longrightarrow> distinct (js_futures (foldl (\<lambda>s r. start_run r s) s ids)))
   \<and> js_reserved (foldl (\<lambda>s r. start_run r s) s ids) = js_reserved s
   \<and> js_max_pending (foldl (\<lambda>s r. start_run r s) s ids) = js_max_pending s
   \<and> js_shut_down (foldl (\<lambda>s r. start_run r s) s ids) = js_shut_down s
   \<and> js_reservations (foldl (\<lambda>s r. start_run r s) s ids) = js_reservations s"
proof (induction ids arbitrary: s)
  case (Cons i ids)
  from Cons.IH [of "start_run i s"] show ?case by (auto simp: start_run_def add_key_def)
qed simp

lemma reservation_submit_inv:
  assumes "job_inv s" and "r < length (js_reservations s)"
  shows "reservation_submit s r ids = Inr s' \<Longrightarrow> job_inv s'"
    and "reservation_submit s r ids = Inl (e, s') \<Longrightarrow> job_inv s'"
proof -
  let ?rv = "js_reservations s ! r" and ?s1 = "s\<lparr>js_reserved := js_reserved s - length ids\<rparr>"
  note f = start_runs_parts [of ?s1 ids]
  show "reservation_submit s r ids = Inl (e, s') \<Longrightarrow> job_inv s'"
    using assms(1) by (auto simp: reservation_submit_def submit_reserved_def rbind_eq_Inl job_inv_def pending_count_def Let_def
        split: if_splits)
  assume "reservation_submit s r ids = Inr s'"
  then have act: "is_active ?rv" "length ids = rv_count ?rv" "length ids \<le> js_reserved s"
    and s': "s' = (foldl (\<lambda>s r. start_run r s) ?s1 ids)\<lparr>js_reservations := (js_reservations s)[r := ?rv\<lparr>rv_submitted := True\<rparr>]\<rparr>"
    using f by (auto simp: reservation_submit_def submit_reserved_def is_active_def rbind_eq_Inr Let_def split: if_splits)
  have "active_slots (js_reservations s) = active_slots ((js_reservations s)[r := ?rv\<lparr>rv_submitted := True\<rparr>]) + rv_count ?rv"
    by (rule active_slots_update [OF assms(2) act(1)]) (simp add: is_active_def)
  with assms(1) act f s' show "job_inv s'" by (auto simp: job_inv_def pending_count_def)
qed

lemma reservation_release_inv:
  assumes "job_inv s" and "r < length (js_reservations s)"
  shows "job_inv (reservation_release s r)"
proof (cases "is_active (js_reservations s ! r)")
  case True
  let ?rv = "js_reservations s ! r"
  have "active_slots (js_reservations s) = active_slots ((js_reservations s)[r := ?rv\<lparr>rv_released := True\<rparr>]) + rv_count ?rv"
    by (rule active_slots_update [OF assms(2) True]) (simp add: is_active_def)
  with assms(1) True show ?thesis
    by (auto simp: reservation_release_def release_reservation_def job_inv_def pending_count_def is_active_def Let_def)
qed (use assms(1) in \<open>auto simp: reservation_release_def is_active_def Let_def\<close>)

lemma event_inv: "job_inv s \<Longrightarrow> job_inv (set_event run_id s)" "job_inv s \<Longrightarrow> job_inv (shutdown s)"
  by (simp_all add: set_event_def shutdown_def job_inv_def pending_count_def)

lemma job_step_inv: "job_step s s' \<Longrightarrow> job_inv s \<Longrightarrow> job_inv s'"
proof (erule job_stepE)
  fix n r assume inv: "job_inv s" and "reserve s n = Inr (r, s')"
  then show "job_inv s'"
    by (auto simp: reserve_def job_inv_def pending_count_def is_active_def split: if_splits)
next
  fix run_id assume inv: "job_inv s" and s': "s' = run_done run_id s"
  have "length (filter (\<lambda>x. x \<noteq> run_id) (js_futures s)) + js_reserved s \<le> js_max_pending s"
    using inv length_filter_le [of "\<lambda>x. x \<noteq> run_id" "js_futures s"]
    unfolding job_inv_def pending_count_def by linarith
  with inv s' show "job_inv s'" by (simp add: run_done_def job_inv_def pending_count_def)
qed (auto intro: reservation_submit_inv reservation_release_inv event_inv)

lemma job_reachable_inv: "job_reachable s \<Longrightarrow> job_inv s"
proof (induction rule: job_reachable.induct)
  case (Start w p s)
  then show ?case by (auto simp: new_runner_def job_inv_def pending_count_def split: if_splits)
qed (rule job_step_inv)

section \<open>Properties\<close>

text \<open>
  C33. The queue is bounded. However reservations, submissions, releases, completions, cancellations
  and a shutdown interleave, the runs in flight and the reserved slots together never exceed
  \<open>max_pending\<close>, and no run is listed twice.
\<close>

theorem job_queue_bounded:
  assumes "job_reachable s"
  shows "pending_count s \<le> js_max_pending s \<and> distinct (js_futures s)"
  using job_reachable_inv [OF assms] by (simp add: job_inv_def)

definition example_runner :: runner_state where
  "example_runner = \<lparr>js_max_pending = 4, js_reserved = 0, js_futures = [], js_cancel_events = [],
     js_reservations = [], js_shut_down = False\<rparr>"

lemma example_runner_reachable: "job_reachable example_runner"
  by (rule Start [of 1 4]) (simp add: new_runner_def example_runner_def)

theorem job_queue_bounded_witness:
  "\<exists>s. submit_many example_runner [''a'', ''b''] = Inr s \<and> pending_count example_runner \<le> 4"
  using job_queue_bounded [OF example_runner_reachable]
  by (simp add: submit_many_def reserve_def reservation_submit_def submit_reserved_def start_run_def add_key_def
      reservation_release_def example_runner_def pending_count_def)

text \<open>
  A reservation is honoured. Before a shutdown the submission of an active reservation with the
  reserved number of runs always succeeds: it is never reported as lost, it takes exactly its own
  slots, and afterwards every submitted run is in flight.
\<close>

theorem reservation_honoured:
  assumes "job_reachable s" and "\<not> js_shut_down s" and "r < length (js_reservations s)"
    and "is_active (js_reservations s ! r)" and "length ids = rv_count (js_reservations s ! r)"
  shows "\<exists>s'. reservation_submit s r ids = Inr s' \<and> set ids \<subseteq> set (js_futures s')
    \<and> js_reserved s = js_reserved s' + length ids \<and> \<not> is_active (js_reservations s' ! r)"
proof -
  let ?rv = "js_reservations s ! r" and ?s1 = "s\<lparr>js_reserved := js_reserved s - length ids\<rparr>"
  have "active_slots (js_reservations s) = active_slots ((js_reservations s)[r := ?rv\<lparr>rv_submitted := True\<rparr>]) + rv_count ?rv"
    by (rule active_slots_update [OF assms(3,4)]) (simp add: is_active_def)
  moreover have "js_reserved s = active_slots (js_reservations s)"
    using job_reachable_inv [OF assms(1)] assms(2) by (simp add: job_inv_def)
  ultimately have enough: "length ids \<le> js_reserved s" using assms(5) by simp
  have "set xs \<union> set (js_futures t) \<subseteq> set (js_futures (foldl (\<lambda>s r. start_run r s) t xs))" for xs t
    by (induction xs arbitrary: t) (force simp: start_run_def add_key_def)+
  with enough assms(2-5) start_runs_parts [of ?s1 ids] show ?thesis
    by (auto simp: reservation_submit_def submit_reserved_def is_active_def Let_def)
qed

theorem reservation_honoured_witness:
  "\<exists>r s s'. reserve example_runner 2 = Inr (r, s) \<and> reservation_submit s r [''a'', ''b''] = Inr s'"
proof -
  define s where "s = example_runner\<lparr>js_reserved := 2,
    js_reservations := [\<lparr>rv_count = 2, rv_submitted = False, rv_released = False\<rparr>]\<rparr>"
  have r: "reserve example_runner 2 = Inr (0, s)"
    by (simp add: reserve_def s_def example_runner_def pending_count_def)
  have "job_reachable s" by (rule Step [OF example_runner_reachable Reserve [OF r]])
  from reservation_honoured [OF this, of 0 "[''a'', ''b'']"] r show ?thesis
    by (auto simp: s_def example_runner_def is_active_def)
qed

text \<open>
  A submission that fails after a shutdown gives its slots back twice. The first time inside
  \<open>_submit_reserved\<close>, the second when the reservation's context exits; the second takes them from
  another reservation, here the active reservation of two slots next to it.
\<close>

theorem failed_submit_releases_twice:
  "let s = example_runner\<lparr>js_shut_down := True, js_reserved := 4,
       js_reservations := [\<lparr>rv_count = 2, rv_submitted = False, rv_released = False\<rparr>,
                           \<lparr>rv_count = 2, rv_submitted = False, rv_released = False\<rparr>]\<rparr>
   in \<exists>e s'. reservation_submit s 0 [''a'', ''b''] = Inl (RuntimeError e, s')
      \<and> js_reserved (reservation_release s' 0) = 0
      \<and> active_slots (js_reservations (reservation_release s' 0)) = 2"
  by (simp add: reservation_submit_def submit_reserved_def reservation_release_def release_reservation_def
      active_slots_def is_active_def example_runner_def Let_def)

text \<open>
  The life of a run in the table. Starting leaves every status but \<open>QUEUED\<close> alone, a
  cancellation request never touches a finished run, \<open>finish\<close> accepts terminal statuses only,
  and after a restart's \<open>interrupt_stale\<close> no run is queued or running while finished runs are
  unchanged.
\<close>

theorem run_table_lifecycle:
  "(\<forall>row. mark_started t i i' = Some row \<longrightarrow> rw_status row = RUNNING \<or> t i' = Some row)
   \<and> (\<forall>row row' t'. t i = Some row \<longrightarrow> rw_status row \<in> TERMINAL_RUN_STATUSES \<longrightarrow> request_cancel t i = Inr (row', t') \<longrightarrow> t' = t)
   \<and> (status \<notin> TERMINAL_RUN_STATUSES \<longrightarrow> (\<exists>e. run_finish t i status m err = Inl (ValueError e)))
   \<and> (\<forall>row. interrupt_stale t i = Some row \<longrightarrow> rw_status row \<in> TERMINAL_RUN_STATUSES)
   \<and> (\<forall>row. t i = Some row \<longrightarrow> rw_status row \<in> TERMINAL_RUN_STATUSES \<longrightarrow> interrupt_stale t i = Some row)"
proof (intro conjI allI impI)
  fix row assume "interrupt_stale t i = Some row"
  then show "rw_status row \<in> TERMINAL_RUN_STATUSES"
    by (cases "t i") (auto simp: interrupt_stale_def TERMINAL_RUN_STATUSES_def intro: run_status.exhaust)
qed (auto simp: mark_started_def run_update_def request_cancel_def run_get_def run_finish_def interrupt_stale_def
    TERMINAL_RUN_STATUSES_def rbind_eq_Inr Let_def split: if_splits option.splits)

theorem run_table_lifecycle_witness:
  "\<exists>row. interrupt_stale (run_create Map.empty ''r'' 3) ''r'' = Some row \<and> rw_status row \<in> TERMINAL_RUN_STATUSES"
proof -
  have "\<exists>row. interrupt_stale (run_create Map.empty ''r'' 3) ''r'' = Some row"
    by (simp add: interrupt_stale_def run_create_def)
  with run_table_lifecycle [of "run_create Map.empty ''r'' 3" "''r''" "''r''" QUEUED None None] show ?thesis by blast
qed

end
