(* ===== verification/Paper_Store.thy ===== *)
theory Paper_Store
  imports Execution_Policy Fifo_Ledger "HOL-Library.List_Lexorder" "HOL-Library.Char_ord"
    "HOL-Library.Product_Lexorder"
begin

text \<open>
  The paper-trading tables and their repositories (\<open>backend/data/repositories.py\<close>,
  \<open>PaperAccountRepository\<close> to \<open>PaperTradeRepository\<close>, with the keys and partial unique
  indexes of \<open>backend/data/sql\<close>).

  A table is the list of its rows in insertion order; a row is a record. \<open>uuid4\<close> and the serial of
  the trades draw from one counter, so a new key is never one in use. A query that orders its rows
  sorts them stably: rows that tie keep their insertion order, which SQL leaves open. The columns
  \<open>created_at\<close> and \<open>updated_at\<close> are kept where a query or a caller reads them, for pending
  entries only. A snapshot of a configuration keeps the policy under the key
  \<open>_execution_policy\<close> in a field of its own, absent when that key holds no mapping.
\<close>

section \<open>Rows\<close>

record snapshot =
  sn_values :: config
  sn_policy :: "config option"

datatype lot_status = LotOpen | LotTargetHit | LotStopped | LotExpired | LotClosed

datatype side = BuySide | SellSide

datatype order_status = Filled | Rejected

record paper_account =
  ac_id :: string
  ac_market :: market
  ac_currency :: string
  ac_starting_balance :: real
  ac_cash_balance :: real
  ac_risk_settings :: config
  ac_reset_at :: "timestamp option"

record paper_order =
  od_id :: string
  od_account :: string
  od_market :: market
  od_signal :: "string option"
  od_strategy :: string
  od_version :: string
  od_symbol :: string
  od_side :: side
  od_quantity :: real
  od_requested_price :: real
  od_executed_price :: "real option"
  od_fees :: real
  od_slippage :: real
  od_status :: order_status
  od_reason :: "string option"

text \<open>A stored live signal, or the public form of a pending entry, which adds the last four fields.\<close>

record signal =
  sg_signal_id :: "string option"
  sg_market :: market
  sg_type :: string
  sg_strategy :: string
  sg_version :: string
  sg_symbol :: string
  sg_timeframe :: string
  sg_candle_at :: timestamp
  sg_price :: real
  sg_target :: "real option"
  sg_stop :: "real option"
  sg_snapshot :: snapshot
  sg_reason :: string
  sg_pending_id :: "string option"
  sg_cycle :: "string option"
  sg_lot_number :: "int option"
  sg_created_at :: "timestamp option"

record pending_row =
  pe_id :: string
  pe_account :: string
  pe_created_at :: timestamp
  pe_signal :: signal

record paper_lot =
  pl_id :: string
  pl_account :: string
  pl_order :: string
  pl_signal :: "string option"
  pl_market :: market
  pl_strategy :: string
  pl_version :: string
  pl_symbol :: string
  pl_timeframe :: string
  pl_cycle :: string
  pl_number :: int
  pl_entry_at :: timestamp
  pl_entry_price :: real
  pl_cost_basis :: real
  pl_allocations :: "fifo_allocation list"
  pl_quantity :: real
  pl_target :: real
  pl_stop :: "real option"
  pl_expires :: "timestamp option"
  pl_status :: lot_status
  pl_exit_at :: "timestamp option"
  pl_exit_price :: "real option"
  pl_realized :: "real option"
  pl_unrealized :: real
  pl_fees :: real
  pl_last_price :: "real option"
  pl_mae :: "real option"
  pl_mfe :: "real option"
  pl_snapshot :: snapshot

record paper_trade =
  pt_id :: nat
  pt_account :: string
  pt_lot :: string
  pt_market :: market
  pt_symbol :: string
  pt_side :: side
  pt_quantity :: real
  pt_price :: real
  pt_fees :: real
  pt_slippage :: real
  pt_reason :: string
  pt_at :: timestamp

record paper_db =
  db_accounts :: "paper_account list"
  db_orders :: "paper_order list"
  db_pending :: "pending_row list"
  db_lots :: "paper_lot list"
  db_trades :: "paper_trade list"
  db_next :: nat

definition fresh_id :: "paper_db \<Rightarrow> string" where
  "fresh_id db = show_nat (db_next db)"

section \<open>Accounts\<close>

definition account_get :: "paper_db \<Rightarrow> market \<Rightarrow> paper_account option" where
  "account_get db m = List.find (\<lambda>a. ac_market a = m) (db_accounts db)"

definition account_get_or_create ::
  "paper_db \<Rightarrow> market \<Rightarrow> string \<Rightarrow> real \<Rightarrow> config \<Rightarrow> (paper_account \<times> paper_db) res" where
  "account_get_or_create db m currency starting_balance risk_settings =
     (case account_get db m of
        Some existing \<Rightarrow> Inr (existing, db)
      | None \<Rightarrow>
          let db' = db\<lparr>db_accounts := db_accounts db @
                [\<lparr>ac_id = fresh_id db, ac_market = m, ac_currency = currency,
                  ac_starting_balance = starting_balance, ac_cash_balance = starting_balance,
                  ac_risk_settings = risk_settings, ac_reset_at = None\<rparr>], db_next := db_next db + 1\<rparr>
          in case account_get db' m of None \<Rightarrow> Inl AssertionError | Some created \<Rightarrow> Inr (created, db'))"

definition account_reset ::
  "paper_db \<Rightarrow> market \<Rightarrow> real option \<Rightarrow> config option \<Rightarrow> timestamp \<Rightarrow> (paper_account \<times> paper_db) res" where
  "account_reset db m starting_balance risk_settings now =
     (case account_get db m of
        None \<Rightarrow> Inl (KeyError ''No paper account for the market'')
      | Some a \<Rightarrow>
          let balance = (case starting_balance of Some b \<Rightarrow> b | None \<Rightarrow> ac_starting_balance a);
              risk = (case risk_settings of Some r \<Rightarrow> r | None \<Rightarrow> ac_risk_settings a);
              db' = db\<lparr>db_pending := filter (\<lambda>p. pe_account p \<noteq> ac_id a) (db_pending db),
                       db_trades := filter (\<lambda>t. pt_account t \<noteq> ac_id a) (db_trades db),
                       db_lots := filter (\<lambda>l. pl_account l \<noteq> ac_id a) (db_lots db),
                       db_orders := filter (\<lambda>r. od_account r \<noteq> ac_id a) (db_orders db),
                       db_accounts := map (\<lambda>r. if ac_id r = ac_id a
                         then r\<lparr>ac_starting_balance := balance, ac_cash_balance := balance,
                                ac_risk_settings := risk, ac_reset_at := Some now\<rparr> else r) (db_accounts db)\<rparr>
          in case account_get db' m of None \<Rightarrow> Inl AssertionError | Some refreshed \<Rightarrow> Inr (refreshed, db'))"

definition adjust_cash :: "paper_db \<Rightarrow> string \<Rightarrow> real \<Rightarrow> (real \<times> paper_db) res" where
  "adjust_cash db account delta =
     (case List.find (\<lambda>a. ac_id a = account) (db_accounts db) of
        None \<Rightarrow> Inl (KeyError ''Paper account was not found'')
      | Some a \<Rightarrow>
          let balance = ac_cash_balance a + delta
          in Inr (balance, db\<lparr>db_accounts := map (\<lambda>r. if ac_id r = account then r\<lparr>ac_cash_balance := balance\<rparr> else r)
                    (db_accounts db)\<rparr>))"

section \<open>Orders\<close>

text \<open>The partial unique index \<open>paper_orders_one_per_signal\<close>; \<open>ON CONFLICT DO NOTHING\<close> returns no row.\<close>

definition opens_signal :: "string \<Rightarrow> string \<Rightarrow> paper_order \<Rightarrow> bool" where
  "opens_signal account sid r \<longleftrightarrow>
     od_account r = account \<and> od_signal r = Some sid \<and> od_side r = BuySide \<and> od_status r = Filled"

definition order_conflicts :: "paper_db \<Rightarrow> paper_order \<Rightarrow> bool" where
  "order_conflicts db r =
     (case od_signal r of
        None \<Rightarrow> False
      | Some sid \<Rightarrow> od_side r = BuySide \<and> od_status r = Filled \<and> list_ex (opens_signal (od_account r) sid) (db_orders db))"

definition order_insert :: "paper_db \<Rightarrow> paper_order \<Rightarrow> paper_order option \<times> paper_db" where
  "order_insert db values =
     (if order_conflicts db values then (None, db)
      else let row = values\<lparr>od_id := fresh_id db\<rparr>
           in (Some row, db\<lparr>db_orders := db_orders db @ [row], db_next := db_next db + 1\<rparr>))"

definition orders_list :: "paper_db \<Rightarrow> string \<Rightarrow> nat \<Rightarrow> paper_order list" where
  "orders_list db account limit = take limit (rev (filter (\<lambda>r. od_account r = account) (db_orders db)))"

definition orders_for_signal :: "paper_db \<Rightarrow> string \<Rightarrow> string \<Rightarrow> paper_order list" where
  "orders_for_signal db account sid =
     filter (\<lambda>r. od_account r = account \<and> od_signal r = Some sid) (db_orders db)"

section \<open>Pending entries\<close>

text \<open>One pending entry per signal, and one per lot of a ladder cycle.\<close>

definition pending_conflicts :: "paper_db \<Rightarrow> string \<Rightarrow> signal \<Rightarrow> bool" where
  "pending_conflicts db account s \<longleftrightarrow>
     list_ex (\<lambda>p. pe_account p = account
       \<and> (sg_signal_id s \<noteq> None \<and> sg_signal_id (pe_signal p) = sg_signal_id s
          \<or> sg_cycle s \<noteq> None \<and> sg_lot_number s \<noteq> None \<and> sg_cycle (pe_signal p) = sg_cycle s
            \<and> sg_lot_number (pe_signal p) = sg_lot_number s)) (db_pending db)"

definition pending_insert ::
  "paper_db \<Rightarrow> signal \<Rightarrow> string \<Rightarrow> string option \<Rightarrow> int option \<Rightarrow> timestamp \<Rightarrow> signal option \<times> paper_db" where
  "pending_insert db s account cycle lot_number now =
     (let stored = s\<lparr>sg_type := ''BUY'', sg_pending_id := Some (fresh_id db), sg_cycle := cycle,
                     sg_lot_number := lot_number, sg_created_at := Some now\<rparr>
      in if pending_conflicts db account stored then (None, db)
         else (Some stored, db\<lparr>db_pending := db_pending db @
                [\<lparr>pe_id = fresh_id db, pe_account = account, pe_created_at = now, pe_signal = stored\<rparr>],
              db_next := db_next db + 1\<rparr>))"

definition pending_list :: "paper_db \<Rightarrow> string \<Rightarrow> signal list" where
  "pending_list db account =
     map pe_signal (sort_key (\<lambda>p. (sg_candle_at (pe_signal p), pe_created_at p))
       (filter (\<lambda>p. pe_account p = account) (db_pending db)))"

definition pending_delete :: "paper_db \<Rightarrow> string \<Rightarrow> paper_db" where
  "pending_delete db entry = db\<lparr>db_pending := filter (\<lambda>p. pe_id p \<noteq> entry) (db_pending db)\<rparr>"

definition pending_clear :: "paper_db \<Rightarrow> string \<Rightarrow> paper_db" where
  "pending_clear db account = db\<lparr>db_pending := filter (\<lambda>p. pe_account p \<noteq> account) (db_pending db)\<rparr>"

section \<open>Lots\<close>

definition PAPER_LOT_CLOSED_STATUSES :: "lot_status list" where
  "PAPER_LOT_CLOSED_STATUSES = [LotTargetHit, LotStopped, LotExpired, LotClosed]"

definition lot_get :: "paper_db \<Rightarrow> string \<Rightarrow> paper_lot res" where
  "lot_get db lid =
     (case List.find (\<lambda>l. pl_id l = lid) (db_lots db) of
        None \<Rightarrow> Inl (KeyError ''Paper lot was not found'') | Some l \<Rightarrow> Inr l)"

text \<open>\<open>insert\<close> fills in the columns its caller leaves out.\<close>

definition lot_insert :: "paper_db \<Rightarrow> paper_lot \<Rightarrow> (paper_lot \<times> paper_db) res" where
  "lot_insert db values =
     (let row = values\<lparr>pl_id := fresh_id db, pl_cost_basis := pl_entry_price values,
             pl_allocations := [\<lparr>alloc_id = fresh_id db, alloc_quantity = pl_quantity values,
                                 alloc_price = pl_entry_price values, alloc_fees = pl_fees values\<rparr>],
             pl_status := LotOpen, pl_exit_at := None, pl_exit_price := None, pl_realized := None,
             pl_last_price := Some (pl_entry_price values), pl_mae := Some 0, pl_mfe := Some 0\<rparr>;
          db' = db\<lparr>db_lots := db_lots db @ [row], db_next := db_next db + 1\<rparr>
      in rbind (lot_get db' (fresh_id db)) (\<lambda>l. Inr (l, db')))"

definition lots_open :: "paper_db \<Rightarrow> string \<Rightarrow> string option \<Rightarrow> paper_lot list" where
  "lots_open db account symbol =
     (case symbol of
        Some s \<Rightarrow> sort_key (\<lambda>l. (pl_entry_at l, pl_number l))
          (filter (\<lambda>l. pl_account l = account \<and> pl_symbol l = s \<and> pl_status l = LotOpen) (db_lots db))
      | None \<Rightarrow> sort_key (\<lambda>l. (pl_symbol l, pl_entry_at l, pl_number l))
          (filter (\<lambda>l. pl_account l = account \<and> pl_status l = LotOpen) (db_lots db)))"

definition lots_cycle :: "paper_db \<Rightarrow> string \<Rightarrow> string \<Rightarrow> string \<Rightarrow> paper_lot list" where
  "lots_cycle db account symbol cycle =
     sort_key pl_number (filter (\<lambda>l. pl_account l = account \<and> pl_symbol l = symbol \<and> pl_cycle l = cycle) (db_lots db))"

definition lots_list :: "paper_db \<Rightarrow> string \<Rightarrow> lot_status option \<Rightarrow> nat \<Rightarrow> paper_lot list" where
  "lots_list db account status limit =
     take limit (sort_key (\<lambda>l. - pl_entry_at l)
       (filter (\<lambda>l. pl_account l = account \<and> (case status of None \<Rightarrow> True | Some s \<Rightarrow> pl_status l = s)) (db_lots db)))"

text \<open>\<open>s.split(sep)\<close> at the first occurrence, and \<open>split_part(s, sep, 2)\<close> of SQL.\<close>

fun cut_first :: "string \<Rightarrow> string \<Rightarrow> (string \<times> string) option" where
  "cut_first sep [] = None"
| "cut_first sep (c # cs) =
     (if take (length sep) (c # cs) = sep then Some ([], drop (length sep) (c # cs))
      else map_option (\<lambda>(a, b). (c # a, b)) (cut_first sep cs))"

definition split_part2 :: "string \<Rightarrow> string \<Rightarrow> string" where
  "split_part2 sep s =
     (case cut_first sep s of
        None \<Rightarrow> []
      | Some (_, rest) \<Rightarrow> (case cut_first sep rest of None \<Rightarrow> rest | Some (part, _) \<Rightarrow> part))"

definition cycle_cast :: "paper_lot \<Rightarrow> int res" where
  "cycle_cast l =
     (case parse_int (split_part2 ''-Cycle'' (pl_cycle l)) of
        None \<Rightarrow> Inl (RuntimeError ''invalid input syntax for type integer'') | Some n \<Rightarrow> Inr n)"

definition cycle_state :: "paper_db \<Rightarrow> string \<Rightarrow> string \<Rightarrow> (int \<times> nat) res" where
  "cycle_state db account symbol =
     (let rows = filter (\<lambda>l. pl_account l = account \<and> pl_symbol l = symbol) (db_lots db)
      in rbind (rmap_list cycle_cast rows) (\<lambda>ns.
           Inr (if ns = [] then 0 else foldl max (hd ns) (tl ns),
                length (filter (\<lambda>l. pl_status l = LotOpen) rows))))"

definition update_open :: "string \<Rightarrow> (paper_lot \<Rightarrow> paper_lot) \<Rightarrow> paper_db \<Rightarrow> paper_db" where
  "update_open lid f db =
     db\<lparr>db_lots := map (\<lambda>l. if pl_id l = lid \<and> pl_status l = LotOpen then f l else l) (db_lots db)\<rparr>"

record lot_marks =
  mk_last_price :: real
  mk_cost_basis :: real
  mk_allocations :: "fifo_allocation list"
  mk_target :: real
  mk_entry_fees :: real
  mk_unrealized :: real
  mk_mae :: real
  mk_mfe :: real

definition mark_lot :: "lot_marks \<Rightarrow> paper_lot \<Rightarrow> paper_lot" where
  "mark_lot m l =
     l\<lparr>pl_last_price := Some (mk_last_price m), pl_cost_basis := mk_cost_basis m,
       pl_allocations := mk_allocations m, pl_target := mk_target m, pl_fees := mk_entry_fees m,
       pl_unrealized := mk_unrealized m, pl_mae := Some (mk_mae m), pl_mfe := Some (mk_mfe m)\<rparr>"

definition lot_mark :: "paper_db \<Rightarrow> string \<Rightarrow> lot_marks \<Rightarrow> paper_db" where
  "lot_mark db lid m = update_open lid (mark_lot m) db"

definition lot_close ::
  "paper_db \<Rightarrow> string \<Rightarrow> lot_status \<Rightarrow> timestamp \<Rightarrow> real \<Rightarrow> real \<Rightarrow> fifo_allocation list \<Rightarrow> real \<Rightarrow> real
    \<Rightarrow> (paper_lot \<times> paper_db) res" where
  "lot_close db lid status exit_at exit_price cost_basis allocations realized fees =
     (if status \<notin> set PAPER_LOT_CLOSED_STATUSES then Inl (ValueError ''not a closing lot status'')
      else let db' = update_open lid (\<lambda>l. l\<lparr>pl_status := status, pl_exit_at := Some exit_at,
                  pl_exit_price := Some exit_price, pl_cost_basis := cost_basis, pl_allocations := allocations,
                  pl_realized := Some realized, pl_fees := fees, pl_unrealized := 0,
                  pl_last_price := Some exit_price\<rparr>) db
           in rbind (lot_get db' lid) (\<lambda>l. Inr (l, db')))"

section \<open>Trades\<close>

definition trade_insert :: "paper_db \<Rightarrow> paper_trade \<Rightarrow> paper_db" where
  "trade_insert db values =
     db\<lparr>db_trades := db_trades db @ [values\<lparr>pt_id := db_next db\<rparr>], db_next := db_next db + 1\<rparr>"

definition trades_list :: "paper_db \<Rightarrow> string \<Rightarrow> nat \<Rightarrow> paper_trade list" where
  "trades_list db account limit =
     take limit (rev (sort_key (\<lambda>t. (pt_at t, pt_id t)) (filter (\<lambda>t. pt_account t = account) (db_trades db))))"

definition trades_chronological :: "paper_db \<Rightarrow> string \<Rightarrow> paper_trade list" where
  "trades_chronological db account =
     sort_key (\<lambda>t. (pt_at t, pt_id t)) (filter (\<lambda>t. pt_account t = account) (db_trades db))"

end
