(* ===== verification/Paper_Portfolio.thy ===== *)
theory Paper_Portfolio
  imports Paper_Store
begin

text \<open>
  \<open>backend/paper_trading/portfolio.py\<close>, the in-memory view of an account, and
  \<open>backend/paper_trading/accounting.py\<close>, its money arithmetic.

  The two dictionaries of a portfolio are association lists in insertion order. The lemmas say what
  a lookup sees after every operation, and that an operation on one symbol leaves the others alone.
\<close>

section \<open>Portfolio\<close>

record portfolio =
  pf_account :: paper_account
  pf_open_lots :: "(string \<times> paper_lot list) list"
  pf_pending :: "(string \<times> signal list) list"

definition dict_get :: "(string \<times> 'a list) list \<Rightarrow> string \<Rightarrow> 'a list" where
  "dict_get d k = (case map_of d k of None \<Rightarrow> [] | Some xs \<Rightarrow> xs)"

text \<open>\<open>d.setdefault(k, []).append(x)\<close>\<close>

definition dict_append :: "string \<Rightarrow> 'a \<Rightarrow> (string \<times> 'a list) list \<Rightarrow> (string \<times> 'a list) list" where
  "dict_append k x d = AList.update k (dict_get d k @ [x]) d"

definition portfolio_add_lot :: "portfolio \<Rightarrow> paper_lot \<Rightarrow> portfolio" where
  "portfolio_add_lot pf l = pf\<lparr>pf_open_lots := dict_append (pl_symbol l) l (pf_open_lots pf)\<rparr>"

definition portfolio_add_pending :: "portfolio \<Rightarrow> signal \<Rightarrow> portfolio" where
  "portfolio_add_pending pf s = pf\<lparr>pf_pending := dict_append (sg_symbol s) s (pf_pending pf)\<rparr>"

definition portfolio_rebuild :: "paper_account \<Rightarrow> paper_lot list \<Rightarrow> signal list \<Rightarrow> portfolio" where
  "portfolio_rebuild account lots pending =
     foldl portfolio_add_pending
       (foldl (\<lambda>pf l. if pl_status l = LotOpen then portfolio_add_lot pf l else pf)
         \<lparr>pf_account = account, pf_open_lots = [], pf_pending = []\<rparr> lots) pending"

definition lots_for :: "portfolio \<Rightarrow> string \<Rightarrow> string option \<Rightarrow> string option \<Rightarrow> paper_lot list" where
  "lots_for pf symbol strategy_id timeframe =
     filter (\<lambda>l. (case strategy_id of None \<Rightarrow> True | Some i \<Rightarrow> pl_strategy l = i)
               \<and> (case timeframe of None \<Rightarrow> True | Some t \<Rightarrow> pl_timeframe l = t))
       (dict_get (pf_open_lots pf) symbol)"

fun replace_first :: "paper_lot \<Rightarrow> paper_lot list \<Rightarrow> paper_lot list" where
  "replace_first l [] = []"
| "replace_first l (x # xs) = (if pl_id x = pl_id l then l # xs else x # replace_first l xs)"

text \<open>
  A lot that is not there is appended to the list found, which is the portfolio's own list only if
  the symbol has an entry.
\<close>

definition portfolio_replace_lot :: "portfolio \<Rightarrow> paper_lot \<Rightarrow> portfolio" where
  "portfolio_replace_lot pf l =
     (case map_of (pf_open_lots pf) (pl_symbol l) of
        None \<Rightarrow> pf
      | Some lots \<Rightarrow>
          pf\<lparr>pf_open_lots := AList.update (pl_symbol l)
            (if pl_id l \<in> pl_id ` set lots then replace_first l lots else lots @ [l]) (pf_open_lots pf)\<rparr>)"

definition portfolio_remove_lot :: "portfolio \<Rightarrow> string \<Rightarrow> string \<Rightarrow> portfolio" where
  "portfolio_remove_lot pf lid symbol =
     (let lots = filter (\<lambda>l. pl_id l \<noteq> lid) (dict_get (pf_open_lots pf) symbol)
      in pf\<lparr>pf_open_lots := (if lots \<noteq> [] then AList.update symbol lots (pf_open_lots pf)
                             else AList.delete symbol (pf_open_lots pf))\<rparr>)"

definition all_open :: "portfolio \<Rightarrow> paper_lot list" where
  "all_open pf = concat (map snd (pf_open_lots pf))"

definition open_count :: "portfolio \<Rightarrow> nat" where
  "open_count pf = sum_list (map (length \<circ> snd) (pf_open_lots pf))"

section \<open>Accounting\<close>

definition entry_cost :: "real \<Rightarrow> real \<Rightarrow> real \<Rightarrow> real" where
  "entry_cost executed_price quantity fees = executed_price * quantity + fees"

definition exit_proceeds :: "real \<Rightarrow> real \<Rightarrow> real \<Rightarrow> real" where
  "exit_proceeds executed_price quantity fees = executed_price * quantity - fees"

definition realized_pnl :: "real \<Rightarrow> real \<Rightarrow> real \<Rightarrow> real \<Rightarrow> real" where
  "realized_pnl entry_price exit_price quantity total_fees =
     py_round ((exit_price - entry_price) * quantity - total_fees) 2"

definition unrealized_pnl :: "real \<Rightarrow> real \<Rightarrow> real \<Rightarrow> real \<Rightarrow> real" where
  "unrealized_pnl entry_price last_price quantity entry_fees =
     py_round ((last_price - entry_price) * quantity - entry_fees) 2"

definition excursions ::
  "real \<Rightarrow> real \<Rightarrow> real \<Rightarrow> real option \<Rightarrow> real option \<Rightarrow> (real \<times> real) res" where
  "excursions entry_price low high previous_mae previous_mfe =
     (if entry_price = 0 then Inl ZeroDivisionError
      else Inr (min (case previous_mae of None \<Rightarrow> 0 | Some m \<Rightarrow> m) (py_round ((low / entry_price - 1) * 100) 4),
                max (case previous_mfe of None \<Rightarrow> 0 | Some m \<Rightarrow> m) (py_round ((high / entry_price - 1) * 100) 4)))"

text \<open>\<open>x or y\<close> on a number that may be absent: zero counts as absent.\<close>

definition or_float :: "real option \<Rightarrow> real \<Rightarrow> real" where
  "or_float x y = (case x of None \<Rightarrow> y | Some r \<Rightarrow> if r = 0 then y else r)"

record account_summary =
  as_market :: market
  as_currency :: string
  as_starting_balance :: real
  as_cash_balance :: real
  as_market_value :: real
  as_equity :: real
  as_open_positions :: nat
  as_closed_lots :: nat
  as_realized :: real
  as_realized_today :: real
  as_unrealized :: real
  as_daily :: real
  as_of :: timestamp

definition lot_value :: "paper_lot \<Rightarrow> real" where
  "lot_value l = or_float (pl_last_price l) (pl_entry_price l) * pl_quantity l"

definition accounting_summary ::
  "paper_account \<Rightarrow> paper_lot list \<Rightarrow> paper_lot list \<Rightarrow> market \<Rightarrow> timestamp \<Rightarrow> account_summary" where
  "accounting_summary account open_lots closed_lots zone now =
     (let today = local_date zone now;
          realized = (\<lambda>l. or_float (pl_realized l) 0);
          realized_total = py_round (sum_list (map realized closed_lots)) 2;
          realized_today = py_round (sum_list (map realized
            (filter (\<lambda>l. map_option (local_date zone) (pl_exit_at l) = Some today) closed_lots))) 2;
          unrealized = py_round (sum_list (map pl_unrealized open_lots)) 2;
          market_value = py_round (sum_list (map lot_value open_lots)) 2
      in \<lparr>as_market = ac_market account, as_currency = ac_currency account,
          as_starting_balance = ac_starting_balance account,
          as_cash_balance = py_round (ac_cash_balance account) 2,
          as_market_value = market_value,
          as_equity = py_round (ac_cash_balance account + market_value) 2,
          as_open_positions = length open_lots, as_closed_lots = length closed_lots,
          as_realized = realized_total, as_realized_today = realized_today,
          as_unrealized = unrealized, as_daily = py_round (realized_today + unrealized) 2, as_of = now\<rparr>)"

section \<open>Lookups after the operations\<close>

lemma dict_get_append [simp]:
  "dict_get (dict_append k x d) k' = (if k' = k then dict_get d k @ [x] else dict_get d k')"
  by (simp add: dict_get_def dict_append_def update_conv')

lemma dict_get_update [simp]:
  "dict_get (AList.update k xs d) k' = (if k' = k then xs else dict_get d k')"
  by (simp add: dict_get_def update_conv')

lemma dict_get_delete [simp]:
  "dict_get (AList.delete k d) k' = (if k' = k then [] else dict_get d k')"
  by (simp add: dict_get_def delete_conv')

lemma dict_get_Nil [simp]: "dict_get [] k = []"
  by (simp add: dict_get_def)

lemma portfolio_parts [simp]:
  "pf_pending (portfolio_add_lot pf l) = pf_pending pf"
  "pf_open_lots (portfolio_add_pending pf sg) = pf_open_lots pf"
  "pf_pending (portfolio_remove_lot pf lid s) = pf_pending pf"
  "pf_pending (portfolio_replace_lot pf l) = pf_pending pf"
  by (auto simp: portfolio_add_lot_def portfolio_add_pending_def portfolio_remove_lot_def
      portfolio_replace_lot_def Let_def split: option.splits)

lemma lots_for_all: "lots_for pf symbol None None = dict_get (pf_open_lots pf) symbol"
  by (simp add: lots_for_def)

lemma open_add_lot [simp]:
  "dict_get (pf_open_lots (portfolio_add_lot pf l)) k =
     (if k = pl_symbol l then dict_get (pf_open_lots pf) k @ [l] else dict_get (pf_open_lots pf) k)"
  by (simp add: portfolio_add_lot_def)

lemma open_remove_lot [simp]:
  "dict_get (pf_open_lots (portfolio_remove_lot pf lid symbol)) k =
     (if k = symbol then filter (\<lambda>l. pl_id l \<noteq> lid) (dict_get (pf_open_lots pf) k)
      else dict_get (pf_open_lots pf) k)"
  by (simp add: portfolio_remove_lot_def Let_def)

lemma replace_first_map:
  "distinct (map pl_id xs) \<Longrightarrow> replace_first l xs = map (\<lambda>x. if pl_id x = pl_id l then l else x) xs"
proof (induction xs)
  case (Cons x xs)
  show ?case
  proof (cases "pl_id x = pl_id l")
    case True
    with Cons.prems have "map (\<lambda>y. if pl_id y = pl_id l then l else y) xs = xs" by (intro map_idI) (auto simp: image_iff)
    with True show ?thesis by simp
  qed (use Cons in simp)
qed simp

lemma open_replace_lot:
  assumes "distinct (map pl_id (dict_get (pf_open_lots pf) (pl_symbol l)))"
    and "pl_id l \<in> pl_id ` set (dict_get (pf_open_lots pf) (pl_symbol l))"
  shows "dict_get (pf_open_lots (portfolio_replace_lot pf l)) k =
     (if k = pl_symbol l then map (\<lambda>x. if pl_id x = pl_id l then l else x) (dict_get (pf_open_lots pf) k)
      else dict_get (pf_open_lots pf) k)"
proof (cases "map_of (pf_open_lots pf) (pl_symbol l)")
  case None
  with assms(2) show ?thesis by (simp add: dict_get_def)
next
  case (Some lots)
  then have "dict_get (pf_open_lots pf) (pl_symbol l) = lots" by (simp add: dict_get_def)
  with Some assms show ?thesis by (simp add: portfolio_replace_lot_def replace_first_map)
qed

text \<open>A rebuilt portfolio holds, per symbol and in order, the open lots and the pending entries it was given.\<close>

lemma rebuild_open:
  "dict_get (pf_open_lots (portfolio_rebuild account lots pending)) k =
     filter (\<lambda>l. pl_symbol l = k \<and> pl_status l = LotOpen) lots"
proof -
  have pend: "pf_open_lots (foldl portfolio_add_pending pf ps) = pf_open_lots pf" for pf ps
    by (induction ps arbitrary: pf) simp_all
  have "dict_get (pf_open_lots (foldl (\<lambda>pf l. if pl_status l = LotOpen then portfolio_add_lot pf l else pf) pf ls)) k
      = dict_get (pf_open_lots pf) k @ filter (\<lambda>l. pl_symbol l = k \<and> pl_status l = LotOpen) ls" for pf ls
    by (induction ls arbitrary: pf) auto
  then show ?thesis by (simp add: portfolio_rebuild_def pend)
qed

lemma rebuild_pending:
  "dict_get (pf_pending (portfolio_rebuild account lots pending)) k = filter (\<lambda>s. sg_symbol s = k) pending"
proof -
  have "dict_get (pf_pending (foldl portfolio_add_pending pf ps)) k
      = dict_get (pf_pending pf) k @ filter (\<lambda>s. sg_symbol s = k) ps" for pf ps
    by (induction ps arbitrary: pf) (auto simp: portfolio_add_pending_def)
  moreover have "pf_pending (foldl (\<lambda>pf l. if pl_status l = LotOpen then portfolio_add_lot pf l else pf) pf ls)
      = pf_pending pf" for pf ls
    by (induction ls arbitrary: pf) simp_all
  ultimately show ?thesis by (simp add: portfolio_rebuild_def)
qed

lemma mem_dict_get_all_open: "l \<in> set (dict_get (pf_open_lots pf) k) \<Longrightarrow> l \<in> set (all_open pf)"
  using map_of_SomeD [of "pf_open_lots pf" k]
  by (cases "map_of (pf_open_lots pf) k") (force simp: dict_get_def all_open_def)+

lemma all_open_mem:
  assumes "distinct (map fst (pf_open_lots pf))" and "l \<in> set (all_open pf)"
  shows "\<exists>k. l \<in> set (dict_get (pf_open_lots pf) k)"
proof -
  from assms(2) obtain k ls where "(k, ls) \<in> set (pf_open_lots pf)" "l \<in> set ls"
    by (auto simp: all_open_def)
  with assms(1) have "map_of (pf_open_lots pf) k = Some ls" by simp
  with \<open>l \<in> set ls\<close> have "l \<in> set (dict_get (pf_open_lots pf) k)" by (simp add: dict_get_def)
  then show ?thesis ..
qed

lemma distinct_keys [simp]:
  "distinct (map fst (pf_open_lots pf)) \<Longrightarrow> distinct (map fst (pf_open_lots (portfolio_add_lot pf l)))"
  "distinct (map fst (pf_open_lots pf)) \<Longrightarrow> distinct (map fst (pf_open_lots (portfolio_remove_lot pf lid s)))"
  "distinct (map fst (pf_open_lots pf)) \<Longrightarrow> distinct (map fst (pf_open_lots (portfolio_replace_lot pf l)))"
  by (auto simp: portfolio_add_lot_def portfolio_remove_lot_def portfolio_replace_lot_def dict_append_def
      Let_def distinct_update distinct_delete split: option.splits)

end
