(* ===== verification/Paper_Broker.thy ===== *)
theory Paper_Broker
  imports Paper_Portfolio Profit_Target
begin

text \<open>
  \<open>backend/paper_trading/broker.py\<close>: the broker that turns stored signals into simulated lots and
  manages them against completed candles.

  The record \<open>broker\<close> is the object with its database; the account, the portfolio and the FIFO
  inventories are the in-memory copies the object keeps. Every public operation runs under the
  object's lock, so operations are atomic and a history is a list of them. An operation that
  raises returns the exception together with the state it leaves behind: the writes before the
  raise stay. \<open>entry_allowed\<close> and \<open>policy_resolver\<close> are callbacks of the caller and arguments of
  the environment; the clock is an argument of the operations that read it. An inventory that was
  never filled is empty.
\<close>

section \<open>State\<close>

datatype policy_item = SignalItem signal | LotItem paper_lot

record broker_env =
  pb_market :: market_spec
  pb_policy :: execution_policy
  pb_resolver :: "(policy_item \<Rightarrow> execution_policy res) option"
  pb_entry_allowed :: "signal \<Rightarrow> bool"
  pb_timeframe :: string

record broker =
  bk_db :: paper_db
  bk_account :: paper_account
  bk_inventories :: "string \<Rightarrow> inventory"
  bk_portfolio :: portfolio
  bk_rejected :: nat
  bk_filled :: nat

type_synonym 'a bk_res = "py_error \<times> broker + 'a \<times> broker"

definition with_broker :: "broker \<Rightarrow> 'a res \<Rightarrow> py_error \<times> broker + 'a" where
  "with_broker b m = (case m of Inl e \<Rightarrow> Inl (e, b) | Inr x \<Rightarrow> Inr x)"

definition DEFAULT_STARTING_BALANCES :: "market \<Rightarrow> real" where
  "DEFAULT_STARTING_BALANCES m = (case m of NSE \<Rightarrow> 1000000 | CRYPTO \<Rightarrow> 100000)"

abbreviation on_nse :: "broker_env \<Rightarrow> bool" where
  "on_nse env \<equiv> ms_market (pb_market env) = NSE"

section \<open>Start, rebuild and reset\<close>

definition load_trade :: "(string \<Rightarrow> inventory) \<Rightarrow> paper_trade \<Rightarrow> (string \<Rightarrow> inventory) res" where
  "load_trade inventories t =
     (if pt_side t = BuySide then
        rbind (fifo_add (inventories (pt_symbol t)) (pt_lot t) (pt_at t) (pt_price t) (pt_quantity t) (pt_fees t))
          (\<lambda>stock. Inr (inventories(pt_symbol t := stock)))
      else
        rbind (fifo_consume (inventories (pt_symbol t)) (pt_quantity t))
          (\<lambda>(_, stock). Inr (inventories(pt_symbol t := stock))))"

definition load_fifo_inventories :: "broker_env \<Rightarrow> paper_db \<Rightarrow> string \<Rightarrow> (string \<Rightarrow> inventory) res" where
  "load_fifo_inventories env db account =
     (if \<not> on_nse env then Inr (\<lambda>_. [])
      else rfold load_trade (\<lambda>_. []) (trades_chronological db account))"

definition rebuild_portfolio :: "paper_db \<Rightarrow> paper_account \<Rightarrow> portfolio" where
  "rebuild_portfolio db account =
     portfolio_rebuild account (lots_open db (ac_id account) None) (pending_list db (ac_id account))"

definition broker_start :: "broker_env \<Rightarrow> paper_db \<Rightarrow> real option \<Rightarrow> broker res" where
  "broker_start env db starting_balance =
     rbind (policy_validate (pb_policy env)) (\<lambda>policy.
     rbind (spec_minutes (pb_market env) (pb_timeframe env)) (\<lambda>_.
     rbind (account_get_or_create db (ms_market (pb_market env)) (ms_currency (pb_market env))
             (case starting_balance of Some x \<Rightarrow> x | None \<Rightarrow> DEFAULT_STARTING_BALANCES (ms_market (pb_market env)))
             (policy_public policy)) (\<lambda>(account, db').
     rbind (load_fifo_inventories env db' (ac_id account)) (\<lambda>inventories.
       Inr \<lparr>bk_db = db', bk_account = account, bk_inventories = inventories,
            bk_portfolio = rebuild_portfolio db' account, bk_rejected = 0, bk_filled = 0\<rparr>))))"

definition broker_rebuild :: "broker_env \<Rightarrow> broker \<Rightarrow> portfolio bk_res" where
  "broker_rebuild env b =
     (case account_get (bk_db b) (ms_market (pb_market env)) of
        None \<Rightarrow> Inl (RuntimeError ''Paper account disappeared'', b)
      | Some account \<Rightarrow>
          let b1 = b\<lparr>bk_account := account\<rparr>
          in rbind (with_broker b1 (load_fifo_inventories env (bk_db b) (ac_id account))) (\<lambda>inventories.
               let pf = rebuild_portfolio (bk_db b) account
               in Inr (pf, b1\<lparr>bk_inventories := inventories, bk_portfolio := pf\<rparr>)))"

definition broker_reset :: "broker_env \<Rightarrow> broker \<Rightarrow> real option \<Rightarrow> timestamp \<Rightarrow> paper_account bk_res" where
  "broker_reset env b starting_balance now =
     (let b1 = b\<lparr>bk_db := pending_clear (bk_db b) (ac_id (bk_account b))\<rparr>
      in rbind (with_broker b1 (account_reset (bk_db b1) (ms_market (pb_market env)) starting_balance
                 (Some (policy_public (pb_policy env))) now)) (\<lambda>(account, db).
           Inr (account, b1\<lparr>bk_db := db, bk_account := account, bk_inventories := (\<lambda>_. []),
                            bk_portfolio := portfolio_rebuild account [] []\<rparr>)))"

section \<open>Policies\<close>

definition item_snapshot :: "policy_item \<Rightarrow> snapshot" where
  "item_snapshot item = (case item of SignalItem s \<Rightarrow> sg_snapshot s | LotItem l \<Rightarrow> pl_snapshot l)"

definition policy_for :: "broker_env \<Rightarrow> policy_item \<Rightarrow> execution_policy res" where
  "policy_for env item =
     (case sn_policy (item_snapshot item) of
        Some stored \<Rightarrow> policy_from_mapping stored (default_policy\<lparr>ep_whole_units := on_nse env\<rparr>)
      | None \<Rightarrow>
          (case pb_resolver env of
             Some resolver \<Rightarrow> rbind (resolver item) policy_validate
           | None \<Rightarrow> Inr (pb_policy env)))"

definition with_policy_snapshot :: "signal \<Rightarrow> execution_policy \<Rightarrow> signal" where
  "with_policy_snapshot s policy =
     s\<lparr>sg_snapshot := (sg_snapshot s)\<lparr>sn_policy := Some (policy_public policy)\<rparr>\<rparr>"

section \<open>Marks\<close>

definition public_allocations :: "fifo_allocation list \<Rightarrow> fifo_allocation list" where
  "public_allocations as = map (\<lambda>a. a\<lparr>alloc_fees := py_round (alloc_fees a) 4\<rparr>) as"

definition lot_target_pct :: "paper_lot \<Rightarrow> real res" where
  "lot_target_pct l =
     (case map_of (sn_values (pl_snapshot l)) ''target_pct'' of
        None \<Rightarrow> Inl (ValueError ''Paper lot has no immutable target_pct'')
      | Some v \<Rightarrow> if v = PyNone then Inl (ValueError ''Paper lot has no immutable target_pct'') else py_float v)"

definition preview_one :: "inventory \<Rightarrow> real \<Rightarrow> fifo_match res" where
  "preview_one stock quantity =
     rbind (preview_allocations stock [quantity]) (\<lambda>ms. case ms of [] \<Rightarrow> Inl IndexError | m # _ \<Rightarrow> Inr m)"

definition lot_match :: "broker_env \<Rightarrow> inventory \<Rightarrow> paper_lot \<Rightarrow> (paper_lot \<times> fifo_match option) res" where
  "lot_match env stock l =
     (if on_nse env then rbind (preview_one stock (pl_quantity l)) (\<lambda>m. Inr (l, Some m)) else Inr (l, None))"

definition lot_marks_of ::
  "broker_env \<Rightarrow> real \<Rightarrow> (string \<times> real \<times> real) list \<Rightarrow> paper_lot \<Rightarrow> fifo_match option \<Rightarrow> lot_marks res" where
  "lot_marks_of env close exc l matched =
     (let cost_basis = (case matched of Some m \<Rightarrow> py_round (match_cost_basis_price m) 4 | None \<Rightarrow> pl_entry_price l);
          fees = (case matched of Some m \<Rightarrow> match_entry_fees m | None \<Rightarrow> pl_fees l);
          allocations = (case matched of
              Some m \<Rightarrow> public_allocations (match_allocations m)
            | None \<Rightarrow> [\<lparr>alloc_id = pl_id l, alloc_quantity = pl_quantity l, alloc_price = cost_basis, alloc_fees = fees\<rparr>])
      in rbind (case matched of
                  Some m \<Rightarrow> rbind (lot_target_pct l) (net_profit_target_price m (ms_fees (pb_market env)))
                | None \<Rightarrow> Inr (pl_target l)) (\<lambda>target.
         let (mae, mfe) = (case map_of exc (pl_id l) of
                             Some e \<Rightarrow> e | None \<Rightarrow> (or_float (pl_mae l) 0, or_float (pl_mfe l) 0))
         in Inr \<lparr>mk_last_price = close, mk_cost_basis = cost_basis, mk_allocations = allocations,
                 mk_target = target, mk_entry_fees = fees,
                 mk_unrealized = unrealized_pnl cost_basis close (pl_quantity l) fees,
                 mk_mae = mae, mk_mfe = mfe\<rparr>))"

text \<open>The portfolio's copy keeps the lot's own fees: only the database row takes those of the match.\<close>

definition mark_copy :: "lot_marks \<Rightarrow> paper_lot \<Rightarrow> paper_lot" where
  "mark_copy m l = (mark_lot m l)\<lparr>pl_fees := pl_fees l\<rparr>"

definition mark_step ::
  "broker_env \<Rightarrow> real \<Rightarrow> (string \<times> real \<times> real) list \<Rightarrow> broker \<Rightarrow> paper_lot \<times> fifo_match option
    \<Rightarrow> py_error \<times> broker + broker" where
  "mark_step env close exc b lm =
     rbind (with_broker b (lot_marks_of env close exc (fst lm) (snd lm))) (\<lambda>m.
       Inr (b\<lparr>bk_db := lot_mark (bk_db b) (pl_id (fst lm)) m,
              bk_portfolio := portfolio_replace_lot (bk_portfolio b) (mark_copy m (fst lm))\<rparr>))"

definition mark_open_lots ::
  "broker_env \<Rightarrow> broker \<Rightarrow> string \<Rightarrow> real \<Rightarrow> (string \<times> real \<times> real) list \<Rightarrow> paper_lot list
    \<Rightarrow> py_error \<times> broker + broker" where
  "mark_open_lots env b symbol close exc lots =
     (let sorted = sort_key (\<lambda>l. (pl_entry_at l, pl_number l)) lots
      in rbind (with_broker b (rmap_list (lot_match env (bk_inventories b symbol)) sorted)) (\<lambda>lms.
           rfold (mark_step env close exc) b lms))"

section \<open>Entries\<close>

definition reject_order :: "broker_env \<Rightarrow> broker \<Rightarrow> signal \<Rightarrow> real \<Rightarrow> string \<Rightarrow> broker" where
  "reject_order env b s price reason =
     b\<lparr>bk_db := snd (order_insert (bk_db b)
          \<lparr>od_id = [], od_account = ac_id (bk_account b), od_market = ms_market (pb_market env),
           od_signal = sg_signal_id s, od_strategy = sg_strategy s, od_version = sg_version s,
           od_symbol = sg_symbol s, od_side = BuySide, od_quantity = 0, od_requested_price = price,
           od_executed_price = None, od_fees = 0, od_slippage = 0, od_status = Rejected,
           od_reason = Some reason\<rparr>),
       bk_rejected := bk_rejected b + 1\<rparr>"

text \<open>\<open>max(lots, key=...)\<close> and \<open>min(lots, key=...)\<close>: the first lot of the extreme number.\<close>

definition latest_lot :: "paper_lot list \<Rightarrow> paper_lot res" where
  "latest_lot lots =
     (case lots of [] \<Rightarrow> Inl (ValueError ''max() arg is an empty sequence'')
      | l # ls \<Rightarrow> Inr (foldl (\<lambda>m x. if pl_number x > pl_number m then x else m) l ls))"

definition first_lot :: "paper_lot list \<Rightarrow> paper_lot res" where
  "first_lot lots =
     (case lots of [] \<Rightarrow> Inl (ValueError ''min() arg is an empty sequence'')
      | l # ls \<Rightarrow> Inr (foldl (\<lambda>m x. if pl_number x < pl_number m then x else m) l ls))"

text \<open>\<open>int(cycle_id.rsplit("Cycle", 1)[1])\<close>\<close>

fun after_last :: "string \<Rightarrow> string \<Rightarrow> string option" where
  "after_last sep [] = None"
| "after_last sep (c # cs) =
     (case after_last sep cs of
        Some t \<Rightarrow> Some t
      | None \<Rightarrow> if take (length sep) (c # cs) = sep then Some (drop (length sep) (c # cs)) else None)"

definition cycle_number_of :: "string \<Rightarrow> int res" where
  "cycle_number_of cycle =
     (case after_last ''Cycle'' cycle of
        None \<Rightarrow> Inl IndexError
      | Some t \<Rightarrow> (case parse_int t of
          None \<Rightarrow> Inl (ValueError ''invalid literal for int() with base 10'') | Some n \<Rightarrow> Inr n))"

definition show_int :: "int \<Rightarrow> string" where
  "show_int n = (if n < 0 then ''-'' @ show_nat (nat (- n)) else show_nat (nat n))"

definition paper_cycle_name :: "string \<Rightarrow> int \<Rightarrow> string" where
  "paper_cycle_name symbol n = symbol @ ''-Cycle'' @ show_int n"

record entry_plan =
  en_open_lots :: "paper_lot list"
  en_number :: int
  en_cycle :: int
  en_quantity :: real
  en_fill :: fill
  en_cost :: real

definition signal_timeframe :: "broker_env \<Rightarrow> signal \<Rightarrow> string" where
  "signal_timeframe env s = (if sg_timeframe s = [] then pb_timeframe env else sg_timeframe s)"

definition buys_today :: "market \<Rightarrow> day \<Rightarrow> paper_trade list \<Rightarrow> nat" where
  "buys_today m today trades = length (filter (\<lambda>t. pt_side t = BuySide \<and> local_date m (pt_at t) = today) trades)"

definition lot_exposure :: "paper_lot \<Rightarrow> real" where
  "lot_exposure l = or_float (Some (pl_cost_basis l)) (pl_entry_price l) * pl_quantity l"

definition portfolio_rejection ::
  "broker_env \<Rightarrow> broker \<Rightarrow> execution_policy \<Rightarrow> real \<Rightarrow> timestamp \<Rightarrow> bool \<Rightarrow> string option" where
  "portfolio_rejection env b policy proposed_cost moment opens_new_position =
     (let m = ms_market (pb_market env);
          open_lots = all_open (bk_portfolio b);
          positions = fromkeys (map (\<lambda>l. (pl_symbol l, pl_strategy l, pl_timeframe l)) open_lots);
          starting = ac_starting_balance (bk_account b);
          today = local_date m moment;
          realized_today = sum_list (map (\<lambda>l. or_float (pl_realized l) 0)
            (filter (\<lambda>l. map_option (local_date m) (pl_exit_at l) = Some today)
              (lots_list (bk_db b) (ac_id (bk_account b)) None 10000)));
          unrealized = sum_list (map pl_unrealized open_lots)
      in if opens_new_position \<and> real (length positions) \<ge> ep_maximum_open_positions policy
         then Some ''MAXIMUM_OPEN_POSITIONS''
         else if sum_list (map lot_exposure open_lots) + proposed_cost
                 > starting * ep_maximum_total_exposure_pct policy / 100
         then Some ''MAXIMUM_TOTAL_EXPOSURE''
         else if real (buys_today m today (trades_list (bk_db b) (ac_id (bk_account b)) 10000))
                 \<ge> ep_maximum_daily_trades policy
         then Some ''MAXIMUM_DAILY_TRADES''
         else if realized_today + unrealized \<le> - (starting * ep_maximum_daily_loss_pct policy / 100)
         then Some ''MAXIMUM_DAILY_LOSS''
         else None)"

text \<open>
  The entry of a signal up to the first write: a rejection reason (\<open>Inl\<close>) or the plan of the fill.
  \<open>cycle_lots\<close> are all lots the open cycle ever had.
\<close>

definition entry_position ::
  "broker \<Rightarrow> string \<Rightarrow> paper_lot list \<Rightarrow> int \<Rightarrow> (paper_lot list \<times> int \<times> int) res" where
  "entry_position b symbol open_lots cycles =
     (case open_lots of
        [] \<Rightarrow> Inr ([], 0, cycles + 1)
      | l # _ \<Rightarrow>
          let cycle_lots = lots_cycle (bk_db b) (ac_id (bk_account b)) symbol (pl_cycle l)
          in rbind (latest_lot cycle_lots) (\<lambda>latest.
               rbind (cycle_number_of (pl_cycle l)) (\<lambda>n. Inr (cycle_lots, pl_number latest, n))))"

definition entry_maximum :: "execution_policy \<Rightarrow> price_band_ladder option \<Rightarrow> real" where
  "entry_maximum policy ladder =
     (case ladder of
        Some l \<Rightarrow> min (ep_maximum_entries_per_cycle policy) (real (maximum_entries l))
      | None \<Rightarrow> ep_maximum_entries_per_cycle policy)"

definition entry_lot_size ::
  "broker_env \<Rightarrow> execution_policy \<Rightarrow> price_band_ladder option \<Rightarrow> paper_lot list \<Rightarrow> int \<Rightarrow> real \<Rightarrow> real res" where
  "entry_lot_size env policy ladder cycle_lots entry_number reference_price =
     (case ladder of
        Some l \<Rightarrow>
          if on_nse env then
            rbind (if cycle_lots = [] then Inr (fill_price (fee_buy (ms_fees (pb_market env)) reference_price 1))
                   else rbind (first_lot cycle_lots) (\<lambda>f. Inr (pl_entry_price f)))
              (\<lambda>first_price. rbind (ladder_quantity l entry_number first_price) (\<lambda>q. Inr (of_int q)))
          else policy_lot_quantity policy entry_number reference_price
      | None \<Rightarrow> policy_lot_quantity policy entry_number reference_price)"

definition dip_missed :: "price_band_ladder option \<Rightarrow> signal \<Rightarrow> paper_lot list \<Rightarrow> int \<Rightarrow> bool res" where
  "dip_missed ladder s cycle_lots entry_number =
     (case ladder of
        None \<Rightarrow> Inr False
      | Some l \<Rightarrow>
          if entry_number > 0 then
            rbind (latest_lot cycle_lots) (\<lambda>latest.
              Inr (\<not> additional_entry_allowed l (sg_price s) (pl_entry_price latest)))
          else Inr False)"

definition open_capital :: "broker_env \<Rightarrow> broker \<Rightarrow> string \<Rightarrow> paper_lot list \<Rightarrow> real" where
  "open_capital env b symbol open_lots =
     (if on_nse env then inv_cost (bk_inventories b symbol)
      else sum_list (map (\<lambda>l. pl_entry_price l * pl_quantity l) open_lots))"

definition price_entry ::
  "broker_env \<Rightarrow> broker \<Rightarrow> execution_policy \<Rightarrow> price_band_ladder option \<Rightarrow> signal \<Rightarrow> paper_lot list \<Rightarrow> paper_lot list
    \<Rightarrow> int \<Rightarrow> int \<Rightarrow> real \<Rightarrow> timestamp \<Rightarrow> (string + entry_plan) res" where
  "price_entry env b policy ladder s open_lots cycle_lots entry_number cycle_number reference_price entry_time =
     rbind (entry_lot_size env policy ladder cycle_lots entry_number reference_price) (\<lambda>quantity.
       let f = fee_buy (ms_fees (pb_market env)) reference_price quantity;
           cost = entry_cost (fill_price f) quantity (fill_fees f)
       in if case_option False (\<lambda>l. \<not> within_capital l (open_capital env b (sg_symbol s) open_lots) (fill_price f) quantity) ladder
          then Inr (Inl ''MAXIMUM_POSITION_CAPITAL'')
          else if cost > ac_cash_balance (bk_account b) then Inr (Inl ''INSUFFICIENT_FUNDS'')
          else case portfolio_rejection env b policy cost entry_time (open_lots = []) of
              Some reason \<Rightarrow> Inr (Inl reason)
            | None \<Rightarrow> Inr (Inr \<lparr>en_open_lots = open_lots, en_number = entry_number, en_cycle = cycle_number,
                               en_quantity = quantity, en_fill = f, en_cost = cost\<rparr>))"

definition plan_entry ::
  "broker_env \<Rightarrow> broker \<Rightarrow> execution_policy \<Rightarrow> signal \<Rightarrow> real \<Rightarrow> timestamp \<Rightarrow> (string + entry_plan) res" where
  "plan_entry env b policy s reference_price entry_time =
     (let open_lots = lots_for (bk_portfolio b) (sg_symbol s) (Some (sg_strategy s)) (Some (signal_timeframe env s))
      in rbind (ladder_from_config (sn_values (sg_snapshot s))) (\<lambda>ladder.
         rbind (cycle_state (bk_db b) (ac_id (bk_account b)) (sg_symbol s)) (\<lambda>(cycles, _).
         if open_lots \<noteq> [] \<and> \<not> ep_allow_additional_buys policy then Inr (Inl ''ADDITIONAL_BUYS_DISABLED'')
         else rbind (entry_position b (sg_symbol s) open_lots cycles) (\<lambda>(cycle_lots, entry_number, cycle_number).
           if of_int entry_number \<ge> entry_maximum policy ladder then Inr (Inl ''MAXIMUM_ENTRIES_PER_CYCLE'')
           else rbind (dip_missed ladder s cycle_lots entry_number) (\<lambda>missed.
             if missed then Inr (Inl ''DIP_THRESHOLD_NOT_REACHED'')
             else price_entry env b policy ladder s open_lots cycle_lots entry_number cycle_number
                    reference_price entry_time)))))"

definition entry_target_pct :: "signal \<Rightarrow> real res" where
  "entry_target_pct s =
     (let v = (case map_of (sn_values (sg_snapshot s)) ''target_pct'' of None \<Rightarrow> PyNone | Some v \<Rightarrow> v)
      in if py_truth v then py_float v
         else case sg_target s of
             None \<Rightarrow> Inr 1
           | Some t \<Rightarrow> if t = 0 then Inr 1
               else if sg_price s = 0 then Inl ZeroDivisionError else Inr ((t / sg_price s - 1) * 100))"

text \<open>The lot row of a fill, before the table fills in its own columns.\<close>

definition entry_lot ::
  "broker_env \<Rightarrow> broker \<Rightarrow> signal \<Rightarrow> entry_plan \<Rightarrow> string \<Rightarrow> real \<Rightarrow> real option \<Rightarrow> timestamp option \<Rightarrow> timestamp \<Rightarrow> paper_lot" where
  "entry_lot env b s plan order target stop expires entry_time =
     \<lparr>pl_id = [], pl_account = ac_id (bk_account b), pl_order = order, pl_signal = sg_signal_id s,
      pl_market = ms_market (pb_market env), pl_strategy = sg_strategy s, pl_version = sg_version s,
      pl_symbol = sg_symbol s, pl_timeframe = signal_timeframe env s,
      pl_cycle = paper_cycle_name (sg_symbol s) (en_cycle plan), pl_number = en_number plan + 1,
      pl_entry_at = entry_time, pl_entry_price = py_round (fill_price (en_fill plan)) 4,
      pl_cost_basis = 0, pl_allocations = [], pl_quantity = en_quantity plan, pl_target = target,
      pl_stop = (if stop = None then sg_stop s else stop), pl_expires = expires, pl_status = LotOpen,
      pl_exit_at = None, pl_exit_price = None, pl_realized = None,
      pl_unrealized = unrealized_pnl (py_round (fill_price (en_fill plan)) 4)
        (py_round (fill_price (en_fill plan)) 4) (en_quantity plan) (fill_fees (en_fill plan)),
      pl_fees = py_round (fill_fees (en_fill plan)) 4, pl_last_price = None, pl_mae = None, pl_mfe = None,
      pl_snapshot = sg_snapshot s\<rparr>"

definition entry_order :: "broker_env \<Rightarrow> broker \<Rightarrow> signal \<Rightarrow> entry_plan \<Rightarrow> real \<Rightarrow> paper_order" where
  "entry_order env b s plan reference_price =
     \<lparr>od_id = [], od_account = ac_id (bk_account b), od_market = ms_market (pb_market env),
      od_signal = sg_signal_id s, od_strategy = sg_strategy s, od_version = sg_version s,
      od_symbol = sg_symbol s, od_side = BuySide, od_quantity = en_quantity plan,
      od_requested_price = reference_price,
      od_executed_price = Some (py_round (fill_price (en_fill plan)) 4),
      od_fees = py_round (fill_fees (en_fill plan)) 4,
      od_slippage = py_round (fill_slippage (en_fill plan)) 4, od_status = Filled, od_reason = None\<rparr>"

definition entry_trade :: "broker_env \<Rightarrow> broker \<Rightarrow> signal \<Rightarrow> entry_plan \<Rightarrow> string \<Rightarrow> timestamp \<Rightarrow> paper_trade" where
  "entry_trade env b s plan lid entry_time =
     \<lparr>pt_id = 0, pt_account = ac_id (bk_account b), pt_lot = lid, pt_market = ms_market (pb_market env),
      pt_symbol = sg_symbol s, pt_side = BuySide, pt_quantity = en_quantity plan,
      pt_price = py_round (fill_price (en_fill plan)) 4, pt_fees = py_round (fill_fees (en_fill plan)) 4,
      pt_slippage = py_round (fill_slippage (en_fill plan)) 4, pt_reason = sg_reason s, pt_at = entry_time\<rparr>"

definition set_cash :: "broker \<Rightarrow> real \<Rightarrow> paper_db \<Rightarrow> broker" where
  "set_cash b cash db = b\<lparr>bk_db := db, bk_account := (bk_account b)\<lparr>ac_cash_balance := cash\<rparr>\<rparr>"

text \<open>The writes of a fill after its order: lot, trade, inventory, cash, portfolio.\<close>

definition book_entry ::
  "broker_env \<Rightarrow> broker \<Rightarrow> signal \<Rightarrow> entry_plan \<Rightarrow> string \<Rightarrow> real \<Rightarrow> real option \<Rightarrow> timestamp option \<Rightarrow> timestamp
    \<Rightarrow> paper_lot bk_res" where
  "book_entry env b s plan order target stop expires entry_time =
     rbind (with_broker b (lot_insert (bk_db b) (entry_lot env b s plan order target stop expires entry_time)))
       (\<lambda>(l, db).
        let b2 = b\<lparr>bk_db := trade_insert db (entry_trade env b s plan (pl_id l) entry_time)\<rparr>
        in rbind (if on_nse env
                  then with_broker b2 (fifo_add (bk_inventories b (sg_symbol s)) (pl_id l) entry_time
                         (py_round (fill_price (en_fill plan)) 4) (en_quantity plan)
                         (py_round (fill_fees (en_fill plan)) 4))
                  else Inr (bk_inventories b (sg_symbol s)))
             (\<lambda>stock.
              let b3 = b2\<lparr>bk_inventories := (bk_inventories b)(sg_symbol s := stock)\<rparr>
              in rbind (with_broker b3 (adjust_cash (bk_db b3) (ac_id (bk_account b)) (- en_cost plan)))
                   (\<lambda>(cash, db'). let b4 = set_cash b3 cash db'
                      in Inr (l, b4\<lparr>bk_portfolio := portfolio_add_lot (bk_portfolio b) l\<rparr>))))"

text \<open>From the targets on: book, mark every lot of the symbol, and return the new lot as marked.\<close>

definition complete_entry ::
  "broker_env \<Rightarrow> broker \<Rightarrow> execution_policy \<Rightarrow> signal \<Rightarrow> entry_plan \<Rightarrow> string \<Rightarrow> real \<Rightarrow> int \<Rightarrow> timestamp
    \<Rightarrow> paper_lot option bk_res" where
  "complete_entry env b policy s plan order target_pct minutes entry_time =
     (let (target, stop, expires) =
            policy_targets policy (py_round (fill_price (en_fill plan)) 4) target_pct entry_time minutes
      in rbind (book_entry env b s plan order target stop expires entry_time) (\<lambda>(l, b2).
         rbind (mark_open_lots env b2 (sg_symbol s) (py_round (fill_price (en_fill plan)) 4) []
                 (lots_for (bk_portfolio b2) (sg_symbol s) None None)) (\<lambda>b3.
           case List.find (\<lambda>x. pl_id x = pl_id l) (lots_for (bk_portfolio b3) (sg_symbol s) None None) of
             None \<Rightarrow> Inl (RuntimeError ''StopIteration'', b3)
           | Some l' \<Rightarrow> Inr (Some l', b3\<lparr>bk_filled := bk_filled b3 + 1\<rparr>))))"

definition execute_entry ::
  "broker_env \<Rightarrow> broker \<Rightarrow> execution_policy \<Rightarrow> signal \<Rightarrow> entry_plan \<Rightarrow> real \<Rightarrow> timestamp \<Rightarrow> paper_lot option bk_res" where
  "execute_entry env b policy s plan reference_price entry_time =
     (case order_insert (bk_db b) (entry_order env b s plan reference_price) of
        (None, _) \<Rightarrow> Inr (None, b\<lparr>bk_rejected := bk_rejected b + 1\<rparr>)
      | (Some order, db) \<Rightarrow>
          rbind (with_broker (b\<lparr>bk_db := db\<rparr>) (entry_target_pct s)) (\<lambda>target_pct.
          rbind (with_broker (b\<lparr>bk_db := db\<rparr>) (spec_minutes (pb_market env) (signal_timeframe env s))) (\<lambda>minutes.
            complete_entry env (b\<lparr>bk_db := db\<rparr>) policy s plan (od_id order) target_pct minutes entry_time)))"

definition fill_entry ::
  "broker_env \<Rightarrow> broker \<Rightarrow> signal \<Rightarrow> real \<Rightarrow> timestamp \<Rightarrow> paper_lot option bk_res" where
  "fill_entry env b s reference_price entry_time =
     rbind (with_broker b (policy_for env (SignalItem s))) (\<lambda>policy.
     rbind (with_broker b (plan_entry env b policy s reference_price entry_time)) (\<lambda>d.
       case d of
         Inl reason \<Rightarrow> Inr (None, reject_order env b s reference_price reason)
       | Inr plan \<Rightarrow> execute_entry env b policy s plan reference_price entry_time))"

section \<open>Signals in\<close>

definition persist_pending_entry ::
  "broker \<Rightarrow> signal \<Rightarrow> string option \<Rightarrow> int option \<Rightarrow> timestamp \<Rightarrow> broker" where
  "persist_pending_entry b s cycle lot_number now =
     (case pending_insert (bk_db b) s (ac_id (bk_account b)) cycle lot_number now of
        (None, _) \<Rightarrow> b
      | (Some stored, db) \<Rightarrow>
          b\<lparr>bk_db := db, bk_portfolio := portfolio_add_pending (bk_portfolio b) stored\<rparr>)"

definition on_signal :: "broker_env \<Rightarrow> broker \<Rightarrow> signal \<Rightarrow> timestamp \<Rightarrow> paper_lot option bk_res" where
  "on_signal env b s now =
     (if sg_market s \<noteq> ms_market (pb_market env) \<or> sg_type s \<noteq> ''BUY'' \<or> \<not> pb_entry_allowed env s
      then Inr (None, b)
      else rbind (with_broker b (policy_for env (SignalItem s))) (\<lambda>policy.
        rbind (with_broker b (case lots_for (bk_portfolio b) (sg_symbol s) (Some (sg_strategy s)) (Some (sg_timeframe s)) of
                 [] \<Rightarrow> Inr None | l # _ \<Rightarrow> ladder_from_config (sn_values (pl_snapshot l)))) (\<lambda>ladder.
          if ladder \<noteq> None then Inr (None, b)
          else if ep_price_model policy = ''NEXT_OPEN''
          then Inr (None, persist_pending_entry b (with_policy_snapshot s policy) None None now)
          else fill_entry env b (with_policy_snapshot s policy) (sg_price s) (sg_candle_at s))))"

section \<open>Candles in\<close>

record price_bar =
  cd_open :: real
  cd_high :: real
  cd_low :: real
  cd_close :: real
  cd_at :: timestamp

text \<open>\<open>Timestamp.ceil\<close> rounds the local wall clock up to a multiple of the interval.\<close>

definition ceil_stamp :: "market \<Rightarrow> int \<Rightarrow> timestamp \<Rightarrow> timestamp" where
  "ceil_stamp m interval t = - ((- (t + zone_offset_us m)) div interval) * interval - zone_offset_us m"

definition pending_is_executable :: "broker_env \<Rightarrow> signal \<Rightarrow> timestamp \<Rightarrow> string option \<Rightarrow> bool res" where
  "pending_is_executable env s stamp execution_timeframe =
     (if stamp \<le> sg_candle_at s then Inr False
      else case (sg_created_at s, execution_timeframe) of
          (Some created, Some tf) \<Rightarrow>
            rbind (spec_minutes (pb_market env) tf) (\<lambda>minutes.
              Inr (stamp \<ge> ceil_stamp (ms_market (pb_market env)) (minutes * MINUTE_US) created))
        | _ \<Rightarrow> Inr True)"

definition drop_pending :: "broker \<Rightarrow> signal \<Rightarrow> broker" where
  "drop_pending b s =
     (case sg_pending_id s of None \<Rightarrow> b | Some entry \<Rightarrow> b\<lparr>bk_db := pending_delete (bk_db b) entry\<rparr>)"

definition pending_step ::
  "broker_env \<Rightarrow> price_bar \<Rightarrow> string option \<Rightarrow> string option \<Rightarrow> signal list \<times> broker \<Rightarrow> signal \<Rightarrow> signal list bk_res" where
  "pending_step env c pending_timeframe execution_timeframe st s =
     (let (deferred, b) = st in
      if \<not> pb_entry_allowed env s then Inr (deferred, drop_pending b s)
      else if pending_timeframe \<noteq> None \<and> pending_timeframe \<noteq> Some (sg_timeframe s) then Inr (deferred @ [s], b)
      else rbind (with_broker b (pending_is_executable env s (cd_at c) execution_timeframe)) (\<lambda>due.
        if due then rbind (fill_entry env b s (cd_open c) (cd_at c)) (\<lambda>(_, b'). Inr (deferred, drop_pending b' s))
        else Inr (deferred @ [s], b)))"

definition fill_pending_entries ::
  "broker_env \<Rightarrow> broker \<Rightarrow> string \<Rightarrow> price_bar \<Rightarrow> string option \<Rightarrow> string option \<Rightarrow> py_error \<times> broker + broker" where
  "fill_pending_entries env b symbol c pending_timeframe execution_timeframe =
     (let pending = dict_get (pf_pending (bk_portfolio b)) symbol;
          b0 = b\<lparr>bk_portfolio := (bk_portfolio b)\<lparr>pf_pending := AList.delete symbol (pf_pending (bk_portfolio b))\<rparr>\<rparr>
      in rbind (rfold (pending_step env c pending_timeframe execution_timeframe) ([], b0) pending) (\<lambda>(deferred, b1).
           Inr (if deferred \<noteq> []
                then b1\<lparr>bk_portfolio := (bk_portfolio b1)\<lparr>pf_pending :=
                       AList.update symbol deferred (pf_pending (bk_portfolio b1))\<rparr>\<rparr>
                else b1)))"

text \<open>Closing a lot; on NSE the sale takes the oldest shares, whichever lot it is.\<close>

definition close_costs :: "broker_env \<Rightarrow> broker \<Rightarrow> paper_lot \<Rightarrow> (real \<times> real \<times> fifo_allocation list) res" where
  "close_costs env b l =
     (if on_nse env then
        rbind (preview_one (bk_inventories b (pl_symbol l)) (pl_quantity l)) (\<lambda>m.
          Inr (py_round (match_cost_basis_price m) 4, match_entry_fees m, public_allocations (match_allocations m)))
      else Inr (pl_entry_price l, pl_fees l,
        [\<lparr>alloc_id = pl_id l, alloc_quantity = pl_quantity l, alloc_price = pl_entry_price l, alloc_fees = pl_fees l\<rparr>]))"

definition exit_trade :: "broker_env \<Rightarrow> broker \<Rightarrow> paper_lot \<Rightarrow> fill \<Rightarrow> string \<Rightarrow> timestamp \<Rightarrow> paper_trade" where
  "exit_trade env b l f reason stamp =
     \<lparr>pt_id = 0, pt_account = ac_id (bk_account b), pt_lot = pl_id l, pt_market = ms_market (pb_market env),
      pt_symbol = pl_symbol l, pt_side = SellSide, pt_quantity = pl_quantity l,
      pt_price = py_round (fill_price f) 4, pt_fees = py_round (fill_fees f) 4,
      pt_slippage = py_round (fill_slippage f) 4, pt_reason = reason, pt_at = stamp\<rparr>"

definition status_name :: "lot_status \<Rightarrow> string" where
  "status_name s = (case s of LotOpen \<Rightarrow> ''OPEN'' | LotTargetHit \<Rightarrow> ''TARGET_HIT'' | LotStopped \<Rightarrow> ''STOPPED''
     | LotExpired \<Rightarrow> ''EXPIRED'' | LotClosed \<Rightarrow> ''CLOSED'')"

definition close_lot ::
  "broker_env \<Rightarrow> broker \<Rightarrow> paper_lot \<Rightarrow> lot_status \<Rightarrow> real \<Rightarrow> timestamp \<Rightarrow> real \<Rightarrow> real \<Rightarrow> paper_lot bk_res" where
  "close_lot env b l status raw_price stamp mae mfe =
     rbind (with_broker b (policy_for env (LotItem l))) (\<lambda>_.
     let f = fee_sell (ms_fees (pb_market env)) raw_price (pl_quantity l) in
     rbind (with_broker b (close_costs env b l)) (\<lambda>(cost_basis, fees, allocations).
     let total_fees = py_round (fees + fill_fees f) 4;
         realized = realized_pnl cost_basis (py_round (fill_price f) 4) (pl_quantity l) total_fees;
         b1 = b\<lparr>bk_db := lot_mark (bk_db b) (pl_id l)
                 \<lparr>mk_last_price = raw_price, mk_cost_basis = cost_basis, mk_allocations = allocations,
                  mk_target = pl_target l, mk_entry_fees = fees, mk_unrealized = 0, mk_mae = mae, mk_mfe = mfe\<rparr>\<rparr>
     in rbind (with_broker b1 (lot_close (bk_db b1) (pl_id l) status stamp (py_round (fill_price f) 4)
                 cost_basis allocations realized total_fees)) (\<lambda>(updated, db).
     let b2 = b1\<lparr>bk_db := trade_insert db (exit_trade env b l f (status_name status) stamp)\<rparr>
     in rbind (if on_nse env
               then rbind (with_broker b2 (fifo_consume (bk_inventories b (pl_symbol l)) (pl_quantity l)))
                      (\<lambda>(_, stock). Inr stock)
               else Inr (bk_inventories b (pl_symbol l))) (\<lambda>stock.
     let b3 = b2\<lparr>bk_inventories := (bk_inventories b)(pl_symbol l := stock)\<rparr>
     in rbind (with_broker b3 (adjust_cash (bk_db b3) (ac_id (bk_account b))
                 (exit_proceeds (fill_price f) (pl_quantity l) (fill_fees f)))) (\<lambda>(cash, db').
     let b4 = set_cash b3 cash db'
     in Inr (updated, b4\<lparr>bk_portfolio := portfolio_remove_lot (bk_portfolio b) (pl_id l) (pl_symbol l)\<rparr>))))))"

record exit_pass =
  xp_broker :: broker
  xp_closed :: "paper_lot list"
  xp_survivors :: "(string \<times> real \<times> real) list"
  xp_nse_exit :: bool

text \<open>Which exit a candle triggers: stop before target before expiry.\<close>

definition exit_trigger :: "bool \<Rightarrow> price_bar \<Rightarrow> paper_lot \<Rightarrow> (lot_status \<times> real) option" where
  "exit_trigger nse_exit c l =
     (if case_option False (\<lambda>s. cd_low c \<le> s) (pl_stop l) then Some (LotStopped, the (pl_stop l))
      else if cd_high c \<ge> pl_target l \<and> \<not> nse_exit then Some (LotTargetHit, pl_target l)
      else if case_option False (\<lambda>e. cd_at c \<ge> e) (pl_expires l) then Some (LotExpired, cd_close c)
      else None)"

definition exit_step :: "broker_env \<Rightarrow> price_bar \<Rightarrow> exit_pass \<Rightarrow> paper_lot \<Rightarrow> py_error \<times> broker + exit_pass" where
  "exit_step env c xp l =
     (if pl_entry_at l \<ge> cd_at c then Inr xp
      else rbind (with_broker (xp_broker xp) (excursions (pl_entry_price l) (cd_low c) (cd_high c) (pl_mae l) (pl_mfe l)))
        (\<lambda>(mae, mfe). case exit_trigger (xp_nse_exit xp) c l of
           None \<Rightarrow> Inr (xp\<lparr>xp_survivors := AList.update (pl_id l) (mae, mfe) (xp_survivors xp)\<rparr>)
         | Some (status, price) \<Rightarrow>
             rbind (close_lot env (xp_broker xp) l status price (cd_at c) mae mfe) (\<lambda>(closed, b).
               Inr (xp\<lparr>xp_broker := b, xp_closed := xp_closed xp @ [closed],
                       xp_nse_exit := xp_nse_exit xp \<or> on_nse env\<rparr>))))"

definition ladder_signal :: "broker_env \<Rightarrow> paper_lot \<Rightarrow> string \<Rightarrow> string \<Rightarrow> real \<Rightarrow> timestamp \<Rightarrow> real \<Rightarrow> signal" where
  "ladder_signal env first symbol timeframe close stamp target_pct =
     \<lparr>sg_signal_id = None, sg_market = ms_market (pb_market env), sg_type = ''BUY'',
      sg_strategy = pl_strategy first, sg_version = pl_version first, sg_symbol = symbol,
      sg_timeframe = timeframe, sg_candle_at = stamp, sg_price = close,
      sg_target = Some (py_round (close * (1 + target_pct / 100)) 4), sg_stop = None,
      sg_snapshot = pl_snapshot first, sg_reason = ''LADDER_DIP_ENTRY'', sg_pending_id = None,
      sg_cycle = None, sg_lot_number = None, sg_created_at = None\<rparr>"

definition ladder_reached :: "execution_policy \<Rightarrow> price_band_ladder \<Rightarrow> paper_lot \<Rightarrow> real \<Rightarrow> bool" where
  "ladder_reached policy ladder latest close \<longleftrightarrow>
     \<not> (of_int (pl_number latest) \<ge> min (ep_maximum_entries_per_cycle policy) (real (maximum_entries ladder))
        \<or> \<not> additional_entry_allowed ladder close (pl_entry_price latest))"

definition queue_ladder_entry ::
  "broker_env \<Rightarrow> timestamp \<Rightarrow> string \<Rightarrow> real \<Rightarrow> timestamp \<Rightarrow> broker \<Rightarrow> string \<times> string \<Rightarrow> py_error \<times> broker + broker" where
  "queue_ladder_entry env now symbol close stamp b key =
     (let (strategy_id, timeframe) = key;
          open_lots = lots_for (bk_portfolio b) symbol (Some strategy_id) (Some timeframe);
          matching = list_ex (\<lambda>s. sg_strategy s = strategy_id \<and> sg_timeframe s = timeframe)
            (dict_get (pf_pending (bk_portfolio b)) symbol)
      in case open_lots of
           [] \<Rightarrow> Inr b
         | l # _ \<Rightarrow>
             if matching then Inr b
             else let cycle_lots = lots_cycle (bk_db b) (ac_id (bk_account b)) symbol (pl_cycle l)
             in if cycle_lots = [] then Inr b
             else rbind (with_broker b (first_lot cycle_lots)) (\<lambda>first.
               rbind (with_broker b (latest_lot cycle_lots)) (\<lambda>latest.
               rbind (with_broker b (policy_for env (LotItem first))) (\<lambda>policy.
               if \<not> ep_allow_additional_buys policy then Inr b
               else rbind (with_broker b (ladder_from_config (sn_values (pl_snapshot first)))) (\<lambda>ladder.
                 case ladder of
                   None \<Rightarrow> Inr b
                 | Some lad \<Rightarrow>
                     if \<not> ladder_reached policy lad latest close then Inr b
                     else rbind (with_broker b (required_float (sn_values (pl_snapshot first)) ''target_pct'')) (\<lambda>target_pct.
                       let s = ladder_signal env first symbol timeframe close stamp target_pct
                       in if \<not> pb_entry_allowed env s then Inr b
                          else Inr (persist_pending_entry b s (Some (pl_cycle l)) (Some (pl_number latest + 1)) now)))))))"

definition process_market_candle ::
  "broker_env \<Rightarrow> broker \<Rightarrow> string \<Rightarrow> price_bar \<Rightarrow> string option \<Rightarrow> string option \<Rightarrow> string option \<Rightarrow> timestamp
    \<Rightarrow> paper_lot list bk_res" where
  "process_market_candle env b symbol c pending_timeframe lot_timeframe execution_timeframe now =
     rbind (fill_pending_entries env b symbol c pending_timeframe execution_timeframe) (\<lambda>b1.
     rbind (rfold (exit_step env c) \<lparr>xp_broker = b1, xp_closed = [], xp_survivors = [], xp_nse_exit = False\<rparr>
             (lots_for (bk_portfolio b1) symbol None lot_timeframe)) (\<lambda>xp.
     let remaining = lots_for (bk_portfolio (xp_broker xp)) symbol None lot_timeframe
     in rbind (mark_open_lots env (xp_broker xp) symbol (cd_close c) (xp_survivors xp) remaining) (\<lambda>b2.
        rbind (rfold (queue_ladder_entry env now symbol (cd_close c) (cd_at c)) b2
                (fromkeys (map (\<lambda>l. (pl_strategy l, pl_timeframe l)) remaining))) (\<lambda>b3.
          Inr (xp_closed xp, b3)))))"

definition on_completed_candle ::
  "broker_env \<Rightarrow> broker \<Rightarrow> string \<Rightarrow> price_bar \<Rightarrow> string option \<Rightarrow> timestamp \<Rightarrow> paper_lot list bk_res" where
  "on_completed_candle env b symbol c timeframe now =
     (let tf = (case timeframe of Some t \<Rightarrow> if t = [] then pb_timeframe env else t | None \<Rightarrow> pb_timeframe env)
      in process_market_candle env b symbol c (Some tf) (if tf = [] then None else Some tf) None now)"

definition on_market_candle ::
  "broker_env \<Rightarrow> broker \<Rightarrow> string \<Rightarrow> price_bar \<Rightarrow> string \<Rightarrow> timestamp \<Rightarrow> paper_lot list bk_res" where
  "on_market_candle env b symbol c execution_timeframe now =
     process_market_candle env b symbol c None None (Some execution_timeframe) now"

definition close_lot_manually ::
  "broker_env \<Rightarrow> broker \<Rightarrow> string \<Rightarrow> timestamp \<Rightarrow> paper_lot bk_res" where
  "close_lot_manually env b lid stamp =
     (case List.find (\<lambda>l. pl_id l = lid) (all_open (bk_portfolio b)) of
        None \<Rightarrow> Inl (KeyError ''Open paper lot was not found'', b)
      | Some l \<Rightarrow>
          let price = or_float (pl_last_price l) 0
          in if price \<le> 0 then Inl (ValueError ''A current market mark is unavailable'', b)
             else rbind (with_broker b (excursions (pl_entry_price l) price price (pl_mae l) (pl_mfe l))) (\<lambda>(mae, mfe).
               rbind (close_lot env b l LotClosed price stamp mae mfe) (\<lambda>(closed, b1).
               rbind (mark_open_lots env b1 (pl_symbol l) price [] (lots_for (bk_portfolio b1) (pl_symbol l) None None)) (\<lambda>b2.
                 Inr (closed, b2)))))"

section \<open>Views\<close>

definition tracked_symbols :: "broker \<Rightarrow> string list" where
  "tracked_symbols b =
     sort (remdups (map fst (pf_open_lots (bk_portfolio b)) @ map fst (pf_pending (bk_portfolio b))))"

definition broker_positions :: "broker \<Rightarrow> paper_lot list" where
  "broker_positions b = sort_key (\<lambda>l. (pl_symbol l, pl_entry_at l, pl_number l)) (all_open (bk_portfolio b))"

definition broker_summary :: "broker_env \<Rightarrow> broker \<Rightarrow> timestamp \<Rightarrow> account_summary" where
  "broker_summary env b now =
     (let account = (case account_get (bk_db b) (ms_market (pb_market env)) of Some a \<Rightarrow> a | None \<Rightarrow> bk_account b)
      in accounting_summary account (all_open (bk_portfolio b))
           (filter (\<lambda>l. pl_status l \<noteq> LotOpen) (lots_list (bk_db b) (ac_id account) None 5000))
           (ms_market (pb_market env)) now)"

end
