(* ===== verification/Paper_Invariants.thy ===== *)
theory Paper_Invariants
  imports Paper_Broker
begin

text \<open>
  Invariants of the paper broker. \<open>apply_op\<close> runs one operation; \<open>op_result\<close> is the state it leaves,
  also when it raises. What holds even across failed operations is proved with the calculus of
  \<open>ends\<close>; what successful operations keep is proved once, in the locale \<open>broker_invariant\<close>, from
  what its primitives (mark, order, booking, closing) keep, and interpreted on each invariant.
\<close>

section \<open>Operations\<close>

datatype broker_op =
    OnSignal signal timestamp
  | OnCompletedCandle string price_bar "string option" timestamp
  | OnMarketCandle string price_bar string timestamp
  | CloseLot string timestamp
  | Reset "real option" timestamp

definition only_state :: "'a bk_res \<Rightarrow> py_error \<times> broker + broker" where
  "only_state r = (case r of Inl e \<Rightarrow> Inl e | Inr (_, b) \<Rightarrow> Inr b)"

fun apply_op :: "broker_env \<Rightarrow> broker_op \<Rightarrow> broker \<Rightarrow> py_error \<times> broker + broker" where
  "apply_op env (OnSignal s now) b = only_state (on_signal env b s now)"
| "apply_op env (OnCompletedCandle k c tf now) b = only_state (on_completed_candle env b k c tf now)"
| "apply_op env (OnMarketCandle k c tf now) b = only_state (on_market_candle env b k c tf now)"
| "apply_op env (CloseLot lid now) b = only_state (close_lot_manually env b lid now)"
| "apply_op env (Reset balance now) b = only_state (broker_reset env b balance now)"

definition op_result :: "py_error \<times> broker + broker \<Rightarrow> broker" where
  "op_result r = (case r of Inl (_, b) \<Rightarrow> b | Inr b \<Rightarrow> b)"

definition run_ops :: "broker_env \<Rightarrow> broker \<Rightarrow> broker_op list \<Rightarrow> broker" where
  "run_ops env b ops = foldl (\<lambda>s x. op_result (apply_op env x s)) b ops"

abbreviation ends_in :: "(broker \<Rightarrow> bool) \<Rightarrow> 'a bk_res \<Rightarrow> bool" where
  "ends_in P r \<equiv> ends (\<lambda>(_, b). P b) (\<lambda>(_, b). P b) r"

abbreviation ends_state :: "(broker \<Rightarrow> bool) \<Rightarrow> py_error \<times> broker + broker \<Rightarrow> bool" where
  "ends_state P r \<equiv> ends (\<lambda>(_, b). P b) P r"

lemma with_broker_simps [simp]:
  "with_broker b (Inl e) = Inl (e, b)" "with_broker b (Inr x) = Inr x"
  "with_broker b m = Inr y \<longleftrightarrow> m = Inr y"
  by (auto simp: with_broker_def split: sum.splits)

lemma ends_with_broker: "(\<And>e. E (e, b)) \<Longrightarrow> (\<And>x. m = Inr x \<Longrightarrow> Q x) \<Longrightarrow> ends E Q (with_broker b m)"
  by (cases m) simp_all

lemma ends_only_state [simp]: "ends E P (only_state r) \<longleftrightarrow> ends E (\<lambda>(_, b). P b) r"
  by (cases r) (auto simp: only_state_def)

lemma ends_op_result: "ends_state P r \<Longrightarrow> P (op_result r)"
  by (cases r) (auto simp: op_result_def)

section \<open>One filled order per signal\<close>

definition opening_keys :: "paper_db \<Rightarrow> (string \<times> string option) list" where
  "opening_keys db = map (\<lambda>r. (od_account r, od_signal r))
     (filter (\<lambda>r. od_signal r \<noteq> None \<and> od_side r = BuySide \<and> od_status r = Filled) (db_orders db))"

abbreviation orders_unique :: "broker \<Rightarrow> bool" where
  "orders_unique b \<equiv> distinct (opening_keys (bk_db b))"

lemma order_insert_unique:
  "distinct (opening_keys db) \<Longrightarrow> distinct (opening_keys (snd (order_insert db r)))"
  by (auto simp: opening_keys_def order_insert_def order_conflicts_def opens_signal_def Let_def list_ex_iff
      split: option.splits)

text \<open>The operations that never touch the orders.\<close>

lemma db_orders_frame [simp]:
  "db_orders (lot_mark db lid m) = db_orders db"
  "db_orders (trade_insert db t) = db_orders db"
  "db_orders (pending_delete db p) = db_orders db"
  "lot_insert db v = Inr (l, db') \<Longrightarrow> db_orders db' = db_orders db"
  "lot_close db lid st x xp cb al rl fs = Inr (l, db') \<Longrightarrow> db_orders db' = db_orders db"
  "adjust_cash db a d = Inr (c, db') \<Longrightarrow> db_orders db' = db_orders db"
  "pending_insert db s a cy n now = (r, db') \<Longrightarrow> db_orders db' = db_orders db"
  by (auto simp: lot_mark_def update_open_def trade_insert_def pending_delete_def lot_insert_def Let_def
      lot_close_def adjust_cash_def pending_insert_def rbind_eq_Inr split: option.splits if_splits)

lemma opening_keys_frame: "db_orders db' = db_orders db \<Longrightarrow> opening_keys db' = opening_keys db"
  by (simp add: opening_keys_def)

lemma mark_step_unique: "orders_unique b \<Longrightarrow> ends_state orders_unique (mark_step env c exc b lm)"
  unfolding mark_step_def
  by (auto intro!: ends_rbind ends_with_broker simp: opening_keys_def)

lemma mark_open_lots_unique:
  "orders_unique b \<Longrightarrow> ends_state orders_unique (mark_open_lots env b k c exc ls)"
  unfolding mark_open_lots_def Let_def
  by (auto intro!: ends_rbind ends_with_broker ends_rfold mark_step_unique)

lemma reject_order_unique: "orders_unique b \<Longrightarrow> orders_unique (reject_order env b s p r)"
  by (simp add: reject_order_def order_insert_unique)

lemma book_entry_unique:
  "orders_unique b \<Longrightarrow> ends_in orders_unique (book_entry env b s plan od t st ex now)"
  unfolding book_entry_def Let_def
  by (auto intro!: ends_rbind ends_with_broker simp: opening_keys_def set_cash_def)

lemma execute_entry_unique:
  "orders_unique b \<Longrightarrow> ends_in orders_unique (execute_entry env b policy s plan p now)"
proof -
  assume u: "orders_unique b"
  obtain r db where r: "order_insert (bk_db b) (entry_order env b s plan p) = (r, db)" by fastforce
  have u1: "distinct (opening_keys db)" using order_insert_unique [OF u, of "entry_order env b s plan p"] r by simp
  have "ends_in orders_unique (complete_entry env (b\<lparr>bk_db := db\<rparr>) policy s plan od tp mn now)" for od tp mn
    using u1 unfolding complete_entry_def Let_def
    by (auto intro!: ends_rbind ends_mono [OF book_entry_unique] ends_mono [OF mark_open_lots_unique]
        split: prod.split option.split)
  with r u u1 show ?thesis
    unfolding execute_entry_def by (auto intro!: ends_rbind ends_with_broker split: option.split)
qed

lemma fill_entry_unique: "orders_unique b \<Longrightarrow> ends_in orders_unique (fill_entry env b s p now)"
  unfolding fill_entry_def
  by (auto intro!: ends_rbind ends_with_broker execute_entry_unique reject_order_unique split: sum.split)

lemma persist_pending_unique: "orders_unique b \<Longrightarrow> orders_unique (persist_pending_entry b s cy n now)"
  by (auto simp: persist_pending_entry_def opening_keys_def split: prod.split option.split)

lemma drop_pending_unique: "orders_unique b \<Longrightarrow> orders_unique (drop_pending b s)"
  by (auto simp: drop_pending_def opening_keys_def split: option.split)

lemma on_signal_unique: "orders_unique b \<Longrightarrow> ends_in orders_unique (on_signal env b s now)"
  unfolding on_signal_def
  by (auto intro!: ends_rbind ends_with_broker fill_entry_unique persist_pending_unique)

lemma fill_pending_unique:
  "orders_unique b \<Longrightarrow> ends_state orders_unique (fill_pending_entries env b k c ptf etf)"
proof -
  assume u: "orders_unique b"
  have step: "ends_in orders_unique (pending_step env c ptf etf (d, b') s)" if "orders_unique b'" for d b' s
    using that unfolding pending_step_def Let_def
    by (auto intro!: ends_rbind ends_with_broker ends_mono [OF fill_entry_unique] drop_pending_unique)
  have loop: "ends_in orders_unique (rfold (pending_step env c ptf etf) (d, b') ss)" if "orders_unique b'" for d b' ss
    using that step by (intro ends_rfold) auto
  show ?thesis unfolding fill_pending_entries_def Let_def
    by (rule ends_rbind, rule ends_mono [OF loop]) (use u in auto)
qed

lemma close_lot_unique: "orders_unique b \<Longrightarrow> ends_in orders_unique (close_lot env b l st p now mae mfe)"
  unfolding close_lot_def Let_def
  by (auto intro!: ends_rbind ends_with_broker simp: opening_keys_def set_cash_def)

lemma exit_step_unique:
  "orders_unique (xp_broker xp) \<Longrightarrow>
   ends (\<lambda>(_, b). orders_unique b) (\<lambda>x. orders_unique (xp_broker x)) (exit_step env c xp l)"
  unfolding exit_step_def
  by (auto intro!: ends_rbind ends_with_broker ends_mono [OF close_lot_unique] split: option.split)

lemma queue_ladder_unique: "orders_unique b \<Longrightarrow> ends_state orders_unique (queue_ladder_entry env now k c at' b key)"
  unfolding queue_ladder_entry_def Let_def
  by (auto intro!: ends_rbind ends_with_broker persist_pending_unique split: prod.split list.split option.split)

lemma process_candle_unique:
  "orders_unique b \<Longrightarrow> ends_in orders_unique (process_market_candle env b k c ptf ltf etf now)"
  unfolding process_market_candle_def Let_def
  by (auto intro!: ends_rbind ends_mono [OF fill_pending_unique] ends_mono [OF mark_open_lots_unique]
      ends_mono [OF ends_rfold [where P = "\<lambda>x. orders_unique (xp_broker x)"]] exit_step_unique
      ends_mono [OF ends_rfold [where P = orders_unique]] queue_ladder_unique)

lemma close_manually_unique: "orders_unique b \<Longrightarrow> ends_in orders_unique (close_lot_manually env b lid now)"
  unfolding close_lot_manually_def Let_def
  by (auto intro!: ends_rbind ends_with_broker ends_mono [OF close_lot_unique]
      ends_mono [OF mark_open_lots_unique] split: option.split)

lemma reset_unique: "orders_unique b \<Longrightarrow> ends_in orders_unique (broker_reset env b balance now)"
proof -
  assume u: "orders_unique b"
  have "distinct (opening_keys db')" if "account_reset (pending_clear (bk_db b) a) m bal r now = Inr (ac, db')" for a m bal r ac db'
  proof -
    from that obtain Q where "db_orders db' = filter Q (db_orders (bk_db b))"
      by (auto simp: account_reset_def pending_clear_def Let_def split: option.splits)
    moreover have "distinct (map g (filter R (filter Q xs)))" if "distinct (map g (filter R xs))"
      for g :: "paper_order \<Rightarrow> string \<times> string option" and R xs
      using that by (induction xs) (auto simp: image_iff)
    ultimately show ?thesis using u by (simp only: opening_keys_def)
  qed
  with u show ?thesis unfolding broker_reset_def Let_def
    by (auto intro!: ends_rbind ends_with_broker simp: opening_keys_def pending_clear_def)
qed

lemma apply_op_unique: "orders_unique b \<Longrightarrow> ends_state orders_unique (apply_op env x b)"
  by (cases x) (auto simp: on_completed_candle_def on_market_candle_def Let_def
      intro!: on_signal_unique process_candle_unique close_manually_unique reset_unique)

lemma run_ops_unique: "orders_unique b \<Longrightarrow> orders_unique (run_ops env b ops)"
  unfolding run_ops_def
  by (induction ops arbitrary: b) (auto intro: ends_op_result [OF apply_op_unique])

section \<open>The portfolio mirrors the tables\<close>

text \<open>
  The portfolio's copy of a lot differs from its row in the fees only: a mark stores the fees of the
  FIFO match in the row and leaves the copy's own.
\<close>

definition nofees :: "paper_lot \<Rightarrow> paper_lot" where
  "nofees l = l\<lparr>pl_fees := 0\<rparr>"

definition open_rows :: "paper_db \<Rightarrow> string \<Rightarrow> paper_lot list" where
  "open_rows db k = filter (\<lambda>l. pl_symbol l = k \<and> pl_status l = LotOpen) (db_lots db)"

abbreviation held :: "broker \<Rightarrow> string \<Rightarrow> paper_lot list" where
  "held b k \<equiv> dict_get (pf_open_lots (bk_portfolio b)) k"

definition core_inv :: "broker_env \<Rightarrow> broker \<Rightarrow> bool" where
  "core_inv env b \<longleftrightarrow>
     db_accounts (bk_db b) = [bk_account b] \<and> ac_market (bk_account b) = ms_market (pb_market env)
     \<and> (\<forall>l \<in> set (db_lots (bk_db b)). pl_account l = ac_id (bk_account b) \<and> (\<exists>n < db_next (bk_db b). pl_id l = show_nat n))
     \<and> distinct (map pl_id (db_lots (bk_db b)))
     \<and> (\<forall>t \<in> set (db_trades (bk_db b)). pt_account t = ac_id (bk_account b) \<and> pt_id t < db_next (bk_db b))
     \<and> sorted_wrt (<) (map pt_id (db_trades (bk_db b)))
     \<and> distinct (map fst (pf_open_lots (bk_portfolio b)))
     \<and> (\<forall>k. map nofees (held b k) = map nofees (open_rows (bk_db b) k))"

lemma nofees_eq:
  "nofees x = nofees y \<Longrightarrow> pl_id x = pl_id y \<and> pl_symbol x = pl_symbol y \<and> pl_status x = pl_status y
     \<and> pl_quantity x = pl_quantity y \<and> pl_strategy x = pl_strategy y \<and> pl_timeframe x = pl_timeframe y"
  by (cases x; cases y) (simp add: nofees_def)

lemma map_nofees_iff: "map nofees xs = map nofees ys \<longleftrightarrow> list_all2 (\<lambda>x y. nofees x = nofees y) xs ys"
  by (induction xs ys rule: list_induct2') auto

lemma list_all2_mem:
  "list_all2 P xs ys \<Longrightarrow> x \<in> set xs \<Longrightarrow> \<exists>y \<in> set ys. P x y"
  "list_all2 P xs ys \<Longrightarrow> y \<in> set ys \<Longrightarrow> \<exists>x \<in> set xs. P x y"
  by (induction rule: list_all2_induct) auto

lemma core_mirror: "core_inv env b \<Longrightarrow> list_all2 (\<lambda>x y. nofees x = nofees y) (held b k) (open_rows (bk_db b) k)"
  by (simp add: core_inv_def map_nofees_iff)

lemma held_row:
  assumes "core_inv env b" and "l \<in> set (held b k)"
  obtains r where "r \<in> set (open_rows (bk_db b) k)" and "nofees l = nofees r"
  using list_all2_mem(1) [OF core_mirror [OF assms(1)] assms(2)] by blast

lemma row_held:
  assumes "core_inv env b" and "r \<in> set (open_rows (bk_db b) k)"
  obtains l where "l \<in> set (held b k)" and "nofees l = nofees r"
  using list_all2_mem(2) [OF core_mirror [OF assms(1)] assms(2)] by blast

lemma held_open:
  "core_inv env b \<Longrightarrow> l \<in> set (held b k) \<Longrightarrow> pl_symbol l = k \<and> pl_status l = LotOpen"
  by (erule held_row) (auto simp: open_rows_def dest: nofees_eq)

lemma open_rows_same:
  assumes "core_inv env b" and "r \<in> set (open_rows (bk_db b) k)" and "r' \<in> set (open_rows (bk_db b) k')"
    and "pl_id r = pl_id r'"
  shows "r = r' \<and> k = k'"
proof -
  from assms(1) have "distinct (map pl_id (db_lots (bk_db b)))" by (simp add: core_inv_def)
  then have "inj_on pl_id (set (db_lots (bk_db b)))" by (simp add: distinct_map)
  with assms(2-4) have "r = r'" by (auto simp: open_rows_def inj_on_def)
  with assms(2,3) show ?thesis by (simp add: open_rows_def)
qed

lemma held_ids:
  assumes "core_inv env b"
  shows "map pl_id (held b k) = map pl_id (open_rows (bk_db b) k)"
proof -
  have "map pl_id ls = map pl_id (map nofees ls)" for ls by (simp add: nofees_def)
  with assms show ?thesis unfolding core_inv_def by metis
qed

lemma held_distinct: "core_inv env b \<Longrightarrow> distinct (map pl_id (held b k))"
  using held_ids [of env b k] by (simp add: core_inv_def open_rows_def distinct_map_filter)

lemma held_same:
  assumes "core_inv env b" and "l \<in> set (held b k)" and "l' \<in> set (held b k')" and "pl_id l = pl_id l'"
  shows "l = l' \<and> k = k'"
proof -
  obtain r where r: "r \<in> set (open_rows (bk_db b) k)" "nofees l = nofees r" using held_row [OF assms(1,2)] .
  obtain r' where r': "r' \<in> set (open_rows (bk_db b) k')" "nofees l' = nofees r'" using held_row [OF assms(1,3)] .
  have "k = k'" using open_rows_same [OF assms(1) r(1) r'(1)] nofees_eq [OF r(2)] nofees_eq [OF r'(2)] assms(4) by simp
  moreover have "l = l'" using held_distinct [OF assms(1), of k] assms(2-4) \<open>k = k'\<close> by (auto simp: distinct_map inj_on_def)
  ultimately show ?thesis by simp
qed

lemma held_id_row:
  assumes "core_inv env b" and "l \<in> set (held b k)" and "r \<in> set (open_rows (bk_db b) k')" and "pl_id l = pl_id r"
  shows "k = k' \<and> nofees l = nofees r"
proof -
  obtain l' where l': "l' \<in> set (held b k')" "nofees l' = nofees r" using row_held [OF assms(1,3)] .
  then have "l = l' \<and> k = k'" using held_same [OF assms(1,2) l'(1)] assms(4) nofees_eq [OF l'(2)] by simp
  with l' show ?thesis by simp
qed

subsection \<open>Marks\<close>

lemma mark_step_eq:
  "mark_step env c exc b lm = Inr b' \<longleftrightarrow>
    (\<exists>m. lot_marks_of env c exc (fst lm) (snd lm) = Inr m
      \<and> b' = b\<lparr>bk_db := lot_mark (bk_db b) (pl_id (fst lm)) m,
              bk_portfolio := portfolio_replace_lot (bk_portfolio b) (mark_copy m (fst lm))\<rparr>)"
  by (auto simp: mark_step_def rbind_eq_Inr)

lemma mark_fields [simp]:
  "pl_id (mark_lot m l) = pl_id l" "pl_symbol (mark_lot m l) = pl_symbol l" "pl_status (mark_lot m l) = pl_status l"
  "pl_account (mark_lot m l) = pl_account l" "pl_quantity (mark_lot m l) = pl_quantity l"
  "pl_id (mark_copy m l) = pl_id l" "pl_symbol (mark_copy m l) = pl_symbol l" "pl_status (mark_copy m l) = pl_status l"
  "pl_quantity (mark_copy m l) = pl_quantity l"
  by (simp_all add: mark_lot_def mark_copy_def)

lemma nofees_mark: "nofees l = nofees r \<Longrightarrow> nofees (mark_copy m l) = nofees (mark_lot m r)"
  by (cases l; cases r) (simp add: nofees_def mark_copy_def mark_lot_def)

lemma open_rows_mark:
  "open_rows (lot_mark db i m) k = map (\<lambda>r. if pl_id r = i then mark_lot m r else r) (open_rows db k)"
proof -
  have "filter P (map (\<lambda>l. if pl_id l = i \<and> pl_status l = LotOpen then mark_lot m l else l) ls)
      = map (\<lambda>l. if pl_id l = i then mark_lot m l else l) (filter P ls)"
    if "P = (\<lambda>l. pl_symbol l = k \<and> pl_status l = LotOpen)" for P ls
    using that by (induction ls) auto
  then show ?thesis by (simp add: open_rows_def lot_mark_def update_open_def)
qed

lemma lot_mark_frame [simp]:
  "db_accounts (lot_mark db i m) = db_accounts db" "db_trades (lot_mark db i m) = db_trades db"
  "db_pending (lot_mark db i m) = db_pending db" "db_next (lot_mark db i m) = db_next db"
  by (simp_all add: lot_mark_def update_open_def)

lemma mark_step_held:
  assumes "core_inv env b" and "l \<in> set (held b k)" and "mark_step env c exc b (l, mo) = Inr b'"
  shows "\<exists>m. \<forall>k'. held b' k' = map (\<lambda>x. if pl_id x = pl_id l then mark_copy m l else x) (held b k')"
proof -
  from assms(3) obtain m where b': "b' = b\<lparr>bk_db := lot_mark (bk_db b) (pl_id l) m,
              bk_portfolio := portfolio_replace_lot (bk_portfolio b) (mark_copy m l)\<rparr>"
    by (auto simp: mark_step_eq)
  have k: "pl_symbol l = k" using held_open [OF assms(1,2)] by simp
  have "held b' k' = map (\<lambda>x. if pl_id x = pl_id l then mark_copy m l else x) (held b k')" for k'
  proof (cases "k' = k")
    case True
    with assms(2) k b' held_distinct [OF assms(1), of k] show ?thesis by (simp add: open_replace_lot)
  next
    case False
    have "map (\<lambda>x. if pl_id x = pl_id l then mark_copy m l else x) (held b k') = held b k'"
      using held_same [OF assms(1,2), of _ k'] False by (intro map_idI) force
    with False assms(2) k b' held_distinct [OF assms(1), of k] show ?thesis by (simp add: open_replace_lot)
  qed
  then show ?thesis by blast
qed

lemma mark_step_core:
  assumes "core_inv env b" and "l \<in> set (held b k)" and "mark_step env c exc b (l, mo) = Inr b'"
  shows "core_inv env b'"
proof -
  from assms(3) obtain m where b': "b' = b\<lparr>bk_db := lot_mark (bk_db b) (pl_id l) m,
              bk_portfolio := portfolio_replace_lot (bk_portfolio b) (mark_copy m l)\<rparr>"
    by (auto simp: mark_step_eq)
  have k: "pl_symbol l = k" using held_open [OF assms(1,2)] by simp
  have held: "held b' k' = (if k' = k then map (\<lambda>x. if pl_id x = pl_id l then mark_copy m l else x) (held b k') else held b k')" for k'
    using assms(2) k b' held_distinct [OF assms(1), of k] by (simp add: open_replace_lot)
  have rows: "open_rows (bk_db b') k' = map (\<lambda>r. if pl_id r = pl_id l then mark_lot m r else r) (open_rows (bk_db b) k')" for k'
    by (simp add: b' open_rows_mark)
  have "map nofees (held b' k') = map nofees (open_rows (bk_db b') k')" for k'
  proof -
    have "list_all2 (\<lambda>x y. nofees (if k' = k \<and> pl_id x = pl_id l then mark_copy m l else x)
        = nofees (if pl_id y = pl_id l then mark_lot m y else y)) (held b k') (open_rows (bk_db b) k')"
    proof (rule list.rel_mono_strong [OF core_mirror [OF assms(1), of k']])
      fix x y assume xy: "x \<in> set (held b k')" "y \<in> set (open_rows (bk_db b) k')" "nofees x = nofees y"
      then have "pl_id x = pl_id y" using nofees_eq by blast
      moreover have "k = k' \<and> nofees l = nofees y" if "pl_id y = pl_id l"
        using held_id_row [OF assms(1,2) xy(2)] that by simp
      ultimately show "nofees (if k' = k \<and> pl_id x = pl_id l then mark_copy m l else x)
        = nofees (if pl_id y = pl_id l then mark_lot m y else y)"
        using xy(3) by (auto intro: nofees_mark)
    qed
    then have "list_all2 (\<lambda>x y. nofees x = nofees y)
        (map (\<lambda>x. if k' = k \<and> pl_id x = pl_id l then mark_copy m l else x) (held b k')) (open_rows (bk_db b') k')"
      unfolding rows list_all2_map1 list_all2_map2 .
    moreover have "held b' k' = map (\<lambda>x. if k' = k \<and> pl_id x = pl_id l then mark_copy m l else x) (held b k')"
      by (cases "k' = k") (simp_all add: held)
    ultimately show ?thesis by (simp only: map_nofees_iff)
  qed
  moreover have "map pl_id (db_lots (lot_mark (bk_db b) (pl_id l) m)) = map pl_id (db_lots (bk_db b))"
    by (auto simp: lot_mark_def update_open_def)
  moreover have "pl_account r = ac_id (bk_account b) \<and> (\<exists>n < db_next (bk_db b). pl_id r = show_nat n)"
    if "r \<in> set (db_lots (lot_mark (bk_db b) (pl_id l) m))" for r
    using that assms(1) by (fastforce simp: core_inv_def lot_mark_def update_open_def)
  ultimately show ?thesis using assms(1) unfolding core_inv_def by (simp add: b')
qed

subsection \<open>Bookings\<close>

lemma find_snoc_fresh:
  "(\<And>x. x \<in> set xs \<Longrightarrow> \<not> P x) \<Longrightarrow> P y \<Longrightarrow> List.find P (xs @ [y]) = Some y"
  by (induction xs) auto

lemma core_fresh_id:
  "core_inv env b \<Longrightarrow> l \<in> set (db_lots (bk_db b)) \<Longrightarrow> pl_id l \<noteq> fresh_id (bk_db b)"
  by (fastforce simp: core_inv_def fresh_id_def)

lemma core_adjust:
  "core_inv env b \<Longrightarrow> db_accounts db = db_accounts (bk_db b) \<Longrightarrow>
   adjust_cash db (ac_id (bk_account b)) d = Inr (cash, db') \<Longrightarrow>
   cash = ac_cash_balance (bk_account b) + d
   \<and> db' = db\<lparr>db_accounts := [(bk_account b)\<lparr>ac_cash_balance := ac_cash_balance (bk_account b) + d\<rparr>]\<rparr>"
  by (auto simp: core_inv_def adjust_cash_def Let_def)

lemma adjust_cash_core_ok:
  "core_inv env b \<Longrightarrow> db_accounts db = db_accounts (bk_db b) \<Longrightarrow>
   \<exists>r. adjust_cash db (ac_id (bk_account b)) d = Inr r"
  by (simp add: core_inv_def adjust_cash_def Let_def)

text \<open>Everything a booking changes.\<close>

lemma book_entry_effect:
  assumes core: "core_inv env b"
    and eq: "book_entry env b s plan od target stop ex now = Inr (l, b')"
  shows "pl_id l = fresh_id (bk_db b) \<and> pl_symbol l = sg_symbol s \<and> pl_status l = LotOpen
    \<and> pl_account l = ac_id (bk_account b) \<and> pl_quantity l = en_quantity plan \<and> pl_entry_at l = now
    \<and> pl_snapshot l = sg_snapshot s \<and> pl_entry_price l = py_round (fill_price (en_fill plan)) 4
    \<and> pl_stop l = (if stop = None then sg_stop s else stop) \<and> pl_number l = en_number plan + 1
    \<and> db_lots (bk_db b') = db_lots (bk_db b) @ [l]
    \<and> db_trades (bk_db b') = db_trades (bk_db b) @ [(entry_trade env b s plan (pl_id l) now)\<lparr>pt_id := db_next (bk_db b) + 1\<rparr>]
    \<and> db_next (bk_db b') = db_next (bk_db b) + 2
    \<and> bk_account b' = (bk_account b)\<lparr>ac_cash_balance := ac_cash_balance (bk_account b) - en_cost plan\<rparr>
    \<and> db_accounts (bk_db b') = [bk_account b'] \<and> db_pending (bk_db b') = db_pending (bk_db b)
    \<and> bk_portfolio b' = portfolio_add_lot (bk_portfolio b) l
    \<and> (\<exists>stock. bk_inventories b' = (bk_inventories b)(sg_symbol s := stock)
        \<and> (if on_nse env then fifo_add (bk_inventories b (sg_symbol s)) (pl_id l) now
               (py_round (fill_price (en_fill plan)) 4) (en_quantity plan) (py_round (fill_fees (en_fill plan)) 4) = Inr stock
           else stock = bk_inventories b (sg_symbol s)))"
proof -
  define row where "row = (entry_lot env b s plan od target stop ex now)\<lparr>pl_id := fresh_id (bk_db b),
      pl_cost_basis := pl_entry_price (entry_lot env b s plan od target stop ex now),
      pl_allocations := [\<lparr>alloc_id = fresh_id (bk_db b), alloc_quantity = en_quantity plan,
         alloc_price = pl_entry_price (entry_lot env b s plan od target stop ex now),
         alloc_fees = pl_fees (entry_lot env b s plan od target stop ex now)\<rparr>],
      pl_status := LotOpen, pl_exit_at := None, pl_exit_price := None, pl_realized := None,
      pl_last_price := Some (pl_entry_price (entry_lot env b s plan od target stop ex now)),
      pl_mae := Some 0, pl_mfe := Some 0\<rparr>"
  have ins: "lot_insert (bk_db b) (entry_lot env b s plan od target stop ex now)
      = Inr (row, (bk_db b)\<lparr>db_lots := db_lots (bk_db b) @ [row], db_next := db_next (bk_db b) + 1\<rparr>)"
    using core_fresh_id [OF core]
    by (simp add: lot_insert_def lot_get_def Let_def row_def entry_lot_def find_snoc_fresh)
  from eq obtain stock cash db' where
    stock: "(if on_nse env then fifo_add (bk_inventories b (sg_symbol s)) (pl_id row) now
               (py_round (fill_price (en_fill plan)) 4) (en_quantity plan) (py_round (fill_fees (en_fill plan)) 4)
             else Inr (bk_inventories b (sg_symbol s))) = Inr stock"
    and cash: "adjust_cash (trade_insert ((bk_db b)\<lparr>db_lots := db_lots (bk_db b) @ [row], db_next := db_next (bk_db b) + 1\<rparr>)
               (entry_trade env b s plan (pl_id row) now)) (ac_id (bk_account b)) (- en_cost plan) = Inr (cash, db')"
    and l: "l = row"
    and b': "b' = (set_cash (b\<lparr>bk_db := trade_insert ((bk_db b)\<lparr>db_lots := db_lots (bk_db b) @ [row], db_next := db_next (bk_db b) + 1\<rparr>)
               (entry_trade env b s plan (pl_id row) now), bk_inventories := (bk_inventories b)(sg_symbol s := stock)\<rparr>) cash db')
               \<lparr>bk_portfolio := portfolio_add_lot (bk_portfolio b) row\<rparr>"
    unfolding book_entry_def ins
    by (auto simp: rbind_eq_Inr Let_def split: if_splits)
  from core_adjust [OF core _ cash] have "cash = ac_cash_balance (bk_account b) - en_cost plan
      \<and> db' = (trade_insert ((bk_db b)\<lparr>db_lots := db_lots (bk_db b) @ [row], db_next := db_next (bk_db b) + 1\<rparr>)
               (entry_trade env b s plan (pl_id row) now))\<lparr>db_accounts := [(bk_account b)\<lparr>ac_cash_balance := ac_cash_balance (bk_account b) - en_cost plan\<rparr>]\<rparr>"
    by (simp add: trade_insert_def)
  moreover have "pl_id row = fresh_id (bk_db b) \<and> pl_symbol row = sg_symbol s \<and> pl_status row = LotOpen
    \<and> pl_account row = ac_id (bk_account b) \<and> pl_quantity row = en_quantity plan \<and> pl_entry_at row = now
    \<and> pl_snapshot row = sg_snapshot s \<and> pl_entry_price row = py_round (fill_price (en_fill plan)) 4
    \<and> pl_stop row = (if stop = None then sg_stop s else stop) \<and> pl_number row = en_number plan + 1"
    by (simp add: row_def entry_lot_def)
  ultimately show ?thesis using stock
    unfolding l b' by (auto simp: set_cash_def trade_insert_def split: if_splits)
qed

lemma book_entry_core:
  assumes core: "core_inv env b" and eq: "book_entry env b s plan od target stop ex now = Inr (l, b')"
  shows "core_inv env b'"
proof -
  note e = book_entry_effect [OF assms]
  have "map nofees (held b' k) = map nofees (open_rows (bk_db b') k)" for k
    using e core by (auto simp: core_inv_def open_rows_def)
  moreover have "\<forall>r \<in> set (db_lots (bk_db b')). pl_account r = ac_id (bk_account b')
      \<and> (\<exists>n < db_next (bk_db b'). pl_id r = show_nat n)"
    using e core by (fastforce simp: core_inv_def fresh_id_def)
  moreover have "distinct (map pl_id (db_lots (bk_db b')))"
    using e core core_fresh_id [OF core] by (auto simp: core_inv_def)
  moreover have "\<forall>t \<in> set (db_trades (bk_db b')). pt_account t = ac_id (bk_account b') \<and> pt_id t < db_next (bk_db b')"
    using e core by (fastforce simp: core_inv_def entry_trade_def)
  moreover have "sorted_wrt (<) (map pt_id (db_trades (bk_db b')))"
    using e core by (fastforce simp: core_inv_def sorted_wrt_append)
  ultimately show ?thesis using e core by (simp add: core_inv_def)
qed

subsection \<open>Closings\<close>

lemma close_lot_effect:
  assumes core: "core_inv env b"
    and eq: "close_lot env b l status raw now mae mfe = Inr (u, b')"
  defines "f \<equiv> fee_sell (ms_fees (pb_market env)) raw (pl_quantity l)"
  shows "db_trades (bk_db b') = db_trades (bk_db b) @ [(exit_trade env b l f (status_name status) now)\<lparr>pt_id := db_next (bk_db b)\<rparr>]
    \<and> db_next (bk_db b') = db_next (bk_db b) + 1
    \<and> bk_account b' = (bk_account b)\<lparr>ac_cash_balance := ac_cash_balance (bk_account b)
         + exit_proceeds (fill_price f) (pl_quantity l) (fill_fees f)\<rparr>
    \<and> db_accounts (bk_db b') = [bk_account b'] \<and> db_pending (bk_db b') = db_pending (bk_db b)
    \<and> bk_portfolio b' = portfolio_remove_lot (bk_portfolio b) (pl_id l) (pl_symbol l)
    \<and> (\<exists>stock. bk_inventories b' = (bk_inventories b)(pl_symbol l := stock)
        \<and> (if on_nse env then \<exists>m. fifo_consume (bk_inventories b (pl_symbol l)) (pl_quantity l) = Inr (m, stock)
           else stock = bk_inventories b (pl_symbol l)))
    \<and> (\<exists>g. db_lots (bk_db b') = map g (db_lots (bk_db b))
        \<and> (\<forall>r. pl_id (g r) = pl_id r \<and> pl_account (g r) = pl_account r \<and> pl_symbol (g r) = pl_symbol r
             \<and> (pl_status (g r) = LotOpen \<longleftrightarrow> pl_status r = LotOpen \<and> pl_id r \<noteq> pl_id l)
             \<and> (pl_id r \<noteq> pl_id l \<longrightarrow> g r = r)))"
proof -
  from eq obtain cb fees al db cash db' stock where
    close: "lot_close (lot_mark (bk_db b) (pl_id l) \<lparr>mk_last_price = raw, mk_cost_basis = cb, mk_allocations = al,
        mk_target = pl_target l, mk_entry_fees = fees, mk_unrealized = 0, mk_mae = mae, mk_mfe = mfe\<rparr>)
        (pl_id l) status now (py_round (fill_price f) 4) cb al
        (realized_pnl cb (py_round (fill_price f) 4) (pl_quantity l) (py_round (fees + fill_fees f) 4))
        (py_round (fees + fill_fees f) 4) = Inr (u, db)"
    and stock: "if on_nse env then \<exists>m. fifo_consume (bk_inventories b (pl_symbol l)) (pl_quantity l) = Inr (m, stock)
           else stock = bk_inventories b (pl_symbol l)"
    and cash: "adjust_cash (trade_insert db (exit_trade env b l f (status_name status) now)) (ac_id (bk_account b))
        (exit_proceeds (fill_price f) (pl_quantity l) (fill_fees f)) = Inr (cash, db')"
    and b': "b' = (set_cash (b\<lparr>bk_db := trade_insert db (exit_trade env b l f (status_name status) now),
        bk_inventories := (bk_inventories b)(pl_symbol l := stock)\<rparr>) cash db')
        \<lparr>bk_portfolio := portfolio_remove_lot (bk_portfolio b) (pl_id l) (pl_symbol l)\<rparr>"
    unfolding close_lot_def f_def
    by (cases "on_nse env") (auto simp: rbind_eq_Inr Let_def simp del: fun_upd_triv)
  define m where "m = \<lparr>mk_last_price = raw, mk_cost_basis = cb, mk_allocations = al,
        mk_target = pl_target l, mk_entry_fees = fees, mk_unrealized = 0, mk_mae = mae, mk_mfe = mfe\<rparr>"
  define h :: "paper_lot \<Rightarrow> paper_lot" where "h r = r\<lparr>pl_status := status, pl_exit_at := Some now,
                  pl_exit_price := Some (py_round (fill_price f) 4), pl_cost_basis := cb, pl_allocations := al,
                  pl_realized := Some (realized_pnl cb (py_round (fill_price f) 4) (pl_quantity l) (py_round (fees + fill_fees f) 4)),
                  pl_fees := py_round (fees + fill_fees f) 4, pl_unrealized := 0,
                  pl_last_price := Some (py_round (fill_price f) 4)\<rparr>" for r
  from close have db: "db = update_open (pl_id l) h (lot_mark (bk_db b) (pl_id l) m)" and st: "status \<noteq> LotOpen"
    by (auto simp: lot_close_def rbind_eq_Inr Let_def h_def [abs_def] m_def PAPER_LOT_CLOSED_STATUSES_def split: if_splits)
  let ?g = "\<lambda>r. if pl_id r = pl_id l \<and> pl_status r = LotOpen then h (mark_lot m r) else r"
  have "db_lots db = map ?g (db_lots (bk_db b))"
    by (auto simp: db update_open_def lot_mark_def)
  moreover have "\<forall>r. pl_id (?g r) = pl_id r \<and> pl_account (?g r) = pl_account r \<and> pl_symbol (?g r) = pl_symbol r
             \<and> (pl_status (?g r) = LotOpen \<longleftrightarrow> pl_status r = LotOpen \<and> pl_id r \<noteq> pl_id l)
             \<and> (pl_id r \<noteq> pl_id l \<longrightarrow> ?g r = r)"
    using st by (auto simp: h_def)
  ultimately have lots: "\<exists>g. db_lots db = map g (db_lots (bk_db b))
        \<and> (\<forall>r. pl_id (g r) = pl_id r \<and> pl_account (g r) = pl_account r \<and> pl_symbol (g r) = pl_symbol r
             \<and> (pl_status (g r) = LotOpen \<longleftrightarrow> pl_status r = LotOpen \<and> pl_id r \<noteq> pl_id l)
             \<and> (pl_id r \<noteq> pl_id l \<longrightarrow> g r = r))" by (intro exI [of _ ?g] conjI)
  have frame: "db_accounts db = db_accounts (bk_db b)" "db_trades db = db_trades (bk_db b)"
      "db_next db = db_next (bk_db b)" "db_pending db = db_pending (bk_db b)"
    by (simp_all add: db update_open_def)
  have cash': "cash = ac_cash_balance (bk_account b) + exit_proceeds (fill_price f) (pl_quantity l) (fill_fees f)
      \<and> db' = (trade_insert db (exit_trade env b l f (status_name status) now))\<lparr>db_accounts :=
           [(bk_account b)\<lparr>ac_cash_balance := ac_cash_balance (bk_account b)
             + exit_proceeds (fill_price f) (pl_quantity l) (fill_fees f)\<rparr>]\<rparr>"
    using core_adjust [OF core _ cash] frame by (simp add: trade_insert_def)
  have "\<exists>st. bk_inventories b' = (bk_inventories b)(pl_symbol l := st)
        \<and> (if on_nse env then \<exists>m. fifo_consume (bk_inventories b (pl_symbol l)) (pl_quantity l) = Inr (m, st)
           else st = bk_inventories b (pl_symbol l))"
    by (rule exI [of _ stock]) (use stock in \<open>simp add: b' set_cash_def\<close>)
  with lots frame cash' show ?thesis unfolding b' by (simp add: set_cash_def trade_insert_def)
qed

lemma open_rows_closed:
  assumes "db_lots db' = map g (db_lots db)"
    and "\<forall>r. pl_symbol (g r) = pl_symbol r \<and> (pl_status (g r) = LotOpen \<longleftrightarrow> pl_status r = LotOpen \<and> pl_id r \<noteq> i)
         \<and> (pl_id r \<noteq> i \<longrightarrow> g r = r)"
  shows "open_rows db' k = filter (\<lambda>r. pl_id r \<noteq> i) (open_rows db k)"
proof -
  have "filter (\<lambda>r. pl_symbol r = k \<and> pl_status r = LotOpen) (map g ls)
      = filter (\<lambda>r. pl_id r \<noteq> i) (filter (\<lambda>r. pl_symbol r = k \<and> pl_status r = LotOpen) ls)" for ls
    using assms(2) by (induction ls) auto
  with assms(1) show ?thesis by (simp add: open_rows_def)
qed

lemma list_all2_filter:
  "list_all2 R xs ys \<Longrightarrow> (\<And>x y. R x y \<Longrightarrow> P x = Q y) \<Longrightarrow> list_all2 R (filter P xs) (filter Q ys)"
  by (induction rule: list_all2_induct) auto

lemma close_lot_core:
  assumes core: "core_inv env b" and l: "l \<in> set (held b k)"
    and eq: "close_lot env b l status raw now mae mfe = Inr (u, b')"
  shows "core_inv env b'" and "held b' k' = filter (\<lambda>x. pl_id x \<noteq> pl_id l) (held b k')"
proof -
  note e = close_lot_effect [OF core eq]
  have k: "pl_symbol l = k" using held_open [OF core l] by simp
  show held: "held b' k' = filter (\<lambda>x. pl_id x \<noteq> pl_id l) (held b k')" for k'
  proof (cases "k' = k")
    case False
    then have "filter (\<lambda>x. pl_id x \<noteq> pl_id l) (held b k') = held b k'"
      using held_same [OF core l, of _ k'] by (intro filter_True) force
    with False e k show ?thesis by simp
  qed (use e k in simp)
  from e obtain g where g: "db_lots (bk_db b') = map g (db_lots (bk_db b))"
      "\<forall>r. pl_id (g r) = pl_id r \<and> pl_account (g r) = pl_account r \<and> pl_symbol (g r) = pl_symbol r
             \<and> (pl_status (g r) = LotOpen \<longleftrightarrow> pl_status r = LotOpen \<and> pl_id r \<noteq> pl_id l)
             \<and> (pl_id r \<noteq> pl_id l \<longrightarrow> g r = r)" by blast
  have rows: "open_rows (bk_db b') k' = filter (\<lambda>r. pl_id r \<noteq> pl_id l) (open_rows (bk_db b) k')" for k'
    by (rule open_rows_closed [OF g(1)]) (use g(2) in blast)
  have "map nofees (held b' k') = map nofees (open_rows (bk_db b') k')" for k'
    unfolding map_nofees_iff held rows
    by (rule list_all2_filter [OF core_mirror [OF core]]) (metis nofees_eq)
  moreover have "map pl_id (db_lots (bk_db b')) = map pl_id (db_lots (bk_db b))" using g by simp
  moreover have "\<forall>r \<in> set (db_lots (bk_db b')). pl_account r = ac_id (bk_account b')
      \<and> (\<exists>n < db_next (bk_db b'). pl_id r = show_nat n)"
    using e core g by (fastforce simp: core_inv_def)
  moreover have "\<forall>t \<in> set (db_trades (bk_db b')). pt_account t = ac_id (bk_account b') \<and> pt_id t < db_next (bk_db b')"
    using e core by (fastforce simp: core_inv_def exit_trade_def)
  moreover have "sorted_wrt (<) (map pt_id (db_trades (bk_db b')))"
    using e core by (fastforce simp: core_inv_def sorted_wrt_append)
  ultimately show "core_inv env b'" using e core by (simp add: core_inv_def)
qed

section \<open>Invariants of whole operations\<close>

lemma lot_match_fst: "lot_match env stock l = Inr lm \<Longrightarrow> fst lm = l"
  by (auto simp: lot_match_def rbind_eq_Inr split: if_splits)

text \<open>What a returned entry did: nothing but counting, or booking and marking.\<close>

lemma execute_entry_cases:
  assumes "execute_entry env b policy s plan p now = Inr (r, b')"
  obtains (duplicate) "order_insert (bk_db b) (entry_order env b s plan p) = (None, bk_db b)" "r = None"
      "b' = b\<lparr>bk_rejected := bk_rejected b + 1\<rparr>"
  | (booked) order db t st ex l b2 b3 l' where
      "order_insert (bk_db b) (entry_order env b s plan p) = (Some order, db)"
      "book_entry env (b\<lparr>bk_db := db\<rparr>) s plan (od_id order) t st ex now = Inr (l, b2)"
      "mark_open_lots env b2 (sg_symbol s) (py_round (fill_price (en_fill plan)) 4) []
         (lots_for (bk_portfolio b2) (sg_symbol s) None None) = Inr b3"
      "b' = b3\<lparr>bk_filled := bk_filled b3 + 1\<rparr>" "r = Some l'"
proof -
  obtain r0 db where o: "order_insert (bk_db b) (entry_order env b s plan p) = (r0, db)" by fastforce
  show ?thesis
  proof (cases r0)
    case None
    moreover from o None have "db = bk_db b" by (auto simp: order_insert_def Let_def split: if_splits)
    ultimately show ?thesis using assms o duplicate by (simp add: execute_entry_def)
  next
    case (Some order)
    with assms o obtain tp minutes where 1:
      "complete_entry env (b\<lparr>bk_db := db\<rparr>) policy s plan (od_id order) tp minutes now = Inr (r, b')"
      by (auto simp: execute_entry_def rbind_eq_Inr)
    obtain t st ex where "policy_targets policy (py_round (fill_price (en_fill plan)) 4) tp now minutes = (t, st, ex)"
      by (metis prod_cases3)
    with 1 obtain l b2 b3 where 2:
      "book_entry env (b\<lparr>bk_db := db\<rparr>) s plan (od_id order) t st ex now = Inr (l, b2)"
      "mark_open_lots env b2 (sg_symbol s) (py_round (fill_price (en_fill plan)) 4) []
         (lots_for (bk_portfolio b2) (sg_symbol s) None None) = Inr b3"
      "(case List.find (\<lambda>x. pl_id x = pl_id l) (lots_for (bk_portfolio b3) (sg_symbol s) None None) of
         None \<Rightarrow> Inl (RuntimeError ''StopIteration'', b3)
       | Some l' \<Rightarrow> Inr (Some l', b3\<lparr>bk_filled := bk_filled b3 + 1\<rparr>)) = Inr (r, b')"
      by (auto simp: complete_entry_def rbind_eq_Inr)
    from 2(3) have "List.find (\<lambda>x. pl_id x = pl_id l) (lots_for (bk_portfolio b3) (sg_symbol s) None None) \<noteq> None"
      by (rule contrapos_pn) simp
    then obtain l' where "List.find (\<lambda>x. pl_id x = pl_id l) (lots_for (bk_portfolio b3) (sg_symbol s) None None) = Some l'"
      by blast
    with 2(3) have "b' = b3\<lparr>bk_filled := bk_filled b3 + 1\<rparr>" and "r = Some l'" by auto
    then show ?thesis by (rule booked [OF o [unfolded Some] 2(1,2)])
  qed
qed

text \<open>A plan carries the cost of its own fill.\<close>

definition plan_ok :: "entry_plan \<Rightarrow> bool" where
  "plan_ok plan \<longleftrightarrow>
     en_cost plan = entry_cost (fill_price (en_fill plan)) (en_quantity plan) (fill_fees (en_fill plan))"

lemma price_entry_ok: "price_entry env b policy lad s ol cl n cy p now = Inr (Inr plan) \<Longrightarrow> plan_ok plan"
  by (auto simp: price_entry_def rbind_eq_Inr Let_def plan_ok_def split: if_splits option.splits)

lemma plan_entry_ok: "plan_entry env b policy s p now = Inr (Inr plan) \<Longrightarrow> plan_ok plan"
  by (auto simp: plan_entry_def rbind_eq_Inr Let_def split: if_splits dest: price_entry_ok)

lemma fill_entry_cases:
  assumes "fill_entry env b s p now = Inr (r, b')"
  obtains (rejected) policy reason where "policy_for env (SignalItem s) = Inr policy"
      "plan_entry env b policy s p now = Inr (Inl reason)" "r = None" "b' = reject_order env b s p reason"
  | (planned) policy plan where "policy_for env (SignalItem s) = Inr policy"
      "plan_entry env b policy s p now = Inr (Inr plan)" "execute_entry env b policy s plan p now = Inr (r, b')"
proof -
  from assms obtain policy d where 1: "policy_for env (SignalItem s) = Inr policy"
      "plan_entry env b policy s p now = Inr d"
      "(case d of Inl reason \<Rightarrow> Inr (None, reject_order env b s p reason)
        | Inr plan \<Rightarrow> execute_entry env b policy s plan p now) = Inr (r, b')"
    by (auto simp: fill_entry_def rbind_eq_Inr)
  then show ?thesis using rejected planned by (cases d) auto
qed

text \<open>
  A property that implies \<open>core_inv\<close>, does not depend on orders, pending entries and counters, and
  is kept by marks, bookings and closings is kept by every operation that returns.
\<close>

definition fresh_broker :: "broker_env \<Rightarrow> broker \<Rightarrow> bool" where
  "fresh_broker env b \<longleftrightarrow>
     db_accounts (bk_db b) = [bk_account b] \<and> ac_market (bk_account b) = ms_market (pb_market env)
     \<and> ac_cash_balance (bk_account b) = ac_starting_balance (bk_account b)
     \<and> db_lots (bk_db b) = [] \<and> db_trades (bk_db b) = [] \<and> bk_inventories b = (\<lambda>_. [])
     \<and> pf_open_lots (bk_portfolio b) = [] \<and> pf_pending (bk_portfolio b) = []
     \<and> (\<forall>p \<in> set (db_pending (bk_db b)). pe_account p \<noteq> ac_id (bk_account b))"

lemma reset_fresh:
  assumes "core_inv env b" and "broker_reset env b balance now = Inr (a, b')"
  shows "fresh_broker env b'"
proof -
  have none: "filter (\<lambda>l. pl_account l \<noteq> ac_id (bk_account b)) (db_lots (bk_db b)) = []"
    "filter (\<lambda>t. pt_account t \<noteq> ac_id (bk_account b)) (db_trades (bk_db b)) = []"
    using assms(1) by (auto simp: core_inv_def filter_empty_conv)
  have acc: "db_accounts (bk_db b) = [bk_account b]" "ac_market (bk_account b) = ms_market (pb_market env)"
    using assms(1) by (simp_all add: core_inv_def)
  from assms(2) none show ?thesis
    by (auto simp: broker_reset_def account_reset_def account_get_def pending_clear_def Let_def rbind_eq_Inr
        acc fresh_broker_def portfolio_rebuild_def)
qed

definition empty_db :: paper_db where
  "empty_db = \<lparr>db_accounts = [], db_orders = [], db_pending = [], db_lots = [], db_trades = [], db_next = 0\<rparr>"

lemma start_fresh: "broker_start env empty_db balance = Inr b \<Longrightarrow> fresh_broker env b"
  by (auto simp: broker_start_def account_get_or_create_def account_get_def Let_def rbind_eq_Inr empty_db_def
      load_fifo_inventories_def trades_chronological_def rebuild_portfolio_def portfolio_rebuild_def
      lots_open_def pending_list_def fresh_broker_def split: if_splits)

locale broker_invariant =
  fixes env :: broker_env and P :: "broker \<Rightarrow> bool"
  assumes core: "P b \<Longrightarrow> core_inv env b"
    and other: "P b \<Longrightarrow> db_accounts db = db_accounts (bk_db b) \<Longrightarrow> db_lots db = db_lots (bk_db b) \<Longrightarrow>
      db_trades db = db_trades (bk_db b) \<Longrightarrow> db_next (bk_db b) \<le> db_next db \<Longrightarrow>
      pf_open_lots pf = pf_open_lots (bk_portfolio b) \<Longrightarrow>
      P (b\<lparr>bk_db := db, bk_portfolio := pf, bk_rejected := r, bk_filled := n\<rparr>)"
    and mark: "P b \<Longrightarrow> l \<in> set (held b k) \<Longrightarrow> mark_step env c exc b (l, m) = Inr b' \<Longrightarrow> P b'"
    and fresh: "fresh_broker env b \<Longrightarrow> P b"
    and book: "P b \<Longrightarrow> plan_ok plan \<Longrightarrow> book_entry env b s plan od target stop ex now = Inr (l, b') \<Longrightarrow> P b'"
    and close: "P b \<Longrightarrow> l \<in> set (held b k) \<Longrightarrow> close_lot env b l status raw now mae mfe = Inr (u, b') \<Longrightarrow> P b'"
begin

lemma other_db:
  "P b \<Longrightarrow> db_accounts db = db_accounts (bk_db b) \<Longrightarrow> db_lots db = db_lots (bk_db b) \<Longrightarrow>
   db_trades db = db_trades (bk_db b) \<Longrightarrow> db_next (bk_db b) \<le> db_next db \<Longrightarrow> P (b\<lparr>bk_db := db\<rparr>)"
  using other [where b = b and db = db and pf = "bk_portfolio b" and r = "bk_rejected b" and n = "bk_filled b"] by simp

lemma other_counters: "P b \<Longrightarrow> P (b\<lparr>bk_rejected := r\<rparr>)" "P b \<Longrightarrow> P (b\<lparr>bk_filled := n\<rparr>)"
  using other [where b = b and db = "bk_db b" and pf = "bk_portfolio b" and r = r and n = "bk_filled b"]
    other [where b = b and db = "bk_db b" and pf = "bk_portfolio b" and r = "bk_rejected b" and n = n]
  by simp_all

lemma other_pending: "P b \<Longrightarrow> P (b\<lparr>bk_portfolio := (bk_portfolio b)\<lparr>pf_pending := x\<rparr>\<rparr>)"
  using other [where b = b and db = "bk_db b" and pf = "(bk_portfolio b)\<lparr>pf_pending := x\<rparr>"
      and r = "bk_rejected b" and n = "bk_filled b"] by simp

lemma order_kept: "P b \<Longrightarrow> P (b\<lparr>bk_db := snd (order_insert (bk_db b) r)\<rparr>)"
  by (intro other_db) (auto simp: order_insert_def Let_def)

lemma reject_kept: "P b \<Longrightarrow> P (reject_order env b s p reason)"
  unfolding reject_order_def by (intro other_counters order_kept)

lemma persist_kept: "P b \<Longrightarrow> P (persist_pending_entry b s cy n now)"
proof (cases "pending_insert (bk_db b) s (ac_id (bk_account b)) cy n now")
  case (Pair r db)
  assume p: "P b"
  show ?thesis
  proof (cases r)
    case (Some stored)
    have "P (b\<lparr>bk_db := db, bk_portfolio := portfolio_add_pending (bk_portfolio b) stored,
        bk_rejected := bk_rejected b, bk_filled := bk_filled b\<rparr>)"
      using Pair by (intro other [OF p]) (auto simp: pending_insert_def Let_def split: if_splits)
    with Pair Some show ?thesis by (simp add: persist_pending_entry_def)
  qed (use Pair p in \<open>simp add: persist_pending_entry_def\<close>)
qed

lemma drop_kept: "P b \<Longrightarrow> P (drop_pending b s)"
  by (auto simp: drop_pending_def pending_delete_def intro!: other_db split: option.split)

lemma marks_kept:
  assumes "P b" and "mark_open_lots env b k c exc ls = Inr b'" and "set ls \<subseteq> set (held b k)" and "distinct (map pl_id ls)"
  shows "P b'"
proof -
  let ?s = "sort_key (\<lambda>l. (pl_entry_at l, pl_number l)) ls"
  from assms(2) obtain lms where lms: "rmap_list (lot_match env (bk_inventories b k)) ?s = Inr lms"
    and fold: "rfold (mark_step env c exc) b lms = Inr b'"
    by (auto simp: mark_open_lots_def Let_def rbind_eq_Inr)
  have fst: "map fst lms = ?s"
    using lot_match_fst [OF rmap_list_nth [OF lms]] rmap_list_length [OF lms]
    by (intro nth_equalityI) auto
  let ?Q = "\<lambda>b (lms :: (paper_lot \<times> fifo_match option) list). P b \<and> fst ` set lms \<subseteq> set (held b k) \<and> distinct (map (pl_id \<circ> fst) lms)"
  have "?Q b' []"
  proof (rule rfold_invariant_rest [OF _ _ fold, where Q = ?Q])
    have "distinct (map pl_id ?s)" using assms(4) by (simp add: distinct_map)
    then have "distinct (map pl_id (map fst lms))" by (simp only: fst)
    moreover have "fst ` set lms \<subseteq> set (held b k)" using fst assms(3) by (metis image_set set_sort)
    ultimately show "?Q b lms" using assms(1) by simp
  next
    fix s x rest t assume q: "?Q s (x # rest)" and step: "mark_step env c exc s x = Inr t"
    obtain l m where x: "x = (l, m)" by fastforce
    from q x have l: "l \<in> set (held s k)" and p: "P s" by auto
    from mark_step_held [OF core [OF p] l] step x obtain m' where
      h: "held t k = map (\<lambda>y. if pl_id y = pl_id l then mark_copy m' l else y) (held s k)" by blast
    have "fst ` set rest \<subseteq> set (held t k)"
    proof
      fix y assume y: "y \<in> fst ` set rest"
      with q x have "pl_id y \<noteq> pl_id l" and "y \<in> set (held s k)" by (auto simp: image_iff)
      then show "y \<in> set (held t k)" unfolding h by force
    qed
    with mark [OF p l] step x q show "?Q t rest" by simp
  qed
  then show ?thesis by simp
qed

lemma held_subset: "set (lots_for (bk_portfolio b) k st tf) \<subseteq> set (held b k)"
  by (auto simp: lots_for_def)

lemma held_filter_distinct: "P b \<Longrightarrow> distinct (map pl_id (lots_for (bk_portfolio b) k st tf))"
  using held_distinct [OF core, of b k] by (simp add: lots_for_def distinct_map_filter)

lemma execute_kept:
  assumes "P b" and "execute_entry env b policy s plan p now = Inr (r, b')" and "plan_ok plan"
  shows "P b'"
  using assms(2)
proof (cases rule: execute_entry_cases)
  case duplicate
  with assms(1) show ?thesis by (simp add: other_counters)
next
  case (booked order db t st ex l b2 b3)
  have p1: "P (b\<lparr>bk_db := db\<rparr>)" using order_kept [OF assms(1), of "entry_order env b s plan p"] booked(1) by simp
  have p2: "P b2" using book [OF p1 assms(3) booked(2)] .
  show ?thesis unfolding booked(4)
    by (rule other_counters) (rule marks_kept [OF p2 booked(3) held_subset held_filter_distinct [OF p2]])
qed

lemma fill_kept: "P b \<Longrightarrow> fill_entry env b s p now = Inr (r, b') \<Longrightarrow> P b'"
  by (erule fill_entry_cases) (auto intro: execute_kept reject_kept plan_entry_ok)

lemma on_signal_kept: "P b \<Longrightarrow> on_signal env b s now = Inr (r, b') \<Longrightarrow> P b'"
  by (auto simp: on_signal_def rbind_eq_Inr split: if_splits intro: fill_kept persist_kept)

lemma pending_step_kept:
  "P b \<Longrightarrow> pending_step env c ptf etf (d, b) s = Inr (d', b') \<Longrightarrow> P b'"
  by (auto simp: pending_step_def rbind_eq_Inr split: if_splits intro: fill_kept drop_kept)

lemma fill_pending_kept:
  assumes "P b" and "fill_pending_entries env b k c ptf etf = Inr b'"
  shows "P b'"
proof -
  let ?b0 = "b\<lparr>bk_portfolio := (bk_portfolio b)\<lparr>pf_pending := AList.delete k (pf_pending (bk_portfolio b))\<rparr>\<rparr>"
  from assms(2) obtain d b1 where fold: "rfold (pending_step env c ptf etf) ([], ?b0)
        (dict_get (pf_pending (bk_portfolio b)) k) = Inr (d, b1)"
    and b': "b' = b1 \<or> b' = b1\<lparr>bk_portfolio := (bk_portfolio b1)\<lparr>pf_pending := AList.update k d (pf_pending (bk_portfolio b1))\<rparr>\<rparr>"
    by (auto simp: fill_pending_entries_def Let_def rbind_eq_Inr split: if_splits)
  have "P (snd (d, b1))"
    by (rule rfold_invariant [OF _ _ fold, where P = "\<lambda>st. P (snd st)"])
      (use other_pending [OF assms(1)] in \<open>auto intro: pending_step_kept\<close>)
  with b' show ?thesis by (auto intro: other_pending)
qed

text \<open>The pass over the lots of a candle: a lot still to come is held until it is its turn.\<close>

lemma exits_kept:
  assumes "P b" and "set ls \<subseteq> set (held b k)" and "distinct (map pl_id ls)"
    and "rfold (exit_step env c) \<lparr>xp_broker = b, xp_closed = [], xp_survivors = [], xp_nse_exit = False\<rparr> ls = Inr xp"
  shows "P (xp_broker xp)"
proof -
  let ?Q = "\<lambda>xp ls. P (xp_broker xp) \<and> set ls \<subseteq> set (held (xp_broker xp) k) \<and> distinct (map pl_id ls)"
  have "?Q xp []"
  proof (rule rfold_invariant_rest [OF _ _ assms(4), where Q = ?Q])
    fix x l rest t assume q: "?Q x (l # rest)" and step: "exit_step env c x l = Inr t"
    from q have p: "P (xp_broker x)" and l: "l \<in> set (held (xp_broker x) k)" by auto
    from step consider "xp_broker t = xp_broker x"
      | st price mae mfe u b' where "close_lot env (xp_broker x) l st price (cd_at c) mae mfe = Inr (u, b')" "xp_broker t = b'"
      by (auto simp: exit_step_def rbind_eq_Inr split: if_splits option.splits)
    then show "?Q t rest"
    proof cases
      case 2
      have "set rest \<subseteq> set (held b' k)"
        using q unfolding close_lot_core(2) [OF core [OF p] l 2(1)] by (auto simp: image_iff)
      with 2 close [OF p l 2(1)] q show ?thesis by simp
    qed (use q in auto)
  qed (use assms in simp)
  then show ?thesis by simp
qed

lemma queue_kept: "P b \<Longrightarrow> queue_ladder_entry env now k c at' b key = Inr b' \<Longrightarrow> P b'"
  by (auto simp: queue_ladder_entry_def Let_def rbind_eq_Inr
      split: prod.splits list.splits if_splits option.splits intro: persist_kept)

lemma process_kept:
  assumes "P b" and "process_market_candle env b k c ptf ltf etf now = Inr (cls, b')"
  shows "P b'"
proof -
  from assms(2) obtain b1 xp b2 where
    fp: "fill_pending_entries env b k c ptf etf = Inr b1"
    and ex: "rfold (exit_step env c) \<lparr>xp_broker = b1, xp_closed = [], xp_survivors = [], xp_nse_exit = False\<rparr>
             (lots_for (bk_portfolio b1) k None ltf) = Inr xp"
    and mk: "mark_open_lots env (xp_broker xp) k (cd_close c) (xp_survivors xp)
         (lots_for (bk_portfolio (xp_broker xp)) k None ltf) = Inr b2"
    and qu: "rfold (queue_ladder_entry env now k (cd_close c) (cd_at c)) b2
                (fromkeys (map (\<lambda>l. (pl_strategy l, pl_timeframe l)) (lots_for (bk_portfolio (xp_broker xp)) k None ltf))) = Inr b'"
    by (auto simp: process_market_candle_def Let_def rbind_eq_Inr)
  have p1: "P b1" using fill_pending_kept [OF assms(1) fp] .
  have p2: "P (xp_broker xp)" using exits_kept [OF p1 held_subset held_filter_distinct [OF p1] ex] .
  have "P b2" using marks_kept [OF p2 mk held_subset held_filter_distinct [OF p2]] .
  then show ?thesis by (rule rfold_invariant [OF _ _ qu, rotated]) (rule queue_kept)
qed

lemma close_manually_kept:
  assumes "P b" and "close_lot_manually env b lid now = Inr (u, b')"
  shows "P b'"
proof -
  from assms(2) obtain l price mae mfe b1 where find: "List.find (\<lambda>l. pl_id l = lid) (all_open (bk_portfolio b)) = Some l"
    and cl: "close_lot env b l LotClosed price now mae mfe = Inr (u, b1)"
    and mk: "mark_open_lots env b1 (pl_symbol l) price [] (lots_for (bk_portfolio b1) (pl_symbol l) None None) = Inr b'"
    by (auto simp: close_lot_manually_def Let_def rbind_eq_Inr split: option.splits if_splits)
  from find have "l \<in> set (all_open (bk_portfolio b))" by (auto simp: find_Some_iff in_set_conv_nth)
  with all_open_mem core [OF assms(1)] obtain k where "l \<in> set (held b k)" unfolding core_inv_def by blast
  from close [OF assms(1) this cl] have p1: "P b1" .
  show ?thesis using marks_kept [OF p1 mk held_subset held_filter_distinct [OF p1]] .
qed

lemma apply_op_kept: "P b \<Longrightarrow> apply_op env x b = Inr b' \<Longrightarrow> P b'"
  by (cases x) (auto simp: only_state_def on_completed_candle_def on_market_candle_def Let_def
      split: sum.splits prod.splits intro: on_signal_kept process_kept close_manually_kept fresh reset_fresh [OF core])

end

section \<open>Reachable states and the invariants they have\<close>

inductive broker_reachable :: "broker_env \<Rightarrow> broker \<Rightarrow> bool" for env where
  start: "broker_start env empty_db balance = Inr b \<Longrightarrow> broker_reachable env b"
| operation: "broker_reachable env b \<Longrightarrow> apply_op env x b = Inr b' \<Longrightarrow> broker_reachable env b'"

context broker_invariant
begin

lemma reachable_kept: "broker_reachable env b \<Longrightarrow> P b"
  by (induction rule: broker_reachable.induct) (auto intro: fresh start_fresh apply_op_kept)

end

lemma core_other:
  assumes "core_inv env b" "db_accounts db = db_accounts (bk_db b)" "db_lots db = db_lots (bk_db b)"
    "db_trades db = db_trades (bk_db b)" "db_next (bk_db b) \<le> db_next db" "pf_open_lots pf = pf_open_lots (bk_portfolio b)"
  shows "core_inv env (b\<lparr>bk_db := db, bk_portfolio := pf, bk_rejected := r, bk_filled := n\<rparr>)"
  using assms by (fastforce simp: core_inv_def open_rows_def)

lemma fresh_core: "fresh_broker env b \<Longrightarrow> core_inv env b"
  by (simp add: fresh_broker_def core_inv_def open_rows_def)

interpretation mirror: broker_invariant env "core_inv env" for env
  by unfold_locales (auto intro: core_other fresh_core mark_step_core book_entry_core close_lot_core(1))

text \<open>The inventories are the replay of the trades in the order they were written.\<close>

definition ledger_inv :: "broker_env \<Rightarrow> broker \<Rightarrow> bool" where
  "ledger_inv env b \<longleftrightarrow> core_inv env b
     \<and> (on_nse env \<longrightarrow> rfold load_trade (\<lambda>_. []) (db_trades (bk_db b)) = Inr (bk_inventories b))"

lemma mark_step_frame:
  "mark_step env c exc b lm = Inr b' \<Longrightarrow> db_trades (bk_db b') = db_trades (bk_db b)
     \<and> bk_inventories b' = bk_inventories b \<and> bk_account b' = bk_account b \<and> db_pending (bk_db b') = db_pending (bk_db b)
     \<and> pf_pending (bk_portfolio b') = pf_pending (bk_portfolio b)"
  by (auto simp: mark_step_eq)

interpretation ledger: broker_invariant env "ledger_inv env" for env
proof unfold_locales
  fix b s plan od target stop ex now l b'
  assume p: "ledger_inv env b" and eq: "book_entry env b s plan od target stop ex now = Inr (l, b')"
  from p have core: "core_inv env b" by (simp add: ledger_inv_def)
  from book_entry_core [OF core eq] book_entry_effect [OF core eq] p show "ledger_inv env b'"
    by (auto simp: ledger_inv_def rfold_append load_trade_def entry_trade_def)
next
  fix b l k status raw now mae mfe u b'
  assume p: "ledger_inv env b" and l: "l \<in> set (held b k)" and eq: "close_lot env b l status raw now mae mfe = Inr (u, b')"
  from p have core: "core_inv env b" by (simp add: ledger_inv_def)
  from close_lot_effect [OF core eq] obtain f stock where
    "db_trades (bk_db b') = db_trades (bk_db b) @ [(exit_trade env b l f (status_name status) now)\<lparr>pt_id := db_next (bk_db b)\<rparr>]"
    "bk_inventories b' = (bk_inventories b)(pl_symbol l := stock)"
    "on_nse env \<Longrightarrow> \<exists>m. fifo_consume (bk_inventories b (pl_symbol l)) (pl_quantity l) = Inr (m, stock)"
    by (elim conjE exE) (simp split: if_splits)
  with close_lot_core(1) [OF core l eq] p show "ledger_inv env b'"
    by (auto simp: ledger_inv_def rfold_append load_trade_def exit_trade_def)
next
  fix b l k c exc m b'
  assume p: "ledger_inv env b" and l: "l \<in> set (held b k)" and eq: "mark_step env c exc b (l, m) = Inr b'"
  from p have core: "core_inv env b" by (simp add: ledger_inv_def)
  from mark_step_core [OF core l eq] mark_step_frame [OF eq] p show "ledger_inv env b'" by (simp add: ledger_inv_def)
qed (simp_all add: ledger_inv_def core_other fresh_core, simp add: fresh_broker_def)

text \<open>
  Cash against the trades: a trade row keeps four decimals of price and fees, the account the exact
  amounts, so each trade may account for half a tick per share and half a tick of fees.
\<close>

definition trade_flow :: "paper_trade \<Rightarrow> real" where
  "trade_flow t = (case pt_side t of
     BuySide \<Rightarrow> - (pt_price t * pt_quantity t + pt_fees t)
   | SellSide \<Rightarrow> pt_price t * pt_quantity t - pt_fees t)"

definition trade_slack :: "paper_trade \<Rightarrow> real" where
  "trade_slack t = (\<bar>pt_quantity t\<bar> + 1) / 20000"

definition cash_inv :: "broker_env \<Rightarrow> broker \<Rightarrow> bool" where
  "cash_inv env b \<longleftrightarrow> core_inv env b
     \<and> \<bar>ac_cash_balance (bk_account b)
         - (ac_starting_balance (bk_account b) + sum_list (map trade_flow (db_trades (bk_db b))))\<bar>
       \<le> sum_list (map trade_slack (db_trades (bk_db b)))"

lemma rounded_flow:
  "\<bar>(price * q + fees) - (py_round price 4 * q + py_round fees 4)\<bar> \<le> (\<bar>q\<bar> + 1) / 20000"
  "\<bar>(price * q - fees) - (py_round price 4 * q - py_round fees 4)\<bar> \<le> (\<bar>q\<bar> + 1) / 20000"
proof -
  have p: "\<bar>price - py_round price 4\<bar> \<le> 1 / 20000" and f: "\<bar>fees - py_round fees 4\<bar> \<le> 1 / 20000"
    using py_round_error [of price 4] py_round_error [of fees 4] by (simp_all add: abs_minus_commute)
  have "\<bar>(price - py_round price 4) * q\<bar> \<le> 1 / 20000 * \<bar>q\<bar>"
    unfolding abs_mult using p by (intro mult_right_mono) simp_all
  then have m: "\<bar>price * q - py_round price 4 * q\<bar> \<le> \<bar>q\<bar> / 20000" by (simp add: left_diff_distrib)
  have sum: "\<bar>x - x' + (y - y')\<bar> \<le> d + e" "\<bar>x - x' - (y - y')\<bar> \<le> d + e"
    if "\<bar>x - x'\<bar> \<le> d" "\<bar>y - y'\<bar> \<le> e" for x x' y y' d e :: real
    using that by linarith+
  show "\<bar>(price * q + fees) - (py_round price 4 * q + py_round fees 4)\<bar> \<le> (\<bar>q\<bar> + 1) / 20000"
    using sum(1) [OF m f] by (simp add: add_divide_distrib algebra_simps)
  show "\<bar>(price * q - fees) - (py_round price 4 * q - py_round fees 4)\<bar> \<le> (\<bar>q\<bar> + 1) / 20000"
    using sum(2) [OF m f] by (simp add: add_divide_distrib algebra_simps)
qed

lemma drift_step:
  fixes c s :: real
  assumes "\<bar>c - (s + flow)\<bar> \<le> slack" and "\<bar>x - y\<bar> \<le> d"
  shows "\<bar>c + x - (s + (flow + y))\<bar> \<le> slack + d" and "\<bar>c - x - (s + (flow - y))\<bar> \<le> slack + d"
  using assms by linarith+

interpretation cash: broker_invariant env "cash_inv env" for env
proof unfold_locales
  fix b s plan od target stop ex now l b'
  assume p: "cash_inv env b" and ok: "plan_ok plan" and eq: "book_entry env b s plan od target stop ex now = Inr (l, b')"
  from p have core: "core_inv env b" by (simp add: cash_inv_def)
  note e = book_entry_effect [OF core eq]
  have "map trade_flow (db_trades (bk_db b')) = map trade_flow (db_trades (bk_db b))
        @ [- (py_round (fill_price (en_fill plan)) 4 * en_quantity plan + py_round (fill_fees (en_fill plan)) 4)]"
    and "map trade_slack (db_trades (bk_db b')) = map trade_slack (db_trades (bk_db b)) @ [(\<bar>en_quantity plan\<bar> + 1) / 20000]"
    using e by (simp_all add: trade_flow_def trade_slack_def entry_trade_def)
  moreover have "ac_starting_balance (bk_account b') = ac_starting_balance (bk_account b)"
    "ac_cash_balance (bk_account b') = ac_cash_balance (bk_account b)
       - (fill_price (en_fill plan) * en_quantity plan + fill_fees (en_fill plan))"
    using e ok by (simp_all add: plan_ok_def entry_cost_def)
  ultimately show "cash_inv env b'"
    using book_entry_core [OF core eq] p
      drift_step(2) [OF conjunct2 [OF p [unfolded cash_inv_def]]
        rounded_flow(1) [of "fill_price (en_fill plan)" "en_quantity plan" "fill_fees (en_fill plan)"]]
    by (simp add: cash_inv_def)
next
  fix b l k status raw now mae mfe u b'
  assume p: "cash_inv env b" and l: "l \<in> set (held b k)" and eq: "close_lot env b l status raw now mae mfe = Inr (u, b')"
  from p have core: "core_inv env b" by (simp add: cash_inv_def)
  let ?f = "fee_sell (ms_fees (pb_market env)) raw (pl_quantity l)"
  note e = close_lot_effect [OF core eq]
  have "map trade_flow (db_trades (bk_db b')) = map trade_flow (db_trades (bk_db b))
        @ [py_round (fill_price ?f) 4 * pl_quantity l - py_round (fill_fees ?f) 4]"
    and "map trade_slack (db_trades (bk_db b')) = map trade_slack (db_trades (bk_db b)) @ [(\<bar>pl_quantity l\<bar> + 1) / 20000]"
    using e by (simp_all add: trade_flow_def trade_slack_def exit_trade_def)
  moreover have "ac_starting_balance (bk_account b') = ac_starting_balance (bk_account b)"
    "ac_cash_balance (bk_account b') = ac_cash_balance (bk_account b)
       + (fill_price ?f * pl_quantity l - fill_fees ?f)"
    using e by (simp_all add: exit_proceeds_def)
  ultimately show "cash_inv env b'"
    using close_lot_core(1) [OF core l eq] p
      drift_step(1) [OF conjunct2 [OF p [unfolded cash_inv_def]]
        rounded_flow(2) [of "fill_price ?f" "pl_quantity l" "fill_fees ?f"]]
    by (simp add: cash_inv_def)
next
  fix b l k c exc m b'
  assume p: "cash_inv env b" and l: "l \<in> set (held b k)" and eq: "mark_step env c exc b (l, m) = Inr b'"
  from p have core: "core_inv env b" by (simp add: cash_inv_def)
  from mark_step_core [OF core l eq] mark_step_frame [OF eq] p show "cash_inv env b'" by (simp add: cash_inv_def)
qed (simp_all add: cash_inv_def core_other fresh_core, simp add: fresh_broker_def)

text \<open>
  The stock of every symbol is the sum of its open lots, as long as all trades were in whole shares.
\<close>

definition whole_trades :: "broker \<Rightarrow> bool" where
  "whole_trades b \<longleftrightarrow> (\<forall>t \<in> set (db_trades (bk_db b)). pt_quantity t \<in> \<nat>)"

definition lots_total :: "paper_lot list \<Rightarrow> real" where
  "lots_total ls = sum_list (map pl_quantity ls)"

definition stock_inv :: "broker_env \<Rightarrow> broker \<Rightarrow> bool" where
  "stock_inv env b \<longleftrightarrow> core_inv env b
     \<and> (on_nse env \<longrightarrow> whole_trades b \<longrightarrow>
         (\<forall>k. stock_ok (bk_inventories b k) \<and> inv_quantity (bk_inventories b k) = lots_total (held b k)
            \<and> (\<forall>l \<in> set (held b k). 0 < pl_quantity l \<and> pl_quantity l \<in> \<nat>)))"

lemma lots_total_remove:
  "distinct (map pl_id ls) \<Longrightarrow> l \<in> set ls \<Longrightarrow>
   lots_total (filter (\<lambda>x. pl_id x \<noteq> pl_id l) ls) = lots_total ls - pl_quantity l"
proof (induction ls)
  case (Cons x xs)
  show ?case
  proof (cases "pl_id x = pl_id l")
    case True
    with Cons.prems have "x = l" and "filter (\<lambda>x. pl_id x \<noteq> pl_id l) xs = xs" by (auto simp: image_iff filter_id_conv)
    then show ?thesis by (simp add: lots_total_def)
  qed (use Cons in \<open>auto simp: lots_total_def\<close>)
qed simp

lemma lots_total_map: "(\<And>x. pl_quantity (f x) = pl_quantity x) \<Longrightarrow> lots_total (map f ls) = lots_total ls"
  by (simp add: lots_total_def o_def)

lemma stock_ok_add:
  assumes "stock_ok stock" and "fifo_add stock i t p q f = Inr stock'" and "q \<in> \<nat>"
  shows "stock_ok stock' \<and> inv_quantity stock' = inv_quantity stock + q \<and> 0 < q"
  using assms by (auto simp: fifo_add_def stock_ok_def split: if_splits)

lemma stock_ok_sell:
  assumes "stock_ok stock" and "fifo_consume stock q = Inr (m, stock')" and "q \<in> \<nat>"
  shows "stock_ok stock' \<and> inv_quantity stock' = inv_quantity stock - q"
proof -
  from assms(3) obtain n where q: "q = real n" by (auto simp: Nats_def)
  note c = fifo_consume_shares [OF assms(1) assms(2) [unfolded q]]
  have "real (length (units stock')) = real (length (units stock)) - real n" using c(1,4) by simp
  with c(3) assms(1) q show ?thesis by (simp add: stock_ok_def length_units)
qed

interpretation stock: broker_invariant env "stock_inv env" for env
proof unfold_locales
  fix b s plan od target stop ex now l b'
  assume p: "stock_inv env b" and eq: "book_entry env b s plan od target stop ex now = Inr (l, b')"
  from p have core: "core_inv env b" by (simp add: stock_inv_def)
  note e = book_entry_effect [OF core eq]
  from e obtain st where inv: "bk_inventories b' = (bk_inventories b)(sg_symbol s := st)"
    and add: "on_nse env \<Longrightarrow> fifo_add (bk_inventories b (sg_symbol s)) (pl_id l) now
         (py_round (fill_price (en_fill plan)) 4) (en_quantity plan) (py_round (fill_fees (en_fill plan)) 4) = Inr st"
    by (elim conjE exE) (simp del: fun_upd_triv split: if_splits)
  have "\<forall>k. stock_ok (bk_inventories b' k) \<and> inv_quantity (bk_inventories b' k) = lots_total (held b' k)
            \<and> (\<forall>l \<in> set (held b' k). 0 < pl_quantity l \<and> pl_quantity l \<in> \<nat>)" if nse: "on_nse env" and w: "whole_trades b'"
  proof -
    have w0: "whole_trades b" and q: "en_quantity plan \<in> \<nat>" using w e by (auto simp: whole_trades_def entry_trade_def)
    have old: "stock_ok (bk_inventories b k) \<and> inv_quantity (bk_inventories b k) = lots_total (held b k)
            \<and> (\<forall>l \<in> set (held b k). 0 < pl_quantity l \<and> pl_quantity l \<in> \<nat>)" for k
      using p nse w0 by (simp add: stock_inv_def)
    have h: "held b' k = (if k = sg_symbol s then held b k @ [l] else held b k)" for k using e by auto
    from stock_ok_add [OF conjunct1 [OF old] add [OF nse] q] old e q show ?thesis
      unfolding h inv by (auto simp: lots_total_def)
  qed
  with book_entry_core [OF core eq] show "stock_inv env b'" by (simp add: stock_inv_def)
next
  fix b l k status raw now mae mfe u b'
  assume p: "stock_inv env b" and l: "l \<in> set (held b k)" and eq: "close_lot env b l status raw now mae mfe = Inr (u, b')"
  from p have core: "core_inv env b" by (simp add: stock_inv_def)
  from close_lot_effect [OF core eq] obtain f st where
    t: "db_trades (bk_db b') = db_trades (bk_db b) @ [(exit_trade env b l f (status_name status) now)\<lparr>pt_id := db_next (bk_db b)\<rparr>]"
    and inv: "bk_inventories b' = (bk_inventories b)(pl_symbol l := st)"
    and sell: "on_nse env \<Longrightarrow> \<exists>m. fifo_consume (bk_inventories b (pl_symbol l)) (pl_quantity l) = Inr (m, st)"
    by (elim conjE exE) (simp split: if_splits)
  have k: "pl_symbol l = k" using held_open [OF core l] by simp
  note h = close_lot_core(2) [OF core l eq]
  have "\<forall>k. stock_ok (bk_inventories b' k) \<and> inv_quantity (bk_inventories b' k) = lots_total (held b' k)
            \<and> (\<forall>l \<in> set (held b' k). 0 < pl_quantity l \<and> pl_quantity l \<in> \<nat>)" if nse: "on_nse env" and w: "whole_trades b'"
  proof -
    have w0: "whole_trades b" and q: "pl_quantity l \<in> \<nat>" using w t by (auto simp: whole_trades_def exit_trade_def)
    have old: "stock_ok (bk_inventories b k) \<and> inv_quantity (bk_inventories b k) = lots_total (held b k)
            \<and> (\<forall>l \<in> set (held b k). 0 < pl_quantity l \<and> pl_quantity l \<in> \<nat>)" for k
      using p nse w0 by (simp add: stock_inv_def)
    from sell [OF nse] obtain m where "fifo_consume (bk_inventories b k) (pl_quantity l) = Inr (m, st)" using k by auto
    note s = stock_ok_sell [OF conjunct1 [OF old] this q]
    have other: "held b' k' = held b k'" if "k' \<noteq> k" for k'
      unfolding h using held_same [OF core l, of _ k'] that by (intro filter_True) force
    have same: "lots_total (held b' k) = lots_total (held b k) - pl_quantity l"
      unfolding h by (rule lots_total_remove [OF held_distinct [OF core] l])
    show ?thesis
    proof
      fix k'
      show "stock_ok (bk_inventories b' k') \<and> inv_quantity (bk_inventories b' k') = lots_total (held b' k')
            \<and> (\<forall>l \<in> set (held b' k'). 0 < pl_quantity l \<and> pl_quantity l \<in> \<nat>)"
      proof (cases "k' = k")
        case True
        with s same old [of k] show ?thesis by (simp add: inv k) (simp add: h)
      qed (use old [of k'] other in \<open>simp add: inv k\<close>)
    qed
  qed
  with close_lot_core(1) [OF core l eq] show "stock_inv env b'" by (simp add: stock_inv_def)
next
  fix b l k c exc m b'
  assume p: "stock_inv env b" and l: "l \<in> set (held b k)" and eq: "mark_step env c exc b (l, m) = Inr b'"
  from p have core: "core_inv env b" by (simp add: stock_inv_def)
  from mark_step_held [OF core l eq] obtain m' where
    h: "held b' k' = map (\<lambda>x. if pl_id x = pl_id l then mark_copy m' l else x) (held b k')" for k' by blast
  have same: "(if pl_id x = pl_id l then mark_copy m' l else x) = (if pl_id x = pl_id l then mark_copy m' x else x)"
    if "x \<in> set (held b k')" for x k' using held_same [OF core l that] by auto
  have h': "held b' k' = map (\<lambda>x. if pl_id x = pl_id l then mark_copy m' x else x) (held b k')" for k'
    unfolding h using same by (intro map_cong) auto
  have "lots_total (held b' k') = lots_total (held b k')" for k' unfolding h' by (rule lots_total_map) simp
  moreover have "\<forall>y \<in> set (held b' k'). \<exists>x \<in> set (held b k'). pl_quantity y = pl_quantity x" for k'
    unfolding h' by auto
  ultimately show "stock_inv env b'"
    using mark_step_core [OF core l eq] mark_step_frame [OF eq] p by (fastforce simp: stock_inv_def whole_trades_def)
qed (simp_all add: stock_inv_def core_other fresh_core whole_trades_def,
     simp add: fresh_broker_def stock_ok_def lots_total_def)

end
