(* ===== verification/Paper_Restart.thy ===== *)
theory Paper_Restart
  imports Paper_Invariants "HOL-Library.Multiset"
begin

text \<open>
  The docstring of \<open>broker.py\<close> promises that the portfolio is rebuilt from the database on start.
  This theory shows that the tables hold all of it: the pending entries in memory are the rows of
  the table, and with the mirror and ledger invariants a rebuild recovers the account, the open
  lots, the pending entries and, when trades are stamped in the order they were written, the FIFO
  inventories.
\<close>

section \<open>Pending entries mirror their table\<close>

definition pend_rows :: "paper_db \<Rightarrow> string \<Rightarrow> pending_row list" where
  "pend_rows db k = filter (\<lambda>p. sg_symbol (pe_signal p) = k) (db_pending db)"

definition pend_wf :: "broker \<Rightarrow> bool" where
  "pend_wf b \<longleftrightarrow>
     (\<forall>p \<in> set (db_pending (bk_db b)). pe_account p = ac_id (bk_account b)
        \<and> sg_pending_id (pe_signal p) = Some (pe_id p) \<and> (\<exists>n < db_next (bk_db b). pe_id p = show_nat n))
     \<and> distinct (map pe_id (db_pending (bk_db b)))"

abbreviation waiting :: "broker \<Rightarrow> string \<Rightarrow> signal list" where
  "waiting b k \<equiv> dict_get (pf_pending (bk_portfolio b)) k"

definition pend_inv :: "broker \<Rightarrow> bool" where
  "pend_inv b \<longleftrightarrow> pend_wf b \<and> (\<forall>k. waiting b k = map pe_signal (pend_rows (bk_db b) k))"

text \<open>What the operations on lots leave alone.\<close>

definition same_pending :: "broker \<Rightarrow> broker \<Rightarrow> bool" where
  "same_pending b b' \<longleftrightarrow> db_pending (bk_db b') = db_pending (bk_db b)
     \<and> pf_pending (bk_portfolio b') = pf_pending (bk_portfolio b)
     \<and> ac_id (bk_account b') = ac_id (bk_account b) \<and> db_next (bk_db b) \<le> db_next (bk_db b')"

lemma same_pending_refl [simp]: "same_pending b b"
  by (simp add: same_pending_def)

lemma same_pending_wf: "same_pending b b' \<Longrightarrow> pend_wf b \<Longrightarrow> pend_wf b'"
  unfolding same_pending_def pend_wf_def by (metis order_less_le_trans)

lemma same_pending_inv:
  assumes "same_pending b b'" and "pend_inv b"
  shows "pend_inv b'"
proof -
  from assms(1) have eq: "db_pending (bk_db b') = db_pending (bk_db b)"
    "pf_pending (bk_portfolio b') = pf_pending (bk_portfolio b)" unfolding same_pending_def by blast+
  from assms(2) have "pend_wf b" and "\<forall>k. waiting b k = map pe_signal (pend_rows (bk_db b) k)"
    unfolding pend_inv_def by blast+
  then show ?thesis using same_pending_wf [OF assms(1)] unfolding pend_inv_def pend_rows_def eq by blast
qed

lemma lot_insert_frame: "lot_insert db v = Inr (l, db') \<Longrightarrow> db_pending db' = db_pending db \<and> db_next db' = db_next db + 1"
  by (auto simp: lot_insert_def Let_def rbind_eq_Inr)

lemma lot_close_frame:
  "lot_close db lid st x xp cb al rl fs = Inr (l, db') \<Longrightarrow> db_pending db' = db_pending db \<and> db_next db' = db_next db"
  by (auto simp: lot_close_def update_open_def Let_def rbind_eq_Inr split: if_splits)

lemma adjust_cash_frame: "adjust_cash db a d = Inr (c, db') \<Longrightarrow> db_pending db' = db_pending db \<and> db_next db' = db_next db"
  by (auto simp: adjust_cash_def Let_def split: option.splits)

lemma order_insert_frame: "order_insert db od = (r, db') \<Longrightarrow> db_pending db' = db_pending db \<and> db_next db \<le> db_next db'"
  by (auto simp: order_insert_def Let_def split: if_splits)

lemmas db_frame = lot_insert_frame lot_close_frame adjust_cash_frame order_insert_frame

lemma trade_insert_frame [simp]:
  "db_pending (trade_insert db t) = db_pending db" "db_next (trade_insert db t) = db_next db + 1"
  by (simp_all add: trade_insert_def)

lemma mark_step_pending: "same_pending b0 b \<Longrightarrow> ends (\<lambda>_. True) (same_pending b0) (mark_step env c exc b lm)"
  by (rule ends_TrueI) (auto simp: mark_step_eq same_pending_def)

lemma marks_pending: "same_pending b0 b \<Longrightarrow> ends (\<lambda>_. True) (same_pending b0) (mark_open_lots env b k c exc ls)"
  unfolding mark_open_lots_def Let_def
  by (auto intro!: ends_rbind ends_with_broker ends_rfold mark_step_pending)

lemma book_entry_pending:
  "same_pending b0 b \<Longrightarrow> ends (\<lambda>_. True) (\<lambda>(_, b'). same_pending b0 b') (book_entry env b s plan od t st ex now)"
  unfolding book_entry_def Let_def
  by (auto intro!: ends_rbind ends_with_broker simp: same_pending_def set_cash_def portfolio_add_lot_def dest!: db_frame)

lemma close_lot_pending:
  "same_pending b0 b \<Longrightarrow> ends (\<lambda>_. True) (\<lambda>(_, b'). same_pending b0 b') (close_lot env b l st p now mae mfe)"
  unfolding close_lot_def Let_def
  by (auto intro!: ends_rbind ends_with_broker simp: same_pending_def set_cash_def dest!: db_frame)

lemma reject_pending: "same_pending b (reject_order env b s p reason)"
  by (auto simp: reject_order_def same_pending_def order_insert_def Let_def)

lemma fill_entry_pending:
  assumes "fill_entry env b s p now = Inr (r, b')"
  shows "same_pending b b'"
  using assms
proof (cases rule: fill_entry_cases)
  case (planned policy plan)
  from planned(3) show ?thesis
  proof (cases rule: execute_entry_cases)
    case (booked order db t st ex l b2 b3)
    have "same_pending b (b\<lparr>bk_db := db\<rparr>)" using db_frame(4) [OF booked(1)] by (simp add: same_pending_def)
    from ends_Inr [OF book_entry_pending [OF this] booked(2)] have "same_pending b b2" by simp
    from ends_Inr [OF marks_pending [OF this] booked(3)] show ?thesis by (simp add: booked(4) same_pending_def)
  qed (simp add: same_pending_def)
qed (simp add: reject_pending)

lemma exit_step_pending:
  "same_pending b0 (xp_broker xp) \<Longrightarrow>
   ends (\<lambda>_. True) (\<lambda>x. same_pending b0 (xp_broker x)) (exit_step env c xp l)"
  unfolding exit_step_def
  by (auto intro!: ends_rbind ends_with_broker ends_mono [OF close_lot_pending] split: option.split)

subsection \<open>Persisting and dropping\<close>

lemma persist_pending_inv:
  assumes "pend_inv b"
  shows "pend_inv (persist_pending_entry b s cy n now)"
proof -
  obtain r db where r: "pending_insert (bk_db b) s (ac_id (bk_account b)) cy n now = (r, db)" by fastforce
  show ?thesis
  proof (cases r)
    case (Some stored)
    from r Some have "sg_symbol stored = sg_symbol s" "sg_pending_id stored = Some (fresh_id (bk_db b))"
      "db_pending db = db_pending (bk_db b) @ [\<lparr>pe_id = fresh_id (bk_db b), pe_account = ac_id (bk_account b),
         pe_created_at = now, pe_signal = stored\<rparr>]" "db_next db = db_next (bk_db b) + 1"
      by (auto simp: pending_insert_def Let_def split: if_splits)
    with r Some assms show ?thesis
      by (fastforce simp: persist_pending_entry_def pend_inv_def pend_wf_def pend_rows_def portfolio_add_pending_def
          fresh_id_def)
  qed (use assms r in \<open>simp add: persist_pending_entry_def\<close>)
qed

lemma queue_ladder_pending:
  "pend_inv b \<Longrightarrow> queue_ladder_entry env now k c at' b key = Inr b' \<Longrightarrow> pend_inv b'"
  by (auto simp: queue_ladder_entry_def Let_def rbind_eq_Inr
      split: prod.splits list.splits if_splits option.splits intro: persist_pending_inv)

lemma pend_rows_delete: "pend_rows (pending_delete db i) k = filter (\<lambda>p. pe_id p \<noteq> i) (pend_rows db k)"
  unfolding pend_rows_def pending_delete_def by (simp add: conj_commute)

lemma pend_rows_inj:
  assumes "pend_wf b" and "p \<in> set (pend_rows (bk_db b) k)" and "q \<in> set (pend_rows (bk_db b) k')" and "pe_id p = pe_id q"
  shows "p = q \<and> k = k'"
proof -
  from assms(1) have "inj_on pe_id (set (db_pending (bk_db b)))" by (simp add: pend_wf_def distinct_map)
  with assms(2-4) show ?thesis by (auto simp: pend_rows_def inj_on_def)
qed

text \<open>Dropping the entry at hand removes its row and no other.\<close>

lemma drop_pending_rows:
  assumes wf: "pend_wf b" and rows: "map pe_signal (pend_rows (bk_db b) k) = d @ s # rest"
  shows "pend_wf (drop_pending b s)"
    and "map pe_signal (pend_rows (bk_db (drop_pending b s)) k) = d @ rest"
    and "k' \<noteq> k \<Longrightarrow> pend_rows (bk_db (drop_pending b s)) k' = pend_rows (bk_db b) k'"
    and "bk_portfolio (drop_pending b s) = bk_portfolio b"
proof -
  from rows obtain r1 p r2 where r: "pend_rows (bk_db b) k = r1 @ p # r2"
    and m: "map pe_signal r1 = d" "pe_signal p = s" "map pe_signal r2 = rest"
    by (auto simp: map_eq_append_conv map_eq_Cons_conv)
  have p: "p \<in> set (pend_rows (bk_db b) k)" by (simp add: r)
  then have "p \<in> set (db_pending (bk_db b))" by (simp add: pend_rows_def)
  with wf m(2) have drop: "drop_pending b s = b\<lparr>bk_db := pending_delete (bk_db b) (pe_id p)\<rparr>"
    by (auto simp: drop_pending_def pend_wf_def)
  have sub: "set (db_pending (pending_delete (bk_db b) i)) \<subseteq> set (db_pending (bk_db b))" for i
    by (auto simp: pending_delete_def)
  show "pend_wf (drop_pending b s)"
    using wf sub unfolding drop pend_wf_def by (auto simp: pending_delete_def distinct_map_filter)
  show "bk_portfolio (drop_pending b s) = bk_portfolio b" by (simp add: drop)
  have "distinct (map pe_id (pend_rows (bk_db b) k))"
    using wf by (simp add: pend_wf_def pend_rows_def distinct_map_filter)
  then have "pe_id p \<notin> pe_id ` set r1" "pe_id p \<notin> pe_id ` set r2" by (simp_all add: r)
  then have "filter (\<lambda>q. pe_id q \<noteq> pe_id p) r1 = r1" "filter (\<lambda>q. pe_id q \<noteq> pe_id p) r2 = r2"
    by (auto simp: filter_id_conv image_iff)
  then have "filter (\<lambda>q. pe_id q \<noteq> pe_id p) (r1 @ p # r2) = r1 @ r2" by simp
  then show "map pe_signal (pend_rows (bk_db (drop_pending b s)) k) = d @ rest"
    using m by (simp add: drop pend_rows_delete r)
  show "pend_rows (bk_db (drop_pending b s)) k' = pend_rows (bk_db b) k'" if "k' \<noteq> k"
  proof -
    have "\<forall>q \<in> set (pend_rows (bk_db b) k'). pe_id q \<noteq> pe_id p"
      using pend_rows_inj [OF wf p, of _ k'] that by metis
    then show ?thesis by (simp add: drop pend_rows_delete)
  qed
qed

definition loop_inv :: "string \<Rightarrow> signal list \<times> broker \<Rightarrow> signal list \<Rightarrow> bool" where
  "loop_inv k st rest \<longleftrightarrow> pend_wf (snd st) \<and> waiting (snd st) k = []
     \<and> map pe_signal (pend_rows (bk_db (snd st)) k) = fst st @ rest
     \<and> (\<forall>k'. k' \<noteq> k \<longrightarrow> waiting (snd st) k' = map pe_signal (pend_rows (bk_db (snd st)) k'))"

lemma loop_inv_same: "same_pending b b' \<Longrightarrow> loop_inv k (d, b) rest \<Longrightarrow> loop_inv k (d, b') rest"
proof -
  assume a: "same_pending b b'" and l: "loop_inv k (d, b) rest"
  from a have eq: "db_pending (bk_db b') = db_pending (bk_db b)"
    "pf_pending (bk_portfolio b') = pf_pending (bk_portfolio b)" unfolding same_pending_def by blast+
  from l same_pending_wf [OF a] show ?thesis unfolding loop_inv_def pend_rows_def snd_conv fst_conv eq by blast
qed

lemma loop_inv_drop: "loop_inv k (d, b) (s # rest) \<Longrightarrow> loop_inv k (d, drop_pending b s) rest"
  unfolding loop_inv_def snd_conv fst_conv
  using drop_pending_rows [of b k d s rest] by presburger

lemma loop_inv_defer: "loop_inv k (d, b) (s # rest) \<Longrightarrow> loop_inv k (d @ [s], b) rest"
  by (simp add: loop_inv_def)

lemma pending_step_loop:
  assumes "loop_inv k st (s # rest)" and "pending_step env c ptf etf st s = Inr st'"
  shows "loop_inv k st' rest"
proof -
  obtain d b where st: "st = (d, b)" by fastforce
  from assms(2) consider "st' = (d, drop_pending b s)" | "st' = (d @ [s], b)"
    | r b' where "fill_entry env b s (cd_open c) (cd_at c) = Inr (r, b')" "st' = (d, drop_pending b' s)"
    by (auto simp: pending_step_def st rbind_eq_Inr split: if_splits)
  then show ?thesis
    using assms(1) fill_entry_pending loop_inv_same loop_inv_drop loop_inv_defer unfolding st by cases metis+
qed

lemma paper_fill_pending_inv:
  assumes inv: "pend_inv b" and eq: "fill_pending_entries env b k c ptf etf = Inr b'"
  shows "pend_inv b'"
proof -
  let ?b0 = "b\<lparr>bk_portfolio := (bk_portfolio b)\<lparr>pf_pending := AList.delete k (pf_pending (bk_portfolio b))\<rparr>\<rparr>"
  from eq obtain d b1 where fold: "rfold (pending_step env c ptf etf) ([], ?b0) (waiting b k) = Inr (d, b1)"
    and b': "b' = (if d \<noteq> [] then b1\<lparr>bk_portfolio := (bk_portfolio b1)\<lparr>pf_pending := AList.update k d (pf_pending (bk_portfolio b1))\<rparr>\<rparr> else b1)"
    by (auto simp: fill_pending_entries_def Let_def rbind_eq_Inr)
  have "loop_inv k (d, b1) []"
    by (rule rfold_invariant_rest [where Q = "loop_inv k", OF pending_step_loop _ fold])
      (use inv in \<open>auto simp: loop_inv_def pend_inv_def pend_wf_def\<close>)
  then have l: "pend_wf b1" "waiting b1 k = []" "map pe_signal (pend_rows (bk_db b1) k) = d"
    "\<forall>k'. k' \<noteq> k \<longrightarrow> waiting b1 k' = map pe_signal (pend_rows (bk_db b1) k')" by (simp_all add: loop_inv_def)
  have "waiting b' k' = map pe_signal (pend_rows (bk_db b') k')" for k'
    using l(2-4) by (cases "k' = k") (simp_all add: b')
  with l(1) show ?thesis by (simp add: b' pend_inv_def pend_wf_def)
qed

lemma process_pending_inv:
  assumes inv: "pend_inv b" and eq: "process_market_candle env b k c ptf ltf etf now = Inr (cls, b')"
  shows "pend_inv b'"
proof -
  from eq obtain b1 xp b2 where
    fp: "fill_pending_entries env b k c ptf etf = Inr b1"
    and ex: "rfold (exit_step env c) \<lparr>xp_broker = b1, xp_closed = [], xp_survivors = [], xp_nse_exit = False\<rparr>
             (lots_for (bk_portfolio b1) k None ltf) = Inr xp"
    and mk: "mark_open_lots env (xp_broker xp) k (cd_close c) (xp_survivors xp)
         (lots_for (bk_portfolio (xp_broker xp)) k None ltf) = Inr b2"
    and qu: "rfold (queue_ladder_entry env now k (cd_close c) (cd_at c)) b2
                (fromkeys (map (\<lambda>l. (pl_strategy l, pl_timeframe l)) (lots_for (bk_portfolio (xp_broker xp)) k None ltf))) = Inr b'"
    by (auto simp: process_market_candle_def Let_def rbind_eq_Inr)
  have "ends (\<lambda>_. True) (\<lambda>x. same_pending b1 (xp_broker x)) (rfold (exit_step env c)
      \<lparr>xp_broker = b1, xp_closed = [], xp_survivors = [], xp_nse_exit = False\<rparr> (lots_for (bk_portfolio b1) k None ltf))"
    by (rule ends_rfold) (auto intro: exit_step_pending)
  from ends_Inr [OF this ex] have "same_pending b1 (xp_broker xp)" .
  from ends_Inr [OF marks_pending [OF this] mk] have "same_pending b1 b2" .
  from same_pending_inv [OF this paper_fill_pending_inv [OF inv fp]] have "pend_inv b2" .
  then show ?thesis by (rule rfold_invariant [OF _ _ qu, rotated]) (rule queue_ladder_pending)
qed

lemma close_manually_pending:
  "close_lot_manually env b lid now = Inr (u, b') \<Longrightarrow> same_pending b b'"
proof -
  have "ends (\<lambda>_. True) (\<lambda>(_, b'). same_pending b b') (close_lot_manually env b lid now)"
    unfolding close_lot_manually_def Let_def
    by (auto intro!: ends_rbind ends_with_broker ends_mono [OF close_lot_pending [OF same_pending_refl]]
        ends_mono [OF marks_pending] split: option.split)
  then show "close_lot_manually env b lid now = Inr (u, b') \<Longrightarrow> same_pending b b'" by simp
qed

lemma on_signal_pending: "pend_inv b \<Longrightarrow> on_signal env b s now = Inr (r, b') \<Longrightarrow> pend_inv b'"
  by (auto simp: on_signal_def rbind_eq_Inr split: if_splits
      intro: same_pending_inv [OF fill_entry_pending] persist_pending_inv)

lemma reset_pending:
  assumes "pend_inv b" and "core_inv env b" and "broker_reset env b balance now = Inr (a, b')"
  shows "pend_inv b'"
proof -
  have acc: "db_accounts (bk_db b) = [bk_account b]" "ac_market (bk_account b) = ms_market (pb_market env)"
    using assms(2) by (simp_all add: core_inv_def)
  have "filter (\<lambda>p. pe_account p \<noteq> ac_id (bk_account b)) (db_pending (bk_db b)) = []"
    using assms(1) by (auto simp: pend_inv_def pend_wf_def filter_empty_conv)
  with assms(3) show ?thesis
    by (auto simp: broker_reset_def account_reset_def account_get_def pending_clear_def Let_def rbind_eq_Inr
        acc pend_inv_def pend_wf_def pend_rows_def portfolio_rebuild_def)
qed

lemma start_pending: "broker_start env empty_db balance = Inr b \<Longrightarrow> pend_inv b"
  by (auto simp: broker_start_def account_get_or_create_def account_get_def Let_def rbind_eq_Inr empty_db_def
      rebuild_portfolio_def portfolio_rebuild_def lots_open_def pending_list_def pend_inv_def pend_wf_def pend_rows_def)

lemma apply_op_pending:
  "pend_inv b \<Longrightarrow> core_inv env b \<Longrightarrow> apply_op env x b = Inr b' \<Longrightarrow> pend_inv b'"
  by (cases x) (auto simp: only_state_def on_completed_candle_def on_market_candle_def Let_def
      split: sum.splits prod.splits
      intro: on_signal_pending process_pending_inv reset_pending same_pending_inv [OF close_manually_pending])

lemma reachable_pending: "broker_reachable env b \<Longrightarrow> pend_inv b"
  by (induction rule: broker_reachable.induct) (auto intro: start_pending apply_op_pending mirror.reachable_kept)

section \<open>Restart\<close>

lemma sort_key_sorted:
  assumes "sorted (map (f :: 'a \<Rightarrow> 'b::linorder) xs)" shows "sort_key f xs = xs"
  using assms by (induction xs) (auto simp: insort_is_Cons)

text \<open>Trades whose stamps never go back are read in the order they were written.\<close>

lemma chronological_id:
  assumes "core_inv env b" and "sorted (map pt_at (db_trades (bk_db b)))"
  shows "trades_chronological (bk_db b) (ac_id (bk_account b)) = db_trades (bk_db b)"
proof -
  have "sorted (map (\<lambda>t. (pt_at t, pt_id t)) ts)" if "sorted (map pt_at ts)" "sorted_wrt (<) (map pt_id ts)" for ts
    using that by (induction ts) auto
  from this [OF assms(2)] have srt: "sorted (map (\<lambda>t. (pt_at t, pt_id t)) (db_trades (bk_db b)))"
    using assms(1) by (simp add: core_inv_def)
  have "filter (\<lambda>t. pt_account t = ac_id (bk_account b)) (db_trades (bk_db b)) = db_trades (bk_db b)"
    using assms(1) by (simp add: core_inv_def filter_id_conv)
  then show ?thesis unfolding trades_chronological_def by (simp add: sort_key_sorted [OF srt])
qed

lemma rebuild_open_rows:
  assumes "core_inv env b"
  shows "mset (dict_get (pf_open_lots (rebuild_portfolio (bk_db b) (bk_account b))) k) = mset (open_rows (bk_db b) k)"
proof -
  have "filter (\<lambda>l. pl_account l = ac_id (bk_account b) \<and> pl_status l = LotOpen) (db_lots (bk_db b))
      = filter (\<lambda>l. pl_status l = LotOpen) (db_lots (bk_db b))"
    using assms by (intro filter_cong) (auto simp: core_inv_def)
  then show ?thesis
    unfolding rebuild_portfolio_def rebuild_open open_rows_def lots_open_def
    by (auto simp: mset_filter filter_filter_mset intro!: filter_mset_cong)
qed

lemma rebuild_waiting:
  assumes "pend_inv b"
  shows "mset (dict_get (pf_pending (rebuild_portfolio (bk_db b) (bk_account b))) k) = mset (waiting b k)"
proof -
  have "filter (\<lambda>p. pe_account p = ac_id (bk_account b)) (db_pending (bk_db b)) = db_pending (bk_db b)"
    using assms by (simp add: pend_inv_def pend_wf_def filter_id_conv)
  then have "mset (pending_list (bk_db b) (ac_id (bk_account b))) = image_mset pe_signal (mset (db_pending (bk_db b)))"
    by (simp add: pending_list_def)
  then show ?thesis using assms
    by (simp add: rebuild_portfolio_def rebuild_pending pend_inv_def pend_rows_def mset_filter filter_mset_image_mset)
qed


end
