(* ===== verification/Paper_Properties.thy ===== *)
theory Paper_Properties
  imports Paper_Restart
begin

text \<open>
  What the paper broker guarantees: one filled order per signal, cash that reconciles with the
  trades, stock that covers the open lots, limits on entries, exits per candle, and no look-ahead;
  with a concrete NSE account on which each applies.
\<close>

section \<open>A concrete account\<close>

definition ex_env :: broker_env where
  "ex_env = \<lparr>pb_market = NSE_SPEC,
     pb_policy = default_policy\<lparr>ep_price_model := ''SIGNAL_CLOSE'', ep_initial_quantity := 10\<rparr>,
     pb_resolver = None, pb_entry_allowed = (\<lambda>_. True), pb_timeframe = ''5m''\<rparr>"

definition ex_signal :: signal where
  "ex_signal = \<lparr>sg_signal_id = Some ''s1'', sg_market = NSE, sg_type = ''BUY'', sg_strategy = ''rsi'', sg_version = ''1'',
     sg_symbol = ''TCS'', sg_timeframe = ''5m'', sg_candle_at = 0, sg_price = 100, sg_target = None, sg_stop = None,
     sg_snapshot = \<lparr>sn_values = [(''target_pct'', PyInt 5)], sn_policy = None\<rparr>, sg_reason = ''SIGNAL_ENTRY'',
     sg_pending_id = None, sg_cycle = None, sg_lot_number = None, sg_created_at = None\<rparr>"

definition ex_account :: paper_account where
  "ex_account = \<lparr>ac_id = show_nat 0, ac_market = NSE, ac_currency = ''INR'', ac_starting_balance = 1000000,
     ac_cash_balance = 1000000, ac_risk_settings = policy_public (pb_policy ex_env), ac_reset_at = None\<rparr>"

definition ex_broker :: broker where
  "ex_broker = \<lparr>bk_db = \<lparr>db_accounts = [ex_account], db_orders = [], db_pending = [], db_lots = [], db_trades = [], db_next = 1\<rparr>,
     bk_account = ex_account, bk_inventories = (\<lambda>_. []),
     bk_portfolio = \<lparr>pf_account = ex_account, pf_open_lots = [], pf_pending = []\<rparr>, bk_rejected = 0, bk_filled = 0\<rparr>"

definition ex_policy :: execution_policy where
  "ex_policy = default_policy\<lparr>ep_price_model := ''SIGNAL_CLOSE'', ep_initial_quantity := 10, ep_minimum_quantity := Some 1\<rparr>"

definition ex_order_signal :: signal where
  "ex_order_signal = with_policy_snapshot ex_signal (pb_policy ex_env)"

definition ex_plan :: entry_plan where
  "ex_plan = \<lparr>en_open_lots = [], en_number = 0, en_cycle = 1, en_quantity = 10,
     en_fill = fee_buy (NseFees NSE_DEFAULT_FEES) 100 10,
     en_cost = entry_cost (fill_price (fee_buy (NseFees NSE_DEFAULT_FEES) 100 10)) 10
       (fill_fees (fee_buy (NseFees NSE_DEFAULT_FEES) 100 10))\<rparr>"

lemmas policy_defs = default_policy_def policy_validate_def SIZING_MODES_def PRICE_MODELS_def SIZING_REDUCTIONS_def

lemma ex_start: "broker_start ex_env empty_db None = Inr ex_broker"
  by (simp add: broker_start_def ex_env_def policy_defs spec_minutes_def NSE_SPEC_def account_get_or_create_def
      account_get_def empty_db_def Let_def load_fifo_inventories_def trades_chronological_def rebuild_portfolio_def
      portfolio_rebuild_def lots_open_def pending_list_def ex_broker_def ex_account_def DEFAULT_STARTING_BALANCES_def fresh_id_def)

lemma ex_policy_stored:
  "policy_from_mapping (policy_public (default_policy\<lparr>ep_price_model := ''SIGNAL_CLOSE'', ep_initial_quantity := 10\<rparr>))
     (default_policy\<lparr>ep_whole_units := True\<rparr>) = Inr ex_policy"
  by (simp add: policy_from_mapping_def policy_public_def policy_step_def POLICY_ALIASES_def set_policy_def
      str_or_empty_def opt_number_def opt_float_def effective_minimum_quantity_def policy_defs ex_policy_def)

lemma ex_policies:
  "policy_for ex_env (SignalItem ex_order_signal) = Inr ex_policy"
  "policy_for ex_env (SignalItem ex_signal) = Inr (pb_policy ex_env)"
  using ex_policy_stored
  by (simp_all add: policy_for_def item_snapshot_def ex_order_signal_def with_policy_snapshot_def ex_signal_def ex_env_def NSE_SPEC_def)

lemma ex_plan_entry: "plan_entry ex_env ex_broker ex_policy ex_order_signal 100 0 = Inr (Inr ex_plan)"
  by (simp add: plan_entry_def lots_for_def ex_broker_def ladder_from_config_def ex_order_signal_def ex_signal_def
      with_policy_snapshot_def cycle_state_def entry_position_def entry_maximum_def ex_policy_def policy_defs dip_missed_def
      price_entry_def entry_lot_size_def policy_lot_quantity_def raw_lot_def effective_minimum_quantity_def
      portfolio_rejection_def all_open_def fromkeys_def trades_list_def lots_list_def buys_today_def ex_plan_def
      ex_env_def NSE_SPEC_def nse_buy_def NSE_DEFAULT_FEES_def entry_cost_def ex_account_def Let_def)

text \<open>A booking never fails once its amounts are positive.\<close>

lemma book_entry_succeeds:
  assumes core: "core_inv env b" and "0 < en_quantity plan" and "0 < py_round (fill_price (en_fill plan)) 4"
    and "0 \<le> py_round (fill_fees (en_fill plan)) 4"
  shows "\<exists>l b'. book_entry env b s plan od t st ex now = Inr (l, b')"
proof -
  have ins: "\<exists>l. lot_insert (bk_db b) v = Inr (l, (bk_db b)\<lparr>db_lots := db_lots (bk_db b) @ [l], db_next := db_next (bk_db b) + 1\<rparr>)" for v
    using core_fresh_id [OF core] by (simp add: lot_insert_def lot_get_def Let_def find_snoc_fresh)
  have add: "\<exists>stock. fifo_add (bk_inventories b (sg_symbol s)) i now (py_round (fill_price (en_fill plan)) 4)
      (en_quantity plan) (py_round (fill_fees (en_fill plan)) 4) = Inr stock" for i
    using assms by (simp add: fifo_add_def)
  have cash: "\<exists>c db'. adjust_cash db (ac_id (bk_account b)) d = Inr (c, db')" if "db_accounts db = db_accounts (bk_db b)" for db d
    using adjust_cash_core_ok [OF core that] by auto
  obtain l where l: "lot_insert (bk_db b) (entry_lot env b s plan od t st ex now)
      = Inr (l, (bk_db b)\<lparr>db_lots := db_lots (bk_db b) @ [l], db_next := db_next (bk_db b) + 1\<rparr>)" using ins by blast
  obtain stock where stock: "(if on_nse env then fifo_add (bk_inventories b (sg_symbol s)) (pl_id l) now (py_round (fill_price (en_fill plan)) 4)
      (en_quantity plan) (py_round (fill_fees (en_fill plan)) 4) else Inr (bk_inventories b (sg_symbol s))) = Inr stock"
    using add by (cases "on_nse env") auto
  define db1 where "db1 = trade_insert ((bk_db b)\<lparr>db_lots := db_lots (bk_db b) @ [l], db_next := db_next (bk_db b) + 1\<rparr>)
      (entry_trade env b s plan (pl_id l) now)"
  have "db_accounts db1 = db_accounts (bk_db b)" by (simp add: db1_def trade_insert_def)
  then obtain c db' where c: "adjust_cash db1 (ac_id (bk_account b)) (- en_cost plan) = Inr (c, db')"
    using cash by blast
  from l stock c show ?thesis by (cases "on_nse env") (auto simp: book_entry_def Let_def rbind_def db1_def)
qed

lemma preview_one_whole:
  assumes "stock_ok stock" and "0 < n" and "real n \<le> inv_quantity stock"
  shows "\<exists>m. preview_one stock (real n) = Inr m \<and> match_quantity m = real n"
proof -
  have "n \<le> length (units stock)" using assms(1,3) by (simp add: stock_ok_def flip: length_units)
  with preview_runs [OF assms(1), of "[n]"] assms(2) show ?thesis by (auto simp: preview_one_def)
qed

text \<open>A stock of one slice sells whole.\<close>

lemma preview_one_slice:
  assumes "1 \<le> q" and "0 \<le> f"
  shows "preview_one [\<lparr>slice_id = i, slice_at = t, slice_price = p, slice_quantity = q, slice_fees = f\<rparr>] q
    = Inr \<lparr>match_quantity = q, match_cost_basis_price = p, match_entry_fees = f,
         match_allocations = [\<lparr>alloc_id = i, alloc_quantity = q, alloc_price = p, alloc_fees = f\<rparr>]\<rparr>"
proof -
  have "EPSILON < q" "\<not> q \<le> 0" "q \<noteq> 0" using assms(1) EPSILON_less_1 by linarith+
  then show ?thesis
    by (simp add: preview_one_def preview_allocations_def fifo_consume_def consume_loop.simps [of "_ # _"]
        consume_loop.simps [of "[]"] slice_rest_def slice_alloc_def inv_quantity_def alloc_total_def alloc_cost_def
        alloc_fee_total_def)
qed

text \<open>The only lot of a symbol is marked once its target can be computed.\<close>

lemma mark_single_slice:
  assumes "on_nse env" and "bk_inventories b k = [\<lparr>slice_id = i, slice_at = t, slice_price = p, slice_quantity = q, slice_fees = f\<rparr>]"
    and "pl_quantity l = q" and "1 \<le> q" and "0 \<le> f" and "lot_target_pct l = Inr pct" and "0 < pct"
    and "fee_rates_valid (ms_fees (pb_market env))"
    and "exact_target \<lparr>match_quantity = q, match_cost_basis_price = p, match_entry_fees = f,
          match_allocations = [\<lparr>alloc_id = i, alloc_quantity = q, alloc_price = p, alloc_fees = f\<rparr>]\<rparr>
          (ms_fees (pb_market env)) pct \<le> DOUBLE_LIMIT / 2"
  obtains m b' where "mark_open_lots env b k c [] [l] = Inr b'" and "mark_step env c [] b (l, m) = Inr b'"
proof -
  let ?m = "\<lparr>match_quantity = q, match_cost_basis_price = p, match_entry_fees = f,
          match_allocations = [\<lparr>alloc_id = i, alloc_quantity = q, alloc_price = p, alloc_fees = f\<rparr>]\<rparr>"
  obtain target where "net_profit_target_price ?m (ms_fees (pb_market env)) pct = Inr target"
    using net_profit_target_returns [OF assms(7,8) _ assms(9)] assms(4) by auto
  with assms(6) obtain mk where "lot_marks_of env c [] l (Some ?m) = Inr mk"
    by (simp add: lot_marks_of_def Let_def)
  then obtain b' where b': "mark_step env c [] b (l, Some ?m) = Inr b'" by (auto simp: mark_step_def)
  have "lot_match env (bk_inventories b k) l = Inr (l, Some ?m)"
    using assms(1-3) preview_one_slice [OF assms(4,5)] by (simp add: lot_match_def)
  then have "mark_open_lots env b k c [] [l] = Inr b'" using b' by (simp add: mark_open_lots_def)
  then show ?thesis using b' by (rule that)
qed

lemma ex_amounts:
  "en_quantity ex_plan = 10" "0 < py_round (fill_price (en_fill ex_plan)) 4" "py_round (fill_price (en_fill ex_plan)) 4 \<le> 102"
  "0 \<le> py_round (fill_fees (en_fill ex_plan)) 4" "py_round (fill_fees (en_fill ex_plan)) 4 \<le> 101"
proof -
  have f: "100 \<le> fill_price (en_fill ex_plan)" "fill_price (en_fill ex_plan) \<le> 101"
      "0 \<le> fill_fees (en_fill ex_plan)" "fill_fees (en_fill ex_plan) \<le> 100"
    by (simp_all add: ex_plan_def nse_buy_def NSE_DEFAULT_FEES_def)
  have near: "\<bar>py_round x 4 - x\<bar> \<le> 1" for x using py_round_error [of x 4] by (auto intro: order_trans)
  show "en_quantity ex_plan = 10" by (simp add: ex_plan_def)
  show "0 < py_round (fill_price (en_fill ex_plan)) 4" "py_round (fill_price (en_fill ex_plan)) 4 \<le> 102"
    "py_round (fill_fees (en_fill ex_plan)) 4 \<le> 101"
    using near [of "fill_price (en_fill ex_plan)"] near [of "fill_fees (en_fill ex_plan)"] f by linarith+
  show "0 \<le> py_round (fill_fees (en_fill ex_plan)) 4" using f(3) by (rule py_round_nonneg)
qed

lemma ex_signal_facts:
  "on_nse ex_env" "fee_rates_valid (ms_fees (pb_market ex_env))" "sg_symbol ex_order_signal = ''TCS''"
  "sn_values (sg_snapshot ex_order_signal) = [(''target_pct'', PyInt 5)]" "sg_stop ex_order_signal = None"
  "entry_target_pct ex_order_signal = Inr 5" "spec_minutes (pb_market ex_env) (signal_timeframe ex_env ex_order_signal) = Inr 5"
  using default_fees_valid(1)
  by (simp_all add: entry_target_pct_def signal_timeframe_def spec_minutes_def ex_env_def NSE_SPEC_def
      ex_order_signal_def ex_signal_def with_policy_snapshot_def)

text \<open>The state the order is written to, and the booking and marking of the signal's lot on it.\<close>

definition ex_ordered :: broker where
  "ex_ordered = ex_broker\<lparr>bk_db := snd (order_insert (bk_db ex_broker) (entry_order ex_env ex_broker ex_order_signal ex_plan 100))\<rparr>"

lemma ex_ordered_facts:
  "core_inv ex_env ex_ordered" "ex_broker\<lparr>bk_db := bk_db ex_ordered\<rparr> = ex_ordered"
  "bk_inventories ex_ordered = (\<lambda>_. [])" "pf_open_lots (bk_portfolio ex_ordered) = []"
  "pf_pending (bk_portfolio ex_ordered) = []" "db_trades (bk_db ex_ordered) = []"
  "\<exists>od. order_insert (bk_db ex_broker) (entry_order ex_env ex_broker ex_order_signal ex_plan 100) = (Some od, bk_db ex_ordered)"
proof -
  show "core_inv ex_env ex_ordered" unfolding ex_ordered_def
    by (rule mirror.order_kept [OF mirror.reachable_kept [OF broker_reachable.start [OF ex_start]]])
  have "\<not> order_conflicts (bk_db ex_broker) r" for r by (simp add: order_conflicts_def ex_broker_def split: option.split)
  then show "\<exists>od. order_insert (bk_db ex_broker) (entry_order ex_env ex_broker ex_order_signal ex_plan 100) = (Some od, bk_db ex_ordered)"
    unfolding ex_ordered_def order_insert_def by (simp add: Let_def)
qed (simp_all add: ex_ordered_def ex_broker_def order_insert_def Let_def)

lemma ex_booked:
  obtains l b m b' where "book_entry ex_env ex_ordered ex_order_signal ex_plan od t None ex 0 = Inr (l, b)"
    and "mark_open_lots ex_env b ''TCS'' (py_round (fill_price (en_fill ex_plan)) 4) [] [l] = Inr b'"
    and "mark_step ex_env (py_round (fill_price (en_fill ex_plan)) 4) [] b (l, m) = Inr b'"
proof -
  obtain l b where bk: "book_entry ex_env ex_ordered ex_order_signal ex_plan od t None ex 0 = Inr (l, b)"
    using book_entry_succeeds [OF ex_ordered_facts(1), of ex_plan ex_order_signal od t None ex 0] ex_amounts by auto
  note e = book_entry_effect [OF ex_ordered_facts(1) bk]
  have inv: "bk_inventories b ''TCS'' = [\<lparr>slice_id = pl_id l, slice_at = 0, slice_price = py_round (fill_price (en_fill ex_plan)) 4,
      slice_quantity = 10, slice_fees = py_round (fill_fees (en_fill ex_plan)) 4\<rparr>]"
    using e ex_amounts ex_signal_facts(1,3) ex_ordered_facts(3) by (auto simp: fifo_add_def)
  have "exact_target \<lparr>match_quantity = 10, match_cost_basis_price = p, match_entry_fees = f, match_allocations = al\<rparr>
      (ms_fees (pb_market ex_env)) 5 \<le> DOUBLE_LIMIT / 2" if "p \<le> 102" "f \<le> 101" for p f al
    by (rule order_trans [OF _ DOUBLE_LIMIT_large])
      (use that in \<open>simp add: exact_target_def desired_proceeds_def acquisition_cost_def ex_env_def NSE_SPEC_def NSE_DEFAULT_FEES_def\<close>)
  note target = this [OF ex_amounts(3,5)]
  have "lot_target_pct l = Inr 5" using e ex_signal_facts(4) by (simp add: lot_target_pct_def)
  from mark_single_slice [OF ex_signal_facts(1) inv _ _ ex_amounts(4) this _ ex_signal_facts(2) target]
  show ?thesis using e ex_amounts(1) bk by (auto intro: that)
qed

lemma ex_fill: "on_signal ex_env ex_broker ex_signal 0 = fill_entry ex_env ex_broker ex_order_signal 100 0"
proof -
  have "lots_for (bk_portfolio ex_broker) k st tf = []" for k st tf by (simp add: lots_for_def ex_broker_def)
  moreover have "ep_price_model (pb_policy ex_env) = ''SIGNAL_CLOSE''" "pb_entry_allowed ex_env ex_signal"
    "sg_market ex_signal = ms_market (pb_market ex_env)" "sg_type ex_signal = ''BUY''" "sg_price ex_signal = 100" "sg_candle_at ex_signal = 0"
    by (simp_all add: ex_env_def ex_signal_def NSE_SPEC_def)
  ultimately show ?thesis by (simp add: on_signal_def ex_policies(2) ex_order_signal_def)
qed

text \<open>The signal above fills at once: ten shares, marked with a target that a sale can reach.\<close>

lemma ex_filled:
  "\<exists>l b. on_signal ex_env ex_broker ex_signal 0 = Inr (Some l, b) \<and> held b ''TCS'' = [l] \<and> pl_quantity l = 10
     \<and> pl_entry_at l = 0 \<and> map pt_at (db_trades (bk_db b)) = [0] \<and> map pt_quantity (db_trades (bk_db b)) = [10]
     \<and> 0 < pl_entry_price l \<and> pl_stop l = None \<and> pl_snapshot l = sg_snapshot ex_order_signal
     \<and> pf_pending (bk_portfolio b) = []"
proof -
  obtain od where od: "order_insert (bk_db ex_broker) (entry_order ex_env ex_broker ex_order_signal ex_plan 100)
      = (Some od, bk_db ex_ordered)" using ex_ordered_facts(7) by blast
  obtain t ex where tg: "policy_targets ex_policy (py_round (fill_price (en_fill ex_plan)) 4) 5 0 5 = (t, None, ex)"
    by (simp add: policy_targets_def ex_policy_def policy_defs)
  obtain l b2 m b3 where bk: "book_entry ex_env ex_ordered ex_order_signal ex_plan (od_id od) t None ex 0 = Inr (l, b2)"
    and mk: "mark_open_lots ex_env b2 ''TCS'' (py_round (fill_price (en_fill ex_plan)) 4) [] [l] = Inr b3"
    and step: "mark_step ex_env (py_round (fill_price (en_fill ex_plan)) 4) [] b2 (l, m) = Inr b3"
    using ex_booked .
  note e = book_entry_effect [OF ex_ordered_facts(1) bk] and o = ex_ordered_facts
  have held: "held b2 ''TCS'' = [l]" using e ex_signal_facts(3) o(4) by simp
  from mark_step_held [OF book_entry_core [OF o(1) bk] _ step, of "''TCS''"] held obtain m' where
    h3: "held b3 ''TCS'' = [mark_copy m' l]" by auto
  have "complete_entry ex_env ex_ordered ex_policy ex_order_signal ex_plan (od_id od) 5 5 0
      = Inr (Some (mark_copy m' l), b3\<lparr>bk_filled := bk_filled b3 + 1\<rparr>)"
    using bk mk held h3 by (simp add: complete_entry_def tg ex_signal_facts(3) lots_for_all)
  then have "fill_entry ex_env ex_broker ex_order_signal 100 0
      = Inr (Some (mark_copy m' l), b3\<lparr>bk_filled := bk_filled b3 + 1\<rparr>)"
    using o(2) by (simp add: fill_entry_def ex_policies ex_plan_entry execute_entry_def od ex_signal_facts(6,7))
  then show ?thesis unfolding ex_fill using h3 e o(5,6) ex_amounts(1,2) ex_signal_facts(5) mark_step_frame [OF step]
    by (auto simp: mark_copy_def mark_lot_def entry_trade_def)
qed

text \<open>The state after the fill, for the examples below.\<close>

lemma ex_reached:
  obtains l b where "broker_reachable ex_env b" and "apply_op ex_env (OnSignal ex_signal 0) ex_broker = Inr b"
    and "held b ''TCS'' = [l]" and "pl_quantity l = 10" and "pl_entry_at l = 0"
    and "map pt_at (db_trades (bk_db b)) = [0]" and "map pt_quantity (db_trades (bk_db b)) = [10]"
    and "0 < pl_entry_price l" and "pl_stop l = None" and "pl_snapshot l = sg_snapshot ex_order_signal"
    and "pf_pending (bk_portfolio b) = []" and "on_signal ex_env ex_broker ex_signal 0 = Inr (Some l, b)"
proof -
  obtain l b where 1: "on_signal ex_env ex_broker ex_signal 0 = Inr (Some l, b)" "held b ''TCS'' = [l]" "pl_quantity l = 10"
     "pl_entry_at l = 0" "map pt_at (db_trades (bk_db b)) = [0]" "map pt_quantity (db_trades (bk_db b)) = [10]"
     "0 < pl_entry_price l" "pl_stop l = None" "pl_snapshot l = sg_snapshot ex_order_signal" "pf_pending (bk_portfolio b) = []"
    using ex_filled by (elim exE conjE) (rule that)
  then have 2: "apply_op ex_env (OnSignal ex_signal 0) ex_broker = Inr b" by (simp add: only_state_def)
  show ?thesis
    by (rule that [OF broker_reachable.operation [OF broker_reachable.start [OF ex_start] 2] 2 1(2-10) 1(1)])
qed

section \<open>Orders, cash and stock\<close>

lemma distinct_map_count: "distinct (map g xs) \<Longrightarrow> length (filter (\<lambda>r. g r = x) xs) \<le> 1"
  by (induction xs) (auto simp: filter_empty_conv image_iff eq_commute)

lemma opening_keys_count:
  assumes "distinct (opening_keys db)"
  shows "length (filter (opens_signal account sid) (db_orders db)) \<le> 1"
proof -
  have "filter (opens_signal account sid) (db_orders db)
      = filter (\<lambda>r. (od_account r, od_signal r) = (account, Some sid))
          (filter (\<lambda>r. od_signal r \<noteq> None \<and> od_side r = BuySide \<and> od_status r = Filled) (db_orders db))"
    unfolding filter_filter by (auto simp: opens_signal_def intro!: filter_cong)
  then show ?thesis by (simp only: distinct_map_count [OF assms [unfolded opening_keys_def]])
qed

lemma start_orders: "broker_start env db balance = Inr b \<Longrightarrow> db_orders (bk_db b) = db_orders db"
  by (auto simp: broker_start_def account_get_or_create_def rbind_eq_Inr Let_def split: option.splits)

text \<open>
  C8. At most one filled order per signal: started on any database whose orders already have this
  property, and through any sequence of signals, candles, manual closings and resets, including
  operations that raise half-way and duplicates of the same signal, no account holds two filled buy
  orders of one signal.
\<close>

theorem one_filled_order_per_signal:
  assumes "broker_start env db balance = Inr b" and "distinct (opening_keys db)"
  shows "distinct (opening_keys (bk_db (run_ops env b ops)))
    \<and> length (filter (opens_signal account sid) (db_orders (bk_db (run_ops env b ops)))) \<le> 1"
  using run_ops_unique [of b env ops] opening_keys_count assms opening_keys_frame [OF start_orders [OF assms(1)]] by simp

theorem one_filled_order_per_signal_witness:
  "broker_start ex_env empty_db None = Inr ex_broker
   \<and> length (filter (opens_signal (show_nat 0) ''s1'')
       (db_orders (bk_db (run_ops ex_env ex_broker [OnSignal ex_signal 0, OnSignal ex_signal 0])))) \<le> 1"
  using one_filled_order_per_signal [OF ex_start] ex_start by (simp add: opening_keys_def empty_db_def)

text \<open>
  C9. Cash reconciles with the trades: in every reachable state the account in memory is the row of
  the table, and its cash is the starting balance plus what the trades say was paid and received, up
  to the half tick per share and of fees by which the trade rows round the exact amounts.
\<close>

theorem cash_reconciles_with_trades:
  assumes "broker_reachable env b"
  shows "account_get (bk_db b) (ms_market (pb_market env)) = Some (bk_account b)
    \<and> \<bar>ac_cash_balance (bk_account b)
         - (ac_starting_balance (bk_account b) + sum_list (map trade_flow (db_trades (bk_db b))))\<bar>
       \<le> sum_list (map trade_slack (db_trades (bk_db b)))"
  using cash.reachable_kept [OF assms] by (simp add: cash_inv_def core_inv_def account_get_def)

theorem cash_reconciles_with_trades_witness:
  "\<exists>b. apply_op ex_env (OnSignal ex_signal 0) ex_broker = Inr b \<and> map pt_quantity (db_trades (bk_db b)) = [10]
    \<and> \<bar>ac_cash_balance (bk_account b)
         - (ac_starting_balance (bk_account b) + sum_list (map trade_flow (db_trades (bk_db b))))\<bar>
       \<le> sum_list (map trade_slack (db_trades (bk_db b)))"
proof -
  obtain l b where b: "broker_reachable ex_env b" "apply_op ex_env (OnSignal ex_signal 0) ex_broker = Inr b"
    "map pt_quantity (db_trades (bk_db b)) = [10]" using ex_reached .
  show ?thesis by (intro exI [of _ b] conjI b(2,3) conjunct2 [OF cash_reconciles_with_trades [OF b(1)]])
qed

lemma held_lot_covered:
  assumes "broker_reachable env b" and "on_nse env" and "whole_trades b" and l: "l \<in> set (held b k)"
  obtains n where "pl_quantity l = real n" and "0 < n" and "n \<le> length (units (bk_inventories b k))"
    and "stock_ok (bk_inventories b k)" and "real n \<le> inv_quantity (bk_inventories b k)"
proof -
  have inv: "stock_ok (bk_inventories b k)" "inv_quantity (bk_inventories b k) = lots_total (held b k)"
    and q: "\<forall>l \<in> set (held b k). 0 < pl_quantity l \<and> pl_quantity l \<in> \<nat>"
    using stock.reachable_kept [OF assms(1)] assms(2,3) by (simp_all add: stock_inv_def)
  from l q obtain n where n: "pl_quantity l = real n" "0 < n" by (auto simp: Nats_def)
  have "pl_quantity l \<le> lots_total (held b k)"
    unfolding lots_total_def by (rule member_le_sum_list) (use l q in auto)
  then have "real n \<le> inv_quantity (bk_inventories b k)" using inv(2) n by simp
  then show ?thesis using that n inv(1) by (simp add: stock_ok_def flip: length_units)
qed

lemma ex_whole: "map pt_quantity (db_trades (bk_db b)) = [10] \<Longrightarrow> whole_trades b"
proof -
  assume "map pt_quantity (db_trades (bk_db b)) = [10]"
  then have "set (map pt_quantity (db_trades (bk_db b))) \<subseteq> \<nat>" by simp
  then show ?thesis by (auto simp: whole_trades_def)
qed

lemma ex_lot_policy: "pl_snapshot l = sg_snapshot ex_order_signal \<Longrightarrow> policy_for ex_env (LotItem l) = Inr ex_policy"
  using ex_policies(1) by (simp add: policy_for_def item_snapshot_def split: option.splits) (simp add: ex_env_def)




section \<open>Exits of a candle\<close>

lemma nofees_eq_exit:
  "nofees x = nofees y \<Longrightarrow> pl_entry_at x = pl_entry_at y \<and> pl_stop x = pl_stop y \<and> pl_expires x = pl_expires y
     \<and> pl_target x = pl_target y"
  by (cases x; cases y) (simp add: nofees_def)

lemma find_unique_map:
  assumes "distinct (map g xs)" and "r \<in> set xs" and "\<And>x. g (f x) = g x"
  shows "List.find (\<lambda>x. g x = g r) (map f xs) = Some (f r)"
  using assms(1,2) by (induction xs) (auto simp: assms(3) image_iff)

text \<open>The row a closing returns is the lot's own, with the new status and the exit's stamp.\<close>

lemma close_lot_row:
  assumes core: "core_inv env b" and l: "l \<in> set (held b k)"
    and eq: "close_lot env b l status raw now mae mfe = Inr (u, b')"
  shows "pl_id u = pl_id l \<and> pl_status u = status \<and> pl_exit_at u = Some now \<and> pl_entry_at u = pl_entry_at l
    \<and> pl_stop u = pl_stop l \<and> pl_target u = pl_target l \<and> pl_expires u = pl_expires l"
proof -
  obtain r where r: "r \<in> set (open_rows (bk_db b) k)" "nofees l = nofees r" using held_row [OF core l] .
  have row: "r \<in> set (db_lots (bk_db b))" "pl_status r = LotOpen" "pl_id r = pl_id l"
    using r(1) nofees_eq [OF r(2)] by (auto simp: open_rows_def)
  from eq obtain cb ef al xp rl fs db where c0: "lot_close (lot_mark (bk_db b) (pl_id l) \<lparr>mk_last_price = raw, mk_cost_basis = cb,
      mk_allocations = al, mk_target = pl_target l, mk_entry_fees = ef, mk_unrealized = 0, mk_mae = mae, mk_mfe = mfe\<rparr>)
      (pl_id l) status now xp cb al rl fs = Inr (u, db)"
    by (auto simp: close_lot_def rbind_eq_Inr Let_def)
  define m where "m = \<lparr>mk_last_price = raw, mk_cost_basis = cb,
      mk_allocations = al, mk_target = pl_target l, mk_entry_fees = ef, mk_unrealized = 0, mk_mae = mae, mk_mfe = mfe\<rparr>"
  then have m: "mk_target m = pl_target l" by simp
  note c = c0 [folded m_def]
  define h :: "paper_lot \<Rightarrow> paper_lot" where "h x = x\<lparr>pl_status := status, pl_exit_at := Some now, pl_exit_price := Some xp,
     pl_cost_basis := cb, pl_allocations := al, pl_realized := Some rl, pl_fees := fs, pl_unrealized := 0,
     pl_last_price := Some xp\<rparr>" for x
  define g where "g x = (if pl_id x = pl_id l \<and> pl_status x = LotOpen then h (mark_lot m x) else x)" for x
  have "db_lots (update_open (pl_id l) h (lot_mark (bk_db b) (pl_id l) m)) = map g (db_lots (bk_db b))"
    by (simp add: update_open_def lot_mark_def g_def)
  moreover have "List.find (\<lambda>x. pl_id x = pl_id l) (map g (db_lots (bk_db b))) = Some (g r)"
    using find_unique_map [of pl_id "db_lots (bk_db b)" r g] core row by (simp add: core_inv_def g_def h_def)
  ultimately have "u = g r"
    using c by (auto simp: lot_close_def lot_get_def rbind_eq_Inr Let_def h_def [abs_def] split: if_splits)
  with row nofees_eq_exit [OF r(2)] m show ?thesis by (simp add: g_def h_def mark_lot_def)
qed

text \<open>What an exit needs: the lot is older than the candle and the candle reached its price or its date.\<close>

definition exit_justified :: "price_bar \<Rightarrow> paper_lot \<Rightarrow> bool" where
  "exit_justified c u \<longleftrightarrow> pl_entry_at u < cd_at c \<and> pl_exit_at u = Some (cd_at c)
     \<and> (case pl_status u of
          LotStopped \<Rightarrow> case_option False (\<lambda>s. cd_low c \<le> s) (pl_stop u)
        | LotTargetHit \<Rightarrow> pl_target u \<le> cd_high c
        | LotExpired \<Rightarrow> case_option False (\<lambda>e. e \<le> cd_at c) (pl_expires u)
        | _ \<Rightarrow> False)"

lemma exit_step_cases:
  assumes core: "core_inv env (xp_broker x)" and l: "l \<in> set (held (xp_broker x) k)" and step: "exit_step env c x l = Inr t"
  obtains (kept) "xp_broker t = xp_broker x" "xp_closed t = xp_closed x" "xp_nse_exit t = xp_nse_exit x"
  | (exited) u where "xp_closed t = xp_closed x @ [u]" "xp_nse_exit t \<longleftrightarrow> xp_nse_exit x \<or> on_nse env"
      "exit_justified c u" "pl_id u = pl_id l" "pl_status u = LotTargetHit \<Longrightarrow> \<not> xp_nse_exit x"
      "core_inv env (xp_broker t)" "\<And>k'. held (xp_broker t) k' = filter (\<lambda>y. pl_id y \<noteq> pl_id l) (held (xp_broker x) k')"
proof (cases "pl_entry_at l \<ge> cd_at c \<or> exit_trigger (xp_nse_exit x) c l = None")
  case True
  with step kept show ?thesis by (auto simp: exit_step_def rbind_eq_Inr split: if_splits)
next
  case False
  then obtain st price where tr: "exit_trigger (xp_nse_exit x) c l = Some (st, price)" and at': "pl_entry_at l < cd_at c" by auto
  with step obtain mae mfe u b' where cl: "close_lot env (xp_broker x) l st price (cd_at c) mae mfe = Inr (u, b')"
    and t: "t = x\<lparr>xp_broker := b', xp_closed := xp_closed x @ [u], xp_nse_exit := xp_nse_exit x \<or> on_nse env\<rparr>"
    by (auto simp: exit_step_def rbind_eq_Inr)
  note u = close_lot_row [OF core l cl]
  have "exit_justified c u" "st = LotTargetHit \<Longrightarrow> \<not> xp_nse_exit x"
    using tr u at' by (auto simp: exit_justified_def exit_trigger_def split: if_splits option.splits)
  then show ?thesis using exited [of u] t u close_lot_core [OF core l cl] by simp
qed

text \<open>
  C10. The exits of one candle, from any reachable state: every lot closed was entered strictly before
  the candle and is stamped with it, its status is the one the candle justifies (the low reached the
  stop, the high reached the target, or the expiry has come), no lot is closed twice, none of them
  is still open, and on NSE, where a sale takes the oldest shares and re-prices the rest, at most one
  lot is closed at its target.
\<close>

theorem candle_exits_justified:
  assumes "broker_reachable env b" and "process_market_candle env b k c ptf ltf etf now = Inr (cls, b')"
  shows "(\<forall>u \<in> set cls. exit_justified c u) \<and> distinct (map pl_id cls)
    \<and> (on_nse env \<longrightarrow> length (filter (\<lambda>u. pl_status u = LotTargetHit) cls) \<le> 1)"
proof -
  from assms(2) obtain b1 xp where fp: "fill_pending_entries env b k c ptf etf = Inr b1"
    and ex: "rfold (exit_step env c) \<lparr>xp_broker = b1, xp_closed = [], xp_survivors = [], xp_nse_exit = False\<rparr>
             (lots_for (bk_portfolio b1) k None ltf) = Inr xp" and cls: "cls = xp_closed xp"
    by (auto simp: process_market_candle_def Let_def rbind_eq_Inr)
  have core: "core_inv env b1" using mirror.fill_pending_kept [OF mirror.reachable_kept [OF assms(1)] fp] .
  let ?Q = "\<lambda>(x :: exit_pass) (ls :: paper_lot list). core_inv env (xp_broker x) \<and> set ls \<subseteq> set (held (xp_broker x) k)
    \<and> distinct (map pl_id (xp_closed x) @ map pl_id ls) \<and> (\<forall>u \<in> set (xp_closed x). exit_justified c u)
    \<and> (on_nse env \<longrightarrow> length (filter (\<lambda>u. pl_status u = LotTargetHit) (xp_closed x)) \<le> (if xp_nse_exit x then 1 else 0))"
  have "?Q xp []"
  proof (rule rfold_invariant_rest [OF _ _ ex, where Q = ?Q])
    fix x l rest t assume q: "?Q x (l # rest)" and step: "exit_step env c x l = Inr t"
    from q have x: "core_inv env (xp_broker x)" "l \<in> set (held (xp_broker x) k)" by auto
    show "?Q t rest" using x step
    proof (cases rule: exit_step_cases)
      case kept
      with q show ?thesis by auto
    next
      case (exited u)
      have "set rest \<subseteq> set (held (xp_broker t) k)" using q unfolding exited(7) by (auto simp: image_iff)
      with q exited show ?thesis by (auto split: if_splits)
    qed
  qed (use core mirror.held_filter_distinct [OF core] mirror.held_subset in auto)
  then show ?thesis unfolding cls by (auto split: if_splits)
qed

lemma lot_close_ok:
  assumes "r \<in> set (db_lots db)" and "pl_id r = i" and "status \<noteq> LotOpen"
  shows "\<exists>u db'. lot_close (lot_mark db i m) i status now xp cb al rl fs = Inr (u, db') \<and> db_accounts db' = db_accounts db"
proof -
  have closing: "status \<in> set PAPER_LOT_CLOSED_STATUSES" using assms(3) by (cases status) (simp_all add: PAPER_LOT_CLOSED_STATUSES_def)
  define g where "g x = x\<lparr>pl_status := status, pl_exit_at := Some now, pl_exit_price := Some xp, pl_cost_basis := cb,
      pl_allocations := al, pl_realized := Some rl, pl_fees := fs, pl_unrealized := 0, pl_last_price := Some xp\<rparr>" for x :: paper_lot
  let ?db = "update_open i g (lot_mark db i m)"
  have "map pl_id (db_lots ?db) = map pl_id (db_lots db)" by (simp add: update_open_def lot_mark_def g_def)
  then have "i \<in> pl_id ` set (db_lots ?db)" using assms(1,2) by (metis image_eqI list.set_map)
  then obtain u where "List.find (\<lambda>x. pl_id x = i) (db_lots ?db) = Some u"
    by (cases "List.find (\<lambda>x. pl_id x = i) (db_lots ?db)") (auto simp: find_None_iff)
  then have "lot_close (lot_mark db i m) i status now xp cb al rl fs = Inr (u, ?db)"
    using closing by (simp add: lot_close_def lot_get_def Let_def g_def [abs_def])
  then show ?thesis by (auto simp: update_open_def)
qed

lemma close_lot_sells:
  assumes "broker_reachable env b" and "on_nse env" and "whole_trades b" and l: "l \<in> set (held b k)"
    and pol: "policy_for env (LotItem l) = Inr policy" and st: "status \<noteq> LotOpen"
  shows "\<exists>u b'. close_lot env b l status raw now mae mfe = Inr (u, b')
    \<and> held b' k = filter (\<lambda>x. pl_id x \<noteq> pl_id l) (held b k)"
proof -
  note core = mirror.reachable_kept [OF assms(1)]
  have k: "pl_symbol l = k" using held_open [OF core l] by simp
  obtain n where n: "pl_quantity l = real n" "0 < n" "n \<le> length (units (bk_inventories b k))"
    and ok: "stock_ok (bk_inventories b k)" "real n \<le> inv_quantity (bk_inventories b k)"
    using held_lot_covered [OF assms(1-3) l] .
  obtain m where m: "preview_one (bk_inventories b k) (real n) = Inr m" using preview_one_whole [OF ok(1) n(2) ok(2)] by blast
  obtain m' stock where c: "fifo_consume (bk_inventories b k) (real n) = Inr (m', stock)"
    using whole_consume [OF stock_ok_parts [OF ok(1)] n(2,3)] by blast
  obtain r where r: "r \<in> set (open_rows (bk_db b) k)" "nofees l = nofees r" using held_row [OF core l] .
  then have row: "r \<in> set (db_lots (bk_db b))" "pl_id r = pl_id l" using nofees_eq [OF r(2)] by (auto simp: open_rows_def)
  obtain cb fees al where costs: "close_costs env b l = Inr (cb, fees, al)"
    using m assms(2) k n(1) by (simp add: close_costs_def)
  define f where "f = fee_sell (ms_fees (pb_market env)) raw (pl_quantity l)"
  define db0 where "db0 = lot_mark (bk_db b) (pl_id l) \<lparr>mk_last_price = raw, mk_cost_basis = cb, mk_allocations = al,
        mk_target = pl_target l, mk_entry_fees = fees, mk_unrealized = 0, mk_mae = mae, mk_mfe = mfe\<rparr>"
  obtain u db1 where u: "lot_close db0 (pl_id l) status now (py_round (fill_price f) 4) cb al
        (realized_pnl cb (py_round (fill_price f) 4) (pl_quantity l) (py_round (fees + fill_fees f) 4))
        (py_round (fees + fill_fees f) 4) = Inr (u, db1)" and acc: "db_accounts db1 = db_accounts (bk_db b)"
    using lot_close_ok [OF row st] unfolding db0_def by blast
  have "db_accounts (trade_insert db1 t) = db_accounts (bk_db b)" for t by (simp add: trade_insert_def acc)
  then obtain cash db' where cash: "adjust_cash (trade_insert db1 (exit_trade env b l f (status_name status) now))
      (ac_id (bk_account b)) (exit_proceeds (fill_price f) (pl_quantity l) (fill_fees f)) = Inr (cash, db')"
    using adjust_cash_core_ok [OF core] by fastforce
  have "\<exists>b'. close_lot env b l status raw now mae mfe = Inr (u, b')"
    using pol costs u cash c assms(2) k n(1)
    by (simp add: close_lot_def Let_def f_def [symmetric, unfolded n(1)] db0_def [symmetric])
  then show ?thesis using close_lot_core(2) [OF core l] by blast
qed



theorem candle_exits_justified_witness:
  "\<exists>b l u b'. apply_op ex_env (OnSignal ex_signal 0) ex_broker = Inr b \<and> held b ''TCS'' = [l]
    \<and> process_market_candle ex_env b ''TCS'' \<lparr>cd_open = 100, cd_high = pl_target l, cd_low = 100, cd_close = 100, cd_at = 1\<rparr>
        None None (Some ''5m'') 1 = Inr ([u], b')
    \<and> exit_justified \<lparr>cd_open = 100, cd_high = pl_target l, cd_low = 100, cd_close = 100, cd_at = 1\<rparr> u"
proof -
  obtain l b where b: "broker_reachable ex_env b" "apply_op ex_env (OnSignal ex_signal 0) ex_broker = Inr b"
    "held b ''TCS'' = [l]" "map pt_quantity (db_trades (bk_db b)) = [10]" "pl_snapshot l = sg_snapshot ex_order_signal"
    "pl_entry_at l = 0" "0 < pl_entry_price l" "pl_stop l = None" "pf_pending (bk_portfolio b) = []" using ex_reached .
  define c where "c = \<lparr>cd_open = 100, cd_high = pl_target l, cd_low = 100, cd_close = 100, cd_at = 1\<rparr>"
  obtain mae mfe where x: "excursions (pl_entry_price l) (cd_low c) (cd_high c) (pl_mae l) (pl_mfe l) = Inr (mae, mfe)"
    using b(7) by (simp add: excursions_def)
  obtain u b' where u: "close_lot ex_env b l LotTargetHit (pl_target l) 1 mae mfe = Inr (u, b')" "held b' ''TCS'' = []"
    using close_lot_sells [OF b(1) ex_signal_facts(1) ex_whole [OF b(4)], of l "''TCS''" ex_policy LotTargetHit "pl_target l" 1 mae mfe]
      b(3) ex_lot_policy [OF b(5)] by auto
  have "(bk_portfolio b)\<lparr>pf_pending := []\<rparr> = bk_portfolio b" using b(9) by (cases "bk_portfolio b") simp
  then have "fill_pending_entries ex_env b ''TCS'' c None (Some ''5m'') = Inr b"
    using b(9) by (simp add: fill_pending_entries_def dict_get_def)
  then have "process_market_candle ex_env b ''TCS'' c None None (Some ''5m'') 1 = Inr ([u], b')"
    using u x b(3,6,8) by (simp add: process_market_candle_def lots_for_all exit_step_def exit_trigger_def c_def
        mark_open_lots_def fromkeys_def)
  with candle_exits_justified [OF b(1) this] b(2,3) show ?thesis unfolding c_def by auto
qed

section \<open>Entries\<close>

text \<open>The limits of a policy, on the portfolio as it stands and the cost of one more entry.\<close>

definition within_limits :: "broker_env \<Rightarrow> broker \<Rightarrow> execution_policy \<Rightarrow> bool \<Rightarrow> real \<Rightarrow> timestamp \<Rightarrow> bool" where
  "within_limits env b policy opens_new_position cost now \<longleftrightarrow>
     cost \<le> ac_cash_balance (bk_account b)
     \<and> (opens_new_position \<longrightarrow>
          real (length (fromkeys (map (\<lambda>l. (pl_symbol l, pl_strategy l, pl_timeframe l)) (all_open (bk_portfolio b)))))
            < ep_maximum_open_positions policy)
     \<and> sum_list (map lot_exposure (all_open (bk_portfolio b))) + cost
         \<le> ac_starting_balance (bk_account b) * ep_maximum_total_exposure_pct policy / 100
     \<and> real (buys_today (ms_market (pb_market env)) (local_date (ms_market (pb_market env)) now)
           (trades_list (bk_db b) (ac_id (bk_account b)) 10000)) < ep_maximum_daily_trades policy"

lemma portfolio_accepts:
  assumes "portfolio_rejection env b policy cost now new = None" and "cost \<le> ac_cash_balance (bk_account b)"
  shows "within_limits env b policy new cost now"
  using assms by (auto simp: portfolio_rejection_def within_limits_def Let_def split: if_splits)

lemma plan_entry_limits:
  assumes "plan_entry env b policy s p now = Inr (Inr plan)"
  shows "within_limits env b policy
      (lots_for (bk_portfolio b) (sg_symbol s) (Some (sg_strategy s)) (Some (signal_timeframe env s)) = []) (en_cost plan) now
    \<and> of_int (en_number plan) < ep_maximum_entries_per_cycle policy"
proof -
  let ?open = "lots_for (bk_portfolio b) (sg_symbol s) (Some (sg_strategy s)) (Some (signal_timeframe env s))"
  from assms obtain ladder cl n cy where
    n: "\<not> of_int n \<ge> entry_maximum policy ladder"
    and pe: "price_entry env b policy ladder s ?open cl n cy p now = Inr (Inr plan)"
    by (auto simp: plan_entry_def Let_def rbind_eq_Inr split: if_splits)
  from pe have plan: "en_number plan = n" "en_cost plan \<le> ac_cash_balance (bk_account b)"
    "portfolio_rejection env b policy (en_cost plan) now (?open = []) = None"
    by (auto simp: price_entry_def rbind_eq_Inr Let_def split: if_splits option.splits)
  have "entry_maximum policy ladder \<le> ep_maximum_entries_per_cycle policy"
    by (simp add: entry_maximum_def split: option.split)
  with n plan portfolio_accepts [OF plan(3,2)] show ?thesis by simp
qed

lemma marks_account:
  assumes "mark_open_lots env b k c exc ls = Inr b'"
  shows "bk_account b' = bk_account b"
proof -
  from assms obtain lms where "rfold (mark_step env c exc) b lms = Inr b'"
    by (auto simp: mark_open_lots_def Let_def rbind_eq_Inr)
  from rfold_invariant [where P = "\<lambda>x. bk_account x = bk_account b", OF _ _ this] show ?thesis
    using mark_step_frame by fastforce
qed

text \<open>
  C11. An entry respects its limits. Whenever a fill returns a lot, the policy of its signal allowed it
  at that moment: its cost, which is exactly what the cash account loses, was covered by the cash
  (so the cash stays non-negative), the exposure with it stays within the policy's percentage of the
  starting balance, and the numbers of positions and of today's buys were below their limits.
\<close>

theorem entry_respects_limits:
  assumes "broker_reachable env b" and "fill_entry env b s p now = Inr (Some l, b')"
  shows "\<exists>policy cost. policy_for env (SignalItem s) = Inr policy
    \<and> within_limits env b policy
        (lots_for (bk_portfolio b) (sg_symbol s) (Some (sg_strategy s)) (Some (signal_timeframe env s)) = []) cost now
    \<and> ac_cash_balance (bk_account b') = ac_cash_balance (bk_account b) - cost \<and> 0 \<le> ac_cash_balance (bk_account b')"
  using assms(2)
proof (cases rule: fill_entry_cases)
  case (planned policy plan)
  note core = mirror.reachable_kept [OF assms(1)]
  from planned(3) show ?thesis
  proof (cases rule: execute_entry_cases)
    case (booked order db t st ex l0 b2 b3 l')
    have core1: "core_inv env (b\<lparr>bk_db := db\<rparr>)"
      using mirror.order_kept [OF core, of "entry_order env b s plan p"] booked(1) by simp
    have "bk_account b' = (bk_account b)\<lparr>ac_cash_balance := ac_cash_balance (bk_account b) - en_cost plan\<rparr>"
      using book_entry_effect [OF core1 booked(2)] marks_account [OF booked(3)] booked(4) by simp
    with planned(1) plan_entry_limits [OF planned(2)] show ?thesis
      by (intro exI [of _ policy] exI [of _ "en_cost plan"]) (simp add: within_limits_def)
  qed simp
qed simp

theorem entry_respects_limits_witness:
  "\<exists>l b policy cost. fill_entry ex_env ex_broker ex_order_signal 100 0 = Inr (Some l, b)
    \<and> within_limits ex_env ex_broker policy True cost 0 \<and> ac_cash_balance (bk_account b) = 1000000 - cost"
proof -
  obtain l b where "on_signal ex_env ex_broker ex_signal 0 = Inr (Some l, b)" using ex_reached .
  note f = this [unfolded ex_fill]
  show ?thesis
    using entry_respects_limits [OF broker_reachable.start [OF ex_start] f] f
    by (auto simp: ex_broker_def lots_for_def ex_account_def)
qed

text \<open>A pending entry is only due at a candle that opened after it was written.\<close>

lemma ceil_stamp_ge: "0 < interval \<Longrightarrow> t \<le> ceil_stamp m interval t"
proof -
  assume "0 < interval"
  then have "(- (t + zone_offset_us m)) div interval * interval \<le> - (t + zone_offset_us m)"
    by (metis div_mult_mod_eq le_add_same_cancel1 pos_mod_sign)
  then show ?thesis by (simp add: ceil_stamp_def)
qed

lemma pending_due:
  assumes "pending_is_executable env s stamp tf = Inr True" and "market_spec_of m = Inr (pb_market env)"
  shows "sg_candle_at s < stamp \<and> (\<forall>created. sg_created_at s = Some created \<and> tf \<noteq> None \<longrightarrow> created \<le> stamp)"
proof -
  have "created \<le> stamp" if "sg_created_at s = Some created" "tf = Some f" for created f
  proof -
    from assms that obtain n where n: "spec_minutes (pb_market env) f = Inr n"
      "ceil_stamp (ms_market (pb_market env)) (n * MINUTE_US) created \<le> stamp"
      by (auto simp: pending_is_executable_def rbind_eq_Inr split: if_splits)
    have "0 < n * MINUTE_US" using spec_minutes_pos [OF assms(2) n(1)] by (simp add: MINUTE_US_def)
    from ceil_stamp_ge [OF this] n(2) show ?thesis by (rule order_trans)
  qed
  moreover have "sg_candle_at s < stamp" using assms(1) by (auto simp: pending_is_executable_def split: if_splits)
  ultimately show ?thesis by blast
qed

text \<open>
  No look-ahead. If handling a pending entry at a candle books anything, then the caller's guard
  still allows the entry, the candle is later than the one that raised the signal, and, on the
  execution clock, it did not open before the entry was written.
\<close>

theorem pending_fill_no_look_ahead:
  assumes "market_spec_of m = Inr (pb_market env)" and "pending_step env c ptf etf (d, b) s = Inr (d', b')"
    and "db_trades (bk_db b') \<noteq> db_trades (bk_db b)"
  shows "pb_entry_allowed env s \<and> sg_candle_at s < cd_at c
    \<and> (\<forall>created. sg_created_at s = Some created \<and> etf \<noteq> None \<longrightarrow> created \<le> cd_at c)"
proof -
  have "db_trades (bk_db (drop_pending b s)) = db_trades (bk_db b)"
    by (simp add: drop_pending_def pending_delete_def split: option.split)
  with assms(2,3) have "pb_entry_allowed env s \<and> pending_is_executable env s (cd_at c) etf = Inr True"
    by (auto simp: pending_step_def rbind_eq_Inr split: if_splits)
  with pending_due [OF _ assms(1)] show ?thesis by blast
qed

text \<open>A fill depends on the time it happens, not on the stamps of its signal.\<close>

lemma stamps_simps:
  fixes s t x defines "s' \<equiv> s\<lparr>sg_candle_at := t, sg_created_at := x\<rparr>"
  shows "signal_timeframe env s' = signal_timeframe env s" "entry_target_pct s' = entry_target_pct s"
    "entry_order env b s' = entry_order env b s" "entry_trade env b s' = entry_trade env b s"
    "entry_lot env b s' = entry_lot env b s" "reject_order env b s' = reject_order env b s"
    "dip_missed lad s' = dip_missed lad s" "price_entry env b pol lad s' = price_entry env b pol lad s"
    "sg_symbol s' = sg_symbol s" "sg_strategy s' = sg_strategy s" "sg_snapshot s' = sg_snapshot s"
  by (simp_all add: s'_def signal_timeframe_def entry_target_pct_def entry_order_def entry_trade_def entry_lot_def
      reject_order_def dip_missed_def price_entry_def fun_eq_iff Let_def cong: option.case_cong if_cong)

lemma fill_entry_stamps:
  assumes "pb_resolver env = None"
  shows "fill_entry env b (s\<lparr>sg_candle_at := t, sg_created_at := x\<rparr>) p now = fill_entry env b s p now"
proof -
  let ?s = "s\<lparr>sg_candle_at := t, sg_created_at := x\<rparr>"
  have "policy_for env (SignalItem ?s) = policy_for env (SignalItem s)"
    using assms by (simp add: policy_for_def item_snapshot_def split: option.split)
  moreover have "plan_entry env b pol ?s p now = plan_entry env b pol s p now" for pol
    unfolding plan_entry_def stamps_simps ..
  moreover have "execute_entry env b pol ?s plan p now = execute_entry env b pol s plan p now" for pol plan
    unfolding execute_entry_def complete_entry_def book_entry_def stamps_simps ..
  ultimately show ?thesis by (simp add: fill_entry_def stamps_simps cong: sum.case_cong)
qed

theorem pending_fill_no_look_ahead_witness:
  "\<exists>b. pending_step ex_env \<lparr>cd_open = 100, cd_high = 100, cd_low = 100, cd_close = 100, cd_at = 0\<rparr> None (Some ''5m'')
        ([], ex_broker) (ex_order_signal\<lparr>sg_candle_at := -1, sg_created_at := Some 0\<rparr>) = Inr ([], b)
    \<and> length (db_trades (bk_db b)) = 1 \<and> (-1 :: int) < 0"
proof -
  obtain l b where 1: "on_signal ex_env ex_broker ex_signal 0 = Inr (Some l, b)" "map pt_quantity (db_trades (bk_db b)) = [10]"
    using ex_reached .
  let ?s = "ex_order_signal\<lparr>sg_candle_at := -1, sg_created_at := Some 0\<rparr>"
  let ?c = "\<lparr>cd_open = 100, cd_high = 100, cd_low = 100, cd_close = 100, cd_at = 0\<rparr>"
  have f: "fill_entry ex_env ex_broker ?s 100 0 = Inr (Some l, b)"
    using 1(1) [unfolded ex_fill] fill_entry_stamps [of ex_env] by (simp add: ex_env_def)
  have "pending_is_executable ex_env ?s 0 (Some ''5m'') = Inr True"
    by (simp add: pending_is_executable_def ceil_stamp_def ex_env_def NSE_SPEC_def spec_minutes_def MINUTE_US_def)
  moreover have "sg_pending_id ?s = None" by (simp add: ex_order_signal_def ex_signal_def with_policy_snapshot_def)
  ultimately have step: "pending_step ex_env ?c None (Some ''5m'') ([], ex_broker) ?s = Inr ([], b)"
    using f by (simp add: pending_step_def drop_pending_def) (simp add: ex_env_def)
  have "length (db_trades (bk_db b)) = 1" using arg_cong [OF 1(2), of length] by simp
  moreover have "db_trades (bk_db ex_broker) = []" by (simp add: ex_broker_def)
  moreover have "market_spec_of ''NSE'' = Inr (pb_market ex_env)"
  proof -
    have "py_upper (py_strip ''NSE'') = ''NSE''" "is_ok (market_timezone ''NSE'')" by code_simp+
    then show ?thesis by (cases "market_timezone ''NSE''") (simp_all add: market_spec_of_def ex_env_def)
  qed
  ultimately show ?thesis using pending_fill_no_look_ahead [OF _ step] step by (intro exI [of _ b]) force
qed

end
