(* ===== verification/Candle_History.thy ===== *)
theory Candle_History
  imports Strategies Execution_Policy
begin

text \<open>
  \<open>backend/signals/candle_processor.py\<close>: the bounded history of completed candles per symbol and the
  filter that lets only completed candles in. A frame is its columns with its rows; times are
  absolute, so a conversion between zones leaves them as they are.
\<close>

type_synonym candle_frame = "string list \<times> raw_candle list"

section \<open>Normalised frames\<close>

text \<open>\<open>index.duplicated(keep="last")\<close> drops every row whose stamp occurs again later.\<close>

fun keep_last :: "candle list \<Rightarrow> candle list" where
  "keep_last [] = []"
| "keep_last (c # cs) = (if ca_at c \<in> ca_at ` set cs then keep_last cs else c # keep_last cs)"

definition normalised :: "candle_frame \<Rightarrow> candle list res" where
  "normalised frame =
     (let (columns, rows) = frame in
      if rows = [] then Inr []
      else let source = (if ''Complete'' \<in> set columns then filter rc_complete rows else rows)
           in if \<not> set CANDLE_COLUMNS \<subseteq> set columns then Inl (KeyError ''not in index'')
              else Inr (sort_key ca_at (keep_last (List.map_filter numeric_candle source))))"

definition tail_bars :: "nat \<Rightarrow> 'a list \<Rightarrow> 'a list" where
  "tail_bars n xs = drop (length xs - n) xs"

section \<open>The history\<close>

record candle_history =
  ch_maximum :: nat
  ch_frames :: "(string \<times> candle list) list"

definition new_history :: "int \<Rightarrow> candle_history res" where
  "new_history maximum_bars =
     (if maximum_bars < 1 then Inl (ValueError ''maximum_bars must be positive'')
      else Inr \<lparr>ch_maximum = nat maximum_bars, ch_frames = []\<rparr>)"

definition history_symbols :: "candle_history \<Rightarrow> string list" where
  "history_symbols h = sort (map fst (ch_frames h))"

definition history_get :: "candle_history \<Rightarrow> string \<Rightarrow> candle list" where
  "history_get h symbol = (case map_of (ch_frames h) symbol of None \<Rightarrow> [] | Some frame \<Rightarrow> frame)"

definition last_stamp :: "candle list \<Rightarrow> timestamp option" where
  "last_stamp frame = (if frame = [] then None else Some (ca_at (last frame)))"

definition latest_timestamp :: "candle_history \<Rightarrow> string \<Rightarrow> timestamp option" where
  "latest_timestamp h symbol = Option.bind (map_of (ch_frames h) symbol) last_stamp"

definition latest_overall :: "candle_history \<Rightarrow> timestamp option" where
  "latest_overall h =
     (case List.map_filter (\<lambda>(_, frame). last_stamp frame) (ch_frames h) of
        [] \<Rightarrow> None | s # ss \<Rightarrow> Some (foldl max s ss))"

definition history_seed :: "candle_history \<Rightarrow> string \<Rightarrow> candle_frame \<Rightarrow> candle_history res" where
  "history_seed h symbol frame =
     rbind (normalised frame) (\<lambda>data.
       Inr (h\<lparr>ch_frames := AList.update symbol (tail_bars (ch_maximum h) data) (ch_frames h)\<rparr>))"

definition history_append :: "candle_history \<Rightarrow> string \<Rightarrow> candle_frame \<Rightarrow> (timestamp list \<times> candle_history) res" where
  "history_append h symbol frame =
     rbind (normalised frame) (\<lambda>incoming.
       let existing = map_of (ch_frames h) symbol;
           latest = Option.bind existing last_stamp;
           fresh = (case latest of None \<Rightarrow> incoming | Some t \<Rightarrow> filter (\<lambda>c. ca_at c > t) incoming)
       in if fresh = [] then Inr ([], h)
          else let combined = (case existing of None \<Rightarrow> fresh | Some old \<Rightarrow> old @ fresh);
                   kept = tail_bars (ch_maximum h) (sort_key ca_at (keep_last combined))
               in Inr (map ca_at fresh, h\<lparr>ch_frames := AList.update symbol kept (ch_frames h)\<rparr>))"

section \<open>Completed candles\<close>

record candle_processor =
  cp_market :: market
  cp_bar_minutes :: int
  cp_daily_close :: "int option"

text \<open>
  When a candle is complete: after its interval, or, for the date-labelled bars of an exchange day,
  at the session close of its local day. The close is a time of day in microseconds.
\<close>

definition closes_at :: "candle_processor \<Rightarrow> timestamp \<Rightarrow> timestamp" where
  "closes_at p t =
     (case cp_daily_close p of
        None \<Rightarrow> t + cp_bar_minutes p * MINUTE_US
      | Some close \<Rightarrow> local_date (cp_market p) t * DAY_US - zone_offset_us (cp_market p) + close)"

definition completed :: "candle_processor \<Rightarrow> candle_frame \<Rightarrow> timestamp \<Rightarrow> candle_frame res" where
  "completed p frame now =
     (let (columns, rows) = frame in
      if rows = [] then Inr (CANDLE_COLUMNS, [])
      else if \<not> set CANDLE_COLUMNS \<subseteq> set columns then Inl (KeyError ''not in index'')
      else Inr (CANDLE_COLUMNS,
        filter (\<lambda>r. closes_at p (rc_at r) \<le> now \<and> (''Complete'' \<in> set columns \<longrightarrow> rc_complete r)) rows))"

section \<open>The invariant: strictly increasing, bounded, one frame per symbol\<close>

definition history_ok :: "candle_history \<Rightarrow> bool" where
  "history_ok h \<longleftrightarrow> 0 < ch_maximum h \<and> distinct (map fst (ch_frames h))
     \<and> (\<forall>(k, frame) \<in> set (ch_frames h). sorted_wrt (<) (map ca_at frame) \<and> length frame \<le> ch_maximum h)"

lemma keep_last_subset: "set (keep_last cs) \<subseteq> set cs"
  by (induction cs) auto

lemma keep_last_stamps [simp]: "ca_at ` set (keep_last cs) = ca_at ` set cs"
  by (induction cs) auto

lemma keep_last_distinct: "distinct (map ca_at (keep_last cs))"
  by (induction cs) simp_all

lemma keep_last_id: "distinct (map ca_at cs) \<Longrightarrow> keep_last cs = cs"
  by (induction cs) auto

lemma sort_keep_last: "sorted_wrt (<) (map ca_at (sort_key ca_at (keep_last cs)))"
proof -
  have "distinct (map ca_at (sort_key ca_at (keep_last cs)))"
    using keep_last_distinct [of cs] by (simp add: distinct_map)
  then show ?thesis by (simp add: strict_sorted_iff)
qed

lemma sort_keep_last_id:
  assumes "sorted_wrt (<) (map ca_at cs)" shows "sort_key ca_at (keep_last cs) = cs"
proof -
  have "distinct (map ca_at cs)" "sorted (map ca_at cs)" using assms by (simp_all add: strict_sorted_iff)
  moreover have "sort_key f xs = xs" if "sorted (map f xs)" for f :: "candle \<Rightarrow> timestamp" and xs
    using that by (induction xs) (auto simp: insort_is_Cons)
  ultimately show ?thesis by (simp add: keep_last_id)
qed

lemma normalised_sorted: "normalised frame = Inr data \<Longrightarrow> sorted_wrt (<) (map ca_at data)"
  by (auto simp: normalised_def Let_def sort_keep_last split: prod.splits if_splits)

lemma tail_bars_simps [simp]:
  "length (tail_bars n xs) = min n (length xs)" "set (tail_bars n xs) \<subseteq> set xs"
  "map f (tail_bars n xs) = tail_bars n (map f xs)"
  by (auto simp: tail_bars_def drop_map dest: in_set_dropD)

lemma tail_bars_sorted: "sorted_wrt P xs \<Longrightarrow> sorted_wrt P (tail_bars n xs)"
  unfolding tail_bars_def by (rule sorted_wrt_drop)

lemma tail_bars_last: "0 < n \<Longrightarrow> xs \<noteq> [] \<Longrightarrow> last (tail_bars n xs) = last xs \<and> tail_bars n xs \<noteq> []"
  by (cases "length xs") (simp_all add: tail_bars_def last_drop)

lemma set_update_cases: "(k, v) \<in> set (AList.update i w al) \<Longrightarrow> (k, v) \<in> set al \<or> k = i \<and> v = w"
  by (induction al) (auto split: if_splits)

lemma history_ok_update:
  assumes "history_ok h" and "sorted_wrt (<) (map ca_at data)"
  shows "history_ok (h\<lparr>ch_frames := AList.update symbol (tail_bars (ch_maximum h) data) (ch_frames h)\<rparr>)"
proof -
  have "sorted_wrt (<) (tail_bars (ch_maximum h) (map ca_at data))" using assms(2) by (rule tail_bars_sorted)
  with assms(1) show ?thesis
    by (auto simp: history_ok_def distinct_update dest!: set_update_cases)
qed

lemma history_ok_get:
  "history_ok h \<Longrightarrow> sorted_wrt (<) (map ca_at (history_get h k)) \<and> length (history_get h k) \<le> ch_maximum h"
  by (auto simp: history_ok_def history_get_def split: option.split dest!: map_of_SomeD)

lemma latest_get: "latest_timestamp h k = last_stamp (history_get h k)"
  by (simp add: latest_timestamp_def history_get_def last_stamp_def split: option.split)

lemma seed_ok: "history_ok h \<Longrightarrow> history_seed h k frame = Inr h' \<Longrightarrow> history_ok h'"
  by (auto simp: history_seed_def rbind_eq_Inr intro: history_ok_update normalised_sorted)

lemma sorted_last: "sorted_wrt (<) (map ca_at cs) \<Longrightarrow> c \<in> set cs \<Longrightarrow> ca_at c \<le> ca_at (last cs)"
  by (induction cs) (auto intro: less_imp_le)

text \<open>The rows of a frame that are newer than the history, and what appending them does.\<close>

definition fresh_rows :: "candle_history \<Rightarrow> string \<Rightarrow> candle list \<Rightarrow> candle list" where
  "fresh_rows h k incoming = (case latest_timestamp h k of None \<Rightarrow> incoming | Some t \<Rightarrow> filter (\<lambda>c. ca_at c > t) incoming)"

lemma append_fresh:
  fixes k assumes ok: "history_ok h" and inc: "normalised frame = Inr incoming"
  defines "fresh \<equiv> fresh_rows h k incoming"
  shows "sorted_wrt (<) (map ca_at (history_get h k @ fresh))"
    and "history_append h k frame = Inr (map ca_at fresh, if fresh = [] then h else
      h\<lparr>ch_frames := AList.update k (tail_bars (ch_maximum h) (history_get h k @ fresh)) (ch_frames h)\<rparr>)"
proof -
  have old: "sorted_wrt (<) (map ca_at (history_get h k))" using history_ok_get [OF ok] by simp
  have new: "sorted_wrt (<) (map ca_at fresh)" using normalised_sorted [OF inc]
    by (auto simp: fresh_def fresh_rows_def sorted_wrt_map intro: sorted_wrt_filter split: option.split)
  have "ca_at c < ca_at d" if "c \<in> set (history_get h k)" "d \<in> set fresh" for c d
    using sorted_last [OF old that(1)] that by (auto simp: fresh_def fresh_rows_def latest_get last_stamp_def split: if_splits)
  with old new show srt: "sorted_wrt (<) (map ca_at (history_get h k @ fresh))" by (auto simp: sorted_wrt_append)
  have newer: "(case Option.bind (map_of (ch_frames h) k) last_stamp of None \<Rightarrow> incoming
      | Some t \<Rightarrow> filter (\<lambda>c. ca_at c > t) incoming) = fresh"
    by (simp add: fresh_def fresh_rows_def latest_timestamp_def)
  have comb: "(case map_of (ch_frames h) k of None \<Rightarrow> fresh | Some old \<Rightarrow> old @ fresh) = history_get h k @ fresh"
    by (simp add: history_get_def split: option.split)
  show "history_append h k frame = Inr (map ca_at fresh, if fresh = [] then h else
      h\<lparr>ch_frames := AList.update k (tail_bars (ch_maximum h) (history_get h k @ fresh)) (ch_frames h)\<rparr>)"
    unfolding history_append_def inc rbind_simps Let_def newer comb sort_keep_last_id [OF srt] by simp
qed

lemma history_get_update [simp]:
  "history_get (h\<lparr>ch_frames := AList.update i data (ch_frames h)\<rparr>) k = (if k = i then data else history_get h k)"
  by (simp add: history_get_def update_conv)

lemma append_effect:
  assumes "history_ok h" and "history_append h k frame = Inr (stamps, h')"
  shows "history_ok h' \<and> sorted_wrt (<) stamps
    \<and> (\<forall>l. latest_timestamp h k = Some l \<longrightarrow> (\<forall>t \<in> set stamps. l < t))
    \<and> (\<exists>fresh. map ca_at fresh = stamps \<and> history_get h' k = tail_bars (ch_maximum h) (history_get h k @ fresh))
    \<and> (\<forall>i. i \<noteq> k \<longrightarrow> history_get h' i = history_get h i)
    \<and> history_append h' k frame = Inr ([], h')"
proof -
  from assms(2) obtain incoming where inc: "normalised frame = Inr incoming" by (auto simp: history_append_def rbind_eq_Inr)
  define fresh where "fresh = fresh_rows h k incoming"
  note a = append_fresh [OF assms(1) inc, of k, folded fresh_def]
  from a(2) assms(2) have stamps: "stamps = map ca_at fresh" and h': "h' = (if fresh = [] then h else
      h\<lparr>ch_frames := AList.update k (tail_bars (ch_maximum h) (history_get h k @ fresh)) (ch_frames h)\<rparr>)" by auto
  have ok: "history_ok h'" using assms(1) history_ok_update [OF assms(1) a(1)] by (simp add: h')
  have pos: "0 < ch_maximum h" using assms(1) by (simp add: history_ok_def)
  have get: "history_get h' k = tail_bars (ch_maximum h) (history_get h k @ fresh)"
    using history_ok_get [OF assms(1), of k] by (simp add: h' tail_bars_def)
  have "fresh_rows h' k incoming = []"
  proof (cases "fresh = []")
    case True
    then show ?thesis using fresh_def by (simp add: h')
  next
    case False
    have latest: "latest_timestamp h' k = Some (ca_at (last fresh))"
      using False tail_bars_last [OF pos, of "history_get h k @ fresh"] by (simp add: latest_get get last_stamp_def)
    have "ca_at c \<le> ca_at (last fresh)" if c: "c \<in> set incoming" for c
    proof (cases "c \<in> set fresh")
      case True
      with a(1) show ?thesis by (auto simp: sorted_wrt_append intro: sorted_last)
    next
      case False
      then obtain t where "latest_timestamp h k = Some t" "ca_at c \<le> t"
        using c by (auto simp: fresh_def fresh_rows_def split: option.splits)
      moreover have "t < ca_at (last fresh)" using \<open>fresh \<noteq> []\<close> last_in_set [of fresh] calculation(1)
        by (auto simp: fresh_def fresh_rows_def)
      ultimately show ?thesis by simp
    qed
    then show ?thesis by (auto simp: fresh_rows_def latest filter_empty_conv not_less)
  qed
  then have "history_append h' k frame = Inr ([], h')" using append_fresh(2) [OF ok inc, of k] by simp
  moreover have "sorted_wrt (<) stamps" using a(1) by (simp add: stamps sorted_wrt_append)
  moreover have "\<forall>l. latest_timestamp h k = Some l \<longrightarrow> (\<forall>t \<in> set stamps. l < t)"
    by (auto simp: stamps fresh_def fresh_rows_def)
  ultimately show ?thesis using ok get by (auto simp: stamps h')
qed

lemma append_idempotent:
  "history_ok h \<Longrightarrow> history_append h k frame = Inr (stamps, h') \<Longrightarrow> history_append h' k frame = Inr ([], h')"
  by (drule (1) append_effect) (elim conjE)

lemma append_last:
  assumes "history_ok h" and "history_append h k frame = Inr (ts, h')" and "ts \<noteq> []"
  shows "history_get h' k \<noteq> []" and "ca_at (last (history_get h' k)) = last ts"
proof -
  obtain fresh where f: "map ca_at fresh = ts" "history_get h' k = tail_bars (ch_maximum h) (history_get h k @ fresh)"
    using append_effect [OF assms(1,2)] by blast
  have "0 < ch_maximum h" "fresh \<noteq> []" using assms(1,3) f(1) by (auto simp: history_ok_def)
  with tail_bars_last [of "ch_maximum h" "history_get h k @ fresh"] f
  show "history_get h' k \<noteq> []" "ca_at (last (history_get h' k)) = last ts" by (auto simp: last_map)
qed

text \<open>
  The history of completed candles: from a well-formed history, appending any frame keeps it
  well formed (per symbol strictly increasing stamps and at most \<open>maximum_bars\<close> rows), reports
  exactly the stamps that are newer than what was known, in order, keeps the newest rows, touches no
  other symbol, and is idempotent: the same frame again reports nothing and changes nothing.
\<close>

theorem history_append_correct:
  assumes "history_ok h" and "history_append h k frame = Inr (stamps, h')"
  shows "history_ok h' \<and> sorted_wrt (<) stamps
    \<and> (\<forall>l. latest_timestamp h k = Some l \<longrightarrow> (\<forall>t \<in> set stamps. l < t))
    \<and> (\<exists>fresh. map ca_at fresh = stamps \<and> history_get h' k = tail_bars (ch_maximum h) (history_get h k @ fresh))
    \<and> (\<forall>i. i \<noteq> k \<longrightarrow> history_get h' i = history_get h i)
    \<and> history_append h' k frame = Inr ([], h')"
  using append_effect [OF assms] .

definition example_frame :: candle_frame where
  "example_frame = (CANDLE_COLUMNS, map (\<lambda>t. \<lparr>rc_at = t, rc_open = Some 1, rc_high = Some 2, rc_low = Some 1, rc_close = Some 2,
     rc_volume = Some 10, rc_complete = True\<rparr>) [3, 1, 3])"

theorem history_append_correct_witness:
  "\<exists>h'. history_append \<lparr>ch_maximum = 1, ch_frames = []\<rparr> ''A'' example_frame = Inr ([1, 3], h')
    \<and> map ca_at (history_get h' ''A'') = [3] \<and> history_append h' ''A'' example_frame = Inr ([], h')"
proof -
  have "normalised example_frame = Inr (map (\<lambda>t. \<lparr>ca_at = t, ca_open = 1, ca_high = 2, ca_low = 1, ca_close = 2, ca_volume = 10\<rparr>) [1, 3])"
    by (simp add: normalised_def example_frame_def numeric_candle_def CANDLE_COLUMNS_def List.map_filter_def)
  then obtain h' where h': "history_append \<lparr>ch_maximum = 1, ch_frames = []\<rparr> ''A'' example_frame = Inr ([1, 3], h')"
    "map ca_at (history_get h' ''A'') = [3]"
    by (simp add: history_append_def history_get_def tail_bars_def)
  have "history_ok \<lparr>ch_maximum = 1, ch_frames = []\<rparr>" by (simp add: history_ok_def)
  from history_append_correct [OF this h'(1)] have "history_append h' ''A'' example_frame = Inr ([], h')" by (elim conjE)
  with h' show ?thesis by (intro exI [of _ h'] conjI)
qed

end
