(* ===== verification/Live_Signals.thy ===== *)
theory Live_Signals
  imports Candle_History
begin

text \<open>
  \<open>backend/signals/engine.py\<close> and \<open>recovery.py\<close> with the signal table of
  \<open>backend/data/repositories.py\<close>: a completed candle advances the open signals of its symbol, then the
  strategy decides on the history, and a buy is stored once and published.

  The table is a list of rows in insertion order with the unique keys of its migrations. An
  operation that raises returns the exception with the state it leaves behind. The strategy and the
  candle source are arguments; \<open>publish\<close> is the list of the signals handed to it.
\<close>

section \<open>The signal table\<close>

datatype signal_status = SigStrongBuy | SigHolding | SigTargetHit | SigExited | SigExpired

record live_signal =
  lv_id :: string
  lv_market :: market
  lv_strategy :: string
  lv_version :: string
  lv_symbol :: string
  lv_timeframe :: string
  lv_candle_at :: timestamp
  lv_type :: string
  lv_status :: signal_status
  lv_price :: real
  lv_target :: "real option"
  lv_stop :: "real option"
  lv_expires :: "timestamp option"
  lv_reasons :: "string list"
  lv_indicator :: "real option"
  lv_snapshot :: config
  lv_source :: string
  lv_external :: "string option"
  lv_received_at :: "timestamp option"
  lv_last_price :: "real option"
  lv_exit_at :: "timestamp option"
  lv_exit_price :: "real option"

record live_db =
  ld_rows :: "live_signal list"
  ld_next :: nat

definition signal_key :: "live_signal \<Rightarrow> market \<times> string \<times> string \<times> string \<times> string \<times> timestamp \<times> string" where
  "signal_key s = (lv_market s, lv_strategy s, lv_version s, lv_symbol s, lv_timeframe s, lv_candle_at s, lv_type s)"

definition signal_conflicts :: "live_db \<Rightarrow> live_signal \<Rightarrow> bool" where
  "signal_conflicts db s \<longleftrightarrow>
     list_ex (\<lambda>r. signal_key r = signal_key s
       \<or> lv_external s \<noteq> None \<and> lv_source r = lv_source s \<and> lv_external r = lv_external s) (ld_rows db)"

definition insert_new :: "live_db \<Rightarrow> live_signal \<Rightarrow> live_signal option \<times> live_db" where
  "insert_new db values =
     (if signal_conflicts db values then (None, db)
      else let row = values\<lparr>lv_id := show_nat (ld_next db), lv_status := SigStrongBuy,
                lv_last_price := Some (lv_price values), lv_exit_at := None, lv_exit_price := None\<rparr>
           in (Some row, db\<lparr>ld_rows := ld_rows db @ [row], ld_next := ld_next db + 1\<rparr>))"

definition get_external_event :: "live_db \<Rightarrow> string \<Rightarrow> string \<Rightarrow> live_signal option" where
  "get_external_event db source event = List.find (\<lambda>r. lv_source r = source \<and> lv_external r = Some event) (ld_rows db)"

definition signal_get :: "live_db \<Rightarrow> string \<Rightarrow> live_signal res" where
  "signal_get db i =
     (case List.find (\<lambda>r. lv_id r = i) (ld_rows db) of
        None \<Rightarrow> Inl (KeyError ''Signal was not found'') | Some r \<Rightarrow> Inr r)"

text \<open>A filter that is absent or empty is no filter.\<close>

definition filter_on :: "string option \<Rightarrow> string \<Rightarrow> bool" where
  "filter_on f x = (case f of None \<Rightarrow> True | Some s \<Rightarrow> s = [] \<or> x = s)"

definition signals_list ::
  "live_db \<Rightarrow> market option \<Rightarrow> signal_status option \<Rightarrow> string option \<Rightarrow> string option \<Rightarrow> string option \<Rightarrow> nat \<Rightarrow> live_signal list" where
  "signals_list db m status symbol strategy_id timeframe limit =
     take limit (rev (sort_key lv_candle_at (filter (\<lambda>r.
       (case m of None \<Rightarrow> True | Some x \<Rightarrow> lv_market r = x) \<and> (case status of None \<Rightarrow> True | Some x \<Rightarrow> lv_status r = x)
       \<and> filter_on symbol (lv_symbol r) \<and> filter_on strategy_id (lv_strategy r) \<and> filter_on timeframe (lv_timeframe r))
       (ld_rows db))))"

definition signal_open :: "live_signal \<Rightarrow> bool" where
  "signal_open r \<longleftrightarrow> lv_status r \<in> {SigStrongBuy, SigHolding}"

definition open_signals ::
  "live_db \<Rightarrow> market \<Rightarrow> string option \<Rightarrow> string option \<Rightarrow> string option \<Rightarrow> live_signal list" where
  "open_signals db m symbol strategy_id timeframe =
     sort_key lv_candle_at (filter (\<lambda>r. lv_market r = m \<and> signal_open r \<and> filter_on symbol (lv_symbol r)
       \<and> filter_on strategy_id (lv_strategy r) \<and> filter_on timeframe (lv_timeframe r)) (ld_rows db))"

definition update_signal :: "(live_signal \<Rightarrow> bool) \<Rightarrow> (live_signal \<Rightarrow> live_signal) \<Rightarrow> live_db \<Rightarrow> live_db" where
  "update_signal P f db = db\<lparr>ld_rows := map (\<lambda>r. if P r then f r else r) (ld_rows db)\<rparr>"

definition mark_holding :: "live_db \<Rightarrow> string \<Rightarrow> real \<Rightarrow> live_db" where
  "mark_holding db i last_price =
     update_signal (\<lambda>r. lv_id r = i \<and> lv_status r = SigStrongBuy)
       (\<lambda>r. r\<lparr>lv_status := SigHolding, lv_last_price := Some last_price\<rparr>) db"

definition update_last_price :: "live_db \<Rightarrow> string \<Rightarrow> real \<Rightarrow> live_db" where
  "update_last_price db i last_price = update_signal (\<lambda>r. lv_id r = i) (\<lambda>r. r\<lparr>lv_last_price := Some last_price\<rparr>) db"

definition signal_close :: "live_db \<Rightarrow> string \<Rightarrow> signal_status \<Rightarrow> timestamp \<Rightarrow> real \<Rightarrow> (live_signal \<times> live_db) res" where
  "signal_close db i status exit_at exit_price =
     (if status \<notin> {SigTargetHit, SigExited, SigExpired} then Inl (ValueError ''not a closing signal status'')
      else let db' = update_signal (\<lambda>r. lv_id r = i \<and> signal_open r)
                 (\<lambda>r. r\<lparr>lv_status := status, lv_exit_at := Some exit_at, lv_exit_price := Some exit_price,
                        lv_last_price := Some exit_price\<rparr>) db
           in rbind (signal_get db' i) (\<lambda>r. Inr (r, db')))"

section \<open>Risk settings\<close>

record risk_settings =
  rk_stop_loss_pct :: "real option"
  rk_maximum_holding_bars :: "real option"

definition mk_risk_settings :: "real option \<Rightarrow> real option \<Rightarrow> risk_settings res" where
  "mk_risk_settings stop_loss_pct maximum_holding_bars =
     (if case_option False (\<lambda>x. \<not> (0 < x \<and> x < 100)) stop_loss_pct
      then Inl (ValueError ''stop_loss_pct must be between 0 and 100'')
      else if case_option False (\<lambda>x. x < 1) maximum_holding_bars
      then Inl (ValueError ''maximum_holding_bars must be at least 1'')
      else Inr \<lparr>rk_stop_loss_pct = stop_loss_pct, rk_maximum_holding_bars = maximum_holding_bars\<rparr>)"

text \<open>\<open>values.get(snake, values.get(camel))\<close>\<close>

definition get_either :: "config \<Rightarrow> string \<Rightarrow> string \<Rightarrow> pyval" where
  "get_either values snake camel =
     (case map_of values snake of
        Some v \<Rightarrow> v
      | None \<Rightarrow> (case map_of values camel of Some v \<Rightarrow> v | None \<Rightarrow> PyNone))"

definition risk_from_mapping :: "config \<Rightarrow> risk_settings res" where
  "risk_from_mapping values =
     rbind (opt_number (get_either values ''stop_loss_pct'' ''stopLossPct'')) (\<lambda>stop.
     rbind (opt_number (get_either values ''maximum_holding_bars'' ''maximumHoldingBars'')) (\<lambda>bars.
       mk_risk_settings stop bars))"

definition risk_public :: "risk_settings \<Rightarrow> config" where
  "risk_public r = [(''stopLossPct'', opt_float (rk_stop_loss_pct r)), (''maximumHoldingBars'', opt_float (rk_maximum_holding_bars r))]"

section \<open>The engine\<close>

definition HISTORY_BUFFER_BARS :: int where "HISTORY_BUFFER_BARS = 50"

record signal_env =
  se_market :: market_spec
  se_strategy :: strategy
  se_config :: config
  se_risk :: risk_settings
  se_timeframe :: string
  se_bar_minutes :: int
  se_generation :: bool

record signal_state =
  ss_history :: candle_history
  ss_db :: live_db
  ss_published :: "live_signal list"
  ss_last_completed :: "timestamp option"
  ss_last_decision :: "signal_decision option"
  ss_evaluations :: nat
  ss_created :: nat
  ss_duplicates :: nat

type_synonym 'a sg_res = "py_error \<times> signal_state + 'a \<times> signal_state"

definition with_signals :: "signal_state \<Rightarrow> 'a res \<Rightarrow> py_error \<times> signal_state + 'a" where
  "with_signals st m = (case m of Inl e \<Rightarrow> Inl (e, st) | Inr x \<Rightarrow> Inr x)"

text \<open>The constructor; \<open>resolve\<close> is the strategy's method when it has one.\<close>

definition signal_engine ::
  "market_spec \<Rightarrow> strategy \<Rightarrow> (config \<Rightarrow> config res) option \<Rightarrow> config \<Rightarrow> risk_settings \<Rightarrow> string \<Rightarrow> bool \<Rightarrow> live_db
    \<Rightarrow> (signal_env \<times> signal_state) res" where
  "signal_engine spec strat resolve configuration risk timeframe generation db =
     rbind (case resolve of Some f \<Rightarrow> f configuration | None \<Rightarrow> Inr configuration) (\<lambda>config.
     rbind (st_validate_config strat config) (\<lambda>_.
     rbind (spec_minutes spec timeframe) (\<lambda>minutes.
     rbind (st_required_history strat config) (\<lambda>required.
     rbind (new_history (required + HISTORY_BUFFER_BARS)) (\<lambda>h.
       Inr (\<lparr>se_market = spec, se_strategy = strat, se_config = config, se_risk = risk, se_timeframe = timeframe,
             se_bar_minutes = minutes, se_generation = generation\<rparr>,
            \<lparr>ss_history = h, ss_db = db, ss_published = [], ss_last_completed = None, ss_last_decision = None,
             ss_evaluations = 0, ss_created = 0, ss_duplicates = 0\<rparr>))))))"

text \<open>What a candle does to one open signal: stop before target before expiry, else a new mark.\<close>

datatype signal_move = Ignore | CloseSignal signal_status real | Hold | Reprice

definition signal_action :: "candle \<Rightarrow> live_signal \<Rightarrow> signal_move" where
  "signal_action c s =
     (if ca_at c \<le> lv_candle_at s then Ignore
      else if case_option False (\<lambda>stop. ca_low c \<le> stop) (lv_stop s) then CloseSignal SigExited (the (lv_stop s))
      else if case_option False (\<lambda>target. ca_high c \<ge> target) (lv_target s) then CloseSignal SigTargetHit (the (lv_target s))
      else if case_option False (\<lambda>e. ca_at c \<ge> e) (lv_expires s) then CloseSignal SigExpired (ca_close c)
      else if lv_status s = SigStrongBuy then Hold else Reprice)"

definition advance_signal :: "candle \<Rightarrow> signal_state \<Rightarrow> live_signal \<Rightarrow> py_error \<times> signal_state + signal_state" where
  "advance_signal c st s =
     (case signal_action c s of
        Ignore \<Rightarrow> Inr st
      | CloseSignal status price \<Rightarrow>
          rbind (with_signals st (signal_close (ss_db st) (lv_id s) status (ca_at c) price)) (\<lambda>(_, db). Inr (st\<lparr>ss_db := db\<rparr>))
      | Hold \<Rightarrow> Inr (st\<lparr>ss_db := mark_holding (ss_db st) (lv_id s) (ca_close c)\<rparr>)
      | Reprice \<Rightarrow> Inr (st\<lparr>ss_db := update_last_price (ss_db st) (lv_id s) (ca_close c)\<rparr>))"

definition advance_open_signals :: "signal_env \<Rightarrow> string \<Rightarrow> candle \<Rightarrow> signal_state \<Rightarrow> py_error \<times> signal_state + signal_state" where
  "advance_open_signals env symbol c st =
     rfold (advance_signal c) st
       (open_signals (ss_db st) (ms_market (se_market env)) (Some symbol) (Some (st_id (se_strategy env))) (Some (se_timeframe env)))"

definition decision_stop :: "risk_settings \<Rightarrow> signal_decision \<Rightarrow> real option" where
  "decision_stop risk d =
     (case (rk_stop_loss_pct risk, sd_stop_price d) of
        (Some pct, None) \<Rightarrow> Some (py_round (the (sd_signal_price d) * (1 - pct / 100)) 4)
      | _ \<Rightarrow> sd_stop_price d)"

definition decision_expires :: "signal_env \<Rightarrow> signal_decision \<Rightarrow> timestamp option" where
  "decision_expires env d =
     (case rk_maximum_holding_bars (se_risk env) of
        None \<Rightarrow> None
      | Some bars \<Rightarrow> if bars = 0 then None
          else Some (sd_candle_at d + round_half_even (of_int (se_bar_minutes env) * bars * of_int MINUTE_US)))"

definition decided_signal :: "signal_env \<Rightarrow> string \<Rightarrow> signal_decision \<Rightarrow> live_signal" where
  "decided_signal env symbol d =
     \<lparr>lv_id = [], lv_market = ms_market (se_market env), lv_strategy = sd_strategy_id d, lv_version = sd_strategy_version d,
      lv_symbol = symbol, lv_timeframe = se_timeframe env, lv_candle_at = sd_candle_at d, lv_type = ''BUY'',
      lv_status = SigStrongBuy, lv_price = the (sd_signal_price d), lv_target = sd_target_price d,
      lv_stop = decision_stop (se_risk env) d, lv_expires = decision_expires env d, lv_reasons = sd_reasons d,
      lv_indicator = sd_rsi d, lv_snapshot = sd_snapshot d, lv_source = ''OPENDELTA'', lv_external = None,
      lv_received_at = None, lv_last_price = None, lv_exit_at = None, lv_exit_price = None\<rparr>"

text \<open>
  \<open>_evaluate\<close>: the decision of the strategy on the whole history; it counts only if it is about the
  candle at hand. A decision is built by its constructor, which refuses a buy without a price.
\<close>

definition store_decision ::
  "signal_env \<Rightarrow> string \<Rightarrow> timestamp \<Rightarrow> signal_decision \<Rightarrow> signal_state \<Rightarrow> live_signal option \<times> signal_state" where
  "store_decision env symbol stamp d st =
     (let st1 = st\<lparr>ss_last_decision := Some d, ss_evaluations := ss_evaluations st + 1\<rparr>
      in if sd_decision d \<noteq> BUY \<or> sd_candle_at d \<noteq> stamp then (None, st1)
         else case insert_new (ss_db st1) (decided_signal env symbol d) of
             (None, _) \<Rightarrow> (None, st1\<lparr>ss_duplicates := ss_duplicates st1 + 1\<rparr>)
           | (Some stored, db) \<Rightarrow>
               (Some stored, st1\<lparr>ss_db := db, ss_created := ss_created st1 + 1,
                                 ss_published := ss_published st1 @ [stored]\<rparr>))"

definition evaluate_signal :: "signal_env \<Rightarrow> string \<Rightarrow> timestamp \<Rightarrow> signal_state \<Rightarrow> live_signal option sg_res" where
  "evaluate_signal env symbol stamp st =
     (if \<not> se_generation env then Inr (None, st)
      else rbind (with_signals st (mk_market_context (market_name (ms_market (se_market env))) symbol (se_timeframe env))) (\<lambda>ctx.
        rbind (with_signals st (rbind (st_evaluate (se_strategy env) (history_get (ss_history st) symbol) ctx (se_config env))
                 mk_signal_decision)) (\<lambda>d.
          Inr (store_decision env symbol stamp d st))))"

definition later_stamp :: "timestamp option \<Rightarrow> timestamp \<Rightarrow> timestamp option" where
  "later_stamp latest t = (case latest of None \<Rightarrow> Some t | Some l \<Rightarrow> Some (if t > l then t else l))"

definition process_stamp ::
  "signal_env \<Rightarrow> string \<Rightarrow> live_signal option \<times> signal_state \<Rightarrow> timestamp \<Rightarrow> live_signal option sg_res" where
  "process_stamp env symbol cs stamp =
     (let (created, st) = cs in
      case List.find (\<lambda>c. ca_at c = stamp) (history_get (ss_history st) symbol) of
        None \<Rightarrow> Inl (KeyError ''stamp'', st)
      | Some row \<Rightarrow>
          rbind (advance_open_signals env symbol row st) (\<lambda>st1.
          rbind (evaluate_signal env symbol stamp st1) (\<lambda>(new, st2).
            Inr (if new \<noteq> None then new else created,
                 st2\<lparr>ss_last_completed := later_stamp (ss_last_completed st2) stamp\<rparr>))))"

definition process_completed_candle ::
  "signal_env \<Rightarrow> string \<Rightarrow> candle_frame \<Rightarrow> signal_state \<Rightarrow> live_signal option sg_res" where
  "process_completed_candle env symbol frame st =
     rbind (with_signals st (history_append (ss_history st) symbol frame)) (\<lambda>(stamps, h).
       rfold (process_stamp env symbol) (None, st\<lparr>ss_history := h\<rparr>) stamps)"

definition track_market_candle :: "signal_env \<Rightarrow> string \<Rightarrow> candle \<Rightarrow> signal_state \<Rightarrow> py_error \<times> signal_state + signal_state" where
  "track_market_candle env symbol c st = advance_open_signals env symbol c st"

definition signal_symbols :: "signal_env \<Rightarrow> signal_state \<Rightarrow> string list" where
  "signal_symbols env st =
     sort (remdups (map lv_symbol (open_signals (ss_db st) (ms_market (se_market env)) None
       (Some (st_id (se_strategy env))) (Some (se_timeframe env)))))"

definition data_age_seconds :: "signal_env \<Rightarrow> signal_state \<Rightarrow> timestamp \<Rightarrow> real option" where
  "data_age_seconds env st now =
     map_option (\<lambda>latest. max 0 (of_int (now - (latest + se_bar_minutes env * MINUTE_US)) / 1000000)) (latest_overall (ss_history st))"

section \<open>Recovery\<close>

record recovery =
  rv_seeded :: nat
  rv_failed :: "(string \<times> py_error) list"
  rv_open :: nat
  rv_latest :: "timestamp option"

definition seed_symbol ::
  "signal_env \<Rightarrow> candle_source \<Rightarrow> candle_processor \<Rightarrow> timestamp \<Rightarrow> int \<Rightarrow> candle_history \<times> nat \<times> (string \<times> py_error) list
    \<Rightarrow> string \<Rightarrow> candle_history \<times> nat \<times> (string \<times> py_error) list" where
  "seed_symbol env source p now lookback_days acc symbol =
     (let (h, seeded, failed) = acc in
      case rbind (source symbol (se_timeframe env) (now - lookback_days * DAY_US) now (int (ch_maximum h))) (\<lambda>frame.
             rbind (completed p frame now) (history_seed h symbol)) of
        Inr h' \<Rightarrow> (h', seeded + 1, failed)
      | Inl e \<Rightarrow> (h, seeded, failed @ [(symbol, e)]))"

definition rebuild_histories ::
  "signal_env \<Rightarrow> candle_source \<Rightarrow> candle_processor \<Rightarrow> string list \<Rightarrow> timestamp \<Rightarrow> int \<Rightarrow> signal_state \<Rightarrow> recovery \<times> signal_state" where
  "rebuild_histories env source p symbols now lookback_days st =
     (let (h, seeded, failed) = foldl (seed_symbol env source p now lookback_days) (ss_history st, 0, []) symbols;
          latest = latest_overall h;
          st' = st\<lparr>ss_history := h, ss_last_completed := latest\<rparr>
      in (\<lparr>rv_seeded = seeded, rv_failed = failed,
           rv_open = length (open_signals (ss_db st') (ms_market (se_market env)) None
             (Some (st_id (se_strategy env))) (Some (se_timeframe env))),
           rv_latest = latest\<rparr>, st'))"

end
