(* ===== verification/Signal_Properties.thy ===== *)
theory Signal_Properties
  imports Live_Signals
begin

text \<open>
  What the signal engine guarantees. The locale \<open>signal_invariant\<close> is the contract between the engine
  and its table: what storing, holding, pricing and closing keep, every operation keeps, also one
  that raises. It is interpreted on the unique keys, on the life cycle of the rows and on what is
  published.
\<close>

section \<open>Operations\<close>

datatype signal_op = ProcessCandle string candle_frame | TrackCandle string candle

fun apply_signal_op :: "signal_env \<Rightarrow> signal_op \<Rightarrow> signal_state \<Rightarrow> py_error \<times> signal_state + signal_state" where
  "apply_signal_op env (ProcessCandle k frame) st =
     (case process_completed_candle env k frame st of Inl e \<Rightarrow> Inl e | Inr (_, st') \<Rightarrow> Inr st')"
| "apply_signal_op env (TrackCandle k c) st = track_market_candle env k c st"

definition signal_result :: "py_error \<times> signal_state + signal_state \<Rightarrow> signal_state" where
  "signal_result r = (case r of Inl (_, st) \<Rightarrow> st | Inr st \<Rightarrow> st)"

definition run_signal_ops :: "signal_env \<Rightarrow> signal_state \<Rightarrow> signal_op list \<Rightarrow> signal_state" where
  "run_signal_ops env st ops = foldl (\<lambda>s x. signal_result (apply_signal_op env x s)) st ops"

lemma with_signals_simps [simp]:
  "with_signals st (Inl e) = Inl (e, st)" "with_signals st (Inr x) = Inr x"
  "with_signals st m = Inr y \<longleftrightarrow> m = Inr y"
  by (auto simp: with_signals_def split: sum.splits)

lemma ends_with_signals: "(\<And>e. E (e, st)) \<Longrightarrow> (\<And>x. m = Inr x \<Longrightarrow> Q x) \<Longrightarrow> ends E Q (with_signals st m)"
  by (cases m) simp_all

locale signal_invariant =
  fixes P :: "signal_state \<Rightarrow> bool"
  assumes hold: "P st \<Longrightarrow> P (st\<lparr>ss_db := mark_holding (ss_db st) i x\<rparr>)"
    and price: "P st \<Longrightarrow> P (st\<lparr>ss_db := update_last_price (ss_db st) i x\<rparr>)"
    and close: "P st \<Longrightarrow> signal_close (ss_db st) i status t x = Inr (r, db) \<Longrightarrow> P (st\<lparr>ss_db := db\<rparr>)"
    and store: "P st \<Longrightarrow> insert_new (ss_db st) s = (Some r, db) \<Longrightarrow>
      P (st\<lparr>ss_db := db, ss_created := ss_created st + 1, ss_published := ss_published st @ [r]\<rparr>)"
    and other: "P st \<Longrightarrow> P (st\<lparr>ss_history := h, ss_last_completed := t', ss_last_decision := d, ss_evaluations := n, ss_duplicates := m\<rparr>)"
begin

abbreviation keeps :: "py_error \<times> signal_state + 'a \<times> signal_state \<Rightarrow> bool" where
  "keeps r \<equiv> ends (\<lambda>(_, st). P st) (\<lambda>(_, st). P st) r"

abbreviation keeps_state :: "py_error \<times> signal_state + signal_state \<Rightarrow> bool" where
  "keeps_state r \<equiv> ends (\<lambda>(_, st). P st) P r"

lemma history_kept: "P st \<Longrightarrow> P (st\<lparr>ss_history := h\<rparr>)"
  using other [where st = st and h = h and t' = "ss_last_completed st" and d = "ss_last_decision st" and n = "ss_evaluations st" and m = "ss_duplicates st"] by simp

lemma completed_kept: "P st \<Longrightarrow> P (st\<lparr>ss_last_completed := t'\<rparr>)"
  using other [where st = st and h = "ss_history st" and t' = t' and d = "ss_last_decision st" and n = "ss_evaluations st" and m = "ss_duplicates st"] by simp

lemma counted_kept: "P st \<Longrightarrow> P (st\<lparr>ss_last_decision := d, ss_evaluations := n\<rparr>)"
  using other [where st = st and h = "ss_history st" and t' = "ss_last_completed st" and d = d and n = n and m = "ss_duplicates st"] by simp

lemma duplicate_kept: "P st \<Longrightarrow> P (st\<lparr>ss_duplicates := n\<rparr>)"
  using other [where st = st and h = "ss_history st" and t' = "ss_last_completed st" and d = "ss_last_decision st" and n = "ss_evaluations st" and m = n] by simp

lemma advance_signal_kept: "P st \<Longrightarrow> keeps_state (advance_signal c st s)"
  unfolding advance_signal_def
  by (auto intro!: ends_rbind ends_with_signals hold price close split: signal_move.split)

lemma advance_open_kept: "P st \<Longrightarrow> keeps_state (advance_open_signals env k c st)"
  unfolding advance_open_signals_def by (rule ends_rfold) (auto intro: advance_signal_kept)

lemma store_decision_kept:
  assumes "P st" shows "P (snd (store_decision env k t d st))"
proof (cases "insert_new (ss_db st) (decided_signal env k d)")
  case (Pair r db)
  let ?st = "st\<lparr>ss_last_decision := Some d, ss_evaluations := ss_evaluations st + 1\<rparr>"
  have p: "P ?st" by (rule counted_kept [OF assms])
  show ?thesis
  proof (cases r)
    case None
    with Pair p duplicate_kept [OF p] show ?thesis by (simp add: store_decision_def Let_def)
  next
    case (Some s)
    with Pair p store [OF p, of "decided_signal env k d" s db] show ?thesis by (simp add: store_decision_def Let_def)
  qed
qed

lemma evaluate_kept: "P st \<Longrightarrow> keeps (evaluate_signal env k t st)"
  unfolding evaluate_signal_def
  by (auto intro!: ends_rbind ends_with_signals simp: case_prod_unfold store_decision_kept)

lemma process_stamp_kept:
  assumes "P (snd cs)" shows "keeps (process_stamp env k cs t)"
  using assms unfolding process_stamp_def Let_def
  by (auto intro!: ends_rbind ends_mono [OF advance_open_kept] ends_mono [OF evaluate_kept] completed_kept
      split: prod.split option.split)

lemma process_kept:
  assumes "P st" shows "keeps (process_completed_candle env k frame st)"
proof -
  have "keeps (rfold (process_stamp env k) (None, st\<lparr>ss_history := h\<rparr>) ts)" for h ts
    using ends_rfold [where P = "\<lambda>cs. P (snd cs)" and f = "process_stamp env k" and E = "\<lambda>(_, st). P st"]
      process_stamp_kept history_kept [OF assms]
    by (simp add: case_prod_unfold)
  then show ?thesis unfolding process_completed_candle_def using assms
    by (auto intro!: ends_rbind ends_with_signals)
qed

lemma apply_op_kept: "P st \<Longrightarrow> P (signal_result (apply_signal_op env x st))"
proof (cases x)
  case (ProcessCandle k frame)
  assume "P st"
  then have "keeps (process_completed_candle env k frame st)" by (rule process_kept)
  then show ?thesis using ProcessCandle
    by (cases "process_completed_candle env k frame st") (auto simp: signal_result_def)
next
  case (TrackCandle k c)
  assume "P st"
  then have "keeps_state (track_market_candle env k c st)" unfolding track_market_candle_def by (rule advance_open_kept)
  then show ?thesis using TrackCandle
    by (cases "track_market_candle env k c st") (auto simp: signal_result_def)
qed

lemma run_kept: "P st \<Longrightarrow> P (run_signal_ops env st ops)"
  unfolding run_signal_ops_def by (induction ops arbitrary: st) (auto intro: apply_op_kept)

end

section \<open>Unique keys\<close>

definition signals_ok :: "live_db \<Rightarrow> bool" where
  "signals_ok db \<longleftrightarrow> distinct (map signal_key (ld_rows db)) \<and> distinct (map lv_id (ld_rows db))
     \<and> (\<forall>r \<in> set (ld_rows db). \<exists>n < ld_next db. lv_id r = show_nat n)"

lemma update_signal_keys:
  assumes "\<And>r. signal_key (f r) = signal_key r \<and> lv_id (f r) = lv_id r"
  shows "map signal_key (ld_rows (update_signal Q f db)) = map signal_key (ld_rows db)"
    "map lv_id (ld_rows (update_signal Q f db)) = map lv_id (ld_rows db)"
    "ld_next (update_signal Q f db) = ld_next db"
  using assms by (simp_all add: update_signal_def)

lemma signals_ok_ids: "(\<forall>r \<in> set rows. \<exists>n < m. lv_id r = show_nat n) \<longleftrightarrow> set (map lv_id rows) \<subseteq> show_nat ` {..<m}"
  by (auto simp: image_iff)

lemma update_signal_ok:
  assumes "signals_ok db" and "\<And>r. signal_key (f r) = signal_key r \<and> lv_id (f r) = lv_id r"
  shows "signals_ok (update_signal Q f db)"
  using assms(1) unfolding signals_ok_def signals_ok_ids update_signal_keys [OF assms(2)] .

lemma signal_close_eq:
  "signal_close db i status t x = Inr (r, db') \<Longrightarrow> db' = update_signal (\<lambda>r. lv_id r = i \<and> signal_open r)
     (\<lambda>r. r\<lparr>lv_status := status, lv_exit_at := Some t, lv_exit_price := Some x, lv_last_price := Some x\<rparr>) db
   \<and> status \<in> {SigTargetHit, SigExited, SigExpired}"
  by (auto simp: signal_close_def Let_def rbind_eq_Inr split: if_splits)

lemma insert_new_eq:
  "insert_new db s = (Some r, db') \<Longrightarrow> \<not> signal_conflicts db s \<and> signal_key r = signal_key s \<and> lv_id r = show_nat (ld_next db)
     \<and> lv_candle_at r = lv_candle_at s \<and> lv_status r = SigStrongBuy
     \<and> db' = db\<lparr>ld_rows := ld_rows db @ [r], ld_next := ld_next db + 1\<rparr>"
  by (auto simp: insert_new_def Let_def signal_key_def split: if_splits)

interpretation unique: signal_invariant "\<lambda>st. signals_ok (ss_db st)"
proof unfold_locales
  fix st s r db assume ok: "signals_ok (ss_db st)" and eq: "insert_new (ss_db st) s = (Some r, db)"
  note e = insert_new_eq [OF eq]
  have "signal_key r \<notin> signal_key ` set (ld_rows (ss_db st))"
    using e by (auto simp: signal_conflicts_def list_ex_iff image_iff)
  moreover have "lv_id r \<notin> lv_id ` set (ld_rows (ss_db st))" using e ok by (fastforce simp: signals_ok_def)
  ultimately show "signals_ok (ss_db (st\<lparr>ss_db := db, ss_created := ss_created st + 1, ss_published := ss_published st @ [r]\<rparr>))"
    using e ok by (fastforce simp: signals_ok_def)
next
  fix st i status t x r db assume "signals_ok (ss_db st)" and "signal_close (ss_db st) i status t x = Inr (r, db)"
  then show "signals_ok (ss_db (st\<lparr>ss_db := db\<rparr>))"
    using signal_close_eq by (fastforce intro: update_signal_ok simp: signal_key_def)
qed (auto simp: mark_holding_def update_last_price_def signal_key_def intro!: update_signal_ok)

section \<open>The life cycle of a signal\<close>

fun status_rank :: "signal_status \<Rightarrow> nat" where
  "status_rank SigStrongBuy = 0"
| "status_rank SigHolding = 1"
| "status_rank SigTargetHit = 2"
| "status_rank SigExited = 2"
| "status_rank SigExpired = 2"

text \<open>Everything of a row but its status, its mark and its exit.\<close>

definition signal_core :: "live_signal \<Rightarrow> live_signal" where
  "signal_core r = r\<lparr>lv_status := SigStrongBuy, lv_last_price := None, lv_exit_at := None, lv_exit_price := None\<rparr>"

definition row_evolves :: "live_signal \<Rightarrow> live_signal \<Rightarrow> bool" where
  "row_evolves r r' \<longleftrightarrow> signal_core r' = signal_core r
     \<and> (if signal_open r then lv_status r' = lv_status r \<or> status_rank (lv_status r) < status_rank (lv_status r')
        else lv_status r' = lv_status r \<and> lv_exit_at r' = lv_exit_at r \<and> lv_exit_price r' = lv_exit_price r)"

definition signals_evolve :: "live_db \<Rightarrow> live_db \<Rightarrow> bool" where
  "signals_evolve db db' \<longleftrightarrow> (\<exists>old new. ld_rows db' = old @ new \<and> list_all2 row_evolves (ld_rows db) old)"

lemma row_evolves_refl [simp]: "row_evolves r r"
  by (simp add: row_evolves_def)

lemma row_evolves_trans: "row_evolves r s \<Longrightarrow> row_evolves s t \<Longrightarrow> row_evolves r t"
  by (auto simp: row_evolves_def signal_open_def split: if_splits)

lemma evolve_refl [simp]: "signals_evolve db db"
  unfolding signals_evolve_def by (rule exI [of _ "ld_rows db"]) (simp add: list_all2_same)

lemma evolve_update:
  assumes "signals_evolve db0 db" and "\<And>r. Q r \<Longrightarrow> row_evolves r (f r)"
  shows "signals_evolve db0 (update_signal Q f db)"
proof -
  from assms(1) obtain old new where o: "ld_rows db = old @ new" "list_all2 row_evolves (ld_rows db0) old"
    by (auto simp: signals_evolve_def)
  have "list_all2 row_evolves (ld_rows db0) (map (\<lambda>r. if Q r then f r else r) old)"
    unfolding list_all2_map2 by (rule list_all2_mono [OF o(2)]) (use assms(2) row_evolves_trans in auto)
  with o(1) show ?thesis unfolding signals_evolve_def update_signal_def
    by (intro exI [of _ "map (\<lambda>r. if Q r then f r else r) old"] exI [of _ "map (\<lambda>r. if Q r then f r else r) new"]) simp
qed

interpretation lifecycle: signal_invariant "\<lambda>st. signals_evolve db0 (ss_db st)" for db0
proof unfold_locales
  fix st s r db assume "signals_evolve db0 (ss_db st)" and "insert_new (ss_db st) s = (Some r, db)"
  then show "signals_evolve db0 (ss_db (st\<lparr>ss_db := db, ss_created := ss_created st + 1, ss_published := ss_published st @ [r]\<rparr>))"
    using insert_new_eq [of "ss_db st" s r db] by (fastforce simp: signals_evolve_def)
next
  fix st i status t x r db assume "signals_evolve db0 (ss_db st)" and "signal_close (ss_db st) i status t x = Inr (r, db)"
  then show "signals_evolve db0 (ss_db (st\<lparr>ss_db := db\<rparr>))"
    using signal_close_eq [of "ss_db st" i status t x r db]
    by (auto intro!: evolve_update simp: row_evolves_def signal_core_def signal_open_def)
qed (auto simp: mark_holding_def update_last_price_def row_evolves_def signal_core_def signal_open_def intro!: evolve_update)

section \<open>What is published\<close>

definition published_new :: "nat \<Rightarrow> signal_state \<Rightarrow> bool" where
  "published_new n st \<longleftrightarrow> n \<le> length (ld_rows (ss_db st)) \<and> map lv_id (ss_published st) = map lv_id (drop n (ld_rows (ss_db st)))
     \<and> ss_created st = length (ss_published st)"

lemma drop_ids: "map lv_id xs = map lv_id ys \<Longrightarrow> map lv_id (drop n xs) = map lv_id (drop n ys)"
  by (metis drop_map)

lemma published_update:
  assumes "published_new n st" and "map lv_id (ld_rows db) = map lv_id (ld_rows (ss_db st))"
  shows "published_new n (st\<lparr>ss_db := db\<rparr>)"
  using assms drop_ids [OF assms(2), of n] map_eq_imp_length_eq [OF assms(2)] by (simp add: published_new_def)

interpretation published: signal_invariant "published_new n" for n
proof unfold_locales
  fix st s r db assume "published_new n st" and "insert_new (ss_db st) s = (Some r, db)"
  then show "published_new n (st\<lparr>ss_db := db, ss_created := ss_created st + 1, ss_published := ss_published st @ [r]\<rparr>)"
    using insert_new_eq [of "ss_db st" s r db] by (simp add: published_new_def)
next
  fix st i status t x r db assume "published_new n st" and "signal_close (ss_db st) i status t x = Inr (r, db)"
  then show "published_new n (st\<lparr>ss_db := db\<rparr>)"
    using signal_close_eq [of "ss_db st" i status t x r db] by (auto intro!: published_update simp: update_signal_def)
next
  fix st h t' d k m assume "published_new n st"
  then show "published_new n (st\<lparr>ss_history := h, ss_last_completed := t', ss_last_decision := d, ss_evaluations := k, ss_duplicates := m\<rparr>)"
    by (simp add: published_new_def)
qed (auto simp: mark_holding_def update_last_price_def update_signal_def intro!: published_update)

section \<open>The engine as a whole\<close>


text \<open>What one candle makes of one row.\<close>

definition advanced :: "candle \<Rightarrow> live_signal \<Rightarrow> live_signal" where
  "advanced c r =
     (case signal_action c r of
        Ignore \<Rightarrow> r
      | CloseSignal status price \<Rightarrow> r\<lparr>lv_status := status, lv_exit_at := Some (ca_at c), lv_exit_price := Some price,
                                     lv_last_price := Some price\<rparr>
      | Hold \<Rightarrow> r\<lparr>lv_status := SigHolding, lv_last_price := Some (ca_close c)\<rparr>
      | Reprice \<Rightarrow> r\<lparr>lv_last_price := Some (ca_close c)\<rparr>)"

definition tracked_by :: "signal_env \<Rightarrow> string \<Rightarrow> live_signal \<Rightarrow> bool" where
  "tracked_by env k r \<longleftrightarrow> lv_market r = ms_market (se_market env) \<and> signal_open r \<and> filter_on (Some k) (lv_symbol r)
     \<and> filter_on (Some (st_id (se_strategy env))) (lv_strategy r) \<and> filter_on (Some (se_timeframe env)) (lv_timeframe r)"

lemma advanced_id [simp]: "lv_id (advanced c r) = lv_id r"
  by (simp add: advanced_def split: signal_move.split)

lemma signal_action_closing: "signal_action c r = CloseSignal status x \<Longrightarrow> status \<in> {SigTargetHit, SigExited, SigExpired}"
  by (auto simp: signal_action_def split: if_splits)

lemma signal_action_hold: "signal_action c r = Hold \<Longrightarrow> lv_status r = SigStrongBuy"
  by (auto simp: signal_action_def split: if_splits)

lemma map_one_row:
  assumes "distinct (map lv_id rows)" and "s \<in> set rows" and "Q s" and "f s = g s" and "\<And>r. Q r \<Longrightarrow> lv_id r = lv_id s"
  shows "map (\<lambda>r. if Q r then f r else r) rows = map (\<lambda>r. if lv_id r = lv_id s then g r else r) rows"
proof (rule map_cong [OF refl])
  fix r assume "r \<in> set rows"
  then have "lv_id r = lv_id s \<longleftrightarrow> r = s" using assms(1,2) by (auto simp: distinct_map inj_on_def)
  then show "(if Q r then f r else r) = (if lv_id r = lv_id s then g r else r)"
    using assms(3,4) assms(5) [of r] by (cases "r = s"; cases "Q r") simp_all
qed

lemma advance_one:
  assumes d: "distinct (map lv_id (ld_rows (ss_db st)))" and s: "s \<in> set (ld_rows (ss_db st))" and o: "signal_open s"
  shows "advance_signal c st s = Inr (st\<lparr>ss_db := (ss_db st)\<lparr>ld_rows :=
      map (\<lambda>r. if lv_id r = lv_id s then advanced c r else r) (ld_rows (ss_db st))\<rparr>\<rparr>)"
proof (cases "signal_action c s")
  case Ignore
  have "map (\<lambda>r. if lv_id r = lv_id s then advanced c r else r) (ld_rows (ss_db st)) = ld_rows (ss_db st)"
    by (rule map_idI) (use d s Ignore in \<open>auto simp: distinct_map inj_on_def advanced_def\<close>)
  with Ignore show ?thesis by (simp add: advance_signal_def)
next
  case (CloseSignal status x)
  let ?f = "\<lambda>r. r\<lparr>lv_status := status, lv_exit_at := Some (ca_at c), lv_exit_price := Some x, lv_last_price := Some x\<rparr>"
  have rows: "map (\<lambda>r. if lv_id r = lv_id s \<and> signal_open r then ?f r else r) (ld_rows (ss_db st))
      = map (\<lambda>r. if lv_id r = lv_id s then advanced c r else r) (ld_rows (ss_db st))"
    by (rule map_one_row [OF d s]) (use o CloseSignal in \<open>simp_all add: advanced_def\<close>)
  let ?db = "update_signal (\<lambda>r. lv_id r = lv_id s \<and> signal_open r) ?f (ss_db st)"
  have "map lv_id (ld_rows ?db) = map lv_id (ld_rows (ss_db st))" by (simp add: update_signal_def)
  then have "lv_id ` set (ld_rows ?db) = lv_id ` set (ld_rows (ss_db st))" by (metis image_set)
  then have "lv_id s \<in> lv_id ` set (ld_rows ?db)" using s by simp
  then obtain r where "signal_get ?db (lv_id s) = Inr r"
    by (cases "List.find (\<lambda>r. lv_id r = lv_id s) (ld_rows ?db)") (auto simp: signal_get_def find_None_iff)
  with CloseSignal signal_action_closing [OF CloseSignal] rows show ?thesis
    by (simp add: advance_signal_def signal_close_def update_signal_def)
next
  case Hold
  have "map (\<lambda>r. if lv_id r = lv_id s \<and> lv_status r = SigStrongBuy
        then r\<lparr>lv_status := SigHolding, lv_last_price := Some (ca_close c)\<rparr> else r) (ld_rows (ss_db st))
      = map (\<lambda>r. if lv_id r = lv_id s then advanced c r else r) (ld_rows (ss_db st))"
    by (rule map_one_row [OF d s]) (use Hold signal_action_hold [OF Hold] in \<open>simp_all add: advanced_def\<close>)
  with Hold show ?thesis by (simp add: advance_signal_def mark_holding_def update_signal_def)
next
  case Reprice
  have "map (\<lambda>r. if lv_id r = lv_id s then r\<lparr>lv_last_price := Some (ca_close c)\<rparr> else r) (ld_rows (ss_db st))
      = map (\<lambda>r. if lv_id r = lv_id s then advanced c r else r) (ld_rows (ss_db st))"
    by (rule map_one_row [OF d s]) (use Reprice in \<open>simp_all add: advanced_def\<close>)
  with Reprice show ?thesis by (simp add: advance_signal_def update_last_price_def update_signal_def)
qed

lemma advance_all:
  assumes "distinct (map lv_id (ld_rows (ss_db st)))" and "set ls \<subseteq> set (ld_rows (ss_db st))" and "distinct (map lv_id ls)"
    and "\<And>s. s \<in> set ls \<Longrightarrow> signal_open s"
  shows "rfold (advance_signal c) st ls = Inr (st\<lparr>ss_db := (ss_db st)\<lparr>ld_rows :=
      map (\<lambda>r. if lv_id r \<in> lv_id ` set ls then advanced c r else r) (ld_rows (ss_db st))\<rparr>\<rparr>)"
  using assms
proof (induction ls arbitrary: st)
  case (Cons s ls)
  let ?rows = "map (\<lambda>r. if lv_id r = lv_id s then advanced c r else r) (ld_rows (ss_db st))"
  let ?st = "st\<lparr>ss_db := (ss_db st)\<lparr>ld_rows := ?rows\<rparr>\<rparr>"
  have one: "advance_signal c st s = Inr ?st" using advance_one [of st s] Cons.prems by simp
  have ids: "map lv_id (ld_rows (ss_db ?st)) = map lv_id (ld_rows (ss_db st))" by simp
  have sub: "set ls \<subseteq> set (ld_rows (ss_db ?st))"
  proof
    fix r assume "r \<in> set ls"
    with Cons.prems have "r \<in> set (ld_rows (ss_db st))" "lv_id r \<noteq> lv_id s" by (auto simp: image_iff)
    then show "r \<in> set (ld_rows (ss_db ?st))" by (auto simp: image_iff intro!: bexI [of _ r])
  qed
  have "rfold (advance_signal c) ?st ls = Inr (?st\<lparr>ss_db := (ss_db ?st)\<lparr>ld_rows :=
      map (\<lambda>r. if lv_id r \<in> lv_id ` set ls then advanced c r else r) ?rows\<rparr>\<rparr>)"
    using Cons.IH [OF _ sub] Cons.prems unfolding ids by simp
  moreover have "map (\<lambda>r. if lv_id r \<in> lv_id ` set ls then advanced c r else r) ?rows
      = map (\<lambda>r. if lv_id r \<in> lv_id ` set (s # ls) then advanced c r else r) (ld_rows (ss_db st))"
    using Cons.prems(3) by (auto simp: image_iff)
  ultimately show ?case using one by simp
qed simp


text \<open>Candles leave the history alone once it is appended.\<close>

definition same_candles :: "signal_state \<Rightarrow> signal_state \<Rightarrow> bool" where
  "same_candles st st' \<longleftrightarrow> ss_history st' = ss_history st
     \<and> map lv_candle_at (ld_rows (ss_db st')) = map lv_candle_at (ld_rows (ss_db st))"

lemma advance_signal_candles: "advance_signal c st s = Inr st' \<Longrightarrow> same_candles st st'"
  by (auto simp: advance_signal_def same_candles_def rbind_eq_Inr mark_holding_def update_last_price_def update_signal_def
      dest!: signal_close_eq split: signal_move.splits)

lemma advance_candles: "advance_open_signals env k c st = Inr st' \<Longrightarrow> same_candles st st'"
  unfolding advance_open_signals_def
  by (erule rfold_invariant [where P = "same_candles st", rotated 2])
    (auto dest: advance_signal_candles simp: same_candles_def)

lemma evaluate_cases:
  assumes "evaluate_signal env k t st = Inr (r, st')"
  obtains (quiet) "ss_history st' = ss_history st" "ss_db st' = ss_db st"
  | (stored) ctx d s where "st_evaluate (se_strategy env) (history_get (ss_history st) k) ctx (se_config env) = Inr d"
      "sd_candle_at d = t" "ss_history st' = ss_history st" "insert_new (ss_db st) (decided_signal env k d) = (Some s, ss_db st')"
proof (cases "se_generation env")
  case False
  with assms quiet show ?thesis by (simp add: evaluate_signal_def)
next
  case True
  with assms obtain ctx d where ev: "st_evaluate (se_strategy env) (history_get (ss_history st) k) ctx (se_config env) = Inr d"
    and sd: "store_decision env k t d st = (r, st')"
    by (auto simp: evaluate_signal_def rbind_eq_Inr mk_signal_decision_def split: if_splits)
  obtain x db where ins: "insert_new (ss_db st) (decided_signal env k d) = (x, db)" by fastforce
  show ?thesis
  proof (cases "sd_decision d \<noteq> BUY \<or> sd_candle_at d \<noteq> t \<or> x = None")
    case True
    with sd ins quiet show ?thesis by (auto simp: store_decision_def Let_def split: if_splits)
  next
    case False
    with sd ins stored [OF ev] show ?thesis by (auto simp: store_decision_def Let_def)
  qed
qed

lemma process_stamp_parts:
  assumes "process_stamp env k cs t = Inr (r, st')"
  obtains c st1 r2 st2 where "advance_open_signals env k c (snd cs) = Inr st1"
    and "evaluate_signal env k t st1 = Inr (r2, st2)" and "ss_history st' = ss_history st2" and "ss_db st' = ss_db st2"
  using assms by (auto simp: process_stamp_def Let_def rbind_eq_Inr split: prod.splits option.splits)

lemma process_stamp_history:
  assumes "process_stamp env k cs t = Inr (r, st')"
  shows "ss_history st' = ss_history (snd cs)"
proof -
  obtain c st1 r2 st2 where p: "advance_open_signals env k c (snd cs) = Inr st1"
    "evaluate_signal env k t st1 = Inr (r2, st2)" "ss_history st' = ss_history st2" using process_stamp_parts [OF assms] .
  have "ss_history st2 = ss_history st1" using p(2) by (cases rule: evaluate_cases)
  with p advance_candles [OF p(1)] show ?thesis by (simp add: same_candles_def)
qed

lemma process_stamps_history:
  "rfold (process_stamp env k) cs ts = Inr (r, st') \<Longrightarrow> ss_history st' = ss_history (snd cs)"
proof (induction ts arbitrary: cs)
  case (Cons t ts)
  then obtain cs' where "process_stamp env k cs t = Inr cs'" "rfold (process_stamp env k) cs' ts = Inr (r, st')"
    by (auto simp: rbind_eq_Inr)
  with Cons.IH [of cs'] process_stamp_history [of env k cs t "fst cs'" "snd cs'"] show ?case by simp
qed auto

text \<open>
  Replays are harmless: once a frame of candles was processed, processing it again creates no
  signal, evaluates nothing and changes nothing, whatever the strategy.
\<close>

theorem reprocessing_is_noop:
  assumes "history_ok (ss_history st)" and "process_completed_candle env k frame st = Inr (r, st')"
  shows "process_completed_candle env k frame st' = Inr (None, st')"
proof -
  from assms(2) obtain ts h where app: "history_append (ss_history st) k frame = Inr (ts, h)"
    and fold: "rfold (process_stamp env k) (None, st\<lparr>ss_history := h\<rparr>) ts = Inr (r, st')"
    by (auto simp: process_completed_candle_def rbind_eq_Inr)
  have "ss_history st' = h" using process_stamps_history [OF fold] by simp
  moreover have "history_append h k frame = Inr ([], h)" using append_idempotent [OF assms(1) app] .
  ultimately show ?thesis by (simp add: process_completed_candle_def)
qed

definition new_candles :: "nat \<Rightarrow> candle_history \<Rightarrow> timestamp \<Rightarrow> signal_state \<Rightarrow> bool" where
  "new_candles n h t st \<longleftrightarrow> ss_history st = h \<and> n \<le> length (ld_rows (ss_db st))
     \<and> set (drop n (map lv_candle_at (ld_rows (ss_db st)))) \<subseteq> {t}"

lemma process_stamp_new:
  assumes strat: "\<And>data ctx cfg d. st_evaluate (se_strategy env) data ctx cfg = Inr d \<Longrightarrow> data \<noteq> [] \<Longrightarrow> sd_candle_at d = ca_at (last data)"
    and new: "new_candles n h t (snd cs)" and eq: "process_stamp env k cs t' = Inr (r, st')"
    and last: "history_get h k \<noteq> []" "ca_at (last (history_get h k)) = t"
  shows "new_candles n h t st'"
proof -
  obtain c st1 r2 st2 where adv: "advance_open_signals env k c (snd cs) = Inr st1"
    and ev: "evaluate_signal env k t' st1 = Inr (r2, st2)" and st': "ss_history st' = ss_history st2" "ss_db st' = ss_db st2"
    using process_stamp_parts [OF eq] .
  have rows: "map lv_candle_at (ld_rows (ss_db st1)) = map lv_candle_at (ld_rows (ss_db (snd cs)))" and h: "ss_history st1 = h"
    using advance_candles [OF adv] new by (auto simp: same_candles_def new_candles_def)
  have new1: "new_candles n h t st1" using new h rows map_eq_imp_length_eq [OF rows] by (simp add: new_candles_def)
  from ev have "new_candles n h t st2"
  proof (cases rule: evaluate_cases)
    case (stored ctx d s)
    have "sd_candle_at d = t" using strat [OF stored(1)] last h by simp
    with insert_new_eq [OF stored(4)] have "lv_candle_at s = t" "ld_rows (ss_db st2) = ld_rows (ss_db st1) @ [s]"
      by (auto simp: decided_signal_def)
    with new1 stored(3) show ?thesis by (auto simp: new_candles_def)
  qed (use new1 in \<open>simp add: new_candles_def\<close>)
  with st' show ?thesis by (simp add: new_candles_def)
qed


section \<open>Recovery\<close>

lemma completed_rows: "completed p frame now = Inr (columns, rows) \<Longrightarrow> r \<in> set rows \<Longrightarrow> closes_at p (rc_at r) \<le> now"
  by (auto simp: completed_def Let_def split: prod.splits if_splits)

lemma normalised_rows:
  assumes "normalised (columns, rows) = Inr data" and "c \<in> set data"
  shows "\<exists>r \<in> set rows. rc_at r = ca_at c"
proof -
  have "c \<in> set (List.map_filter numeric_candle rows)"
    using assms keep_last_subset by (fastforce simp: normalised_def Let_def map_filter_def split: if_splits)
  then obtain r where "r \<in> set rows" "numeric_candle r = Some c" by (auto simp: List.map_filter_def)
  then show ?thesis by (auto simp: numeric_candle_def split: option.splits)
qed

lemma seed_completed:
  assumes "completed p frame now = Inr data" and "history_seed h k data = Inr h'" and "c \<in> set (history_get h' i)"
    and "\<And>i c. c \<in> set (history_get h i) \<Longrightarrow> closes_at p (ca_at c) \<le> now"
  shows "closes_at p (ca_at c) \<le> now"
proof -
  obtain columns rows where d: "data = (columns, rows)" by fastforce
  from assms(2) obtain cs where cs: "normalised data = Inr cs"
    "h' = h\<lparr>ch_frames := AList.update k (tail_bars (ch_maximum h) cs) (ch_frames h)\<rparr>"
    by (auto simp: history_seed_def rbind_eq_Inr)
  show ?thesis
  proof (cases "i = k")
    case True
    with assms(3) cs(2) have "c \<in> set cs" using tail_bars_simps(2) by fastforce
    from normalised_rows [OF cs(1) [unfolded d] this] completed_rows [OF assms(1) [unfolded d]] show ?thesis by metis
  qed (use assms(3,4) cs(2) in auto)
qed

text \<open>
  Recovery admits completed candles only. Rebuilding the histories of a fresh engine, with any
  candle source, answers for every symbol either a seeded history or a recorded failure, never
  raises, leaves the stored signals alone, and every candle it lets in had closed by that time: by
  its interval, or for daily bars of an exchange by the session close of its day.
\<close>

theorem recovery_admits_completed_only:
  assumes "history_ok (ss_history st)" and "ch_frames (ss_history st) = []"
    and "rebuild_histories env source p symbols now days st = (rv, st')"
  shows "history_ok (ss_history st') \<and> rv_seeded rv + length (rv_failed rv) = length symbols \<and> ss_db st' = ss_db st
    \<and> (\<forall>k. \<forall>c \<in> set (history_get (ss_history st') k). closes_at p (ca_at c) \<le> now)"
proof -
  define Q where "Q acc n \<longleftrightarrow> (case acc of (h, seeded, failed) \<Rightarrow> history_ok h \<and> seeded + length failed = n
     \<and> (\<forall>k. \<forall>c \<in> set (history_get h k). closes_at p (ca_at c) \<le> now))" for acc :: "candle_history \<times> nat \<times> (string \<times> py_error) list" and n :: nat
  have step: "Q (seed_symbol env source p now days acc k) (Suc n)" if "Q acc n" for acc n k
  proof -
    obtain h seeded failed where acc: "acc = (h, seeded, failed)" by (metis prod_cases3)
    show ?thesis
    proof (cases "rbind (source k (se_timeframe env) (now - days * DAY_US) now (int (ch_maximum h)))
        (\<lambda>frame. rbind (completed p frame now) (history_seed h k))")
      case (Inr h')
      then obtain frame data where f: "completed p frame now = Inr data" "history_seed h k data = Inr h'"
        by (auto simp: rbind_eq_Inr)
      have "closes_at p (ca_at c) \<le> now" if "c \<in> set (history_get h' i)" for c i
        using seed_completed [OF f that] \<open>Q acc n\<close> by (auto simp: Q_def acc)
      with Inr that seed_ok [OF _ f(2)] show ?thesis by (simp add: Q_def acc seed_symbol_def)
    qed (use that in \<open>simp add: Q_def acc seed_symbol_def\<close>)
  qed
  have "Q (foldl (seed_symbol env source p now days) acc ks) (n + length ks)" if "Q acc n" for acc ks n
    using that
  proof (induction ks arbitrary: acc n)
    case (Cons k ks)
    show ?case using Cons.IH [OF step [OF Cons.prems]] by simp
  qed simp
  from this [of "(ss_history st, 0, [])" 0 symbols] assms(1,2)
  have "Q (foldl (seed_symbol env source p now days) (ss_history st, 0, []) symbols) (length symbols)"
    by (simp add: Q_def history_get_def)
  with assms(3) show ?thesis
    by (cases "foldl (seed_symbol env source p now days) (ss_history st, 0, []) symbols")
      (auto simp: rebuild_histories_def Let_def Q_def)
qed

section \<open>Examples\<close>

definition buy_strategy :: strategy where
  "buy_strategy = \<lparr>st_ref = 0, st_id = ''b'', st_name = ''b'', st_version = ''1'', st_markets = [''NSE''], st_timeframes = [''5m''],
     st_schema = [], st_required_history = (\<lambda>_. Inr 1), st_validate_config = (\<lambda>_. Inr ()),
     st_evaluate = (\<lambda>data ctx cfg. if data = [] then Inl (ValueError ''no data'')
       else Inr \<lparr>sd_decision = BUY, sd_strategy_id = ''b'', sd_strategy_version = ''1'', sd_market = ''NSE'', sd_symbol = mc_symbol ctx,
         sd_timeframe = ''5m'', sd_candle_at = ca_at (last data), sd_signal_price = Some (ca_close (last data)),
         sd_target_price = Some 3, sd_stop_price = None, sd_reasons = [], sd_rsi = None, sd_snapshot = []\<rparr>),
     st_vectorised = None\<rparr>"

definition buy_env :: signal_env where
  "buy_env = \<lparr>se_market = NSE_SPEC, se_strategy = buy_strategy, se_config = [],
     se_risk = \<lparr>rk_stop_loss_pct = None, rk_maximum_holding_bars = None\<rparr>, se_timeframe = ''5m'', se_bar_minutes = 5, se_generation = True\<rparr>"

definition idle_state :: signal_state where
  "idle_state = \<lparr>ss_history = \<lparr>ch_maximum = 51, ch_frames = []\<rparr>, ss_db = \<lparr>ld_rows = [], ld_next = 0\<rparr>, ss_published = [],
     ss_last_completed = None, ss_last_decision = None, ss_evaluations = 0, ss_created = 0, ss_duplicates = 0\<rparr>"

definition frame_at :: "timestamp list \<Rightarrow> candle_frame" where
  "frame_at ts = (CANDLE_COLUMNS, map (\<lambda>t. \<lparr>rc_at = t, rc_open = Some 1, rc_high = Some 2, rc_low = Some 1, rc_close = Some 2,
     rc_volume = Some 10, rc_complete = True\<rparr>) ts)"

definition candle_at :: "timestamp \<Rightarrow> candle" where
  "candle_at t = \<lparr>ca_at = t, ca_open = 1, ca_high = 2, ca_low = 1, ca_close = 2, ca_volume = 10\<rparr>"

lemma idle_facts: "history_ok (ss_history idle_state)" "signals_ok (ss_db idle_state)" "ss_published idle_state = []" "ss_created idle_state = 0"
  by (simp_all add: idle_state_def history_ok_def signals_ok_def)

lemma buy_last: "st_evaluate (se_strategy buy_env) data ctx cfg = Inr d \<Longrightarrow> data \<noteq> [] \<Longrightarrow> sd_candle_at d = ca_at (last data)"
  by (auto simp: buy_env_def buy_strategy_def)

lemma buy_batch:
  "history_append (ss_history idle_state) ''A'' (frame_at [1, 2]) = Inr ([1, 2], \<lparr>ch_maximum = 51, ch_frames = [(''A'', [candle_at 1, candle_at 2])]\<rparr>)"
  by (simp add: history_append_def normalised_def frame_at_def numeric_candle_def CANDLE_COLUMNS_def List.map_filter_def
      idle_state_def tail_bars_def candle_at_def)

lemmas engine_defs = process_stamp_def advance_open_signals_def open_signals_def evaluate_signal_def store_decision_def
  insert_new_def signal_conflicts_def decided_signal_def decision_stop_def decision_expires_def mk_market_context_def
  mk_signal_decision_def history_get_def buy_env_def buy_strategy_def NSE_SPEC_def Let_def

lemma buy_processed:
  "\<exists>r st. process_completed_candle buy_env ''A'' (frame_at [1, 2]) idle_state = Inr (r, st) \<and> map lv_candle_at (ld_rows (ss_db st)) = [2]"
proof -
  have "py_strip ''A'' \<noteq> []" by code_simp
  then show ?thesis
    unfolding process_completed_candle_def buy_batch
    by (simp add: engine_defs idle_state_def candle_at_def)
qed

lemma buy_one_by_one:
  "\<exists>r st r' st'. process_completed_candle buy_env ''A'' (frame_at [1]) idle_state = Inr (r, st)
    \<and> process_completed_candle buy_env ''A'' (frame_at [2]) st = Inr (r', st') \<and> map lv_candle_at (ld_rows (ss_db st')) = [1, 2]"
proof -
  have "py_strip ''A'' \<noteq> []" by code_simp
  then show ?thesis
    by (simp add: process_completed_candle_def history_append_def normalised_def frame_at_def numeric_candle_def CANDLE_COLUMNS_def
        List.map_filter_def idle_state_def tail_bars_def engine_defs last_stamp_def signal_open_def filter_on_def
        advance_signal_def signal_action_def mark_holding_def update_signal_def signal_key_def)
qed


definition held_signal :: live_signal where
  "held_signal = \<lparr>lv_id = ''0'', lv_market = NSE, lv_strategy = ''b'', lv_version = ''1'', lv_symbol = ''A'', lv_timeframe = ''5m'',
     lv_candle_at = 1, lv_type = ''BUY'', lv_status = SigHolding, lv_price = 1, lv_target = Some 2, lv_stop = None, lv_expires = None,
     lv_reasons = [], lv_indicator = None, lv_snapshot = [], lv_source = ''OPENDELTA'', lv_external = None, lv_received_at = None,
     lv_last_price = Some 1, lv_exit_at = None, lv_exit_price = None\<rparr>"


theorem reprocessing_is_noop_witness:
  "\<exists>r st. process_completed_candle buy_env ''A'' (frame_at [1, 2]) idle_state = Inr (r, st)
    \<and> process_completed_candle buy_env ''A'' (frame_at [1, 2]) st = Inr (None, st)"
proof -
  obtain r st where p: "process_completed_candle buy_env ''A'' (frame_at [1, 2]) idle_state = Inr (r, st)" using buy_processed by blast
  from reprocessing_is_noop [OF idle_facts(1) p] p show ?thesis by blast
qed


theorem recovery_admits_completed_only_witness:
  "\<exists>rv st'. rebuild_histories buy_env (\<lambda>_ _ _ _ _. Inr (frame_at [0, 600000000]))
      \<lparr>cp_market = NSE, cp_bar_minutes = 5, cp_daily_close = None\<rparr> [''A''] 700000000 3 idle_state = (rv, st')
    \<and> rv_seeded rv + length (rv_failed rv) = 1
    \<and> (\<forall>c \<in> set (history_get (ss_history st') ''A''). ca_at c + 5 * MINUTE_US \<le> 700000000)"
proof -
  obtain rv st' where r: "rebuild_histories buy_env (\<lambda>_ _ _ _ _. Inr (frame_at [0, 600000000]))
      \<lparr>cp_market = NSE, cp_bar_minutes = 5, cp_daily_close = None\<rparr> [''A''] 700000000 3 idle_state = (rv, st')" by fastforce
  have "ch_frames (ss_history idle_state) = []" by (simp add: idle_state_def)
  from recovery_admits_completed_only [OF idle_facts(1) this r] r show ?thesis by (auto simp: closes_at_def)
qed

end
