(* ===== verification/Signal_Worker.thy ===== *)
theory Signal_Worker
  imports Signal_Properties
begin

text \<open>
  The worker of one market, \<open>backend/signals/workers.py\<close>: when a poll is due, a poll over all symbols,
  the five-minute feed that tracks open positions, and the loop around them with its backoff. The
  candle source, the symbols to track and the listeners are parameters. A listener gets the state of the signals and returns
  the state it leaves, since what it raises is caught; the calls are kept in logs.
\<close>

section \<open>State\<close>

datatype stage_status =
  StageIdle | StageWaiting | StageRunning | StageEmpty | StageFailed | StagePartial | StageComplete
  | StageGenerated | StageNoSignal | StageNoNewCandle | StagePending | StageNotRequired | StageMarketClosed | StagePaused

record worker_cycle =
  wc_status :: stage_status
  wc_started :: "timestamp option"
  wc_completed :: "timestamp option"
  wc_next_check :: "timestamp option"
  wc_requested :: nat
  wc_downloaded :: nat
  wc_evaluated :: nat
  wc_created :: nat
  wc_failures :: nat
  wc_last_signal :: "live_signal option"
  wc_data :: stage_status
  wc_signal :: stage_status
  wc_paper :: stage_status

type_synonym candle_listener = "string \<Rightarrow> raw_candle \<Rightarrow> signal_state \<Rightarrow> signal_state"

record worker_env =
  we_engine :: signal_env
  we_source :: candle_source
  we_processor :: candle_processor
  we_market_processor :: candle_processor
  we_poll_us :: int
  we_closed_poll_us :: int
  we_maximum_backoff_us :: int
  we_lookback_days :: int
  we_listeners :: "candle_listener list"
  we_market_listeners :: "candle_listener list"
  we_tracks :: bool

datatype worker_status = WStopped | WStandby | WRecovered | WReady | WMarketClosed | WError

record worker =
  wk_signals :: signal_state
  wk_symbols :: "string list"
  wk_last_daily :: "day option"
  wk_last_market :: "(string \<times> timestamp) list"
  wk_delivered :: "(string \<times> timestamp) list"
  wk_forwarded :: "(string \<times> timestamp) list"
  wk_polls :: nat
  wk_status :: worker_status
  wk_consecutive_failures :: nat
  wk_cycle :: worker_cycle
  wk_last_signal :: "live_signal option"

definition idle_cycle :: worker_cycle where
  "idle_cycle = \<lparr>wc_status = StageIdle, wc_started = None, wc_completed = None, wc_next_check = None, wc_requested = 0,
     wc_downloaded = 0, wc_evaluated = 0, wc_created = 0, wc_failures = 0, wc_last_signal = None,
     wc_data = StageWaiting, wc_signal = StageWaiting, wc_paper = StageWaiting\<rparr>"

definition new_worker :: "signal_state \<Rightarrow> worker" where
  "new_worker st = \<lparr>wk_signals = st, wk_symbols = [], wk_last_daily = None, wk_last_market = [], wk_delivered = [],
     wk_forwarded = [], wk_polls = 0, wk_status = WStopped, wk_consecutive_failures = 0, wk_cycle = idle_cycle, wk_last_signal = None\<rparr>"

text \<open>The constructor, and how consumers subscribe.\<close>

definition signal_worker :: "signal_env \<Rightarrow> candle_source \<Rightarrow> int \<Rightarrow> int \<Rightarrow> int \<Rightarrow> int \<Rightarrow> worker_env res" where
  "signal_worker engine source poll_us closed_poll_us maximum_backoff_us lookback_days =
     (let spec = se_market engine in
      rbind (spec_minutes spec (se_timeframe engine)) (\<lambda>minutes.
      rbind (spec_minutes spec ''5m'') (\<lambda>five.
        Inr \<lparr>we_engine = engine, we_source = source,
             we_processor = \<lparr>cp_market = ms_market spec, cp_bar_minutes = minutes,
               cp_daily_close = (if se_timeframe engine = ''1d'' then ms_daily_session_close spec else None)\<rparr>,
             we_market_processor = \<lparr>cp_market = ms_market spec, cp_bar_minutes = five, cp_daily_close = None\<rparr>,
             we_poll_us = poll_us, we_closed_poll_us = closed_poll_us, we_maximum_backoff_us = maximum_backoff_us,
             we_lookback_days = lookback_days, we_listeners = [], we_market_listeners = [], we_tracks = False\<rparr>)))"

definition add_candle_listener :: "candle_listener \<Rightarrow> worker_env \<Rightarrow> worker_env" where
  "add_candle_listener l env = env\<lparr>we_listeners := we_listeners env @ [l]\<rparr>"

definition configure_market_tracking :: "candle_listener \<Rightarrow> worker_env \<Rightarrow> worker_env" where
  "configure_market_tracking l env = env\<lparr>we_tracks := True, we_market_listeners := we_market_listeners env @ [l]\<rparr>"

text \<open>\<open>_set_state\<close>: the counters of failures; persisting the status never raises.\<close>

definition set_state :: "worker_status \<Rightarrow> bool \<Rightarrow> bool \<Rightarrow> worker \<Rightarrow> worker" where
  "set_state status failure reset w =
     w\<lparr>wk_status := status,
       wk_consecutive_failures := (if reset then 0 else wk_consecutive_failures w + (if failure then 1 else 0))\<rparr>"

definition clean_symbols :: "string list \<Rightarrow> string list" where
  "clean_symbols symbols = fromkeys (map (\<lambda>s. py_upper (py_strip s)) (filter (\<lambda>s. py_strip s \<noteq> []) symbols))"

definition refresh_universe :: "string list \<Rightarrow> worker \<Rightarrow> worker" where
  "refresh_universe universe w = w\<lparr>wk_symbols := clean_symbols universe\<rparr>"

text \<open>Reading the universe may raise; recovering a symbol does not.\<close>

definition recover :: "worker_env \<Rightarrow> timestamp \<Rightarrow> string list res \<Rightarrow> worker \<Rightarrow> (recovery \<times> worker) res" where
  "recover env now universe w =
     rbind universe (\<lambda>listed.
       let w1 = refresh_universe listed w;
           (summary, st) = rebuild_histories (we_engine env) (we_source env) (we_processor env) (wk_symbols w1) now (we_lookback_days env) (wk_signals w1)
       in Inr (summary, set_state WRecovered False False (w1\<lparr>wk_signals := st\<rparr>)))"

section \<open>When a poll is due\<close>

definition NSE_CLOSE_SETTLEMENT_GRACE :: int where "NSE_CLOSE_SETTLEMENT_GRACE = 15 * MINUTE_US"

definition poll_is_due :: "worker_env \<Rightarrow> day option \<Rightarrow> timestamp \<Rightarrow> bool" where
  "poll_is_due env last_daily moment =
     (let spec = se_market (we_engine env); m = ms_market spec; date = local_date m moment; time = local_time m moment in
      case ms_daily_session_close spec of
        None \<Rightarrow> ms_session_is_open spec moment
      | Some close \<Rightarrow>
          if se_timeframe (we_engine env) \<noteq> ''1d''
          then ms_session_is_open spec moment
               \<or> (\<not> 5 \<le> weekday date \<and> close < time \<and> time \<le> close + NSE_CLOSE_SETTLEMENT_GRACE)
          else \<not> (5 \<le> weekday date \<or> time < close) \<and> last_daily \<noteq> Some date)"

section \<open>Polling\<close>

definition begin_cycle :: "timestamp \<Rightarrow> nat \<Rightarrow> worker \<Rightarrow> worker" where
  "begin_cycle now requested w =
     w\<lparr>wk_cycle := \<lparr>wc_status = StageRunning, wc_started = Some now, wc_completed = None, wc_next_check = None, wc_requested = requested,
        wc_downloaded = 0, wc_evaluated = 0, wc_created = 0, wc_failures = 0, wc_last_signal = None,
        wc_data = StageRunning, wc_signal = StageWaiting, wc_paper = StageWaiting\<rparr>\<rparr>"

record poll_tally =
  pt_created :: nat
  pt_downloaded :: nat
  pt_evaluated :: nat
  pt_latest :: "live_signal option"
  pt_failures :: "(string \<times> py_error) list"

definition finish_cycle :: "worker_env \<Rightarrow> timestamp \<Rightarrow> nat \<Rightarrow> poll_tally \<Rightarrow> worker \<Rightarrow> worker" where
  "finish_cycle env now requested t w =
     (let data = (if requested = 0 then StageEmpty else if pt_downloaded t = 0 then StageFailed
                  else if pt_failures t \<noteq> [] then StagePartial else StageComplete)
      in w\<lparr>wk_cycle := (wk_cycle w)\<lparr>wc_status := (if data = StageFailed then StageFailed else StageComplete),
              wc_completed := Some now, wc_next_check := Some (now + we_poll_us env), wc_requested := requested,
              wc_downloaded := pt_downloaded t, wc_evaluated := pt_evaluated t, wc_created := pt_created t,
              wc_failures := length (pt_failures t), wc_last_signal := pt_latest t, wc_data := data,
              wc_signal := (if pt_created t \<noteq> 0 then StageGenerated else if pt_evaluated t \<noteq> 0 then StageNoSignal else StageNoNewCandle),
              wc_paper := (if pt_created t \<noteq> 0 then StagePending else StageNotRequired)\<rparr>,
            wk_last_signal := (case pt_latest t of None \<Rightarrow> wk_last_signal w | Some s \<Rightarrow> Some s)\<rparr>)"

definition call_listeners :: "candle_listener list \<Rightarrow> string \<Rightarrow> raw_candle \<Rightarrow> signal_state \<Rightarrow> signal_state" where
  "call_listeners listeners symbol row st = foldl (\<lambda>s listener. listener symbol row s) st listeners"

definition deliver :: "worker_env \<Rightarrow> string \<Rightarrow> worker \<Rightarrow> raw_candle \<Rightarrow> worker" where
  "deliver env symbol w row =
     w\<lparr>wk_signals := call_listeners (we_listeners env) symbol row (wk_signals w), wk_delivered := wk_delivered w @ [(symbol, rc_at row)]\<rparr>"

text \<open>Rows of a frame that are newer than a stamp.\<close>

definition rows_after :: "timestamp option \<Rightarrow> raw_candle list \<Rightarrow> raw_candle list" where
  "rows_after before rows = (case before of None \<Rightarrow> rows | Some t \<Rightarrow> filter (\<lambda>r. rc_at r > t) rows)"

text \<open>One symbol of a poll. What raises is recorded; the engine keeps the state it had reached.\<close>

definition poll_symbol :: "worker_env \<Rightarrow> timestamp \<Rightarrow> worker \<times> poll_tally \<Rightarrow> string \<Rightarrow> worker \<times> poll_tally" where
  "poll_symbol env now acc symbol =
     (let (w, t) = acc; st = wk_signals w; engine = we_engine env in
      case we_source env symbol (se_timeframe engine) (now - we_lookback_days env * DAY_US) now (int (ch_maximum (ss_history st))) of
        Inl e \<Rightarrow> (w, t\<lparr>pt_failures := pt_failures t @ [(symbol, e)]\<rparr>)
      | Inr frame \<Rightarrow>
          (let t1 = t\<lparr>pt_downloaded := pt_downloaded t + 1\<rparr> in
           case completed (we_processor env) frame now of
             Inl e \<Rightarrow> (w, t1\<lparr>pt_failures := pt_failures t1 @ [(symbol, e)]\<rparr>)
           | Inr done \<Rightarrow>
               (let before = latest_timestamp (ss_history st) symbol in
                case process_completed_candle engine symbol done st of
                  Inl (e, st') \<Rightarrow> (w\<lparr>wk_signals := st'\<rparr>, t1\<lparr>pt_failures := pt_failures t1 @ [(symbol, e)]\<rparr>)
                | Inr (stored, st') \<Rightarrow>
                    (let t2 = t1\<lparr>pt_evaluated := pt_evaluated t1 + (ss_evaluations st' - ss_evaluations st)\<rparr>;
                         t3 = (case stored of None \<Rightarrow> t2 | Some s \<Rightarrow> t2\<lparr>pt_created := pt_created t2 + 1, pt_latest := Some s\<rparr>);
                         w1 = w\<lparr>wk_signals := st'\<rparr>
                     in (if we_listeners env = [] then w1 else foldl (deliver env symbol) w1 (rows_after before (snd done)), t3)))))"

text \<open>\<open>stop n\<close> says whether the stop event is set before the \<open>n\<close>-th symbol; \<open>later\<close> is the clock at the end.\<close>

fun poll_symbols :: "worker_env \<Rightarrow> timestamp \<Rightarrow> (nat \<Rightarrow> bool) \<Rightarrow> nat \<Rightarrow> worker \<times> poll_tally \<Rightarrow> string list \<Rightarrow> worker \<times> poll_tally" where
  "poll_symbols env now stop n acc [] = acc"
| "poll_symbols env now stop n acc (symbol # rest) =
     (if stop n then acc else poll_symbols env now stop (n + 1) (poll_symbol env now acc symbol) rest)"

definition poll_once :: "worker_env \<Rightarrow> timestamp \<Rightarrow> timestamp \<Rightarrow> (nat \<Rightarrow> bool) \<Rightarrow> worker \<Rightarrow> nat res \<times> worker" where
  "poll_once env now later stop w =
     (let symbols = wk_symbols w;
          (w1, t) = poll_symbols env now stop 0 (begin_cycle now (length symbols) w,
            \<lparr>pt_created = 0, pt_downloaded = 0, pt_evaluated = 0, pt_latest = None, pt_failures = []\<rparr>) symbols;
          w2 = finish_cycle env later (length symbols) t (w1\<lparr>wk_polls := wk_polls w1 + 1\<rparr>)
      in (if pt_failures t \<noteq> [] \<and> length (pt_failures t) = length symbols then Inl (RuntimeError ''every symbol failed'') else Inr (pt_created t), w2))"

section \<open>Tracking\<close>

definition forward :: "worker_env \<Rightarrow> string \<Rightarrow> worker \<times> nat \<Rightarrow> raw_candle \<Rightarrow> worker \<times> nat" where
  "forward env symbol acc row =
     (let (w, n) = acc
      in (w\<lparr>wk_signals := call_listeners (we_market_listeners env) symbol row (wk_signals w),
            wk_forwarded := wk_forwarded w @ [(symbol, rc_at row)],
            wk_last_market := AList.update symbol (rc_at row) (wk_last_market w)\<rparr>, n + 1))"

definition session_start :: "worker_env \<Rightarrow> timestamp \<Rightarrow> timestamp" where
  "session_start env now =
     (let m = ms_market (se_market (we_engine env)) in local_date m now * DAY_US - zone_offset_us m)"

definition market_cutoff :: "worker_env \<Rightarrow> timestamp \<Rightarrow> worker \<Rightarrow> string \<Rightarrow> timestamp" where
  "market_cutoff env now w symbol = (case map_of (wk_last_market w) symbol of None \<Rightarrow> session_start env now - 1 | Some t \<Rightarrow> t)"

definition track_symbol ::
  "worker_env \<Rightarrow> timestamp \<Rightarrow> worker \<times> nat \<times> (string \<times> py_error) list \<Rightarrow> string \<Rightarrow> worker \<times> nat \<times> (string \<times> py_error) list" where
  "track_symbol env now acc symbol =
     (let (w, n, failed) = acc in
      case rbind (we_source env symbol ''5m'' (session_start env now) now 0) (\<lambda>frame. completed (we_market_processor env) frame now) of
        Inl e \<Rightarrow> (w, n, failed @ [(symbol, e)])
      | Inr (_, rows) \<Rightarrow>
          let (w', n') = foldl (forward env symbol) (w, n) (rows_after (Some (market_cutoff env now w symbol)) rows) in (w', n', failed))"

fun track_symbols ::
  "worker_env \<Rightarrow> timestamp \<Rightarrow> (nat \<Rightarrow> bool) \<Rightarrow> nat \<Rightarrow> worker \<times> nat \<times> (string \<times> py_error) list \<Rightarrow> string list
    \<Rightarrow> worker \<times> nat \<times> (string \<times> py_error) list" where
  "track_symbols env now stop n acc [] = acc"
| "track_symbols env now stop n acc (symbol # rest) =
     (if stop n then acc else track_symbols env now stop (n + 1) (track_symbol env now acc symbol) rest)"

definition poll_market_once :: "worker_env \<Rightarrow> timestamp \<Rightarrow> (nat \<Rightarrow> bool) \<Rightarrow> string list \<Rightarrow> worker \<Rightarrow> nat res \<times> worker" where
  "poll_market_once env now stop tracked w =
     (if \<not> we_tracks env \<or> we_market_listeners env = [] then (Inr 0, w)
      else let symbols = clean_symbols tracked; (w', n, failed) = track_symbols env now stop 0 (w, 0, []) symbols
           in (if failed \<noteq> [] \<and> length failed = length symbols then Inl (RuntimeError ''every tracked symbol failed'') else Inr n, w'))"

section \<open>The loop\<close>

definition pause_cycle :: "worker_env \<Rightarrow> timestamp \<Rightarrow> worker \<Rightarrow> worker" where
  "pause_cycle env now w =
     w\<lparr>wk_cycle := (wk_cycle w)\<lparr>wc_status := StageMarketClosed, wc_next_check := Some (now + we_closed_poll_us env),
        wc_data := StageMarketClosed, wc_signal := StagePaused, wc_paper := StagePaused\<rparr>\<rparr>"

definition fail_cycle :: "timestamp \<Rightarrow> int \<Rightarrow> worker \<Rightarrow> worker" where
  "fail_cycle now retry w =
     w\<lparr>wk_cycle := (wk_cycle w)\<lparr>wc_status := StageFailed, wc_completed := Some now, wc_next_check := Some (now + retry), wc_data := StageFailed\<rparr>\<rparr>"

definition longer_backoff :: "worker_env \<Rightarrow> int \<Rightarrow> int" where
  "longer_backoff env backoff = min (backoff * 2) (we_maximum_backoff_us env)"

text \<open>
  What a round reads from outside: the clock at its start, in its polls and after them, the stop
  event and the symbols to track.
\<close>

record round_input =
  ri_now :: timestamp
  ri_track_now :: timestamp
  ri_poll_now :: timestamp
  ri_later :: timestamp
  ri_failed :: timestamp
  ri_stop :: "nat \<Rightarrow> bool"
  ri_tracked :: "string list"

text \<open>One round of \<open>_run_owned\<close>: the worker, the next backoff and how long it waits.\<close>

definition idle_round :: "worker_env \<Rightarrow> round_input \<Rightarrow> worker \<times> int \<Rightarrow> worker \<times> int \<times> int" where
  "idle_round env i wb =
     (let (w, backoff) = wb; now = ri_now i in
      if we_market_listeners env \<noteq> [] \<and> ms_session_is_open (se_market (we_engine env)) now
      then case poll_market_once env (ri_track_now i) (ri_stop i) (ri_tracked i) w of
             (Inr _, w') \<Rightarrow> (set_state WReady False True w', we_poll_us env, we_closed_poll_us env)
           | (Inl _, w') \<Rightarrow> (set_state WError True False w', longer_backoff env backoff, we_closed_poll_us env)
      else (set_state WMarketClosed False False (pause_cycle env now w), backoff, we_closed_poll_us env))"

text \<open>The polls of a due round: at the daily close the last five-minute bars come before the evaluation.\<close>

definition due_polls :: "worker_env \<Rightarrow> round_input \<Rightarrow> worker \<Rightarrow> nat res \<times> worker" where
  "due_polls env i w =
     (let (tracked, w1) = (if se_timeframe (we_engine env) = ''1d'' \<and> we_market_listeners env \<noteq> []
        then poll_market_once env (ri_track_now i) (ri_stop i) (ri_tracked i) w else (Inr 0, w))
      in case tracked of Inl e \<Rightarrow> (Inl e, w1) | Inr _ \<Rightarrow> poll_once env (ri_poll_now i) (ri_later i) (ri_stop i) w1)"

definition mark_daily :: "worker_env \<Rightarrow> timestamp \<Rightarrow> worker \<Rightarrow> worker" where
  "mark_daily env now w =
     (if se_timeframe (we_engine env) = ''1d'' \<and> ms_daily_session_close (se_market (we_engine env)) \<noteq> None
      then w\<lparr>wk_last_daily := Some (local_date (ms_market (se_market (we_engine env))) now)\<rparr> else w)"

definition due_round :: "worker_env \<Rightarrow> round_input \<Rightarrow> worker \<times> int \<Rightarrow> worker \<times> int \<times> int" where
  "due_round env i wb =
     (case due_polls env i (fst wb) of
        (Inr _, w) \<Rightarrow> (set_state WReady False True (mark_daily env (ri_now i) w), we_poll_us env, we_poll_us env)
      | (Inl _, w) \<Rightarrow>
          (let backoff = longer_backoff env (snd wb)
           in (set_state WError True False (fail_cycle (ri_failed i) backoff w), backoff, backoff)))"

definition worker_round :: "worker_env \<Rightarrow> round_input \<Rightarrow> worker \<times> int \<Rightarrow> worker \<times> int \<times> int" where
  "worker_round env i wb =
     (if poll_is_due env (wk_last_daily (fst wb)) (ri_now i) then due_round env i wb else idle_round env i wb)"

fun run_rounds :: "worker_env \<Rightarrow> round_input list \<Rightarrow> worker \<times> int \<Rightarrow> worker \<times> int" where
  "run_rounds env [] wb = wb"
| "run_rounds env (i # is) wb = (let (w', backoff', _) = worker_round env i wb in run_rounds env is (w', backoff'))"

definition run_owned :: "worker_env \<Rightarrow> timestamp \<Rightarrow> string list res \<Rightarrow> round_input list \<Rightarrow> worker \<Rightarrow> worker \<times> int" where
  "run_owned env now universe inputs w =
     run_rounds env inputs (case recover env now universe w of Inr (_, w') \<Rightarrow> w' | Inl _ \<Rightarrow> set_state WError False False w, we_poll_us env)"

text \<open>One try of \<open>run\<close>: \<open>acquired\<close> are the leases it entered. It ends the loop only if it owned them all.\<close>

definition worker_run ::
  "worker_env \<Rightarrow> bool list \<Rightarrow> timestamp \<Rightarrow> string list res \<Rightarrow> round_input list \<Rightarrow> worker \<Rightarrow> bool \<times> worker" where
  "worker_run env acquired now universe inputs w =
     (if list_all id acquired then (True, fst (run_owned env now universe inputs w)) else (False, set_state WStandby False False w))"

definition worker_stop :: "worker \<Rightarrow> worker" where
  "worker_stop w = set_state WStopped False False w"

section \<open>Histories\<close>

text \<open>What a poll does to the history: it appends one frame, or nothing.\<close>

lemma advance_signal_history:
  "ss_history st = h \<Longrightarrow> ends (\<lambda>(_, st'). ss_history st' = h) (\<lambda>st'. ss_history st' = h) (advance_signal c st s)"
  by (auto simp: advance_signal_def with_signals_def split: signal_move.splits sum.splits)

lemma evaluate_history:
  "ss_history st = h \<Longrightarrow> ends (\<lambda>(_, st'). ss_history st' = h) (\<lambda>(_, st'). ss_history st' = h) (evaluate_signal env k t st)"
  by (auto simp: evaluate_signal_def with_signals_def store_decision_def Let_def intro!: ends_rbind split: sum.splits prod.splits option.splits)

lemma stamp_history:
  assumes "ss_history (snd cs) = h"
  shows "ends (\<lambda>(_, st'). ss_history st' = h) (\<lambda>(_, st'). ss_history st' = h) (process_stamp env k cs t)"
proof -
  obtain r st where cs: "cs = (r, st)" by fastforce
  have adv: "ends (\<lambda>(_, st'). ss_history st' = h) (\<lambda>st'. ss_history st' = h) (advance_open_signals env k c st)" for c
    unfolding advance_open_signals_def by (rule ends_rfold) (use assms cs advance_signal_history in auto)
  have ev: "ends (\<lambda>(_, st'). ss_history st' = h) (\<lambda>(_, st'). ss_history st' = h)
     (rbind (evaluate_signal env k t st1) (\<lambda>(new, st2). Inr (if new \<noteq> None then new else r, st2\<lparr>ss_last_completed := later_stamp (ss_last_completed st2) t\<rparr>)))"
    if "ss_history st1 = h" for st1
    by (rule ends_rbind, rule ends_mono [OF evaluate_history [OF that]]) auto
  show ?thesis
  proof (cases "List.find (\<lambda>c. ca_at c = t) (history_get (ss_history st) k)")
    case (Some c)
    have "ends (\<lambda>(_, st'). ss_history st' = h) (\<lambda>(_, st'). ss_history st' = h) (rbind (advance_open_signals env k c st)
      (\<lambda>st1. rbind (evaluate_signal env k t st1) (\<lambda>(new, st2). Inr (if new \<noteq> None then new else r, st2\<lparr>ss_last_completed := later_stamp (ss_last_completed st2) t\<rparr>))))"
      by (rule ends_rbind, rule ends_mono [OF adv]) (use ev in auto)
    with Some show ?thesis by (simp add: process_stamp_def cs)
  qed (use assms in \<open>simp add: process_stamp_def cs\<close>)
qed

lemma process_history:
  obtains (raised) e where "history_append (ss_history st) k frame = Inl e" "process_completed_candle env k frame st = Inl (e, st)"
  | (appended) stamps h where "history_append (ss_history st) k frame = Inr (stamps, h)"
      "ends (\<lambda>(_, st'). ss_history st' = h) (\<lambda>(_, st'). ss_history st' = h) (process_completed_candle env k frame st)"
proof (cases "history_append (ss_history st) k frame")
  case (Inl e)
  then show thesis by (intro raised) (simp_all add: process_completed_candle_def)
next
  case (Inr r)
  obtain stamps h where r: "r = (stamps, h)" by fastforce
  have "ends (\<lambda>(_, st'). ss_history st' = h) (\<lambda>(_, st'). ss_history st' = h) (rfold (process_stamp env k) (None, st\<lparr>ss_history := h\<rparr>) stamps)"
    using stamp_history by (intro ends_rfold) auto
  with Inr r show thesis by (intro appended) (simp_all add: process_completed_candle_def)
qed

definition latest_ge :: "candle_history \<Rightarrow> string \<Rightarrow> timestamp \<Rightarrow> bool" where
  "latest_ge h k t \<longleftrightarrow> (\<exists>l. latest_timestamp h k = Some l \<and> t \<le> l)"

lemma strict_sorted_last: "sorted_wrt (<) xs \<Longrightarrow> x \<in> set xs \<Longrightarrow> x \<le> last xs" for x :: "'a :: linorder"
  by (induction xs) (auto intro: less_imp_le)

lemma append_latest:
  assumes "history_ok h" and "history_append h k frame = Inr (stamps, h')"
  shows "latest_ge h i t \<Longrightarrow> latest_ge h' i t" and "t \<in> set stamps \<Longrightarrow> latest_ge h' k t"
proof -
  note e = append_effect [OF assms]
  show b: "latest_ge h' k t" if "t \<in> set stamps"
  proof -
    have "stamps \<noteq> []" using that by auto
    from append_last [OF assms this] have "latest_timestamp h' k = Some (last stamps)" by (simp add: latest_get last_stamp_def)
    moreover have "t \<le> last stamps" using e that strict_sorted_last by blast
    ultimately show ?thesis by (simp add: latest_ge_def)
  qed
  show "latest_ge h' i t" if "latest_ge h i t"
  proof (cases "i = k \<and> stamps \<noteq> []")
    case True
    from that obtain l where l: "latest_timestamp h i = Some l" "t \<le> l" by (auto simp: latest_ge_def)
    have "l < last stamps" using True e l(1) last_in_set [of stamps] by blast
    moreover have "latest_timestamp h' k = Some (last stamps)" using append_last [OF assms] True by (simp add: latest_get last_stamp_def)
    ultimately show ?thesis using True l by (auto simp: latest_ge_def)
  next
    case False
    have "history_get h' i = history_get h i"
    proof (cases "i = k")
      case True
      with False have "stamps = []" by simp
      with e obtain fresh where "map ca_at fresh = []" "history_get h' k = tail_bars (ch_maximum h) (history_get h k @ fresh)" by blast
      with history_ok_get [OF assms(1), of k] True show ?thesis by (simp add: tail_bars_def)
    qed (use e in blast)
    with that show ?thesis by (simp add: latest_ge_def latest_get)
  qed
qed

section \<open>Logs\<close>

text \<open>
  A log of stamps per symbol under a mark: the stamps of a symbol increase, and all of them are
  below the mark.
\<close>

definition stamps_of :: "(string \<times> timestamp) list \<Rightarrow> string \<Rightarrow> timestamp list" where
  "stamps_of calls k = map snd (filter (\<lambda>(i, _). i = k) calls)"

definition log_ok :: "(string \<times> timestamp) list \<Rightarrow> (string \<Rightarrow> timestamp \<Rightarrow> bool) \<Rightarrow> bool" where
  "log_ok calls below \<longleftrightarrow> (\<forall>k. sorted_wrt (<) (stamps_of calls k) \<and> (\<forall>t \<in> set (stamps_of calls k). below k t))"

lemma stamps_of_append [simp]: "stamps_of (xs @ ys) k = stamps_of xs k @ stamps_of ys k"
  by (simp add: stamps_of_def)

lemma stamps_of_same [simp]: "stamps_of (map (\<lambda>r. (i, f r)) xs) k = (if k = i then map f xs else [])"
  by (auto simp: stamps_of_def filter_map comp_def)

lemma log_ok_Nil [simp]: "log_ok [] below"
  by (simp add: log_ok_def stamps_of_def)

lemma log_ok_mono: "log_ok calls below \<Longrightarrow> (\<And>k t. below k t \<Longrightarrow> below' k t) \<Longrightarrow> log_ok calls below'"
  by (auto simp: log_ok_def)

lemma log_ok_append:
  assumes calls: "log_ok calls below" and ts: "sorted_wrt (<) (map f xs)" and down: "\<And>t u. below i t \<Longrightarrow> u \<le> t \<Longrightarrow> below i u"
    and new: "\<And>x. x \<in> set xs \<Longrightarrow> \<not> below i (f x) \<and> below' i (f x)" and mono: "\<And>k t. below k t \<Longrightarrow> below' k t"
  shows "log_ok (calls @ map (\<lambda>x. (i, f x)) xs) below'"
proof -
  have "t < f x" if "t \<in> set (stamps_of calls i)" "x \<in> set xs" for t x
    using calls that new down by (metis log_ok_def linorder_not_less)
  with assms show ?thesis by (auto simp: log_ok_def sorted_wrt_append)
qed

section \<open>Deliveries\<close>

locale history_keeper =
  fixes listeners :: "candle_listener list"
  assumes listener_history: "l \<in> set listeners \<Longrightarrow> ss_history (l k r st) = ss_history st"
begin

lemma call_history: "set ls \<subseteq> set listeners \<Longrightarrow> ss_history (call_listeners ls k r st) = ss_history st"
  by (induction ls arbitrary: st) (auto simp: call_listeners_def listener_history)

end

abbreviation worker_history :: "worker \<Rightarrow> candle_history" where
  "worker_history w \<equiv> ss_history (wk_signals w)"

abbreviation quiet_listeners :: "worker_env \<Rightarrow> bool" where
  "quiet_listeners env \<equiv> history_keeper (we_listeners env @ we_market_listeners env)"

definition tracking_listener :: "signal_env \<Rightarrow> candle_listener" where
  "tracking_listener env k r st =
     (case numeric_candle r of None \<Rightarrow> st | Some c \<Rightarrow> signal_result (track_market_candle env k c st))"

lemma track_history: "ss_history (signal_result (track_market_candle env k c st)) = ss_history st"
proof -
  have "ends (\<lambda>(_, st'). ss_history st' = ss_history st) (\<lambda>st'. ss_history st' = ss_history st) (track_market_candle env k c st)"
    unfolding track_market_candle_def advance_open_signals_def by (rule ends_rfold) (use advance_signal_history in auto)
  then show ?thesis by (cases "track_market_candle env k c st") (auto simp: signal_result_def)
qed

interpretation tracking: history_keeper "[tracking_listener env]" for env
  by unfold_locales (auto simp: tracking_listener_def track_history split: option.split)

lemma deliver_all:
  assumes "quiet_listeners env"
  shows "worker_history (foldl (deliver env k) w rows) = worker_history w \<and>
    wk_delivered (foldl (deliver env k) w rows) = wk_delivered w @ map (\<lambda>r. (k, rc_at r)) rows"
  using history_keeper.call_history [OF assms, of "we_listeners env"]
  by (induction rows arbitrary: w) (simp_all add: deliver_def)

lemma deliver_frame [simp]:
  "wk_forwarded (foldl (deliver env k) w rows) = wk_forwarded w" "wk_last_market (foldl (deliver env k) w rows) = wk_last_market w"
  "wk_consecutive_failures (foldl (deliver env k) w rows) = wk_consecutive_failures w"
  by (induction rows arbitrary: w) (simp_all add: deliver_def)

text \<open>What one symbol of a poll does to the history and to the log of deliveries.\<close>

lemma poll_symbol_cases:
  assumes q: "quiet_listeners env" and p: "poll_symbol env now (w, t) k = (w', t')"
  obtains (nothing) "worker_history w' = worker_history w" "wk_delivered w' = wk_delivered w"
  | (read) frame rows stamps calls where
      "we_source env k (se_timeframe (we_engine env)) (now - we_lookback_days env * DAY_US) now (int (ch_maximum (worker_history w))) = Inr frame"
      "completed (we_processor env) frame now = Inr (CANDLE_COLUMNS, rows)"
      "history_append (worker_history w) k (CANDLE_COLUMNS, rows) = Inr (stamps, worker_history w')"
      "wk_delivered w' = wk_delivered w @ map (\<lambda>r. (k, rc_at r)) calls"
      "calls = [] \<or> calls = rows_after (latest_timestamp (worker_history w) k) rows"
proof (cases "we_source env k (se_timeframe (we_engine env)) (now - we_lookback_days env * DAY_US) now (int (ch_maximum (worker_history w)))")
  case (Inl e)
  show thesis by (rule nothing) (use Inl p in \<open>auto simp: poll_symbol_def\<close>)
next
  case src: (Inr frame)
  show thesis
  proof (cases "completed (we_processor env) frame now")
    case (Inl e)
    show thesis by (rule nothing) (use Inl p src in \<open>auto simp: poll_symbol_def Let_def\<close>)
  next
    case (Inr d)
    then obtain rows where d: "completed (we_processor env) frame now = Inr (CANDLE_COLUMNS, rows)" "d = (CANDLE_COLUMNS, rows)"
      by (auto simp: completed_def Let_def split: prod.splits if_splits)
    show thesis
    proof (cases rule: process_history [of "wk_signals w" k d "we_engine env"])
      case (raised e)
      show thesis by (rule nothing) (use raised p src Inr in \<open>auto simp: poll_symbol_def Let_def\<close>)
    next
      case (appended stamps h)
      show thesis
      proof (cases "process_completed_candle (we_engine env) k d (wk_signals w)")
        case (Inl e)
        show thesis by (rule read [of frame rows stamps "[]"]) (use Inl p src Inr appended d in \<open>auto simp: poll_symbol_def Let_def split: prod.splits\<close>)
      next
        case pr: (Inr r)
        let ?calls = "if we_listeners env = [] then [] else rows_after (latest_timestamp (worker_history w) k) rows"
        have "worker_history w' = h" "wk_delivered w' = wk_delivered w @ map (\<lambda>r. (k, rc_at r)) ?calls"
          using p src Inr appended(2) pr d deliver_all [OF q, of k] by (auto simp: poll_symbol_def Let_def split: prod.splits)
        then show thesis by (intro read [of frame rows stamps ?calls]) (use appended src d in auto)
      qed
    qed
  qed
qed

text \<open>
  How a worker grows: its history never falls back, and what it delivers later is newer than what it
  knew before.
\<close>

definition grows :: "worker \<Rightarrow> worker \<Rightarrow> bool" where
  "grows w w' \<longleftrightarrow> history_ok (worker_history w') \<and> (\<forall>k t. latest_ge (worker_history w) k t \<longrightarrow> latest_ge (worker_history w') k t) \<and>
     (\<exists>new. wk_delivered w' = wk_delivered w @ new \<and> (\<forall>(k, t) \<in> set new. \<not> latest_ge (worker_history w) k t))"

lemma grows_same: "history_ok (worker_history w) \<Longrightarrow> worker_history w' = worker_history w \<Longrightarrow> wk_delivered w' = wk_delivered w \<Longrightarrow> grows w w'"
  by (simp add: grows_def)

lemma grows_trans:
  assumes "grows u v" and "grows v w"
  shows "grows u w"
proof -
  obtain a b where a: "wk_delivered v = wk_delivered u @ a" "\<forall>(k, t) \<in> set a. \<not> latest_ge (worker_history u) k t"
    and b: "wk_delivered w = wk_delivered v @ b" "\<forall>(k, t) \<in> set b. \<not> latest_ge (worker_history v) k t"
    using assms by (auto simp: grows_def)
  have "wk_delivered w = wk_delivered u @ (a @ b)" using a b by simp
  moreover have "\<forall>(k, t) \<in> set (a @ b). \<not> latest_ge (worker_history u) k t" using a b assms(1) by (auto simp: grows_def)
  ultimately show ?thesis using assms by (auto simp: grows_def)
qed

lemma grows_ok: "grows w w' \<Longrightarrow> history_ok (worker_history w')"
  by (simp add: grows_def)

lemma rows_after_new: "r \<in> set (rows_after (latest_timestamp h k) rows) \<Longrightarrow> \<not> latest_ge h k (rc_at r)"
  by (auto simp: rows_after_def latest_ge_def split: option.splits)

lemma poll_symbol_grows:
  assumes "quiet_listeners env" and ok: "history_ok (worker_history (fst acc))"
  shows "grows (fst acc) (fst (poll_symbol env now acc k))"
proof -
  obtain w t w' t' where acc: "acc = (w, t)" "poll_symbol env now (w, t) k = (w', t')" by (metis surj_pair)
  from assms(1) acc(2) show ?thesis
  proof (cases rule: poll_symbol_cases)
    case nothing
    with ok acc show ?thesis by (simp add: grows_same)
  next
    case (read frame rows stamps calls)
    have "\<forall>(i, t) \<in> set (map (\<lambda>r. (k, rc_at r)) calls). \<not> latest_ge (worker_history w) i t"
      using read(5) rows_after_new by (auto simp: rows_after_new)
    with read(3,4) append_effect [OF _ read(3)] append_latest(1) [OF _ read(3)] ok acc show ?thesis by (auto simp: grows_def)
  qed
qed

lemma poll_symbols_grows:
  "quiet_listeners env \<Longrightarrow> history_ok (worker_history (fst acc)) \<Longrightarrow> grows (fst acc) (fst (poll_symbols env now stop n acc ks))"
proof (induction ks arbitrary: n acc)
  case (Cons k ks)
  have "grows (fst acc) (fst (poll_symbol env now acc k))" using Cons.prems by (rule poll_symbol_grows)
  with Cons.IH [OF Cons.prems(1) grows_ok [OF this]] Cons.prems show ?case by (auto intro: grows_trans grows_same)
qed (simp add: grows_same)

lemma cycle_simps [simp]:
  "wk_signals (begin_cycle now n w) = wk_signals w" "wk_delivered (begin_cycle now n w) = wk_delivered w"
  "wk_forwarded (begin_cycle now n w) = wk_forwarded w" "wk_last_market (begin_cycle now n w) = wk_last_market w"
  "wk_consecutive_failures (begin_cycle now n w) = wk_consecutive_failures w"
  "wk_signals (finish_cycle env now n t w) = wk_signals w" "wk_delivered (finish_cycle env now n t w) = wk_delivered w"
  "wk_forwarded (finish_cycle env now n t w) = wk_forwarded w" "wk_last_market (finish_cycle env now n t w) = wk_last_market w"
  "wk_consecutive_failures (finish_cycle env now n t w) = wk_consecutive_failures w"
  "wk_signals (pause_cycle env now w) = wk_signals w" "wk_delivered (pause_cycle env now w) = wk_delivered w"
  "wk_forwarded (pause_cycle env now w) = wk_forwarded w" "wk_last_market (pause_cycle env now w) = wk_last_market w"
  "wk_consecutive_failures (pause_cycle env now w) = wk_consecutive_failures w"
  "wk_signals (fail_cycle now d w) = wk_signals w" "wk_delivered (fail_cycle now d w) = wk_delivered w"
  "wk_forwarded (fail_cycle now d w) = wk_forwarded w" "wk_last_market (fail_cycle now d w) = wk_last_market w"
  "wk_consecutive_failures (fail_cycle now d w) = wk_consecutive_failures w"
  by (simp_all add: begin_cycle_def finish_cycle_def pause_cycle_def fail_cycle_def Let_def)

lemma set_state_simps [simp]:
  "wk_signals (set_state st a b w) = wk_signals w" "wk_delivered (set_state st a b w) = wk_delivered w"
  "wk_forwarded (set_state st a b w) = wk_forwarded w" "wk_last_market (set_state st a b w) = wk_last_market w"
  "wk_consecutive_failures (set_state st a b w) = (if b then 0 else wk_consecutive_failures w + (if a then 1 else 0))"
  by (simp_all add: set_state_def)

lemma forward_history:
  assumes "quiet_listeners env"
  shows "worker_history (fst (foldl (forward env k) acc rows)) = worker_history (fst acc)"
    and "wk_delivered (fst (foldl (forward env k) acc rows)) = wk_delivered (fst acc)"
    and "wk_consecutive_failures (fst (foldl (forward env k) acc rows)) = wk_consecutive_failures (fst acc)"
  using history_keeper.call_history [OF assms, of "we_market_listeners env"]
  by (induction rows arbitrary: acc) (simp_all add: forward_def case_prod_unfold)

text \<open>A property of workers that every symbol keeps is kept by whole polls and rounds.\<close>

locale worker_invariant =
  fixes env :: worker_env and P :: "worker \<Rightarrow> bool"
  assumes poll: "P w \<Longrightarrow> P (fst (poll_symbol env now (w, t) k))"
    and track: "P w \<Longrightarrow> P (fst (track_symbol env now (w, n, failed) k))"
    and status: "P w \<Longrightarrow> wk_signals w' = wk_signals w \<Longrightarrow> wk_delivered w' = wk_delivered w \<Longrightarrow> wk_forwarded w' = wk_forwarded w \<Longrightarrow>
      wk_last_market w' = wk_last_market w \<Longrightarrow> P w'"
begin

lemma poll_all: "P (fst acc) \<Longrightarrow> P (fst (poll_symbols env now stop n acc ks))"
proof (induction ks arbitrary: n acc)
  case (Cons k ks)
  then show ?case using poll [of "fst acc" now "snd acc" k] by simp
qed simp

lemma track_all: "P (fst acc) \<Longrightarrow> P (fst (track_symbols env now stop n acc ks))"
proof (induction ks arbitrary: n acc)
  case (Cons k ks)
  then show ?case using track [of "fst acc" now "fst (snd acc)" "snd (snd acc)" k] by simp
qed simp

lemma poll_once_keeps: "P w \<Longrightarrow> P (snd (poll_once env now later stop w))"
proof -
  let ?t = "\<lparr>pt_created = 0, pt_downloaded = 0, pt_evaluated = 0, pt_latest = None, pt_failures = []\<rparr>"
  assume "P w"
  then have "P (begin_cycle now (length (wk_symbols w)) w)" by (rule status) simp_all
  then have "P (fst (poll_symbols env now stop 0 (begin_cycle now (length (wk_symbols w)) w, ?t) (wk_symbols w)))"
    by (intro poll_all) simp
  then show ?thesis by (rule status) (simp_all add: poll_once_def Let_def case_prod_unfold)
qed

lemma poll_market_keeps: "P w \<Longrightarrow> P (snd (poll_market_once env now stop tracked w))"
  using track_all [of "(w, 0, [])" now stop 0 "clean_symbols tracked"] by (simp add: poll_market_once_def Let_def case_prod_unfold)

lemma idle_keeps: "P w \<Longrightarrow> P (fst (idle_round env i (w, b)))"
proof -
  assume w: "P w"
  let ?m = "poll_market_once env (ri_track_now i) (ri_stop i) (ri_tracked i) w"
  have "P (snd ?m)" using w by (rule poll_market_keeps)
  with w show ?thesis
    by (cases ?m; cases "fst ?m") (auto simp: idle_round_def Let_def intro: status)
qed

lemma due_keeps: "P (fst wb) \<Longrightarrow> P (fst (due_round env i wb))"
proof -
  assume w: "P (fst wb)"
  obtain r w' where d: "due_polls env i (fst wb) = (r, w')" by fastforce
  have "P (snd (due_polls env i (fst wb)))"
    using poll_once_keeps poll_market_keeps [OF w] w by (auto simp: due_polls_def Let_def case_prod_unfold split: sum.split)
  with d have "P w'" by simp
  then show ?thesis by (cases r) (auto simp: due_round_def d Let_def mark_daily_def intro: status)
qed

lemma round_keeps: "P (fst wb) \<Longrightarrow> P (fst (worker_round env i wb))"
  using idle_keeps due_keeps by (cases wb) (simp add: worker_round_def)

lemma rounds_keep: "P (fst wb) \<Longrightarrow> P (fst (run_rounds env is wb))"
proof (induction "is" arbitrary: wb)
  case (Cons i "is")
  obtain w' b' d where r: "worker_round env i wb = (w', b', d)" by (metis surj_pair)
  then have "P w'" using round_keeps [OF Cons.prems, of i] by simp
  with Cons.IH [of "(w', b')"] r show ?case by simp
qed simp

end

locale quiet_worker = history_keeper "we_listeners env @ we_market_listeners env" for env :: worker_env
begin

lemma quiet: "quiet_listeners env"
  by unfold_locales

lemma track_grows: "history_ok (worker_history w) \<Longrightarrow> grows w (fst (track_symbol env now (w, n, failed) k))"
proof (cases "rbind (we_source env k ''5m'' (session_start env now) now 0) (\<lambda>frame. completed (we_market_processor env) frame now)")
  case (Inr r)
  then show "history_ok (worker_history w) \<Longrightarrow> ?thesis" using forward_history [OF quiet]
    by (intro grows_same) (simp_all add: track_symbol_def case_prod_unfold Let_def)
qed (simp add: track_symbol_def grows_same)

end

sublocale quiet_worker \<subseteq> growing: worker_invariant env "grows w0" for w0
proof
  fix w now t k assume w: "grows w0 w"
  then have "grows w (fst (poll_symbol env now (w, t) k))" using poll_symbol_grows [OF quiet, of "(w, t)" now k] grows_ok by simp
  with w show "grows w0 (fst (poll_symbol env now (w, t) k))" by (rule grows_trans)
next
  fix w now n failed k assume "grows w0 w"
  then show "grows w0 (fst (track_symbol env now (w, n, failed) k))"
    using track_grows [of w now n failed k] grows_trans grows_ok by blast
next
  fix w w' :: worker assume "grows w0 w" "wk_signals w' = wk_signals w" "wk_delivered w' = wk_delivered w"
  then show "grows w0 w'" by (simp add: grows_def)
qed

interpretation tracked: quiet_worker "configure_market_tracking (tracking_listener engine) (env\<lparr>we_listeners := [], we_market_listeners := []\<rparr>)"
  for engine env
  by unfold_locales (use tracking.listener_history in \<open>auto simp: configure_market_tracking_def\<close>)

context quiet_worker
begin

lemma rounds_grow: "history_ok (worker_history w) \<Longrightarrow> grows w (fst (run_rounds env is (w, b)))"
  by (rule growing.rounds_keep) (simp add: grows_same)

end

section \<open>Lost candles\<close>

lemma quiet_worker_iff: "quiet_worker env \<longleftrightarrow> quiet_listeners env"
  by (simp add: quiet_worker_def)

text \<open>
  C37. When the evaluation of a candle raises, the candle is lost for everybody who listens. If a poll of a
  symbol ends in an exception of the signal engine after its new candles entered the history (a strategy that raises is
  enough), those candles are not delivered to the candle listeners, and no later round of the
  worker, whatever the clock, the source and the other symbols do, delivers them: their stamps are
  known, so the next poll takes them for old. A paper broker that follows the worker never sees
  them, so a stop or target they reach does not close its lot.
\<close>

theorem failed_candles_never_delivered:
  assumes "quiet_listeners env" and "history_ok (worker_history w)"
    and "we_source env k (se_timeframe (we_engine env)) (now - we_lookback_days env * DAY_US) now (int (ch_maximum (worker_history w))) = Inr frame"
    and "completed (we_processor env) frame now = Inr (CANDLE_COLUMNS, rows)"
    and "history_append (worker_history w) k (CANDLE_COLUMNS, rows) = Inr (stamps, h)"
    and "process_completed_candle (we_engine env) k (CANDLE_COLUMNS, rows) (wk_signals w) = Inl (e, st)"
    and "stamp \<in> set stamps" and "(k, stamp) \<notin> set (wk_delivered w)"
  shows "pt_failures (snd (poll_symbol env now (w, t) k)) = pt_failures t @ [(k, e)] \<and>
    (k, stamp) \<notin> set (wk_delivered (fst (run_rounds env inputs (fst (poll_symbol env now (w, t) k), backoff))))"
proof -
  let ?w = "fst (poll_symbol env now (w, t) k)"
  have q: "quiet_worker env" using assms(1) by (simp add: quiet_worker_iff)
  have h: "ss_history st = h"
    by (cases rule: process_history [of "wk_signals w" k "(CANDLE_COLUMNS, rows)" "we_engine env"]) (use assms in auto)
  have p: "poll_symbol env now (w, t) k =
      (w\<lparr>wk_signals := st\<rparr>, t\<lparr>pt_downloaded := pt_downloaded t + 1, pt_failures := pt_failures t @ [(k, e)]\<rparr>)"
    using assms by (simp add: poll_symbol_def Let_def)
  have known: "latest_ge (worker_history ?w) k stamp" using append_latest(2) [OF assms(2,5,7)] h p by simp
  have "history_ok (worker_history ?w)" using append_effect [OF assms(2,5)] h p by simp
  from quiet_worker.rounds_grow [OF q this, of inputs backoff] known assms(8) p show ?thesis by (auto simp: grows_def)
qed

section \<open>Every candle once\<close>

text \<open>A source whose frames are in order of time and have no missing values.\<close>

definition clean_frames :: "candle_source \<Rightarrow> bool" where
  "clean_frames source \<longleftrightarrow> (\<forall>k timeframe a b n cols rows. source k timeframe a b n = Inr (cols, rows) \<longrightarrow>
     sorted_wrt (<) (map rc_at rows) \<and> (\<forall>r \<in> set rows. numeric_candle r \<noteq> None))"

definition market_mark :: "worker \<Rightarrow> string \<Rightarrow> timestamp \<Rightarrow> bool" where
  "market_mark w k t \<longleftrightarrow> (\<exists>l. map_of (wk_last_market w) k = Some l \<and> t \<le> l)"

definition logs_ok :: "worker \<Rightarrow> bool" where
  "logs_ok w \<longleftrightarrow> history_ok (worker_history w) \<and> log_ok (wk_delivered w) (latest_ge (worker_history w))
     \<and> log_ok (wk_forwarded w) (market_mark w)"

lemma completed_clean:
  assumes "completed p (cols, rows) now = Inr (cols', rows')" "sorted_wrt (<) (map rc_at rows)" "\<forall>r \<in> set rows. numeric_candle r \<noteq> None"
  shows "sorted_wrt (<) (map rc_at rows')" "\<forall>r \<in> set rows'. numeric_candle r \<noteq> None"
  using assms by (auto simp: completed_def sorted_wrt_map sorted_wrt_filter split: if_splits)

lemma rows_after_sorted: "sorted_wrt (<) (map rc_at rows) \<Longrightarrow> sorted_wrt (<) (map rc_at (rows_after before rows))"
  by (auto simp: rows_after_def sorted_wrt_map sorted_wrt_filter split: option.split)

lemma numeric_at: "numeric_candle r = Some c \<Longrightarrow> ca_at c = rc_at r"
  by (auto simp: numeric_candle_def split: option.splits)

lemma appended_rows:
  assumes ok: "history_ok h" and app: "history_append h k (CANDLE_COLUMNS, rows) = Inr (stamps, h')"
    and r: "r \<in> set (rows_after (latest_timestamp h k) rows)" "numeric_candle r \<noteq> None"
  shows "rc_at r \<in> set stamps"
proof -
  from app obtain incoming where inc: "normalised (CANDLE_COLUMNS, rows) = Inr incoming" by (auto simp: history_append_def rbind_eq_Inr)
  have stamps: "stamps = map ca_at (fresh_rows h k incoming)" using append_fresh(2) [OF ok inc, of k] app by simp
  have mem: "r \<in> set rows" using r(1) by (auto simp: rows_after_def split: option.splits)
  obtain c where c: "numeric_candle r = Some c" using r(2) by blast
  have "ca_at c \<in> ca_at ` set (keep_last (List.map_filter numeric_candle rows))"
    using mem c by (auto simp: keep_last_stamps List.map_filter_def image_iff)
  then have "rc_at r \<in> ca_at ` set incoming"
    using inc numeric_at [OF c] mem by (auto simp: normalised_def CANDLE_COLUMNS_def split: if_splits)
  then show ?thesis using r(1) by (auto simp: stamps fresh_rows_def rows_after_def split: option.splits)
qed

lemma forward_all:
  "wk_forwarded (fst (foldl (forward env k) acc rows)) = wk_forwarded (fst acc) @ map (\<lambda>r. (k, rc_at r)) rows \<and>
   map_of (wk_last_market (fst (foldl (forward env k) acc rows))) =
     (if rows = [] then map_of (wk_last_market (fst acc)) else (map_of (wk_last_market (fst acc)))(k \<mapsto> rc_at (last rows)))"
  by (induction rows arbitrary: acc) (auto simp: forward_def case_prod_unfold update_conv')

lemma poll_symbol_frame:
  "wk_forwarded (fst (poll_symbol env now (w, t) k)) = wk_forwarded w \<and> wk_last_market (fst (poll_symbol env now (w, t) k)) = wk_last_market w \<and>
   wk_consecutive_failures (fst (poll_symbol env now (w, t) k)) = wk_consecutive_failures w"
  unfolding poll_symbol_def Let_def prod.case by (simp split: sum.split prod.split)

locale clean_worker = quiet_worker +
  assumes clean: "clean_frames (we_source env)"
begin

lemma read_clean:
  "we_source env k timeframe a b n = Inr frame \<Longrightarrow> completed p frame now = Inr (cols, rows) \<Longrightarrow>
    sorted_wrt (<) (map rc_at rows) \<and> (\<forall>r \<in> set rows. numeric_candle r \<noteq> None)"
  using clean completed_clean [of p "fst frame" "snd frame" now cols rows] unfolding clean_frames_def by (metis prod.collapse)

lemma poll_logs:
  assumes ok: "logs_ok w"
  shows "logs_ok (fst (poll_symbol env now (w, t) k))"
proof -
  obtain w' t' where p: "poll_symbol env now (w, t) k = (w', t')" by fastforce
  have frame: "wk_forwarded w' = wk_forwarded w" "market_mark w' = market_mark w"
    using poll_symbol_frame [of env now w t k] p by (auto simp: market_mark_def fun_eq_iff)
  from quiet p have "history_ok (worker_history w') \<and> log_ok (wk_delivered w') (latest_ge (worker_history w'))"
  proof (cases rule: poll_symbol_cases)
    case nothing
    with ok show ?thesis by (simp add: logs_ok_def)
  next
    case (read frame rows stamps calls)
    have rows: "sorted_wrt (<) (map rc_at rows)" "\<forall>r \<in> set rows. numeric_candle r \<noteq> None"
      using read_clean [OF read(1,2)] by auto
    have hok: "history_ok (worker_history w)" using ok by (simp add: logs_ok_def)
    have calls: "sorted_wrt (<) (map rc_at calls)" using read(5) rows_after_sorted [OF rows(1)] by auto
    have new: "\<not> latest_ge (worker_history w) k (rc_at r) \<and> latest_ge (worker_history w') k (rc_at r)" if "r \<in> set calls" for r
    proof -
      have r: "r \<in> set (rows_after (latest_timestamp (worker_history w) k) rows)" using read(5) that by auto
      then have "numeric_candle r \<noteq> None" using rows(2) by (auto simp: rows_after_def split: option.splits)
      from append_latest(2) [OF hok read(3) appended_rows [OF hok read(3) r this]] rows_after_new [OF r] show ?thesis by blast
    qed
    have "log_ok (wk_delivered w @ map (\<lambda>r. (k, rc_at r)) calls) (latest_ge (worker_history w'))"
      by (rule log_ok_append [where below = "latest_ge (worker_history w)"])
        (use ok calls new append_latest(1) [OF hok read(3)] in \<open>auto simp: logs_ok_def latest_ge_def\<close>)
    with read(4) append_effect [OF hok read(3)] show ?thesis by simp
  qed
  with ok p frame show ?thesis by (simp add: logs_ok_def)
qed

lemma track_logs:
  assumes ok: "logs_ok w"
  shows "logs_ok (fst (track_symbol env now (w, n, failed) k))"
proof (cases "rbind (we_source env k ''5m'' (session_start env now) now 0) (\<lambda>frame. completed (we_market_processor env) frame now)")
  case (Inl e)
  with ok show ?thesis by (simp add: track_symbol_def)
next
  case (Inr d)
  obtain cols rows where d: "d = (cols, rows)" by fastforce
  let ?rows = "rows_after (Some (market_cutoff env now w k)) rows"
  define w' where "w' = fst (foldl (forward env k) (w, n) ?rows)"
  have t: "fst (track_symbol env now (w, n, failed) k) = w'" using Inr by (simp add: track_symbol_def d w'_def case_prod_unfold Let_def)
  obtain frame where "we_source env k ''5m'' (session_start env now) now 0 = Inr frame"
    "completed (we_market_processor env) frame now = Inr (cols, rows)" using Inr by (auto simp: rbind_eq_Inr d)
  then have "sorted_wrt (<) (map rc_at rows)" using read_clean by blast
  then have srt: "sorted_wrt (<) (map rc_at ?rows)" by (rule rows_after_sorted)
  have fw: "wk_forwarded w' = wk_forwarded w @ map (\<lambda>r. (k, rc_at r)) ?rows"
    "map_of (wk_last_market w') = (if ?rows = [] then map_of (wk_last_market w) else (map_of (wk_last_market w))(k \<mapsto> rc_at (last ?rows)))"
    using forward_all [of env k "(w, n)" ?rows] by (simp_all add: w'_def)
  have new: "\<not> market_mark w k (rc_at r) \<and> market_mark w' k (rc_at r)" if "r \<in> set ?rows" for r
  proof -
    have ne: "?rows \<noteq> []" using that by auto
    then have "rc_at r \<le> rc_at (last ?rows)" using strict_sorted_last [OF srt, of "rc_at r"] that by (simp add: last_map)
    moreover have "market_cutoff env now w k < rc_at r" using that by (simp add: rows_after_def)
    ultimately show ?thesis using ne fw(2) by (auto simp: market_mark_def market_cutoff_def)
  qed
  have mono: "market_mark w' i u" if "market_mark w i u" for i u
    using that new [of "last ?rows"] fw(2) by (auto simp: market_mark_def split: if_splits)
  have "log_ok (wk_forwarded w @ map (\<lambda>r. (k, rc_at r)) ?rows) (market_mark w')"
    by (rule log_ok_append [where below = "market_mark w"]) (use ok srt new mono in \<open>auto simp: logs_ok_def market_mark_def\<close>)
  moreover have "worker_history w' = worker_history w" "wk_delivered w' = wk_delivered w"
    using forward_history [OF quiet, of k "(w, n)"] by (simp_all add: w'_def)
  ultimately show ?thesis using ok t fw(1) by (simp add: logs_ok_def)
qed

end

sublocale clean_worker \<subseteq> logs: worker_invariant env logs_ok
proof
  fix w w' :: worker assume "logs_ok w" "wk_signals w' = wk_signals w" "wk_delivered w' = wk_delivered w"
    "wk_forwarded w' = wk_forwarded w" "wk_last_market w' = wk_last_market w"
  moreover have "market_mark w' = market_mark w" using calculation(5) by (simp add: market_mark_def fun_eq_iff)
  ultimately show "logs_ok w'" by (simp add: logs_ok_def)
qed (simp_all add: poll_logs track_logs)

text \<open>A source that answers from a table of candles, in order and without doubles.\<close>

definition raw_of :: "candle \<Rightarrow> raw_candle" where
  "raw_of c = \<lparr>rc_at = ca_at c, rc_open = Some (ca_open c), rc_high = Some (ca_high c), rc_low = Some (ca_low c),
     rc_close = Some (ca_close c), rc_volume = Some (ca_volume c), rc_complete = True\<rparr>"

definition table_source :: "(string \<Rightarrow> string \<Rightarrow> candle list) \<Rightarrow> candle_source" where
  "table_source table k timeframe a b n =
     Inr (CANDLE_COLUMNS, map raw_of (sort_key ca_at (keep_last (filter (\<lambda>c. a \<le> ca_at c \<and> ca_at c \<le> b) (table k timeframe)))))"

lemma table_source_clean: "clean_frames (table_source table)"
  using sort_keep_last by (auto simp: clean_frames_def table_source_def raw_of_def numeric_candle_def comp_def sorted_wrt_map)

interpretation tabled: clean_worker "configure_market_tracking (tracking_listener engine) (env\<lparr>we_source := table_source table, we_listeners := [], we_market_listeners := []\<rparr>)"
  for engine env table
  by unfold_locales (use tracking.listener_history table_source_clean in \<open>auto simp: configure_market_tracking_def\<close>)

context clean_worker
begin

lemma rounds_logs: "logs_ok w \<Longrightarrow> logs_ok (fst (run_rounds env is (w, b)))"
  by (rule logs.rounds_keep) simp

end

lemma seed_symbols_ok: "history_ok (fst acc) \<Longrightarrow> history_ok (fst (foldl (seed_symbol env source p now days) acc ks))"
proof (induction ks arbitrary: acc)
  case (Cons k ks)
  have "history_ok (fst (seed_symbol env source p now days acc k))"
    using Cons.prems seed_ok by (auto simp: seed_symbol_def rbind_eq_Inr split: prod.split sum.split)
  with Cons.IH show ?case by simp
qed simp

lemma recover_parts:
  assumes "recover env now universe w = Inr (summary, w')"
  shows "history_ok (worker_history w) \<Longrightarrow> history_ok (worker_history w')"
    and "wk_delivered w' = wk_delivered w \<and> wk_forwarded w' = wk_forwarded w \<and> wk_consecutive_failures w' = wk_consecutive_failures w"
  using assms seed_symbols_ok [of "(worker_history w, 0, [])"]
  by (fastforce simp: recover_def rbind_eq_Inr rebuild_histories_def refresh_universe_def Let_def case_prod_unfold)+


section \<open>Backoff\<close>

lemma poll_failures: "wk_consecutive_failures (snd (poll_once env now later stop w)) = wk_consecutive_failures w"
proof -
  have "wk_consecutive_failures (fst (poll_symbols env now stop n acc ks)) = wk_consecutive_failures (fst acc)" for n acc ks
    by (induction ks arbitrary: n acc) (simp_all add: poll_symbol_frame [of _ _ "fst acc" "snd acc" for acc, simplified])
  then show ?thesis by (simp add: poll_once_def Let_def case_prod_unfold)
qed

lemma track_failures: "wk_consecutive_failures (snd (poll_market_once env now stop tracked w)) = wk_consecutive_failures w"
proof -
  have fw: "wk_consecutive_failures (fst (foldl (forward env k) acc rows)) = wk_consecutive_failures (fst acc)" for k acc rows
    by (induction rows arbitrary: acc) (simp_all add: forward_def case_prod_unfold)
  have one: "wk_consecutive_failures (fst (track_symbol env now acc k)) = wk_consecutive_failures (fst acc)" for acc k
    by (cases acc) (auto simp: track_symbol_def Let_def case_prod_unfold fw split: sum.split)
  have "wk_consecutive_failures (fst (track_symbols env now stop n acc ks)) = wk_consecutive_failures (fst acc)" for n acc ks
    by (induction ks arbitrary: n acc) (simp_all add: one)
  then show ?thesis by (simp add: poll_market_once_def Let_def case_prod_unfold)
qed

lemma due_failures: "wk_consecutive_failures (snd (due_polls env i w)) = wk_consecutive_failures w"
  by (simp add: due_polls_def Let_def case_prod_unfold poll_failures track_failures split: sum.split)

definition backoff_ok :: "worker_env \<Rightarrow> worker \<times> int \<Rightarrow> bool" where
  "backoff_ok env wb \<longleftrightarrow> snd wb = min (we_poll_us env * 2 ^ wk_consecutive_failures (fst wb)) (we_maximum_backoff_us env)"

lemma backoff_next:
  assumes "0 < p" "p \<le> m"
  shows "min (min (p * 2 ^ n) m * 2) m = min (p * 2 ^ (n + 1)) (m :: int)"
  using assms by (simp add: min_def)

lemma round_backoff:
  assumes "0 < we_poll_us env" "we_poll_us env \<le> we_maximum_backoff_us env" "backoff_ok env wb" "worker_round env i wb = (w', b', d)"
  shows "backoff_ok env (w', b')"
proof -
  obtain w b where wb: "wb = (w, b)" by fastforce
  have start: "min (we_poll_us env) (we_maximum_backoff_us env) = we_poll_us env" using assms(2) by simp
  have longer: "longer_backoff env b = min (we_poll_us env * 2 ^ (wk_consecutive_failures w + 1)) (we_maximum_backoff_us env)"
    using backoff_next [OF assms(1,2)] assms(3) by (simp add: longer_backoff_def backoff_ok_def wb)
  show ?thesis
  proof (cases "poll_is_due env (wk_last_daily w) (ri_now i)")
    case True
    obtain r v where d: "due_polls env i w = (r, v)" by fastforce
    then have "wk_consecutive_failures v = wk_consecutive_failures w" using due_failures [of env i w] by simp
    with True d assms(4) start longer show ?thesis
      by (cases r) (auto simp: worker_round_def wb due_round_def Let_def backoff_ok_def mark_daily_def)
  next
    case False
    obtain r v where m: "poll_market_once env (ri_track_now i) (ri_stop i) (ri_tracked i) w = (r, v)" by fastforce
    then have "wk_consecutive_failures v = wk_consecutive_failures w" using track_failures [of env _ _ _ w] by (metis snd_conv)
    with False m assms(3,4) start longer show ?thesis
      by (cases r) (auto simp: worker_round_def wb idle_round_def Let_def backoff_ok_def split: if_splits)
  qed
qed

lemma rounds_backoff:
  assumes "0 < we_poll_us env" "we_poll_us env \<le> we_maximum_backoff_us env"
  shows "backoff_ok env wb \<Longrightarrow> backoff_ok env (run_rounds env is wb)"
proof (induction "is" arbitrary: wb)
  case (Cons i "is")
  obtain w' b' d where "worker_round env i wb = (w', b', d)" by (metis surj_pair)
  with Cons.IH round_backoff [OF assms Cons.prems] show ?case by simp
qed simp

text \<open>
  The backoff of a worker is exponential and bounded. At every time it is the poll interval
  doubled once for each failure since the last success, of polls and of the tracking feed alike, cut at the maximum; so it
  never falls below the interval, never exceeds the maximum, and one success restores it.
\<close>

theorem worker_backoff_exponential:
  assumes "0 < we_poll_us env" and "we_poll_us env \<le> we_maximum_backoff_us env"
    and "run_owned env now universe inputs (new_worker st) = (w, backoff)"
  shows "backoff = min (we_poll_us env * 2 ^ wk_consecutive_failures w) (we_maximum_backoff_us env)
    \<and> we_poll_us env \<le> backoff \<and> backoff \<le> we_maximum_backoff_us env"
proof -
  let ?w = "case recover env now universe (new_worker st) of Inr (_, w') \<Rightarrow> w' | Inl _ \<Rightarrow> set_state WError False False (new_worker st)"
  have "wk_consecutive_failures ?w = 0" using recover_parts(2) [of env now universe "new_worker st"]
    by (cases "recover env now universe (new_worker st)") (auto simp: new_worker_def)
  then have "backoff_ok env (?w, we_poll_us env)" using assms(2) by (simp add: backoff_ok_def)
  from rounds_backoff [OF assms(1,2) this, of inputs] assms(3)
  have b: "backoff = min (we_poll_us env * 2 ^ wk_consecutive_failures w) (we_maximum_backoff_us env)"
    by (simp add: run_owned_def backoff_ok_def)
  have "we_poll_us env * 1 \<le> we_poll_us env * 2 ^ wk_consecutive_failures w" using assms(1) by (intro mult_left_mono) simp_all
  with b assms(2) show ?thesis by simp
qed

section \<open>Examples\<close>

definition failing_engine :: signal_env where
  "failing_engine = buy_env\<lparr>se_strategy := buy_strategy\<lparr>st_evaluate := (\<lambda>_ _ _. Inl (ValueError ''no indicator''))\<rparr>\<rparr>"

definition failing_worker :: worker_env where
  "failing_worker = \<lparr>we_engine = failing_engine, we_source = (\<lambda>_ _ _ _ _. Inr (frame_at [1, 2])),
     we_processor = \<lparr>cp_market = NSE, cp_bar_minutes = 5, cp_daily_close = None\<rparr>,
     we_market_processor = \<lparr>cp_market = NSE, cp_bar_minutes = 5, cp_daily_close = None\<rparr>,
     we_poll_us = 60, we_closed_poll_us = 30, we_maximum_backoff_us = 300, we_lookback_days = 2,
     we_listeners = [tracking_listener failing_engine], we_market_listeners = [], we_tracks = False\<rparr>"

definition no_tally :: poll_tally where
  "no_tally = \<lparr>pt_created = 0, pt_downloaded = 0, pt_evaluated = 0, pt_latest = None, pt_failures = []\<rparr>"

definition example_round :: round_input where
  "example_round = \<lparr>ri_now = 0, ri_track_now = 0, ri_poll_now = 2000000000, ri_later = 2000000000, ri_failed = 2000000000,
     ri_stop = (\<lambda>_. False), ri_tracked = []\<rparr>"

lemma failing_quiet: "quiet_listeners failing_worker"
  using tracking.history_keeper_axioms [of failing_engine] by (simp add: failing_worker_def)

lemma failing_completed: "completed (we_processor failing_worker) (frame_at [1, 2]) 1000000000 = Inr (frame_at [1, 2])"
  by (simp add: completed_def frame_at_def failing_worker_def closes_at_def MINUTE_US_def CANDLE_COLUMNS_def)

lemma failing_process: "\<exists>st. process_completed_candle (we_engine failing_worker) ''A'' (frame_at [1, 2]) idle_state = Inl (ValueError ''no indicator'', st)"
proof -
  have "py_strip ''A'' \<noteq> []" by code_simp
  then show ?thesis unfolding process_completed_candle_def buy_batch
    by (simp add: engine_defs idle_state_def candle_at_def failing_worker_def failing_engine_def)
qed

theorem failed_candles_never_delivered_witness:
  "(''A'', 2) \<notin> set (wk_delivered (fst (run_rounds failing_worker [example_round, example_round]
     (fst (poll_symbol failing_worker 1000000000 (new_worker idle_state, no_tally) ''A''), 60))))"
proof -
  obtain st where p: "process_completed_candle (we_engine failing_worker) ''A'' (CANDLE_COLUMNS, snd (frame_at [1, 2])) (wk_signals (new_worker idle_state))
      = Inl (ValueError ''no indicator'', st)" using failing_process by (auto simp: frame_at_def new_worker_def)
  have h: "history_append (worker_history (new_worker idle_state)) ''A'' (CANDLE_COLUMNS, snd (frame_at [1, 2])) =
      Inr ([1, 2], \<lparr>ch_maximum = 51, ch_frames = [(''A'', [candle_at 1, candle_at 2])]\<rparr>)"
    using buy_batch by (simp add: new_worker_def frame_at_def)
  show ?thesis
    using failed_candles_never_delivered [OF failing_quiet _ _ _ h p, where frame = "frame_at [1, 2]" and now = 1000000000 and stamp = 2 and t = no_tally
        and inputs = "[example_round, example_round]" and backoff = 60]
      idle_facts(1) failing_completed by (simp add: new_worker_def frame_at_def failing_worker_def)
qed


theorem worker_backoff_exponential_witness:
  "\<exists>w b. run_owned failing_worker 0 (Inr [''a'']) [example_round, example_round] (new_worker idle_state) = (w, b) \<and> 60 \<le> b \<and> b \<le> 300"
proof -
  obtain w b where r: "run_owned failing_worker 0 (Inr [''a'']) [example_round, example_round] (new_worker idle_state) = (w, b)" by fastforce
  from worker_backoff_exponential [OF _ _ r] r show ?thesis by (simp add: failing_worker_def)
qed

end
