(* ===== verification/Indicators.thy ===== *)
theory Indicators
  imports Strategies
begin

text \<open>
  The rest of \<open>backend/core/indicators.py\<close>: exponential means with a warm-up, true range, session
  VWAP, directional movement, relative volume and the alignment of higher-timeframe means. NaN is
  \<open>None\<close>; a comparison with NaN is false. The exponentially weighted mean of pandas
  (\<open>adjust=False\<close>, \<open>ignore_na=False\<close>) is the parameter \<open>ewm\<close>. Every function is
  shown to be causal: on a prefix of the bars it returns the prefix of its values.
\<close>

section \<open>Series with missing values\<close>

definition lift2 :: "(real \<Rightarrow> real \<Rightarrow> real) \<Rightarrow> real option \<Rightarrow> real option \<Rightarrow> real option" where
  "lift2 f a b = (case (a, b) of (Some x, Some y) \<Rightarrow> Some (f x y) | _ \<Rightarrow> None)"

text \<open>\<open>replace(0, nan)\<close>, and comparisons of values that may be NaN.\<close>

definition nonzero :: "real option \<Rightarrow> real option" where
  "nonzero x = (if x = Some 0 then None else x)"

definition gt :: "real option \<Rightarrow> real option \<Rightarrow> bool" where
  "gt a b = (case (a, b) of (Some x, Some y) \<Rightarrow> x > y | _ \<Rightarrow> False)"

definition ge :: "real option \<Rightarrow> real option \<Rightarrow> bool" where
  "ge a b = (case (a, b) of (Some x, Some y) \<Rightarrow> x \<ge> y | _ \<Rightarrow> False)"

text \<open>\<open>shift()\<close> on a series of values.\<close>

definition shifted :: "'a option list \<Rightarrow> 'a option list" where
  "shifted xs = take (length xs) (None # xs)"

text \<open>\<open>min_periods\<close>: a value only once that many observations have been seen.\<close>

definition observed :: "series \<Rightarrow> nat" where
  "observed xs = length (filter (\<lambda>x. x \<noteq> None) xs)"

definition min_periods :: "nat \<Rightarrow> series \<Rightarrow> series \<Rightarrow> series" where
  "min_periods n xs ys = map (\<lambda>i. if observed (take (i + 1) xs) < n then None else ys ! i) [0..<length xs]"

section \<open>The indicators\<close>

definition ema :: "(real \<Rightarrow> series \<Rightarrow> series) \<Rightarrow> series \<Rightarrow> nat \<Rightarrow> series res" where
  "ema ewm values n =
     (if n \<le> 0 then Inl (ValueError ''EMA length must be greater than 0'')
      else Inr (min_periods n values (ewm (2 / (real n + 1)) values)))"

definition rma :: "(real \<Rightarrow> series \<Rightarrow> series) \<Rightarrow> series \<Rightarrow> nat \<Rightarrow> series res" where
  "rma ewm values n =
     (if n \<le> 0 then Inl (ValueError ''RMA length must be greater than 0'')
      else Inr (min_periods n values (ewm (1 / real n) values)))"

text \<open>The row maximum of pandas skips the NaN that the first bar has for lack of a previous close.\<close>

fun true_range_from :: "real option \<Rightarrow> candle list \<Rightarrow> real list" where
  "true_range_from previous [] = []"
| "true_range_from previous (c # cs) =
     (case previous of
        None \<Rightarrow> ca_high c - ca_low c
      | Some p \<Rightarrow> max (ca_high c - ca_low c) (max \<bar>ca_high c - p\<bar> \<bar>ca_low c - p\<bar>))
     # true_range_from (Some (ca_close c)) cs"

definition true_range :: "candle list \<Rightarrow> series" where
  "true_range candles = map Some (true_range_from None candles)"

definition atr ::
  "(real \<Rightarrow> series \<Rightarrow> series) \<Rightarrow> (real \<Rightarrow> series \<Rightarrow> series) \<Rightarrow> candle list \<Rightarrow> nat \<Rightarrow> bool \<Rightarrow> series res" where
  "atr ewm ewm_seeded candles n seeded =
     (if n \<le> 0 then Inl (ValueError ''ATR length must be greater than 0'')
      else if seeded then wilder_rma ewm_seeded (true_range candles) n
      else rma ewm (true_range candles) n)"

definition session_so_far :: "market \<Rightarrow> candle list \<Rightarrow> nat \<Rightarrow> candle list" where
  "session_so_far m candles i =
     filter (\<lambda>c. local_date m (ca_at c) = local_date m (ca_at (candles ! i))) (take (i + 1) candles)"

definition vwap_at :: "market \<Rightarrow> candle list \<Rightarrow> nat \<Rightarrow> real option" where
  "vwap_at m candles i =
     (let cs = session_so_far m candles i;
          weighted = sum_list (map (\<lambda>c. (ca_high c + ca_low c + ca_close c) / 3 * ca_volume c) cs);
          volume = sum_list (map ca_volume cs)
      in if volume = 0 then None else Some (weighted / volume))"

definition session_vwap :: "market \<Rightarrow> candle list \<Rightarrow> series" where
  "session_vwap m candles = map (vwap_at m candles) [0..<length candles]"

definition plus_movement :: "real option \<Rightarrow> real option \<Rightarrow> real option" where
  "plus_movement up down = Some (if gt up down \<and> gt up (Some 0) then the up else 0)"

definition directional_index :: "real option \<Rightarrow> real option \<Rightarrow> real option" where
  "directional_index movement average = lift2 (\<lambda>x y. 100 * x / y) movement (nonzero average)"

definition directional_spread :: "real option \<Rightarrow> real option \<Rightarrow> real option" where
  "directional_spread pdi mdi =
     lift2 (\<lambda>x y. 100 * x / y) (lift2 (\<lambda>x y. \<bar>x - y\<bar>) pdi mdi) (nonzero (lift2 (+) pdi mdi))"

definition directional_movement ::
  "(real \<Rightarrow> series \<Rightarrow> series) \<Rightarrow> candle list \<Rightarrow> nat \<Rightarrow> nat \<Rightarrow> (series \<times> series \<times> series) res" where
  "directional_movement ewm candles n smoothing =
     (if n \<le> 0 then Inl (ValueError ''DMI length must be greater than 0'')
      else if smoothing \<le> 0 then Inl (ValueError ''ADX smoothing length must be greater than 0'')
      else
        let up = diff_from None (map (\<lambda>c. Some (ca_high c)) candles);
            down = map (map_option uminus) (diff_from None (map (\<lambda>c. Some (ca_low c)) candles))
        in rbind (rma ewm (true_range candles) n) (\<lambda>average_range.
           rbind (rma ewm (map2 plus_movement up down) n) (\<lambda>plus_dm.
           rbind (rma ewm (map2 plus_movement down up) n) (\<lambda>minus_dm.
             let plus_di = map2 directional_index plus_dm average_range;
                 minus_di = map2 directional_index minus_dm average_range
             in rbind (rma ewm (map2 directional_spread plus_di minus_di) smoothing) (\<lambda>adx.
                  Inr (plus_di, minus_di, adx))))))"

definition rolling_mean :: "real list \<Rightarrow> nat \<Rightarrow> nat \<Rightarrow> real option" where
  "rolling_mean xs n i =
     (if i + 1 < n then None else Some (series_mean (drop (i + 1 - n) (take (i + 1) xs))))"

definition relative_volume :: "real list \<Rightarrow> nat \<Rightarrow> series res" where
  "relative_volume volume n =
     (if n \<le> 0 then Inl (ValueError ''RVOL length must be greater than 0'')
      else Inr (map (\<lambda>i. lift2 (/) (Some (volume ! i)) (nonzero (rolling_mean volume n i))) [0..<length volume]))"

text \<open>
  Higher-timeframe bars: closed and labelled on the right, with edges counted from the local midnight
  before the first bar; the close of a bar is the last close in it, and empty bars are dropped. A
  label repeats for consecutive bars, so the closes are collected per run of labels.
\<close>

definition bar_label :: "market \<Rightarrow> int \<Rightarrow> timestamp \<Rightarrow> timestamp \<Rightarrow> timestamp" where
  "bar_label m minutes first t =
     (let origin = local_date m first * DAY_US - zone_offset_us m; width = minutes * 60000000
      in origin - ((origin - t) div width) * width)"

fun bar_closes :: "(timestamp \<Rightarrow> timestamp) \<Rightarrow> (timestamp \<times> real) list \<Rightarrow> (timestamp \<times> real) list" where
  "bar_closes label [] = []"
| "bar_closes label [(t, x)] = [(label t, x)]"
| "bar_closes label ((t, x) # (u, y) # rest) =
     (if label t = label u then bar_closes label ((u, y) # rest)
      else (label t, x) # bar_closes label ((u, y) # rest))"

text \<open>\<open>dropna\<close> on the pair of means, then the last row whose label is before the bar.\<close>

definition both_means :: "timestamp \<times> real option \<times> real option \<Rightarrow> (timestamp \<times> real \<times> real) option" where
  "both_means r = (case r of (l, Some x, Some y) \<Rightarrow> Some (l, x, y) | _ \<Rightarrow> None)"

definition higher_rows ::
  "(real \<Rightarrow> series \<Rightarrow> series) \<Rightarrow> (timestamp \<times> real) list \<Rightarrow> nat \<Rightarrow> nat \<Rightarrow> (timestamp \<times> real \<times> real) list" where
  "higher_rows ewm completed fast slow =
     (let values = map (\<lambda>b. Some (snd b)) completed;
          fasts = min_periods fast values (ewm (2 / (real fast + 1)) values);
          slows = min_periods slow values (ewm (2 / (real slow + 1)) values)
      in List.map_filter both_means (zip (map fst completed) (zip fasts slows)))"

definition aligned_at :: "(timestamp \<times> real \<times> real) list \<Rightarrow> timestamp \<Rightarrow> bool" where
  "aligned_at rows t =
     (case filter (\<lambda>r. fst r < t) rows of [] \<Rightarrow> False | r # rs \<Rightarrow> (\<lambda>(_, x, y). x > y) (last (r # rs)))"

definition higher_timeframe_ema_alignment ::
  "(real \<Rightarrow> series \<Rightarrow> series) \<Rightarrow> market \<Rightarrow> candle list \<Rightarrow> int \<Rightarrow> nat \<Rightarrow> nat \<Rightarrow> bool list res" where
  "higher_timeframe_ema_alignment ewm m candles minutes fast slow =
     (if minutes \<le> 0 then Inl (ValueError ''Higher timeframe length must be greater than 0'')
      else if candles = [] then Inr []
      else let label = bar_label m minutes (ca_at (hd candles));
               rows = higher_rows ewm (bar_closes label (map (\<lambda>c. (ca_at c, ca_close c)) candles)) fast slow
           in Inr (map (\<lambda>c. aligned_at rows (ca_at c)) candles))"

section \<open>Causality\<close>

text \<open>A table of values computed row by row is causal if each row looks at the rows up to it only.\<close>

lemma map_upt_take:
  assumes "\<And>i. i < k \<Longrightarrow> i < length xs \<Longrightarrow> f i = g i"
  shows "map f [0..<length (take k xs)] = take k (map g [0..<length xs])"
  using assms by (auto intro!: nth_equalityI simp: take_map)

lemma diff_from_map_take: "diff_from prev (map f (take k cs)) = take k (diff_from prev (map f cs))"
  using diff_from_take [of prev k "map f cs"] by (simp add: take_map)

lemma min_periods_length [simp]: "length (min_periods n xs ys) = length xs"
  by (simp add: min_periods_def)

lemma min_periods_take: "min_periods n (take k xs) (take k ys) = take k (min_periods n xs ys)"
  unfolding min_periods_def by (rule map_upt_take) (simp add: min_def)

lemma shifted_length [simp]: "length (shifted xs) = length xs"
  by (simp add: shifted_def)

lemma shifted_take: "shifted (take k xs) = take k (shifted xs)"
  by (cases k) (auto simp: shifted_def min_def)

lemma true_range_from_length [simp]: "length (true_range_from p cs) = length cs"
  by (induction cs arbitrary: p) auto

lemma true_range_from_take: "true_range_from p (take k cs) = take k (true_range_from p cs)"
proof (induction cs arbitrary: p k)
  case (Cons c cs)
  then show ?case by (cases k) auto
qed simp

lemma true_range_simps [simp]: "length (true_range cs) = length cs" "true_range (take k cs) = take k (true_range cs)"
  by (simp_all add: true_range_def true_range_from_take take_map)

lemma session_vwap_simps [simp]:
  "length (session_vwap m cs) = length cs" "session_vwap m (take k cs) = take k (session_vwap m cs)"
  by (simp add: session_vwap_def)
    (unfold session_vwap_def, rule map_upt_take, simp add: vwap_at_def session_so_far_def min_def)

lemma relative_volume_take:
  assumes "relative_volume xs n = Inr ys"
  shows "relative_volume (take k xs) n = Inr (take k ys)" and "length ys = length xs"
proof -
  let ?f = "\<lambda>xs i. lift2 (/) (Some (xs ! i)) (nonzero (rolling_mean xs n i))"
  have ys: "0 < n" "ys = map (?f xs) [0..<length xs]" using assms by (auto simp: relative_volume_def split: if_splits)
  have "map (?f (take k xs)) [0..<length (take k xs)] = take k (map (?f xs) [0..<length xs])"
    by (rule map_upt_take) (simp add: rolling_mean_def min_def)
  with ys show "relative_volume (take k xs) n = Inr (take k ys)" by (simp add: relative_volume_def)
  show "length ys = length xs" using ys by simp
qed

context causal_smoother
begin

lemma ema_take:
  assumes "ema ewm xs n = Inr ys"
  shows "ema ewm (take k xs) n = Inr (take k ys)" and "length ys = length xs"
  using assms by (auto simp: ema_def ewm_take min_periods_take split: if_splits)

lemma rma_take:
  assumes "rma ewm xs n = Inr ys"
  shows "rma ewm (take k xs) n = Inr (take k ys)" and "length ys = length xs"
  using assms by (auto simp: rma_def ewm_take min_periods_take split: if_splits)

lemma directional_movement_take:
  assumes "directional_movement ewm cs n s = Inr (p, m, a)"
  shows "directional_movement ewm (take k cs) n s = Inr (take k p, take k m, take k a)"
    and "length p = length cs" and "length m = length cs" and "length a = length cs"
proof -
  let ?up = "diff_from None (map (\<lambda>c. Some (ca_high c)) cs)"
    and ?down = "map (map_option uminus) (diff_from None (map (\<lambda>c. Some (ca_low c)) cs))"
  from assms obtain ar pd md where pos: "0 < n" "0 < s" and ar: "rma ewm (true_range cs) n = Inr ar"
    and pd: "rma ewm (map2 plus_movement ?up ?down) n = Inr pd" and md: "rma ewm (map2 plus_movement ?down ?up) n = Inr md"
    and pm: "p = map2 directional_index pd ar" "m = map2 directional_index md ar"
    and a: "rma ewm (map2 directional_spread p m) s = Inr a"
    by (auto simp: directional_movement_def Let_def rbind_eq_Inr split: if_splits)
  note takes = rma_take(1) [OF ar, of k] rma_take(1) [OF pd, of k] rma_take(1) [OF md, of k] rma_take(1) [OF a, of k]
  show "directional_movement ewm (take k cs) n s = Inr (take k p, take k m, take k a)"
    using pos takes by (simp add: directional_movement_def Let_def diff_from_map_take take_map take_zip pm)
  show "length p = length cs" "length m = length cs" "length a = length cs"
    using rma_take(2) [OF ar] rma_take(2) [OF pd] rma_take(2) [OF md] rma_take(2) [OF a] by (simp_all add: pm)
qed

end

text \<open>
  Higher-timeframe bars. The bars labelled before a time are the same for the whole day and for any
  prefix that reaches that time, because a label is never before the bar it stands for.
\<close>

lemma bar_label_ge: "0 < minutes \<Longrightarrow> t \<le> bar_label m minutes first t"
proof -
  assume "0 < minutes"
  let ?w = "minutes * 60000000" and ?d = "local_date m first * DAY_US - zone_offset_us m - t"
  have "0 \<le> ?d mod ?w" using \<open>0 < minutes\<close> by (intro pos_mod_sign) simp
  then have "?d div ?w * ?w \<le> ?d" by (simp flip: minus_mod_eq_div_mult)
  then show ?thesis by (simp add: bar_label_def Let_def)
qed

lemma bar_label_mono: "0 < minutes \<Longrightarrow> t \<le> u \<Longrightarrow> bar_label m minutes first t \<le> bar_label m minutes first u"
  by (simp add: bar_label_def Let_def mult_right_mono zdiv_mono1)

lemma bar_closes_labels: "fst ` set (bar_closes label xs) \<subseteq> label ` fst ` set xs"
  by (induction label xs rule: bar_closes.induct) auto

lemma bar_closes_sorted: "sorted (map (label \<circ> fst) xs) \<Longrightarrow> sorted (map fst (bar_closes label xs))"
proof (induction label xs rule: bar_closes.induct)
  case (3 label t x u y rest)
  have "l \<ge> label t" if "l \<in> fst ` set (bar_closes label ((u, y) # rest))" for l
    using bar_closes_labels [of label "(u, y) # rest"] that "3.prems" by force
  with 3 show ?case by auto
qed simp_all

lemma bar_closes_before:
  assumes "as \<noteq> []" and "t \<le> label (fst (last as))" and "\<And>u. u \<in> fst ` set bs \<Longrightarrow> t \<le> label u"
  shows "filter (\<lambda>r. fst r < t) (bar_closes label (as @ bs)) = filter (\<lambda>r. fst r < t) (bar_closes label as)"
  using assms
proof (induction label as rule: bar_closes.induct)
  case (2 label u x)
  have "\<not> l < t" if "l \<in> fst ` set (bar_closes label ((u, x) # bs))" for l
    using bar_closes_labels [of label "(u, x) # bs"] that 2 by force
  then have "filter (\<lambda>r. fst r < t) (bar_closes label ((u, x) # bs)) = []" by (force simp: filter_empty_conv)
  then show ?case using 2 by simp
qed auto

lemma filter_sorted_take:
  assumes "sorted (map f xs)" shows "filter (\<lambda>x. f x < t) xs = take (length (filter (\<lambda>x. f x < t) xs)) xs"
  using assms
proof (induction xs)
  case (Cons x xs)
  show ?case
  proof (cases "f x < t")
    case False
    with Cons.prems have "filter (\<lambda>x. f x < t) xs = []" by (auto simp: filter_empty_conv)
    with False show ?thesis by simp
  qed (use Cons in simp)
qed simp

lemma map_filter_filter: "(\<And>x y. x \<in> set xs \<Longrightarrow> f x = Some y \<Longrightarrow> Q y = P x) \<Longrightarrow> filter Q (List.map_filter f xs) = List.map_filter f (filter P xs)"
  by (induction xs) (auto simp: List.map_filter_simps split: option.splits)

lemma zip_filter_fst_take:
  assumes "sorted ls" and "length ys = length ls"
  shows "filter (\<lambda>r. fst r < t) (zip ls ys) = take (length (filter (\<lambda>l. l < t) ls)) (zip ls ys)"
proof -
  have "length (filter (\<lambda>x. fst x < t) (zip ls ys)) = length (filter (\<lambda>l. l < t) (map fst (zip ls ys)))"
    by (simp add: filter_map comp_def)
  moreover have "sorted (map fst (zip ls ys))" using assms by simp
  ultimately show ?thesis using filter_sorted_take [of fst "zip ls ys" t] assms by simp
qed

lemma sorted_map_last: "sorted (map f xs) \<Longrightarrow> x \<in> set xs \<Longrightarrow> f x \<le> f (last xs)"
  by (induction xs) auto

context causal_smoother
begin

lemma higher_rows_before:
  assumes "sorted (map fst bars)"
  shows "filter (\<lambda>r. fst r < t) (higher_rows ewm bars fast slow) = higher_rows ewm (filter (\<lambda>r. fst r < t) bars) fast slow"
proof -
  let ?n = "length (filter (\<lambda>l. l < t) (map fst bars))"
  have n: "filter (\<lambda>r. fst r < t) bars = take ?n bars"
    using filter_sorted_take [OF assms, of t] by (simp add: filter_map comp_def)
  let ?v = "map (\<lambda>b. Some (snd b)) bars"
  let ?f = "min_periods fast ?v (ewm (2 / (real fast + 1)) ?v)" and ?s = "min_periods slow ?v (ewm (2 / (real slow + 1)) ?v)"
  have "filter (\<lambda>r. fst r < t) (List.map_filter both_means (zip (map fst bars) (zip ?f ?s)))
      = List.map_filter both_means (filter (\<lambda>r. fst r < t) (zip (map fst bars) (zip ?f ?s)))"
    by (rule map_filter_filter) (auto simp: both_means_def split: option.splits)
  also have "filter (\<lambda>r. fst r < t) (zip (map fst bars) (zip ?f ?s)) = take ?n (zip (map fst bars) (zip ?f ?s))"
    by (rule zip_filter_fst_take [OF assms]) simp
  finally show ?thesis
    unfolding n higher_rows_def Let_def
    by (simp add: take_zip min_periods_take [symmetric] ewm_take [symmetric] take_map del: length_filter_map)
qed

lemma alignment_take:
  assumes "sorted (map ca_at cs)" and "higher_timeframe_ema_alignment ewm m cs minutes fast slow = Inr bs"
  shows "higher_timeframe_ema_alignment ewm m (take k cs) minutes fast slow = Inr (take k bs)" and "length bs = length cs"
proof -
  have pos: "0 < minutes" using assms(2) by (auto simp: higher_timeframe_ema_alignment_def split: if_splits)
  define xs where "xs = map (\<lambda>c. (ca_at c, ca_close c)) cs"
  let ?l = "bar_label m minutes (ca_at (hd cs))"
  have srt: "sorted (map (?l \<circ> fst) (take j xs))" for j
    using sorted_wrt_take [OF assms(1), of j] bar_label_mono [OF pos]
    by (auto simp: xs_def take_map sorted_wrt_map elim: sorted_wrt_mono_rel [rotated])
  have same: "aligned_at (higher_rows ewm (bar_closes ?l (take k xs)) fast slow) (ca_at c)
      = aligned_at (higher_rows ewm (bar_closes ?l xs) fast slow) (ca_at c)" if c: "c \<in> set (take k cs)" for c
  proof -
    have ne: "take k xs \<noteq> []" using c by (cases k) (auto simp: xs_def)
    have "ca_at c \<le> ca_at (last (take k cs))"
      using sorted_map_last sorted_wrt_take [OF assms(1), of k] c by (auto simp: take_map)
    moreover have "fst (last (take k xs)) = ca_at (last (take k cs))"
      using ne by (simp add: xs_def take_map last_map)
    ultimately have 1: "ca_at c \<le> ?l (fst (last (take k xs)))" using bar_label_ge [OF pos] order_trans by fastforce
    have 2: "ca_at c \<le> ?l u" if "u \<in> fst ` set (drop k xs)" for u
    proof -
      from assms(1) have "sorted (map ca_at (take k cs @ drop k cs))" by simp
      then have "ca_at c \<le> u" using c that by (auto simp: xs_def drop_map sorted_append simp del: append_take_drop_id)
      then show ?thesis using bar_label_ge [OF pos] order_trans by blast
    qed
    have "filter (\<lambda>r. fst r < ca_at c) (bar_closes ?l (take k xs @ drop k xs))
        = filter (\<lambda>r. fst r < ca_at c) (bar_closes ?l (take k xs))"
      by (rule bar_closes_before) (use ne 1 2 in blast)+
    then show ?thesis
      using higher_rows_before [OF bar_closes_sorted [OF srt [of k]], of "ca_at c"]
        higher_rows_before [OF bar_closes_sorted [OF srt [of "length xs"]], of "ca_at c"]
      by (simp add: aligned_at_def)
  qed
  have "higher_timeframe_ema_alignment ewm m (take k cs) minutes fast slow = Inr (take k bs)" if "cs \<noteq> []" "0 < k"
  proof -
    have "hd (take k cs) = hd cs" using that by (cases cs) (auto simp: take_Cons')
    with same assms(2) pos that show ?thesis
      by (auto simp: higher_timeframe_ema_alignment_def Let_def xs_def take_map)
  qed
  with assms(2) pos show "higher_timeframe_ema_alignment ewm m (take k cs) minutes fast slow = Inr (take k bs)"
    by (cases "cs = [] \<or> k = 0") (auto simp: higher_timeframe_ema_alignment_def)
  show "length bs = length cs" using assms(2) by (auto simp: higher_timeframe_ema_alignment_def Let_def split: if_splits)
qed

end

text \<open>
  The recurrence of pandas for \<open>adjust=False, ignore_na=False\<close>: the weight of the old mean decays with
  every row, also a missing one, and is one again after an observation.
\<close>

fun ewm_decaying :: "real \<Rightarrow> (real \<times> real) option \<Rightarrow> series \<Rightarrow> series" where
  "ewm_decaying a m [] = []"
| "ewm_decaying a m (x # xs) =
     (let m' = (case (m, x) of
          (None, None) \<Rightarrow> None
        | (None, Some v) \<Rightarrow> Some (v, 1)
        | (Some (y, w), None) \<Rightarrow> Some (y, w * (1 - a))
        | (Some (y, w), Some v) \<Rightarrow> Some ((w * (1 - a) * y + a * v) / (w * (1 - a) + a), 1))
      in map_option fst m' # ewm_decaying a m' xs)"

lemma length_ewm_decaying [simp]: "length (ewm_decaying a m xs) = length xs"
  by (induction xs arbitrary: m) (simp_all add: Let_def)

lemma ewm_decaying_take: "ewm_decaying a m (take k xs) = take k (ewm_decaying a m xs)"
proof (induction xs arbitrary: m k)
  case (Cons x xs)
  then show ?case by (cases k) (simp_all add: Let_def)
qed simp

lemma ewm_decaying_none: "ewm_decaying a None (replicate k None) = replicate k None"
  by (induction k) simp_all

interpretation decaying: causal_smoother "\<lambda>a. ewm_decaying a None"
  by unfold_locales (simp_all add: ewm_decaying_take ewm_decaying_none)

end
