(* ===== verification/Trend_Strategies.thy ===== *)
theory Trend_Strategies
  imports Indicators
begin

text \<open>
  \<open>backend/strategies/strong_buy_v1.py\<close> and \<open>backend/strategies/momentum_scalper_v1.py\<close>. The columns that
  \<open>compute_indicators\<close> adds to a frame are a record of series. The candles are normalised; \<open>zone\<close> is
  the zone of the context, and \<open>now\<close> is read only when there is no candle. Of the
  indicator snapshot of a decision the model keeps what the rules read.
\<close>

section \<open>Reading a resolved configuration\<close>

definition config_int :: "config \<Rightarrow> string \<Rightarrow> int res" where
  "config_int cfg key =
     (case map_of cfg key of
        Some (PyInt n) \<Rightarrow> Inr n | Some _ \<Rightarrow> Inl (TypeError ''unsupported operand'') | None \<Rightarrow> Inl (KeyError key))"

definition config_string :: "config \<Rightarrow> string \<Rightarrow> string res" where
  "config_string cfg key =
     (case map_of cfg key of
        Some (PyStr s) \<Rightarrow> Inr s | Some _ \<Rightarrow> Inl (TypeError ''not a string'') | None \<Rightarrow> Inl (KeyError key))"

text \<open>One row of the vectorised frame and the decision fields it shares with an evaluation.\<close>

definition pct_target :: "real \<Rightarrow> real \<Rightarrow> real" where
  "pct_target target_pct close = py_round (close * (1 + target_pct / 100)) 4"

definition rule_row :: "int \<Rightarrow> real \<Rightarrow> bool list \<Rightarrow> candle list \<Rightarrow> nat \<Rightarrow> decision_row" where
  "rule_row required target_pct buys data i =
     (let c = data ! i; buy = buys ! i \<and> int i \<ge> required - 1
      in \<lparr>dr_candle = c, dr_decision = (if buy then BUY else NO_DECISION), dr_signal_price = Some (ca_close c),
          dr_target_price = (if buy then Some (pct_target target_pct (ca_close c)) else None), dr_stop_price = None\<rparr>)"

section \<open>The momentum scalper\<close>

definition SCALPER_CONFIG_SCHEMA :: config_schema where
  "SCALPER_CONFIG_SCHEMA =
     [(''ema_fast'', integer_field 9 2 (Some 50)), (''ema_slow'', integer_field 20 3 (Some 100)),
      (''rsi_length'', integer_field 14 2 (Some 100)), (''rsi_trigger'', number_field 50 20 (Some 80)),
      (''rvol_length'', integer_field 20 2 (Some 200)), (''minimum_rvol'', number_field (3 / 2) (1 / 10) (Some 20)),
      (''target_pct'', number_field (3 / 4) (1 / 20) (Some 10))]"

definition scalper_resolve :: "(pyval \<Rightarrow> string) \<Rightarrow> config \<Rightarrow> config res" where
  "scalper_resolve py_str config =
     rbind (resolve_config py_str SCALPER_CONFIG_SCHEMA config) (\<lambda>cfg.
     rbind (config_int cfg ''ema_fast'') (\<lambda>fast.
     rbind (config_int cfg ''ema_slow'') (\<lambda>slow.
       if fast \<ge> slow then Inl (ValueError ''ema_fast must be lower than ema_slow'') else Inr cfg)))"

definition scalper_required_history :: "(pyval \<Rightarrow> string) \<Rightarrow> config \<Rightarrow> int res" where
  "scalper_required_history py_str config =
     rbind (scalper_resolve py_str config) (\<lambda>cfg.
     rbind (config_int cfg ''ema_slow'') (\<lambda>slow.
     rbind (config_int cfg ''rsi_length'') (\<lambda>rsi.
     rbind (config_int cfg ''rvol_length'') (\<lambda>rvol.
       Inr (max slow (max rsi rvol) + 2)))))"

record scalper_columns =
  sc_ema_fast :: series
  sc_ema_slow :: series
  sc_rsi :: series
  sc_vwap :: series
  sc_rvol :: series

definition scalper_columns_of ::
  "(real \<Rightarrow> series \<Rightarrow> series) \<Rightarrow> (real \<Rightarrow> series \<Rightarrow> series) \<Rightarrow> market \<Rightarrow> config \<Rightarrow> candle list \<Rightarrow> scalper_columns res" where
  "scalper_columns_of ewm ewm_seeded zone cfg data =
     (let closes = map (\<lambda>c. Some (ca_close c)) data in
      rbind (rbind (config_int cfg ''ema_fast'') (\<lambda>n. ema ewm closes (nat n))) (\<lambda>fast.
      rbind (rbind (config_int cfg ''ema_slow'') (\<lambda>n. ema ewm closes (nat n))) (\<lambda>slow.
      rbind (rbind (config_int cfg ''rsi_length'') (\<lambda>n. wilder_rsi ewm_seeded closes (nat n))) (\<lambda>rsi.
      rbind (rbind (config_int cfg ''rvol_length'') (\<lambda>n. relative_volume (map ca_volume data) (nat n))) (\<lambda>rvol.
        Inr \<lparr>sc_ema_fast = fast, sc_ema_slow = slow, sc_rsi = rsi, sc_vwap = session_vwap zone data, sc_rvol = rvol\<rparr>)))))"

definition scalper_buy :: "real \<Rightarrow> real \<Rightarrow> scalper_columns \<Rightarrow> candle list \<Rightarrow> nat \<Rightarrow> bool" where
  "scalper_buy trigger minimum_rvol k data i \<longleftrightarrow>
     gt (sc_ema_fast k ! i) (sc_ema_slow k ! i) \<and> gt (sc_ema_fast k ! i) (shifted (sc_ema_fast k) ! i)
     \<and> gt (Some (ca_close (data ! i))) (sc_vwap k ! i) \<and> ge (sc_rsi k ! i) (Some trigger)
     \<and> gt (Some trigger) (shifted (sc_rsi k) ! i) \<and> ge (sc_rvol k ! i) (Some minimum_rvol)"

definition scalper_compute ::
  "(real \<Rightarrow> series \<Rightarrow> series) \<Rightarrow> (real \<Rightarrow> series \<Rightarrow> series) \<Rightarrow> market \<Rightarrow> config \<Rightarrow> candle list
    \<Rightarrow> (scalper_columns \<times> bool list) res" where
  "scalper_compute ewm ewm_seeded zone cfg data =
     rbind (scalper_columns_of ewm ewm_seeded zone cfg data) (\<lambda>k.
     rbind (config_number cfg ''rsi_trigger'') (\<lambda>trigger.
     rbind (config_number cfg ''minimum_rvol'') (\<lambda>minimum_rvol.
       Inr (k, map (scalper_buy trigger minimum_rvol k data) [0..<length data]))))"

definition TREND_MARKETS :: "string list" where "TREND_MARKETS = [''NSE'', ''CRYPTO'']"
definition TREND_TIMEFRAMES :: "string list" where "TREND_TIMEFRAMES = [''5m'']"

definition scalper_decision_frame ::
  "(pyval \<Rightarrow> string) \<Rightarrow> (real \<Rightarrow> series \<Rightarrow> series) \<Rightarrow> (real \<Rightarrow> series \<Rightarrow> series) \<Rightarrow> market \<Rightarrow> market_context \<Rightarrow> config
    \<Rightarrow> candle list \<Rightarrow> decision_row list res" where
  "scalper_decision_frame py_str ewm ewm_seeded zone ctx config data =
     rbind (assert_supported TREND_MARKETS TREND_TIMEFRAMES ctx) (\<lambda>_.
     rbind (scalper_resolve py_str config) (\<lambda>cfg.
     rbind (scalper_compute ewm ewm_seeded zone cfg data) (\<lambda>(_, buys).
     rbind (scalper_required_history py_str cfg) (\<lambda>required.
     rbind (config_number cfg ''target_pct'') (\<lambda>target_pct.
       Inr (map (rule_row required target_pct buys data) [0..<length data]))))))"

definition scalper_evaluate ::
  "(pyval \<Rightarrow> string) \<Rightarrow> (real \<Rightarrow> series \<Rightarrow> series) \<Rightarrow> (real \<Rightarrow> series \<Rightarrow> series) \<Rightarrow> market \<Rightarrow> timestamp \<Rightarrow> market_context \<Rightarrow> config
    \<Rightarrow> candle list \<Rightarrow> signal_decision res" where
  "scalper_evaluate py_str ewm ewm_seeded zone now ctx config data =
     rbind (scalper_resolve py_str config) (\<lambda>cfg.
     rbind (scalper_compute ewm ewm_seeded zone cfg data) (\<lambda>(k, buys).
     rbind (scalper_required_history py_str cfg) (\<lambda>required.
     rbind (config_number cfg ''target_pct'') (\<lambda>target_pct.
       let close = (if data = [] then None else Some (ca_close (last data)));
           buy = int (length data) \<ge> required \<and> data \<noteq> [] \<and> last buys
       in mk_signal_decision
            \<lparr>sd_decision = (if buy then BUY else NO_DECISION), sd_strategy_id = ''momentum_scalper_v1'',
             sd_strategy_version = ''1.0.0'', sd_market = mc_market ctx, sd_symbol = mc_symbol ctx,
             sd_timeframe = mc_timeframe ctx, sd_candle_at = (if data = [] then now else ca_at (last data)),
             sd_signal_price = close,
             sd_target_price = (if buy \<and> close \<noteq> Some 0 then map_option (pct_target target_pct) close else None),
             sd_stop_price = None,
             sd_reasons = (if buy then [''EMA_TREND'', ''RSI_RECOVERY'', ''ABOVE_VWAP'', ''RELATIVE_VOLUME''] else [''NO_SCALP_SETUP'']),
             sd_rsi = (if data = [] then None else last (sc_rsi k)), sd_snapshot = cfg\<rparr>))))"

section \<open>Strong buy\<close>

definition choice_field :: "pyval list \<Rightarrow> string \<Rightarrow> pyval \<Rightarrow> field_def" where
  "choice_field choices type def = \<lparr>fd_type = type, fd_default = Some def, fd_minimum = None, fd_maximum = None,
     fd_enum = Some choices, fd_min_items = None, fd_max_items = None\<rparr>"

definition STRONG_BUY_CONFIG_SCHEMA :: config_schema where
  "STRONG_BUY_CONFIG_SCHEMA =
     [(''ema_fast'', integer_field 9 1 (Some 499)), (''ema_slow'', integer_field 21 2 (Some 500)),
      (''adx_length'', integer_field 14 1 (Some 500)), (''adx_smoothing'', integer_field 14 1 (Some 500)),
      (''minimum_adx'', number_field 20 0 (Some 100)), (''rvol_length'', integer_field 20 1 (Some 500)),
      (''minimum_rvol'', number_field (6 / 5) 0 (Some 100)),
      (''higher_timeframe_minutes'', choice_field [PyInt 15] ''integer'' (PyInt 15)),
      (''minimum_confirmations'', choice_field [PyInt 2] ''integer'' (PyInt 2)),
      (''target_pct'', number_field 1 (1 / 100) (Some 100)),
      (''initial_quantity'', integer_field 100 1 (Some 1000000)),
      (''allow_additional_buys'', \<lparr>fd_type = ''boolean'', fd_default = Some (PyBool True), fd_minimum = None,
         fd_maximum = None, fd_enum = None, fd_min_items = None, fd_max_items = None\<rparr>),
      (''additional_quantity_pct'', number_field 50 (1 / 100) (Some 100)),
      (''additional_sizing_mode'', choice_field [PyStr ''REDUCE_EVERY_NEW_LOT'', PyStr ''FIXED_PERCENTAGE_OF_FIRST_LOT'']
         ''string'' (PyStr ''REDUCE_EVERY_NEW_LOT'')),
      (''minimum_quantity'', integer_field 1 1 (Some 1000000)),
      (''maximum_entries_per_cycle'', integer_field 10 1 (Some 100))]"

record strong_params =
  sp_ema_fast :: int
  sp_ema_slow :: int
  sp_adx_length :: int
  sp_adx_smoothing :: int
  sp_minimum_adx :: real
  sp_rvol_length :: int
  sp_minimum_rvol :: real
  sp_higher_minutes :: int
  sp_confirmations :: int
  sp_target_pct :: real
  sp_initial_quantity :: int
  sp_additional_pct :: real
  sp_additional_mode :: string
  sp_minimum_quantity :: int
  sp_maximum_entries :: int

definition strong_params_of :: "config \<Rightarrow> strong_params res" where
  "strong_params_of cfg =
     rbind (config_int cfg ''ema_fast'') (\<lambda>fast.
     rbind (config_int cfg ''ema_slow'') (\<lambda>slow.
     rbind (config_int cfg ''adx_length'') (\<lambda>adx.
     rbind (config_int cfg ''adx_smoothing'') (\<lambda>smoothing.
     rbind (config_number cfg ''minimum_adx'') (\<lambda>minimum_adx.
     rbind (config_int cfg ''rvol_length'') (\<lambda>rvol.
     rbind (config_number cfg ''minimum_rvol'') (\<lambda>minimum_rvol.
     rbind (config_int cfg ''higher_timeframe_minutes'') (\<lambda>minutes.
     rbind (config_int cfg ''minimum_confirmations'') (\<lambda>confirmations.
     rbind (config_number cfg ''target_pct'') (\<lambda>target_pct.
     rbind (config_int cfg ''initial_quantity'') (\<lambda>initial.
     rbind (config_number cfg ''additional_quantity_pct'') (\<lambda>additional.
     rbind (config_string cfg ''additional_sizing_mode'') (\<lambda>mode.
     rbind (config_int cfg ''minimum_quantity'') (\<lambda>minimum.
     rbind (config_int cfg ''maximum_entries_per_cycle'') (\<lambda>entries.
       Inr \<lparr>sp_ema_fast = fast, sp_ema_slow = slow, sp_adx_length = adx, sp_adx_smoothing = smoothing,
            sp_minimum_adx = minimum_adx, sp_rvol_length = rvol, sp_minimum_rvol = minimum_rvol,
            sp_higher_minutes = minutes, sp_confirmations = confirmations, sp_target_pct = target_pct,
            sp_initial_quantity = initial, sp_additional_pct = additional, sp_additional_mode = mode,
            sp_minimum_quantity = minimum, sp_maximum_entries = entries\<rparr>)))))))))))))))"

definition strong_check :: "strong_params \<Rightarrow> unit res" where
  "strong_check p =
     (if \<not> (1 \<le> sp_ema_fast p \<and> sp_ema_fast p < sp_ema_slow p \<and> sp_ema_slow p \<le> 500)
      then Inl (ValueError ''EMA lengths must satisfy 1 <= fast < slow <= 500'')
      else if min (sp_adx_length p) (min (sp_adx_smoothing p) (sp_rvol_length p)) < 1
      then Inl (ValueError ''Indicator lengths must be positive'')
      else if sp_minimum_adx p < 0 \<or> sp_minimum_rvol p < 0
      then Inl (ValueError ''ADX and RVOL thresholds cannot be negative'')
      else if sp_higher_minutes p \<noteq> 15 \<or> sp_confirmations p \<noteq> 2
      then Inl (ValueError ''STRONG BUY uses confirmed 15-minute alignment and exactly two of three confirmations'')
      else if sp_target_pct p \<le> 0 then Inl (ValueError ''Profit target must be greater than zero'')
      else if sp_initial_quantity p < 1 \<or> sp_minimum_quantity p < 1
      then Inl (ValueError ''Lot quantities must be positive whole shares'')
      else if \<not> (0 < sp_additional_pct p \<and> sp_additional_pct p \<le> 100)
      then Inl (ValueError ''Additional quantity percentage must be greater than zero and at most 100'')
      else if \<not> (1 \<le> sp_maximum_entries p \<and> sp_maximum_entries p \<le> 100)
      then Inl (ValueError ''Maximum entries per cycle must be between 1 and 100'')
      else Inr ())"

definition strong_resolve :: "(pyval \<Rightarrow> string) \<Rightarrow> config \<Rightarrow> config res" where
  "strong_resolve py_str config =
     rbind (resolve_config py_str STRONG_BUY_CONFIG_SCHEMA config) (\<lambda>resolved.
     rbind (strong_params_of resolved) (\<lambda>p.
     rbind (strong_check p) (\<lambda>_. Inr resolved)))"

definition strong_required_history :: "(pyval \<Rightarrow> string) \<Rightarrow> config \<Rightarrow> int res" where
  "strong_required_history py_str config =
     rbind (strong_resolve py_str config) (\<lambda>cfg.
     rbind (strong_params_of cfg) (\<lambda>p.
       Inr (max (sp_ema_slow p * 3) (max (sp_adx_length p + sp_adx_smoothing p) (sp_rvol_length p)) + 10)))"

definition strong_lot_quantity :: "strong_params \<Rightarrow> int \<Rightarrow> int res" where
  "strong_lot_quantity p entry_number =
     (if entry_number < 0 then Inl (ValueError ''Entry number cannot be negative'')
      else let ratio = sp_additional_pct p / 100;
               raw = (if entry_number = 0 then of_int (sp_initial_quantity p)
                      else if sp_additional_mode p = ''REDUCE_EVERY_NEW_LOT''
                      then of_int (sp_initial_quantity p) * ratio ^ nat entry_number
                      else of_int (sp_initial_quantity p) * ratio)
           in Inr (max (sp_minimum_quantity p) \<lfloor>raw\<rfloor>))"

record strong_columns =
  sb_ema_fast :: series
  sb_ema_slow :: series
  sb_vwap :: series
  sb_plus_di :: series
  sb_minus_di :: series
  sb_adx :: series
  sb_rvol :: series
  sb_htf :: "bool list"

definition strong_columns_of ::
  "(real \<Rightarrow> series \<Rightarrow> series) \<Rightarrow> market \<Rightarrow> strong_params \<Rightarrow> candle list \<Rightarrow> strong_columns res" where
  "strong_columns_of ewm zone p data =
     (let closes = map (\<lambda>c. Some (ca_close c)) data in
      rbind (ema ewm closes (nat (sp_ema_fast p))) (\<lambda>fast.
      rbind (ema ewm closes (nat (sp_ema_slow p))) (\<lambda>slow.
      rbind (directional_movement ewm data (nat (sp_adx_length p)) (nat (sp_adx_smoothing p))) (\<lambda>(plus_di, minus_di, adx).
      rbind (relative_volume (map ca_volume data) (nat (sp_rvol_length p))) (\<lambda>rvol.
      rbind (higher_timeframe_ema_alignment ewm zone data (sp_higher_minutes p) (nat (sp_ema_fast p)) (nat (sp_ema_slow p))) (\<lambda>htf.
        Inr \<lparr>sb_ema_fast = fast, sb_ema_slow = slow, sb_vwap = session_vwap zone data, sb_plus_di = plus_di,
             sb_minus_di = minus_di, sb_adx = adx, sb_rvol = rvol, sb_htf = htf\<rparr>))))))"

text \<open>The conditions of one row, as the columns of the table hold them.\<close>

record strong_row =
  sr_adx_confirmation :: bool
  sr_rvol_confirmation :: bool
  sr_htf_confirmation :: bool
  sr_bullish_cross :: bool
  sr_above_vwap :: bool

definition strong_row_at :: "strong_params \<Rightarrow> strong_columns \<Rightarrow> candle list \<Rightarrow> nat \<Rightarrow> strong_row" where
  "strong_row_at p k data i =
     \<lparr>sr_adx_confirmation = (ge (sb_adx k ! i) (Some (sp_minimum_adx p)) \<and> gt (sb_plus_di k ! i) (sb_minus_di k ! i)),
      sr_rvol_confirmation = ge (sb_rvol k ! i) (Some (sp_minimum_rvol p)),
      sr_htf_confirmation = sb_htf k ! i,
      sr_bullish_cross = (gt (sb_ema_fast k ! i) (sb_ema_slow k ! i)
        \<and> ge (shifted (sb_ema_slow k) ! i) (shifted (sb_ema_fast k) ! i)),
      sr_above_vwap = gt (Some (ca_close (data ! i))) (sb_vwap k ! i)\<rparr>"

definition confirmation_score :: "strong_row \<Rightarrow> int" where
  "confirmation_score r = of_bool (sr_adx_confirmation r) + of_bool (sr_rvol_confirmation r) + of_bool (sr_htf_confirmation r)"

definition strong_buy :: "strong_params \<Rightarrow> strong_row \<Rightarrow> bool" where
  "strong_buy p r \<longleftrightarrow> sr_bullish_cross r \<and> sr_above_vwap r \<and> confirmation_score r \<ge> sp_confirmations p"

definition strong_compute ::
  "(real \<Rightarrow> series \<Rightarrow> series) \<Rightarrow> market \<Rightarrow> strong_params \<Rightarrow> candle list \<Rightarrow> strong_row list res" where
  "strong_compute ewm zone p data =
     rbind (strong_columns_of ewm zone p data) (\<lambda>k. Inr (map (strong_row_at p k data) [0..<length data]))"

definition strong_decision_frame ::
  "(pyval \<Rightarrow> string) \<Rightarrow> (real \<Rightarrow> series \<Rightarrow> series) \<Rightarrow> market \<Rightarrow> market_context \<Rightarrow> config \<Rightarrow> candle list \<Rightarrow> decision_row list res" where
  "strong_decision_frame py_str ewm zone ctx config data =
     rbind (assert_supported TREND_MARKETS TREND_TIMEFRAMES ctx) (\<lambda>_.
     rbind (strong_resolve py_str config) (\<lambda>cfg.
     rbind (strong_params_of cfg) (\<lambda>p.
     rbind (strong_compute ewm zone p data) (\<lambda>rows.
     rbind (strong_required_history py_str cfg) (\<lambda>warmup.
       Inr (map (rule_row warmup (sp_target_pct p) (map (strong_buy p) rows) data) [0..<length data]))))))"

definition missing_reasons :: "strong_params \<Rightarrow> strong_row \<Rightarrow> string list" where
  "missing_reasons p r =
     (if sr_bullish_cross r then [] else [''NO_EMA_BULLISH_CROSS''])
     @ (if sr_above_vwap r then [] else [''CLOSE_NOT_ABOVE_SESSION_VWAP''])
     @ (if confirmation_score r < sp_confirmations p then [''INSUFFICIENT_CONFIRMATIONS''] else [])"

definition buy_reasons :: "strong_row \<Rightarrow> string list" where
  "buy_reasons r =
     [''EMA_BULLISH_CROSS'', ''CLOSE_ABOVE_SESSION_VWAP'']
     @ (if sr_adx_confirmation r then [''ADX_DMI_CONFIRMED''] else [])
     @ (if sr_rvol_confirmation r then [''RELATIVE_VOLUME_CONFIRMED''] else [])
     @ (if sr_htf_confirmation r then [''HIGHER_TIMEFRAME_EMA_ALIGNED''] else [])"

definition strong_evaluate ::
  "(pyval \<Rightarrow> string) \<Rightarrow> (real \<Rightarrow> series \<Rightarrow> series) \<Rightarrow> market \<Rightarrow> timestamp \<Rightarrow> market_context \<Rightarrow> config \<Rightarrow> candle list
    \<Rightarrow> signal_decision res" where
  "strong_evaluate py_str ewm zone now ctx config data =
     rbind (assert_supported TREND_MARKETS TREND_TIMEFRAMES ctx) (\<lambda>_.
     rbind (strong_resolve py_str config) (\<lambda>cfg.
     rbind (strong_params_of cfg) (\<lambda>p.
     rbind (strong_compute ewm zone p data) (\<lambda>rows.
       let none = \<lparr>sd_decision = NO_DECISION, sd_strategy_id = ''ema_vwap_strong_buy'', sd_strategy_version = ''1.0.0'',
             sd_market = mc_market ctx, sd_symbol = mc_symbol ctx, sd_timeframe = mc_timeframe ctx,
             sd_candle_at = (if data = [] then now else ca_at (last data)),
             sd_signal_price = (if data = [] then None else Some (ca_close (last data))),
             sd_target_price = None, sd_stop_price = None, sd_reasons = [''NO_COMPLETED_CANDLES''], sd_rsi = None, sd_snapshot = cfg\<rparr>
       in if data = [] then mk_signal_decision none
          else rbind (strong_required_history py_str cfg) (\<lambda>required.
            if int (length data) < required then mk_signal_decision (none\<lparr>sd_reasons := [''INSUFFICIENT_HISTORY'']\<rparr>)
            else if \<not> strong_buy p (last rows) then mk_signal_decision (none\<lparr>sd_reasons := missing_reasons p (last rows)\<rparr>)
            else mk_signal_decision (none\<lparr>sd_decision := BUY,
                   sd_target_price := Some (pct_target (sp_target_pct p) (ca_close (last data))),
                   sd_reasons := buy_reasons (last rows)\<rparr>))))))"

section \<open>Both strategies are causal\<close>

definition take_scalper :: "nat \<Rightarrow> scalper_columns \<Rightarrow> scalper_columns" where
  "take_scalper n k = \<lparr>sc_ema_fast = take n (sc_ema_fast k), sc_ema_slow = take n (sc_ema_slow k), sc_rsi = take n (sc_rsi k),
     sc_vwap = take n (sc_vwap k), sc_rvol = take n (sc_rvol k)\<rparr>"

definition take_strong :: "nat \<Rightarrow> strong_columns \<Rightarrow> strong_columns" where
  "take_strong n k = \<lparr>sb_ema_fast = take n (sb_ema_fast k), sb_ema_slow = take n (sb_ema_slow k), sb_vwap = take n (sb_vwap k),
     sb_plus_di = take n (sb_plus_di k), sb_minus_di = take n (sb_minus_di k), sb_adx = take n (sb_adx k),
     sb_rvol = take n (sb_rvol k), sb_htf = take n (sb_htf k)\<rparr>"

lemma last_take_map:
  assumes "i < length data" and "length xs = length data" shows "last (take (Suc i) xs) = xs ! i"
  using assms by (simp add: take_Suc_conv_app_nth)

context causal_smoother
begin

lemma closes_take: "map (\<lambda>c. f (g c)) (take n data) = take n (map (\<lambda>c. f (g c)) data)"
  by (simp add: take_map)

lemma strong_columns_take:
  assumes "sorted (map ca_at data)" and "strong_columns_of ewm zone p data = Inr k"
  shows "strong_columns_of ewm zone p (take n data) = Inr (take_strong n k)"
proof -
  let ?c = "map (\<lambda>c. Some (ca_close c)) data"
  from assms(2) obtain fast slow pd md adx rvol htf where
      fast: "ema ewm ?c (nat (sp_ema_fast p)) = Inr fast" and slow: "ema ewm ?c (nat (sp_ema_slow p)) = Inr slow"
    and dm: "directional_movement ewm data (nat (sp_adx_length p)) (nat (sp_adx_smoothing p)) = Inr (pd, md, adx)"
    and rvol: "relative_volume (map ca_volume data) (nat (sp_rvol_length p)) = Inr rvol"
    and htf: "higher_timeframe_ema_alignment ewm zone data (sp_higher_minutes p) (nat (sp_ema_fast p)) (nat (sp_ema_slow p)) = Inr htf"
    and k: "k = \<lparr>sb_ema_fast = fast, sb_ema_slow = slow, sb_vwap = session_vwap zone data, sb_plus_di = pd,
      sb_minus_di = md, sb_adx = adx, sb_rvol = rvol, sb_htf = htf\<rparr>"
    by (auto simp: strong_columns_of_def Let_def rbind_eq_Inr)
  note takes = ema_take(1) [OF fast, of n] ema_take(1) [OF slow, of n] directional_movement_take(1) [OF dm, of n]
    relative_volume_take(1) [OF rvol, of n] alignment_take(1) [OF assms(1) htf, of n]
  then show ?thesis by (simp add: strong_columns_of_def Let_def take_map k take_strong_def)
qed

lemma strong_compute_take:
  assumes "sorted (map ca_at data)" and "strong_compute ewm zone p data = Inr rows"
  shows "strong_compute ewm zone p (take n data) = Inr (take n rows)" and "length rows = length data"
proof -
  from assms(2) obtain k where k: "strong_columns_of ewm zone p data = Inr k"
    and rows: "rows = map (strong_row_at p k data) [0..<length data]" by (auto simp: strong_compute_def rbind_eq_Inr)
  have "map (strong_row_at p (take_strong n k) (take n data)) [0..<length (take n data)]
      = take n (map (strong_row_at p k data) [0..<length data])"
    by (rule map_upt_take) (simp add: strong_row_at_def take_strong_def shifted_take)
  with strong_columns_take [OF assms(1) k, of n] rows
  show "strong_compute ewm zone p (take n data) = Inr (take n rows)" by (simp add: strong_compute_def)
  show "length rows = length data" using rows by simp
qed

lemma strong_frame_is_evaluate:
  assumes srt: "sorted (map ca_at data)" and frame: "strong_decision_frame py_str ewm zone ctx config data = Inr rows"
  shows "length rows = length data \<and> (\<forall>i < length data. \<exists>d.
     strong_evaluate py_str ewm zone now ctx config (take (i + 1) data) = Inr d
     \<and> rows ! i = \<lparr>dr_candle = data ! i, dr_decision = sd_decision d, dr_signal_price = sd_signal_price d,
         dr_target_price = sd_target_price d, dr_stop_price = sd_stop_price d\<rparr>)"
proof -
  from frame obtain cfg p rs warmup where sup: "assert_supported TREND_MARKETS TREND_TIMEFRAMES ctx = Inr ()"
    and cfg: "strong_resolve py_str config = Inr cfg" and p: "strong_params_of cfg = Inr p"
    and rs: "strong_compute ewm zone p data = Inr rs" and w: "strong_required_history py_str cfg = Inr warmup"
    and rows: "rows = map (rule_row warmup (sp_target_pct p) (map (strong_buy p) rs) data) [0..<length data]"
    by (auto simp: strong_decision_frame_def rbind_eq_Inr)
  have "\<exists>d. strong_evaluate py_str ewm zone now ctx config (take (i + 1) data) = Inr d
     \<and> rows ! i = \<lparr>dr_candle = data ! i, dr_decision = sd_decision d, dr_signal_price = sd_signal_price d,
         dr_target_price = sd_target_price d, dr_stop_price = sd_stop_price d\<rparr>" if i: "i < length data" for i
  proof -
    have ne: "take (Suc i) data \<noteq> []" using i by auto
    have l: "last (take (Suc i) data) = data ! i" "last (take (Suc i) rs) = rs ! i"
      using i strong_compute_take(2) [OF srt rs] by (simp_all add: take_Suc_conv_app_nth)
    have len: "length rs = length data" using strong_compute_take(2) [OF srt rs] .
    show ?thesis
      using i ne l len strong_compute_take(1) [OF srt rs, of "Suc i"]
      by (simp add: strong_evaluate_def sup cfg p w rows rule_row_def Let_def mk_signal_decision_def min_def)
  qed
  then show ?thesis using rows by simp
qed

end

section \<open>Configurations resolve to usable values\<close>

lemma scalper_schema_ok: "schema_ok py_str SCALPER_CONFIG_SCHEMA"
  by (simp add: schema_ok_def SCALPER_CONFIG_SCHEMA_def field_defs resolve_defs)

lemma strong_schema_ok: "schema_ok py_str STRONG_BUY_CONFIG_SCHEMA"
  by (simp add: schema_ok_def STRONG_BUY_CONFIG_SCHEMA_def choice_field_def field_defs resolve_defs)

lemma resolved_int:
  assumes "schema_ok py_str schema" and "resolve_config py_str schema c = Inr r"
    and "map_of schema key = Some (integer_field def low high)"
  shows "\<exists>n. config_int r key = Inr n \<and> low \<le> of_int n"
proof -
  obtain v where v: "map_of r key = Some v" "resolve_value py_str key (integer_field def low high) v = Inr v"
    using resolved_lookup [OF assms] by (auto simp: integer_field_def)
  then obtain n where "v = PyInt n" by (auto simp: resolve_value_def convert_value_def integer_field_def rbind_eq_Inr split: if_splits)
  with v show ?thesis
    by (auto simp: config_int_def resolve_value_def check_bounds_def integer_field_def rbind_eq_Inr raise_if_def split: if_splits)
qed

lemma resolved_number:
  assumes "schema_ok py_str schema" and "resolve_config py_str schema c = Inr r"
    and "map_of schema key = Some (number_field def low high)"
  shows "\<exists>x. config_number r key = Inr x \<and> low \<le> x"
proof -
  obtain v where v: "map_of r key = Some v" "resolve_value py_str key (number_field def low high) v = Inr v"
    using resolved_lookup [OF assms] by (auto simp: number_field_def)
  then obtain x where "v = PyFloat x" by (auto simp: resolve_value_def convert_value_def number_field_def rbind_eq_Inr split: if_splits)
  with v show ?thesis
    by (auto simp: config_number_def resolve_value_def check_bounds_def number_field_def rbind_eq_Inr raise_if_def split: if_splits)
qed

lemma strong_resolve_parts:
  assumes "strong_resolve py_str config = Inr cfg"
  obtains p where "strong_params_of cfg = Inr p" and "strong_check p = Inr ()" and "strong_resolve py_str cfg = Inr cfg"
proof -
  from assms obtain p where r: "resolve_config py_str STRONG_BUY_CONFIG_SCHEMA config = Inr cfg"
    and p: "strong_params_of cfg = Inr p" "strong_check p = Inr ()"
    by (auto simp: strong_resolve_def rbind_eq_Inr)
  with resolve_config_fixed [OF strong_schema_ok r] have "strong_resolve py_str cfg = Inr cfg" by (simp add: strong_resolve_def)
  with p that show ?thesis by blast
qed

lemma strong_compute_total: "strong_check p = Inr () \<Longrightarrow> \<exists>rows. strong_compute ewm zone p data = Inr rows"
  by (auto simp: strong_check_def strong_compute_def strong_columns_of_def Let_def ema_def rma_def directional_movement_def
      relative_volume_def higher_timeframe_ema_alignment_def split: if_splits)

lemma strong_frame_total:
  assumes "assert_supported TREND_MARKETS TREND_TIMEFRAMES ctx = Inr ()" and "strong_resolve py_str config = Inr cfg"
  shows "\<exists>rows. strong_decision_frame py_str ewm zone ctx config data = Inr rows"
proof -
  obtain p where "strong_params_of cfg = Inr p" "strong_check p = Inr ()" "strong_resolve py_str cfg = Inr cfg"
    using strong_resolve_parts [OF assms(2)] .
  with strong_compute_total [of p ewm zone data] assms show ?thesis
    by (auto simp: strong_decision_frame_def strong_required_history_def)
qed

lemma scalper_compute_take:
  assumes "causal_smoother ewm" and "causal_smoother ewm_seeded" and "scalper_compute ewm ewm_seeded zone cfg data = Inr (k, buys)"
  shows "scalper_compute ewm ewm_seeded zone cfg (take n data) = Inr (take_scalper n k, take n buys)" and "length buys = length data"
proof -
  let ?c = "map (\<lambda>c. Some (ca_close c)) data"
  from assms(3) obtain f s r v fast slow rsi rvol trigger minimum where
      ints: "config_int cfg ''ema_fast'' = Inr f" "config_int cfg ''ema_slow'' = Inr s" "config_int cfg ''rsi_length'' = Inr r"
        "config_int cfg ''rvol_length'' = Inr v" "config_number cfg ''rsi_trigger'' = Inr trigger"
        "config_number cfg ''minimum_rvol'' = Inr minimum"
    and fast: "ema ewm ?c (nat f) = Inr fast" and slow: "ema ewm ?c (nat s) = Inr slow"
    and rsi: "wilder_rsi ewm_seeded ?c (nat r) = Inr rsi" and rvol: "relative_volume (map ca_volume data) (nat v) = Inr rvol"
    and k: "k = \<lparr>sc_ema_fast = fast, sc_ema_slow = slow, sc_rsi = rsi, sc_vwap = session_vwap zone data, sc_rvol = rvol\<rparr>"
    and buys: "buys = map (scalper_buy trigger minimum k data) [0..<length data]"
    by (auto simp: scalper_compute_def scalper_columns_of_def Let_def rbind_eq_Inr)
  have "map (scalper_buy trigger minimum (take_scalper n k) (take n data)) [0..<length (take n data)]
      = take n (map (scalper_buy trigger minimum k data) [0..<length data])"
    by (rule map_upt_take) (simp add: scalper_buy_def take_scalper_def shifted_take)
  moreover note causal_smoother.ema_take(1) [OF assms(1) fast, of n] causal_smoother.ema_take(1) [OF assms(1) slow, of n]
    causal_smoother.wilder_rsi_take(1) [OF assms(2) rsi, of n] relative_volume_take(1) [OF rvol, of n]
  ultimately show "scalper_compute ewm ewm_seeded zone cfg (take n data) = Inr (take_scalper n k, take n buys)"
    using ints by (simp add: scalper_compute_def scalper_columns_of_def Let_def take_map k buys take_scalper_def)
  show "length buys = length data" by (simp add: buys)
qed

lemma scalper_resolve_parts:
  assumes "scalper_resolve py_str config = Inr cfg"
  shows "scalper_resolve py_str cfg = Inr cfg" and "resolve_config py_str SCALPER_CONFIG_SCHEMA config = Inr cfg"
proof -
  from assms show r: "resolve_config py_str SCALPER_CONFIG_SCHEMA config = Inr cfg"
    by (auto simp: scalper_resolve_def rbind_eq_Inr split: if_splits)
  with resolve_config_fixed [OF scalper_schema_ok r] assms show "scalper_resolve py_str cfg = Inr cfg"
    by (auto simp: scalper_resolve_def rbind_eq_Inr split: if_splits)
qed

lemma scalper_fields:
  "map_of SCALPER_CONFIG_SCHEMA ''ema_fast'' = Some (integer_field 9 2 (Some 50))"
  "map_of SCALPER_CONFIG_SCHEMA ''ema_slow'' = Some (integer_field 20 3 (Some 100))"
  "map_of SCALPER_CONFIG_SCHEMA ''rsi_length'' = Some (integer_field 14 2 (Some 100))"
  "map_of SCALPER_CONFIG_SCHEMA ''rvol_length'' = Some (integer_field 20 2 (Some 200))"
  "map_of SCALPER_CONFIG_SCHEMA ''rsi_trigger'' = Some (number_field 50 20 (Some 80))"
  "map_of SCALPER_CONFIG_SCHEMA ''minimum_rvol'' = Some (number_field (3 / 2) (1 / 10) (Some 20))"
  "map_of SCALPER_CONFIG_SCHEMA ''target_pct'' = Some (number_field (3 / 4) (1 / 20) (Some 10))"
  by (simp_all add: SCALPER_CONFIG_SCHEMA_def)

lemma scalper_frame_total:
  assumes "assert_supported TREND_MARKETS TREND_TIMEFRAMES ctx = Inr ()" and "scalper_resolve py_str config = Inr cfg"
  shows "\<exists>rows. scalper_decision_frame py_str ewm ewm_seeded zone ctx config data = Inr rows"
proof -
  note r = scalper_schema_ok scalper_resolve_parts(2) [OF assms(2)]
  obtain f where f: "config_int cfg ''ema_fast'' = Inr f" "0 < f" using resolved_int [OF r scalper_fields(1)] by force
  obtain s where s: "config_int cfg ''ema_slow'' = Inr s" "0 < s" using resolved_int [OF r scalper_fields(2)] by force
  obtain l where l: "config_int cfg ''rsi_length'' = Inr l" "0 < l" using resolved_int [OF r scalper_fields(3)] by force
  obtain v where v: "config_int cfg ''rvol_length'' = Inr v" "0 < v" using resolved_int [OF r scalper_fields(4)] by force
  obtain a b c where n: "config_number cfg ''rsi_trigger'' = Inr a" "config_number cfg ''minimum_rvol'' = Inr b"
      "config_number cfg ''target_pct'' = Inr c"
    using resolved_number [OF r scalper_fields(5)] resolved_number [OF r scalper_fields(6)]
      resolved_number [OF r scalper_fields(7)] by blast
  show ?thesis using f s l v n assms scalper_resolve_parts(1) [OF assms(2)]
    by (auto simp: scalper_decision_frame_def scalper_compute_def scalper_columns_of_def scalper_required_history_def Let_def
        ema_def wilder_rsi_def wilder_rma_def relative_volume_def)
qed

section \<open>Properties\<close>


definition trend_context :: market_context where
  "trend_context = \<lparr>mc_market = ''NSE'', mc_symbol = ''TCS'', mc_timeframe = ''5m''\<rparr>"

lemma strong_defaults_resolve: "\<exists>cfg. strong_resolve (\<lambda>_. []) [] = Inr cfg"
  by (simp add: strong_resolve_def resolve_config_def STRONG_BUY_CONFIG_SCHEMA_def choice_field_def field_defs
      strong_params_of_def config_int_def config_number_def config_string_def strong_check_def)

definition trend_data :: "candle list" where
  "trend_data = [example_candle 0 100, example_candle 300000000 101]"

lemma trend_facts:
  "assert_supported TREND_MARKETS TREND_TIMEFRAMES trend_context = Inr ()" "sorted (map ca_at trend_data)"
  "length trend_data = 2" "\<forall>c \<in> set trend_data. ca_close c \<noteq> 0"
  by (simp_all add: assert_supported_def TREND_MARKETS_def TREND_TIMEFRAMES_def trend_context_def trend_data_def example_candle_def)


text \<open>
  The vectorised frame of the momentum scalper is the evaluation of every prefix, for a supported
  market and timeframe, a configuration that resolves and closes other than zero: at a close of zero
  \<open>evaluate\<close> drops the target price that the frame keeps.
\<close>

theorem scalper_frame_equals_prefix_evaluation:
  assumes "causal_smoother ewm" and "causal_smoother ewm_seeded" and "\<forall>c \<in> set data. ca_close c \<noteq> 0"
    and "assert_supported TREND_MARKETS TREND_TIMEFRAMES ctx = Inr ()" and "scalper_resolve py_str config = Inr cfg"
  shows "\<exists>rows. scalper_decision_frame py_str ewm ewm_seeded zone ctx config data = Inr rows \<and> length rows = length data
    \<and> (\<forall>i < length data. \<exists>d. scalper_evaluate py_str ewm ewm_seeded zone now ctx config (take (i + 1) data) = Inr d
        \<and> rows ! i = \<lparr>dr_candle = data ! i, dr_decision = sd_decision d, dr_signal_price = sd_signal_price d,
            dr_target_price = sd_target_price d, dr_stop_price = sd_stop_price d\<rparr>)"
proof -
  obtain rows where f: "scalper_decision_frame py_str ewm ewm_seeded zone ctx config data = Inr rows"
    using scalper_frame_total [OF assms(4,5)] by blast
  then obtain k buys required target where c: "scalper_compute ewm ewm_seeded zone cfg data = Inr (k, buys)"
    and w: "scalper_required_history py_str cfg = Inr required" and t: "config_number cfg ''target_pct'' = Inr target"
    and rows: "rows = map (rule_row required target buys data) [0..<length data]"
    using assms(4,5) by (auto simp: scalper_decision_frame_def rbind_eq_Inr)
  note compute = scalper_compute_take [OF assms(1,2) c]
  have "\<exists>d. scalper_evaluate py_str ewm ewm_seeded zone now ctx config (take (i + 1) data) = Inr d
     \<and> rows ! i = \<lparr>dr_candle = data ! i, dr_decision = sd_decision d, dr_signal_price = sd_signal_price d,
         dr_target_price = sd_target_price d, dr_stop_price = sd_stop_price d\<rparr>" if i: "i < length data" for i
  proof -
    have ne: "take (Suc i) data \<noteq> []" "ca_close (data ! i) \<noteq> 0" using i assms(3) by auto
    have l: "last (take (Suc i) data) = data ! i" "last (take (Suc i) buys) = buys ! i"
      using i compute(2) by (simp_all add: take_Suc_conv_app_nth)
    show ?thesis
      using i ne l compute(1) [of "Suc i"]
      by (simp add: scalper_evaluate_def assms(5) w t rows rule_row_def Let_def mk_signal_decision_def min_def)
  qed
  with f rows show ?thesis by simp
qed

lemma scalper_defaults_resolve: "\<exists>cfg. scalper_resolve (\<lambda>_. []) [] = Inr cfg"
  by (simp add: scalper_resolve_def resolve_config_def SCALPER_CONFIG_SCHEMA_def field_defs config_int_def)

theorem scalper_frame_equals_prefix_evaluation_witness:
  "\<exists>rows. scalper_decision_frame (\<lambda>_. []) (\<lambda>a. ewm_decaying a None) (\<lambda>a. ewm_recursion a None) NSE trend_context [] trend_data = Inr rows
     \<and> length rows = 2"
proof -
  obtain cfg where cfg: "scalper_resolve (\<lambda>_. []) [] = Inr cfg" using scalper_defaults_resolve by blast
  from scalper_frame_equals_prefix_evaluation [OF decaying.causal_smoother_axioms pandas.causal_smoother_axioms trend_facts(4,1) cfg, of NSE 0]
  show ?thesis by (auto simp: trend_facts(3))
qed

end
