(* ===== verification/Screener.thy ===== *)
theory Screener
  imports Indicators Execution_Policy "HOL-Library.Product_Lexorder" "HOL-Library.Multiset"
begin

text \<open>
  \<open>backend/screener/filters.py\<close>, \<open>ranking.py\<close> and \<open>engine.py\<close>: thresholds, the measurements of a
  symbol, the ranking of the symbols that pass, and the run over a universe, symbol by symbol or in
  batches. An instance of \<open>ScreenerFilters\<close> as Python builds it is the dict of its attributes, whose
  values are not checked; \<open>validate\<close> reads them in the order of the code and gives the typed record.
\<close>

section \<open>Filters\<close>

record screener_filters =
  sf_lookback_days :: real
  sf_minimum_price :: "real option"
  sf_maximum_price :: "real option"
  sf_minimum_traded :: "real option"
  sf_minimum_volume :: "real option"
  sf_minimum_volatility :: "real option"
  sf_maximum_volatility :: "real option"
  sf_minimum_coverage :: real
  sf_minimum_sessions :: real
  sf_rank_by :: string
  sf_maximum_symbols :: "real option"

definition RANKING_KEYS :: "string list" where
  "RANKING_KEYS = [''liquidity'', ''volume'', ''volatility'', ''price'', ''coverage'']"

definition DEFAULT_FILTERS :: config where
  "DEFAULT_FILTERS =
     [(''lookback_days'', PyInt 20), (''minimum_price'', PyNone), (''maximum_price'', PyNone),
      (''minimum_average_traded_value'', PyNone), (''minimum_average_volume'', PyNone),
      (''minimum_volatility_pct'', PyNone), (''maximum_volatility_pct'', PyNone),
      (''minimum_candle_coverage'', PyFloat (4 / 5)), (''minimum_sessions'', PyInt 5),
      (''rank_by'', PyStr ''liquidity''), (''maximum_symbols'', PyNone)]"

text \<open>\<open>getattr(self, name)\<close>; a comparison with a value that is no number raises.\<close>

definition attr :: "config \<Rightarrow> string \<Rightarrow> pyval" where
  "attr attrs name = (case map_of attrs name of Some v \<Rightarrow> v | None \<Rightarrow> PyNone)"

definition non_negative :: "config \<Rightarrow> string \<Rightarrow> real option res" where
  "non_negative attrs name =
     rbind (opt_number (attr attrs name)) (\<lambda>v.
       if case_option False (\<lambda>x. x < 0) v then Inl (ValueError (name @ '' cannot be negative'')) else Inr v)"

definition exceeds :: "real option \<Rightarrow> real option \<Rightarrow> bool" where
  "exceeds a b = (case (a, b) of (Some x, Some y) \<Rightarrow> x > y | _ \<Rightarrow> False)"

definition filters_validate :: "config \<Rightarrow> screener_filters res" where
  "filters_validate attrs =
     rbind (num_elem (attr attrs ''lookback_days'')) (\<lambda>lookback.
     rbind (raise_if (lookback < 1) (ValueError ''lookback_days must be at least 1'')) (\<lambda>_.
     rbind (non_negative attrs ''minimum_price'') (\<lambda>min_price.
     rbind (non_negative attrs ''maximum_price'') (\<lambda>max_price.
     rbind (non_negative attrs ''minimum_average_traded_value'') (\<lambda>traded.
     rbind (non_negative attrs ''minimum_average_volume'') (\<lambda>volume.
     rbind (non_negative attrs ''minimum_volatility_pct'') (\<lambda>min_vol.
     rbind (non_negative attrs ''maximum_volatility_pct'') (\<lambda>max_vol.
     rbind (raise_if (exceeds min_price max_price) (ValueError ''minimum_price cannot exceed maximum_price'')) (\<lambda>_.
     rbind (raise_if (exceeds min_vol max_vol) (ValueError ''minimum_volatility_pct cannot exceed maximum_volatility_pct'')) (\<lambda>_.
     rbind (num_elem (attr attrs ''minimum_candle_coverage'')) (\<lambda>coverage.
     rbind (raise_if (\<not> (0 < coverage \<and> coverage \<le> 1)) (ValueError ''minimum_candle_coverage must be in (0, 1]'')) (\<lambda>_.
     rbind (num_elem (attr attrs ''minimum_sessions'')) (\<lambda>sessions.
     rbind (raise_if (sessions < 1) (ValueError ''minimum_sessions must be at least 1'')) (\<lambda>_.
     rbind (case attr attrs ''rank_by'' of
              PyStr s \<Rightarrow> if s \<in> set RANKING_KEYS then Inr s else Inl (ValueError ''rank_by must be one of the ranking keys'')
            | PyList _ \<Rightarrow> Inl (TypeError ''unhashable type'')
            | _ \<Rightarrow> Inl (ValueError ''rank_by must be one of the ranking keys'')) (\<lambda>rank_by.
     rbind (opt_number (attr attrs ''maximum_symbols'')) (\<lambda>maximum.
     rbind (raise_if (case_option False (\<lambda>x. x < 1) maximum) (ValueError ''maximum_symbols must be at least 1'')) (\<lambda>_.
       Inr \<lparr>sf_lookback_days = lookback, sf_minimum_price = min_price, sf_maximum_price = max_price, sf_minimum_traded = traded,
            sf_minimum_volume = volume, sf_minimum_volatility = min_vol, sf_maximum_volatility = max_vol,
            sf_minimum_coverage = coverage, sf_minimum_sessions = sessions, sf_rank_by = rank_by,
            sf_maximum_symbols = maximum\<rparr>)))))))))))))))))"

definition FILTER_ALIASES :: "(string \<times> string) list" where
  "FILTER_ALIASES =
     [(''lookbackDays'', ''lookback_days''), (''minimumPrice'', ''minimum_price''), (''maximumPrice'', ''maximum_price''),
      (''minimumAverageTradedValue'', ''minimum_average_traded_value''), (''minimumAverageVolume'', ''minimum_average_volume''),
      (''minimumVolatilityPct'', ''minimum_volatility_pct''), (''maximumVolatilityPct'', ''maximum_volatility_pct''),
      (''minimumCandleCoverage'', ''minimum_candle_coverage''), (''minimumSessions'', ''minimum_sessions''),
      (''rankBy'', ''rank_by''), (''maximumSymbols'', ''maximum_symbols'')]"

definition filter_step :: "config \<Rightarrow> string \<times> pyval \<Rightarrow> config res" where
  "filter_step kwargs entry =
     (let name = (case map_of FILTER_ALIASES (fst entry) of Some n \<Rightarrow> n | None \<Rightarrow> fst entry)
      in if name \<notin> fst ` set DEFAULT_FILTERS then Inl (ValueError ''Unknown screener filter'')
         else Inr (AList.update name (snd entry) kwargs))"

definition filters_from_mapping :: "config \<Rightarrow> screener_filters res" where
  "filters_from_mapping values = rbind (rfold filter_step DEFAULT_FILTERS values) filters_validate"

definition filters_public :: "screener_filters \<Rightarrow> config" where
  "filters_public f =
     [(''lookbackDays'', PyFloat (sf_lookback_days f)), (''minimumPrice'', opt_float (sf_minimum_price f)),
      (''maximumPrice'', opt_float (sf_maximum_price f)), (''minimumAverageTradedValue'', opt_float (sf_minimum_traded f)),
      (''minimumAverageVolume'', opt_float (sf_minimum_volume f)), (''minimumVolatilityPct'', opt_float (sf_minimum_volatility f)),
      (''maximumVolatilityPct'', opt_float (sf_maximum_volatility f)), (''minimumCandleCoverage'', PyFloat (sf_minimum_coverage f)),
      (''minimumSessions'', PyFloat (sf_minimum_sessions f)), (''rankBy'', PyStr (sf_rank_by f)),
      (''maximumSymbols'', opt_float (sf_maximum_symbols f))]"

text \<open>The attributes of a typed instance, on which \<open>run\<close> calls \<open>validate\<close> again.\<close>

definition filters_attrs :: "screener_filters \<Rightarrow> config" where
  "filters_attrs f = map2 (\<lambda>(k, _) (_, v). (k, v)) DEFAULT_FILTERS (filters_public f)"

section \<open>Metrics and rejections\<close>

record symbol_metrics =
  sm_bars :: nat
  sm_sessions :: nat
  sm_coverage :: real
  sm_last_price :: "real option"
  sm_last_candle :: "timestamp option"
  sm_traded_value :: real
  sm_volume :: real
  sm_volatility :: "real option"

datatype rejection =
    INSUFFICIENT_SESSIONS | INSUFFICIENT_CANDLE_COVERAGE | NO_PRICE | PRICE_BELOW_MINIMUM | PRICE_ABOVE_MAXIMUM
  | LIQUIDITY_BELOW_MINIMUM | VOLUME_BELOW_MINIMUM | VOLATILITY_BELOW_MINIMUM | VOLATILITY_ABOVE_MAXIMUM
  | CANDLE_DATA_UNAVAILABLE | RANKED_OUT_BY_MAXIMUM_SYMBOLS

definition below :: "real \<Rightarrow> real option \<Rightarrow> bool" where
  "below x bound = (case bound of None \<Rightarrow> False | Some b \<Rightarrow> x < b)"

definition filters_evaluate :: "screener_filters \<Rightarrow> symbol_metrics \<Rightarrow> rejection option" where
  "filters_evaluate f k =
     (if real (sm_sessions k) < sf_minimum_sessions f then Some INSUFFICIENT_SESSIONS
      else if sm_coverage k < sf_minimum_coverage f then Some INSUFFICIENT_CANDLE_COVERAGE
      else case sm_last_price k of
        None \<Rightarrow> Some NO_PRICE
      | Some price \<Rightarrow>
          if below price (sf_minimum_price f) then Some PRICE_BELOW_MINIMUM
          else if exceeds (Some price) (sf_maximum_price f) then Some PRICE_ABOVE_MAXIMUM
          else if below (sm_traded_value k) (sf_minimum_traded f) then Some LIQUIDITY_BELOW_MINIMUM
          else if below (sm_volume k) (sf_minimum_volume f) then Some VOLUME_BELOW_MINIMUM
          else if sf_minimum_volatility f \<noteq> None
               \<and> (case sm_volatility k of None \<Rightarrow> True | Some v \<Rightarrow> below v (sf_minimum_volatility f))
          then Some VOLATILITY_BELOW_MINIMUM
          else if exceeds (sm_volatility k) (sf_maximum_volatility f) then Some VOLATILITY_ABOVE_MAXIMUM
          else None)"

definition expected_bars :: "market \<Rightarrow> string \<Rightarrow> nat option" where
  "expected_bars m timeframe =
     map_of (case m of NSE \<Rightarrow> [(''5m'', 75), (''15m'', 25), (''1h'', 7)]
       | CRYPTO \<Rightarrow> [(''5m'', 288), (''15m'', 96), (''1h'', 24)]) timeframe"

definition traded_value_mean :: "market \<Rightarrow> candle list \<Rightarrow> real" where
  "traded_value_mean m data =
     series_mean (map (\<lambda>d. sum_list (map (\<lambda>c. ca_close c * ca_volume c) (filter (\<lambda>c. local_date m (ca_at c) = d) data)))
       (remdups (map (\<lambda>c. local_date m (ca_at c)) data)))"

text \<open>\<open>ewm\<close> and \<open>sort_index\<close> are the pandas mean and the pandas sort of \<open>normalize_candles\<close>.\<close>

definition symbol_metrics_of ::
  "(real \<Rightarrow> series \<Rightarrow> series) \<Rightarrow> (candle list \<Rightarrow> candle list) \<Rightarrow> market \<Rightarrow> string \<Rightarrow> string list \<times> raw_candle list
    \<Rightarrow> symbol_metrics res" where
  "symbol_metrics_of ewm sort_index m timeframe frame =
     rbind (normalize_candles sort_index (fst frame) (snd frame)) (\<lambda>data.
       if data = [] then Inr \<lparr>sm_bars = 0, sm_sessions = 0, sm_coverage = 0, sm_last_price = None, sm_last_candle = None,
            sm_traded_value = 0, sm_volume = 0, sm_volatility = None\<rparr>
       else let session_count = length (remdups (map (\<lambda>c. local_date m (ca_at c)) data));
                coverage = (case expected_bars m timeframe of
                    Some expected \<Rightarrow> min 1 (real (length data) / real (expected * session_count)) | None \<Rightarrow> 1);
                last_close = ca_close (last data)
            in rbind (atr ewm ewm data 14 False) (\<lambda>ranges.
                 Inr \<lparr>sm_bars = length data, sm_sessions = session_count, sm_coverage = py_round coverage 4,
                   sm_last_price = Some (py_round last_close 4), sm_last_candle = Some (ca_at (last data)),
                   sm_traded_value = py_round (traded_value_mean m data) 2,
                   sm_volume = py_round (series_mean (map ca_volume data)) 2,
                   sm_volatility = (case last ranges of
                      Some r \<Rightarrow> if is_finite r \<and> last_close > 0 then Some (py_round (r / last_close * 100) 4) else None
                    | None \<Rightarrow> None)\<rparr>))"

section \<open>Ranking\<close>

text \<open>A score that is missing is minus infinity: \<open>None\<close> here, below every number.\<close>

record screen_row =
  sw_symbol :: string
  sw_passed :: bool
  sw_rank :: "nat option"
  sw_score :: "real option option"
  sw_reason :: "rejection option"
  sw_metrics :: "py_error + symbol_metrics"

definition metric_score :: "py_error + symbol_metrics \<Rightarrow> string \<Rightarrow> real option" where
  "metric_score k rank_by =
     (case k of Inl _ \<Rightarrow> None
      | Inr m \<Rightarrow> if rank_by = ''liquidity'' then Some (sm_traded_value m) else if rank_by = ''volume'' then Some (sm_volume m)
          else if rank_by = ''volatility'' then sm_volatility m else if rank_by = ''price'' then sm_last_price m
          else Some (sm_coverage m))"

text \<open>The keys of the two sorts: \<open>(score, symbol)\<close> and \<open>(-score, symbol)\<close>.\<close>

definition ascending_key :: "screen_row \<Rightarrow> bool \<times> real \<times> string" where
  "ascending_key r = (case the (sw_score r) of None \<Rightarrow> (False, 0, sw_symbol r) | Some x \<Rightarrow> (True, x, sw_symbol r))"

definition rank_key :: "screen_row \<Rightarrow> bool \<times> real \<times> string" where
  "rank_key r = (case the (sw_score r) of None \<Rightarrow> (True, 0, sw_symbol r) | Some x \<Rightarrow> (False, - x, sw_symbol r))"

definition set_rank :: "real option \<Rightarrow> nat \<times> screen_row \<Rightarrow> screen_row" where
  "set_rank maximum entry =
     (let (position, row) = entry in
      if case_option False (\<lambda>n. real position > n) maximum
      then row\<lparr>sw_passed := False, sw_rank := None, sw_reason := Some RANKED_OUT_BY_MAXIMUM_SYMBOLS\<rparr>
      else row\<lparr>sw_rank := Some position\<rparr>)"

definition rank_symbols :: "screen_row list \<Rightarrow> string \<Rightarrow> real option \<Rightarrow> screen_row list res" where
  "rank_symbols rows rank_by maximum =
     (if rank_by \<notin> set RANKING_KEYS then Inl (KeyError rank_by)
      else let passing = map (\<lambda>r. r\<lparr>sw_score := Some (metric_score (sw_metrics r) rank_by)\<rparr>) (filter sw_passed rows);
               descending = rev (sort_key ascending_key (rev passing))
           in Inr (map (set_rank maximum) (List.enumerate 1 (sort_key rank_key descending))))"

section \<open>The run\<close>

text \<open>
  The source of candles, and the batch reader if it has one; the frames and errors of a batch are
  dicts by symbol. \<open>cancel\<close> is what the cancellation event answers at each look at it.
\<close>

type_synonym candle_batch = "(string \<times> (string list \<times> raw_candle list)) list \<times> (string \<times> py_error) list"

record screener_env =
  sn_market :: market_spec
  sn_source :: candle_source
  sn_batch_reader :: "(string list \<Rightarrow> string \<Rightarrow> timestamp \<Rightarrow> timestamp \<Rightarrow> int \<Rightarrow> candle_batch res) option"
  sn_timeframe :: string
  sn_batch_size :: nat
  sn_ewm :: "real \<Rightarrow> series \<Rightarrow> series"
  sn_sort :: "candle list \<Rightarrow> candle list"

record screener_outcome =
  so_rows :: "screen_row list"
  so_failed :: "(string \<times> py_error) list"
  so_progress :: "(nat \<times> nat) list"
  so_checks :: nat

definition mk_screener ::
  "market_spec \<Rightarrow> candle_source \<Rightarrow> (string list \<Rightarrow> string \<Rightarrow> timestamp \<Rightarrow> timestamp \<Rightarrow> int \<Rightarrow> candle_batch res) option \<Rightarrow> string \<Rightarrow> int
    \<Rightarrow> (real \<Rightarrow> series \<Rightarrow> series) \<Rightarrow> (candle list \<Rightarrow> candle list) \<Rightarrow> screener_env res" where
  "mk_screener spec source reader timeframe batch_size ewm sort_index =
     (if \<not> (1 \<le> batch_size \<and> batch_size \<le> 250) then Inl (ValueError ''Screener batch_size must be between 1 and 250'')
      else Inr \<lparr>sn_market = spec, sn_source = source, sn_batch_reader = reader, sn_timeframe = timeframe,
                sn_batch_size = nat batch_size, sn_ewm = ewm, sn_sort = sort_index\<rparr>)"

definition failed_row :: "string \<Rightarrow> py_error \<Rightarrow> screen_row" where
  "failed_row symbol e = \<lparr>sw_symbol = symbol, sw_passed = False, sw_rank = None, sw_score = None,
     sw_reason = Some CANDLE_DATA_UNAVAILABLE, sw_metrics = Inl e\<rparr>"

definition measured_row :: "screener_filters \<Rightarrow> string \<Rightarrow> symbol_metrics \<Rightarrow> screen_row" where
  "measured_row f symbol k = (let reason = filters_evaluate f k in
     \<lparr>sw_symbol = symbol, sw_passed = (reason = None), sw_rank = None, sw_score = None, sw_reason = reason, sw_metrics = Inr k\<rparr>)"

definition screen_evaluate ::
  "screener_env \<Rightarrow> screener_filters \<Rightarrow> string \<Rightarrow> (string list \<times> raw_candle list) res \<Rightarrow> screener_outcome \<Rightarrow> screener_outcome" where
  "screen_evaluate env f symbol candles_or_error st =
     (case rbind candles_or_error (symbol_metrics_of (sn_ewm env) (sn_sort env) (ms_market (sn_market env)) (sn_timeframe env)) of
        Inl e \<Rightarrow> st\<lparr>so_rows := so_rows st @ [failed_row symbol e], so_failed := so_failed st @ [(symbol, e)]\<rparr>
      | Inr k \<Rightarrow> st\<lparr>so_rows := so_rows st @ [measured_row f symbol k]\<rparr>)"

definition read_one :: "screener_env \<Rightarrow> timestamp \<Rightarrow> timestamp \<Rightarrow> string \<Rightarrow> (string list \<times> raw_candle list) res" where
  "read_one env start now symbol = sn_source env symbol (sn_timeframe env) start now 0"

definition looked :: "screener_outcome \<Rightarrow> screener_outcome" where
  "looked st = st\<lparr>so_checks := so_checks st + 1\<rparr>"

definition report :: "nat \<Rightarrow> screener_outcome \<Rightarrow> screener_outcome" where
  "report n_symbols st = st\<lparr>so_progress := so_progress st @ [(length (so_progress st) + 1, n_symbols)]\<rparr>"

fun screen_each ::
  "screener_env \<Rightarrow> screener_filters \<Rightarrow> (nat \<Rightarrow> bool) \<Rightarrow> nat \<Rightarrow> (string \<Rightarrow> (string list \<times> raw_candle list) res) \<Rightarrow> string list
    \<Rightarrow> screener_outcome \<Rightarrow> screener_outcome" where
  "screen_each env f cancel n_symbols reader [] st = st"
| "screen_each env f cancel n_symbols reader (symbol # symbols) st =
     (if cancel (so_checks st) then looked st
      else screen_each env f cancel n_symbols reader symbols
             (report n_symbols (screen_evaluate env f symbol (reader symbol) (looked st))))"

definition batch_lookup :: "candle_batch \<Rightarrow> string \<Rightarrow> (string list \<times> raw_candle list) res" where
  "batch_lookup batch symbol =
     (case map_of (snd batch) symbol of
        Some e \<Rightarrow> Inl e
      | None \<Rightarrow> Inr (case map_of (fst batch) symbol of Some frame \<Rightarrow> frame | None \<Rightarrow> ([], [])))"

fun chunks :: "nat \<Rightarrow> 'a list \<Rightarrow> 'a list list" where
  "chunks n xs = (if n = 0 \<or> xs = [] then [] else take n xs # chunks n (drop n xs))"

declare chunks.simps [simp del]

fun screen_batches ::
  "screener_env \<Rightarrow> screener_filters \<Rightarrow> (nat \<Rightarrow> bool) \<Rightarrow> nat \<Rightarrow> (string list \<Rightarrow> candle_batch res) \<Rightarrow> string list list
    \<Rightarrow> screener_outcome \<Rightarrow> screener_outcome" where
  "screen_batches env f cancel n_symbols reader [] st = st"
| "screen_batches env f cancel n_symbols reader (symbols # rest) st =
     (if cancel (so_checks st) then looked st
      else let batch = (case reader symbols of Inr b \<Rightarrow> b | Inl e \<Rightarrow> ([], map (\<lambda>s. (s, e)) symbols))
           in screen_batches env f cancel n_symbols reader rest
                (screen_each env f cancel n_symbols (batch_lookup batch) symbols (looked st)))"

definition screened_symbols :: "string list \<Rightarrow> string list" where
  "screened_symbols symbols = fromkeys (map (\<lambda>s. py_upper (py_strip s)) (filter (\<lambda>s. py_strip s \<noteq> []) symbols))"

definition screen_start :: "screener_env \<Rightarrow> screener_filters \<Rightarrow> timestamp \<Rightarrow> timestamp" where
  "screen_start env f now =
     now - round_half_even ((sf_lookback_days f * (if ms_market (sn_market env) = NSE then 2 else 1) + 1) * of_int DAY_US)"

definition screen_all ::
  "screener_env \<Rightarrow> screener_filters \<Rightarrow> (nat \<Rightarrow> bool) \<Rightarrow> timestamp \<Rightarrow> string list \<Rightarrow> screener_outcome" where
  "screen_all env f cancel now unique =
     (let start = screen_start env f now; n_symbols = length unique;
          st = \<lparr>so_rows = [], so_failed = [], so_progress = [], so_checks = 0\<rparr>
      in case sn_batch_reader env of
           None \<Rightarrow> screen_each env f cancel n_symbols (read_one env start now) unique st
         | Some reader \<Rightarrow> screen_batches env f cancel n_symbols (\<lambda>symbols. reader symbols (sn_timeframe env) start now 0)
             (chunks (sn_batch_size env) unique) st)"

definition screener_run ::
  "screener_env \<Rightarrow> screener_filters \<Rightarrow> (nat \<Rightarrow> bool) \<Rightarrow> timestamp \<Rightarrow> string list \<Rightarrow> screener_outcome res" where
  "screener_run env f cancel now symbols =
     rbind (filters_validate (filters_attrs f)) (\<lambda>_.
       let st = screen_all env f cancel now (screened_symbols symbols)
       in rbind (rank_symbols (so_rows st) (sf_rank_by f) (sf_maximum_symbols f)) (\<lambda>ranked.
            let by_symbol = map_of (rev (map (\<lambda>r. (sw_symbol r, r)) ranked))
            in Inr (st\<lparr>so_rows := map (\<lambda>r. case by_symbol (sw_symbol r) of Some r' \<Rightarrow> r' | None \<Rightarrow> r) (so_rows st)\<rparr>)))"

definition outcome_passed :: "screener_outcome \<Rightarrow> screen_row list" where
  "outcome_passed st = filter sw_passed (so_rows st)"

definition outcome_rejected :: "screener_outcome \<Rightarrow> screen_row list" where
  "outcome_rejected st = filter (\<lambda>r. \<not> sw_passed r) (so_rows st)"

definition passing_symbols :: "screener_outcome \<Rightarrow> string list" where
  "passing_symbols st = map sw_symbol (sort_key (\<lambda>r. case sw_rank r of Some n \<Rightarrow> n | None \<Rightarrow> 0) (outcome_passed st))"

definition apply_manual_selection :: "string list \<Rightarrow> string list \<Rightarrow> string list \<Rightarrow> string list" where
  "apply_manual_selection symbols includes excludes =
     (let clean = (\<lambda>items. map (\<lambda>s. py_upper (py_strip s)) (filter (\<lambda>s. py_strip s \<noteq> []) items))
      in filter (\<lambda>s. s \<notin> set (clean excludes)) (fromkeys (symbols @ clean includes)))"

section \<open>Valid filters\<close>

lemma attr_simps:
  "attr (filters_attrs f) ''lookback_days'' = PyFloat (sf_lookback_days f)"
  "attr (filters_attrs f) ''minimum_price'' = opt_float (sf_minimum_price f)"
  "attr (filters_attrs f) ''maximum_price'' = opt_float (sf_maximum_price f)"
  "attr (filters_attrs f) ''minimum_average_traded_value'' = opt_float (sf_minimum_traded f)"
  "attr (filters_attrs f) ''minimum_average_volume'' = opt_float (sf_minimum_volume f)"
  "attr (filters_attrs f) ''minimum_volatility_pct'' = opt_float (sf_minimum_volatility f)"
  "attr (filters_attrs f) ''maximum_volatility_pct'' = opt_float (sf_maximum_volatility f)"
  "attr (filters_attrs f) ''minimum_candle_coverage'' = PyFloat (sf_minimum_coverage f)"
  "attr (filters_attrs f) ''minimum_sessions'' = PyFloat (sf_minimum_sessions f)"
  "attr (filters_attrs f) ''rank_by'' = PyStr (sf_rank_by f)"
  "attr (filters_attrs f) ''maximum_symbols'' = opt_float (sf_maximum_symbols f)"
  by (simp_all add: attr_def filters_attrs_def DEFAULT_FILTERS_def filters_public_def)

lemma opt_number_float [simp]: "opt_number (opt_float x) = Inr x"
  by (cases x) (simp_all add: opt_number_def opt_float_def)

lemma non_negative_eq: "non_negative attrs name = Inr v \<longleftrightarrow> opt_number (attr attrs name) = Inr v \<and> \<not> case_option False (\<lambda>x. x < 0) v"
  by (auto simp: non_negative_def rbind_eq_Inr split: if_splits)

definition filters_ok :: "screener_filters \<Rightarrow> bool" where
  "filters_ok f \<longleftrightarrow> 1 \<le> sf_lookback_days f
     \<and> list_all (\<lambda>v. \<not> case_option False (\<lambda>x. x < 0) v) [sf_minimum_price f, sf_maximum_price f, sf_minimum_traded f,
         sf_minimum_volume f, sf_minimum_volatility f, sf_maximum_volatility f]
     \<and> \<not> exceeds (sf_minimum_price f) (sf_maximum_price f) \<and> \<not> exceeds (sf_minimum_volatility f) (sf_maximum_volatility f)
     \<and> 0 < sf_minimum_coverage f \<and> sf_minimum_coverage f \<le> 1 \<and> 1 \<le> sf_minimum_sessions f
     \<and> sf_rank_by f \<in> set RANKING_KEYS \<and> \<not> case_option False (\<lambda>x. x < 1) (sf_maximum_symbols f)"

lemma validate_ok: "filters_validate attrs = Inr f \<Longrightarrow> filters_ok f"
  by (auto simp: filters_validate_def rbind_eq_Inr raise_if_def non_negative_eq filters_ok_def
      split: if_splits pyval.splits)

lemma raise_if_eq [simp]: "raise_if b e = Inr u \<longleftrightarrow> \<not> b"
  by (simp add: raise_if_def)

lemma validate_attrs: "filters_ok f \<Longrightarrow> filters_validate (filters_attrs f) = Inr f"
  by (simp add: filters_validate_def attr_simps non_negative_def filters_ok_def raise_if_def)

text \<open>The public form decodes to the same filters.\<close>

lemma filters_round_trip: "filters_ok f \<Longrightarrow> filters_from_mapping (filters_public f) = Inr f"
proof -
  assume ok: "filters_ok f"
  have "rfold filter_step DEFAULT_FILTERS (filters_public f) = Inr (filters_attrs f)"
    by (simp add: filters_public_def filters_attrs_def DEFAULT_FILTERS_def filter_step_def FILTER_ALIASES_def)
  with validate_attrs [OF ok] show ?thesis by (simp add: filters_from_mapping_def)
qed

section \<open>Rows of an uncancelled run\<close>

definition screen_row_of ::
  "screener_env \<Rightarrow> screener_filters \<Rightarrow> (string \<Rightarrow> (string list \<times> raw_candle list) res) \<Rightarrow> string \<Rightarrow> screen_row" where
  "screen_row_of env f reader symbol =
     (case rbind (reader symbol) (symbol_metrics_of (sn_ewm env) (sn_sort env) (ms_market (sn_market env)) (sn_timeframe env)) of
        Inl e \<Rightarrow> failed_row symbol e | Inr k \<Rightarrow> measured_row f symbol k)"

lemma screen_row_symbol [simp]: "sw_symbol (screen_row_of env f reader s) = s"
  by (simp add: screen_row_of_def failed_row_def measured_row_def Let_def split: sum.split)

lemma screen_evaluate_rows [simp]:
  "so_rows (report n (screen_evaluate env f s (reader s) (looked st))) = so_rows st @ [screen_row_of env f reader s]"
  by (simp add: screen_evaluate_def screen_row_of_def report_def looked_def split: sum.split)

lemma screen_each_rows: "so_rows (screen_each env f (\<lambda>_. False) n reader ss st) = so_rows st @ map (screen_row_of env f reader) ss"
  by (induction ss arbitrary: st) simp_all

definition read_batch :: "(string list \<Rightarrow> candle_batch res) \<Rightarrow> string list \<Rightarrow> candle_batch" where
  "read_batch reader symbols = (case reader symbols of Inr b \<Rightarrow> b | Inl e \<Rightarrow> ([], map (\<lambda>s. (s, e)) symbols))"

lemma screen_batches_rows:
  "so_rows (screen_batches env f (\<lambda>_. False) n reader bs st)
     = so_rows st @ concat (map (\<lambda>b. map (screen_row_of env f (batch_lookup (read_batch reader b))) b) bs)"
  by (induction bs arbitrary: st) (simp_all add: screen_each_rows looked_def read_batch_def Let_def)

lemma concat_chunks: "0 < n \<Longrightarrow> concat (chunks n xs) = xs"
proof (induction n xs rule: chunks.induct)
  case (1 n xs)
  then show ?case by (subst chunks.simps) simp
qed

lemma screen_all_symbols:
  assumes "0 < sn_batch_size env"
  shows "map sw_symbol (so_rows (screen_all env f (\<lambda>_. False) now unique)) = unique"
  using assms by (simp add: screen_all_def Let_def screen_each_rows screen_batches_rows comp_def map_concat concat_chunks
      split: option.split)

lemma screen_all_row:
  assumes "r \<in> set (so_rows (screen_all env f (\<lambda>_. False) now unique))"
  shows "\<exists>reader s. r = screen_row_of env f reader s"
  using assms by (auto simp: screen_all_def Let_def screen_each_rows screen_batches_rows split: option.splits)

section \<open>The ranking\<close>

definition scored :: "string \<Rightarrow> screen_row \<Rightarrow> screen_row" where
  "scored rank_by r = r\<lparr>sw_score := Some (metric_score (sw_metrics r) rank_by)\<rparr>"

definition ranking :: "screen_row list \<Rightarrow> string \<Rightarrow> screen_row list" where
  "ranking rows rank_by = sort_key rank_key (rev (sort_key ascending_key (rev (map (scored rank_by) (filter sw_passed rows)))))"

lemma scored_simps [simp]:
  "sw_symbol (scored key r) = sw_symbol r" "sw_passed (scored key r) = sw_passed r" "sw_reason (scored key r) = sw_reason r"
  "sw_metrics (scored key r) = sw_metrics r" "sw_score (scored key r) = Some (metric_score (sw_metrics r) key)"
  by (simp_all add: scored_def)

lemma set_rank_simps [simp]:
  "sw_symbol (set_rank m e) = sw_symbol (snd e)" "sw_metrics (set_rank m e) = sw_metrics (snd e)"
  "rank_key (set_rank m e) = rank_key (snd e)"
  by (simp_all add: set_rank_def rank_key_def case_prod_unfold Let_def split: option.split)

lemma rank_symbols_eq:
  "key \<in> set RANKING_KEYS \<Longrightarrow> rank_symbols rows key maximum = Inr (map (set_rank maximum) (List.enumerate 1 (ranking rows key)))"
  by (simp add: rank_symbols_def ranking_def scored_def [abs_def] Let_def)

lemma mset_ranking: "mset (ranking rows key) = mset (map (scored key) (filter sw_passed rows))"
  by (simp add: ranking_def)

lemma set_ranking: "set (ranking rows key) = scored key ` {r \<in> set rows. sw_passed r}"
  using mset_ranking [of rows key] by (metis image_set set_filter set_mset_mset)

lemma ranking_symbols: "mset (map sw_symbol (ranking rows key)) = mset (map sw_symbol (filter sw_passed rows))"
proof -
  have "mset (map sw_symbol (ranking rows key)) = image_mset sw_symbol (mset (map (scored key) (filter sw_passed rows)))"
    by (simp only: mset_map mset_ranking)
  then show ?thesis by (simp add: image_mset.compositionality comp_def)
qed

lemma rank_key_symbol: "snd (snd (rank_key r)) = sw_symbol r"
  by (simp add: rank_key_def split: option.split)

lemma distinct_ranking:
  assumes "distinct (map sw_symbol rows)" shows "distinct (map sw_symbol (ranking rows key))"
proof -
  have "distinct (map sw_symbol (filter sw_passed rows))" using assms by (rule distinct_map_filter)
  with mset_eq_imp_distinct_iff [OF ranking_symbols, of rows key] show ?thesis by blast
qed

lemma ranking_sorted:
  assumes "distinct (map sw_symbol rows)"
  shows "sorted_wrt (\<lambda>r q. rank_key r < rank_key q) (ranking rows key)"
proof -
  have "distinct (map (snd \<circ> snd) (map rank_key (ranking rows key)))"
    using distinct_ranking [OF assms, of key] by (simp add: comp_def rank_key_symbol)
  then have "distinct (map rank_key (ranking rows key))" using iffD1 [OF distinct_map] by blast
  moreover have "sorted (map rank_key (ranking rows key))" by (simp add: ranking_def)
  ultimately have "sorted_wrt (<) (map rank_key (ranking rows key))" by (simp add: strict_sorted_iff)
  then show ?thesis by (simp add: sorted_wrt_map)
qed

text \<open>How many of the ranked symbols are kept, and the split of the ranked rows at that place.\<close>

definition kept :: "real option \<Rightarrow> nat \<Rightarrow> nat" where
  "kept maximum n = (case maximum of None \<Rightarrow> n | Some k \<Rightarrow> min n (nat \<lfloor>k\<rfloor>))"

definition best_rows :: "real option \<Rightarrow> screen_row list \<Rightarrow> screen_row list" where
  "best_rows maximum rs = map (\<lambda>(i, r). r\<lparr>sw_rank := Some i\<rparr>) (List.enumerate 1 (take (kept maximum (length rs)) rs))"

definition cut_rows :: "real option \<Rightarrow> screen_row list \<Rightarrow> screen_row list" where
  "cut_rows maximum rs = map (\<lambda>r. r\<lparr>sw_passed := False, sw_rank := None, sw_reason := Some RANKED_OUT_BY_MAXIMUM_SYMBOLS\<rparr>)
     (drop (kept maximum (length rs)) rs)"

lemma enumerate_map: "map f (List.enumerate n xs) = map (\<lambda>i. f (n + i, xs ! i)) [0..<length xs]"
  by (rule nth_equalityI) (simp_all add: nth_enumerate_eq)

lemma over_maximum: "1 \<le> k \<Longrightarrow> real i > k \<longleftrightarrow> nat \<lfloor>k\<rfloor> < i"
  by linarith

lemma ranked_split:
  assumes "\<not> case_option False (\<lambda>x. x < 1) maximum"
  shows "map (set_rank maximum) (List.enumerate 1 rs) = best_rows maximum rs @ cut_rows maximum rs"
proof -
  let ?m = "kept maximum (length rs)"
  have m: "?m \<le> length rs" by (simp add: kept_def split: option.split)
  have set_rank: "set_rank maximum (Suc i, r) = (if i < ?m then r\<lparr>sw_rank := Some (Suc i)\<rparr>
      else r\<lparr>sw_passed := False, sw_rank := None, sw_reason := Some RANKED_OUT_BY_MAXIMUM_SYMBOLS\<rparr>)" if "i < length rs" for i r
  proof (cases maximum)
    case (Some k)
    with assms that over_maximum [of k "Suc i"] show ?thesis by (auto simp: set_rank_def kept_def)
  qed (use that in \<open>simp add: set_rank_def kept_def\<close>)
  show ?thesis
  proof (rule nth_equalityI)
    show "length (map (set_rank maximum) (List.enumerate 1 rs)) = length (best_rows maximum rs @ cut_rows maximum rs)"
      using m by (simp add: best_rows_def cut_rows_def)
  next
    fix i assume "i < length (map (set_rank maximum) (List.enumerate 1 rs))"
    then have i: "i < length rs" by simp
    show "map (set_rank maximum) (List.enumerate 1 rs) ! i = (best_rows maximum rs @ cut_rows maximum rs) ! i"
      using i m set_rank [OF i, of "rs ! i"] by (simp add: best_rows_def cut_rows_def nth_append nth_enumerate_eq)
  qed
qed

lemma rank_key_update [simp]:
  "rank_key (r\<lparr>sw_rank := i\<rparr>) = rank_key r" "rank_key (r\<lparr>sw_passed := b, sw_rank := i, sw_reason := e\<rparr>) = rank_key r"
  by (simp_all add: rank_key_def split: option.split)

lemma best_rows_ranks: "map sw_rank (best_rows m rs) = map Some [1..<Suc (length (best_rows m rs))]"
  by (simp add: best_rows_def enumerate_map comp_def del: upt_Suc flip: map_Suc_upt)

lemma best_rows_keys: "map rank_key (best_rows m rs) = map rank_key (take (kept m (length rs)) rs)"
  by (rule nth_equalityI) (simp_all add: best_rows_def nth_enumerate_eq)

text \<open>The dict of the ranked rows puts each ranked row in the place of the row it came from.\<close>

lemma map_of_rows:
  assumes "distinct (map sw_symbol rs)" and "r \<in> set rs"
  shows "map_of (rev (map (\<lambda>r. (sw_symbol r, r)) rs)) (sw_symbol r) = Some r"
  using assms by (auto intro!: map_of_is_SomeI simp: comp_def rev_map [symmetric])

lemma partition_mset: "mset (map f xs) = mset (map f (filter P xs)) + mset (map f (filter (\<lambda>x. \<not> P x) xs))"
  by (induction xs) simp_all

lemma replaced_mset:
  assumes d: "distinct (map sw_symbol raw)" and rs: "mset (map sw_symbol ranked) = mset (map sw_symbol (filter P raw))"
  defines "by_symbol \<equiv> map_of (rev (map (\<lambda>r. (sw_symbol r, r)) ranked))"
  shows "mset (map (\<lambda>r. case by_symbol (sw_symbol r) of Some r' \<Rightarrow> r' | None \<Rightarrow> r) raw)
    = mset ranked + mset (filter (\<lambda>r. \<not> P r) raw)"
proof -
  let ?f = "\<lambda>r. case by_symbol (sw_symbol r) of Some r' \<Rightarrow> r' | None \<Rightarrow> r"
  have dr: "distinct (map sw_symbol ranked)" using mset_eq_imp_distinct_iff [OF rs] distinct_map_filter [OF d] by blast
  have symbols: "set (map sw_symbol ranked) = set (map sw_symbol (filter P raw))" using rs by (metis set_mset_mset)
  have out: "?f r = r" if "r \<in> set raw" "\<not> P r" for r
  proof -
    have "sw_symbol r \<notin> set (map sw_symbol ranked)"
      using that d symbols by (auto simp: distinct_map inj_on_def)
    then have "by_symbol (sw_symbol r) = None" by (force simp: by_symbol_def map_of_eq_None_iff)
    then show ?thesis by simp
  qed
  have "mset (map ?f (filter P raw)) = image_mset (\<lambda>k. the (by_symbol k)) (mset (map sw_symbol (filter P raw)))"
  proof -
    have "?f r = the (by_symbol (sw_symbol r))" if "r \<in> set (filter P raw)" for r
    proof -
      have "sw_symbol r \<in> set (map sw_symbol ranked)" using that unfolding symbols by simp
      then obtain q where "q \<in> set ranked" "sw_symbol q = sw_symbol r" by auto
      with map_of_rows [OF dr, of q] show ?thesis by (simp add: by_symbol_def)
    qed
    then have eq: "map ?f (filter P raw) = map (\<lambda>r. the (by_symbol (sw_symbol r))) (filter P raw)" by (rule map_cong [OF refl])
    show ?thesis unfolding eq by (simp add: image_mset.compositionality comp_def)
  qed
  also have "\<dots> = mset (map (\<lambda>r. the (by_symbol (sw_symbol r))) ranked)" unfolding rs [symmetric] by (simp add: image_mset.compositionality comp_def)
  also have "map (\<lambda>r. the (by_symbol (sw_symbol r))) ranked = ranked"
    using map_of_rows [OF dr] by (intro map_idI) (simp add: by_symbol_def)
  finally have "mset (map ?f (filter P raw)) = mset ranked" .
  moreover have "map ?f (filter (\<lambda>r. \<not> P r) raw) = filter (\<lambda>r. \<not> P r) raw" using out by (intro map_idI) auto
  ultimately show ?thesis by (simp only: partition_mset [of ?f raw P])
qed

section \<open>Properties\<close>

lemma screened_distinct: "distinct (screened_symbols symbols)"
  by (simp add: screened_symbols_def)

lemma measured_passed: "sw_passed (screen_row_of env f reader s) \<longleftrightarrow> sw_reason (screen_row_of env f reader s) = None"
  by (simp add: screen_row_of_def failed_row_def measured_row_def Let_def split: sum.split)

definition meets_filters :: "screener_filters \<Rightarrow> screen_row \<Rightarrow> bool" where
  "meets_filters f r \<longleftrightarrow> (case sw_metrics r of Inl _ \<Rightarrow> False | Inr k \<Rightarrow> filters_evaluate f k = None)"

lemma meets_filters_simps [simp]:
  "meets_filters f (scored key r) = meets_filters f r" "meets_filters f (r\<lparr>sw_rank := i\<rparr>) = meets_filters f r"
  "meets_filters f (r\<lparr>sw_passed := b, sw_rank := i, sw_reason := e\<rparr>) = meets_filters f r"
  by (simp_all add: meets_filters_def)

lemma row_meets: "sw_passed (screen_row_of env f reader s) \<longleftrightarrow> meets_filters f (screen_row_of env f reader s)"
  by (simp add: screen_row_of_def failed_row_def measured_row_def meets_filters_def Let_def split: sum.split)

lemma row_not_cut: "sw_reason (screen_row_of env f reader s) \<noteq> Some RANKED_OUT_BY_MAXIMUM_SYMBOLS"
  by (simp add: screen_row_of_def failed_row_def measured_row_def filters_evaluate_def Let_def split: sum.split option.split)

text \<open>The outcome of an uncancelled run: the ranked rows and the rejected ones, in the order of the universe.\<close>

lemma run_outcome:
  fixes now symbols
  assumes ok: "filters_ok f" and size: "0 < sn_batch_size env"
  defines "raw \<equiv> so_rows (screen_all env f (\<lambda>_. False) now (screened_symbols symbols))"
  defines "rs \<equiv> ranking raw (sf_rank_by f)"
  obtains st where "screener_run env f (\<lambda>_. False) now symbols = Inr st"
    and "map sw_symbol (so_rows st) = screened_symbols symbols"
    and "mset (so_rows st) = mset (best_rows (sf_maximum_symbols f) rs @ cut_rows (sf_maximum_symbols f) rs)
      + mset (filter (\<lambda>r. \<not> sw_passed r) raw)"
proof -
  have symbols: "map sw_symbol raw = screened_symbols symbols" unfolding raw_def by (rule screen_all_symbols [OF size])
  have d: "distinct (map sw_symbol raw)" by (simp add: symbols screened_distinct)
  let ?ranked = "map (set_rank (sf_maximum_symbols f)) (List.enumerate 1 rs)"
  have rank: "rank_symbols raw (sf_rank_by f) (sf_maximum_symbols f) = Inr ?ranked"
    using ok by (simp add: rs_def filters_ok_def rank_symbols_eq)
  have "map sw_symbol ?ranked = map sw_symbol (map snd (List.enumerate 1 rs))"
    by (simp only: map_map comp_def set_rank_simps)
  then have "map sw_symbol ?ranked = map sw_symbol rs" by (simp only: map_snd_enumerate)
  then have keys: "mset (map sw_symbol ?ranked) = mset (map sw_symbol (filter sw_passed raw))"
    using ranking_symbols [of raw "sf_rank_by f"] by (simp only: rs_def)
  define rows where "rows = map (\<lambda>r. case map_of (rev (map (\<lambda>r. (sw_symbol r, r)) ?ranked)) (sw_symbol r) of
      Some r' \<Rightarrow> r' | None \<Rightarrow> r) raw"
  have "map sw_symbol rows = map sw_symbol raw"
    unfolding rows_def map_map by (rule map_cong) (auto split: option.split dest!: map_of_SomeD)
  with symbols have names: "map sw_symbol rows = screened_symbols symbols" by simp
  have run: "screener_run env f (\<lambda>_. False) now symbols
      = Inr ((screen_all env f (\<lambda>_. False) now (screened_symbols symbols))\<lparr>so_rows := rows\<rparr>)"
    using rank unfolding screener_run_def rows_def raw_def by (simp add: validate_attrs [OF ok] Let_def)
  have parts: "mset rows = mset ?ranked + mset (filter (\<lambda>r. \<not> sw_passed r) raw)"
    unfolding rows_def by (rule replaced_mset [OF d keys])
  have split: "?ranked = best_rows (sf_maximum_symbols f) rs @ cut_rows (sf_maximum_symbols f) rs"
    using ok by (intro ranked_split) (simp add: filters_ok_def)
  show ?thesis by (rule that [OF run]) (use names parts [unfolded split] in simp_all)
qed

lemma best_member: "r \<in> set (best_rows m rs) \<Longrightarrow> \<exists>q i. q \<in> set rs \<and> r = q\<lparr>sw_rank := Some i\<rparr>"
  by (auto simp: best_rows_def enumerate_map) (metis nth_mem)

lemma cut_member: "r \<in> set (cut_rows m rs) \<Longrightarrow>
    \<exists>q. q \<in> set rs \<and> r = q\<lparr>sw_passed := False, sw_rank := None, sw_reason := Some RANKED_OUT_BY_MAXIMUM_SYMBOLS\<rparr>"
  by (auto simp: cut_rows_def dest: in_set_dropD)

lemma best_before_cut:
  assumes "sorted_wrt (\<lambda>r q. rank_key r < rank_key q) rs" and "r \<in> set (best_rows m rs)" and "q \<in> set (cut_rows m rs)"
  shows "rank_key r < rank_key q"
proof -
  have "rank_key r \<in> rank_key ` set (take (kept m (length rs)) rs)"
    using assms(2) best_rows_keys [of m rs] by (metis image_eqI image_set)
  moreover have "rank_key q \<in> rank_key ` set (drop (kept m (length rs)) rs)"
    using assms(3) by (auto simp: cut_rows_def)
  moreover have "sorted_wrt (\<lambda>r q. rank_key r < rank_key q) (take (kept m (length rs)) rs @ drop (kept m (length rs)) rs)"
    using assms(1) by simp
  ultimately show ?thesis by (auto simp: sorted_wrt_append simp del: append_take_drop_id)
qed

lemma best_sorted:
  assumes "sorted_wrt (\<lambda>r q. rank_key r < rank_key q) rs"
  shows "sorted_wrt (\<lambda>r q. rank_key r < rank_key q) (best_rows m rs)"
proof -
  have "sorted_wrt (<) (map rank_key (best_rows m rs))"
    unfolding best_rows_keys using sorted_wrt_take [OF assms] by (simp add: sorted_wrt_map)
  then show ?thesis by (simp add: sorted_wrt_map)
qed

text \<open>Sorting by distinct ranks finds the list that is in the order of its ranks.\<close>

lemma sort_by_rank:
  assumes "mset best = mset rows" and "map g best = [1..<Suc (length best)]"
  shows "sort_key g rows = best"
proof (rule properties_for_sort_key)
  show "sorted (map g best)" unfolding assms(2) by (simp del: upt_Suc)
  have d: "distinct (map g best)" unfolding assms(2) by (simp del: upt_Suc)
  then have d': "distinct (map g rows)" using assms(1) by (metis mset_eq_imp_distinct_iff mset_map)
  fix k assume k: "k \<in> set best"
  have one: "filter (\<lambda>x. g k = g x) xs = [k]" if "distinct (map g xs)" "k \<in> set xs" for xs
    using that by (induction xs) (auto simp: filter_empty_conv image_iff)
  have "k \<in> set rows" using k assms(1) by (metis set_mset_mset)
  with one [OF d k] one [OF d'] show "filter (\<lambda>x. g k = g x) best = filter (\<lambda>x. g k = g x) rows" by simp
qed (use assms(1) in simp)

lemma passing_best:
  assumes "mset (best_rows m rs) = mset (outcome_passed st)"
  shows "passing_symbols st = map sw_symbol (best_rows m rs)"
proof -
  let ?g = "\<lambda>r. case sw_rank r of Some n \<Rightarrow> n | None \<Rightarrow> (0::nat)"
  have "map ?g (best_rows m rs) = map (case_option 0 (\<lambda>n. n)) (map sw_rank (best_rows m rs))" by (simp add: comp_def)
  then have "map ?g (best_rows m rs) = [1..<Suc (length (best_rows m rs))]"
    unfolding best_rows_ranks by (simp add: comp_def del: upt_Suc)
  then show ?thesis unfolding passing_symbols_def by (simp only: sort_by_rank [OF assms])
qed

lemma best_size: "\<not> case_option False (\<lambda>x. x < 1) m \<Longrightarrow> m = Some n \<Longrightarrow> real (length (best_rows m rs)) \<le> n"
  by (simp add: best_rows_def kept_def) linarith

lemma cut_size:
  assumes "\<not> case_option False (\<lambda>x. x < 1) m" and "q \<in> set (cut_rows m rs)"
  shows "\<exists>n. m = Some n \<and> n < real (length (best_rows m rs)) + 1"
proof (cases m)
  case (Some n)
  have "kept m (length rs) < length rs" using assms(2) by (cases "kept m (length rs) < length rs") (simp_all add: cut_rows_def)
  with Some assms(1) show ?thesis by (simp add: best_rows_def kept_def)
qed (use assms(2) in \<open>simp add: cut_rows_def kept_def\<close>)

lemma mk_screener_size: "mk_screener spec source reader timeframe width ewm srt = Inr env \<Longrightarrow> 0 < sn_batch_size env"
  by (auto simp: mk_screener_def split: if_splits)

text \<open>
  C19. What a screen promises. With filters that \<open>validate\<close> accepted and no cancellation a run never raises and returns one row
  per cleaned symbol of the universe, in its order, whatever the source answers. A row passes
  exactly if it has no rejection reason; the rows that meet the filters are those that pass or were
  ranked out. The passing rows have the ranks one to their number, without gaps, in the order of
  falling scores with ties by symbol, and \<open>passing_symbols\<close> lists them in that order; every
  ranked-out row is worse than all of them, and rows are only ranked out when the maximum is reached.
\<close>

theorem screener_ranks_best:
  assumes "filters_validate attrs = Inr f" and "mk_screener spec source reader timeframe width ewm srt = Inr env"
  shows "\<exists>st best. screener_run env f (\<lambda>_. False) now symbols = Inr st
    \<and> map sw_symbol (so_rows st) = screened_symbols symbols
    \<and> (\<forall>r \<in> set (so_rows st). (sw_passed r \<longleftrightarrow> sw_reason r = None)
         \<and> (meets_filters f r \<longleftrightarrow> sw_passed r \<or> sw_reason r = Some RANKED_OUT_BY_MAXIMUM_SYMBOLS)
         \<and> (meets_filters f r \<longrightarrow> sw_score r = Some (metric_score (sw_metrics r) (sf_rank_by f))))
    \<and> mset best = mset (outcome_passed st) \<and> map sw_rank best = map Some [1..<Suc (length best)]
    \<and> passing_symbols st = map sw_symbol best
    \<and> sorted_wrt (\<lambda>r q. rank_key r < rank_key q) best
    \<and> (\<forall>r \<in> set best. \<forall>q \<in> set (so_rows st).
         sw_reason q = Some RANKED_OUT_BY_MAXIMUM_SYMBOLS \<longrightarrow> rank_key r < rank_key q)
    \<and> (\<forall>q \<in> set (so_rows st). sw_reason q = Some RANKED_OUT_BY_MAXIMUM_SYMBOLS \<longrightarrow>
         (\<exists>n. sf_maximum_symbols f = Some n \<and> n < real (length best) + 1))
    \<and> (\<forall>n. sf_maximum_symbols f = Some n \<longrightarrow> real (length best) \<le> n)"
proof -
  note ok = validate_ok [OF assms(1)]
  define raw where "raw = so_rows (screen_all env f (\<lambda>_. False) now (screened_symbols symbols))"
  define rs where "rs = ranking raw (sf_rank_by f)"
  define m where "m = sf_maximum_symbols f"
  obtain st where run: "screener_run env f (\<lambda>_. False) now symbols = Inr st"
    and names: "map sw_symbol (so_rows st) = screened_symbols symbols"
    and parts: "mset (so_rows st) = mset (best_rows m rs @ cut_rows m rs) + mset (filter (\<lambda>r. \<not> sw_passed r) raw)"
    using run_outcome [OF ok mk_screener_size [OF assms(2)], of now symbols] unfolding raw_def rs_def m_def by blast
  have raw: "r \<in> set raw \<Longrightarrow> (sw_passed r \<longleftrightarrow> sw_reason r = None) \<and> (sw_passed r \<longleftrightarrow> meets_filters f r)
      \<and> sw_reason r \<noteq> Some RANKED_OUT_BY_MAXIMUM_SYMBOLS" for r
    unfolding raw_def using screen_all_row measured_passed row_meets row_not_cut by metis
  have in_rs: "sw_passed r \<and> sw_reason r = None \<and> meets_filters f r \<and> sw_score r = Some (metric_score (sw_metrics r) (sf_rank_by f))"
    if "r \<in> set rs" for r
  proof -
    from that obtain q where q: "q \<in> set raw" "sw_passed q" "r = scored (sf_rank_by f) q" by (auto simp: rs_def set_ranking)
    with raw [OF q(1)] show ?thesis by simp
  qed
  have best: "sw_passed r \<and> sw_reason r = None \<and> meets_filters f r \<and> sw_score r = Some (metric_score (sw_metrics r) (sf_rank_by f))"
    if "r \<in> set (best_rows m rs)" for r
    using best_member [OF that] in_rs by auto
  have cut: "\<not> sw_passed r \<and> sw_reason r = Some RANKED_OUT_BY_MAXIMUM_SYMBOLS \<and> meets_filters f r
      \<and> sw_score r = Some (metric_score (sw_metrics r) (sf_rank_by f))" if "r \<in> set (cut_rows m rs)" for r
    using cut_member [OF that] in_rs by auto
  have rows: "set (so_rows st) = set (best_rows m rs) \<union> set (cut_rows m rs) \<union> {r \<in> set raw. \<not> sw_passed r}"
    using parts by (metis set_append set_filter set_mset_mset set_mset_union)
  have "filter sw_passed (best_rows m rs @ cut_rows m rs @ filter (\<lambda>r. \<not> sw_passed r) raw) = best_rows m rs"
    using best cut by (simp add: filter_empty_conv)
  moreover have "mset (so_rows st) = mset (best_rows m rs @ cut_rows m rs @ filter (\<lambda>r. \<not> sw_passed r) raw)"
    by (simp add: parts)
  ultimately have passed: "mset (best_rows m rs) = mset (outcome_passed st)" by (metis mset_filter outcome_passed_def)
  note symbols = passing_best [OF passed]
  have "distinct (map sw_symbol raw)"
    unfolding raw_def by (simp add: screen_all_symbols [OF mk_screener_size [OF assms(2)]] screened_distinct)
  from ranking_sorted [OF this, of "sf_rank_by f", folded rs_def] have srt: "sorted_wrt (\<lambda>r q. rank_key r < rank_key q) rs" .
  have limit: "\<not> case_option False (\<lambda>x. x < 1) m" using ok by (simp add: m_def filters_ok_def)
  have ranked_out: "q \<in> set (cut_rows m rs)"
    if "q \<in> set (so_rows st)" "sw_reason q = Some RANKED_OUT_BY_MAXIMUM_SYMBOLS" for q
    using that rows best raw by fastforce
  have each: "\<forall>r \<in> set (so_rows st). (sw_passed r \<longleftrightarrow> sw_reason r = None)
      \<and> (meets_filters f r \<longleftrightarrow> sw_passed r \<or> sw_reason r = Some RANKED_OUT_BY_MAXIMUM_SYMBOLS)
      \<and> (meets_filters f r \<longrightarrow> sw_score r = Some (metric_score (sw_metrics r) (sf_rank_by f)))"
    unfolding rows using best cut raw by fastforce
  have full: "\<exists>n. m = Some n \<and> n < real (length (best_rows m rs)) + 1"
    if "q \<in> set (so_rows st)" "sw_reason q = Some RANKED_OUT_BY_MAXIMUM_SYMBOLS" for q
    using cut_size [OF limit ranked_out [OF that]] .
  show ?thesis
    using run names each passed best_rows_ranks symbols best_sorted [OF srt] best_before_cut [OF srt] ranked_out full best_size [OF limit, of _ rs]
    unfolding m_def by (intro exI [of _ st] exI [of _ "best_rows (sf_maximum_symbols f) rs"]) blast
qed

section \<open>Batches\<close>

definition outcome_view :: "screener_outcome \<Rightarrow> screener_outcome" where
  "outcome_view st = st\<lparr>so_checks := 0\<rparr>"

definition screen_step ::
  "screener_env \<Rightarrow> screener_filters \<Rightarrow> nat \<Rightarrow> (string \<Rightarrow> (string list \<times> raw_candle list) res) \<Rightarrow> screener_outcome \<Rightarrow> string \<Rightarrow> screener_outcome" where
  "screen_step env f n reader st s = report n (screen_evaluate env f s (reader s) st)"

lemma screen_step_view: "outcome_view (screen_step env f n reader (looked st) s) = screen_step env f n reader (outcome_view st) s"
  by (simp add: outcome_view_def screen_step_def screen_evaluate_def report_def looked_def split: sum.split)

lemma screen_each_view:
  "outcome_view (screen_each env f (\<lambda>_. False) n reader ss st) = foldl (screen_step env f n reader) (outcome_view st) ss"
  by (induction ss arbitrary: st) (simp_all add: screen_step_view flip: screen_step_def)

lemma outcome_view_looked [simp]: "outcome_view (looked st) = outcome_view st"
  by (simp add: outcome_view_def looked_def)

lemma outcome_view_rows: "so_rows (outcome_view st) = so_rows st"
  by (simp add: outcome_view_def)

lemma screen_batches_view:
  assumes "\<And>b s. b \<in> set bs \<Longrightarrow> s \<in> set b \<Longrightarrow> batch_lookup (read_batch reader b) s = single s"
  shows "outcome_view (screen_batches env f (\<lambda>_. False) n reader bs st) = foldl (screen_step env f n single) (outcome_view st) (concat bs)"
  using assms
proof (induction bs arbitrary: st)
  case (Cons b bs)
  have "foldl (screen_step env f n (batch_lookup (read_batch reader b))) v b = foldl (screen_step env f n single) v b" for v
    using Cons.prems [of b] by (intro foldl_cong) (simp_all add: screen_step_def)
  with Cons show ?case by (simp add: screen_each_view Let_def flip: read_batch_def)
qed simp

lemma screen_step_env: "screen_step (env\<lparr>sn_batch_reader := r\<rparr>) = screen_step env"
  by (intro ext) (simp add: screen_step_def screen_evaluate_def)

text \<open>
  Screening in batches gives what screening symbol by symbol gives: if for every batch the batch
  reader answers each of its symbols with the frame or error that the single reader has for it (a
  reader that raises counts as that error for all its symbols), then an uncancelled run over any
  universe and any batch size ends in the same rows, ranks, failures and progress reports, or raises
  the same error.
\<close>

theorem screener_batches_agree:
  assumes "sn_batch_reader env = Some reader" and "0 < sn_batch_size env"
    and "\<forall>b. \<forall>s \<in> set b. batch_lookup (read_batch (\<lambda>ss. reader ss (sn_timeframe env) (screen_start env f now) now 0) b) s
        = read_one env (screen_start env f now) now s"
  shows "map_sum id outcome_view (screener_run env f (\<lambda>_. False) now symbols)
    = map_sum id outcome_view (screener_run (env\<lparr>sn_batch_reader := None\<rparr>) f (\<lambda>_. False) now symbols)"
proof -
  let ?all = "\<lambda>env. screen_all env f (\<lambda>_. False) now (screened_symbols symbols)"
  have parts: "screen_start (env\<lparr>sn_batch_reader := None\<rparr>) f now = screen_start env f now"
    "read_one (env\<lparr>sn_batch_reader := None\<rparr>) = read_one env"
    by (simp_all add: screen_start_def read_one_def fun_eq_iff)
  have view: "outcome_view (?all env) = outcome_view (?all (env\<lparr>sn_batch_reader := None\<rparr>))"
    using assms by (simp add: screen_all_def Let_def screen_each_view screen_batches_view concat_chunks screen_step_env parts)
  then have rows: "so_rows (?all env) = so_rows (?all (env\<lparr>sn_batch_reader := None\<rparr>))"
    using outcome_view_rows by metis
  have upd: "outcome_view (st\<lparr>so_rows := x\<rparr>) = (outcome_view st)\<lparr>so_rows := x\<rparr>" for st x by (simp add: outcome_view_def)
  show ?thesis
    by (cases "filters_validate (filters_attrs f)"; cases "rank_symbols (so_rows (?all env)) (sf_rank_by f) (sf_maximum_symbols f)")
      (simp_all add: screener_run_def Let_def rows upd view)
qed

section \<open>An example\<close>

definition demo_frame :: "string list \<times> raw_candle list" where
  "demo_frame = (CANDLE_COLUMNS, [\<lparr>rc_at = 0, rc_open = Some 100, rc_high = Some 101, rc_low = Some 99, rc_close = Some 100,
     rc_volume = Some 5, rc_complete = True\<rparr>])"

definition demo_source :: candle_source where
  "demo_source symbol _ _ _ _ = (if symbol = ''TCS'' then Inr demo_frame else Inl (KeyError symbol))"

definition demo_batch :: "string list \<Rightarrow> string \<Rightarrow> timestamp \<Rightarrow> timestamp \<Rightarrow> int \<Rightarrow> candle_batch res" where
  "demo_batch symbols _ _ _ _ = Inr (map (\<lambda>s. (s, demo_frame)) (filter (\<lambda>s. s = ''TCS'') symbols),
     map (\<lambda>s. (s, KeyError s)) (filter (\<lambda>s. s \<noteq> ''TCS'') symbols))"

definition demo_env :: screener_env where
  "demo_env = \<lparr>sn_market = NSE_SPEC, sn_source = demo_source, sn_batch_reader = Some demo_batch, sn_timeframe = ''5m'',
     sn_batch_size = 1, sn_ewm = (\<lambda>a. ewm_decaying a None), sn_sort = sort_key ca_at\<rparr>"

lemma demo_made: "mk_screener NSE_SPEC demo_source (Some demo_batch) ''5m'' 1 (\<lambda>a. ewm_decaying a None) (sort_key ca_at) = Inr demo_env"
  by (simp add: mk_screener_def demo_env_def)

lemma default_filters_valid: "\<exists>f. filters_validate DEFAULT_FILTERS = Inr f"
  by (simp add: filters_validate_def attr_def DEFAULT_FILTERS_def raise_if_def non_negative_def opt_number_def exceeds_def RANKING_KEYS_def)

lemma demo_symbols: "screened_symbols ['' tcs'', ''infy'', '' '', ''TCS''] = [''TCS'', ''INFY'']"
  by code_simp

theorem screener_ranks_best_witness:
  "\<exists>f st best. filters_validate DEFAULT_FILTERS = Inr f \<and> screener_run demo_env f (\<lambda>_. False) 0 ['' tcs'', ''infy'', '' '', ''TCS''] = Inr st
     \<and> map sw_symbol (so_rows st) = [''TCS'', ''INFY''] \<and> mset best = mset (outcome_passed st) \<and> passing_symbols st = map sw_symbol best"
proof -
  obtain f where f: "filters_validate DEFAULT_FILTERS = Inr f" using default_filters_valid by blast
  from f screener_ranks_best [OF f demo_made, of 0 "['' tcs'', ''infy'', '' '', ''TCS'']", unfolded demo_symbols]
  show ?thesis by (elim exE conjE) (intro exI conjI)
qed

lemma map_of_filter_pairs: "map_of (map (\<lambda>s. (s, v s)) (filter P xs)) k = (if k \<in> set xs \<and> P k then Some (v k) else None)"
  by (induction xs) auto

lemma demo_agrees:
  "s \<in> set b \<Longrightarrow> batch_lookup (read_batch (\<lambda>ss. demo_batch ss (sn_timeframe demo_env) start now 0) b) s = read_one demo_env start now s"
  by (auto simp: batch_lookup_def read_batch_def demo_batch_def read_one_def demo_env_def demo_source_def map_of_filter_pairs)

definition demo_filters :: screener_filters where
  "demo_filters = \<lparr>sf_lookback_days = 20, sf_minimum_price = None, sf_maximum_price = None, sf_minimum_traded = None,
     sf_minimum_volume = None, sf_minimum_volatility = None, sf_maximum_volatility = None, sf_minimum_coverage = 1 / 100,
     sf_minimum_sessions = 1, sf_rank_by = ''price'', sf_maximum_symbols = Some 1\<rparr>"

theorem screener_batches_agree_witness:
  "map_sum id outcome_view (screener_run demo_env demo_filters (\<lambda>_. False) 0 [''tcs'', ''infy''])
     = map_sum id outcome_view (screener_run (demo_env\<lparr>sn_batch_reader := None\<rparr>) demo_filters (\<lambda>_. False) 0 [''tcs'', ''infy''])"
  by (rule screener_batches_agree [where reader = demo_batch]) (use demo_agrees in \<open>auto simp: demo_env_def\<close>)

end
