(* ===== verification/Walk_Forward.thy ===== *)
theory Walk_Forward
  imports Market_Fees "HOL-Library.AList" "HOL-Library.Product_Lexorder" "HOL-Library.Multiset"
begin

text \<open>
  \<open>backend/research/walk_forward.py\<close>: the sessions of a range, the folds of a walk-forward validation
  with their training and unseen test windows, the limits on its work, the ranking of the trained
  candidates and the metrics over all unseen tests. A metrics dict maps names to numbers or
  \<open>None\<close>; \<open>row.get(key) or 0\<close> reads a missing value as zero.
\<close>

section \<open>Sessions and folds\<close>

definition MAX_WALK_FORWARD_FOLDS :: int where "MAX_WALK_FORWARD_FOLDS = 12"
definition MAX_CANDIDATES_PER_FOLD :: int where "MAX_CANDIDATES_PER_FOLD = 20"
definition MAX_WALK_FORWARD_CHILD_RUNS :: int where "MAX_WALK_FORWARD_CHILD_RUNS = 120"
definition MAX_WALK_FORWARD_SYMBOL_RUNS :: int where "MAX_WALK_FORWARD_SYMBOL_RUNS = 20000"
definition MAX_WALK_FORWARD_CANDLE_WORKLOAD :: int where "MAX_WALK_FORWARD_CANDLE_WORKLOAD = 25000000"

definition RANKING_OBJECTIVES :: "string list" where
  "RANKING_OBJECTIVES = [''NET_PNL'', ''RETURN_DRAWDOWN'', ''LOWEST_DRAWDOWN'', ''HIGHEST_WIN_RATE'']"

definition TIMEFRAME_SECONDS :: "(string \<times> int) list" where
  "TIMEFRAME_SECONDS = [(''1m'', 60), (''5m'', 300), (''15m'', 900), (''30m'', 1800), (''1h'', 3600), (''4h'', 14400),
     (''6h'', 21600), (''1d'', 86400)]"

record fold_definition =
  fo_position :: nat
  fo_training_start :: day
  fo_training_end :: day
  fo_testing_start :: day
  fo_testing_end :: day
  fo_training_sessions :: int
  fo_testing_sessions :: int

definition walk_forward_sessions :: "string \<Rightarrow> day \<Rightarrow> day \<Rightarrow> day list option \<Rightarrow> day list res" where
  "walk_forward_sessions market start end_day nse_sessions =
     (if end_day < start then Inl (ValueError ''The overall end date must not be before the start date'')
      else if market = ''CRYPTO'' then Inr [start..end_day]
      else if market \<noteq> ''NSE'' then Inl (ValueError ''Unsupported market'')
      else case nse_sessions of
          None \<Rightarrow> Inr (filter (\<lambda>d. weekday d < 5) [start..end_day])
        | Some days \<Rightarrow> Inr (sort (remdups (filter (\<lambda>d. start \<le> d \<and> d \<le> end_day \<and> weekday d < 5) days))))"

text \<open>The indices of one fold, and the loop over the folds, which stops at the first that does not fit.\<close>

definition training_start_index :: "string \<Rightarrow> int \<Rightarrow> nat \<Rightarrow> int" where
  "training_start_index mode step i = (if mode = ''ANCHORED'' then 0 else int i * step)"

definition training_end_index :: "int \<Rightarrow> int \<Rightarrow> nat \<Rightarrow> int" where
  "training_end_index training_window step i = training_window - 1 + int i * step"

definition testing_end_index :: "int \<Rightarrow> int \<Rightarrow> int \<Rightarrow> nat \<Rightarrow> int" where
  "testing_end_index training_window testing_window step i = training_end_index training_window step i + 1 + testing_window - 1"

definition fold_at :: "string \<Rightarrow> int \<Rightarrow> int \<Rightarrow> int \<Rightarrow> day list \<Rightarrow> nat \<Rightarrow> fold_definition" where
  "fold_at mode training_window testing_window step sessions i =
     (let a = training_start_index mode step i; b = training_end_index training_window step i
      in \<lparr>fo_position = i + 1, fo_training_start = sessions ! nat a, fo_training_end = sessions ! nat b,
          fo_testing_start = sessions ! nat (b + 1),
          fo_testing_end = sessions ! nat (testing_end_index training_window testing_window step i),
          fo_training_sessions = b - a + 1, fo_testing_sessions = testing_window\<rparr>)"

fun fold_loop :: "string \<Rightarrow> int \<Rightarrow> int \<Rightarrow> int \<Rightarrow> day list \<Rightarrow> nat list \<Rightarrow> fold_definition list" where
  "fold_loop mode training_window testing_window step sessions [] = []"
| "fold_loop mode training_window testing_window step sessions (i # is) =
     (if testing_end_index training_window testing_window step i \<ge> int (length sessions) then []
      else fold_at mode training_window testing_window step sessions i
           # fold_loop mode training_window testing_window step sessions is)"

definition generate_folds ::
  "string \<Rightarrow> day \<Rightarrow> day \<Rightarrow> int \<Rightarrow> int \<Rightarrow> int \<Rightarrow> string \<Rightarrow> int \<Rightarrow> day list option \<Rightarrow> fold_definition list res" where
  "generate_folds market start end_day training_window testing_window step mode maximum_folds nse_sessions =
     (if training_window < 1 then Inl (ValueError ''trainingWindow must be a positive integer'')
      else if testing_window < 1 then Inl (ValueError ''testingWindow must be a positive integer'')
      else if step < 1 then Inl (ValueError ''step must be a positive integer'')
      else if maximum_folds < 1 then Inl (ValueError ''maximumFolds must be a positive integer'')
      else if maximum_folds > MAX_WALK_FORWARD_FOLDS then Inl (ValueError ''maximumFolds cannot exceed the limit'')
      else if mode \<notin> {''ANCHORED'', ''ROLLING''} then Inl (ValueError ''Walk-forward mode must be ANCHORED or ROLLING'')
      else rbind (walk_forward_sessions market start end_day nse_sessions) (\<lambda>sessions.
        if int (length sessions) < training_window + testing_window
        then Inl (ValueError ''The overall range is too short for one complete training and unseen-test fold'')
        else let folds = fold_loop mode training_window testing_window step sessions [0..<nat maximum_folds]
             in if folds = [] then Inl (ValueError ''No complete walk-forward folds could be generated'') else Inr folds))"

section \<open>Workload\<close>

record workload =
  wl_folds :: int
  wl_candidates :: int
  wl_child_runs :: int
  wl_symbols :: int
  wl_symbol_runs :: int
  wl_candles :: int

definition bars_per_session :: "string \<Rightarrow> string \<Rightarrow> int \<Rightarrow> int" where
  "bars_per_session market timeframe seconds =
     (if timeframe = ''1d'' then 1 else \<lceil>(if market = ''NSE'' then 375 * 60 else 86400) / of_int seconds :: real\<rceil>)"

definition workload_estimate :: "string \<Rightarrow> string \<Rightarrow> fold_definition list \<Rightarrow> int \<Rightarrow> int \<Rightarrow> workload res" where
  "workload_estimate market timeframe folds candidate_count symbol_count =
     (if \<not> (1 \<le> candidate_count \<and> candidate_count \<le> MAX_CANDIDATES_PER_FOLD)
      then Inl (ValueError ''Candidate count is out of range'')
      else if symbol_count < 1 then Inl (ValueError ''A walk-forward validation needs at least one symbol'')
      else case map_of TIMEFRAME_SECONDS timeframe of
        None \<Rightarrow> Inl (ValueError ''Unsupported timeframe'')
      | Some seconds \<Rightarrow>
          let bars = bars_per_session market timeframe seconds;
              child_runs = int (length folds) * (candidate_count + 1);
              symbol_runs = child_runs * symbol_count;
              candles = sum_list (map (\<lambda>fold. (fo_training_sessions fold * candidate_count + fo_testing_sessions fold) * bars * symbol_count) folds)
          in if child_runs > MAX_WALK_FORWARD_CHILD_RUNS then Inl (ValueError ''The validation requires too many child runs'')
             else if symbol_runs > MAX_WALK_FORWARD_SYMBOL_RUNS then Inl (ValueError ''The validation requires too many symbol-runs'')
             else if candles > MAX_WALK_FORWARD_CANDLE_WORKLOAD then Inl (ValueError ''The validation requests too many candle evaluations'')
             else Inr \<lparr>wl_folds = int (length folds), wl_candidates = candidate_count, wl_child_runs = child_runs,
                  wl_symbols = symbol_count, wl_symbol_runs = symbol_runs, wl_candles = candles\<rparr>)"

section \<open>Ranking the trained candidates\<close>

type_synonym metric_row = "(string \<times> real option) list"

definition metric :: "metric_row \<Rightarrow> string \<Rightarrow> real" where
  "metric row key = (case map_of row key of Some (Some x) \<Rightarrow> x | _ \<Rightarrow> 0)"

text \<open>\<open>int(x)\<close> cuts towards zero.\<close>

definition metric_int :: "metric_row \<Rightarrow> string \<Rightarrow> int" where
  "metric_int row key = (let x = metric row key in if x \<ge> 0 then \<lfloor>x\<rfloor> else \<lceil>x\<rceil>)"

definition net_pnl :: "metric_row \<Rightarrow> real" where
  "net_pnl row = metric row ''realizedPnl'' + metric row ''unrealizedPnl''"

definition return_drawdown_score :: "metric_row \<Rightarrow> real" where
  "return_drawdown_score row = net_pnl row / max \<bar>metric row ''maximumDrawdown''\<bar> 1"

record candidate =
  cn_id :: string
  cn_position :: "int option"
  cn_status :: "string option"
  cn_metrics :: "metric_row option"

definition candidate_eligible :: "int \<Rightarrow> candidate \<Rightarrow> bool" where
  "candidate_eligible minimum_trades c \<longleftrightarrow> cn_status c = Some ''COMPLETE''
     \<and> metric_int (case cn_metrics c of Some m \<Rightarrow> m | None \<Rightarrow> []) ''completedTrades'' \<ge> minimum_trades"

definition candidate_score :: "string \<Rightarrow> candidate \<Rightarrow> (real \<times> int) res" where
  "candidate_score objective c =
     (case cn_metrics c of
        None \<Rightarrow> Inl (KeyError ''metrics'')
      | Some m \<Rightarrow> Inr
          (if objective = ''NET_PNL'' then net_pnl m
           else if objective = ''RETURN_DRAWDOWN'' then return_drawdown_score m
           else if objective = ''LOWEST_DRAWDOWN'' then - \<bar>metric m ''maximumDrawdown''\<bar>
           else metric m ''winRate'',
           - (case cn_position c of Some p \<Rightarrow> p | None \<Rightarrow> 0)))"

text \<open>A stable sort in falling order, as \<open>sorted(..., reverse=True)\<close> does it.\<close>

definition sort_falling :: "('a \<Rightarrow> 'k::linorder) \<Rightarrow> 'a list \<Rightarrow> 'a list" where
  "sort_falling key xs = rev (sort_key key (rev xs))"

definition rank_completed_candidates :: "candidate list \<Rightarrow> string \<Rightarrow> int \<Rightarrow> candidate list res" where
  "rank_completed_candidates candidates objective minimum_trades =
     (if objective \<notin> set RANKING_OBJECTIVES then Inl (ValueError ''Unsupported ranking objective'')
      else let eligible = filter (candidate_eligible minimum_trades) candidates
           in rbind (rmap_list (candidate_score objective) eligible) (\<lambda>scores.
                Inr (map fst (sort_falling snd (zip eligible scores)))))"

section \<open>Metrics over the unseen tests\<close>

record unseen_metrics =
  um_net_pnl :: real
  um_realized :: real
  um_unrealized :: real
  um_drawdown :: real
  um_win_rate :: "real option"
  um_fees :: real
  um_slippage :: real
  um_completed :: int
  um_open :: int
  um_target_hits :: int
  um_stopped :: int
  um_expired :: int
  um_failed_symbols :: int
  um_exposure :: real
  um_holding :: "real option"
  um_score :: real

definition total_of :: "(metric_row \<Rightarrow> 'a::comm_monoid_add) \<Rightarrow> metric_row list \<Rightarrow> 'a" where
  "total_of f rows = sum_list (map f rows)"

definition row_exposure :: "metric_row \<Rightarrow> real" where
  "row_exposure row = (let x = metric row ''exposureMinutes''
     in if x \<noteq> 0 then x else of_int (metric_int row ''completedTrades'') * metric row ''averageHoldingMinutes'')"

definition largest_drawdown :: "metric_row list \<Rightarrow> real" where
  "largest_drawdown rows = (case map (\<lambda>row. \<bar>metric row ''maximumDrawdown''\<bar>) rows of [] \<Rightarrow> 0 | x # xs \<Rightarrow> foldl max x xs)"

definition weighted_wins :: "metric_row list \<Rightarrow> real" where
  "weighted_wins = total_of (\<lambda>row. of_int (metric_int row ''completedTrades'') * metric row ''winRate'' / 100)"

definition aggregate_unseen_metrics :: "metric_row list \<Rightarrow> unseen_metrics" where
  "aggregate_unseen_metrics rows =
     (let completed = total_of (\<lambda>row. metric_int row ''completedTrades'') rows;
          holding = total_of (\<lambda>row. of_int (metric_int row ''completedTrades'') * metric row ''averageHoldingMinutes'') rows;
          net = py_round (total_of net_pnl rows) 2;
          drawdown = py_round (largest_drawdown rows) 2
      in \<lparr>um_net_pnl = net, um_realized = py_round (total_of (\<lambda>row. metric row ''realizedPnl'') rows) 2,
          um_unrealized = py_round (total_of (\<lambda>row. metric row ''unrealizedPnl'') rows) 2, um_drawdown = drawdown,
          um_win_rate = (if completed \<noteq> 0 then Some (py_round (weighted_wins rows / of_int completed * 100) 2) else None),
          um_fees = py_round (total_of (\<lambda>row. metric row ''fees'') rows) 2,
          um_slippage = py_round (total_of (\<lambda>row. metric row ''slippage'') rows) 2,
          um_completed = completed, um_open = total_of (\<lambda>row. metric_int row ''openTrades'') rows,
          um_target_hits = total_of (\<lambda>row. metric_int row ''targetHits'') rows,
          um_stopped = total_of (\<lambda>row. metric_int row ''stoppedTrades'') rows,
          um_expired = total_of (\<lambda>row. metric_int row ''expiredTrades'') rows,
          um_failed_symbols = total_of (\<lambda>row. metric_int row ''symbolsFailed'') rows,
          um_exposure = py_round (total_of row_exposure rows) 2,
          um_holding = (if completed \<noteq> 0 then Some (py_round (holding / of_int completed) 2) else None),
          um_score = py_round (net / max drawdown 1) 6\<rparr>)"

section \<open>Sessions are strictly increasing and folds are windows of them\<close>

lemma sorted_filter_range: "sorted_wrt (<) (filter P [a..b :: int])"
  by (intro sorted_wrt_filter) (simp add: strict_sorted_iff)

lemma sessions_sorted:
  assumes "walk_forward_sessions market a b nse = Inr ss"
  shows "sorted_wrt (<) ss" and "set ss \<subseteq> {a..b}"
  using assms sorted_filter_range [of "\<lambda>_. True" a b] sorted_filter_range [of "\<lambda>d. weekday d < 5" a b]
  by (auto simp: walk_forward_sessions_def strict_sorted_iff split: if_splits option.splits)

lemma fold_loop_eq:
  "fold_loop mode tw sw step ss is
     = map (fold_at mode tw sw step ss) (takeWhile (\<lambda>i. testing_end_index tw sw step i < int (length ss)) is)"
  by (induction "is") auto

lemma takeWhile_upt:
  obtains k where "takeWhile P [0..<n] = [0..<k]" and "k \<le> n" and "\<And>i. i < k \<Longrightarrow> P i" and "k < n \<Longrightarrow> \<not> P k"
proof
  let ?k = "length (takeWhile P [0..<n])"
  show k: "?k \<le> n" using length_takeWhile_le [of P "[0..<n]"] by simp
  have "takeWhile P [0..<n] = take ?k [0..<n]" by (rule takeWhile_eq_take)
  with k show eq: "takeWhile P [0..<n] = [0..<?k]" by simp
  show "P i" if "i < ?k" for i
    using set_takeWhileD [of i P "[0..<n]"] that eq by (metis atLeastLessThan_iff atLeast_upt le0 set_upt)
  show "\<not> P ?k" if "?k < n" using nth_length_takeWhile [of P "[0..<n]"] that by simp
qed

lemma nth_less_iff:
  assumes "sorted_wrt (<) (ss :: int list)" and "i < length ss" and "j < length ss"
  shows "ss ! i < ss ! j \<longleftrightarrow> i < j" and "ss ! i \<le> ss ! j \<longleftrightarrow> i \<le> j"
proof -
  have less: "a < b \<Longrightarrow> b < length ss \<Longrightarrow> ss ! a < ss ! b" for a b using assms(1) by (rule sorted_wrt_nth_less)
  show "ss ! i < ss ! j \<longleftrightarrow> i < j" "ss ! i \<le> ss ! j \<longleftrightarrow> i \<le> j"
    using less [of i j] less [of j i] assms by (cases i j rule: linorder_cases; simp)+
qed

lemma window_size:
  assumes "sorted_wrt (<) (ss :: int list)" and "a \<le> b" and "b < length ss"
  shows "length (filter (\<lambda>d. ss ! a \<le> d \<and> d \<le> ss ! b) ss) = b + 1 - a"
proof -
  have "{i. i < length ss \<and> ss ! a \<le> ss ! i \<and> ss ! i \<le> ss ! b} = {a..b}"
    using assms nth_less_iff(2) [OF assms(1)] by auto
  then show ?thesis by (simp add: length_filter_conv_card)
qed

lemma generate_folds_cases:
  assumes "generate_folds market a b tw sw step mode maximum nse = Inr folds"
  obtains ss k where "walk_forward_sessions market a b nse = Inr ss" and "1 \<le> tw" "1 \<le> sw" "1 \<le> step"
    and "mode = ''ANCHORED'' \<or> mode = ''ROLLING''" and "maximum \<le> MAX_WALK_FORWARD_FOLDS"
    and "folds = map (fold_at mode tw sw step ss) [0..<k]" and "0 < k" and "int k \<le> maximum"
    and "\<And>i. i < k \<Longrightarrow> testing_end_index tw sw step i < int (length ss)"
    and "int k < maximum \<Longrightarrow> int (length ss) \<le> testing_end_index tw sw step k"
proof -
  from assms obtain ss where ss: "walk_forward_sessions market a b nse = Inr ss"
    and ok: "1 \<le> tw" "1 \<le> sw" "1 \<le> step" "mode = ''ANCHORED'' \<or> mode = ''ROLLING''" "1 \<le> maximum" "maximum \<le> MAX_WALK_FORWARD_FOLDS"
    and folds: "folds = fold_loop mode tw sw step ss [0..<nat maximum]" "folds \<noteq> []"
    by (auto simp: generate_folds_def rbind_eq_Inr Let_def split: if_splits)
  let ?P = "\<lambda>i. testing_end_index tw sw step i < int (length ss)"
  obtain k where "takeWhile ?P [0..<nat maximum] = [0..<k]" "k \<le> nat maximum" "\<And>i. i < k \<Longrightarrow> ?P i" "k < nat maximum \<Longrightarrow> \<not> ?P k"
    by (rule takeWhile_upt [of ?P "nat maximum"]) (rule that)
  with folds ok that [OF ss ok(1-4,6), of k] show ?thesis by (simp add: fold_loop_eq) force
qed

text \<open>The windows of one fold, in positions of the session list.\<close>

lemma fold_indices:
  assumes "1 \<le> tw" "1 \<le> sw" "1 \<le> step" and "testing_end_index tw sw step i < int n"
  obtains p q r where "training_start_index mode step i = int p" and "training_end_index tw step i = int q"
    and "testing_end_index tw sw step i = int r" and "p \<le> q" and "q < r" and "r < n"
proof
  define off where "off = int i * step"
  have nonneg: "0 \<le> off" using assms(3) by (simp add: off_def)
  note defs = training_start_index_def training_end_index_def testing_end_index_def off_def [symmetric]
  note fits = assms(4) [unfolded defs]
  show "training_start_index mode step i = int (nat (training_start_index mode step i))"
    "training_end_index tw step i = int (nat (training_end_index tw step i))"
    "testing_end_index tw sw step i = int (nat (testing_end_index tw sw step i))"
    using assms(1-3) nonneg unfolding defs by simp_all
  show "nat (training_start_index mode step i) \<le> nat (training_end_index tw step i)"
    "nat (training_end_index tw step i) < nat (testing_end_index tw sw step i)" "nat (testing_end_index tw sw step i) < n"
    using assms(1-3) nonneg fits unfolding defs by (auto intro!: nat_mono)
qed

definition fold_window_ok :: "string \<Rightarrow> int \<Rightarrow> int \<Rightarrow> day list \<Rightarrow> fold_definition \<Rightarrow> bool" where
  "fold_window_ok mode tw sw ss f \<longleftrightarrow>
     {fo_training_start f, fo_training_end f, fo_testing_start f, fo_testing_end f} \<subseteq> set ss
     \<and> fo_training_start f \<le> fo_training_end f \<and> fo_training_end f < fo_testing_start f \<and> fo_testing_start f \<le> fo_testing_end f
     \<and> filter (\<lambda>d. fo_training_end f < d \<and> d < fo_testing_start f) ss = []
     \<and> int (length (filter (\<lambda>d. fo_training_start f \<le> d \<and> d \<le> fo_training_end f) ss)) = fo_training_sessions f
     \<and> int (length (filter (\<lambda>d. fo_testing_start f \<le> d \<and> d \<le> fo_testing_end f) ss)) = sw
     \<and> fo_testing_sessions f = sw \<and> fo_training_sessions f \<ge> tw
     \<and> (if mode = ''ANCHORED'' then fo_training_start f = hd ss else fo_training_sessions f = tw)"

lemma fold_at_window:
  assumes ok: "1 \<le> tw" "1 \<le> sw" "1 \<le> step" and fits: "testing_end_index tw sw step i < int (length ss)" and srt: "sorted_wrt (<) ss"
  shows "fold_window_ok mode tw sw ss (fold_at mode tw sw step ss i)"
proof -
  obtain p q r where i: "training_start_index mode step i = int p" "training_end_index tw step i = int q"
      "testing_end_index tw sw step i = int r" and o: "p \<le> q" "q < r" "r < length ss"
    by (rule fold_indices [OF ok fits, of mode]) (rule that)
  have f: "fold_at mode tw sw step ss i = \<lparr>fo_position = i + 1, fo_training_start = ss ! p, fo_training_end = ss ! q,
      fo_testing_start = ss ! Suc q, fo_testing_end = ss ! r, fo_training_sessions = int q - int p + 1, fo_testing_sessions = sw\<rparr>"
    by (simp add: fold_at_def i Let_def nat_add_distrib)
  have "r = q + nat sw" using i(2,3) ok(2) by (simp add: testing_end_index_def)
  moreover have "int p = (if mode = ''ANCHORED'' then 0 else int i * step)" "int q = tw - 1 + int i * step" "0 \<le> int i * step"
    using i(1,2) ok(3) by (simp_all add: training_start_index_def training_end_index_def)
  moreover have "filter (\<lambda>d. ss ! q < d \<and> d < ss ! Suc q) ss = []"
    using o nth_less_iff(1) [OF srt] by (auto simp: filter_empty_conv in_set_conv_nth)
  moreover have "hd ss = ss ! 0" using o by (cases ss) auto
  ultimately show ?thesis
    using o ok nth_less_iff [OF srt] window_size [OF srt o(1)] window_size [OF srt, of "Suc q" r]
    by (auto simp: fold_window_ok_def f)
qed

lemma fold_at_order:
  assumes ok: "1 \<le> tw" "1 \<le> sw" "1 \<le> step" and fits: "testing_end_index tw sw step j < int (length ss)" and srt: "sorted_wrt (<) ss" and "i < j"
  shows "fo_training_end (fold_at mode tw sw step ss i) < fo_training_end (fold_at mode tw sw step ss j)"
    and "fo_testing_end (fold_at mode tw sw step ss i) < fo_testing_end (fold_at mode tw sw step ss j)"
    and "sw \<le> step \<Longrightarrow> fo_testing_end (fold_at mode tw sw step ss i) < fo_testing_start (fold_at mode tw sw step ss j)"
proof -
  define u v where "u = int i * step" and "v = int j * step"
  have "u + step \<le> v" using \<open>i < j\<close> ok(3) mult_right_mono [of "int i + 1" "int j" step] by (simp add: u_def v_def algebra_simps)
  moreover have "0 \<le> u" using ok(3) by (simp add: u_def)
  moreover note less = nth_less_iff(1) [OF srt, THEN iffD2]
    and defs = training_end_index_def testing_end_index_def u_def [symmetric] v_def [symmetric]
  moreover have "tw - 1 + v + 1 + sw - 1 < int (length ss)" using fits unfolding defs .
  ultimately show "fo_training_end (fold_at mode tw sw step ss i) < fo_training_end (fold_at mode tw sw step ss j)"
    "fo_testing_end (fold_at mode tw sw step ss i) < fo_testing_end (fold_at mode tw sw step ss j)"
    "sw \<le> step \<Longrightarrow> fo_testing_end (fold_at mode tw sw step ss i) < fo_testing_start (fold_at mode tw sw step ss j)"
    using ok unfolding fold_at_def Let_def defs fold_definition.simps by (auto intro!: less)
qed

section \<open>Properties\<close>

text \<open>
  C20. Walk-forward folds test on unseen data. When folds are generated there is at least one and at most
  the allowed number, numbered from one. Each trains on a window of sessions and tests on the
  \<open>testing_window\<close> sessions that follow it immediately: no test session is a training session and
  none is skipped between them; the session counts it reports are those of the windows; an anchored fold trains from the
  first session, a rolling one on exactly \<open>training_window\<close> sessions. Later folds end later, and if
  the step is at least the test window no session is tested twice. Fewer folds than asked for means
  that the next one would not fit.
\<close>

theorem walk_forward_tests_unseen:
  assumes "generate_folds market a b tw sw step mode maximum nse = Inr folds"
  shows "\<exists>ss. walk_forward_sessions market a b nse = Inr ss \<and> set ss \<subseteq> {a..b} \<and> sorted_wrt (<) ss
    \<and> folds \<noteq> [] \<and> int (length folds) \<le> maximum \<and> maximum \<le> MAX_WALK_FORWARD_FOLDS
    \<and> map fo_position folds = [1..<Suc (length folds)]
    \<and> (\<forall>f \<in> set folds. fold_window_ok mode tw sw ss f)
    \<and> (\<forall>i j. i < j \<longrightarrow> j < length folds \<longrightarrow> fo_training_end (folds ! i) < fo_training_end (folds ! j)
         \<and> fo_testing_end (folds ! i) < fo_testing_end (folds ! j)
         \<and> (sw \<le> step \<longrightarrow> fo_testing_end (folds ! i) < fo_testing_start (folds ! j)))
    \<and> (int (length folds) < maximum \<longrightarrow> int (length ss) < tw + int (length folds) * step + sw)"
proof -
  from assms obtain ss k where ss: "walk_forward_sessions market a b nse = Inr ss" and ok: "1 \<le> tw" "1 \<le> sw" "1 \<le> step"
    and m: "maximum \<le> MAX_WALK_FORWARD_FOLDS" and folds: "folds = map (fold_at mode tw sw step ss) [0..<k]" and k: "0 < k" "int k \<le> maximum"
    and fits: "\<And>i. i < k \<Longrightarrow> testing_end_index tw sw step i < int (length ss)"
    and full: "int k < maximum \<Longrightarrow> int (length ss) \<le> testing_end_index tw sw step k"
    by (rule generate_folds_cases) (rule that)
  note srt = sessions_sorted [OF ss]
  have "map fo_position folds = [1..<Suc (length folds)]"
    by (simp add: folds comp_def fold_at_def Let_def del: upt_Suc flip: map_Suc_upt)
  moreover have "\<forall>f \<in> set folds. fold_window_ok mode tw sw ss f" using fold_at_window [OF ok fits srt(1)] by (auto simp: folds)
  moreover have "int (length folds) < maximum \<longrightarrow> int (length ss) < tw + int (length folds) * step + sw"
    using full by (auto simp: folds testing_end_index_def training_end_index_def)
  ultimately show ?thesis
    using ss srt m k fold_at_order [OF ok fits srt(1)] by (intro exI [of _ ss]) (auto simp: folds)
qed

theorem walk_forward_tests_unseen_witness:
  "\<exists>folds. generate_folds ''CRYPTO'' 0 9 4 2 2 ''ROLLING'' 5 None = Inr folds \<and> length folds = 3
     \<and> fo_testing_end (folds ! 0) < fo_testing_start (folds ! 1)"
proof -
  have "[0..9::int] = [0, 1, 2, 3, 4, 5, 6, 7, 8, 9]" by (simp add: upto.simps)
  then obtain folds where g: "generate_folds ''CRYPTO'' 0 9 4 2 2 ''ROLLING'' 5 None = Inr folds" and l: "length folds = 3"
    by (auto simp: generate_folds_def MAX_WALK_FORWARD_FOLDS_def walk_forward_sessions_def testing_end_index_def
        training_end_index_def upt_rec)
  from walk_forward_tests_unseen [OF g] l have "fo_testing_end (folds ! 0) < fo_testing_start (folds ! 1)" by force
  with g l show ?thesis by blast
qed

lemma scores_map:
  assumes "rmap_list f xs = Inr ys" shows "ys = map (\<lambda>x. projr (f x)) xs" and "x \<in> set xs \<Longrightarrow> f x = Inr (projr (f x))"
  using assms by (induction xs arbitrary: ys) (auto simp: rbind_eq_Inr)

lemma sort_falling_parts:
  "mset (sort_falling key xs) = mset xs" "sorted_wrt (\<lambda>x y. key y \<le> key x) (sort_falling key xs)"
proof -
  have "sorted (map key (sort_key key (rev xs)))" by simp
  then show "sorted_wrt (\<lambda>x y. key y \<le> key x) (sort_falling key xs)"
    unfolding sort_falling_def sorted_wrt_rev by (simp add: sorted_wrt_map)
qed (simp add: sort_falling_def)

text \<open>
  The ranking of trained candidates: it raises for an unknown objective only, or for an eligible candidate without metrics, and otherwise lists exactly
  the candidates whose run is complete with enough trades, each once, in falling order of the
  objective, ties by the lower position. So the first one, which is then tested, is a best one.
\<close>

theorem candidates_ranked:
  assumes "objective \<in> set RANKING_OBJECTIVES" and "\<forall>c \<in> set candidates. candidate_eligible minimum_trades c \<longrightarrow> cn_metrics c \<noteq> None"
  shows "\<exists>ranked score. rank_completed_candidates candidates objective minimum_trades = Inr ranked
    \<and> mset ranked = mset (filter (candidate_eligible minimum_trades) candidates)
    \<and> (\<forall>c \<in> set ranked. candidate_score objective c = Inr (score c))
    \<and> sorted_wrt (\<lambda>c d. score d \<le> score c) ranked"
proof -
  let ?e = "filter (candidate_eligible minimum_trades) candidates"
  have "\<exists>scores. rmap_list (candidate_score objective) xs = Inr scores" if "set xs \<subseteq> set ?e" for xs
    using that assms(2) by (induction xs) (auto simp: candidate_score_def split: option.split)
  then obtain scores where sc: "rmap_list (candidate_score objective) ?e = Inr scores" by blast
  define score where "score c = projr (candidate_score objective c)" for c
  define pairs where "pairs = sort_falling snd (zip ?e scores)"
  have zip: "zip ?e scores = map (\<lambda>c. (c, score c)) ?e" unfolding scores_map(1) [OF sc] score_def by (simp add: zip_map2 zip_same_conv_map)
  have "mset pairs = mset (map (\<lambda>c. (c, score c)) ?e)" unfolding pairs_def zip by (rule sort_falling_parts)
  then have m: "mset (map fst pairs) = mset ?e" and set: "set pairs = set (map (\<lambda>c. (c, score c)) ?e)"
    by (simp add: image_mset.compositionality comp_def) (metis \<open>mset pairs = _\<close> set_mset_mset)
  have each: "snd q = score (fst q)" if "q \<in> set pairs" for q using that unfolding set by auto
  have "sorted_wrt (\<lambda>x y. snd y \<le> snd x) pairs" unfolding pairs_def by (rule sort_falling_parts)
  then have "sorted_wrt (\<lambda>c d. score d \<le> score c) (map fst pairs)"
    unfolding sorted_wrt_map by (rule sorted_wrt_mono_rel [rotated]) (simp add: each)
  moreover have "\<forall>c \<in> set (map fst pairs). candidate_score objective c = Inr (score c)"
    using set scores_map(2) [OF sc] by (auto simp: score_def)
  ultimately show ?thesis
    using assms(1) sc m by (intro exI [of _ "map fst pairs"] exI [of _ score]) (simp add: rank_completed_candidates_def pairs_def)
qed

definition demo_candidates :: "candidate list" where
  "demo_candidates = [\<lparr>cn_id = ''a'', cn_position = Some 1, cn_status = Some ''COMPLETE'',
       cn_metrics = Some [(''realizedPnl'', Some 10), (''completedTrades'', Some 3)]\<rparr>,
     \<lparr>cn_id = ''b'', cn_position = Some 2, cn_status = Some ''COMPLETE'',
       cn_metrics = Some [(''realizedPnl'', Some 25), (''completedTrades'', Some 4)]\<rparr>,
     \<lparr>cn_id = ''c'', cn_position = Some 3, cn_status = Some ''FAILED'', cn_metrics = None\<rparr>]"

theorem candidates_ranked_witness:
  "\<exists>ranked. rank_completed_candidates demo_candidates ''NET_PNL'' 1 = Inr ranked \<and> length ranked = 2"
proof -
  have "\<forall>c \<in> set demo_candidates. candidate_eligible 1 c \<longrightarrow> cn_metrics c \<noteq> None" by (simp add: demo_candidates_def candidate_eligible_def)
  moreover have "length (filter (candidate_eligible 1) demo_candidates) = 2"
    by (simp add: demo_candidates_def candidate_eligible_def metric_int_def metric_def)
  moreover obtain ranked where "rank_completed_candidates demo_candidates ''NET_PNL'' 1 = Inr ranked"
    "mset ranked = mset (filter (candidate_eligible 1) demo_candidates)"
    using candidates_ranked [of "''NET_PNL''" demo_candidates 1] calculation(1) unfolding RANKING_OBJECTIVES_def by auto
  ultimately show ?thesis by (metis mset_eq_length)
qed

end
