(* ===== verification/Worker_Leases.thy ===== *)
theory Worker_Leases
  imports Strategy_Config
begin

text \<open>
  Leases of workers: \<open>acquire_lease\<close>, \<open>heartbeat\<close>, \<open>release_lease\<close> and \<open>expire_stale_leases\<close> of
  \<open>backend/monitoring/repository.py\<close> over the table of leases, and the guards and groups of
  \<open>backend/monitoring/leases.py\<close>. Each statement on the table is one step; the processes share one
  clock. A guard's heartbeat runs in its own thread, so its steps interleave with everything else.
\<close>

section \<open>The table of leases\<close>

datatype lease_status = Active | Released | FailedLease | ExpiredLease

record lease =
  ls_worker_type :: string
  ls_task_key :: string
  ls_worker :: string
  ls_host :: string
  ls_process :: string
  ls_token :: string
  ls_acquired_at :: timestamp
  ls_heartbeat_at :: timestamp
  ls_expires_at :: timestamp
  ls_current :: config
  ls_status :: lease_status
  ls_error :: "string option"

definition WORKER_TYPES :: "string list" where
  "WORKER_TYPES = [''MARKET_DATA'', ''SIGNAL'', ''BACKTEST'', ''RESEARCH_EXPERIMENT'', ''WALK_FORWARD'', ''PAPER_EXECUTION'', ''MONITORING'']"

definition bounded :: "string \<Rightarrow> nat \<Rightarrow> string res" where
  "bounded value maximum =
     (let v = py_strip value in if v = [] \<or> length v > maximum then Inl (ValueError ''must contain between 1 and the maximum characters'') else Inr v)"

definition SECOND_US :: int where "SECOND_US = 1000000"

definition lease_key :: "lease \<Rightarrow> string \<times> string" where
  "lease_key r = (ls_worker_type r, ls_task_key r)"

definition claimable :: "string \<Rightarrow> timestamp \<Rightarrow> lease \<Rightarrow> bool" where
  "claimable token now r \<longleftrightarrow> ls_token r = token \<or> ls_expires_at r \<le> now \<or> ls_status r \<noteq> Active"

definition upsert_lease :: "lease list \<Rightarrow> lease \<Rightarrow> lease option \<times> lease list" where
  "upsert_lease rows new =
     (case List.find (\<lambda>r. lease_key r = lease_key new) rows of
        None \<Rightarrow> (Some new, rows @ [new])
      | Some r \<Rightarrow>
          if claimable (ls_token new) (ls_heartbeat_at new) r
          then let row = new\<lparr>ls_acquired_at := (if ls_token r = ls_token new then ls_acquired_at r else ls_acquired_at new)\<rparr>
               in (Some row, map (\<lambda>q. if lease_key q = lease_key new then row else q) rows)
          else (None, rows))"

definition acquire_lease ::
  "lease list \<Rightarrow> timestamp \<Rightarrow> string \<Rightarrow> string \<Rightarrow> string \<Rightarrow> string \<Rightarrow> string \<Rightarrow> string \<Rightarrow> int \<Rightarrow> config \<Rightarrow> (lease option \<times> lease list) res" where
  "acquire_lease rows now worker_type task_key worker host process token ttl_seconds current =
     (let kind = py_upper (py_strip worker_type) in
      if kind \<notin> set WORKER_TYPES then Inl (ValueError ''Unsupported worker type'')
      else if \<not> (5 \<le> ttl_seconds \<and> ttl_seconds \<le> 3600) then Inl (ValueError ''Lease TTL must be between 5 and 3600 seconds'')
      else rbind (bounded task_key 200) (\<lambda>key.
           rbind (bounded worker 200) (\<lambda>w.
           rbind (bounded host 200) (\<lambda>h.
           rbind (bounded process 200) (\<lambda>p.
             Inr (upsert_lease rows \<lparr>ls_worker_type = kind, ls_task_key = key, ls_worker = w, ls_host = h, ls_process = p,
               ls_token = token, ls_acquired_at = now, ls_heartbeat_at = now, ls_expires_at = now + ttl_seconds * SECOND_US,
               ls_current = current, ls_status = Active, ls_error = None\<rparr>))))))"

definition lease_owned :: "string \<Rightarrow> string \<Rightarrow> string \<Rightarrow> lease \<Rightarrow> bool" where
  "lease_owned worker_type task_key token r \<longleftrightarrow>
     lease_key r = (worker_type, task_key) \<and> ls_token r = token \<and> ls_status r = Active"

definition heartbeat ::
  "lease list \<Rightarrow> timestamp \<Rightarrow> string \<Rightarrow> string \<Rightarrow> string \<Rightarrow> int \<Rightarrow> config option \<Rightarrow> (lease option \<times> lease list) res" where
  "heartbeat rows now worker_type task_key token ttl_seconds current =
     (if \<not> (5 \<le> ttl_seconds \<and> ttl_seconds \<le> 3600) then Inl (ValueError ''Lease TTL must be between 5 and 3600 seconds'')
      else let hit = (\<lambda>r. lease_owned worker_type task_key token r \<and> ls_expires_at r > now);
               beat = (\<lambda>r. r\<lparr>ls_heartbeat_at := now, ls_expires_at := now + ttl_seconds * SECOND_US,
                 ls_current := (case current of None \<Rightarrow> ls_current r | Some c \<Rightarrow> c)\<rparr>)
           in Inr (map_option beat (List.find hit rows), map (\<lambda>r. if hit r then beat r else r) rows))"

definition release_lease :: "lease list \<Rightarrow> string \<Rightarrow> string \<Rightarrow> string \<Rightarrow> string option \<Rightarrow> lease list" where
  "release_lease rows worker_type task_key token error =
     (let failed = (case error of None \<Rightarrow> False | Some e \<Rightarrow> e \<noteq> [])
      in map (\<lambda>r. if lease_owned worker_type task_key token r
           then r\<lparr>ls_status := (if failed then FailedLease else Released), ls_error := (if failed then map_option (take 500) error else None)\<rparr>
           else r) rows)"

definition expire_stale_leases :: "lease list \<Rightarrow> timestamp \<Rightarrow> lease list" where
  "expire_stale_leases rows now =
     map (\<lambda>r. if ls_status r = Active \<and> ls_expires_at r \<le> now then r\<lparr>ls_status := ExpiredLease\<rparr> else r) rows"

section \<open>Guards\<close>

text \<open>
  A guard as its process sees it. \<open>lg_confirmed\<close> is the clock at its last successful statement,
  \<open>lg_beating\<close> says that its heartbeat thread is alive, \<open>lg_stopped\<close> that it was left.
\<close>

record lease_guard =
  lg_worker_type :: string
  lg_task_key :: string
  lg_worker :: string
  lg_host :: string
  lg_process :: string
  lg_token :: string
  lg_ttl :: int
  lg_current :: config
  lg_acquired :: bool
  lg_entered :: bool
  lg_stopped :: bool
  lg_beating :: bool
  lg_error :: "string option"
  lg_confirmed :: timestamp

definition guard_enter :: "lease list \<Rightarrow> timestamp \<Rightarrow> lease_guard \<Rightarrow> (lease_guard \<times> lease list) res" where
  "guard_enter rows now g =
     rbind (acquire_lease rows now (lg_worker_type g) (lg_task_key g) (lg_worker g) (lg_host g) (lg_process g) (lg_token g)
              (lg_ttl g) (lg_current g)) (\<lambda>(row, rows').
       let acquired = (row \<noteq> None)
       in Inr (g\<lparr>lg_acquired := acquired, lg_entered := True, lg_beating := acquired, lg_confirmed := now\<rparr>, rows'))"

text \<open>One round of the heartbeat thread: lost rows and exceptions both end it.\<close>

definition guard_beat :: "lease list \<Rightarrow> timestamp \<Rightarrow> lease_guard \<Rightarrow> lease_guard \<times> lease list" where
  "guard_beat rows now g =
     (case heartbeat rows now (lg_worker_type g) (lg_task_key g) (lg_token g) (lg_ttl g) (Some (lg_current g)) of
        Inr (Some _, rows') \<Rightarrow> (g\<lparr>lg_confirmed := now\<rparr>, rows')
      | Inr (None, rows') \<Rightarrow> (g\<lparr>lg_acquired := False, lg_beating := False\<rparr>, rows')
      | Inl e \<Rightarrow> (g\<lparr>lg_acquired := False, lg_beating := False, lg_error := Some (case e of ValueError m \<Rightarrow> take 500 m | _ \<Rightarrow> [])\<rparr>, rows))"

text \<open>The database raised, before or after the statement took effect.\<close>

definition guard_beat_fails :: "string \<Rightarrow> lease_guard \<Rightarrow> lease_guard" where
  "guard_beat_fails e g = g\<lparr>lg_acquired := False, lg_beating := False, lg_error := Some (take 500 e)\<rparr>"

definition guard_exit :: "lease list \<Rightarrow> string option \<Rightarrow> lease_guard \<Rightarrow> lease_guard \<times> lease list" where
  "guard_exit rows exception g =
     (g\<lparr>lg_stopped := True\<rparr>,
      if lg_acquired g
      then release_lease rows (lg_worker_type g) (lg_task_key g) (lg_token g)
             (case exception of Some e \<Rightarrow> Some (take 500 e) | None \<Rightarrow> lg_error g)
      else rows)"

section \<open>Groups\<close>

text \<open>
  A group enters its guards in turn; at the first that is not acquired the ones entered so far are
  left again, newest first, the failed one included. An exception of a later guard leaves the earlier
  ones entered. \<open>clock k\<close> is the time the group's \<open>k\<close>-th guard reads when it enters.
\<close>

fun exit_all :: "lease list \<Rightarrow> string option \<Rightarrow> lease_guard list \<Rightarrow> lease_guard list \<times> lease list" where
  "exit_all rows exception [] = ([], rows)"
| "exit_all rows exception (g # gs) =
     (let (g', rows') = guard_exit rows exception g; (gs', rows'') = exit_all rows' exception gs in (g' # gs', rows''))"

fun group_enter ::
  "lease list \<Rightarrow> (nat \<Rightarrow> timestamp) \<Rightarrow> lease_guard list \<Rightarrow> lease_guard list \<Rightarrow> (bool \<times> lease_guard list \<times> lease list) res" where
  "group_enter rows clock entered [] = Inr (True, rev entered, rows)"
| "group_enter rows clock entered (g # gs) =
     rbind (guard_enter rows (clock (length entered)) g) (\<lambda>(g', rows').
       if lg_acquired g' then group_enter rows' clock (g' # entered) gs
       else let (left, rows'') = exit_all rows' None (g' # entered) in Inr (False, rev left @ gs, rows''))"

definition group_exit :: "lease list \<Rightarrow> string option \<Rightarrow> lease_guard list \<Rightarrow> lease_guard list \<times> lease list" where
  "group_exit rows exception gs = (let (gs', rows') = exit_all rows exception (rev gs) in (rev gs', rows'))"

section \<open>Statements on the table\<close>

text \<open>
  What every statement promises to the processes it does not belong to. \<open>own\<close> is the token of the
  guard the statement runs for, if any, and \<open>key\<close> the key it writes under: keys stay distinct, a
  live row of another token is not touched, and no row of another token appears.
\<close>

definition row_live :: "timestamp \<Rightarrow> lease \<Rightarrow> bool" where
  "row_live now r \<longleftrightarrow> ls_status r = Active \<and> now < ls_expires_at r"

abbreviation distinct_keys :: "lease list \<Rightarrow> bool" where
  "distinct_keys rows \<equiv> distinct (map lease_key rows)"

locale lease_statement =
  fixes stmt :: "lease list \<Rightarrow> lease list"
    and now :: timestamp
    and own :: "string option"
    and key :: "string \<times> string"
  assumes keeps_keys: "distinct_keys rows \<Longrightarrow> distinct_keys (stmt rows)"
    and keeps_foreign: "r \<in> set rows \<Longrightarrow> Some (ls_token r) \<noteq> own \<Longrightarrow> row_live now r \<Longrightarrow> distinct_keys rows \<Longrightarrow> r \<in> set (stmt rows)"
    and row_origin: "r' \<in> set (stmt rows) \<Longrightarrow>
      (Some (ls_token r') = own \<and> lease_key r' = key) \<or> (\<exists>r\<in>set rows. ls_token r' = ls_token r \<and> lease_key r' = lease_key r)"
begin

lemma tokens_stay:
  assumes "\<forall>r\<in>set rows. ls_token r = t \<longrightarrow> lease_key r = k" and "own = Some t \<Longrightarrow> key = k"
  shows "\<forall>r\<in>set (stmt rows). ls_token r = t \<longrightarrow> lease_key r = k"
  using assms row_origin by metis

lemma fresh_stays:
  assumes "t \<notin> ls_token ` set rows" and "own \<noteq> Some t"
  shows "t \<notin> ls_token ` set (stmt rows)"
proof
  assume "t \<in> ls_token ` set (stmt rows)"
  then obtain r' where r: "r' \<in> set (stmt rows)" and t: "t = ls_token r'" by blast
  from row_origin [OF r] assms t show False by auto
qed

end

lemma lease_key_update [simp]:
  "lease_key (r\<lparr>ls_heartbeat_at := a\<rparr>) = lease_key r" "lease_key (r\<lparr>ls_expires_at := a\<rparr>) = lease_key r"
  "lease_key (r\<lparr>ls_current := c\<rparr>) = lease_key r" "lease_key (r\<lparr>ls_status := st\<rparr>) = lease_key r"
  "lease_key (r\<lparr>ls_error := e\<rparr>) = lease_key r" "lease_key (r\<lparr>ls_acquired_at := a\<rparr>) = lease_key r"
  by (simp_all add: lease_key_def)

text \<open>A statement that rewrites rows in place and keeps tokens and keys.\<close>

lemma map_statement:
  assumes keep: "\<And>r. ls_token (f r) = ls_token r \<and> lease_key (f r) = lease_key r"
    and foreign: "\<And>r. Some (ls_token r) \<noteq> own \<Longrightarrow> row_live now r \<Longrightarrow> f r = r"
  shows "lease_statement (map f) now own key"
proof
  fix rows r
  show "distinct_keys rows \<Longrightarrow> distinct_keys (map f rows)" by (simp add: keep comp_def)
  assume "r \<in> set rows" "Some (ls_token r) \<noteq> own" "row_live now r"
  then show "r \<in> set (map f rows)" using foreign by force
next
  fix rows r' assume "r' \<in> set (map f rows)"
  then show "Some (ls_token r') = own \<and> lease_key r' = key \<or> (\<exists>r\<in>set rows. ls_token r' = ls_token r \<and> lease_key r' = lease_key r)"
    using keep by auto
qed

lemma heartbeat_rows:
  "5 \<le> ttl \<Longrightarrow> ttl \<le> 3600 \<Longrightarrow> heartbeat rows now wt tk token ttl (Some cur) =
     Inr (map_option (\<lambda>r. r\<lparr>ls_heartbeat_at := now, ls_expires_at := now + ttl * SECOND_US, ls_current := cur\<rparr>)
            (List.find (\<lambda>r. lease_owned wt tk token r \<and> ls_expires_at r > now) rows),
          map (\<lambda>r. if lease_owned wt tk token r \<and> ls_expires_at r > now
            then r\<lparr>ls_heartbeat_at := now, ls_expires_at := now + ttl * SECOND_US, ls_current := cur\<rparr> else r) rows)"
  by (simp add: heartbeat_def Let_def)

interpretation beat_stmt: lease_statement
  "\<lambda>rows. map (\<lambda>r. if lease_owned wt tk token r \<and> ls_expires_at r > now
     then r\<lparr>ls_heartbeat_at := now, ls_expires_at := now + ttl * SECOND_US, ls_current := cur\<rparr> else r) rows"
  now "Some token" key for wt tk token now ttl cur key
  by (rule map_statement) (auto simp: lease_owned_def)

interpretation release_stmt: lease_statement "\<lambda>rows. release_lease rows wt tk token error" now "Some token" key
  for wt tk token error now key
  unfolding release_lease_def Let_def by (rule map_statement) (auto simp: lease_owned_def)

interpretation no_stmt: lease_statement "\<lambda>rows. rows" now own key for now own key
  by unfold_locales auto

interpretation expire_stmt: lease_statement "\<lambda>rows. expire_stale_leases rows now" now None key for now key
  unfolding expire_stale_leases_def by (rule map_statement) (auto simp: row_live_def)

lemma upsert_rows:
  "snd (upsert_lease rows new) =
     (case List.find (\<lambda>r. lease_key r = lease_key new) rows of None \<Rightarrow> rows @ [new]
      | Some r \<Rightarrow> if claimable (ls_token new) (ls_heartbeat_at new) r
          then map (\<lambda>q. if lease_key q = lease_key new then new\<lparr>ls_acquired_at := (if ls_token r = ls_token new then ls_acquired_at r else ls_acquired_at new)\<rparr> else q) rows
          else rows)"
  by (simp add: upsert_lease_def Let_def split: option.split)

lemma find_key_unique:
  assumes "List.find (\<lambda>r. lease_key r = k) rows = Some r" "distinct_keys rows" "q \<in> set rows" "lease_key q = k"
  shows "q = r"
proof -
  from assms(1) have "r \<in> set rows" "lease_key r = k" by (auto simp: find_Some_iff)
  with assms(2-4) show ?thesis by (simp add: distinct_map inj_on_def)
qed

interpretation upsert_stmt: lease_statement "\<lambda>rows. snd (upsert_lease rows new)" "ls_heartbeat_at new" "Some (ls_token new)" "lease_key new"
  for new
proof
  fix rows
  show "distinct_keys rows \<Longrightarrow> distinct_keys (snd (upsert_lease rows new))"
    by (auto simp: upsert_rows find_None_iff comp_def if_distrib [of lease_key] cong: if_cong split: option.split)
next
  fix rows r
  assume r: "r \<in> set rows" "Some (ls_token r) \<noteq> Some (ls_token new)" "row_live (ls_heartbeat_at new) r" and d: "distinct_keys rows"
  show "r \<in> set (snd (upsert_lease rows new))"
  proof (cases "List.find (\<lambda>q. lease_key q = lease_key new) rows")
    case None
    with r show ?thesis by (simp add: upsert_rows)
  next
    case (Some q)
    have "lease_key r = lease_key new \<Longrightarrow> \<not> claimable (ls_token new) (ls_heartbeat_at new) q"
      using find_key_unique [OF Some d r(1)] r by (auto simp: claimable_def row_live_def)
    with Some r(1) show ?thesis
      by (cases "lease_key r = lease_key new") (auto simp: upsert_rows intro: image_eqI [of r _ r])
  qed
next
  fix rows r' assume "r' \<in> set (snd (upsert_lease rows new))"
  then show "Some (ls_token r') = Some (ls_token new) \<and> lease_key r' = lease_key new
     \<or> (\<exists>r\<in>set rows. ls_token r' = ls_token r \<and> lease_key r' = lease_key r)"
    by (auto simp: upsert_rows split: option.splits if_splits)
qed

lemma upsert_row:
  assumes "fst (upsert_lease rows new) = Some row"
  shows "row \<in> set (snd (upsert_lease rows new)) \<and> lease_key row = lease_key new \<and> ls_token row = ls_token new \<and>
    ls_status row = ls_status new \<and> ls_expires_at row = ls_expires_at new"
proof (cases "List.find (\<lambda>q. lease_key q = lease_key new) rows")
  case None
  with assms show ?thesis by (simp add: upsert_lease_def)
next
  case (Some q)
  then have "q \<in> set rows" "lease_key q = lease_key new" by (auto simp: find_Some_iff)
  with assms Some show ?thesis
    by (auto simp: upsert_lease_def Let_def intro: image_eqI [of _ _ q] split: if_splits)
qed

lemma upsert_refused: "fst (upsert_lease rows new) = None \<Longrightarrow> snd (upsert_lease rows new) = rows"
  by (auto simp: upsert_lease_def Let_def split: option.splits if_splits)

lemma bounded_Inr: "bounded value m = Inr v \<Longrightarrow> v = py_strip value"
  by (simp add: bounded_def Let_def split: if_splits)

lemma acquire_lease_Inr:
  assumes "acquire_lease rows now wt tk w h p token ttl cur = Inr (row, rows')"
  obtains new where "upsert_lease rows new = (row, rows')" "lease_key new = (py_upper (py_strip wt), py_strip tk)"
    "ls_token new = token" "ls_heartbeat_at new = now" "ls_expires_at new = now + ttl * SECOND_US" "ls_status new = Active"
    "5 \<le> ttl" "ttl \<le> 3600"
proof -
  from assms obtain key w' h' p' where k: "bounded tk 200 = Inr key" and ttl: "5 \<le> ttl" "ttl \<le> 3600"
    and e: "upsert_lease rows \<lparr>ls_worker_type = py_upper (py_strip wt), ls_task_key = key, ls_worker = w', ls_host = h',
      ls_process = p', ls_token = token, ls_acquired_at = now, ls_heartbeat_at = now, ls_expires_at = now + ttl * SECOND_US,
      ls_current = cur, ls_status = Active, ls_error = None\<rparr> = (row, rows')"
    by (auto simp: acquire_lease_def Let_def rbind_eq_Inr split: if_splits)
  show thesis by (rule that [OF e]) (use ttl bounded_Inr [OF k] in \<open>auto simp: lease_key_def\<close>)
qed

definition guard_key :: "lease_guard \<Rightarrow> string \<times> string" where
  "guard_key g = (py_upper (py_strip (lg_worker_type g)), py_strip (lg_task_key g))"

definition guard_expiry :: "lease_guard \<Rightarrow> timestamp" where
  "guard_expiry g = lg_confirmed g + lg_ttl g * SECOND_US"

text \<open>The row that backs a guard.\<close>

definition backed :: "lease list \<Rightarrow> lease_guard \<Rightarrow> bool" where
  "backed rows g \<longleftrightarrow> (\<exists>r\<in>set rows. ls_status r = Active \<and> ls_token r = lg_token g \<and> lease_key r = guard_key g \<and> ls_expires_at r = guard_expiry g)"

definition same_identity :: "lease_guard \<Rightarrow> lease_guard \<Rightarrow> bool" where
  "same_identity g h \<longleftrightarrow> lg_token g = lg_token h \<and> guard_key g = guard_key h \<and> lg_ttl g = lg_ttl h"

lemma guard_enter_effect:
  assumes e: "guard_enter rows now g = Inr (g', rows')"
  obtains new row where "upsert_lease rows new = (row, rows')" "lease_key new = guard_key g" "ls_token new = lg_token g"
    "ls_heartbeat_at new = now" "same_identity g' g" "lg_acquired g' \<longleftrightarrow> row \<noteq> None" "lg_entered g'"
    "lg_stopped g' = lg_stopped g" "lg_acquired g' \<Longrightarrow> backed rows' g'" "5 \<le> lg_ttl g'" "lg_ttl g' \<le> 3600"
    "lg_worker_type g' = lg_worker_type g" "lg_task_key g' = lg_task_key g" "lg_confirmed g' = now"
proof -
  from e obtain row where a: "acquire_lease rows now (lg_worker_type g) (lg_task_key g) (lg_worker g) (lg_host g) (lg_process g)
      (lg_token g) (lg_ttl g) (lg_current g) = Inr (row, rows')"
    and g: "g' = g\<lparr>lg_acquired := (row \<noteq> None), lg_entered := True, lg_beating := (row \<noteq> None), lg_confirmed := now\<rparr>"
    by (auto simp: guard_enter_def rbind_eq_Inr Let_def split: prod.splits)
  obtain new where n: "upsert_lease rows new = (row, rows')" "lease_key new = guard_key g" "ls_token new = lg_token g"
      "ls_heartbeat_at new = now" "ls_expires_at new = now + lg_ttl g * SECOND_US" "ls_status new = Active" "5 \<le> lg_ttl g" "lg_ttl g \<le> 3600"
    by (rule acquire_lease_Inr [OF a]) (auto simp: guard_key_def)
  have up: "fst (upsert_lease rows new) = row" "snd (upsert_lease rows new) = rows'" using n(1) by auto
  have b: "row \<noteq> None \<Longrightarrow> backed rows' g'"
    using upsert_row [of rows new] up n g by (auto simp: backed_def guard_key_def guard_expiry_def)
  show thesis by (rule that [OF n(1-4)]) (use g b n in \<open>auto simp: same_identity_def guard_key_def\<close>)
qed

section \<open>Processes\<close>

text \<open>
  Guards of all processes, over one table and one clock. A beat that raises may have written its row
  before (\<open>beat_raises_after\<close>) or not. A guard may be left more than once, as a group that failed to
  enter does; it is entered at most once.
\<close>

record lease_world =
  lw_now :: timestamp
  lw_rows :: "lease list"
  lw_guards :: "lease_guard list"

definition lease_init :: "lease_world \<Rightarrow> bool" where
  "lease_init w \<longleftrightarrow> distinct_keys (lw_rows w) \<and> distinct (map lg_token (lw_guards w)) \<and>
     (\<forall>g\<in>set (lw_guards w). \<not> lg_entered g \<and> \<not> lg_acquired g \<and> \<not> lg_beating g \<and> lg_token g \<notin> ls_token ` set (lw_rows w))"

inductive lease_step :: "lease_world \<Rightarrow> lease_world \<Rightarrow> bool" where
  tick: "lw_now w \<le> now' \<Longrightarrow> lease_step w (w\<lparr>lw_now := now'\<rparr>)"
| enter: "i < length (lw_guards w) \<Longrightarrow> \<not> lg_entered (lw_guards w ! i) \<Longrightarrow>
    guard_enter (lw_rows w) (lw_now w) (lw_guards w ! i) = Inr (g', rows') \<Longrightarrow>
    lease_step w (w\<lparr>lw_rows := rows', lw_guards := (lw_guards w)[i := g']\<rparr>)"
| beat: "i < length (lw_guards w) \<Longrightarrow> lg_beating (lw_guards w ! i) \<Longrightarrow>
    guard_beat (lw_rows w) (lw_now w) (lw_guards w ! i) = (g', rows') \<Longrightarrow>
    lease_step w (w\<lparr>lw_rows := rows', lw_guards := (lw_guards w)[i := g']\<rparr>)"
| beat_raises: "i < length (lw_guards w) \<Longrightarrow> lg_beating (lw_guards w ! i) \<Longrightarrow>
    lease_step w (w\<lparr>lw_guards := (lw_guards w)[i := guard_beat_fails e (lw_guards w ! i)]\<rparr>)"
| beat_raises_after: "i < length (lw_guards w) \<Longrightarrow> lg_beating (lw_guards w ! i) \<Longrightarrow>
    guard_beat (lw_rows w) (lw_now w) (lw_guards w ! i) = (g', rows') \<Longrightarrow>
    lease_step w (w\<lparr>lw_rows := rows', lw_guards := (lw_guards w)[i := guard_beat_fails e (lw_guards w ! i)]\<rparr>)"
| exit: "i < length (lw_guards w) \<Longrightarrow> guard_exit (lw_rows w) exc (lw_guards w ! i) = (g', rows') \<Longrightarrow>
    lease_step w (w\<lparr>lw_rows := rows', lw_guards := (lw_guards w)[i := g']\<rparr>)"
| expire: "lease_step w (w\<lparr>lw_rows := expire_stale_leases (lw_rows w) (lw_now w)\<rparr>)"

inductive lease_reachable :: "lease_world \<Rightarrow> bool" where
  start: "lease_init w \<Longrightarrow> lease_reachable w"
| move: "lease_reachable w \<Longrightarrow> lease_step w w' \<Longrightarrow> lease_reachable w'"

definition holds :: "timestamp \<Rightarrow> lease_guard \<Rightarrow> bool" where
  "holds now g \<longleftrightarrow> lg_acquired g \<and> \<not> lg_stopped g \<and> now < guard_expiry g"

text \<open>What the table owes one guard: a fresh token before it enters, its key for its token, and a row while it holds.\<close>

definition guard_ok :: "timestamp \<Rightarrow> lease list \<Rightarrow> lease_guard \<Rightarrow> bool" where
  "guard_ok now rows g \<longleftrightarrow>
     (\<not> lg_entered g \<longrightarrow> \<not> lg_acquired g \<and> \<not> lg_beating g \<and> lg_token g \<notin> ls_token ` set rows) \<and>
     (\<forall>r\<in>set rows. ls_token r = lg_token g \<longrightarrow> lease_key r = guard_key g) \<and>
     (holds now g \<longrightarrow> backed rows g)"

definition world_ok :: "lease_world \<Rightarrow> bool" where
  "world_ok w \<longleftrightarrow> distinct_keys (lw_rows w) \<and> distinct (map lg_token (lw_guards w)) \<and>
     (\<forall>g\<in>set (lw_guards w). guard_ok (lw_now w) (lw_rows w) g)"

context lease_statement
begin

lemma foreign_guard_ok:
  assumes g: "guard_ok now rows g" and other: "own \<noteq> Some (lg_token g)" and d: "distinct_keys rows"
  shows "guard_ok now (stmt rows) g"
proof -
  have "backed (stmt rows) g" if "holds now g"
  proof -
    from g that obtain r where r: "r \<in> set rows" "ls_status r = Active" "ls_token r = lg_token g" "lease_key r = guard_key g" "ls_expires_at r = guard_expiry g"
      by (auto simp: guard_ok_def backed_def)
    have "row_live now r" using r that by (simp add: row_live_def holds_def)
    from keeps_foreign [OF r(1) _ this d] r other show ?thesis by (auto simp: backed_def)
  qed
  moreover have "\<forall>r\<in>set (stmt rows). ls_token r = lg_token g \<longrightarrow> lease_key r = guard_key g"
    by (rule tokens_stay) (use g other in \<open>auto simp: guard_ok_def\<close>)
  moreover have "\<not> lg_entered g \<longrightarrow> lg_token g \<notin> ls_token ` set (stmt rows)"
    using fresh_stays [OF _ other] g by (simp add: guard_ok_def)
  ultimately show ?thesis using g by (simp add: guard_ok_def)
qed

text \<open>A statement for guard \<open>i\<close> only has to answer for guard \<open>i\<close>.\<close>

lemma statement_keeps_world:
  assumes w: "world_ok w" "lw_now w = now" and i: "i < length (lw_guards w)" and own: "own = Some (lg_token (lw_guards w ! i))"
    and same: "lg_token g' = lg_token (lw_guards w ! i)"
    and mine: "guard_ok now (stmt (lw_rows w)) g'"
  shows "world_ok (w\<lparr>lw_rows := stmt (lw_rows w), lw_guards := (lw_guards w)[i := g']\<rparr>)"
proof -
  let ?gs = "lw_guards w"
  have tok: "map lg_token (?gs[i := g']) = map lg_token ?gs"
    using i same by (simp add: map_update list_update_same_conv)
  have "guard_ok now (stmt (lw_rows w)) (?gs[i := g'] ! j)" if "j < length ?gs" for j
  proof (cases "j = i")
    case False
    with that i w(1) have "lg_token (?gs ! j) \<noteq> lg_token (?gs ! i)" by (simp add: world_ok_def distinct_conv_nth)
    then show ?thesis using foreign_guard_ok [of "lw_rows w" "?gs ! j"] False that w own by (simp add: world_ok_def)
  qed (use mine i in simp)
  then show ?thesis using w tok keeps_keys by (auto simp: world_ok_def set_conv_nth simp del: nth_list_update)
qed

end

lemma enter_keeps_ok:
  assumes w: "world_ok w" and i: "i < length (lw_guards w)" and fresh: "\<not> lg_entered (lw_guards w ! i)"
    and e: "guard_enter (lw_rows w) (lw_now w) (lw_guards w ! i) = Inr (g', rows')"
  shows "world_ok (w\<lparr>lw_rows := rows', lw_guards := (lw_guards w)[i := g']\<rparr>)"
proof -
  obtain new row where up: "upsert_lease (lw_rows w) new = (row, rows')" and key: "lease_key new = guard_key (lw_guards w ! i)"
    and tok: "ls_token new = lg_token (lw_guards w ! i)" and now: "ls_heartbeat_at new = lw_now w"
    and g: "same_identity g' (lw_guards w ! i)" "lg_entered g'" "lg_acquired g' \<Longrightarrow> backed rows' g'"
    by (rule guard_enter_effect [OF e]) (rule that)
  have rows: "rows' = snd (upsert_lease (lw_rows w) new)" by (simp add: up)
  have "\<forall>r\<in>set rows'. ls_token r = lg_token g' \<longrightarrow> lease_key r = guard_key g'"
    unfolding rows by (rule upsert_stmt.tokens_stay) (use w i key g(1) in \<open>auto simp: world_ok_def guard_ok_def same_identity_def\<close>)
  then have "guard_ok (ls_heartbeat_at new) rows' g'"
    using g by (simp add: guard_ok_def holds_def)
  from upsert_stmt.statement_keeps_world [OF w now [symmetric] i _ _ this [unfolded rows]] tok g(1)
  show ?thesis by (simp add: rows same_identity_def)
qed

lemma guard_beat_effect:
  assumes "guard_beat rows now g = (g', rows')"
  obtains (raised) "rows' = rows" "\<not> lg_acquired g'" "same_identity g' g" "lg_entered g' = lg_entered g"
  | (wrote) f where "f = (\<lambda>r. if lease_owned (lg_worker_type g) (lg_task_key g) (lg_token g) r \<and> ls_expires_at r > now
        then r\<lparr>ls_heartbeat_at := now, ls_expires_at := now + lg_ttl g * SECOND_US, ls_current := lg_current g\<rparr> else r)"
      "rows' = map f rows" "same_identity g' g" "lg_entered g' = lg_entered g"
      "lg_acquired g' \<Longrightarrow> lg_confirmed g' = now \<and> (\<exists>r\<in>set rows. lease_owned (lg_worker_type g) (lg_task_key g) (lg_token g) r \<and> ls_expires_at r > now)"
proof (cases "5 \<le> lg_ttl g \<and> lg_ttl g \<le> 3600")
  case False
  with assms show thesis by (intro raised) (auto simp: guard_beat_def heartbeat_def same_identity_def guard_key_def split: if_splits)
next
  case True
  then have ttl: "5 \<le> lg_ttl g" "lg_ttl g \<le> 3600" by auto
  show thesis
    by (rule wrote [OF refl])
      (use assms in \<open>auto simp: guard_beat_def heartbeat_rows [OF ttl] same_identity_def guard_key_def find_Some_iff find_None_iff split: option.splits\<close>)
qed

lemma beat_keeps_ok:
  assumes w: "world_ok w" and i: "i < length (lw_guards w)" and b: "lg_beating (lw_guards w ! i)"
    and e: "guard_beat (lw_rows w) (lw_now w) (lw_guards w ! i) = (g', rows')"
    and g'': "g'' = g' \<or> g'' = guard_beat_fails err (lw_guards w ! i)"
  shows "world_ok (w\<lparr>lw_rows := rows', lw_guards := (lw_guards w)[i := g'']\<rparr>)"
proof -
  let ?g = "lw_guards w ! i"
  have g: "guard_ok (lw_now w) (lw_rows w) ?g" and d: "distinct_keys (lw_rows w)" using w i by (auto simp: world_ok_def)
  with b have ent: "lg_entered ?g" by (auto simp: guard_ok_def)
  have fails: "same_identity (guard_beat_fails err ?g) ?g" "lg_entered (guard_beat_fails err ?g) = lg_entered ?g" "\<not> lg_acquired (guard_beat_fails err ?g)"
    by (simp_all add: guard_beat_fails_def same_identity_def guard_key_def)
  from e show ?thesis
  proof (cases rule: guard_beat_effect)
    case raised
    then have id: "same_identity g'' ?g" "lg_entered g''" "\<not> lg_acquired g''" using g'' fails ent by auto
    then have "guard_ok (lw_now w) (lw_rows w) g''" using g by (auto simp: guard_ok_def same_identity_def holds_def)
    from no_stmt.statement_keeps_world [OF w refl i refl _ this] id raised(1)
    show ?thesis by (simp add: same_identity_def)
  next
    case (wrote f)
    have id: "same_identity g'' ?g" "lg_entered g''" using g'' fails ent wrote by auto
    have keys: "\<forall>r\<in>set rows'. ls_token r = lg_token g'' \<longrightarrow> lease_key r = guard_key g''"
      unfolding wrote(1,2)
      by (rule beat_stmt.tokens_stay [where key = "guard_key ?g"]) (use g id in \<open>auto simp: guard_ok_def same_identity_def\<close>)
    have "backed rows' g''" if "lg_acquired g''"
    proof -
      from that g'' fails have gg: "g'' = g'" by auto
      with that wrote(5) obtain r where r: "r \<in> set (lw_rows w)" "lease_owned (lg_worker_type ?g) (lg_task_key ?g) (lg_token ?g) r" "ls_expires_at r > lw_now w"
        and c: "lg_confirmed g'' = lw_now w" by blast
      have "lease_key r = guard_key ?g" using g r by (auto simp: guard_ok_def lease_owned_def)
      moreover have "f r = r\<lparr>ls_heartbeat_at := lw_now w, ls_expires_at := lw_now w + lg_ttl ?g * SECOND_US, ls_current := lg_current ?g\<rparr>"
        using r by (simp add: wrote(1))
      ultimately have "ls_status (f r) = Active \<and> ls_token (f r) = lg_token g'' \<and> lease_key (f r) = guard_key g'' \<and> ls_expires_at (f r) = guard_expiry g''"
        using r c id by (simp add: lease_owned_def guard_expiry_def same_identity_def)
      moreover have "f r \<in> set rows'" using r by (simp add: wrote(2))
      ultimately show ?thesis unfolding backed_def by blast
    qed
    with keys id have "guard_ok (lw_now w) rows' g''" by (simp add: guard_ok_def holds_def)
    from beat_stmt.statement_keeps_world [OF w refl i _ _ this [unfolded wrote(1,2)]] id
    show ?thesis by (simp add: wrote(1,2) same_identity_def)
  qed
qed

lemma exit_keeps_ok:
  assumes w: "world_ok w" and i: "i < length (lw_guards w)" and e: "guard_exit (lw_rows w) exc (lw_guards w ! i) = (g', rows')"
  shows "world_ok (w\<lparr>lw_rows := rows', lw_guards := (lw_guards w)[i := g']\<rparr>)"
proof -
  let ?g = "lw_guards w ! i"
  have g: "guard_ok (lw_now w) (lw_rows w) ?g" using w i by (simp add: world_ok_def)
  have g': "g' = ?g\<lparr>lg_stopped := True\<rparr>" using e by (simp add: guard_exit_def)
  show ?thesis
  proof (cases "lg_acquired ?g")
    case True
    then obtain err where rows: "rows' = release_lease (lw_rows w) (lg_worker_type ?g) (lg_task_key ?g) (lg_token ?g) err"
      using e by (auto simp: guard_exit_def)
    have "\<forall>r\<in>set rows'. ls_token r = lg_token ?g \<longrightarrow> lease_key r = guard_key ?g"
      unfolding rows by (rule release_stmt.tokens_stay [where key = "guard_key ?g"]) (use g in \<open>auto simp: guard_ok_def\<close>)
    with g g' True have "guard_ok (lw_now w) rows' g'" by (auto simp: guard_ok_def holds_def guard_key_def)
    from release_stmt.statement_keeps_world [OF w refl i _ _ this [unfolded rows]] g' show ?thesis by (simp add: rows)
  next
    case False
    then have "guard_ok (lw_now w) (lw_rows w) g'" using g g' by (simp add: guard_ok_def holds_def guard_key_def)
    moreover have "rows' = lw_rows w" using e False by (simp add: guard_exit_def)
    ultimately show ?thesis using no_stmt.statement_keeps_world [OF w refl i refl, of g'] g' by simp
  qed
qed

lemma lease_step_ok: "lease_step w w' \<Longrightarrow> world_ok w \<Longrightarrow> world_ok w'"
proof (induction rule: lease_step.induct)
  case (tick w now')
  then show ?case by (force simp: world_ok_def guard_ok_def holds_def)
next
  case (beat_raises i w e)
  then have "guard_ok (lw_now w) (lw_rows w) (guard_beat_fails e (lw_guards w ! i))"
    by (auto simp: world_ok_def guard_ok_def holds_def guard_beat_fails_def guard_key_def)
  from no_stmt.statement_keeps_world [OF beat_raises(3) refl beat_raises(1) refl _ this]
  show ?case by (simp add: guard_beat_fails_def)
next
  case (expire w)
  then show ?case using expire_stmt.foreign_guard_ok [of "lw_now w" "lw_rows w"] expire_stmt.keeps_keys
    by (auto simp: world_ok_def)
qed (blast intro: enter_keeps_ok beat_keeps_ok exit_keeps_ok)+

lemma lease_reachable_ok: "lease_reachable w \<Longrightarrow> world_ok w"
proof (induction rule: lease_reachable.induct)
  case (start w)
  then show ?case by (force simp: lease_init_def world_ok_def guard_ok_def holds_def)
qed (blast intro: lease_step_ok)

section \<open>At most one owner\<close>

lemma backed_unique:
  assumes "backed rows g" "backed rows h" "distinct_keys rows" "guard_key g = guard_key h"
  shows "lg_token g = lg_token h"
  using assms by (fastforce simp: backed_def distinct_map inj_on_def)

text \<open>
  C15. Whatever the processes do, in any order and with heartbeats that raise, two guards with the
  same worker type and task never hold the lease at the same time: while a guard was acquired, was
  not left and its last confirmed statement is younger than its time to live, the table has an
  active row with its token for its key, and any other guard that holds under that key is the guard itself.
\<close>

theorem lease_exclusive:
  assumes "lease_reachable w" and "i < length (lw_guards w)" and "holds (lw_now w) (lw_guards w ! i)"
  shows "backed (lw_rows w) (lw_guards w ! i) \<and>
    (\<forall>j<length (lw_guards w). holds (lw_now w) (lw_guards w ! j) \<and> guard_key (lw_guards w ! j) = guard_key (lw_guards w ! i) \<longrightarrow> j = i)"
proof -
  have ok: "world_ok w" by (rule lease_reachable_ok) (rule assms)
  then have d: "distinct_keys (lw_rows w)" "distinct (map lg_token (lw_guards w))"
    and b: "\<And>j. j < length (lw_guards w) \<Longrightarrow> holds (lw_now w) (lw_guards w ! j) \<Longrightarrow> backed (lw_rows w) (lw_guards w ! j)"
    by (auto simp: world_ok_def guard_ok_def)
  have "j = i" if "j < length (lw_guards w)" "holds (lw_now w) (lw_guards w ! j)" "guard_key (lw_guards w ! j) = guard_key (lw_guards w ! i)" for j
    using backed_unique [OF b b d(1) that(3)] that assms d(2) by (force simp: distinct_conv_nth)
  with b assms show ?thesis by blast
qed

definition example_guard :: "string \<Rightarrow> lease_guard" where
  "example_guard token = \<lparr>lg_worker_type = ''SIGNAL'', lg_task_key = ''NSE'', lg_worker = ''w'', lg_host = ''h'', lg_process = ''1'', lg_token = token,
     lg_ttl = 90, lg_current = [], lg_acquired = False, lg_entered = False, lg_stopped = False, lg_beating = False, lg_error = None, lg_confirmed = 0\<rparr>"

definition example_row :: "string \<Rightarrow> lease" where
  "example_row token = \<lparr>ls_worker_type = ''SIGNAL'', ls_task_key = ''NSE'', ls_worker = ''w'', ls_host = ''h'', ls_process = ''1'', ls_token = token,
     ls_acquired_at = 7, ls_heartbeat_at = 7, ls_expires_at = 90000007, ls_current = [], ls_status = Active, ls_error = None\<rparr>"

lemma example_strings:
  "py_strip ''SIGNAL'' = ''SIGNAL''" "py_upper ''SIGNAL'' = ''SIGNAL''" "py_strip ''NSE'' = ''NSE''" "py_strip ''w'' = ''w''"
  "py_strip ''h'' = ''h''" "py_strip ''1'' = ''1''"
  by code_simp+

lemma example_enter:
  "guard_enter [] 7 (example_guard t) =
     Inr ((example_guard t)\<lparr>lg_acquired := True, lg_entered := True, lg_beating := True, lg_confirmed := 7\<rparr>, [example_row t])"
  by (simp add: guard_enter_def acquire_lease_def bounded_def upsert_lease_def example_guard_def example_row_def WORKER_TYPES_def
      example_strings SECOND_US_def Let_def)

definition example_world :: lease_world where
  "example_world = \<lparr>lw_now = 7, lw_rows = [example_row ''a''],
     lw_guards = [(example_guard ''a'')\<lparr>lg_acquired := True, lg_entered := True, lg_beating := True, lg_confirmed := 7\<rparr>, example_guard ''b'']\<rparr>"

lemma example_world_reachable: "lease_reachable example_world"
proof -
  let ?w = "\<lparr>lw_now = 7, lw_rows = [], lw_guards = [example_guard ''a'', example_guard ''b'']\<rparr>"
  have "lease_reachable ?w" by (rule lease_reachable.start) (simp add: lease_init_def example_guard_def)
  moreover have "lease_step ?w example_world"
    using lease_step.enter [of 0 ?w "(example_guard ''a'')\<lparr>lg_acquired := True, lg_entered := True, lg_beating := True, lg_confirmed := 7\<rparr>" "[example_row ''a'']"]
    by (simp add: example_world_def example_enter) (simp add: example_guard_def)
  ultimately show ?thesis by (rule lease_reachable.move)
qed

theorem lease_exclusive_witness:
  "holds (lw_now example_world) (lw_guards example_world ! 0) \<and> backed (lw_rows example_world) (lw_guards example_world ! 0) \<and>
   \<not> (holds (lw_now example_world) (lw_guards example_world ! 1) \<and> guard_key (lw_guards example_world ! 1) = guard_key (lw_guards example_world ! 0))"
proof -
  have h: "holds (lw_now example_world) (lw_guards example_world ! 0)" "length (lw_guards example_world) = 2"
    by (simp_all add: example_world_def holds_def guard_expiry_def example_guard_def SECOND_US_def)
  then have b: "backed (lw_rows example_world) (lw_guards example_world ! 0) \<and> (\<forall>j<2. holds (lw_now example_world) (lw_guards example_world ! j) \<and>
      guard_key (lw_guards example_world ! j) = guard_key (lw_guards example_world ! 0) \<longrightarrow> j = 0)"
    using lease_exclusive [OF example_world_reachable, of 0] by simp
  have "\<not> (holds (lw_now example_world) (lw_guards example_world ! 1) \<and> guard_key (lw_guards example_world ! 1) = guard_key (lw_guards example_world ! 0))"
    using b by (metis one_less_numeral_iff semiring_norm(76) zero_neq_one)
  with b h show ?thesis by blast
qed

section \<open>Groups are all or nothing\<close>

definition quiet :: "lease list \<Rightarrow> string \<Rightarrow> bool" where
  "quiet rows t \<longleftrightarrow> (\<forall>r\<in>set rows. ls_token r = t \<longrightarrow> ls_status r \<noteq> Active)"

text \<open>The names a guard passes to a release are the ones its rows are stored under.\<close>

definition keyed :: "lease list \<Rightarrow> lease_guard \<Rightarrow> bool" where
  "keyed rows g \<longleftrightarrow> (\<forall>r\<in>set rows. ls_token r = lg_token g \<longrightarrow> lease_key r = (lg_worker_type g, lg_task_key g))"

lemma quiet_release: "quiet rows t \<Longrightarrow> quiet (release_lease rows wt tk u e) t"
  by (auto simp: quiet_def release_lease_def Let_def)

lemma keyed_release: "keyed rows g \<Longrightarrow> keyed (release_lease rows wt tk u e) g"
  by (auto simp: keyed_def release_lease_def Let_def)

lemma release_quiets: "keyed rows g \<Longrightarrow> quiet (release_lease rows (lg_worker_type g) (lg_task_key g) (lg_token g) e) (lg_token g)"
  by (auto simp: keyed_def quiet_def release_lease_def Let_def lease_owned_def)

lemma guard_exit_rows:
  obtains "snd (guard_exit rows exc g) = rows" "\<not> lg_acquired g"
  | e where "snd (guard_exit rows exc g) = release_lease rows (lg_worker_type g) (lg_task_key g) (lg_token g) e"
  by (cases "lg_acquired g") (auto simp: guard_exit_def)

lemma exit_all_quiets:
  assumes "\<forall>g\<in>set gs. (lg_acquired g \<and> keyed rows g) \<or> quiet rows (lg_token g)" and "distinct_keys rows"
  shows "(\<forall>t. quiet rows t \<or> t \<in> lg_token ` set gs \<longrightarrow> quiet (snd (exit_all rows exc gs)) t) \<and>
    (\<forall>r\<in>set rows. row_live now r \<and> ls_token r \<notin> lg_token ` set gs \<longrightarrow> r \<in> set (snd (exit_all rows exc gs)))"
  using assms
proof (induction gs arbitrary: rows)
  case (Cons g gs)
  let ?rows = "snd (guard_exit rows exc g)"
  have all: "snd (exit_all rows exc (g # gs)) = snd (exit_all ?rows exc gs)" by (simp add: case_prod_unfold Let_def)
  have q: "quiet rows t \<or> t = lg_token g \<Longrightarrow> quiet ?rows t" for t
    using Cons.prems(1) by (cases rule: guard_exit_rows [of rows exc g]) (auto intro: quiet_release release_quiets simp: guard_exit_def)
  have k: "keyed rows h \<Longrightarrow> keyed ?rows h" for h
    by (cases rule: guard_exit_rows [of rows exc g]) (auto intro: keyed_release)
  have d: "distinct_keys ?rows"
    using Cons.prems(2) release_stmt.keeps_keys by (cases rule: guard_exit_rows [of rows exc g]) auto
  have f: "r \<in> set ?rows" if "r \<in> set rows" "row_live now r" "ls_token r \<noteq> lg_token g" for r
    using release_stmt.keeps_foreign [OF that(1) _ that(2) Cons.prems(2)] that by (cases rule: guard_exit_rows [of rows exc g]) auto
  have "\<forall>h\<in>set gs. (lg_acquired h \<and> keyed ?rows h) \<or> quiet ?rows (lg_token h)" using Cons.prems(1) q k by auto
  from Cons.IH [OF this d] q f show ?case unfolding all by auto
qed simp

text \<open>Guards ready to enter as a group.\<close>

definition group_ready :: "lease list \<Rightarrow> lease_guard list \<Rightarrow> bool" where
  "group_ready rows gs \<longleftrightarrow> distinct (map lg_token gs) \<and>
     (\<forall>g\<in>set gs. lg_token g \<notin> ls_token ` set rows \<and> guard_key g = (lg_worker_type g, lg_task_key g))"

definition group_held :: "lease list \<Rightarrow> timestamp \<Rightarrow> lease_guard list \<Rightarrow> bool" where
  "group_held rows now gs \<longleftrightarrow> (\<forall>g\<in>set gs. lg_acquired g \<and> keyed rows g \<and> backed rows g \<and> now < guard_expiry g)"

lemma guard_enter_group:
  assumes e: "guard_enter rows now g = Inr (g', rows')" and d: "distinct_keys rows" and ready: "group_ready rows (g # gs)"
  shows "distinct_keys rows'" "group_ready rows' gs" "lg_token g' = lg_token g" "\<not> lg_acquired g' \<Longrightarrow> rows' = rows"
    "lg_acquired g' \<Longrightarrow> keyed rows' g' \<and> backed rows' g'"
    "r \<in> set rows \<Longrightarrow> row_live now r \<Longrightarrow> r \<in> set rows'" "now + 5 * SECOND_US \<le> guard_expiry g'"
    "lg_token h \<noteq> lg_token g \<Longrightarrow> keyed rows h \<Longrightarrow> keyed rows' h"
    "backed rows h \<Longrightarrow> now < guard_expiry h \<Longrightarrow> backed rows' h"
proof -
  obtain new row where up: "upsert_lease rows new = (row, rows')" and key: "lease_key new = guard_key g"
    and tok: "ls_token new = lg_token g" and now: "ls_heartbeat_at new = now"
    and g: "same_identity g' g" "lg_acquired g' \<longleftrightarrow> row \<noteq> None" "lg_acquired g' \<Longrightarrow> backed rows' g'"
      "lg_worker_type g' = lg_worker_type g" "lg_task_key g' = lg_task_key g" "lg_confirmed g' = now" "5 \<le> lg_ttl g'"
    by (rule guard_enter_effect [OF e]) (rule that)
  have rows: "rows' = snd (upsert_lease rows new)" by (simp add: up)
  show "distinct_keys rows'" unfolding rows by (rule upsert_stmt.keeps_keys) (rule d)
  have "lg_token h \<notin> ls_token ` set rows'" if "h \<in> set gs" for h
    unfolding rows by (rule upsert_stmt.fresh_stays) (use ready that tok in \<open>auto simp: group_ready_def\<close>)
  then show "group_ready rows' gs" using ready by (simp add: group_ready_def)
  show t: "lg_token g' = lg_token g" using g by (simp add: same_identity_def)
  show "\<not> lg_acquired g' \<Longrightarrow> rows' = rows" using g upsert_refused [of rows new] up by simp
  have "\<forall>r\<in>set rows'. ls_token r = lg_token g \<longrightarrow> lease_key r = guard_key g"
    unfolding rows by (rule upsert_stmt.tokens_stay) (use ready key in \<open>auto simp: group_ready_def image_iff\<close>)
  then show "lg_acquired g' \<Longrightarrow> keyed rows' g' \<and> backed rows' g'" using ready g t by (simp add: keyed_def group_ready_def)
  have live: "r \<in> set rows'" if "r \<in> set rows" "row_live now r" for r
    unfolding rows by (rule upsert_stmt.keeps_foreign) (use that ready d tok now in \<open>auto simp: group_ready_def image_iff\<close>)
  then show "r \<in> set rows \<Longrightarrow> row_live now r \<Longrightarrow> r \<in> set rows'" .
  show "now + 5 * SECOND_US \<le> guard_expiry g'" using g by (simp add: guard_expiry_def SECOND_US_def)
  show "keyed rows' h" if "lg_token h \<noteq> lg_token g" "keyed rows h"
    unfolding keyed_def rows by (rule upsert_stmt.tokens_stay) (use that tok in \<open>auto simp: keyed_def\<close>)
  show "backed rows h \<Longrightarrow> now < guard_expiry h \<Longrightarrow> backed rows' h"
    using live by (auto simp: backed_def row_live_def)
qed

lemma fresh_quiet: "t \<notin> ls_token ` set rows \<Longrightarrow> quiet rows t"
  by (auto simp: quiet_def)

lemma group_enter_outcome:
  assumes clock: "\<And>i j. i < n \<Longrightarrow> j < n \<Longrightarrow> clock j < clock i + 5 * SECOND_US"
    and "group_enter rows clock entered gs = Inr (ok, gs', rows')" "n = length entered + length gs" "distinct_keys rows"
      "group_ready rows gs" "lg_token ` set entered \<inter> lg_token ` set gs = {}" "\<And>i. i < n \<Longrightarrow> group_held rows (clock i) entered"
  shows "(ok \<longrightarrow> map lg_token gs' = rev (map lg_token entered) @ map lg_token gs \<and> (gs \<noteq> [] \<longrightarrow> (\<forall>g\<in>set gs'. lg_acquired g \<and> backed rows' g))) \<and>
    (\<not> ok \<longrightarrow> (\<forall>t\<in>lg_token ` (set entered \<union> set gs). quiet rows' t)) \<and>
    (\<forall>r\<in>set rows. (\<forall>i<n. row_live (clock i) r) \<and> ls_token r \<notin> lg_token ` set entered \<longrightarrow> r \<in> set rows')"
  using assms(2-)
proof (induction gs arbitrary: rows entered)
  case Nil
  then show ?case by (simp add: rev_map)
next
  case (Cons g gs)
  let ?now = "clock (length entered)"
  from Cons.prems(1) obtain g' rows1 where e: "guard_enter rows ?now g = Inr (g', rows1)" by (auto simp: rbind_eq_Inr)
  note ge = guard_enter_group [OF e Cons.prems(3,4)]
  have n: "length entered < n" using Cons.prems(2) by simp
  have fresh: "lg_token g \<notin> ls_token ` set rows" "\<And>h. h \<in> set gs \<Longrightarrow> lg_token h \<notin> ls_token ` set rows"
    using Cons.prems(4) by (auto simp: group_ready_def)
  have liv: "r \<in> set rows1" "ls_token r \<noteq> lg_token g" if "r \<in> set rows" "\<forall>i<n. row_live (clock i) r" for r
    using ge(6) [OF that(1)] that n fresh(1) by (auto simp: image_iff)
  show ?case
  proof (cases "lg_acquired g'")
    case True
    have held: "group_held rows1 (clock i) (g' # entered)" if "i < n" for i
    proof -
      have "clock i < guard_expiry g'" using clock [OF n that] ge(7) by linarith
      moreover have "keyed rows1 h \<and> backed rows1 h \<and> lg_acquired h \<and> clock i < guard_expiry h" if "h \<in> set entered" for h
      proof -
        have "lg_token h \<noteq> lg_token g" 
          using Cons.prems(5) [unfolded disjoint_iff, rule_format, OF imageI [OF that]] by simp
        moreover have "lg_acquired h \<and> keyed rows h \<and> backed rows h \<and> ?now < guard_expiry h" "clock i < guard_expiry h"
          using Cons.prems(6) [OF n] Cons.prems(6) [OF \<open>i < n\<close>] that by (simp_all add: group_held_def)
        ultimately show ?thesis using ge(8,9) by simp
      qed
      ultimately show ?thesis using ge(5) True by (simp add: group_held_def)
    qed
    have dis: "lg_token ` set (g' # entered) \<inter> lg_token ` set gs = {}" using Cons.prems(4,5) ge(3) by (auto simp: group_ready_def)
    have go: "group_enter rows1 clock (g' # entered) gs = Inr (ok, gs', rows')" using Cons.prems(1) e True by simp
    have ih: "(ok \<longrightarrow> map lg_token gs' = rev (map lg_token (g' # entered)) @ map lg_token gs \<and> (gs \<noteq> [] \<longrightarrow> (\<forall>g\<in>set gs'. lg_acquired g \<and> backed rows' g))) \<and>
        (\<not> ok \<longrightarrow> (\<forall>t\<in>lg_token ` (set (g' # entered) \<union> set gs). quiet rows' t)) \<and>
        (\<forall>r\<in>set rows1. (\<forall>i<n. row_live (clock i) r) \<and> ls_token r \<notin> lg_token ` set (g' # entered) \<longrightarrow> r \<in> set rows')"
      by (rule Cons.IH [OF go _ ge(1,2) dis]) (use Cons.prems(2) held in auto)
    have "gs = [] \<Longrightarrow> ok \<and> (\<forall>g\<in>set gs'. lg_acquired g \<and> backed rows' g)" using go held [OF n] by (auto simp: group_held_def)
    with ih ge(3) liv show ?thesis by auto
  next
    case False
    then have rows1: "rows1 = rows" using ge(4) by simp
    from Cons.prems(1) e False have out: "ok = False" "rows' = snd (exit_all rows None (g' # entered))"
      by (auto simp: rows1 case_prod_unfold Let_def)
    have ready: "\<forall>h\<in>set (g' # entered). (lg_acquired h \<and> keyed rows h) \<or> quiet rows (lg_token h)"
      using Cons.prems(6) [OF n] fresh_quiet [OF fresh(1)] ge(3) by (auto simp: group_held_def)
    have q: "quiet rows t \<or> t \<in> lg_token ` set (g' # entered) \<Longrightarrow> quiet rows' t"
      and k: "r \<in> set rows \<Longrightarrow> row_live ?now r \<and> ls_token r \<notin> lg_token ` set (g' # entered) \<Longrightarrow> r \<in> set rows'" for t r
      using exit_all_quiets [OF ready Cons.prems(3), of None ?now] unfolding out(2) by blast+
    have "quiet rows' t" if "t \<in> lg_token ` (set entered \<union> set (g # gs))" for t
      using that q ge(3) fresh_quiet [OF fresh(2)] by auto
    then show ?thesis using out(1) k liv n ge(3) by auto
  qed
qed

text \<open>
  A group of guards is entered all or nothing. Guards with fresh tokens and names in their stored
  form, entered one after another within five seconds (the shortest time to live): if the group
  reports success every guard is acquired and backed by an active row; if it does not, no active row
  carries a token of the group, neither of the guards entered before the refusal nor of the others.
  Either way the rows of other owners that stay live meanwhile are untouched.
\<close>

theorem group_all_or_nothing:
  assumes "group_enter rows clock [] gs = Inr (ok, gs', rows')"
    and "\<forall>i<length gs. \<forall>j<length gs. clock j < clock i + 5 * SECOND_US"
    and "distinct_keys rows" and "group_ready rows gs"
  shows "(ok \<longrightarrow> map lg_token gs' = map lg_token gs \<and> (\<forall>g\<in>set gs'. lg_acquired g \<and> backed rows' g)) \<and>
    (\<not> ok \<longrightarrow> (\<forall>g\<in>set gs. \<forall>r\<in>set rows'. ls_token r = lg_token g \<longrightarrow> ls_status r \<noteq> Active)) \<and>
    (\<forall>r\<in>set rows. (\<forall>i<length gs. row_live (clock i) r) \<longrightarrow> r \<in> set rows')"
proof -
  have "(ok \<longrightarrow> map lg_token gs' = rev (map lg_token ([] :: lease_guard list)) @ map lg_token gs \<and> (gs \<noteq> [] \<longrightarrow> (\<forall>g\<in>set gs'. lg_acquired g \<and> backed rows' g))) \<and>
    (\<not> ok \<longrightarrow> (\<forall>t\<in>lg_token ` (set ([] :: lease_guard list) \<union> set gs). quiet rows' t)) \<and>
    (\<forall>r\<in>set rows. (\<forall>i<length gs. row_live (clock i) r) \<and> ls_token r \<notin> lg_token ` set ([] :: lease_guard list) \<longrightarrow> r \<in> set rows')"
    by (rule group_enter_outcome [OF _ assms(1)]) (use assms in \<open>auto simp: group_held_def\<close>)
  moreover have "gs = [] \<Longrightarrow> gs' = []" using assms(1) by simp
  ultimately show ?thesis by (auto simp: quiet_def)
qed

lemma example_group: "group_enter [example_row ''z''] (\<lambda>_. 7) [] [(example_guard ''a'')\<lparr>lg_task_key := ''w''\<rparr>, example_guard ''b''] = Inr (False,
    [(example_guard ''a'')\<lparr>lg_task_key := ''w'', lg_acquired := True, lg_entered := True, lg_stopped := True, lg_beating := True, lg_confirmed := 7\<rparr>,
     (example_guard ''b'')\<lparr>lg_entered := True, lg_stopped := True, lg_confirmed := 7\<rparr>],
    [example_row ''z'', (example_row ''a'')\<lparr>ls_task_key := ''w'', ls_status := Released\<rparr>])"
  by (simp add: guard_enter_def acquire_lease_def bounded_def upsert_lease_def example_guard_def example_row_def WORKER_TYPES_def
      example_strings SECOND_US_def Let_def lease_key_def claimable_def guard_exit_def release_lease_def lease_owned_def)

theorem group_all_or_nothing_witness:
  "ls_status ((example_row ''a'')\<lparr>ls_task_key := ''w'', ls_status := Released\<rparr>) \<noteq> Active \<and> row_live 7 (example_row ''z'')"
proof -
  have ready: "group_ready [example_row ''z''] [(example_guard ''a'')\<lparr>lg_task_key := ''w''\<rparr>, example_guard ''b'']"
    by (simp add: group_ready_def guard_key_def example_guard_def example_row_def example_strings)
  have "ls_status ((example_row ''a'')\<lparr>ls_task_key := ''w'', ls_status := Released\<rparr>) \<noteq> Active"
    using group_all_or_nothing [OF example_group _ _ ready] by (simp add: SECOND_US_def example_row_def example_guard_def)
  then show ?thesis by (simp add: row_live_def example_row_def)
qed

end
