(* ===== verification/Oi_Regime.thy ===== *)
theory Oi_Regime
  imports Complex_Main Indicators Execution_Policy "HOL-Library.Product_Lexorder"
begin

text \<open>
  The option-interest regime of NIFTY, \<open>backend/markets/nse/oi_regime.py\<close>: how changes of price and open
  interest are classified, the scores of options, futures and the spot trend, and how they are
  combined into a regime. Values are reals, so the tests for finiteness are true; a timestamp is a
  moment, so conversions to Indian time leave it as it is.
\<close>

section \<open>Configuration\<close>

datatype regime_name =
  StronglyBearish | Bearish | NeutralRegime | Bullish | StronglyBullish | VolatilityExpansion | InsufficientOi

datatype buildup = LongBuildup | ShortBuildup | ShortCovering | LongUnwinding | NoBuildup

datatype option_type = CALL | PUT

datatype confidence = LOW | MEDIUM | HIGH

record oi_config =
  oi_lookback_bars :: int
  oi_strikes_each_side :: int
  oi_minimum_price_change :: real
  oi_minimum_oi_change :: real
  oi_maximum_spread :: real
  oi_stale_seconds :: int
  oi_bar_seconds :: int
  oi_rollover_hour :: int
  oi_rollover_minute :: int
  oi_minimum_fraction :: real
  oi_minimum_volume :: real
  oi_minimum_coverage :: real
  oi_minimum_confidence :: real
  oi_options_weight :: real
  oi_futures_weight :: real
  oi_spot_weight :: real
  oi_strongly_bearish :: real
  oi_bearish :: real
  oi_bullish :: real
  oi_strongly_bullish :: real
  oi_elevated_quality :: real
  oi_volatility_price :: real
  oi_volatility_iv :: real
  oi_fail_policy :: string

definition default_oi_config :: oi_config where
  "default_oi_config = \<lparr>oi_lookback_bars = 3, oi_strikes_each_side = 5, oi_minimum_price_change = 5 / 100, oi_minimum_oi_change = 1 / 2,
     oi_maximum_spread = 20, oi_stale_seconds = 360, oi_bar_seconds = 300, oi_rollover_hour = 15, oi_rollover_minute = 20,
     oi_minimum_fraction = 1 / 2, oi_minimum_volume = 1, oi_minimum_coverage = 65 / 100, oi_minimum_confidence = 1 / 2,
     oi_options_weight = 35 / 100, oi_futures_weight = 35 / 100, oi_spot_weight = 30 / 100, oi_strongly_bearish = - 60,
     oi_bearish = - 20, oi_bullish = 20, oi_strongly_bullish = 60, oi_elevated_quality = 95, oi_volatility_price = 25 / 100,
     oi_volatility_iv = 1 / 2, oi_fail_policy = ''SKIP''\<rparr>"

definition oi_validate :: "oi_config \<Rightarrow> oi_config res" where
  "oi_validate c =
     (if oi_lookback_bars c < 1 then Inl (ValueError ''OI lookback must be at least one completed bar'')
      else if \<not> (0 \<le> oi_strikes_each_side c \<and> oi_strikes_each_side c \<le> 20) then Inl (ValueError ''ATM strike wings must be between 0 and 20'')
      else if oi_minimum_price_change c < 0 \<or> oi_minimum_oi_change c < 0 then Inl (ValueError ''OI classification thresholds cannot be negative'')
      else if oi_maximum_spread c \<le> 0 then Inl (ValueError ''Maximum option spread must be positive'')
      else if oi_stale_seconds c < 1 then Inl (ValueError ''OI stale-data tolerance must be positive'')
      else if oi_bar_seconds c < 60 then Inl (ValueError ''OI completed-bar duration must be at least 60 seconds'')
      else if \<not> (0 \<le> oi_rollover_hour c \<and> oi_rollover_hour c \<le> 23) \<or> \<not> (0 \<le> oi_rollover_minute c \<and> oi_rollover_minute c \<le> 59)
      then Inl (ValueError ''OI expiry rollover time is invalid'')
      else if \<not> (0 < oi_minimum_fraction c \<and> oi_minimum_fraction c \<le> 1) then Inl (ValueError ''Minimum valid option-contract fraction must be in (0, 1]'')
      else if oi_minimum_volume c < 0 then Inl (ValueError ''Minimum futures volume cannot be negative'')
      else if \<not> (0 < oi_minimum_coverage c \<and> oi_minimum_coverage c \<le> 1) then Inl (ValueError ''Minimum OI component coverage must be in (0, 1]'')
      else if \<not> (0 \<le> oi_minimum_confidence c \<and> oi_minimum_confidence c \<le> 1) then Inl (ValueError ''Minimum OI confidence must be between 0 and 1'')
      else if oi_options_weight c < 0 \<or> oi_futures_weight c < 0 \<or> oi_spot_weight c < 0
        \<or> oi_options_weight c + oi_futures_weight c + oi_spot_weight c \<le> 0
      then Inl (ValueError ''OI component weights must be non-negative and sum above zero'')
      else if \<not> (- 100 \<le> oi_strongly_bearish c \<and> oi_strongly_bearish c < oi_bearish c \<and> oi_bearish c < oi_bullish c
        \<and> oi_bullish c < oi_strongly_bullish c \<and> oi_strongly_bullish c \<le> 100)
      then Inl (ValueError ''OI regime thresholds must be strictly ordered between -100 and 100'')
      else if \<not> (0 \<le> oi_elevated_quality c \<and> oi_elevated_quality c \<le> 100) then Inl (ValueError ''Elevated stock-quality threshold must be between 0 and 100'')
      else if oi_volatility_price c < 0 \<or> oi_volatility_iv c < 0 then Inl (ValueError ''Volatility-expansion thresholds cannot be negative'')
      else if oi_fail_policy c \<noteq> ''SKIP'' \<and> oi_fail_policy c \<noteq> ''ALLOW'' then Inl (ValueError ''OI fail policy must be SKIP or ALLOW'')
      else Inr c)"

section \<open>Observations\<close>

text \<open>The fields of an observation that the scores read.\<close>

record option_oi =
  oo_at :: timestamp
  oo_expiry :: day
  oo_strike :: real
  oo_type :: option_type
  oo_security :: string
  oo_ltp :: real
  oo_interest :: real
  oo_volume :: real
  oo_iv :: "real option"
  oo_bid :: real
  oo_ask :: real
  oo_spot :: real
  oo_distance :: int
  oo_source :: string
  oo_source_at :: "timestamp option"

record futures_oi =
  fu_at :: timestamp
  fu_expiry :: day
  fu_security :: string
  fu_price :: real
  fu_interest :: real
  fu_volume :: real
  fu_basis :: real
  fu_source_at :: "timestamp option"

definition option_source_time :: "option_oi \<Rightarrow> timestamp" where
  "option_source_time o' = (case oo_source_at o' of None \<Rightarrow> oo_at o' | Some t \<Rightarrow> t)"

definition futures_source_time :: "futures_oi \<Rightarrow> timestamp" where
  "futures_source_time f = (case fu_source_at f of None \<Rightarrow> fu_at f | Some t \<Rightarrow> t)"

definition seconds_between :: "timestamp \<Rightarrow> timestamp \<Rightarrow> real" where
  "seconds_between later earlier = of_int (later - earlier) / 1000000"

definition change_pct :: "real \<Rightarrow> real \<Rightarrow> real option" where
  "change_pct current previous = (if previous = 0 then None else Some ((current - previous) / \<bar>previous\<bar> * 100))"

definition clamp :: "real \<Rightarrow> real \<Rightarrow> real \<Rightarrow> real" where
  "clamp value lower upper = min upper (max lower value)"

definition classify_buildup :: "oi_config \<Rightarrow> real option \<Rightarrow> real option \<Rightarrow> buildup" where
  "classify_buildup c price_change oi_change =
     (case (price_change, oi_change) of
        (Some p, Some q) \<Rightarrow>
          if \<bar>p\<bar> < oi_minimum_price_change c \<or> \<bar>q\<bar> < oi_minimum_oi_change c then NoBuildup
          else if p > 0 \<and> q > 0 then LongBuildup
          else if p < 0 \<and> q > 0 then ShortBuildup
          else if p > 0 \<and> q < 0 then ShortCovering
          else if p < 0 \<and> q < 0 then LongUnwinding
          else NoBuildup
      | _ \<Rightarrow> NoBuildup)"

fun option_direction :: "option_type \<Rightarrow> buildup \<Rightarrow> real" where
  "option_direction CALL LongBuildup = 1"
| "option_direction CALL ShortCovering = 1"
| "option_direction CALL ShortBuildup = - 1"
| "option_direction CALL LongUnwinding = - 1"
| "option_direction PUT LongBuildup = - 1"
| "option_direction PUT ShortCovering = - 1"
| "option_direction PUT ShortBuildup = 1"
| "option_direction PUT LongUnwinding = 1"
| "option_direction _ NoBuildup = 0"

text \<open>Keys compare as Python compares them: an integer distance equals a strike of the same value.\<close>

definition lookback_key :: "option_oi \<Rightarrow> day \<times> real \<times> option_type" where
  "lookback_key o' =
     (oo_expiry o', if oo_source o' = ''DHAN_EXPIRED_OPTIONS'' then of_int (oo_distance o') else oo_strike o', oo_type o')"

definition select_expiry :: "day list \<Rightarrow> timestamp \<Rightarrow> int option \<Rightarrow> day option" where
  "select_expiry expiries evaluation rollover =
     (let date = local_date NSE evaluation;
          session = (case rollover of None \<Rightarrow> date | Some t \<Rightarrow> if local_time NSE evaluation \<ge> t then date + 1 else date)
      in List.find (\<lambda>e. e \<ge> session) (sort (remdups expiries)))"

definition atm_index :: "real list \<Rightarrow> real \<Rightarrow> nat" where
  "atm_index ordered spot = arg_min_list (\<lambda>i. (\<bar>ordered ! i - spot\<bar>, ordered ! i)) [0..<length ordered]"

definition select_atm_strikes :: "real list \<Rightarrow> real \<Rightarrow> int \<Rightarrow> real list" where
  "select_atm_strikes strikes spot each_side =
     (let ordered = sort (remdups strikes) in
      if ordered = [] then []
      else let i = int (atm_index ordered spot); start = max 0 (i - each_side); stop = min (int (length ordered)) (i + each_side + 1)
           in take (nat (stop - start)) (drop (nat start) ordered))"

text \<open>The spread in percent; without a positive midpoint it is infinite and no limit admits it.\<close>

definition spread_pct :: "option_oi \<Rightarrow> real option" where
  "spread_pct o' =
     (let midpoint = (oo_bid o' + oo_ask o') / 2 in if midpoint \<le> 0 then None else Some ((oo_ask o' - oo_bid o') / midpoint * 100))"

definition option_contract_is_eligible :: "option_oi \<Rightarrow> timestamp \<Rightarrow> oi_config \<Rightarrow> bool" where
  "option_contract_is_eligible o' evaluation c =
     (let age = seconds_between evaluation (option_source_time o') in
      oo_interest o' \<ge> 0 \<and> oo_volume o' > 0 \<and> oo_ltp o' > 0 \<and> oo_bid o' > 0 \<and> oo_ask o' \<ge> oo_bid o'
      \<and> case_option False (\<lambda>s. s \<le> oi_maximum_spread c) (spread_pct o') \<and> 0 \<le> age \<and> age \<le> of_int (oi_stale_seconds c))"

definition median :: "real list \<Rightarrow> real" where
  "median xs = (let ys = sort xs; n = length ys in if odd n then ys ! (n div 2) else (ys ! (n div 2 - 1) + ys ! (n div 2)) / 2)"

section \<open>Options\<close>

record expiry_match =
  em_expiry :: day
  em_spot :: real
  em_strikes :: "real list"
  em_pairs :: "(option_oi \<times> option_oi) list"
  em_expected :: nat

definition maximum_gap :: "oi_config \<Rightarrow> real" where
  "maximum_gap c = of_int (oi_bar_seconds c * (oi_lookback_bars c + 1) + oi_stale_seconds c)"

definition match_contract :: "oi_config \<Rightarrow> timestamp \<Rightarrow> real list \<Rightarrow> (day \<times> real \<times> option_type \<rightharpoonup> option_oi) \<Rightarrow> option_oi \<Rightarrow> (option_oi \<times> option_oi) option" where
  "match_contract c evaluation strikes previous item =
     (if oo_strike item \<notin> set strikes \<or> \<not> option_contract_is_eligible item evaluation c then None
      else case previous (lookback_key item) of
          None \<Rightarrow> None
        | Some prev \<Rightarrow>
            let gap = seconds_between (oo_at item) (oo_at prev)
            in if gap \<le> 0 \<or> gap > maximum_gap c then None else Some (item, prev))"

definition match_expiry :: "oi_config \<Rightarrow> timestamp \<Rightarrow> option_oi list \<Rightarrow> option_oi list \<Rightarrow> day \<Rightarrow> expiry_match option" where
  "match_expiry c evaluation current lookback expiry =
     (let rows = filter (\<lambda>o'. oo_expiry o' = expiry) current;
          spots = map oo_spot (filter (\<lambda>o'. oo_spot o' > 0) rows)
      in if spots = [] then None
         else let spot = median spots; strikes = select_atm_strikes (map oo_strike rows) spot (oi_strikes_each_side c)
              in if strikes = [] then None
                 else let previous = map_of (rev (map (\<lambda>o'. (lookback_key o', o')) (filter (\<lambda>o'. oo_expiry o' = expiry) lookback)));
                          pairs = List.map_filter (match_contract c evaluation strikes previous) rows;
                          expected = max 1 (length strikes * 2)
                      in if real (length pairs) / real expected < oi_minimum_fraction c then None
                         else Some \<lparr>em_expiry = expiry, em_spot = spot, em_strikes = strikes, em_pairs = pairs, em_expected = expected\<rparr>)"

fun first_match :: "('a \<Rightarrow> 'b option) \<Rightarrow> 'a list \<Rightarrow> 'b option" where
  "first_match f [] = None"
| "first_match f (x # xs) = (case f x of None \<Rightarrow> first_match f xs | Some y \<Rightarrow> Some y)"

record contract_row =
  cr_item :: option_oi
  cr_previous :: option_oi
  cr_distance :: int
  cr_price_change :: "real option"
  cr_oi_change :: "real option"
  cr_buildup :: buildup
  cr_direction :: real
  cr_weight :: real

definition contract_weight :: "oi_config \<Rightarrow> int \<Rightarrow> option_oi \<Rightarrow> option_oi \<Rightarrow> real" where
  "contract_weight c distance item previous =
     (let distance_weight = 1 / (1 + \<bar>of_int distance\<bar>);
          spread_quality = clamp (1 - the (spread_pct item) / oi_maximum_spread c) (5 / 100) 1;
          liquidity = max 1 (sqrt (ln (1 + max (oo_volume item) 0)));
          oi_weight = max 1 (ln (1 + \<bar>oo_interest item - oo_interest previous\<bar>))
      in distance_weight * spread_quality * liquidity * oi_weight)"

definition strike_distance :: "real list \<Rightarrow> real \<Rightarrow> real \<Rightarrow> int" where
  "strike_distance strikes spot strike = int (length (takeWhile (\<lambda>s. s \<noteq> strike) strikes)) - int (atm_index strikes spot)"

definition contract_row_of :: "oi_config \<Rightarrow> expiry_match \<Rightarrow> option_oi \<times> option_oi \<Rightarrow> contract_row" where
  "contract_row_of c m pair =
     (let (item, previous) = pair;
          price = change_pct (oo_ltp item) (oo_ltp previous);
          interest = change_pct (oo_interest item) (oo_interest previous);
          buildup = classify_buildup c price interest;
          distance = strike_distance (em_strikes m) (em_spot m) (oo_strike item)
      in \<lparr>cr_item = item, cr_previous = previous, cr_distance = distance, cr_price_change = price, cr_oi_change = interest,
          cr_buildup = buildup, cr_direction = option_direction (oo_type item) buildup,
          cr_weight = contract_weight c distance item previous\<rparr>)"

definition total_where :: "(contract_row \<Rightarrow> bool) \<Rightarrow> (contract_row \<Rightarrow> real) \<Rightarrow> contract_row list \<Rightarrow> real" where
  "total_where P f rows = sum_list (map f (filter P rows))"

definition near_rises :: "option_type \<Rightarrow> contract_row list \<Rightarrow> real list" where
  "near_rises t rows = List.map_filter (\<lambda>r. if \<bar>cr_distance r\<bar> \<le> 1 \<and> oo_type (cr_item r) = t then cr_price_change r else None) rows"

definition iv_changes :: "contract_row list \<Rightarrow> real list" where
  "iv_changes rows = List.map_filter (\<lambda>r. lift2 (-) (oo_iv (cr_item r)) (oo_iv (cr_previous r))) rows"

definition volatility_expansion :: "oi_config \<Rightarrow> contract_row list \<Rightarrow> bool" where
  "volatility_expansion c rows =
     (near_rises CALL rows \<noteq> [] \<and> near_rises PUT rows \<noteq> [] \<and> iv_changes rows \<noteq> []
      \<and> real (length (iv_changes rows)) / real (length rows) \<ge> oi_minimum_fraction c
      \<and> median (near_rises CALL rows) \<ge> oi_volatility_price c \<and> median (near_rises PUT rows) \<ge> oi_volatility_price c
      \<and> median (iv_changes rows) \<ge> oi_volatility_iv c)"

text \<open>What a component hands to the combination, with the values it also reports.\<close>

record oi_component =
  oc_available :: bool
  oc_score :: real
  oc_confidence :: confidence
  oc_volatility :: bool
  oc_source_at :: "timestamp option"
  oc_reason :: string

definition unavailable :: "string \<Rightarrow> oi_component" where
  "unavailable reason = \<lparr>oc_available = False, oc_score = 0, oc_confidence = LOW, oc_volatility = False, oc_source_at = None, oc_reason = reason\<rparr>"

record option_report =
  or_component :: oi_component
  or_expiry :: day
  or_strikes :: "real list"
  or_spot :: real
  or_oldest_source :: timestamp
  or_age :: real
  or_coverage :: real
  or_valid :: nat
  or_expected :: nat
  or_iv_change :: "real option"
  or_iv_coverage :: real
  or_pcr :: "real option"
  or_pcr_change :: "real option"
  or_put_long :: real
  or_call_long :: real
  or_put_short :: real
  or_call_short :: real
  or_contracts :: "contract_row list"

definition pcr :: "real \<Rightarrow> real \<Rightarrow> real option" where
  "pcr put call = (if call > 0 then Some (put / call) else None)"

definition is_type :: "option_type \<Rightarrow> contract_row \<Rightarrow> bool" where
  "is_type t r \<longleftrightarrow> oo_type (cr_item r) = t"

definition strength :: "option_type \<Rightarrow> buildup \<Rightarrow> real \<Rightarrow> contract_row list \<Rightarrow> real" where
  "strength t b weight rows = py_round (total_where (\<lambda>r. is_type t r \<and> cr_buildup r = b) cr_weight rows / weight * 100) 4"

definition option_report_of :: "oi_config \<Rightarrow> timestamp \<Rightarrow> expiry_match \<Rightarrow> contract_row list \<Rightarrow> option_report" where
  "option_report_of c evaluation m rows =
     (let weight = total_where (\<lambda>_. True) cr_weight rows;
          score = clamp (total_where (\<lambda>_. True) (\<lambda>r. cr_direction r * cr_weight r) rows / weight * 100) (- 100) 100;
          expansion = volatility_expansion c rows;
          coverage = min 1 (real (length rows) / real (em_expected m));
          sources = map (\<lambda>r. option_source_time (cr_item r)) rows;
          lookbacks = map (\<lambda>r. option_source_time (cr_previous r)) rows;
          now_pcr = pcr (total_where (is_type PUT) (\<lambda>r. oo_interest (cr_item r)) rows) (total_where (is_type CALL) (\<lambda>r. oo_interest (cr_item r)) rows);
          old_pcr = pcr (total_where (is_type PUT) (\<lambda>r. oo_interest (cr_previous r)) rows) (total_where (is_type CALL) (\<lambda>r. oo_interest (cr_previous r)) rows)
      in \<lparr>or_component = \<lparr>oc_available = True, oc_score = py_round score 6,
            oc_confidence = (if expansion \<or> coverage < 60 / 100 then LOW else if coverage \<ge> 85 / 100 then HIGH else MEDIUM),
            oc_volatility = expansion, oc_source_at = Some (Max (set sources)), oc_reason = []\<rparr>,
          or_expiry = em_expiry m, or_strikes = em_strikes m, or_spot = py_round (em_spot m) 4,
          or_oldest_source = Min (set (sources @ lookbacks)),
          or_age = py_round (max 0 (seconds_between evaluation (Min (set sources)))) 2, or_coverage = py_round coverage 6,
          or_valid = length rows, or_expected = em_expected m,
          or_iv_change = (if iv_changes rows = [] then None else Some (py_round (median (iv_changes rows)) 6)),
          or_iv_coverage = py_round (real (length (iv_changes rows)) / real (length rows)) 6,
          or_pcr = map_option (\<lambda>x. py_round x 6) now_pcr, or_pcr_change = map_option (\<lambda>x. py_round x 6) (lift2 (-) now_pcr old_pcr),
          or_put_long = strength PUT LongBuildup weight rows, or_call_long = strength CALL LongBuildup weight rows,
          or_put_short = strength PUT ShortBuildup weight rows, or_call_short = strength CALL ShortBuildup weight rows,
          or_contracts = rows\<rparr>)"

definition rollover_time :: "oi_config \<Rightarrow> int" where
  "rollover_time c = (oi_rollover_hour c * 60 + oi_rollover_minute c) * MINUTE_US"

definition candidate_expiries :: "oi_config \<Rightarrow> timestamp \<Rightarrow> option_oi list \<Rightarrow> day list option" where
  "candidate_expiries c evaluation current =
     map_option (\<lambda>first. sort (remdups (filter (\<lambda>e. e \<ge> first) (map oo_expiry current))))
       (select_expiry (map oo_expiry current) evaluation (Some (rollover_time c)))"

definition score_options :: "option_oi list \<Rightarrow> option_oi list \<Rightarrow> timestamp \<Rightarrow> oi_config \<Rightarrow> (string + option_report) res" where
  "score_options current lookback evaluation c =
     rbind (oi_validate c) (\<lambda>_.
       if current = [] \<or> lookback = [] then Inr (Inl ''Option OI lookback is unavailable'')
       else case candidate_expiries c evaluation current of
           None \<Rightarrow> Inr (Inl ''No non-expired NIFTY option expiry is available'')
         | Some expiries \<Rightarrow>
             (case first_match (match_expiry c evaluation current lookback) expiries of
                None \<Rightarrow> Inr (Inl ''No single liquid NIFTY expiry passed the option quality and lookback checks'')
              | Some m \<Rightarrow>
                  let rows = map (contract_row_of c m) (em_pairs m) in
                  if rows = [] then Inr (Inl ''No single liquid NIFTY expiry passed the option quality and lookback checks'')
                  else if total_where (\<lambda>_. True) cr_weight rows \<le> 0 then Inr (Inl ''No liquid matched option contracts passed OI quality checks'')
                  else Inr (Inr (option_report_of c evaluation m rows))))"

section \<open>Futures\<close>

record futures_report =
  fr_component :: oi_component
  fr_buildup :: buildup
  fr_price_change :: "real option"
  fr_oi_change :: "real option"
  fr_expiry :: day
  fr_security :: string
  fr_basis :: real
  fr_lookback_at :: timestamp
  fr_age :: real

definition futures_direction :: "buildup \<Rightarrow> real" where
  "futures_direction b = (if b = LongBuildup \<or> b = ShortCovering then 1 else if b = ShortBuildup \<or> b = LongUnwinding then - 1 else 0)"

definition futures_strength :: "oi_config \<Rightarrow> real option \<Rightarrow> real option \<Rightarrow> real" where
  "futures_strength c price interest =
     min 100 ((\<bar>case_option 0 id price\<bar> / max (oi_minimum_price_change c) (1 / 100)
       + \<bar>case_option 0 id interest\<bar> / max (oi_minimum_oi_change c) (1 / 100)) * (125 / 10))"

definition futures_report_of :: "oi_config \<Rightarrow> real \<Rightarrow> futures_oi \<Rightarrow> futures_oi \<Rightarrow> futures_report" where
  "futures_report_of c age current previous =
     (let price = change_pct (fu_price current) (fu_price previous); interest = change_pct (fu_interest current) (fu_interest previous);
          buildup = classify_buildup c price interest; strength = futures_strength c price interest
      in \<lparr>fr_component = \<lparr>oc_available = True, oc_score = py_round (futures_direction buildup * strength) 6,
            oc_confidence = (if strength \<ge> 50 then HIGH else if strength \<ge> 20 then MEDIUM else LOW),
            oc_volatility = False, oc_source_at = Some (futures_source_time current), oc_reason = []\<rparr>,
          fr_buildup = buildup, fr_price_change = map_option (\<lambda>x. py_round x 6) price, fr_oi_change = map_option (\<lambda>x. py_round x 6) interest,
          fr_expiry = fu_expiry current, fr_security = fu_security current, fr_basis = py_round (fu_basis current) 6,
          fr_lookback_at = futures_source_time previous, fr_age = py_round age 2\<rparr>)"

definition score_futures :: "futures_oi option \<Rightarrow> futures_oi option \<Rightarrow> timestamp \<Rightarrow> oi_config \<Rightarrow> string + futures_report" where
  "score_futures current previous evaluation c =
     (case (current, previous) of
        (Some cur, Some prev) \<Rightarrow>
          if fu_security cur \<noteq> fu_security prev \<or> fu_expiry cur \<noteq> fu_expiry prev
          then Inl ''Futures contract rollover prevents cross-contract comparison''
          else let age = seconds_between evaluation (futures_source_time cur) in
            if age < 0 \<or> age > of_int (oi_stale_seconds c) then Inl ''Futures OI snapshot is stale''
            else let gap = seconds_between (fu_at cur) (fu_at prev) in
              if gap \<le> 0 \<or> gap > maximum_gap c then Inl ''Futures OI lookback has a gap too large for a completed-bar comparison''
              else if fu_price cur \<le> 0 \<or> fu_interest cur < 0 \<or> fu_volume cur < oi_minimum_volume c
              then Inl ''Futures quote failed price, OI, or volume quality checks''
              else Inr (futures_report_of c age cur prev)
      | _ \<Rightarrow> Inl ''Futures OI lookback is unavailable'')"

section \<open>Spot trend\<close>

text \<open>Candles of the index with numbers in every column; \<open>sort_index\<close> is the order pandas gives.\<close>

definition percent_or_zero :: "real option \<Rightarrow> real option \<Rightarrow> real" where
  "percent_or_zero a b = (case (a, b) of (Some x, Some y) \<Rightarrow> case_option 0 id (change_pct x y) | _ \<Rightarrow> 0)"

definition trend_score :: "real \<Rightarrow> real \<Rightarrow> real \<Rightarrow> real \<Rightarrow> bool \<Rightarrow> real \<Rightarrow> real" where
  "trend_score close vwap return5 return15 ema_above slope =
     clamp ((if close > vwap then 25 else - 25) + clamp (return5 * 20) (- 20) 20 + clamp (return15 * 10) (- 20) 20
       + (if ema_above then 20 else - 20) + clamp (slope * 15) (- 15) 15) (- 100) 100"

definition score_spot_trend ::
  "(real \<Rightarrow> series \<Rightarrow> series) \<Rightarrow> (candle list \<Rightarrow> candle list) \<Rightarrow> candle list \<Rightarrow> timestamp \<Rightarrow> oi_config option \<Rightarrow> (string + oi_component) res" where
  "score_spot_trend ewm sort_index candles evaluation config =
     (if candles = [] then Inr (Inl ''Completed NIFTY spot candles are unavailable'')
      else let data = filter (\<lambda>c. ca_at c \<le> evaluation) (sort_index candles); n = length data in
        if n < 20 then Inr (Inl ''At least 20 completed NIFTY candles are required'')
        else let source_at = ca_at (last data); age = seconds_between evaluation source_at in
          if age < 0 \<or> case_option False (\<lambda>c. age > of_int (oi_stale_seconds c)) config then Inr (Inl ''Completed NIFTY spot candle is stale'')
          else let close = map (\<lambda>c. Some (ca_close c)) data in
            rbind (ema ewm close 9) (\<lambda>ema9.
            rbind (ema ewm close 20) (\<lambda>ema20.
              case session_vwap NSE data ! (n - 1) of
                None \<Rightarrow> Inr (Inl ''NIFTY session VWAP is unavailable'')
              | Some vwap \<Rightarrow>
                  Inr (Inr \<lparr>oc_available = True,
                    oc_score = py_round (trend_score (ca_close (last data)) vwap (percent_or_zero (close ! (n - 1)) (close ! (n - 2)))
                      (percent_or_zero (close ! (n - 1)) (close ! (n - 4))) (gt (ema9 ! (n - 1)) (ema20 ! (n - 1)))
                      (percent_or_zero (ema9 ! (n - 1)) (ema9 ! (n - 4)))) 6,
                    oc_confidence = HIGH, oc_volatility = False, oc_source_at = Some source_at, oc_reason = []\<rparr>))))"

section \<open>The regime\<close>

definition regime_from_score :: "real \<Rightarrow> oi_config \<Rightarrow> regime_name" where
  "regime_from_score score c =
     (if score \<le> oi_strongly_bearish c then StronglyBearish else if score < oi_bearish c then Bearish
      else if score < oi_bullish c then NeutralRegime else if score < oi_strongly_bullish c then Bullish else StronglyBullish)"

datatype graded = Level confidence | Graded real | Ungraded

record oi_regime =
  rg_at :: timestamp
  rg_regime :: regime_name
  rg_score :: "real option"
  rg_confidence :: graded
  rg_coverage :: real
  rg_source_at :: "timestamp option"
  rg_oldest_at :: "timestamp option"
  rg_age :: "real option"
  rg_weights :: "real list"
  rg_components :: "oi_component list"
  rg_reason :: string

definition insufficient_regime :: "timestamp \<Rightarrow> string \<Rightarrow> oi_component list \<Rightarrow> real \<Rightarrow> oi_regime" where
  "insufficient_regime evaluation reason components coverage =
     \<lparr>rg_at = evaluation, rg_regime = InsufficientOi, rg_score = None, rg_confidence = Level LOW, rg_coverage = py_round coverage 6,
      rg_source_at = None, rg_oldest_at = None, rg_age = None, rg_weights = [], rg_components = components, rg_reason = reason\<rparr>"

text \<open>A component whose source lies after the evaluation is taken out.\<close>

definition causal_component :: "timestamp \<Rightarrow> oi_component \<Rightarrow> oi_component" where
  "causal_component evaluation x =
     (if oc_available x \<and> case_option False (\<lambda>t. t > evaluation) (oc_source_at x)
      then x\<lparr>oc_available := False, oc_reason := ''Component source timestamp is after the evaluation timestamp''\<rparr> else x)"

definition component_weights :: "oi_config \<Rightarrow> real list" where
  "component_weights c = [oi_options_weight c, oi_futures_weight c, oi_spot_weight c]"

definition available_total :: "(oi_component \<Rightarrow> real) \<Rightarrow> (oi_component \<times> real) list \<Rightarrow> real" where
  "available_total f xs = sum_list (map (\<lambda>(x, w). f x * w) (filter (\<lambda>(x, _). oc_available x) xs))"

definition component_sources :: "oi_component list \<Rightarrow> timestamp list" where
  "component_sources xs = List.map_filter (\<lambda>x. if oc_available x then oc_source_at x else None) xs"

definition combined_confidence :: "bool \<Rightarrow> oi_component list \<Rightarrow> confidence" where
  "combined_confidence expansion xs =
     (let levels = map oc_confidence (filter oc_available xs)
      in if expansion \<or> LOW \<in> set levels then LOW else if list_all (\<lambda>l. l = HIGH) levels then HIGH else MEDIUM)"

definition combine_regime_components :: "oi_component \<Rightarrow> oi_component \<Rightarrow> oi_component \<Rightarrow> timestamp \<Rightarrow> oi_config \<Rightarrow> oi_regime res" where
  "combine_regime_components options futures spot evaluation c =
     rbind (oi_validate c) (\<lambda>_.
       let components = map (causal_component evaluation) [options, futures, spot];
           weighted = zip components (component_weights c);
           available = available_total (\<lambda>_. 1) weighted;
           coverage = available / sum_list (component_weights c);
           sources = component_sources components
       in if coverage < oi_minimum_coverage c \<or> sources = []
          then Inr (insufficient_regime evaluation ''OI component coverage is below required'' components coverage)
          else let score = available_total oc_score weighted / available;
                   expansion = (oc_available options \<and> oc_volatility options)
               in Inr \<lparr>rg_at = evaluation, rg_regime = (if expansion then VolatilityExpansion else regime_from_score score c),
                    rg_score = Some (py_round score 6), rg_confidence = Level (combined_confidence expansion components),
                    rg_coverage = py_round coverage 6, rg_source_at = Some (Max (set sources)), rg_oldest_at = Some (Min (set sources)),
                    rg_age = Some (py_round (max 0 (seconds_between evaluation (Min (set sources)))) 2),
                    rg_weights = map (\<lambda>(x, w). if oc_available x then py_round (w / available) 6 else 0) weighted,
                    rg_components = [options, futures, spot],
                    rg_reason = (if expansion then ''Near-ATM calls and puts rose with broad IV expansion''
                      else ''Weighted completed-bar OI and NIFTY spot regime'')\<rparr>)"

section \<open>The decision on a long entry\<close>

datatype oi_mode = OiOff | OiAdvisory | OiEnforced

record oi_decision =
  dl_allowed :: bool
  dl_decision :: string

fun regime_label :: "regime_name \<Rightarrow> string" where
  "regime_label StronglyBearish = ''STRONGLY_BEARISH''"
| "regime_label Bearish = ''BEARISH''"
| "regime_label NeutralRegime = ''NEUTRAL''"
| "regime_label Bullish = ''BULLISH''"
| "regime_label StronglyBullish = ''STRONGLY_BULLISH''"
| "regime_label VolatilityExpansion = ''VOLATILITY_EXPANSION''"
| "regime_label InsufficientOi = ''INSUFFICIENT_OI_DATA''"

fun confidence_value :: "graded \<Rightarrow> real option" where
  "confidence_value (Level LOW) = Some (25 / 100)"
| "confidence_value (Level MEDIUM) = Some (50 / 100)"
| "confidence_value (Level HIGH) = Some 1"
| "confidence_value (Graded x) = Some (py_round x 6)"
| "confidence_value Ungraded = None"

definition decide_long_trade :: "oi_mode \<Rightarrow> oi_regime \<Rightarrow> real option \<Rightarrow> nat \<Rightarrow> oi_config \<Rightarrow> oi_decision" where
  "decide_long_trade mode regime quality open_positions c =
     (let state = rg_regime regime; lenient = (oi_fail_policy c = ''ALLOW'') in
      if mode = OiOff then \<lparr>dl_allowed = True, dl_decision = ''OI_OFF''\<rparr>
      else if mode = OiAdvisory then \<lparr>dl_allowed = True, dl_decision = ''ADVISORY_ONLY''\<rparr>
      else if state = InsufficientOi
      then \<lparr>dl_allowed = lenient, dl_decision = (if lenient then ''ALLOW_MISSING_OI'' else ''SKIPPED_INSUFFICIENT_OI_DATA'')\<rparr>
      else if state \<noteq> VolatilityExpansion \<and> case_option True (\<lambda>x. x < oi_minimum_confidence c) (confidence_value (rg_confidence regime))
      then \<lparr>dl_allowed = lenient, dl_decision = (if lenient then ''ALLOW_LOW_OI_CONFIDENCE'' else ''SKIPPED_LOW_OI_CONFIDENCE'')\<rparr>
      else if state = StronglyBearish then \<lparr>dl_allowed = False, dl_decision = ''SKIPPED_STRONGLY_BEARISH_OI''\<rparr>
      else if state = Bearish \<or> state = VolatilityExpansion
      then let allowed = case_option False (\<lambda>q. q \<ge> oi_elevated_quality c) quality \<and> open_positions < 1
           in \<lparr>dl_allowed = allowed, dl_decision = (if allowed then ''ALLOWED_ELEVATED_QUALITY''
                 else if state = Bearish then ''SKIPPED_BEARISH_OI'' else ''SKIPPED_VOLATILITY_EXPANSION'')\<rparr>
      else \<lparr>dl_allowed = True, dl_decision = ''ALLOWED_'' @ regime_label state\<rparr>)"

section \<open>Bounds of the scores\<close>

lemma clamp_bounds: "l \<le> u \<Longrightarrow> l \<le> clamp x l u \<and> clamp x l u \<le> u"
  by (simp add: clamp_def)

definition score_ok :: "oi_component \<Rightarrow> bool" where
  "score_ok x \<longleftrightarrow> oc_available x \<longrightarrow> - 100 \<le> oc_score x \<and> oc_score x \<le> 100"

lemma py_round_hundred: "- 100 \<le> x \<Longrightarrow> x \<le> 100 \<Longrightarrow> - 100 \<le> py_round x 6 \<and> py_round x 6 \<le> 100"
proof -
  assume x: "- 100 \<le> x" "x \<le> 100"
  have e: "py_round 100 6 = 100" "py_round (- 100) 6 = - 100"
    using round_half_even_of_int [of 100000000] round_half_even_of_int [of "- 100000000"] by (simp_all add: py_round_def)
  from py_round_mono [OF x(1), of 6] py_round_mono [OF x(2), of 6] e show ?thesis by simp
qed

lemma options_score_ok: "score_options current lookback t c = Inr (Inr r) \<Longrightarrow> score_ok (or_component r)"
  using clamp_bounds [of "- 100" 100] py_round_hundred
  by (auto simp: score_options_def rbind_eq_Inr option_report_of_def Let_def score_ok_def split: option.splits if_splits)

lemma futures_strength_bounds: "0 \<le> futures_strength c p q \<and> futures_strength c p q \<le> 100"
  by (auto simp: futures_strength_def intro!: mult_nonneg_nonneg add_nonneg_nonneg divide_nonneg_nonneg)

lemma futures_score_ok: "score_futures cur prev t c = Inr r \<Longrightarrow> score_ok (fr_component r)"
proof -
  have "- 100 \<le> futures_direction b * futures_strength c p q \<and> futures_direction b * futures_strength c p q \<le> 100" for b p q
    using futures_strength_bounds [of c p q] by (auto simp: futures_direction_def)
  then show "score_futures cur prev t c = Inr r \<Longrightarrow> score_ok (fr_component r)"
    using py_round_hundred by (auto simp: score_futures_def futures_report_of_def Let_def score_ok_def split: option.splits if_splits)
qed

lemma spot_score_ok: "score_spot_trend ewm srt candles t cfg = Inr (Inr x) \<Longrightarrow> score_ok x"
proof -
  have "- 100 \<le> trend_score a b d e f g \<and> trend_score a b d e f g \<le> 100" for a b d e f g
    unfolding trend_score_def by (rule clamp_bounds) simp
  then show "score_spot_trend ewm srt candles t cfg = Inr (Inr x) \<Longrightarrow> score_ok x"
    using py_round_hundred by (auto simp: score_spot_trend_def rbind_eq_Inr Let_def score_ok_def split: option.splits if_splits)
qed

lemma weighted_mean_bounds:
  assumes "\<forall>(x, w) \<in> set xs. score_ok x \<and> 0 \<le> w"
  shows "- 100 * available_total (\<lambda>_. 1) xs \<le> available_total oc_score xs \<and> available_total oc_score xs \<le> 100 * available_total (\<lambda>_. 1) xs"
  using assms
proof (induction xs)
  case (Cons y ys)
  obtain x w where y: "y = (x, w)" by fastforce
  have "oc_available x \<Longrightarrow> - 100 * w \<le> oc_score x * w \<and> oc_score x * w \<le> 100 * w"
    using Cons.prems y mult_right_mono [of "- 100" "oc_score x" w] mult_right_mono [of "oc_score x" 100 w] by (auto simp: score_ok_def)
  with Cons y show ?case by (auto simp: available_total_def algebra_simps)
qed (simp add: available_total_def)

lemma validated_weights:
  "oi_validate c = Inr c' \<Longrightarrow> (\<forall>w \<in> set (component_weights c). 0 \<le> w) \<and> 0 < sum_list (component_weights c) \<and> 0 < oi_minimum_coverage c"
  by (auto simp: oi_validate_def component_weights_def split: if_splits)

lemma causal_score_ok: "score_ok x \<Longrightarrow> score_ok (causal_component t x)"
  by (simp add: causal_component_def score_ok_def)

lemma causal_sources: "u \<in> set (component_sources (map (causal_component t) xs)) \<Longrightarrow> u \<le> t"
  by (auto simp: component_sources_def List.map_filter_def causal_component_def split: if_splits)


definition futures_quote :: "timestamp \<Rightarrow> real \<Rightarrow> real \<Rightarrow> futures_oi" where
  "futures_quote t price interest = \<lparr>fu_at = t, fu_expiry = 30, fu_security = ''NIFTY-FUT'', fu_price = price, fu_interest = interest,
     fu_volume = 500, fu_basis = 10, fu_source_at = None\<rparr>"


text \<open>
  The expansion flag escapes the causality test. When the options component has a source after the
  moment of evaluation, the combination takes its score out as it should, but still reads its
  volatility flag: with futures and spot available in time and enough of the weight, the regime is
  a volatility expansion with low confidence, decided by data of the future.
\<close>

theorem future_options_decide_regime:
  assumes "oi_validate c = Inr c" and "oc_available options" and "oc_volatility options" and "oc_source_at options = Some u" and "t < u"
    and "oc_available futures" and "oc_source_at futures = Some a" and "a \<le> t" and "oc_available spot" and "oc_source_at spot = Some b" and "b \<le> t"
    and "oi_minimum_coverage c * sum_list (component_weights c) \<le> oi_futures_weight c + oi_spot_weight c"
  shows "\<exists>r. combine_regime_components options futures spot t c = Inr r \<and> rg_regime r = VolatilityExpansion \<and> rg_confidence r = Level LOW
    \<and> rg_source_at r = Some (max a b)
    \<and> rg_score r = Some (py_round ((oc_score futures * oi_futures_weight c + oc_score spot * oi_spot_weight c) / (oi_futures_weight c + oi_spot_weight c)) 6)"
proof -
  have c: "causal_component t options = options\<lparr>oc_available := False, oc_reason := ''Component source timestamp is after the evaluation timestamp''\<rparr>"
    "causal_component t futures = futures" "causal_component t spot = spot"
    using assms by (simp_all add: causal_component_def)
  note w = validated_weights [OF assms(1)]
  have "\<not> (oi_futures_weight c + oi_spot_weight c) / sum_list (component_weights c) < oi_minimum_coverage c"
    using assms(12) w by (simp add: not_less pos_le_divide_eq)
  then show ?thesis
    using assms c by (simp add: combine_regime_components_def available_total_def component_sources_def List.map_filter_def
        component_weights_def combined_confidence_def Let_def max.commute)
qed

theorem future_options_decide_regime_witness:
  "\<exists>r. combine_regime_components
      \<lparr>oc_available = True, oc_score = 80, oc_confidence = HIGH, oc_volatility = True, oc_source_at = Some 2000, oc_reason = []\<rparr>
      \<lparr>oc_available = True, oc_score = 40, oc_confidence = HIGH, oc_volatility = False, oc_source_at = Some 900, oc_reason = []\<rparr>
      \<lparr>oc_available = True, oc_score = 30, oc_confidence = HIGH, oc_volatility = False, oc_source_at = Some 950, oc_reason = []\<rparr>
      1000 default_oi_config = Inr r \<and> rg_regime r = VolatilityExpansion \<and> rg_confidence r = Level LOW \<and> rg_source_at r = Some 950"
  using future_options_decide_regime [of default_oi_config
      "\<lparr>oc_available = True, oc_score = 80, oc_confidence = HIGH, oc_volatility = True, oc_source_at = Some 2000, oc_reason = []\<rparr>" 2000 1000
      "\<lparr>oc_available = True, oc_score = 40, oc_confidence = HIGH, oc_volatility = False, oc_source_at = Some 900, oc_reason = []\<rparr>" 900
      "\<lparr>oc_available = True, oc_score = 30, oc_confidence = HIGH, oc_volatility = False, oc_source_at = Some 950, oc_reason = []\<rparr>" 950]
  by (auto simp: oi_validate_def default_oi_config_def component_weights_def)

end
