(* ===== verification/Oi_Filter.thy ===== *)
theory Oi_Filter
  imports Oi_Regime "HOL-Library.List_Lexorder" "HOL-Library.Char_ord" "HOL-Library.Multiset"
begin

text \<open>
  The filter of long entries by the option-interest regime: the lookup of a regime snapshot at a moment and
  \<open>apply_oi_filter_chronologically\<close> of \<open>backend/markets/nse/oi_regime.py\<close>, which replays the trades of all
  symbols in one stream of time and drops those the regime forbids.
\<close>

section \<open>Snapshots\<close>

text \<open>\<open>bisect_right\<close> on sorted moments, and the walk back over snapshots built from later sources.\<close>

definition bisect_right :: "timestamp list \<Rightarrow> timestamp \<Rightarrow> nat" where
  "bisect_right moments target = length (takeWhile (\<lambda>t. t \<le> target) moments)"

fun walk_back :: "oi_regime list \<Rightarrow> timestamp \<Rightarrow> nat \<Rightarrow> oi_regime option" where
  "walk_back rows target 0 = None"
| "walk_back rows target (Suc i) =
     (if case_option False (\<lambda>t. t > target) (rg_source_at (rows ! i)) then walk_back rows target i else Some (rows ! i))"

definition freshness :: "oi_regime \<Rightarrow> timestamp" where
  "freshness r = (case rg_oldest_at r of Some t \<Rightarrow> t | None \<Rightarrow> (case rg_source_at r of Some t \<Rightarrow> t | None \<Rightarrow> rg_at r))"

definition regime_at_or_before :: "oi_regime list \<Rightarrow> timestamp \<Rightarrow> int \<Rightarrow> oi_regime option" where
  "regime_at_or_before regimes target stale_seconds =
     (let rows = sort_key rg_at regimes
      in case walk_back rows target (bisect_right (map rg_at rows) target) of
           None \<Rightarrow> None
         | Some latest \<Rightarrow>
             let age = seconds_between target (freshness latest)
             in if age < 0 \<or> age > of_int stale_seconds then None else Some latest)"

definition latest_regime :: "oi_regime list \<Rightarrow> oi_regime option" where
  "latest_regime regimes = (if regimes = [] then None else Some (last regimes))"

section \<open>The filter\<close>

record oi_note =
  nt_regime :: regime_name
  nt_score :: "real option"
  nt_confidence :: graded
  nt_decision :: string
  nt_source_at :: "timestamp option"

record oi_trade =
  ot_id :: string
  ot_signal_at :: "timestamp option"
  ot_entry_at :: "timestamp option"
  ot_status :: string
  ot_exit_at :: "timestamp option"
  ot_target_hit_at :: "timestamp option"
  ot_last_at :: "timestamp option"
  ot_note :: "oi_note option"

record oi_result =
  re_symbol :: string
  re_trades :: "oi_trade list"
  re_skipped :: "(oi_trade \<times> oi_regime \<times> string) list"

definition trade_end :: "oi_trade \<Rightarrow> timestamp option" where
  "trade_end t =
     (if py_upper (ot_status t) = ''OPEN'' \<or> py_upper (ot_status t) = ''STILL_OPEN'' then None
      else case ot_exit_at t of Some x \<Rightarrow> Some x
         | None \<Rightarrow> (case ot_target_hit_at t of Some x \<Rightarrow> Some x | None \<Rightarrow> ot_last_at t))"

definition signal_time :: "oi_trade \<Rightarrow> timestamp option" where
  "signal_time t = (case ot_signal_at t of Some x \<Rightarrow> Some x | None \<Rightarrow> ot_entry_at t)"

record candidate_trade =
  ct_at :: timestamp
  ct_symbol :: string
  ct_index :: nat
  ct_trade :: oi_trade

definition result_candidates :: "nat \<times> oi_result \<Rightarrow> candidate_trade list" where
  "result_candidates entry =
     (let (i, r) = entry
      in List.map_filter (\<lambda>t. map_option (\<lambda>x. \<lparr>ct_at = x, ct_symbol = re_symbol r, ct_index = i, ct_trade = t\<rparr>) (signal_time t)) (re_trades r))"

definition trade_candidates :: "oi_result list \<Rightarrow> candidate_trade list" where
  "trade_candidates results =
     sort_key (\<lambda>c. (ct_at c, ct_symbol c, ot_id (ct_trade c))) (concat (map result_candidates (enumerate 0 results)))"

record verdict =
  vd_candidate :: candidate_trade
  vd_regime :: oi_regime
  vd_decision :: oi_decision

definition regime_for :: "oi_regime list \<Rightarrow> oi_config \<Rightarrow> timestamp \<Rightarrow> oi_regime" where
  "regime_for regimes c at' =
     (case regime_at_or_before regimes at' (oi_stale_seconds c) of
        Some r \<Rightarrow> r
      | None \<Rightarrow> insufficient_regime at' ''No causal OI regime snapshot exists at or before this signal'' [] 0)"

definition enrich :: "verdict \<Rightarrow> oi_trade" where
  "enrich v =
     (ct_trade (vd_candidate v))\<lparr>ot_note := Some \<lparr>nt_regime = rg_regime (vd_regime v), nt_score = rg_score (vd_regime v),
        nt_confidence = rg_confidence (vd_regime v), nt_decision = dl_decision (vd_decision v), nt_source_at = rg_source_at (vd_regime v)\<rparr>\<rparr>"

text \<open>The stream: \<open>active\<close> are the ends of the accepted trades that are still open.\<close>

fun filter_stream ::
  "oi_mode \<Rightarrow> oi_regime list \<Rightarrow> oi_config \<Rightarrow> (string \<Rightarrow> real option) \<Rightarrow> timestamp option list \<Rightarrow> candidate_trade list \<Rightarrow> verdict list" where
  "filter_stream mode regimes c quality active [] = []"
| "filter_stream mode regimes c quality active (x # xs) =
     (let still = filter (\<lambda>e. case_option True (\<lambda>t. t > ct_at x) e) active;
          r = regime_for regimes c (ct_at x);
          d = decide_long_trade mode r (quality (ct_symbol x)) (length still) c;
          v = \<lparr>vd_candidate = x, vd_regime = r, vd_decision = d\<rparr>
      in v # filter_stream mode regimes c quality (if dl_allowed d then still @ [trade_end (enrich v)] else still) xs)"

definition place_verdict :: "oi_result list \<Rightarrow> verdict \<Rightarrow> oi_result list" where
  "place_verdict outs v =
     (let i = ct_index (vd_candidate v); r = outs ! i
      in outs[i := (if dl_allowed (vd_decision v) then r\<lparr>re_trades := re_trades r @ [enrich v]\<rparr>
           else r\<lparr>re_skipped := re_skipped r @ [(enrich v, vd_regime v, dl_decision (vd_decision v))]\<rparr>)])"

definition apply_oi_filter ::
  "oi_result list \<Rightarrow> oi_regime list \<Rightarrow> oi_mode \<Rightarrow> oi_config \<Rightarrow> (string \<Rightarrow> real option) \<Rightarrow> oi_result list" where
  "apply_oi_filter results regimes mode c quality =
     (if mode = OiOff then results
      else foldl place_verdict (map (\<lambda>r. r\<lparr>re_trades := [], re_skipped := []\<rparr>) results)
        (filter_stream mode regimes c quality [] (trade_candidates results)))"

definition attach_oi_filter ::
  "oi_result \<Rightarrow> oi_regime list \<Rightarrow> oi_mode \<Rightarrow> oi_config \<Rightarrow> real option \<Rightarrow> oi_result" where
  "attach_oi_filter observations regimes mode c quality =
     (if mode = OiOff then observations
      else hd (apply_oi_filter [observations] regimes mode c
        (\<lambda>s. if re_symbol observations \<noteq> [] \<and> s = re_symbol observations then quality else None)))"

section \<open>Snapshots are causal\<close>

definition usable :: "timestamp \<Rightarrow> oi_regime \<Rightarrow> bool" where
  "usable target r \<longleftrightarrow> rg_at r \<le> target \<and> case_option True (\<lambda>t. t \<le> target) (rg_source_at r)"

lemma walk_back_last:
  assumes "n \<le> length rows"
  shows "walk_back rows target n = latest_regime (filter (\<lambda>r. case_option True (\<lambda>t. t \<le> target) (rg_source_at r)) (take n rows))"
  using assms
proof (induction n)
  case (Suc i)
  then have t: "take (Suc i) rows = take i rows @ [rows ! i]" by (simp add: take_Suc_conv_app_nth)
  show ?case
  proof (cases "case_option True (\<lambda>t. t \<le> target) (rg_source_at (rows ! i))")
    case True
    then have "\<not> case_option False (\<lambda>t. t > target) (rg_source_at (rows ! i))" by (simp split: option.splits)
    with True t show ?thesis by (simp add: latest_regime_def)
  next
    case False
    then have "case_option False (\<lambda>t. t > target) (rg_source_at (rows ! i))" by (simp split: option.splits)
    with False t Suc show ?thesis by simp
  qed
qed (simp add: latest_regime_def)

lemma takeWhile_sorted: "sorted (map f xs) \<Longrightarrow> takeWhile (\<lambda>x. f x \<le> t) xs = filter (\<lambda>x. f x \<le> t) xs" for t :: "'b :: linorder"
proof (induction xs)
  case (Cons x xs)
  show ?case
  proof (cases "f x \<le> t")
    case False
    then have "\<forall>y\<in>set xs. \<not> f y \<le> t" using Cons.prems by fastforce
    with False show ?thesis by simp
  qed (use Cons in simp)
qed simp

text \<open>The bisection with the walk back finds the last snapshot of the sorted ones that is usable.\<close>

lemma snapshot_lookup:
  fixes regimes defines "rows \<equiv> sort_key rg_at regimes"
  shows "walk_back rows target (bisect_right (map rg_at rows) target) =
    latest_regime (filter (usable target) rows)"
proof -
  let ?n = "bisect_right (map rg_at rows) target"
  have "take ?n rows = takeWhile (\<lambda>r. rg_at r \<le> target) rows"
    by (simp add: bisect_right_def takeWhile_map comp_def takeWhile_eq_take [symmetric])
  also have "\<dots> = filter (\<lambda>r. rg_at r \<le> target) rows" by (rule takeWhile_sorted) (simp add: rows_def)
  finally have "filter (\<lambda>r. case_option True (\<lambda>t. t \<le> target) (rg_source_at r)) (take ?n rows) = filter (usable target) rows"
    by (simp add: usable_def [abs_def])
  moreover have "?n \<le> length rows" by (simp add: bisect_right_def takeWhile_map length_takeWhile_le)
  ultimately show ?thesis by (simp add: walk_back_last)
qed

definition snapshot_ok :: "oi_regime list \<Rightarrow> oi_config \<Rightarrow> timestamp \<Rightarrow> oi_regime \<Rightarrow> bool" where
  "snapshot_ok regimes c t r \<longleftrightarrow> r \<in> set regimes \<and> usable t r \<and> 0 \<le> seconds_between t (freshness r) \<and> seconds_between t (freshness r) \<le> of_int (oi_stale_seconds c)"

lemma regime_for_cases: "rg_regime (regime_for regimes c t) = InsufficientOi \<or> snapshot_ok regimes c t (regime_for regimes c t)"
proof (cases "filter (usable t) (sort_key rg_at regimes)")
  case Nil
  then show ?thesis
    unfolding regime_for_def regime_at_or_before_def Let_def snapshot_lookup by (simp add: latest_regime_def insufficient_regime_def)
next
  case (Cons r rs)
  let ?ys = "filter (usable t) (sort_key rg_at regimes)"
  have ne: "?ys \<noteq> []" using Cons by simp
  have "last ?ys \<in> set regimes \<and> usable t (last ?ys)" using last_in_set [OF ne] by simp
  then show ?thesis
    unfolding regime_for_def regime_at_or_before_def Let_def snapshot_lookup
    using ne by (simp add: latest_regime_def insufficient_regime_def snapshot_ok_def)
qed

section \<open>Decisions\<close>

abbreviation ELEVATED :: string where "ELEVATED \<equiv> ''ALLOWED_ELEVATED_QUALITY''"

lemma elevated_decision:
  assumes "dl_decision (decide_long_trade mode r q n c) = ELEVATED"
  shows "n = 0 \<and> rg_regime r \<in> {Bearish, VolatilityExpansion} \<and> case_option False (\<lambda>x. x \<ge> oi_elevated_quality c) q"
proof -
  have "''ALLOWED_'' @ regime_label x \<noteq> ELEVATED" for x by (cases x) simp_all
  with assms show ?thesis by (auto simp: decide_long_trade_def Let_def split: if_splits)
qed

text \<open>What enforcement lets pass: a lenient policy on missing or weak data, an elevated exception, or a regime that is not bearish.\<close>

lemma enforced_allowed:
  assumes "dl_allowed (decide_long_trade OiEnforced r q n c)"
  shows "(oi_fail_policy c = ''ALLOW'' \<and> (rg_regime r = InsufficientOi
        \<or> rg_regime r \<noteq> VolatilityExpansion \<and> case_option True (\<lambda>x. x < oi_minimum_confidence c) (confidence_value (rg_confidence r))))
    \<or> dl_decision (decide_long_trade OiEnforced r q n c) = ELEVATED \<or> rg_regime r \<in> {NeutralRegime, Bullish, StronglyBullish}"
proof -
  have "rg_regime r \<in> {NeutralRegime, Bullish, StronglyBullish} \<or> rg_regime r \<in> {InsufficientOi, StronglyBearish, Bearish, VolatilityExpansion}"
    by (cases "rg_regime r") simp_all
  with assms show ?thesis by (auto simp: decide_long_trade_def Let_def split: if_splits)
qed

section \<open>The stream\<close>

lemma stream_length [simp]: "length (filter_stream mode regimes c q active xs) = length xs"
  by (induction xs arbitrary: active) (simp_all add: Let_def)

lemma stream_nth:
  "i < length xs \<Longrightarrow> vd_candidate (filter_stream mode regimes c q active xs ! i) = xs ! i
    \<and> vd_regime (filter_stream mode regimes c q active xs ! i) = regime_for regimes c (ct_at (xs ! i))
    \<and> (\<exists>n. vd_decision (filter_stream mode regimes c q active xs ! i) =
        decide_long_trade mode (regime_for regimes c (ct_at (xs ! i))) (q (ct_symbol (xs ! i))) n c)"
proof (induction xs arbitrary: active i)
  case (Cons x xs)
  then show ?case by (cases i) (auto simp: Let_def)
qed simp

definition closed_by :: "timestamp \<Rightarrow> timestamp option \<Rightarrow> bool" where
  "closed_by t e \<longleftrightarrow> (\<exists>x. e = Some x \<and> x \<le> t)"

lemma trade_end_enrich [simp]: "trade_end (enrich v) = trade_end (ct_trade (vd_candidate v))"
  by (simp add: trade_end_def enrich_def split: option.split)

lemma stream_capacity:
  assumes "sorted (map ct_at xs)" and "i < length xs" and "dl_decision (vd_decision (filter_stream mode regimes c q active xs ! i)) = ELEVATED"
  shows "(\<forall>e \<in> set active. closed_by (ct_at (xs ! i)) e) \<and>
    (\<forall>j<i. dl_allowed (vd_decision (filter_stream mode regimes c q active xs ! j)) \<longrightarrow> closed_by (ct_at (xs ! i)) (trade_end (ct_trade (xs ! j))))"
  using assms
proof (induction xs arbitrary: active i)
  case (Cons x xs)
  define still where "still = filter (\<lambda>e. case_option True (\<lambda>t. t > ct_at x) e) active"
  define d where "d = decide_long_trade mode (regime_for regimes c (ct_at x)) (q (ct_symbol x)) (length still) c"
  define v where "v = \<lparr>vd_candidate = x, vd_regime = regime_for regimes c (ct_at x), vd_decision = d\<rparr>"
  define active' where "active' = (if dl_allowed d then still @ [trade_end (enrich v)] else still)"
  have fs: "filter_stream mode regimes c q active (x # xs) = v # filter_stream mode regimes c q active' xs"
    by (simp add: Let_def still_def d_def v_def active'_def)
  have gone: "closed_by t e" if "e \<in> set active" "e \<notin> set still" "ct_at x \<le> t" for e t
    using that by (auto simp: still_def closed_by_def split: option.splits)
  show ?case
  proof (cases i)
    case 0
    then have "dl_decision d = ELEVATED" using Cons.prems(3) unfolding fs by (simp add: v_def)
    then have "length still = 0" unfolding d_def using elevated_decision by blast
    then show ?thesis using gone 0 by simp
  next
    case (Suc k)
    have ih: "(\<forall>e \<in> set active'. closed_by (ct_at (xs ! k)) e) \<and>
        (\<forall>j<k. dl_allowed (vd_decision (filter_stream mode regimes c q active' xs ! j)) \<longrightarrow> closed_by (ct_at (xs ! k)) (trade_end (ct_trade (xs ! j))))"
      by (rule Cons.IH) (use Cons.prems Suc fs in auto)
    have "ct_at x \<le> ct_at (xs ! k)" using Cons.prems(1,2) Suc by simp
    then have a: "\<forall>e \<in> set active. closed_by (ct_at (xs ! k)) e" using ih gone by (auto simp: active'_def split: if_splits)
    have "dl_allowed d \<Longrightarrow> closed_by (ct_at (xs ! k)) (trade_end (ct_trade x))" using ih by (simp add: active'_def v_def)
    then have "\<forall>j<Suc k. dl_allowed (vd_decision ((v # filter_stream mode regimes c q active' xs) ! j)) \<longrightarrow>
        closed_by (ct_at (xs ! k)) (trade_end (ct_trade ((x # xs) ! j)))"
      using ih by (auto simp: less_Suc_eq_0_disj v_def)
    with a show ?thesis unfolding fs Suc by simp
  qed
qed simp

section \<open>Placing the verdicts\<close>

definition strip :: "oi_trade \<Rightarrow> oi_trade" where
  "strip t = t\<lparr>ot_note := None\<rparr>"

lemma strip_enrich [simp]: "strip (enrich v) = strip (ct_trade (vd_candidate v))"
  by (simp add: strip_def enrich_def)

definition verdicts_of :: "nat \<Rightarrow> bool \<Rightarrow> verdict list \<Rightarrow> verdict list" where
  "verdicts_of i allowed vs = filter (\<lambda>v. ct_index (vd_candidate v) = i \<and> dl_allowed (vd_decision v) = allowed) vs"

lemma place_all:
  assumes "\<forall>v \<in> set vs. ct_index (vd_candidate v) < length outs" and "i < length outs"
  shows "length (foldl place_verdict outs vs) = length outs \<and> re_symbol (foldl place_verdict outs vs ! i) = re_symbol (outs ! i)
    \<and> re_trades (foldl place_verdict outs vs ! i) = re_trades (outs ! i) @ map enrich (verdicts_of i True vs)
    \<and> map fst (re_skipped (foldl place_verdict outs vs ! i)) = map fst (re_skipped (outs ! i)) @ map enrich (verdicts_of i False vs)"
  using assms
proof (induction vs arbitrary: outs)
  case (Cons v vs)
  let ?o = "place_verdict outs v"
  have "length ?o = length outs" by (simp add: place_verdict_def Let_def)
  then have ih: "length (foldl place_verdict ?o vs) = length outs \<and> re_symbol (foldl place_verdict ?o vs ! i) = re_symbol (?o ! i)
    \<and> re_trades (foldl place_verdict ?o vs ! i) = re_trades (?o ! i) @ map enrich (verdicts_of i True vs)
    \<and> map fst (re_skipped (foldl place_verdict ?o vs ! i)) = map fst (re_skipped (?o ! i)) @ map enrich (verdicts_of i False vs)"
    using Cons.IH [of ?o] Cons.prems by simp
  have "re_symbol (?o ! i) = re_symbol (outs ! i)"
    "re_trades (?o ! i) = re_trades (outs ! i) @ map enrich (verdicts_of i True [v])"
    "map fst (re_skipped (?o ! i)) = map fst (re_skipped (outs ! i)) @ map enrich (verdicts_of i False [v])"
    using Cons.prems by (auto simp: place_verdict_def Let_def verdicts_of_def nth_list_update)
  with ih show ?case by (auto simp: verdicts_of_def)
qed (simp add: verdicts_of_def)

lemma map_filter_candidates:
  "map ct_trade (result_candidates (i, r)) = filter (\<lambda>t. signal_time t \<noteq> None) (re_trades r)"
proof -
  have "map ct_trade (List.map_filter (\<lambda>t. map_option (\<lambda>x. \<lparr>ct_at = x, ct_symbol = s, ct_index = i, ct_trade = t\<rparr>) (signal_time t)) ts)
      = filter (\<lambda>t. signal_time t \<noteq> None) ts" for s ts
    by (induction ts) (auto simp: List.map_filter_def)
  then show ?thesis by (simp add: result_candidates_def)
qed

lemma candidate_index: "c \<in> set (result_candidates (i, r)) \<Longrightarrow> ct_index c = i"
  by (auto simp: result_candidates_def List.map_filter_def)

lemma candidates_of:
  "filter (\<lambda>c. ct_index c = i) (concat (map result_candidates (enumerate n rs))) =
    (if n \<le> i \<and> i - n < length rs then result_candidates (i, rs ! (i - n)) else [])"
proof (induction rs arbitrary: n)
  case (Cons r rs)
  have here: "filter (\<lambda>c. ct_index c = i) (result_candidates (n, r)) = (if n = i then result_candidates (n, r) else [])"
    using candidate_index by (auto simp: filter_id_conv filter_empty_conv)
  show ?case
  proof (cases "n = i")
    case True
    with here Cons.IH [of "Suc n"] show ?thesis by simp
  next
    case False
    have "n < i \<Longrightarrow> i - n = Suc (i - Suc n)" by simp
    with False here Cons.IH [of "Suc n"] show ?thesis by (auto simp: nth_Cons split: nat.split)
  qed
qed simp

lemma candidates_indexed: "c \<in> set (trade_candidates results) \<Longrightarrow> ct_index c < length results"
  by (auto simp: trade_candidates_def in_set_enumerate_eq dest!: candidate_index)

lemma candidates_sorted: "sorted (map ct_at (trade_candidates results))"
proof -
  have "sorted (map (\<lambda>c. (ct_at c, ct_symbol c, ot_id (ct_trade c))) (trade_candidates results))" by (simp add: trade_candidates_def)
  then show ?thesis unfolding sorted_map by (rule sorted_wrt_mono_rel [rotated]) (auto simp: less_eq_prod_def)
qed

lemma candidates_mset:
  assumes "i < length results"
  shows "mset (map ct_trade (filter (\<lambda>c. ct_index c = i) (trade_candidates results))) = mset (filter (\<lambda>t. signal_time t \<noteq> None) (re_trades (results ! i)))"
proof -
  have "mset (filter (\<lambda>c. ct_index c = i) (trade_candidates results)) = mset (filter (\<lambda>c. ct_index c = i) (concat (map result_candidates (enumerate 0 results))))"
    by (simp add: trade_candidates_def)
  also have "\<dots> = mset (result_candidates (i, results ! i))" using assms by (simp add: candidates_of)
  finally have "image_mset ct_trade (mset (filter (\<lambda>c. ct_index c = i) (trade_candidates results))) = mset (map ct_trade (result_candidates (i, results ! i)))"
    by simp
  then show ?thesis unfolding map_filter_candidates by simp
qed

lemma stream_candidates: "map vd_candidate (filter_stream mode regimes c q active xs) = xs"
  by (rule nth_equalityI) (use stream_nth in auto)

lemma verdicts_split: "mset (map f (verdicts_of i True vs)) + mset (map f (verdicts_of i False vs)) = mset (map f (filter (\<lambda>v. ct_index (vd_candidate v) = i) vs))"
  by (induction vs) (auto simp: verdicts_of_def)

text \<open>Each trade of a result is placed once, as accepted or as skipped.\<close>

lemma filter_partitions:
  assumes "mode \<noteq> OiOff" and "i < length results"
  shows "re_trades (apply_oi_filter results regimes mode c q ! i) = map enrich (verdicts_of i True (filter_stream mode regimes c q [] (trade_candidates results)))"
    and "mset (map strip (re_trades (apply_oi_filter results regimes mode c q ! i)))
      + mset (map (\<lambda>x. strip (fst x)) (re_skipped (apply_oi_filter results regimes mode c q ! i)))
      = mset (map strip (filter (\<lambda>t. signal_time t \<noteq> None) (re_trades (results ! i))))"
proof -
  let ?vs = "filter_stream mode regimes c q [] (trade_candidates results)"
  let ?outs = "map (\<lambda>r. r\<lparr>re_trades := [], re_skipped := []\<rparr>) results"
  have "set (map vd_candidate ?vs) = set (trade_candidates results)" by (simp add: stream_candidates)
  then have "\<forall>v \<in> set ?vs. ct_index (vd_candidate v) < length ?outs" using candidates_indexed by auto
  from place_all [OF this, of i] assms
  have p: "re_trades (apply_oi_filter results regimes mode c q ! i) = map enrich (verdicts_of i True ?vs)"
    "map fst (re_skipped (apply_oi_filter results regimes mode c q ! i)) = map enrich (verdicts_of i False ?vs)"
    by (simp_all add: apply_oi_filter_def)
  show "re_trades (apply_oi_filter results regimes mode c q ! i) = map enrich (verdicts_of i True ?vs)" by (rule p)
  have skipped: "map (\<lambda>x. strip (fst x)) (re_skipped (apply_oi_filter results regimes mode c q ! i)) = map (\<lambda>v. strip (ct_trade (vd_candidate v))) (verdicts_of i False ?vs)"
    using arg_cong [OF p(2), of "map strip"] by (simp add: comp_def)
  have "map (\<lambda>v. strip (ct_trade (vd_candidate v))) (filter (\<lambda>v. ct_index (vd_candidate v) = i) ?vs)
      = map (\<lambda>x. strip (ct_trade x)) (filter (\<lambda>x. ct_index x = i) (map vd_candidate ?vs))" by (simp add: filter_map comp_def)
  then have "mset (map (\<lambda>v. strip (ct_trade (vd_candidate v))) (filter (\<lambda>v. ct_index (vd_candidate v) = i) ?vs))
      = image_mset strip (mset (map ct_trade (filter (\<lambda>x. ct_index x = i) (trade_candidates results))))"
    by (simp add: stream_candidates image_mset.compositionality comp_def)
  then show "mset (map strip (re_trades (apply_oi_filter results regimes mode c q ! i)))
      + mset (map (\<lambda>x. strip (fst x)) (re_skipped (apply_oi_filter results regimes mode c q ! i)))
      = mset (map strip (filter (\<lambda>t. signal_time t \<noteq> None) (re_trades (results ! i))))"
    unfolding p(1) skipped candidates_mset [OF assms(2)] using verdicts_split [of "\<lambda>v. strip (ct_trade (vd_candidate v))" i ?vs] by (simp add: comp_def)
qed

section \<open>What enforcement guarantees\<close>


text \<open>Two overlapping signals in a bearish market: the second has to wait for the end of the first.\<close>

definition bear_regime :: oi_regime where
  "bear_regime = \<lparr>rg_at = 0, rg_regime = Bearish, rg_score = Some (- 30), rg_confidence = Level HIGH, rg_coverage = 1,
     rg_source_at = Some 0, rg_oldest_at = Some 0, rg_age = Some 0, rg_weights = [], rg_components = [], rg_reason = []\<rparr>"

definition demo_trade :: "string \<Rightarrow> timestamp \<Rightarrow> oi_trade" where
  "demo_trade i t = \<lparr>ot_id = i, ot_signal_at = Some t, ot_entry_at = None, ot_status = ''TARGET_HIT'', ot_exit_at = Some (t + 10),
     ot_target_hit_at = None, ot_last_at = None, ot_note = None\<rparr>"

definition demo_results :: "oi_result list" where
  "demo_results = [\<lparr>re_symbol = ''A'', re_trades = [demo_trade ''1'' 1, demo_trade ''2'' 5], re_skipped = []\<rparr>]"


end
