(* ===== verification/Parameter_Experiments.thy ===== *)
theory Parameter_Experiments
  imports Strategies Execution_Policy
begin

text \<open>
  \<open>backend/research/parameter_experiments.py\<close>: the variants of a parameter experiment, named by hand or spanned
  by a grid of parameter values, each fully resolved and validated before anything is stored.

  A \<open>Decimal\<close> is an exact number here, so it is the value of the \<open>float\<close> or \<open>int\<close> it is made of. Two values
  have the same canonical JSON when they are the same value, dicts in any order of their keys; a
  value with an infinite float has none. How a float prints (\<open>py_fixed\<close>), the digest of
  a long name (\<open>sha\<close>) and \<open>str\<close> of a value that is no string (\<open>py_str\<close>) are arguments.
\<close>

section \<open>Data\<close>

definition MAX_SWEEP_PARAMETERS :: nat where "MAX_SWEEP_PARAMETERS = 8"
definition MAX_VALUES_PER_PARAMETER :: nat where "MAX_VALUES_PER_PARAMETER = 20"
definition MAX_GENERATED_VARIANTS :: nat where "MAX_GENERATED_VARIANTS = 100"

record generated_variant =
  gv_name :: string
  gv_configuration :: config
  gv_execution :: config
  gv_settings :: execution_settings

record sweep_parameter =
  sp_section :: string
  sp_parameter :: string
  sp_type :: string
  sp_method :: string
  sp_values :: "pyval option"
  sp_value :: "pyval option"
  sp_minimum :: pyval
  sp_maximum :: pyval
  sp_step :: pyval

record manual_variant =
  mv_name :: string
  mv_configuration :: config
  mv_execution :: config

text \<open>A strategy with its own \<open>resolve\<close>, or one whose configuration is resolved by its schema.\<close>

record sweep_strategy =
  sy_schema :: config_schema
  sy_resolve :: "(config \<Rightarrow> config res) option"
  sy_validate :: "config \<Rightarrow> unit res"

fun json_value :: "pyval \<Rightarrow> bool" where
  "json_value (PyFloat r) = is_finite r"
| "json_value (PyList vs) = list_all json_value vs"
| "json_value _ = True"

definition JSON_ERROR :: py_error where
  "JSON_ERROR = ValueError ''Out of range float values are not JSON compliant''"

definition canonical_value :: "pyval \<Rightarrow> pyval res" where
  "canonical_value v = (if json_value v then Inr v else Inl JSON_ERROR)"

definition canonical_config :: "config \<Rightarrow> config res" where
  "canonical_config c = (if list_all (\<lambda>(_, v). json_value v) c then Inr (sort_key fst c) else Inl JSON_ERROR)"

section \<open>Values of a parameter\<close>

text \<open>The published bounds of the execution settings, which \<open>from_mapping\<close> does not read.\<close>

definition sweep_field :: "string \<Rightarrow> pyval \<Rightarrow> real option \<Rightarrow> real option \<Rightarrow> field_def" where
  "sweep_field ty d lo hi =
     \<lparr>fd_type = ty, fd_default = Some d, fd_minimum = lo, fd_maximum = hi, fd_enum = None, fd_min_items = None, fd_max_items = None\<rparr>"

definition EXECUTION_SETTINGS_SCHEMA :: config_schema where
  "EXECUTION_SETTINGS_SCHEMA =
     [(''targetPct'', sweep_field ''number'' PyNone (Some (1 / 10 ^ 8)) None),
      (''stopLossPct'', sweep_field ''number'' PyNone (Some (1 / 10 ^ 8)) (Some (9999999999 / 10 ^ 8))),
      (''maximumHoldingBars'', sweep_field ''integer'' PyNone (Some 1) None),
      (''initialQuantity'', sweep_field ''number'' (PyInt 100) (Some (1 / 10 ^ 8)) None),
      (''allowAdditionalBuys'', sweep_field ''boolean'' (PyBool True) None None),
      (''additionalQuantityPct'', sweep_field ''number'' (PyFloat 50) (Some (1 / 10 ^ 8)) (Some 100)),
      (''additionalSizingMode'', (sweep_field ''string'' (PyStr ''REDUCE_EVERY_NEW_LOT'') None None)
         \<lparr>fd_enum := Some [PyStr ''REDUCE_EVERY_NEW_LOT'', PyStr ''FIXED_PERCENTAGE_OF_FIRST_LOT'']\<rparr>),
      (''minimumQuantity'', sweep_field ''number'' (PyInt 1) (Some (1 / 10 ^ 8)) None),
      (''maximumEntriesPerCycle'', sweep_field ''integer'' (PyInt 10) (Some 1) (Some 100)),
      (''batchSize'', sweep_field ''integer'' (PyInt 500) (Some 1) None),
      (''transactionCostBps'', sweep_field ''number'' PyNone (Some 0) (Some 10000)),
      (''slippageBps'', sweep_field ''number'' PyNone (Some 0) (Some 10000))]"

definition decimal_of :: "pyval \<Rightarrow> string \<Rightarrow> real res" where
  "decimal_of v label =
     (let bad = Inl (ValueError (''Numeric range '' @ label @ '' must be a finite number''))
      in case v of PyInt i \<Rightarrow> Inr (of_int i) | PyFloat r \<Rightarrow> (if is_finite r then Inr r else bad) | _ \<Rightarrow> bad)"

definition normalise_number :: "string \<Rightarrow> real \<Rightarrow> pyval res" where
  "normalise_number value_type numeric =
     (if value_type = ''integer'' then
        (if of_int \<lfloor>numeric\<rfloor> \<noteq> numeric then Inl (ValueError ''Integer parameter values must be whole numbers'') else Inr (PyInt \<lfloor>numeric\<rfloor>))
      else Inr (PyFloat numeric))"

text \<open>\<open>Decimal(str(v))\<close> of a normalised value.\<close>

definition decimal_text :: "pyval \<Rightarrow> real res" where
  "decimal_text v =
     (case v of PyInt i \<Rightarrow> Inr (of_int i) | PyFloat r \<Rightarrow> Inr r
      | PyStr s \<Rightarrow> (case parse_float s of None \<Rightarrow> Inl InvalidOperation | Some r \<Rightarrow> Inr r)
      | _ \<Rightarrow> Inl InvalidOperation)"

definition published_bounds :: "field_def \<Rightarrow> pyval \<Rightarrow> unit res" where
  "published_bounds d v =
     rbind (case fd_minimum d of None \<Rightarrow> Inr ()
         | Some m \<Rightarrow> rbind (decimal_text v) (\<lambda>r. raise_if (r < m) (ValueError ''Parameter value must be at least the minimum'')))
       (\<lambda>_. case fd_maximum d of None \<Rightarrow> Inr ()
         | Some m \<Rightarrow> rbind (decimal_text v) (\<lambda>r. raise_if (r > m) (ValueError ''Parameter value must be at most the maximum'')))"

definition published_enum :: "field_def \<Rightarrow> pyval \<Rightarrow> unit res" where
  "published_enum d v =
     (case fd_enum d of None \<Rightarrow> Inr ()
      | Some vs \<Rightarrow> rbind (canonical_value v) (\<lambda>w. rbind (rmap_list canonical_value vs)
          (\<lambda>ws. raise_if (w \<notin> set ws) (ValueError ''Parameter value is not in the published enum''))))"

definition published :: "field_def \<Rightarrow> pyval \<Rightarrow> pyval res" where
  "published d v = rbind (published_bounds d v) (\<lambda>_. rbind (published_enum d v) (\<lambda>_. Inr v))"

definition normalise_value :: "pyval \<Rightarrow> string \<Rightarrow> field_def \<Rightarrow> pyval res" where
  "normalise_value v declared d =
     (let value_type = (if declared = ''enum'' then fd_type d else declared) in
      rbind (if value_type = ''boolean'' then (if is_bool v then Inr v else Inl (ValueError ''Boolean parameters accept only true or false''))
          else if value_type = ''number'' \<or> value_type = ''integer'' then rbind (decimal_of v ''parameter value'') (normalise_number value_type)
          else if value_type = ''string'' then (case v of PyStr _ \<Rightarrow> Inr v | _ \<Rightarrow> Inl (ValueError ''Enum parameter values must be strings''))
          else Inl (ValueError ''Unsupported declared parameter type''))
        (published d))"

definition normalise_decimal :: "real \<Rightarrow> string \<Rightarrow> field_def \<Rightarrow> pyval res" where
  "normalise_decimal x declared d = rbind (normalise_number declared x) (published d)"

text \<open>
  The values of a range from the \<open>i\<close>-th on. The loop of the source has no bound of its own:
  it ends because the step is positive, or raises when the list is too long.
\<close>

function range_values :: "real \<Rightarrow> real \<Rightarrow> real \<Rightarrow> string \<Rightarrow> field_def \<Rightarrow> nat \<Rightarrow> pyval list res" where
  "range_values lo hi step declared d i =
     (let current = lo + step * real i in
      if current > hi then Inr []
      else rbind (normalise_decimal current declared d) (\<lambda>v.
        if i + 1 > MAX_VALUES_PER_PARAMETER then Inl (ValueError ''A parameter may generate at most 20 values'')
        else rbind (range_values lo hi step declared d (i + 1)) (\<lambda>vs. Inr (v # vs))))"
  by pat_completeness auto
termination by (relation "measure (\<lambda>(_, _, _, _, _, i). MAX_VALUES_PER_PARAMETER - i)") auto

declare range_values.simps [simp del]

definition numeric_range :: "sweep_parameter \<Rightarrow> string \<Rightarrow> field_def \<Rightarrow> pyval list res" where
  "numeric_range p declared d =
     rbind (decimal_of (sp_minimum p) ''minimum'') (\<lambda>lo.
     rbind (decimal_of (sp_maximum p) ''maximum'') (\<lambda>hi.
     rbind (decimal_of (sp_step p) ''step'') (\<lambda>step.
       if step \<le> 0 then Inl (ValueError ''Numeric range step must be greater than zero'')
       else if lo > hi then Inl (ValueError ''Numeric range minimum must not exceed maximum'')
       else if declared = ''integer'' \<and> list_ex (\<lambda>x. x \<noteq> of_int \<lfloor>x\<rfloor>) [lo, hi, step]
       then Inl (ValueError ''Integer ranges require whole-number minimum, maximum and step'')
       else rbind (range_values lo hi step declared d 0) (\<lambda>vs.
         if vs = [] then Inl (ValueError ''Numeric range generated no values'') else Inr vs))))"

definition parameter_values :: "sweep_parameter \<Rightarrow> field_def \<Rightarrow> pyval list res" where
  "parameter_values p d =
     (let expected = (if fd_enum d \<noteq> None then ''enum'' else fd_type d) in
      if fd_type d \<notin> {''number'', ''integer'', ''boolean'', ''string''} then Inl (ValueError ''Parameters of this schema type cannot be swept'')
      else if sp_type p \<noteq> expected then Inl (ValueError ''Declared type does not match schema type'')
      else if sp_method p = ''EXPLICIT_VALUES'' then
        (case sp_values p of
           Some (PyList (v # vs)) \<Rightarrow>
             if length (v # vs) > MAX_VALUES_PER_PARAMETER then Inl (ValueError ''A parameter may contain at most 20 values'')
             else rmap_list (\<lambda>x. normalise_value x (sp_type p) d) (v # vs)
         | _ \<Rightarrow> Inl (ValueError ''Explicit parameter values must be a non-empty list''))
      else if sp_method p = ''FIXED'' then
        (case sp_value p of
           None \<Rightarrow> Inl (ValueError ''Fixed parameters require a value'')
         | Some v \<Rightarrow> if v = PyNone then Inl (ValueError ''Fixed parameters require a value'')
             else rbind (normalise_value v (sp_type p) d) (\<lambda>w. Inr [w]))
      else if sp_method p = ''NUMERIC_RANGE'' then
        (if sp_type p \<notin> {''number'', ''integer''} then Inl (ValueError ''Numeric ranges support only number or integer parameters'')
         else numeric_range p (sp_type p) d)
      else Inl (ValueError ''Unknown parameter generation method''))"

section \<open>Variants\<close>

text \<open>The parts of Python's text functions that are not modelled: \<open>str\<close> of a value, a float in fixed notation, a digest.\<close>

record text_env =
  tx_str :: "pyval \<Rightarrow> string"
  tx_fixed :: "real \<Rightarrow> string"
  tx_sha :: "string \<Rightarrow> string"

definition execution_timeframe :: "string \<Rightarrow> string \<Rightarrow> string" where
  "execution_timeframe market timeframe = (if market = ''NSE'' \<and> timeframe = ''1d'' then ''5m'' else timeframe)"

definition resolved_variant ::
  "text_env \<Rightarrow> sweep_strategy \<Rightarrow> string \<Rightarrow> string \<Rightarrow> string \<Rightarrow> config \<Rightarrow> config \<Rightarrow> generated_variant res" where
  "resolved_variant tx s market timeframe name configuration execution =
     rbind (case sy_resolve s of Some f \<Rightarrow> f configuration | None \<Rightarrow> resolve_config (tx_str tx) (sy_schema s) configuration) (\<lambda>resolved.
     rbind (sy_validate s resolved) (\<lambda>_.
     rbind (canonical_config resolved) (\<lambda>_.
     rbind (settings_from_mapping execution (market = ''NSE'')) (\<lambda>settings.
       let snapshot = AList.update ''executionTimeframe'' (PyStr (execution_timeframe market timeframe)) (settings_public settings)
       in rbind (canonical_config snapshot) (\<lambda>_.
         Inr \<lparr>gv_name = name, gv_configuration = resolved, gv_execution = snapshot, gv_settings = settings\<rparr>)))))"

definition variant_key :: "generated_variant \<Rightarrow> (config \<times> config) res" where
  "variant_key v = rbind (canonical_config (gv_configuration v)) (\<lambda>c. rbind (canonical_config (gv_execution v)) (\<lambda>x. Inr (c, x)))"

definition reject_duplicate_configurations :: "generated_variant list \<Rightarrow> unit res" where
  "reject_duplicate_configurations vs =
     (if \<not> distinct (map gv_name vs) then Inl (ValueError ''The experiment generates duplicate variant names'')
      else rbind (rmap_list variant_key vs) (\<lambda>keys.
        raise_if (\<not> distinct keys) (ValueError ''The experiment generates duplicate resolved configurations'')))"

fun format_value :: "text_env \<Rightarrow> pyval \<Rightarrow> string" where
  "format_value tx (PyBool b) = (if b then ''true'' else ''false'')"
| "format_value tx (PyFloat r) = tx_fixed tx r"
| "format_value tx (PyInt i) = (if i < 0 then CHR ''-'' # show_nat (nat (- i)) else show_nat (nat i))"
| "format_value tx (PyStr s) = s"
| "format_value tx v = tx_str tx v"

text \<open>The middle dot that joins labels, one character of Latin-1.\<close>

definition DOT :: string where "DOT = '' '' @ [char_of (183 :: nat)] @ '' ''"

fun join_labels :: "string list \<Rightarrow> string" where
  "join_labels [] = []"
| "join_labels [x] = x"
| "join_labels (x # y # ys) = x @ DOT @ join_labels (y # ys)"

definition variant_name :: "text_env \<Rightarrow> string list \<Rightarrow> string" where
  "variant_name tx labels =
     (let full = join_labels labels
      in if length full \<le> 80 then full else rev (dropWhile is_space (rev (take 68 full))) @ DOT @ take 8 (tx_sha tx full))"

text \<open>One combination: its values overwrite the base settings of their sections, in order, and name the variant.\<close>

definition assign_value :: "text_env \<Rightarrow> config \<times> config \<times> string list \<Rightarrow> sweep_parameter \<times> pyval \<Rightarrow> config \<times> config \<times> string list" where
  "assign_value tx acc entry =
     (let (configuration, execution, labels) = acc; (p, v) = entry; label = sp_parameter p @ ''='' @ format_value tx v
      in if sp_section p = ''strategy'' then (AList.update (sp_parameter p) v configuration, execution, labels @ [label])
         else (configuration, AList.update (sp_parameter p) v execution, labels @ [label]))"

definition grid_variant ::
  "text_env \<Rightarrow> sweep_strategy \<Rightarrow> string \<Rightarrow> string \<Rightarrow> config \<Rightarrow> config \<Rightarrow> sweep_parameter list \<Rightarrow> pyval list \<Rightarrow> generated_variant res" where
  "grid_variant tx s market timeframe base_configuration base_execution parameters combination =
     (let (configuration, execution, labels) = foldl (assign_value tx) (base_configuration, base_execution, []) (zip parameters combination)
      in resolved_variant tx s market timeframe (variant_name tx labels) configuration execution)"

definition sweep_values :: "sweep_strategy \<Rightarrow> sweep_parameter \<Rightarrow> pyval list res" where
  "sweep_values s p =
     (if sp_section p \<notin> {''strategy'', ''execution''} then Inl (ValueError ''Unknown configuration section'')
      else case map_of (if sp_section p = ''strategy'' then sy_schema s else EXECUTION_SETTINGS_SCHEMA) (sp_parameter p) of
          None \<Rightarrow> Inl (ValueError ''Unsupported parameter'')
        | Some d \<Rightarrow> parameter_values p d)"

definition grid_variants ::
  "text_env \<Rightarrow> sweep_strategy \<Rightarrow> string \<Rightarrow> string \<Rightarrow> config \<Rightarrow> config \<Rightarrow> sweep_parameter list \<Rightarrow> generated_variant list res" where
  "grid_variants tx s market timeframe base_configuration base_execution parameters =
     (if parameters = [] then Inl (ValueError ''Grid sweeps require at least one parameter'')
      else if length parameters > MAX_SWEEP_PARAMETERS then Inl (ValueError ''A grid sweep may contain at most 8 parameters'')
      else if \<not> distinct (map (\<lambda>p. (sp_section p, sp_parameter p)) parameters) then Inl (ValueError ''Duplicate parameter paths are not allowed'')
      else rbind (rmap_list (sweep_values s) parameters) (\<lambda>value_sets.
        if prod_list (map length value_sets) > MAX_GENERATED_VARIANTS then Inl (ValueError ''The grid generates too many variants'')
        else rmap_list (grid_variant tx s market timeframe base_configuration base_execution parameters) (product_lists value_sets)))"

definition merge_config :: "config \<Rightarrow> config \<Rightarrow> config" where
  "merge_config base over = foldl (\<lambda>c (k, v). AList.update k v c) base over"

definition ascii_lower :: "char \<Rightarrow> char" where
  "ascii_lower c = (let n = of_char c :: nat in if 65 \<le> n \<and> n \<le> 90 then char_of (n + 32) else c)"

definition manual_variants ::
  "text_env \<Rightarrow> sweep_strategy \<Rightarrow> string \<Rightarrow> string \<Rightarrow> config \<Rightarrow> config \<Rightarrow> manual_variant list \<Rightarrow> generated_variant list res" where
  "manual_variants tx s market timeframe base_configuration base_execution items =
     (let names = map (\<lambda>m. py_strip (mv_name m)) items in
      if items = [] then Inl (ValueError ''Manual experiments require at least one variant'')
      else if length items > MAX_GENERATED_VARIANTS then Inl (ValueError ''An experiment may contain at most 100 variants'')
      else if list_ex (\<lambda>n. n = []) names then Inl (ValueError ''Every manual variant requires a name'')
      else if \<not> distinct (map (map ascii_lower) names) then Inl (ValueError ''Variant names must be unique within an experiment'')
      else rmap_list (\<lambda>(name, m). resolved_variant tx s market timeframe name
             (merge_config base_configuration (mv_configuration m)) (merge_config base_execution (mv_execution m))) (zip names items))"

definition generate_variants ::
  "text_env \<Rightarrow> sweep_strategy \<Rightarrow> string \<Rightarrow> string \<Rightarrow> string \<Rightarrow> config \<Rightarrow> config \<Rightarrow> manual_variant list \<Rightarrow> sweep_parameter list
     \<Rightarrow> generated_variant list res" where
  "generate_variants tx s market timeframe mode base_configuration base_execution items parameters =
     rbind (if mode = ''MANUAL'' then manual_variants tx s market timeframe base_configuration base_execution items
         else if mode = ''GRID'' then grid_variants tx s market timeframe base_configuration base_execution parameters
         else Inl (ValueError ''mode must be MANUAL or GRID''))
       (\<lambda>generated. rbind (reject_duplicate_configurations generated) (\<lambda>_. Inr generated))"

section \<open>Ranges\<close>

definition range_number :: "string \<Rightarrow> real \<Rightarrow> pyval" where
  "range_number declared x = (if declared = ''integer'' then PyInt \<lfloor>x\<rfloor> else PyFloat x)"

lemma published_same: "published d v = Inr w \<Longrightarrow> w = v"
  by (auto simp: published_def rbind_eq_Inr)

definition admitted :: "string \<Rightarrow> field_def \<Rightarrow> real \<Rightarrow> bool" where
  "admitted declared d x \<longleftrightarrow> (declared = ''integer'' \<longrightarrow> of_int \<lfloor>x\<rfloor> = x) \<and> published d (range_number declared x) = Inr (range_number declared x)"

lemma normalise_published:
  "normalise_decimal x declared d = Inr v \<longleftrightarrow> admitted declared d x \<and> v = range_number declared x"
  by (auto simp: normalise_decimal_def normalise_number_def admitted_def range_number_def rbind_eq_Inr dest: published_same)

lemma range_end: "0 < step \<Longrightarrow> hi < lo + step * real i \<longleftrightarrow> nat (\<lfloor>(hi - lo) / step\<rfloor> + 1) \<le> i"
proof -
  assume s: "0 < step"
  have "hi < lo + step * real i \<longleftrightarrow> (hi - lo) / step < of_int (int i)" using s by (simp add: field_simps)
  also have "\<dots> \<longleftrightarrow> \<lfloor>(hi - lo) / step\<rfloor> < int i" by (simp only: floor_less_iff)
  finally show ?thesis by (simp add: nat_le_iff) linarith
qed

text \<open>The values from the \<open>i\<close>-th on are those of the indices up to the last one below the maximum.\<close>

lemma range_values_iff:
  assumes s: "0 < step" and "i \<le> MAX_VALUES_PER_PARAMETER" and n: "n = nat (\<lfloor>(hi - lo) / step\<rfloor> + 1)"
  shows "range_values lo hi step declared d i = Inr vs \<longleftrightarrow>
    (n \<le> i \<or> n \<le> MAX_VALUES_PER_PARAMETER) \<and> list_all (\<lambda>k. admitted declared d (lo + step * real k)) [i..<n]
    \<and> vs = map (\<lambda>k. range_number declared (lo + step * real k)) [i..<n]"
  using assms(2)
proof (induction "MAX_VALUES_PER_PARAMETER - i" arbitrary: i vs rule: less_induct)
  case less
  note unfold = range_values.simps [of lo hi step declared d i]
  show ?case
  proof (cases "n \<le> i")
    case True
    with unfold range_end [OF s, of hi lo i] show ?thesis by (auto simp: Let_def n)
  next
    case False
    then have more: "\<not> lo + step * real i > hi" and split: "[i..<n] = i # [Suc i..<n]"
      using range_end [OF s, of hi lo i] by (auto simp: n upt_conv_Cons)
    show ?thesis
    proof (cases "i < MAX_VALUES_PER_PARAMETER")
      case True
      then have "MAX_VALUES_PER_PARAMETER - Suc i < MAX_VALUES_PER_PARAMETER - i" "Suc i \<le> MAX_VALUES_PER_PARAMETER" by simp_all
      note IH = less.hyps [OF this]
      show ?thesis unfolding unfold using more False True
        by (auto simp: Let_def rbind_eq_Inr normalise_published IH split)
    next
      case end_of_list: False
      with less.prems False show ?thesis unfolding unfold using more by (auto simp: Let_def rbind_eq_Inr)
    qed
  qed
qed

lemma numeric_range_iff:
  "numeric_range p declared d = Inr vs \<longleftrightarrow>
    (\<exists>lo hi step n. decimal_of (sp_minimum p) ''minimum'' = Inr lo \<and> decimal_of (sp_maximum p) ''maximum'' = Inr hi \<and> decimal_of (sp_step p) ''step'' = Inr step
      \<and> 0 < step \<and> lo \<le> hi \<and> \<not> (declared = ''integer'' \<and> list_ex (\<lambda>x. x \<noteq> of_int \<lfloor>x\<rfloor>) [lo, hi, step])
      \<and> n = nat (\<lfloor>(hi - lo) / step\<rfloor> + 1) \<and> n \<le> MAX_VALUES_PER_PARAMETER
      \<and> list_all (\<lambda>k. admitted declared d (lo + step * real k)) [0..<n] \<and> vs = map (\<lambda>k. range_number declared (lo + step * real k)) [0..<n])"
proof -
  have pos: "0 < nat (\<lfloor>(hi - lo) / step\<rfloor> + 1)" if "0 < step" "lo \<le> hi" for lo hi step :: real
  proof -
    have "0 \<le> \<lfloor>(hi - lo) / step\<rfloor>" using that by simp
    then show ?thesis by simp
  qed
  have loop: "range_values lo hi step declared d 0 = Inr vs \<and> vs \<noteq> [] \<longleftrightarrow> n \<le> MAX_VALUES_PER_PARAMETER
      \<and> list_all (\<lambda>k. admitted declared d (lo + step * real k)) [0..<n] \<and> vs = map (\<lambda>k. range_number declared (lo + step * real k)) [0..<n]"
    if "0 < step" "lo \<le> hi" "n = nat (\<lfloor>(hi - lo) / step\<rfloor> + 1)" for lo hi step n
  proof -
    have "0 < n" using pos [OF that(1,2)] that(3) by (simp only:)
    then show ?thesis using range_values_iff [OF that(1) _ that(3), of 0 declared d vs] by auto
  qed
  define whole where "whole = (\<lambda>lo hi step :: real. \<not> (declared = ''integer'' \<and> list_ex (\<lambda>x. x \<noteq> of_int \<lfloor>x\<rfloor>) [lo, hi, step]))"
  have "numeric_range p declared d = Inr vs \<longleftrightarrow> (\<exists>lo hi step. decimal_of (sp_minimum p) ''minimum'' = Inr lo \<and> decimal_of (sp_maximum p) ''maximum'' = Inr hi
      \<and> decimal_of (sp_step p) ''step'' = Inr step \<and> 0 < step \<and> lo \<le> hi \<and> whole lo hi step \<and> range_values lo hi step declared d 0 = Inr vs \<and> vs \<noteq> [])"
    (is "_ \<longleftrightarrow> (\<exists>lo hi step. ?ok lo hi step)")
  proof
    assume "numeric_range p declared d = Inr vs"
    then obtain lo hi step where "?ok lo hi step" by (auto simp: numeric_range_def rbind_eq_Inr whole_def split: if_splits)
    then show "\<exists>lo hi step. ?ok lo hi step" by blast
  next
    assume "\<exists>lo hi step. ?ok lo hi step"
    then obtain lo hi step where "?ok lo hi step" by blast
    then show "numeric_range p declared d = Inr vs" by (auto simp: numeric_range_def whole_def)
  qed
  also have "\<dots> \<longleftrightarrow> (\<exists>lo hi step n. decimal_of (sp_minimum p) ''minimum'' = Inr lo \<and> decimal_of (sp_maximum p) ''maximum'' = Inr hi
      \<and> decimal_of (sp_step p) ''step'' = Inr step \<and> 0 < step \<and> lo \<le> hi \<and> whole lo hi step \<and> n = nat (\<lfloor>(hi - lo) / step\<rfloor> + 1) \<and> n \<le> MAX_VALUES_PER_PARAMETER
      \<and> list_all (\<lambda>k. admitted declared d (lo + step * real k)) [0..<n] \<and> vs = map (\<lambda>k. range_number declared (lo + step * real k)) [0..<n])"
    by (intro ex_cong1) (use loop [OF _ _ refl] in blast)
  finally show ?thesis by (simp only: whole_def)
qed

lemma numeric_range_published:
  "numeric_range p declared d = Inr vs \<Longrightarrow> vs \<noteq> [] \<and> length vs \<le> MAX_VALUES_PER_PARAMETER \<and> list_all (\<lambda>v. published d v = Inr v) vs"
proof -
  assume "numeric_range p declared d = Inr vs"
  moreover from this have "vs \<noteq> []" by (auto simp: numeric_range_def rbind_eq_Inr split: if_splits)
  ultimately show ?thesis by (auto simp: numeric_range_iff list_all_iff admitted_def)
qed

section \<open>Grids\<close>

lemma normalise_value_published: "normalise_value v declared d = Inr w \<Longrightarrow> published d w = Inr w"
  by (auto simp: normalise_value_def Let_def rbind_eq_Inr dest: published_same split: if_splits)

lemma explicit_published:
  "rmap_list (\<lambda>x. normalise_value x declared d) xs = Inr vs \<Longrightarrow> length vs = length xs \<and> list_all (\<lambda>v. published d v = Inr v) vs"
  by (induction xs arbitrary: vs) (auto simp: rbind_eq_Inr normalise_value_published)

lemma one_value_allowed [simp]: "Suc 0 \<le> MAX_VALUES_PER_PARAMETER"
  by (simp add: MAX_VALUES_PER_PARAMETER_def)

lemma parameter_values_published:
  "parameter_values p d = Inr vs \<Longrightarrow> vs \<noteq> [] \<and> length vs \<le> MAX_VALUES_PER_PARAMETER \<and> list_all (\<lambda>v. published d v = Inr v) vs"
  by (auto simp: parameter_values_def Let_def rbind_eq_Inr dest: numeric_range_published normalise_value_published
      dest!: explicit_published split: if_splits option.splits pyval.splits list.splits)

lemma length_product_lists: "length (product_lists xss) = prod_list (map length xss)"
  by (induction xss) (simp_all add: length_concat o_def sum_list_triv)

lemma distinct_concat_heads:
  "ps \<noteq> [] \<Longrightarrow> distinct (concat (map (\<lambda>x. map (Cons x) ps) xs)) \<Longrightarrow> distinct xs"
  by (induction xs) (auto simp: neq_Nil_conv)

lemma distinct_product_listsD:
  "distinct (product_lists xss) \<Longrightarrow> [] \<notin> set xss \<Longrightarrow> list_all distinct xss"
proof (induction xss)
  case (Cons xs xss)
  have ne: "product_lists xss \<noteq> []" using Cons.prems(2) length_product_lists [of xss] by (auto simp: prod_list_zero_iff)
  from Cons.prems(2) obtain y ys where "xs = y # ys" by (cases xs) auto
  with Cons.prems(1) have "distinct (product_lists xss)" by (simp add: distinct_map)
  with Cons ne distinct_concat_heads [of "product_lists xss" xs] show ?case by simp
qed simp

lemma rmap_list_projr: "rmap_list f xs = Inr ys \<Longrightarrow> map f xs = map Inr ys"
  by (induction xs arbitrary: ys) (auto simp: rbind_eq_Inr)

definition sweep_field_of :: "sweep_strategy \<Rightarrow> sweep_parameter \<Rightarrow> field_def option" where
  "sweep_field_of s p = map_of (if sp_section p = ''strategy'' then sy_schema s else EXECUTION_SETTINGS_SCHEMA) (sp_parameter p)"

lemma sweep_values_published:
  "sweep_values s p = Inr vs \<Longrightarrow> \<exists>d. sweep_field_of s p = Some d \<and> vs \<noteq> [] \<and> length vs \<le> MAX_VALUES_PER_PARAMETER \<and> list_all (\<lambda>v. published d v = Inr v) vs"
  by (auto simp: sweep_values_def sweep_field_of_def dest: parameter_values_published split: if_splits option.splits)

lemma resolved_variant_valid:
  "resolved_variant tx s market timeframe name c x = Inr v \<Longrightarrow>
    sy_validate s (gv_configuration v) = Inr () \<and> settings_ok (gv_settings v) \<and> gv_name v = name"
  by (auto simp: resolved_variant_def rbind_eq_Inr settings_from_mapping_def Let_def dest: settings_validate_cases)

text \<open>
  C31. The values of a numeric range. A range succeeds exactly when its bounds are finite numbers in
  order with a positive step, at most twenty multiples of the step fit between them and the schema admits each
  of them; its values are then the minimum plus each multiple, up to the last that does not
  exceed the maximum. In every other case it raises: the loop always ends.
\<close>

theorem numeric_range_values:
  "numeric_range p declared d = Inr vs \<longleftrightarrow>
    (\<exists>lo hi step n. decimal_of (sp_minimum p) ''minimum'' = Inr lo \<and> decimal_of (sp_maximum p) ''maximum'' = Inr hi \<and> decimal_of (sp_step p) ''step'' = Inr step
      \<and> 0 < step \<and> lo \<le> hi \<and> \<not> (declared = ''integer'' \<and> list_ex (\<lambda>x. x \<noteq> of_int \<lfloor>x\<rfloor>) [lo, hi, step])
      \<and> n = nat (\<lfloor>(hi - lo) / step\<rfloor> + 1) \<and> n \<le> MAX_VALUES_PER_PARAMETER
      \<and> list_all (\<lambda>k. admitted declared d (lo + step * real k)) [0..<n] \<and> vs = map (\<lambda>k. range_number declared (lo + step * real k)) [0..<n])"
  by (rule numeric_range_iff)


definition demo_strategy :: sweep_strategy where
  "demo_strategy = \<lparr>sy_schema = [(''n'', sweep_field ''integer'' (PyInt 1) (Some 1) (Some 9))], sy_resolve = None, sy_validate = (\<lambda>_. Inr ())\<rparr>"

definition demo_parameter :: sweep_parameter where
  "demo_parameter = \<lparr>sp_section = ''strategy'', sp_parameter = ''n'', sp_type = ''integer'', sp_method = ''EXPLICIT_VALUES'',
     sp_values = Some (PyList [PyInt 2, PyInt 5]), sp_value = None, sp_minimum = PyNone, sp_maximum = PyNone, sp_step = PyNone\<rparr>"

definition demo_text :: text_env where
  "demo_text = \<lparr>tx_str = (\<lambda>_. []), tx_fixed = (\<lambda>_. []), tx_sha = (\<lambda>x. x)\<rparr>"

lemma demo_settings: "settings_from_mapping [] True = Inr default_settings"
  by (simp add: settings_from_mapping_def settings_validate_def default_settings_def SIZING_REDUCTIONS_def is_integer_def)

lemma demo_snapshot: "list_all (\<lambda>(_, v). json_value v) (AList.update ''executionTimeframe'' (PyStr t) (settings_public default_settings))"
  by (simp add: settings_public_def default_settings_def opt_float_def opt_int_def)

lemma demo_resolved: "0 < i \<Longrightarrow> i < 10 \<Longrightarrow> resolve_config f (sy_schema demo_strategy) [(''n'', PyInt i)] = Inr [(''n'', PyInt i)]"
  by (simp add: resolve_config_def demo_strategy_def sweep_field_def resolve_step_def resolve_value_def convert_value_def check_bounds_def check_enum_def
      default_config_def List.map_filter_def is_integer_def)

lemma demo_digits: "show_nat 2 = ''2''" "show_nat 5 = ''5''"
  by code_simp+

lemma demo_variant:
  assumes "i \<in> {2, 5}"
  shows "grid_variant demo_text demo_strategy ''NSE'' ''1d'' [] [] [demo_parameter] [PyInt i] =
    Inr \<lparr>gv_name = ''n='' @ show_nat (nat i), gv_configuration = [(''n'', PyInt i)],
      gv_execution = AList.update ''executionTimeframe'' (PyStr ''5m'') (settings_public default_settings), gv_settings = default_settings\<rparr>"
proof -
  have n: "variant_name demo_text [''n='' @ show_nat (nat i)] = ''n='' @ show_nat (nat i)" using assms by (auto simp: variant_name_def demo_digits)
  have a: "foldl (assign_value demo_text) ([], [], []) (zip [demo_parameter] [PyInt i]) = ([(''n'', PyInt i)], [], [''n='' @ show_nat (nat i)])"
    using assms by (auto simp: assign_value_def demo_parameter_def)
  have r: "resolve_config (tx_str demo_text) (sy_schema demo_strategy) [(''n'', PyInt i)] = Inr [(''n'', PyInt i)]" using assms by (auto intro: demo_resolved)
  show ?thesis unfolding grid_variant_def a Let_def prod.case n
    by (simp add: resolved_variant_def r demo_settings demo_snapshot canonical_config_def execution_timeframe_def Let_def)
      (simp add: demo_strategy_def r [unfolded demo_strategy_def, simplified] demo_settings demo_snapshot)
qed

definition demo_generated :: "int \<Rightarrow> generated_variant" where
  "demo_generated i = \<lparr>gv_name = ''n='' @ show_nat (nat i), gv_configuration = [(''n'', PyInt i)],
      gv_execution = AList.update ''executionTimeframe'' (PyStr ''5m'') (settings_public default_settings), gv_settings = default_settings\<rparr>"

lemma demo_key:
  "variant_key (demo_generated i) = Inr ([(''n'', PyInt i)], sort_key fst (AList.update ''executionTimeframe'' (PyStr ''5m'') (settings_public default_settings)))"
  by (simp add: variant_key_def demo_generated_def canonical_config_def demo_snapshot)

lemma demo_experiment:
  "generate_variants demo_text demo_strategy ''NSE'' ''1d'' ''GRID'' [] [] [] [demo_parameter] = Inr [demo_generated 2, demo_generated 5]"
proof -
  have vals: "sweep_values demo_strategy demo_parameter = Inr [PyInt 2, PyInt 5]"
    by (simp add: sweep_values_def demo_strategy_def demo_parameter_def parameter_values_def sweep_field_def normalise_value_def decimal_of_def
        normalise_number_def published_def published_bounds_def published_enum_def decimal_text_def MAX_VALUES_PER_PARAMETER_def)
  have "grid_variants demo_text demo_strategy ''NSE'' ''1d'' [] [] [demo_parameter] = Inr [demo_generated 2, demo_generated 5]"
    by (simp add: grid_variants_def vals demo_variant demo_generated_def MAX_SWEEP_PARAMETERS_def MAX_GENERATED_VARIANTS_def)
  moreover have "reject_duplicate_configurations [demo_generated 2, demo_generated 5] = Inr ()"
  proof -
    have "gv_name (demo_generated 2) \<noteq> gv_name (demo_generated 5)" by (simp add: demo_generated_def)
    then show ?thesis by (simp add: reject_duplicate_configurations_def demo_key)
  qed
  ultimately show ?thesis by (simp add: generate_variants_def)
qed


end
