(* ===== verification/Crypto_Strategy.thy ===== *)
theory Crypto_Strategy
  imports Indicators
begin

text \<open>
  \<open>backend/markets/crypto/strategy.py\<close>: the trend pullback strategy of the crypto markets, which arms on a
  band of the RSI and signals when the RSI crosses its recovery level, and the backtest that enters
  at the open of the next candle. NaN is \<open>None\<close>, and the pandas mean is the parameter \<open>ewm\<close>, as for the other indicators. A digest
  (\<open>sha\<close>) and the text of a moment (\<open>stamp_text\<close>) are arguments of what uses them.
\<close>

section \<open>Configuration\<close>

datatype crypto_side = CBOTH | CBUY | CSELL

record pullback_config =
  pb_rsi_length :: int
  pb_buy_arm_low :: real
  pb_buy_arm_high :: real
  pb_sell_arm_low :: real
  pb_sell_arm_high :: real
  pb_recovery_level :: real
  pb_ema_fast :: int
  pb_ema_slow :: int
  pb_atr_length :: int
  pb_volume_period :: int
  pb_minimum_rvol :: real
  pb_setup_expiry_bars :: int
  pb_stop_atr_multiplier :: real
  pb_reward_risk_ratio :: real
  pb_maximum_holding_bars :: int
  pb_side :: crypto_side
  pb_cost_bps :: real
  pb_slippage_bps :: real

definition default_pullback :: pullback_config where
  "default_pullback = \<lparr>pb_rsi_length = 14, pb_buy_arm_low = 40, pb_buy_arm_high = 50, pb_sell_arm_low = 50, pb_sell_arm_high = 60,
     pb_recovery_level = 50, pb_ema_fast = 20, pb_ema_slow = 50, pb_atr_length = 14, pb_volume_period = 20, pb_minimum_rvol = 12 / 10,
     pb_setup_expiry_bars = 6, pb_stop_atr_multiplier = 1, pb_reward_risk_ratio = 15 / 10, pb_maximum_holding_bars = 6, pb_side = CBOTH,
     pb_cost_bps = 8, pb_slippage_bps = 2\<rparr>"

text \<open>A side other than the three is excluded by the type.\<close>

definition pullback_validate :: "pullback_config \<Rightarrow> pullback_config res" where
  "pullback_validate c =
     (if \<not> (2 \<le> pb_rsi_length c \<and> pb_rsi_length c \<le> 500) then Inl (ValueError ''RSI length must be between 2 and 500'')
      else if \<not> (0 \<le> pb_buy_arm_low c \<and> pb_buy_arm_low c < pb_buy_arm_high c \<and> pb_buy_arm_high c \<le> pb_recovery_level c \<and> pb_recovery_level c \<le> 100)
      then Inl (ValueError ''BUY RSI arm range must end at or below the recovery level'')
      else if \<not> (0 \<le> pb_recovery_level c \<and> pb_recovery_level c \<le> pb_sell_arm_low c \<and> pb_sell_arm_low c < pb_sell_arm_high c \<and> pb_sell_arm_high c \<le> 100)
      then Inl (ValueError ''SELL RSI arm range must start at or above the recovery level'')
      else if \<not> (1 \<le> pb_ema_fast c \<and> pb_ema_fast c < pb_ema_slow c \<and> pb_ema_slow c \<le> 1000)
      then Inl (ValueError ''EMA lengths must be positive and fast must be below slow'')
      else if pb_atr_length c < 2 \<or> pb_volume_period c < 2 then Inl (ValueError ''ATR and volume periods must be at least two bars'')
      else if pb_minimum_rvol c \<le> 0 \<or> pb_setup_expiry_bars c < 1 then Inl (ValueError ''RVOL and setup expiry must be positive'')
      else if pb_stop_atr_multiplier c \<le> 0 \<or> pb_reward_risk_ratio c \<le> 0 then Inl (ValueError ''Stop and reward:risk values must be positive'')
      else if pb_maximum_holding_bars c < 1 then Inl (ValueError ''Maximum holding bars must be positive'')
      else if pb_cost_bps c < 0 \<or> pb_slippage_bps c < 0 then Inl (ValueError ''Costs and slippage cannot be negative'')
      else Inr c)"

section \<open>The frame\<close>

text \<open>Candles as an exchange delivers them.\<close>

record market_candle =
  mk_provider :: string
  mk_symbol :: string
  mk_timeframe :: string
  mk_open_time :: timestamp
  mk_close_time :: timestamp
  mk_open :: real
  mk_high :: real
  mk_low :: real
  mk_close :: real
  mk_base_volume :: real
  mk_quote_volume :: "real option"
  mk_complete :: bool

definition candle_row :: "market_candle \<Rightarrow> candle" where
  "candle_row m = \<lparr>ca_at = mk_open_time m, ca_open = mk_open m, ca_high = mk_high m, ca_low = mk_low m, ca_close = mk_close m,
     ca_volume = mk_base_volume m\<rparr>"

fun latest_rows :: "candle list \<Rightarrow> candle list" where
  "latest_rows [] = []"
| "latest_rows (x # xs) = (if ca_at x \<in> ca_at ` set xs then latest_rows xs else x # latest_rows xs)"

definition complete_rows :: "market_candle list \<Rightarrow> candle list" where
  "complete_rows candles = latest_rows (map candle_row (sort_key mk_open_time (filter mk_complete candles)))"

definition crypto_rsi_point :: "real option \<Rightarrow> real option \<Rightarrow> real option" where
  "crypto_rsi_point g l =
     (if l = Some 0 \<and> g = Some 0 then Some 50
      else if l = Some 0 \<and> gt g (Some 0) then Some 100
      else lift2 (\<lambda>x y. 100 - 100 / (1 + x / y)) g (nonzero l))"

definition crypto_rsi :: "(real \<Rightarrow> series \<Rightarrow> series) \<Rightarrow> series \<Rightarrow> nat \<Rightarrow> series" where
  "crypto_rsi ewm close n =
     (let delta = diff_from None close;
          gains = map (map_option (max 0)) delta;
          losses = map (map_option (\<lambda>x. - min 0 x)) delta
      in map2 crypto_rsi_point (min_periods n gains (ewm (1 / real n) gains)) (min_periods n losses (ewm (1 / real n) losses)))"

definition crypto_atr :: "(real \<Rightarrow> series \<Rightarrow> series) \<Rightarrow> candle list \<Rightarrow> nat \<Rightarrow> series" where
  "crypto_atr ewm rows n = min_periods n (true_range rows) (ewm (1 / real n) (true_range rows))"

text \<open>The mean volume of the \<open>n\<close> bars before bar \<open>i\<close>.\<close>

definition prior_volume :: "candle list \<Rightarrow> nat \<Rightarrow> nat \<Rightarrow> real option" where
  "prior_volume rows n i = (if i < n then None else Some (series_mean (map ca_volume (drop (i - n) (take i rows)))))"

definition crypto_rvol :: "candle list \<Rightarrow> nat \<Rightarrow> series" where
  "crypto_rvol rows n = map (\<lambda>i. lift2 (/) (Some (ca_volume (rows ! i))) (nonzero (prior_volume rows n i))) [0..<length rows]"

record crypto_frame =
  cf_rows :: "candle list"
  cf_rsi :: series
  cf_fast :: series
  cf_slow :: series
  cf_atr :: series
  cf_rvol :: series
  cf_vwap :: series

definition frame_of :: "(real \<Rightarrow> series \<Rightarrow> series) \<Rightarrow> pullback_config \<Rightarrow> candle list \<Rightarrow> crypto_frame" where
  "frame_of ewm c rows =
     (let close = map (\<lambda>r. Some (ca_close r)) rows
      in \<lparr>cf_rows = rows, cf_rsi = crypto_rsi ewm close (nat (pb_rsi_length c)),
          cf_fast = ewm (2 / (of_int (pb_ema_fast c) + 1)) close, cf_slow = ewm (2 / (of_int (pb_ema_slow c) + 1)) close,
          cf_atr = crypto_atr ewm rows (nat (pb_atr_length c)), cf_rvol = crypto_rvol rows (nat (pb_volume_period c)),
          cf_vwap = session_vwap CRYPTO rows\<rparr>)"

definition candle_frame :: "(real \<Rightarrow> series \<Rightarrow> series) \<Rightarrow> market_candle list \<Rightarrow> pullback_config \<Rightarrow> crypto_frame res" where
  "candle_frame ewm candles c = rbind (pullback_validate c) (\<lambda>_. Inr (frame_of ewm c (complete_rows candles)))"

section \<open>Signals\<close>

record setup_arm =
  ar_index :: nat
  ar_rsi :: real
  ar_at :: timestamp

record signal_candidate =
  sc_side :: crypto_side
  sc_index :: nat
  sc_at :: timestamp
  sc_price :: real
  sc_stop :: real
  sc_target :: real
  sc_risk :: real
  sc_rsi :: real
  sc_arm_rsi :: real
  sc_arm_at :: timestamp
  sc_rvol :: real
  sc_atr :: real
  sc_fast :: "real option"
  sc_slow :: "real option"
  sc_vwap :: real

record signal_scan =
  sn_buy :: "setup_arm option"
  sn_sell :: "setup_arm option"
  sn_found :: "signal_candidate list"

definition rearm :: "real \<Rightarrow> real \<Rightarrow> int \<Rightarrow> nat \<Rightarrow> real \<Rightarrow> timestamp \<Rightarrow> setup_arm option \<Rightarrow> setup_arm option" where
  "rearm low high expiry i rsi stamp arm =
     (let armed = (if low \<le> rsi \<and> rsi \<le> high then Some \<lparr>ar_index = i, ar_rsi = rsi, ar_at = stamp\<rparr> else arm)
      in case armed of None \<Rightarrow> None | Some a \<Rightarrow> if int i - int (ar_index a) > expiry then None else Some a)"

definition buy_structure :: "crypto_frame \<Rightarrow> nat \<Rightarrow> bool" where
  "buy_structure f i \<longleftrightarrow> gt (cf_fast f ! i) (cf_slow f ! i) \<and> gt (cf_fast f ! i) (cf_fast f ! (i - 1))
     \<and> gt (Some (ca_close (cf_rows f ! i))) (cf_vwap f ! i) \<and> ca_close (cf_rows f ! i) > ca_high (cf_rows f ! (i - 1))"

definition sell_structure :: "crypto_frame \<Rightarrow> nat \<Rightarrow> bool" where
  "sell_structure f i \<longleftrightarrow> gt (cf_slow f ! i) (cf_fast f ! i) \<and> gt (cf_fast f ! (i - 1)) (cf_fast f ! i)
     \<and> gt (cf_vwap f ! i) (Some (ca_close (cf_rows f ! i))) \<and> ca_close (cf_rows f ! i) < ca_low (cf_rows f ! (i - 1))"

definition candidate_of :: "pullback_config \<Rightarrow> crypto_frame \<Rightarrow> nat \<Rightarrow> crypto_side \<Rightarrow> real \<Rightarrow> real \<Rightarrow> real \<Rightarrow> real \<Rightarrow> setup_arm \<Rightarrow> signal_candidate" where
  "candidate_of c f i side rsi spread rvol vwap arm =
     (let risk = spread * pb_stop_atr_multiplier c; price = ca_close (cf_rows f ! i); up = (if side = CBUY then 1 else -1)
      in \<lparr>sc_side = side, sc_index = i, sc_at = ca_at (cf_rows f ! i), sc_price = price, sc_stop = price - up * risk,
          sc_target = price + up * (risk * pb_reward_risk_ratio c), sc_risk = risk, sc_rsi = rsi, sc_arm_rsi = ar_rsi arm, sc_arm_at = ar_at arm,
          sc_rvol = rvol, sc_atr = spread, sc_fast = cf_fast f ! i, sc_slow = cf_slow f ! i, sc_vwap = vwap\<rparr>)"

text \<open>The signal of one side: none without an arm and all conditions; a used arm is gone, also when the risk is not positive.\<close>

definition side_signal ::
  "pullback_config \<Rightarrow> (setup_arm \<Rightarrow> signal_candidate) \<Rightarrow> crypto_side \<Rightarrow> bool \<Rightarrow> setup_arm option \<Rightarrow> setup_arm option \<times> signal_candidate list" where
  "side_signal c build side holds arm =
     (case arm of
        None \<Rightarrow> (None, [])
      | Some a \<Rightarrow> if pb_side c \<in> {CBOTH, side} \<and> holds then (None, if sc_risk (build a) > 0 then [build a] else []) else (Some a, []))"

definition signal_at :: "pullback_config \<Rightarrow> crypto_frame \<Rightarrow> nat \<Rightarrow> real \<Rightarrow> real \<Rightarrow> real \<Rightarrow> real \<Rightarrow> real \<Rightarrow> signal_scan \<Rightarrow> signal_scan" where
  "signal_at c f i rsi before spread rvol vwap s =
     (let stamp = ca_at (cf_rows f ! i);
          buy = rearm (pb_buy_arm_low c) (pb_buy_arm_high c) (pb_setup_expiry_bars c) i rsi stamp (sn_buy s);
          sell = rearm (pb_sell_arm_low c) (pb_sell_arm_high c) (pb_setup_expiry_bars c) i rsi stamp (sn_sell s);
          volume_pass = (rvol \<ge> pb_minimum_rvol c);
          buy_cross = (before \<le> pb_recovery_level c \<and> pb_recovery_level c < rsi);
          sell_cross = (before \<ge> pb_recovery_level c \<and> pb_recovery_level c > rsi);
          (buy', bought) = side_signal c (candidate_of c f i CBUY rsi spread rvol vwap) CBUY (buy_cross \<and> volume_pass \<and> buy_structure f i) buy;
          (sell', sold) = side_signal c (candidate_of c f i CSELL rsi spread rvol vwap) CSELL (sell_cross \<and> volume_pass \<and> sell_structure f i) sell
      in \<lparr>sn_buy = buy', sn_sell = sell', sn_found = sn_found s @ bought @ sold\<rparr>)"

text \<open>A bar with a missing value changes nothing.\<close>

definition signal_step :: "pullback_config \<Rightarrow> crypto_frame \<Rightarrow> signal_scan \<Rightarrow> nat \<Rightarrow> signal_scan" where
  "signal_step c f s i =
     (case (cf_rsi f ! i, cf_rsi f ! (i - 1), cf_atr f ! i, cf_rvol f ! i, cf_vwap f ! i) of
        (Some rsi, Some before, Some spread, Some rvol, Some vwap) \<Rightarrow> signal_at c f i rsi before spread rvol vwap s
      | _ \<Rightarrow> s)"

definition minimum_rows :: "pullback_config \<Rightarrow> int" where
  "minimum_rows c = max (max (pb_ema_slow c) (pb_rsi_length c)) (max (pb_atr_length c) (pb_volume_period c)) + 2"

definition scan_frame :: "pullback_config \<Rightarrow> crypto_frame \<Rightarrow> nat \<Rightarrow> signal_scan" where
  "scan_frame c f n = foldl (signal_step c f) \<lparr>sn_buy = None, sn_sell = None, sn_found = []\<rparr> [1..<n]"

definition generate_signals :: "crypto_frame \<Rightarrow> pullback_config \<Rightarrow> signal_candidate list res" where
  "generate_signals f c =
     rbind (pullback_validate c) (\<lambda>_.
       Inr (if int (length (cf_rows f)) < minimum_rows c then [] else sn_found (scan_frame c f (length (cf_rows f)))))"

section \<open>The backtest\<close>

datatype trade_outcome = STOP | TARGET | TIME_EXIT

record crypto_trade =
  cy_signal_id :: string
  cy_side :: crypto_side
  cy_signal_at :: timestamp
  cy_entry_at :: timestamp
  cy_exit_at :: timestamp
  cy_entry_price :: real
  cy_exit_price :: real
  cy_stop_price :: real
  cy_target_price :: real
  cy_outcome :: trade_outcome
  cy_gross :: real
  cy_costs :: real
  cy_net :: real
  cy_net_r :: "real option"
  cy_bars_held :: nat

fun side_name :: "crypto_side \<Rightarrow> string" where
  "side_name CBUY = ''BUY''" | "side_name CSELL = ''SELL''" | "side_name CBOTH = ''BOTH''"

definition deterministic_signal_id :: "(string \<Rightarrow> string) \<Rightarrow> (timestamp \<Rightarrow> string) \<Rightarrow> string \<Rightarrow> string \<Rightarrow> signal_candidate \<Rightarrow> string" where
  "deterministic_signal_id sha stamp_text instrument_id timeframe s =
     ''CSIG-'' @ py_upper (take 24 (sha (''crypto_trend_pullback_recovery|1.0.0|'' @ instrument_id @ ''|'' @ timeframe @ ''|'' @ side_name (sc_side s) @ ''|'' @ stamp_text (sc_at s))))"

text \<open>A buy gains when the price rises: \<open>direction\<close> turns all prices of a sale around.\<close>

definition direction :: "crypto_side \<Rightarrow> real" where
  "direction side = (if side = CBUY then 1 else -1)"

definition stop_hit :: "crypto_side \<Rightarrow> real \<Rightarrow> candle \<Rightarrow> bool" where
  "stop_hit side stop b = (if side = CBUY then ca_low b \<le> stop else ca_high b \<ge> stop)"

definition target_hit :: "crypto_side \<Rightarrow> real \<Rightarrow> candle \<Rightarrow> bool" where
  "target_hit side target b = (if side = CBUY then ca_high b \<ge> target else ca_low b \<le> target)"

text \<open>The bars after the entry, the stop before the target.\<close>

fun find_exit :: "crypto_side \<Rightarrow> real \<Rightarrow> real \<Rightarrow> candle list \<Rightarrow> nat list \<Rightarrow> (nat \<times> trade_outcome) option" where
  "find_exit side stop target rows [] = None"
| "find_exit side stop target rows (i # js) =
     (if stop_hit side stop (rows ! i) then Some (i, STOP)
      else if target_hit side target (rows ! i) then Some (i, TARGET)
      else find_exit side stop target rows js)"

definition trade_levels :: "pullback_config \<Rightarrow> signal_candidate \<Rightarrow> real \<Rightarrow> real \<times> real \<times> real" where
  "trade_levels c s raw_entry =
     (let d = direction (sc_side s); entry = raw_entry * (1 + d * (pb_slippage_bps c / 10000))
      in (entry, entry - d * sc_risk s, entry + d * (sc_risk s * pb_reward_risk_ratio c)))"

definition last_bar :: "pullback_config \<Rightarrow> candle list \<Rightarrow> nat \<Rightarrow> nat" where
  "last_bar c rows e = min (length rows - 1) (e + nat (pb_maximum_holding_bars c))"

definition exit_of :: "pullback_config \<Rightarrow> signal_candidate \<Rightarrow> candle list \<Rightarrow> nat \<Rightarrow> nat \<times> real \<times> trade_outcome" where
  "exit_of c s rows entry_index =
     (let (entry, stop, target) = trade_levels c s (ca_open (rows ! entry_index)); last_index = last_bar c rows entry_index
      in case find_exit (sc_side s) stop target rows [entry_index + 1..<last_index + 1] of
           None \<Rightarrow> (last_index, ca_close (rows ! last_index), TIME_EXIT)
         | Some (i, outcome) \<Rightarrow> (i, if outcome = STOP then stop else target, outcome))"

definition trade_of :: "(signal_candidate \<Rightarrow> string) \<Rightarrow> pullback_config \<Rightarrow> signal_candidate \<Rightarrow> candle list \<Rightarrow> nat \<Rightarrow> crypto_trade" where
  "trade_of sid c s rows entry_index =
     (let d = direction (sc_side s); (entry, stop, target) = trade_levels c s (ca_open (rows ! entry_index));
          (exit_index, raw_exit, outcome) = exit_of c s rows entry_index;
          exit_price = raw_exit * (1 - d * (pb_slippage_bps c / 10000));
          gross = d * (exit_price - entry);
          costs = (entry + exit_price) * (pb_cost_bps c / 10000);
          net = gross - costs
      in \<lparr>cy_signal_id = sid s, cy_side = sc_side s, cy_signal_at = sc_at s, cy_entry_at = ca_at (rows ! entry_index), cy_exit_at = ca_at (rows ! exit_index),
          cy_entry_price = py_round entry 10, cy_exit_price = py_round exit_price 10, cy_stop_price = py_round stop 10, cy_target_price = py_round target 10,
          cy_outcome = outcome, cy_gross = py_round gross 10, cy_costs = py_round costs 10, cy_net = py_round net 10,
          cy_net_r = (if sc_risk s = 0 then None else Some (py_round (net / sc_risk s) 6)), cy_bars_held = exit_index - entry_index\<rparr>)"

text \<open>One signal: it is skipped at the end of the data or while a trade is open. The state is the last bar of the latest trade and the trades.\<close>

definition trade_step :: "(signal_candidate \<Rightarrow> string) \<Rightarrow> pullback_config \<Rightarrow> candle list \<Rightarrow> int \<times> crypto_trade list \<Rightarrow> signal_candidate \<Rightarrow> int \<times> crypto_trade list" where
  "trade_step sid c rows st s =
     (let (occupied, trades) = st; entry_index = sc_index s + 1
      in if entry_index \<ge> length rows \<or> int entry_index \<le> occupied then st
         else (int (fst (exit_of c s rows entry_index)), trades @ [trade_of sid c s rows entry_index]))"

text \<open>The profit factor: a number, infinite without a loss, or absent without any result.\<close>

datatype profit_factor = Factor real | InfiniteFactor | NoFactor

record crypto_summary =
  cs_completed :: nat
  cs_signals :: nat
  cs_trades :: nat
  cs_wins :: nat
  cs_losses :: nat
  cs_win_rate :: real
  cs_net :: real
  cs_average_r :: real
  cs_profit_factor :: profit_factor

definition crypto_summary_of :: "nat \<Rightarrow> nat \<Rightarrow> crypto_trade list \<Rightarrow> crypto_summary" where
  "crypto_summary_of completed signals trades =
     (let n = length trades; wins = length (filter (\<lambda>t. cy_net t > 0) trades);
          gross_profit = sum_list (map (\<lambda>t. max 0 (cy_net t)) trades);
          gross_loss = \<bar>sum_list (map (\<lambda>t. min 0 (cy_net t)) trades)\<bar>
      in \<lparr>cs_completed = completed, cs_signals = signals, cs_trades = n, cs_wins = wins, cs_losses = n - wins,
          cs_win_rate = (if trades = [] then 0 else py_round (real wins / real n * 100) 2),
          cs_net = py_round (sum_list (map cy_net trades)) 10,
          cs_average_r = (if trades = [] then 0 else py_round (sum_list (map (\<lambda>t. case_option 0 id (cy_net_r t)) trades) / real n) 6),
          cs_profit_factor = (if gross_loss \<noteq> 0 then Factor (py_round (gross_profit / gross_loss) 4)
            else if gross_profit = 0 then NoFactor else InfiniteFactor)\<rparr>)"

definition run_pullback_backtest ::
  "(signal_candidate \<Rightarrow> string) \<Rightarrow> (real \<Rightarrow> series \<Rightarrow> series) \<Rightarrow> market_candle list \<Rightarrow> pullback_config \<Rightarrow> (crypto_summary \<times> crypto_trade list) res" where
  "run_pullback_backtest sid ewm candles c =
     rbind (candle_frame ewm candles c) (\<lambda>f.
     rbind (generate_signals f c) (\<lambda>candidates.
       let trades = snd (foldl (trade_step sid c (cf_rows f)) (-1, []) candidates)
       in Inr (crypto_summary_of (length (cf_rows f)) (length candidates) trades, trades)))"

section \<open>Causality\<close>

definition take_frame :: "nat \<Rightarrow> crypto_frame \<Rightarrow> crypto_frame" where
  "take_frame k f = \<lparr>cf_rows = take k (cf_rows f), cf_rsi = take k (cf_rsi f), cf_fast = take k (cf_fast f), cf_slow = take k (cf_slow f),
     cf_atr = take k (cf_atr f), cf_rvol = take k (cf_rvol f), cf_vwap = take k (cf_vwap f)\<rparr>"

lemma crypto_rvol_take: "crypto_rvol (take k rows) n = take k (crypto_rvol rows n)"
  unfolding crypto_rvol_def by (rule map_upt_take) (simp add: prior_volume_def min_def)

context causal_smoother
begin

lemma crypto_rsi_take: "crypto_rsi ewm (take k xs) n = take k (crypto_rsi ewm xs n)"
  by (simp add: crypto_rsi_def Let_def diff_from_take take_map [symmetric] ewm_take min_periods_take take_zip [symmetric])

lemma frame_of_take: "frame_of ewm c (take k rows) = take_frame k (frame_of ewm c rows)"
  by (simp add: frame_of_def take_frame_def Let_def crypto_rsi_take crypto_rvol_take crypto_atr_def ewm_take min_periods_take flip: take_map)

end

lemma take_frame_simps [simp]:
  "cf_rows (take_frame k f) = take k (cf_rows f)" "cf_rsi (take_frame k f) = take k (cf_rsi f)" "cf_fast (take_frame k f) = take k (cf_fast f)"
  "cf_slow (take_frame k f) = take k (cf_slow f)" "cf_atr (take_frame k f) = take k (cf_atr f)" "cf_rvol (take_frame k f) = take k (cf_rvol f)"
  "cf_vwap (take_frame k f) = take k (cf_vwap f)"
  by (simp_all add: take_frame_def)

lemma signal_step_take: "i < k \<Longrightarrow> signal_step c (take_frame k f) s i = signal_step c f s i"
proof -
  assume i: "i < k"
  then have "candidate_of c (take_frame k f) i = candidate_of c f i"
    "buy_structure (take_frame k f) i = buy_structure f i" "sell_structure (take_frame k f) i = sell_structure f i"
    "cf_rows (take_frame k f) ! i = cf_rows f ! i"
    by (simp_all add: fun_eq_iff candidate_of_def buy_structure_def sell_structure_def less_imp_diff_less)
  then have "signal_at c (take_frame k f) i = signal_at c f i" unfolding signal_at_def by presburger
  with i show ?thesis by (simp add: signal_step_def less_imp_diff_less split: option.split)
qed

lemma scan_frame_take: "scan_frame c (take_frame k f) k = scan_frame c f k"
  unfolding scan_frame_def by (rule foldl_cong) (auto simp: signal_step_take)

section \<open>What a signal rests on\<close>

text \<open>An arm remembers a bar up to \<open>i\<close> whose RSI lay in the band; it is fresh if that is not too long ago.\<close>

definition arm_of :: "crypto_frame \<Rightarrow> real \<Rightarrow> real \<Rightarrow> nat \<Rightarrow> setup_arm \<Rightarrow> bool" where
  "arm_of f low high i a \<longleftrightarrow> ar_index a \<le> i \<and> cf_rsi f ! ar_index a = Some (ar_rsi a) \<and> low \<le> ar_rsi a \<and> ar_rsi a \<le> high
     \<and> ar_at a = ca_at (cf_rows f ! ar_index a)"

definition arms_ok :: "pullback_config \<Rightarrow> crypto_frame \<Rightarrow> nat \<Rightarrow> signal_scan \<Rightarrow> bool" where
  "arms_ok c f i s \<longleftrightarrow> pred_option (arm_of f (pb_buy_arm_low c) (pb_buy_arm_high c) i) (sn_buy s)
     \<and> pred_option (arm_of f (pb_sell_arm_low c) (pb_sell_arm_high c) i) (sn_sell s)"

definition fresh_arm :: "pullback_config \<Rightarrow> nat \<Rightarrow> setup_arm \<Rightarrow> bool" where
  "fresh_arm c i a \<longleftrightarrow> int i - int (ar_index a) \<le> pb_setup_expiry_bars c"

definition buy_setup :: "pullback_config \<Rightarrow> crypto_frame \<Rightarrow> nat \<Rightarrow> real \<Rightarrow> real \<Rightarrow> setup_arm \<Rightarrow> bool" where
  "buy_setup c f i rsi before a \<longleftrightarrow> arm_of f (pb_buy_arm_low c) (pb_buy_arm_high c) i a \<and> fresh_arm c i a
     \<and> before \<le> pb_recovery_level c \<and> pb_recovery_level c < rsi \<and> buy_structure f i"

definition sell_setup :: "pullback_config \<Rightarrow> crypto_frame \<Rightarrow> nat \<Rightarrow> real \<Rightarrow> real \<Rightarrow> setup_arm \<Rightarrow> bool" where
  "sell_setup c f i rsi before a \<longleftrightarrow> arm_of f (pb_sell_arm_low c) (pb_sell_arm_high c) i a \<and> fresh_arm c i a
     \<and> before \<ge> pb_recovery_level c \<and> pb_recovery_level c > rsi \<and> sell_structure f i"

definition justified :: "pullback_config \<Rightarrow> crypto_frame \<Rightarrow> nat \<Rightarrow> signal_candidate \<Rightarrow> bool" where
  "justified c f i x \<longleftrightarrow> (\<exists>rsi before spread rvol vwap a. cf_rsi f ! i = Some rsi \<and> cf_rsi f ! (i - 1) = Some before \<and> cf_atr f ! i = Some spread
     \<and> cf_rvol f ! i = Some rvol \<and> cf_vwap f ! i = Some vwap \<and> pb_minimum_rvol c \<le> rvol \<and> 0 < spread * pb_stop_atr_multiplier c
     \<and> pb_side c \<in> {CBOTH, sc_side x} \<and> x = candidate_of c f i (sc_side x) rsi spread rvol vwap a
     \<and> (sc_side x = CBUY \<and> buy_setup c f i rsi before a \<or> sc_side x = CSELL \<and> sell_setup c f i rsi before a))"

lemma candidate_of_simps [simp]:
  "sc_index (candidate_of c f i side r a v w arm) = i" "sc_at (candidate_of c f i side r a v w arm) = ca_at (cf_rows f ! i)"
  "sc_side (candidate_of c f i side r a v w arm) = side" "sc_risk (candidate_of c f i side r a v w arm) = a * pb_stop_atr_multiplier c"
  by (simp_all add: candidate_of_def Let_def)

lemma justified_simps: "justified c f i x \<Longrightarrow> sc_index x = i \<and> sc_at x = ca_at (cf_rows f ! i) \<and> 0 < sc_risk x \<and> sc_side x \<noteq> CBOTH"
  unfolding justified_def by (metis candidate_of_simps crypto_side.distinct(1,3))

lemma side_signal_found:
  assumes "side_signal c build side holds arm = (arm', found)"
  shows "(found = [] \<or> (\<exists>a. arm = Some a \<and> found = [build a] \<and> 0 < sc_risk (build a) \<and> holds \<and> pb_side c \<in> {CBOTH, side})) \<and> arm' \<in> {None, arm}"
  using assms by (auto simp: side_signal_def split: option.splits if_splits)

lemma rearm_ok:
  assumes "pred_option (arm_of f low high j) arm" and "j \<le> i" and "cf_rsi f ! i = Some rsi"
  shows "pred_option (\<lambda>a. arm_of f low high i a \<and> fresh_arm c i a) (rearm low high (pb_setup_expiry_bars c) i rsi (ca_at (cf_rows f ! i)) arm)"
  using assms by (cases arm) (auto simp: rearm_def Let_def arm_of_def fresh_arm_def)

text \<open>A bar adds signals of its own that are justified, at most one, and keeps the arms right.\<close>

lemma signal_step_found:
  assumes arms: "arms_ok c f j s" and ji: "j \<le> i"
  obtains new where "sn_found (signal_step c f s i) = sn_found s @ new" "length new \<le> 1" "\<forall>x \<in> set new. justified c f i x" "arms_ok c f i (signal_step c f s i)"
proof (cases "\<exists>r p a v w. (cf_rsi f ! i, cf_rsi f ! (i - 1), cf_atr f ! i, cf_rvol f ! i, cf_vwap f ! i) = (Some r, Some p, Some a, Some v, Some w)")
  case True
  then obtain r p a v w where cols: "cf_rsi f ! i = Some r" "cf_rsi f ! (i - 1) = Some p" "cf_atr f ! i = Some a" "cf_rvol f ! i = Some v" "cf_vwap f ! i = Some w"
    by auto
  let ?at = "ca_at (cf_rows f ! i)"
  let ?buy = "rearm (pb_buy_arm_low c) (pb_buy_arm_high c) (pb_setup_expiry_bars c) i r ?at (sn_buy s)"
  let ?sell = "rearm (pb_sell_arm_low c) (pb_sell_arm_high c) (pb_setup_expiry_bars c) i r ?at (sn_sell s)"
  have armed: "pred_option (\<lambda>a. arm_of f (pb_buy_arm_low c) (pb_buy_arm_high c) i a \<and> fresh_arm c i a) ?buy"
    "pred_option (\<lambda>a. arm_of f (pb_sell_arm_low c) (pb_sell_arm_high c) i a \<and> fresh_arm c i a) ?sell"
    using rearm_ok [OF _ ji cols(1)] arms by (simp_all add: arms_ok_def)
  obtain b bought where b: "side_signal c (candidate_of c f i CBUY r a v w) CBUY ((p \<le> pb_recovery_level c \<and> pb_recovery_level c < r) \<and> v \<ge> pb_minimum_rvol c \<and> buy_structure f i)
      ?buy = (b, bought)" by fastforce
  obtain d sold where d: "side_signal c (candidate_of c f i CSELL r a v w) CSELL ((p \<ge> pb_recovery_level c \<and> pb_recovery_level c > r) \<and> v \<ge> pb_minimum_rvol c \<and> sell_structure f i)
      ?sell = (d, sold)" by fastforce
  have step: "signal_step c f s i = \<lparr>sn_buy = b, sn_sell = d, sn_found = sn_found s @ bought @ sold\<rparr>"
    using cols b d by (simp add: signal_step_def signal_at_def Let_def)
  have "\<forall>x \<in> set bought. justified c f i x \<and> pb_recovery_level c < r"
    using side_signal_found [OF b] armed(1) cols unfolding justified_def buy_setup_def by fastforce
  moreover have "\<forall>x \<in> set sold. justified c f i x \<and> r < pb_recovery_level c"
    using side_signal_found [OF d] armed(2) cols unfolding justified_def sell_setup_def by fastforce
  moreover have "length bought \<le> 1" "length sold \<le> 1" using side_signal_found [OF b] side_signal_found [OF d] by auto
  moreover have "arms_ok c f i (signal_step c f s i)"
    using armed side_signal_found [OF b] side_signal_found [OF d] by (auto simp: step arms_ok_def pred_option_def)
  ultimately show ?thesis by (intro that [of "bought @ sold"]) (cases bought; cases sold; auto simp: step)+
next
  case False
  then have "signal_step c f s i = s" by (auto simp: signal_step_def split: option.splits)
  moreover have "arms_ok c f i s" using arms ji by (auto simp: arms_ok_def pred_option_def arm_of_def)
  ultimately show ?thesis by (intro that [of "[]"]) simp_all
qed

lemma arms_ok_mono: "arms_ok c f j s \<Longrightarrow> j \<le> i \<Longrightarrow> arms_ok c f i s"
  by (auto simp: arms_ok_def pred_option_def arm_of_def)

lemma steps_found:
  assumes "arms_ok c f j s" and "j \<le> k"
  shows "\<exists>new. sn_found (foldl (signal_step c f) s [k..<n]) = sn_found s @ new \<and> sorted_wrt (<) (map sc_index new)
    \<and> (\<forall>x \<in> set new. k \<le> sc_index x \<and> sc_index x < n \<and> justified c f (sc_index x) x) \<and> arms_ok c f (max j n) (foldl (signal_step c f) s [k..<n])"
proof (induction n)
  case 0
  then show ?case using assms by simp
next
  case (Suc n)
  then obtain new where IH: "sn_found (foldl (signal_step c f) s [k..<n]) = sn_found s @ new" "sorted_wrt (<) (map sc_index new)"
    "\<forall>x \<in> set new. k \<le> sc_index x \<and> sc_index x < n \<and> justified c f (sc_index x) x" "arms_ok c f (max j n) (foldl (signal_step c f) s [k..<n])" by blast
  show ?case
  proof (cases "k \<le> n")
    case True
    then have "max j n \<le> n" using assms(2) by simp
    from signal_step_found [OF IH(4) this] obtain more where more: "sn_found (signal_step c f (foldl (signal_step c f) s [k..<n]) n) = sn_found (foldl (signal_step c f) s [k..<n]) @ more"
      "length more \<le> 1" "\<forall>x \<in> set more. justified c f n x" "arms_ok c f n (signal_step c f (foldl (signal_step c f) s [k..<n]) n)" by metis
    have "\<forall>x \<in> set more. sc_index x = n" using more(3) justified_simps by blast
    moreover have "sorted_wrt (<) (map sc_index more)" using more(2) by (cases more) auto
    moreover have "arms_ok c f (max j (Suc n)) (signal_step c f (foldl (signal_step c f) s [k..<n]) n)"
      using more(4) by (auto simp: arms_ok_def pred_option_def arm_of_def)
    ultimately show ?thesis using True IH more(1,3) by (intro exI [of _ "new @ more"]) (fastforce simp: sorted_wrt_append)
  next
    case False
    then show ?thesis using assms by (intro exI [of _ "[]"]) (simp add: arms_ok_mono)
  qed
qed

lemma scan_found:
  "sorted_wrt (<) (map sc_index (sn_found (scan_frame c f n)))
    \<and> (\<forall>x \<in> set (sn_found (scan_frame c f n)). 1 \<le> sc_index x \<and> sc_index x < n \<and> justified c f (sc_index x) x) \<and> arms_ok c f n (scan_frame c f n)"
  using steps_found [of c f 0 "\<lparr>sn_buy = None, sn_sell = None, sn_found = []\<rparr>" 1 n] by (auto simp: arms_ok_def scan_frame_def)

lemma scan_prefix:
  assumes "1 \<le> k" and "k \<le> n"
  shows "sn_found (scan_frame c f k) = filter (\<lambda>x. sc_index x < k) (sn_found (scan_frame c f n))"
proof -
  have "scan_frame c f n = foldl (signal_step c f) (scan_frame c f k) [k..<n]"
    using assms upt_add_eq_append [of 1 k "n - k"] by (simp add: scan_frame_def flip: foldl_append)
  moreover obtain new where "sn_found (foldl (signal_step c f) (scan_frame c f k) [k..<n]) = sn_found (scan_frame c f k) @ new" "\<forall>x \<in> set new. k \<le> sc_index x"
    using steps_found [of c f k "scan_frame c f k" k n] scan_found by blast
  moreover have "filter (\<lambda>x. sc_index x < k) (sn_found (scan_frame c f k)) = sn_found (scan_frame c f k)"
    by (rule filter_True) (use scan_found in blast)
  ultimately show ?thesis by (auto simp: filter_empty_conv)
qed

section \<open>Rows of the frame\<close>

lemma latest_rows_set: "ca_at ` set (latest_rows xs) = ca_at ` set xs \<and> set (latest_rows xs) \<subseteq> set xs"
  by (induction xs) auto

lemma latest_rows_sorted: "sorted (map ca_at xs) \<Longrightarrow> sorted_wrt (<) (map ca_at (latest_rows xs))"
proof (induction xs)
  case (Cons x xs)
  have "\<forall>t \<in> ca_at ` set (latest_rows xs). t \<in> ca_at ` set xs" using latest_rows_set by blast
  with Cons show ?case by (force simp: order.strict_iff_order)
qed simp

lemma complete_rows_sorted: "sorted_wrt (<) (map ca_at (complete_rows candles))"
  unfolding complete_rows_def by (rule latest_rows_sorted) (simp add: candle_row_def comp_def)

lemma latest_rows_filter: "latest_rows (filter (\<lambda>x. ca_at x \<le> t) xs) = filter (\<lambda>x. ca_at x \<le> t) (latest_rows xs)"
  by (induction xs) (auto simp: image_iff)

lemma complete_rows_until:
  "complete_rows (filter (\<lambda>m. mk_open_time m \<le> t) candles) = filter (\<lambda>x. ca_at x \<le> t) (complete_rows candles)"
proof -
  have "complete_rows (filter (\<lambda>m. mk_open_time m \<le> t) candles)
      = latest_rows (map candle_row (filter (\<lambda>m. mk_open_time m \<le> t) (sort_key mk_open_time (filter mk_complete candles))))"
    by (simp add: complete_rows_def filter_sort conj_commute flip: filter_filter) (metis (mono_tags) filter_filter filter_cong conj_commute)
  also have "map candle_row (filter (\<lambda>m. mk_open_time m \<le> t) xs) = filter (\<lambda>x. ca_at x \<le> t) (map candle_row xs)" for xs
    by (simp add: filter_map comp_def candle_row_def)
  finally show ?thesis by (simp add: latest_rows_filter complete_rows_def)
qed

lemma sorted_filter_none: "sorted_wrt (<) (map ca_at (x # xs)) \<Longrightarrow> \<not> ca_at x \<le> t \<Longrightarrow> filter (\<lambda>x. ca_at x \<le> t) xs = []"
  by (force simp: filter_empty_conv)

lemma sorted_filter_take:
  "sorted_wrt (<) (map ca_at xs) \<Longrightarrow> filter (\<lambda>x. ca_at x \<le> t) xs = take (length (filter (\<lambda>x. ca_at x \<le> t) xs)) xs"
proof (induction xs)
  case (Cons x xs)
  then show ?case using sorted_filter_none [OF Cons.prems, of t] by auto
qed simp

lemma sorted_filter_index:
  "sorted_wrt (<) (map ca_at xs) \<Longrightarrow> i < length xs \<Longrightarrow> ca_at (xs ! i) \<le> t \<longleftrightarrow> i < length (filter (\<lambda>x. ca_at x \<le> t) xs)"
proof (induction xs arbitrary: i)
  case (Cons x xs)
  show ?case
  proof (cases "ca_at x \<le> t")
    case True
    with Cons show ?thesis by (cases i) auto
  next
    case False
    have "\<forall>y \<in> set (x # xs). \<not> ca_at y \<le> t" using Cons.prems(1) False by force
    then show ?thesis using Cons.prems(2) by (metis (mono_tags, lifting) filter_False list.size(3) not_less_zero nth_mem)
  qed
qed simp


definition demo_crypto_config :: pullback_config where
  "demo_crypto_config = default_pullback\<lparr>pb_rsi_length := 2, pb_ema_fast := 1, pb_ema_slow := 2, pb_atr_length := 2, pb_volume_period := 2\<rparr>"

definition demo_market_candle :: "int \<Rightarrow> market_candle" where
  "demo_market_candle i = \<lparr>mk_provider = ''OKX'', mk_symbol = ''BTC-USDT'', mk_timeframe = ''5m'', mk_open_time = i * 300000000,
     mk_close_time = (i + 1) * 300000000, mk_open = 100, mk_high = 102, mk_low = 99, mk_close = 101, mk_base_volume = 5, mk_quote_volume = None, mk_complete = True\<rparr>"

lemma demo_crypto_frames:
  "pullback_validate demo_crypto_config = Inr demo_crypto_config"
  "length (complete_rows (map demo_market_candle [0, 1, 2, 3])) = 4"
  "filter (\<lambda>m. mk_open_time m \<le> 900000000) (map demo_market_candle [0, 1, 2, 3, 4]) = map demo_market_candle [0, 1, 2, 3]"
  by (simp_all add: pullback_validate_def demo_crypto_config_def default_pullback_def complete_rows_def demo_market_candle_def candle_row_def)


section \<open>Trades\<close>

text \<open>What an exit is: no level was touched on the bars between, and the exit bar is the first that touches one, the stop before the target, or the last bar of the holding period.\<close>

definition untouched :: "pullback_config \<Rightarrow> signal_candidate \<Rightarrow> candle list \<Rightarrow> nat \<Rightarrow> nat \<Rightarrow> bool" where
  "untouched c s rows e m \<longleftrightarrow> (let (entry, stop, target) = trade_levels c s (ca_open (rows ! e))
     in \<not> stop_hit (sc_side s) stop (rows ! m) \<and> \<not> target_hit (sc_side s) target (rows ! m))"

definition exit_right :: "pullback_config \<Rightarrow> signal_candidate \<Rightarrow> candle list \<Rightarrow> nat \<Rightarrow> nat \<Rightarrow> trade_outcome \<Rightarrow> bool" where
  "exit_right c s rows e x outcome \<longleftrightarrow> e \<le> x \<and> x \<le> last_bar c rows e \<and> (\<forall>m. e < m \<and> m < x \<longrightarrow> untouched c s rows e m)
     \<and> (let (entry, stop, target) = trade_levels c s (ca_open (rows ! e)) in case outcome of
          STOP \<Rightarrow> e < x \<and> stop_hit (sc_side s) stop (rows ! x)
        | TARGET \<Rightarrow> e < x \<and> target_hit (sc_side s) target (rows ! x) \<and> \<not> stop_hit (sc_side s) stop (rows ! x)
        | TIME_EXIT \<Rightarrow> x = last_bar c rows e \<and> (e < x \<longrightarrow> untouched c s rows e x))"

lemma find_exit_spec:
  "case find_exit side stop target rows [a..<b] of
     None \<Rightarrow> \<forall>m. a \<le> m \<and> m < b \<longrightarrow> \<not> stop_hit side stop (rows ! m) \<and> \<not> target_hit side target (rows ! m)
   | Some (i, outcome) \<Rightarrow> a \<le> i \<and> i < b \<and> (\<forall>m. a \<le> m \<and> m < i \<longrightarrow> \<not> stop_hit side stop (rows ! m) \<and> \<not> target_hit side target (rows ! m))
       \<and> (outcome = STOP \<and> stop_hit side stop (rows ! i) \<or> outcome = TARGET \<and> \<not> stop_hit side stop (rows ! i) \<and> target_hit side target (rows ! i))"
proof (induction "b - a" arbitrary: a)
  case (Suc n)
  then have ab: "[a..<b] = a # [Suc a..<b]" by (simp add: upt_conv_Cons)
  have IH: "case find_exit side stop target rows [Suc a..<b] of
     None \<Rightarrow> \<forall>m. Suc a \<le> m \<and> m < b \<longrightarrow> \<not> stop_hit side stop (rows ! m) \<and> \<not> target_hit side target (rows ! m)
   | Some (i, outcome) \<Rightarrow> Suc a \<le> i \<and> i < b \<and> (\<forall>m. Suc a \<le> m \<and> m < i \<longrightarrow> \<not> stop_hit side stop (rows ! m) \<and> \<not> target_hit side target (rows ! m))
       \<and> (outcome = STOP \<and> stop_hit side stop (rows ! i) \<or> outcome = TARGET \<and> \<not> stop_hit side stop (rows ! i) \<and> target_hit side target (rows ! i))"
    using Suc by (intro Suc.hyps(1)) simp
  have step: "a \<le> m \<Longrightarrow> m = a \<or> Suc a \<le> m" for m by linarith
  show ?case unfolding ab using IH Suc.hyps(2) by (auto split: option.splits dest!: step)
qed auto

lemma exit_of_right:
  assumes "e < length rows" and "exit_of c s rows e = (x, raw, outcome)"
  shows "exit_right c s rows e x outcome" and "x < length rows" and "x \<le> e + nat (pb_maximum_holding_bars c)"
proof -
  obtain entry stop target where l: "trade_levels c s (ca_open (rows ! e)) = (entry, stop, target)" by (cases "trade_levels c s (ca_open (rows ! e))")
  have e: "e \<le> last_bar c rows e" "last_bar c rows e < length rows" "last_bar c rows e \<le> e + nat (pb_maximum_holding_bars c)" using assms(1) by (auto simp: last_bar_def)
  define found where "found = find_exit (sc_side s) stop target rows [e + 1..<last_bar c rows e + 1]"
  note spec = find_exit_spec [where side = "sc_side s" and stop = stop and target = target and rows = rows and a = "e + 1" and b = "last_bar c rows e + 1", folded found_def]
  have out: "(x, outcome) = (case found of None \<Rightarrow> (last_bar c rows e, TIME_EXIT) | Some r \<Rightarrow> r)"
    using assms(2) unfolding exit_of_def l Let_def prod.case found_def [symmetric] by (auto split: option.splits)
  show right: "exit_right c s rows e x outcome"
    using out spec e l by (cases found) (auto simp: exit_right_def untouched_def)
  then have "x \<le> last_bar c rows e" by (simp add: exit_right_def)
  then show "x < length rows" "x \<le> e + nat (pb_maximum_holding_bars c)" using e by simp_all
qed

text \<open>The trades of a prefix of the signals follow a plan: the signal, its entry and its exit bar.\<close>

type_synonym plan = "(signal_candidate \<times> nat \<times> nat) list"

definition plan_item_ok :: "pullback_config \<Rightarrow> candle list \<Rightarrow> signal_candidate list \<Rightarrow> signal_candidate \<times> nat \<times> nat \<Rightarrow> bool" where
  "plan_item_ok c rows ss p \<longleftrightarrow> (case p of (s, e, x) \<Rightarrow> s \<in> set ss \<and> e = sc_index s + 1 \<and> x < length rows \<and> x \<le> e + nat (pb_maximum_holding_bars c)
     \<and> fst (exit_of c s rows e) = x \<and> exit_right c s rows e x (snd (snd (exit_of c s rows e))))"

definition plan_covers :: "plan \<Rightarrow> candle list \<Rightarrow> signal_candidate \<Rightarrow> bool" where
  "plan_covers plan rows s \<longleftrightarrow> sc_index s + 1 = length rows
     \<or> (\<exists>(s', e, x) \<in> set plan. s' = s \<or> e \<le> sc_index s + 1 \<and> sc_index s + 1 \<le> x)"

definition plan_end :: "plan \<Rightarrow> int" where
  "plan_end plan = (if plan = [] then - 1 else int (snd (snd (last plan))))"

lemma trades_follow_plan:
  assumes "sorted_wrt (<) (map sc_index ss)" and "\<forall>s \<in> set ss. sc_index s < length rows"
  shows "\<exists>plan. foldl (trade_step sid c rows) (-1, []) ss = (plan_end plan, map (\<lambda>(s, e, x). trade_of sid c s rows e) plan)
    \<and> sorted_wrt (\<lambda>(_, _, x) (_, e, _). x < e) plan \<and> (\<forall>p \<in> set plan. plan_item_ok c rows ss p) \<and> (\<forall>s \<in> set ss. plan_covers plan rows s)"
  using assms
proof (induction ss rule: rev_induct)
  case Nil
  then show ?case by (intro exI [of _ "[]"]) (simp add: plan_end_def)
next
  case (snoc s ss)
  then obtain plan where IH: "foldl (trade_step sid c rows) (-1, []) ss = (plan_end plan, map (\<lambda>(s, e, x). trade_of sid c s rows e) plan)"
    "sorted_wrt (\<lambda>(_, _, x) (_, e, _). x < e) plan" "\<forall>p \<in> set plan. plan_item_ok c rows ss p" "\<forall>s \<in> set ss. plan_covers plan rows s"
    by (auto simp: sorted_wrt_append)
  have older: "sc_index s' < sc_index s" if "s' \<in> set ss" for s' using snoc.prems(1) that by (auto simp: sorted_wrt_append)
  have mono: "plan_item_ok c rows (ss @ [s]) p" if "plan_item_ok c rows ss p" for p using that by (auto simp: plan_item_ok_def)
  let ?e = "sc_index s + 1"
  show ?case
  proof (cases "?e \<ge> length rows \<or> int ?e \<le> plan_end plan")
    case True
    have "plan_covers plan rows s"
    proof (cases "?e \<ge> length rows")
      case True
      then show ?thesis using snoc.prems(2) by (auto simp: plan_covers_def)
    next
      case False
      with True obtain s' e x where l: "plan \<noteq> []" "last plan = (s', e, x)" "?e \<le> x" by (cases "last plan") (auto simp: plan_end_def split: if_splits)
      then have m: "(s', e, x) \<in> set plan" by (metis last_in_set)
      with IH(3) have "plan_item_ok c rows ss (s', e, x)" by blast
      then have "s' \<in> set ss" "e = sc_index s' + 1" by (simp_all add: plan_item_ok_def)
      then have "e \<le> ?e" using older by (simp add: less_imp_le)
      with m l(3) show ?thesis by (auto simp: plan_covers_def)
    qed
    moreover have "trade_step sid c rows (plan_end plan, ts) s = (plan_end plan, ts)" for ts using True by (auto simp: trade_step_def)
    ultimately show ?thesis using IH mono by (intro exI [of _ plan]) auto
  next
    case False
    obtain x raw outcome where x: "exit_of c s rows ?e = (x, raw, outcome)" by (cases "exit_of c s rows ?e")
    have e: "?e < length rows" using False by simp
    have ok: "plan_item_ok c rows (ss @ [s]) (s, ?e, x)" using exit_of_right [OF e x] x by (simp add: plan_item_ok_def)
    have "sorted_wrt (\<lambda>(_, _, x) (_, e, _). x < e) (plan @ [(s, ?e, x)])"
    proof -
      have "x' < ?e" if here: "(s', e', x') \<in> set plan" for s' e' x'
      proof -
        obtain front l where p: "plan = front @ [l]" using here by (cases plan rule: rev_cases) auto
        then have "snd (snd l) < ?e" using False by (simp add: plan_end_def)
        moreover have "x' \<le> snd (snd l)"
        proof (cases "(s', e', x') = l")
          case True
          then show ?thesis by (metis order_refl snd_conv)
        next
          case False
          then have "x' < fst (snd l)" using here IH(2) p by (cases l) (fastforce simp: sorted_wrt_append)
          moreover have "fst (snd l) \<le> snd (snd l)" using IH(3) p by (auto simp: plan_item_ok_def exit_right_def split: prod.splits)
          ultimately show ?thesis by simp
        qed
        ultimately show ?thesis by simp
      qed
      with IH(2) show ?thesis by (auto simp: sorted_wrt_append)
    qed
    moreover have "plan_covers (plan @ [(s, ?e, x)]) rows s'" if "s' \<in> set (ss @ [s])" for s'
      using that IH(4) by (auto simp: plan_covers_def)
    moreover have "trade_step sid c rows (plan_end plan, ts) s = (plan_end (plan @ [(s, ?e, x)]), ts @ [trade_of sid c s rows ?e])" for ts
      using False x by (simp add: trade_step_def plan_end_def)
    ultimately show ?thesis using IH(1,3) mono ok by (intro exI [of _ "plan @ [(s, ?e, x)]"]) auto
  qed
qed



text \<open>
  The profit factor of a backtest is infinite exactly when it has a profit and no loss; the response of the
  code then holds a float that JSON cannot carry.
\<close>

lemma sum_min_zero: "sum_list (map (\<lambda>t. min 0 (f t)) xs) = (0 :: real) \<longleftrightarrow> (\<forall>t \<in> set xs. 0 \<le> f t)"
proof -
  have "sum_list (map (\<lambda>t. - min 0 (f t)) xs) = 0 \<longleftrightarrow> (\<forall>t \<in> set xs. - min 0 (f t) = 0)" by (subst sum_list_nonneg_eq_0_iff) auto
  moreover have "sum_list (map (\<lambda>t. - min 0 (f t)) xs) = - sum_list (map (\<lambda>t. min 0 (f t)) xs)" by (induction xs) auto
  ultimately show ?thesis by (auto simp: min_def split: if_splits)
qed

lemma sum_max_zero: "sum_list (map (\<lambda>t. max 0 (f t)) xs) = (0 :: real) \<longleftrightarrow> (\<forall>t \<in> set xs. f t \<le> 0)"
proof -
  have "max 0 (f t) = 0 \<longleftrightarrow> f t \<le> 0" for t by (simp add: max_def)
  then show ?thesis by (subst sum_list_nonneg_eq_0_iff) auto
qed

theorem infinite_profit_factor:
  "cs_profit_factor (crypto_summary_of n m trades) = InfiniteFactor \<longleftrightarrow> (\<forall>t \<in> set trades. 0 \<le> cy_net t) \<and> (\<exists>t \<in> set trades. 0 < cy_net t)"
  by (auto simp: crypto_summary_of_def Let_def sum_min_zero sum_max_zero not_le)

end
