(* ===== verification/Crypto_Market.thy ===== *)
theory Crypto_Market
  imports Crypto_Strategy Walk_Forward "HOL-Library.List_Lexorder" "HOL-Library.Char_ord" "HOL-Library.Product_Lexorder"
begin

text \<open>
  \<open>backend/markets/crypto/engine.py\<close> with the instruments and candles of \<open>backend/markets/common.py\<close>: the
  SQLite tables of the crypto market as lists of rows, the statements of \<open>CryptoMarketRepository\<close>, and
  \<open>CryptoMarketService\<close>, which synchronises candles, runs backtests and scans for signals. Every
  statement commits on its own, so an exception comes with the tables it leaves behind.
\<close>

section \<open>Instruments and candles\<close>

record market_instrument =
  mi_id :: string
  mi_provider :: string
  mi_symbol :: string
  mi_display :: string
  mi_market :: string
  mi_type :: string
  mi_base :: string
  mi_quote :: string
  mi_tick_size :: string
  mi_quantity_step :: string
  mi_minimum_quantity :: string
  mi_minimum_notional :: string
  mi_multiplier :: string
  mi_active :: bool
  mi_backtest_enabled :: bool
  mi_signals_enabled :: bool

definition normalize_provider :: "string \<Rightarrow> string res" where
  "normalize_provider s =
     (let provider = py_upper (py_strip s)
      in if provider \<notin> {''OKX'', ''VALR''} then Inl (ValueError ''Provider must be OKX or VALR'') else Inr provider)"

definition normalize_provider_symbol :: "string \<Rightarrow> string res" where
  "normalize_provider_symbol s =
     (let symbol = py_upper (py_strip s)
      in if symbol = [] \<or> length symbol > 80 then Inl (ValueError ''Instrument symbol is required'')
         else if list_ex (\<lambda>ch. ch \<notin> set ''ABCDEFGHIJKLMNOPQRSTUVWXYZ0123456789-_.'') symbol
         then Inl (ValueError ''Instrument symbol contains unsupported characters'')
         else Inr symbol)"

definition classify_market :: "string \<Rightarrow> string" where
  "classify_market base = (if py_upper (py_strip base) \<in> {''XAU'', ''XAG''} then ''METAL'' else ''CRYPTO'')"

definition instrument_identifier :: "(string \<Rightarrow> string) \<Rightarrow> string \<Rightarrow> string \<Rightarrow> string res" where
  "instrument_identifier sha provider symbol =
     rbind (normalize_provider provider) (\<lambda>p. rbind (normalize_provider_symbol symbol) (\<lambda>s.
       Inr (''INS-'' @ py_upper (take 20 (sha (p @ ''|'' @ s))))))"

definition ends_with :: "string \<Rightarrow> string \<Rightarrow> bool" where
  "ends_with s suffix \<longleftrightarrow> take (length suffix) (rev s) = rev suffix"

definition display_symbol :: "string \<Rightarrow> string \<Rightarrow> string res" where
  "display_symbol provider_symbol instrument_type =
     rbind (normalize_provider_symbol provider_symbol) (\<lambda>s.
       let normalized = (if ends_with s ''-SWAP'' then take (length s - 5) s @ ''PERP'' else s);
           v = filter (\<lambda>ch. ch \<noteq> CHR ''-'') normalized
       in Inr (if instrument_type = ''SPOT'' \<or> ends_with v ''PERP'' then v else v @ ''PERP''))"

definition finite_float :: "pyval \<Rightarrow> real option res" where
  "finite_float v =
     (case py_float v of
        Inr r \<Rightarrow> Inr (if is_finite r then Some r else None)
      | Inl OverflowError \<Rightarrow> Inl OverflowError
      | Inl _ \<Rightarrow> Inr None)"

definition candle_check :: "market_candle \<Rightarrow> market_candle res" where
  "candle_check m =
     (if map_of TIMEFRAME_SECONDS (mk_timeframe m) = None then Inl (ValueError ''Unsupported candle timeframe'')
      else if mk_close_time m \<le> mk_open_time m then Inl (ValueError ''Candle close time must be after open time'')
      else if list_ex (\<lambda>x. \<not> is_finite x) [mk_open m, mk_high m, mk_low m, mk_close m, mk_base_volume m] then Inl (ValueError ''Candle values must be finite'')
      else if mk_low m > min (mk_open m) (mk_close m) \<or> mk_high m < max (mk_open m) (mk_close m) then Inl (ValueError ''Candle OHLC values are inconsistent'')
      else if mk_low m > mk_high m \<or> mk_base_volume m < 0 then Inl (ValueError ''Candle range or volume is invalid'')
      else Inr m)"

definition candle_build ::
  "string \<Rightarrow> string \<Rightarrow> string \<Rightarrow> timestamp \<Rightarrow> pyval list \<Rightarrow> pyval \<Rightarrow> bool \<Rightarrow> market_candle res" where
  "candle_build provider symbol timeframe open_time ohlcv quote_volume finished =
     (case map_of TIMEFRAME_SECONDS timeframe of
        None \<Rightarrow> Inl (ValueError ''Unsupported candle timeframe'')
      | Some seconds \<Rightarrow>
          rbind (rmap_list finite_float ohlcv) (\<lambda>numbers.
            case numbers of
              [Some o', Some h, Some l, Some cl, Some v] \<Rightarrow>
                rbind (normalize_provider provider) (\<lambda>p. rbind (normalize_provider_symbol symbol) (\<lambda>s. rbind (finite_float quote_volume) (\<lambda>q.
                  candle_check \<lparr>mk_provider = p, mk_symbol = s, mk_timeframe = timeframe, mk_open_time = open_time,
                    mk_close_time = open_time + seconds * 1000000, mk_open = o', mk_high = h, mk_low = l, mk_close = cl, mk_base_volume = v,
                    mk_quote_volume = q, mk_complete = finished\<rparr>)))
            | _ \<Rightarrow> Inl (ValueError ''Candle contains a non-numeric OHLCV value'')))"

section \<open>Tables\<close>

datatype market_error = Raised py_error | ProviderError string | IntegrityError string

record instrument_row =
  ir_instrument :: market_instrument
  ir_created :: timestamp
  ir_updated :: timestamp

record signal_payload =
  py_signal_id :: string
  py_instrument :: market_instrument
  py_timeframe :: string
  py_side :: crypto_side
  py_signal_at :: timestamp
  py_signal_price :: real
  py_stop_price :: real
  py_target_price :: real
  py_risk :: real
  py_rsi :: real
  py_arm_rsi :: real
  py_arm_at :: timestamp
  py_rvol :: real
  py_atr :: real
  py_ema_fast :: "real option"
  py_ema_slow :: "real option"
  py_vwap :: real
  py_created :: timestamp

record backtest_row =
  br_run :: string
  br_instrument_id :: string
  br_timeframe :: string
  br_started :: timestamp
  br_completed :: timestamp
  br_config :: pullback_config
  br_summary :: crypto_summary

record crypto_db =
  cd_instruments :: "instrument_row list"
  cd_candles :: "market_candle list"
  cd_signals :: "signal_payload list"
  cd_runs :: "backtest_row list"

type_synonym 'a market_res = "(market_error \<times> crypto_db) + ('a \<times> crypto_db)"

definition lift_res :: "crypto_db \<Rightarrow> 'a res \<Rightarrow> 'a market_res" where
  "lift_res db r = (case r of Inl e \<Rightarrow> Inl (Raised e, db) | Inr x \<Rightarrow> Inr (x, db))"

definition same_listing :: "market_instrument \<Rightarrow> market_instrument \<Rightarrow> bool" where
  "same_listing a b \<longleftrightarrow> mi_provider a = mi_provider b \<and> mi_symbol a = mi_symbol b"

text \<open>\<open>ON CONFLICT(provider, provider_symbol) DO UPDATE\<close>: the row keeps its key, its listing and the moment it was created.\<close>

definition update_listing :: "market_instrument \<Rightarrow> timestamp \<Rightarrow> instrument_row \<Rightarrow> instrument_row" where
  "update_listing x now row =
     (if same_listing (ir_instrument row) x
      then row\<lparr>ir_instrument := x\<lparr>mi_id := mi_id (ir_instrument row)\<rparr>, ir_updated := now\<rparr>
      else row)"

definition save_instrument :: "timestamp \<Rightarrow> market_instrument \<Rightarrow> crypto_db \<Rightarrow> market_instrument market_res" where
  "save_instrument now x db =
     (if list_ex (\<lambda>row. same_listing (ir_instrument row) x) (cd_instruments db)
      then Inr (x, db\<lparr>cd_instruments := map (update_listing x now) (cd_instruments db)\<rparr>)
      else if list_ex (\<lambda>row. mi_id (ir_instrument row) = mi_id x) (cd_instruments db) then Inl (IntegrityError ''market_instruments.instrument_id'', db)
      else Inr (x, db\<lparr>cd_instruments := cd_instruments db @ [\<lparr>ir_instrument = x, ir_created = now, ir_updated = now\<rparr>]\<rparr>))"

text \<open>\<open>from_row\<close> normalises provider and symbol once more.\<close>

definition instrument_of_row :: "instrument_row \<Rightarrow> market_instrument res" where
  "instrument_of_row row =
     (let x = ir_instrument row
      in rbind (normalize_provider (mi_provider x)) (\<lambda>p. rbind (normalize_provider_symbol (mi_symbol x)) (\<lambda>s. Inr (x\<lparr>mi_provider := p, mi_symbol := s\<rparr>))))"

definition list_instruments :: "crypto_db \<Rightarrow> market_instrument list res" where
  "list_instruments db =
     rmap_list instrument_of_row (sort_key (\<lambda>row. (mi_market (ir_instrument row), mi_display (ir_instrument row), mi_provider (ir_instrument row))) (cd_instruments db))"

definition get_instrument :: "crypto_db \<Rightarrow> string \<Rightarrow> market_instrument res" where
  "get_instrument db i =
     (case List.find (\<lambda>row. mi_id (ir_instrument row) = i) (cd_instruments db) of
        None \<Rightarrow> Inl (KeyError i) | Some row \<Rightarrow> instrument_of_row row)"

definition disabled :: "timestamp \<Rightarrow> instrument_row \<Rightarrow> instrument_row" where
  "disabled now row = row\<lparr>ir_instrument := (ir_instrument row)\<lparr>mi_active := False, mi_backtest_enabled := False, mi_signals_enabled := False\<rparr>, ir_updated := now\<rparr>"

text \<open>An instrument with signals or runs is only switched off.\<close>

definition delete_instrument :: "timestamp \<Rightarrow> string \<Rightarrow> crypto_db \<Rightarrow> bool \<times> crypto_db" where
  "delete_instrument now i db =
     (if \<not> list_ex (\<lambda>row. mi_id (ir_instrument row) = i) (cd_instruments db) then (False, db)
      else if list_ex (\<lambda>g. mi_id (py_instrument g) = i) (cd_signals db) \<or> list_ex (\<lambda>r. br_instrument_id r = i) (cd_runs db)
      then (True, db\<lparr>cd_instruments := map (\<lambda>row. if mi_id (ir_instrument row) = i then disabled now row else row) (cd_instruments db)\<rparr>)
      else (True, db\<lparr>cd_instruments := filter (\<lambda>row. mi_id (ir_instrument row) \<noteq> i) (cd_instruments db)\<rparr>))"

definition candle_key :: "market_candle \<Rightarrow> string \<times> string \<times> string \<times> timestamp" where
  "candle_key m = (mk_provider m, mk_symbol m, mk_timeframe m, mk_open_time m)"

definition upsert_candle :: "market_candle list \<Rightarrow> market_candle \<Rightarrow> market_candle list" where
  "upsert_candle rows m =
     (if list_ex (\<lambda>r. candle_key r = candle_key m) rows then map (\<lambda>r. if candle_key r = candle_key m then m else r) rows else rows @ [m])"

definition save_candles :: "market_candle list \<Rightarrow> crypto_db \<Rightarrow> crypto_db" where
  "save_candles candles db = db\<lparr>cd_candles := foldl upsert_candle (cd_candles db) candles\<rparr>"

text \<open>
  Moments are compared as ISO texts: a whole second prints without a fraction, and its \<open>Z\<close> sorts after the
  point of any fraction of that second.
\<close>

definition iso_key :: "timestamp \<Rightarrow> int \<times> int" where
  "iso_key t = (t div 1000000, if t mod 1000000 = 0 then 1000000 else t mod 1000000)"

definition rebuild_candle :: "market_candle \<Rightarrow> market_candle res" where
  "rebuild_candle m =
     candle_build (mk_provider m) (mk_symbol m) (mk_timeframe m) (mk_open_time m)
       (map PyFloat [mk_open m, mk_high m, mk_low m, mk_close m, mk_base_volume m]) (case_option PyNone PyFloat (mk_quote_volume m)) (mk_complete m)"

definition query_candles :: "market_instrument \<Rightarrow> string \<Rightarrow> timestamp \<Rightarrow> timestamp \<Rightarrow> crypto_db \<Rightarrow> market_candle list" where
  "query_candles x timeframe start finish db =
     sort_key (\<lambda>m. iso_key (mk_open_time m))
       (filter (\<lambda>m. mk_provider m = mi_provider x \<and> mk_symbol m = mi_symbol x \<and> mk_timeframe m = timeframe
          \<and> iso_key (mk_open_time m) \<ge> iso_key start \<and> iso_key (mk_open_time m) < iso_key finish \<and> mk_complete m) (cd_candles db))"

definition stored_candles :: "market_instrument \<Rightarrow> string \<Rightarrow> timestamp \<Rightarrow> timestamp \<Rightarrow> crypto_db \<Rightarrow> market_candle list res" where
  "stored_candles x timeframe start finish db = rmap_list rebuild_candle (query_candles x timeframe start finish db)"

text \<open>\<open>INSERT OR IGNORE\<close> on the signal id; a signal without its instrument violates the foreign key.\<close>

definition save_signal :: "signal_payload \<Rightarrow> crypto_db \<Rightarrow> bool market_res" where
  "save_signal g db =
     (if list_ex (\<lambda>r. py_signal_id r = py_signal_id g) (cd_signals db) then Inr (False, db)
      else if \<not> list_ex (\<lambda>row. mi_id (ir_instrument row) = mi_id (py_instrument g)) (cd_instruments db) then Inl (IntegrityError ''FOREIGN KEY'', db)
      else Inr (True, db\<lparr>cd_signals := cd_signals db @ [g]\<rparr>))"

definition recent_signals :: "int \<Rightarrow> crypto_db \<Rightarrow> signal_payload list" where
  "recent_signals limit db =
     take (nat (max 1 (min limit 2000))) (rev (sort_key (\<lambda>g. (iso_key (py_signal_at g), py_signal_id g)) (cd_signals db)))"

definition save_backtest :: "backtest_row \<Rightarrow> crypto_db \<Rightarrow> string market_res" where
  "save_backtest r db =
     (if list_ex (\<lambda>x. br_run x = br_run r) (cd_runs db) then Inl (IntegrityError ''crypto_backtest_runs.run_id'', db)
      else if \<not> list_ex (\<lambda>row. mi_id (ir_instrument row) = br_instrument_id r) (cd_instruments db) then Inl (IntegrityError ''FOREIGN KEY'', db)
      else Inr (br_run r, db\<lparr>cd_runs := cd_runs db @ [r]\<rparr>))"

section \<open>The service\<close>

text \<open>What the service is given: the exchange, the optional writer of canonical candles, the mean of pandas, a digest and the text of a moment.\<close>

record crypto_env =
  ce_fetch :: "market_instrument \<Rightarrow> string \<Rightarrow> timestamp \<Rightarrow> timestamp \<Rightarrow> market_error + market_candle list"
  ce_write :: "(market_instrument \<times> market_candle list \<Rightarrow> market_error option) option"
  ce_ewm :: "real \<Rightarrow> series \<Rightarrow> series"
  ce_sha :: "string \<Rightarrow> string"
  ce_stamp :: "timestamp \<Rightarrow> string"

definition MAX_INTERACTIVE_CANDLE_BARS :: int where "MAX_INTERACTIVE_CANDLE_BARS = 20000"

text \<open>Where to fetch from: nothing if the stored candles reach from the start to the end.\<close>

definition fetch_start :: "market_candle list \<Rightarrow> int \<Rightarrow> timestamp \<Rightarrow> timestamp \<Rightarrow> timestamp option" where
  "fetch_start cached bar start finish =
     (if cached \<noteq> [] \<and> mk_open_time (hd cached) \<le> start + bar
      then if mk_close_time (last cached) \<ge> finish - bar then None else Some (max start (mk_open_time (last cached) - bar))
      else Some start)"

definition write_canonical :: "crypto_env \<Rightarrow> market_instrument \<Rightarrow> market_candle list \<Rightarrow> market_error option" where
  "write_canonical env x candles = (case ce_write env of None \<Rightarrow> None | Some write \<Rightarrow> write (x, filter mk_complete candles))"

definition sync_candles :: "crypto_env \<Rightarrow> market_instrument \<Rightarrow> string \<Rightarrow> timestamp \<Rightarrow> timestamp \<Rightarrow> crypto_db \<Rightarrow> market_candle list market_res" where
  "sync_candles env x timeframe start finish db =
     (case map_of TIMEFRAME_SECONDS timeframe of
        None \<Rightarrow> Inl (Raised (ValueError ''Unsupported timeframe''), db)
      | Some seconds \<Rightarrow>
          let bar = seconds * 1000000 in
          if max 0 (finish - start) div bar > MAX_INTERACTIVE_CANDLE_BARS then Inl (Raised (ValueError ''Requested window is over the interactive limit''), db)
          else rbind (lift_res db (stored_candles x timeframe start finish db)) (\<lambda>(cached, _).
            case fetch_start cached bar start finish of
              None \<Rightarrow> Inr (cached, db)
            | Some from_time \<Rightarrow>
                (case ce_fetch env x timeframe from_time finish of
                   Inl e \<Rightarrow> Inl (e, db)
                 | Inr candles \<Rightarrow>
                     let db1 = save_candles candles db
                     in case write_canonical env x candles of
                          Some e \<Rightarrow> Inl (e, db1)
                        | None \<Rightarrow> lift_res db1 (stored_candles x timeframe start finish db1))))"

definition add_instrument :: "timestamp \<Rightarrow> (string \<Rightarrow> market_error + market_instrument list) \<Rightarrow> string \<Rightarrow> string \<Rightarrow> crypto_db \<Rightarrow> market_instrument market_res" where
  "add_instrument now catalog provider provider_symbol db =
     rbind (lift_res db (normalize_provider provider)) (\<lambda>(p, _).
     rbind (lift_res db (normalize_provider_symbol provider_symbol)) (\<lambda>(symbol, _).
       case catalog p of
         Inl e \<Rightarrow> Inl (e, db)
       | Inr items \<Rightarrow>
           (case List.find (\<lambda>x. mi_symbol x = symbol) items of
              None \<Rightarrow> Inl (Raised (ValueError ''The symbol is not an active instrument''), db)
            | Some found \<Rightarrow> save_instrument now found db)))"

text \<open>The catalogue of a provider is remembered for five minutes.\<close>

definition catalog_cached ::
  "(string \<Rightarrow> market_error + market_instrument list) \<Rightarrow> int \<Rightarrow> bool \<Rightarrow> string \<Rightarrow> (string \<times> int \<times> market_instrument list) list
     \<Rightarrow> (market_error + market_instrument list) \<times> (string \<times> int \<times> market_instrument list) list" where
  "catalog_cached instruments now force p cache =
     (case map_of cache p of
        Some (t, items) \<Rightarrow>
          if \<not> force \<and> now - t < 300 * 1000000 then (Inr items, cache)
          else (case instruments p of Inl e \<Rightarrow> (Inl e, cache) | Inr xs \<Rightarrow> (Inr xs, AList.update p (now, xs) cache))
      | None \<Rightarrow> (case instruments p of Inl e \<Rightarrow> (Inl e, cache) | Inr xs \<Rightarrow> (Inr xs, AList.update p (now, xs) cache)))"

definition contains :: "string \<Rightarrow> string \<Rightarrow> bool" where
  "contains needle s \<longleftrightarrow> list_ex (\<lambda>k. take (length needle) (drop k s) = needle) [0..<length s + 1]"

definition search_catalog :: "string \<Rightarrow> string option \<Rightarrow> int \<Rightarrow> market_instrument list \<Rightarrow> market_instrument list" where
  "search_catalog query instrument_type limit items =
     (let needle = filter (\<lambda>ch. ch \<noteq> CHR ''/'' \<and> ch \<noteq> CHR '' '') (py_upper (py_strip query));
          kind = (case instrument_type of None \<Rightarrow> None | Some k \<Rightarrow> if k = [] then None else Some (py_upper (py_strip k)));
          keep = (\<lambda>x. (needle = [] \<or> contains needle (filter (\<lambda>ch. ch \<noteq> CHR ''-'') (mi_symbol x)) \<or> contains needle (mi_display x))
            \<and> (kind = None \<or> kind = Some [] \<or> kind = Some (mi_type x)))
      in take (nat (max 1 (min limit 500))) (filter keep items))"

definition backtest :: "crypto_env \<Rightarrow> string \<Rightarrow> timestamp \<Rightarrow> timestamp \<Rightarrow> string \<Rightarrow> string \<Rightarrow> int \<Rightarrow> pullback_config \<Rightarrow> crypto_db
    \<Rightarrow> (crypto_summary \<times> crypto_trade list) market_res" where
  "backtest env run_id completed_at started_at instrument_id timeframe duration_days c db =
     (if \<not> (1 \<le> duration_days \<and> duration_days \<le> 730) then Inl (Raised (ValueError ''Duration must be between 1 and 730 days''), db)
      else rbind (lift_res db (get_instrument db instrument_id)) (\<lambda>(x, _).
        if \<not> mi_active x \<or> \<not> mi_backtest_enabled x then Inl (Raised (ValueError ''Instrument is not enabled for backtesting''), db)
        else rbind (sync_candles env x timeframe (completed_at - duration_days * DAY_US) completed_at db) (\<lambda>(candles, db1).
          rbind (lift_res db1 (rbind (pullback_validate c) (run_pullback_backtest (deterministic_signal_id (ce_sha env) (ce_stamp env) (mi_id x) timeframe) (ce_ewm env) candles)))
            (\<lambda>((summary, trades), _).
              rbind (save_backtest \<lparr>br_run = run_id, br_instrument_id = mi_id x, br_timeframe = timeframe, br_started = started_at,
                  br_completed = completed_at, br_config = c, br_summary = summary\<rparr> db1)
                (\<lambda>(_, db2). Inr ((summary, trades), db2))))))"

definition signal_payload_of :: "crypto_env \<Rightarrow> market_instrument \<Rightarrow> string \<Rightarrow> timestamp \<Rightarrow> signal_candidate \<Rightarrow> signal_payload" where
  "signal_payload_of env x timeframe now s =
     \<lparr>py_signal_id = deterministic_signal_id (ce_sha env) (ce_stamp env) (mi_id x) timeframe s, py_instrument = x, py_timeframe = timeframe,
      py_side = sc_side s, py_signal_at = sc_at s, py_signal_price = py_round (sc_price s) 10, py_stop_price = py_round (sc_stop s) 10,
      py_target_price = py_round (sc_target s) 10, py_risk = py_round (sc_risk s) 10, py_rsi = py_round (sc_rsi s) 4,
      py_arm_rsi = py_round (sc_arm_rsi s) 4, py_arm_at = sc_arm_at s, py_rvol = py_round (sc_rvol s) 4, py_atr = py_round (sc_atr s) 10,
      py_ema_fast = map_option (\<lambda>x. py_round x 10) (sc_fast s), py_ema_slow = map_option (\<lambda>x. py_round x 10) (sc_slow s),
      py_vwap = py_round (sc_vwap s) 10, py_created = now\<rparr>"

text \<open>One instrument of a scan: the latest signal, if it is at most two bars old and not stored yet.\<close>

definition scan_instrument :: "crypto_env \<Rightarrow> string \<Rightarrow> int \<Rightarrow> int \<Rightarrow> timestamp \<Rightarrow> market_instrument \<Rightarrow> crypto_db \<Rightarrow> signal_payload option market_res" where
  "scan_instrument env timeframe seconds lookback now x db =
     rbind (sync_candles env x timeframe (now - lookback * DAY_US) now db) (\<lambda>(candles, db1).
     rbind (lift_res db1 (rbind (candle_frame (ce_ewm env) candles default_pullback) (\<lambda>f. generate_signals f default_pullback))) (\<lambda>(ss, _).
       if ss = [] \<or> now - sc_at (last ss) > 2 * seconds * 1000000 then Inr (None, db1)
       else let g = signal_payload_of env x timeframe now (last ss)
            in rbind (save_signal g db1) (\<lambda>(created, db2). Inr (if created then Some g else None, db2))))"

definition scan_catches :: "market_error \<Rightarrow> bool" where
  "scan_catches e = (case e of ProviderError _ \<Rightarrow> True | Raised (ValueError _) \<Rightarrow> True | _ \<Rightarrow> False)"

fun scan_loop :: "crypto_env \<Rightarrow> string \<Rightarrow> int \<Rightarrow> int \<Rightarrow> timestamp \<Rightarrow> market_instrument list \<Rightarrow> crypto_db \<Rightarrow> (signal_payload list \<times> (string \<times> market_error) list) market_res" where
  "scan_loop env timeframe seconds lookback now [] db = Inr (([], []), db)"
| "scan_loop env timeframe seconds lookback now (x # xs) db =
     (case scan_instrument env timeframe seconds lookback now x db of
        Inl (e, db1) \<Rightarrow>
          if scan_catches e
          then rbind (scan_loop env timeframe seconds lookback now xs db1) (\<lambda>((created, errors), db2). Inr ((created, (mi_id x, e) # errors), db2))
          else Inl (e, db1)
      | Inr (found, db1) \<Rightarrow>
          rbind (scan_loop env timeframe seconds lookback now xs db1) (\<lambda>((created, errors), db2).
            Inr ((case_option created (\<lambda>g. g # created) found, errors), db2)))"

definition scan_lookback :: "int \<Rightarrow> int" where
  "scan_lookback seconds = max 5 (round_half_even (of_int seconds * 600 / 86400) + 1)"

definition scan :: "crypto_env \<Rightarrow> string \<Rightarrow> timestamp \<Rightarrow> crypto_db \<Rightarrow> (signal_payload list \<times> (string \<times> market_error) list) market_res" where
  "scan env timeframe now db =
     (case map_of TIMEFRAME_SECONDS timeframe of
        None \<Rightarrow> Inl (Raised (ValueError ''Unsupported timeframe''), db)
      | Some seconds \<Rightarrow>
          rbind (lift_res db (list_instruments db)) (\<lambda>(items, _).
            scan_loop env timeframe seconds (scan_lookback seconds) now (filter (\<lambda>x. mi_active x \<and> mi_signals_enabled x) items) db))"

text \<open>The service remembers the outcome of its latest scan; the polling thread survives every exception.\<close>

record crypto_service =
  sv_db :: crypto_db
  sv_state :: string
  sv_last_scan :: "timestamp option"
  sv_last_error :: "market_error option"

definition service_scan :: "crypto_env \<Rightarrow> string \<Rightarrow> timestamp \<Rightarrow> crypto_service \<Rightarrow> (market_error \<times> crypto_service) + (signal_payload list \<times> crypto_service)" where
  "service_scan env timeframe now s =
     (case scan env timeframe now (sv_db s) of
        Inl (e, db1) \<Rightarrow> Inl (e, s\<lparr>sv_db := db1\<rparr>)
      | Inr ((created, errors), db1) \<Rightarrow>
          Inr (created, s\<lparr>sv_db := db1, sv_last_scan := Some now, sv_last_error := (case errors of [] \<Rightarrow> None | (_, e) # _ \<Rightarrow> Some e),
            sv_state := (if errors = [] then ''READY'' else ''DEGRADED'')\<rparr>))"

definition poll_cycle :: "crypto_service \<Rightarrow> crypto_env \<times> timestamp \<Rightarrow> crypto_service" where
  "poll_cycle s input =
     (case service_scan (fst input) ''5m'' (snd input) s of
        Inl (e, s1) \<Rightarrow> s1\<lparr>sv_state := ''ERROR'', sv_last_error := Some e\<rparr>
      | Inr (_, s1) \<Rightarrow> s1)"

definition run_service :: "(crypto_env \<times> timestamp) list \<Rightarrow> crypto_service \<Rightarrow> crypto_service" where
  "run_service inputs s = (foldl poll_cycle (s\<lparr>sv_state := ''STARTING''\<rparr>) inputs)\<lparr>sv_state := ''STOPPED''\<rparr>"

definition engine_status :: "bool \<Rightarrow> crypto_service \<Rightarrow> string" where
  "engine_status running s = (if running then sv_state s else ''STOPPED'')"

section \<open>Invariants of the tables\<close>

text \<open>The tables that an operation leaves behind, whether it returns or raises.\<close>

definition left_in :: "'a market_res \<Rightarrow> crypto_db" where
  "left_in r = (case r of Inl (_, db) \<Rightarrow> db | Inr (_, db) \<Rightarrow> db)"

definition ends_in :: "(crypto_db \<Rightarrow> bool) \<Rightarrow> 'a market_res \<Rightarrow> bool" where
  "ends_in P r \<longleftrightarrow> P (left_in r)"

lemma left_in_simps [simp]: "left_in (Inl (e, db)) = db" "left_in (Inr (x, db)) = db" "left_in (lift_res db r) = db"
  by (auto simp: left_in_def lift_res_def split: sum.splits)

lemma ends_in_simps [simp]: "ends_in P (Inl (e, db)) = P db" "ends_in P (Inr (x, db)) = P db" "ends_in P (lift_res db r) = P db"
  by (simp_all add: ends_in_def)

lemma lift_res_Inr [simp]: "lift_res db r = Inr (x, db1) \<longleftrightarrow> r = Inr x \<and> db1 = db"
  by (auto simp: lift_res_def split: sum.splits)

lemma ends_in_rbind [intro!]:
  assumes "ends_in P r" and "\<And>x db. r = Inr (x, db) \<Longrightarrow> P db \<Longrightarrow> ends_in P (f (x, db))"
  shows "ends_in P (rbind r f)"
  using assms by (cases r) (auto simp: ends_in_def left_in_def)

lemma ends_in_Inr: "ends_in P r \<Longrightarrow> r = Inr (x, db) \<Longrightarrow> P db"
  by simp

text \<open>What every statement of the repository keeps, every operation of the service keeps, whatever the exchange answers.\<close>

locale market_invariant =
  fixes P :: "crypto_db \<Rightarrow> bool"
  assumes keeps_instrument: "P db \<Longrightarrow> ends_in P (save_instrument now x db)"
    and keeps_delete: "P db \<Longrightarrow> P (snd (delete_instrument now i db))"
    and keeps_candles: "P db \<Longrightarrow> P (save_candles candles db)"
    and keeps_signal: "P db \<Longrightarrow> ends_in P (save_signal g db)"
    and keeps_backtest: "P db \<Longrightarrow> ends_in P (save_backtest r db)"
begin

lemma keeps_sync: "P db \<Longrightarrow> ends_in P (sync_candles env x timeframe start finish db)"
  by (auto simp: sync_candles_def Let_def keeps_candles split: option.split sum.split)

lemma keeps_add: "P db \<Longrightarrow> ends_in P (add_instrument now catalog provider symbol db)"
  by (auto simp: add_instrument_def keeps_instrument split: option.split sum.split)

lemma keeps_test: "P db \<Longrightarrow> ends_in P (backtest env run_id completed started i timeframe days c db)"
  by (auto simp: backtest_def keeps_sync keeps_backtest)

lemma keeps_scan_instrument: "P db \<Longrightarrow> ends_in P (scan_instrument env timeframe seconds lookback now x db)"
  by (auto simp: scan_instrument_def Let_def keeps_sync keeps_signal)

lemma keeps_scan_loop: "P db \<Longrightarrow> ends_in P (scan_loop env timeframe seconds lookback now xs db)"
proof (induction xs arbitrary: db)
  case (Cons x xs)
  note one = keeps_scan_instrument [OF Cons.prems, of env timeframe seconds lookback now x]
  show ?case
  proof (cases "scan_instrument env timeframe seconds lookback now x db")
    case (Inl r)
    with one show ?thesis using Cons.IH by (cases r) auto
  next
    case (Inr r)
    with one show ?thesis using Cons.IH by (cases r) auto
  qed
qed simp

lemma keeps_scan: "P db \<Longrightarrow> ends_in P (scan env timeframe now db)"
  by (auto simp: scan_def keeps_scan_loop split: option.split)

end

abbreviation row_id :: "instrument_row \<Rightarrow> string" where
  "row_id row \<equiv> mi_id (ir_instrument row)"

abbreviation row_listing :: "instrument_row \<Rightarrow> string \<times> string" where
  "row_listing row \<equiv> (mi_provider (ir_instrument row), mi_symbol (ir_instrument row))"

text \<open>The keys of the schema are unique, and signals and runs refer to instruments that exist.\<close>

definition tables_ok :: "crypto_db \<Rightarrow> bool" where
  "tables_ok db \<longleftrightarrow> distinct (map row_id (cd_instruments db)) \<and> distinct (map row_listing (cd_instruments db))
     \<and> distinct (map candle_key (cd_candles db)) \<and> distinct (map py_signal_id (cd_signals db)) \<and> distinct (map br_run (cd_runs db))
     \<and> (\<forall>g \<in> set (cd_signals db). mi_id (py_instrument g) \<in> row_id ` set (cd_instruments db))
     \<and> (\<forall>r \<in> set (cd_runs db). br_instrument_id r \<in> row_id ` set (cd_instruments db))"

lemma update_listing_keys [simp]:
  "row_id (update_listing x now row) = row_id row" "row_listing (update_listing x now row) = row_listing row"
  by (simp_all add: update_listing_def same_listing_def)

lemma disabled_keys [simp]: "row_id (disabled now row) = row_id row" "mi_provider (ir_instrument (disabled now row)) = mi_provider (ir_instrument row)"
  "mi_symbol (ir_instrument (disabled now row)) = mi_symbol (ir_instrument row)"
  by (simp_all add: disabled_def)

lemma map_keys_id: "(\<And>x. k (f x) = k x) \<Longrightarrow> map k (map f xs) = map k xs"
  by simp

lemma known_id: "list_ex (\<lambda>row. row_id row = i) rows \<longleftrightarrow> i \<in> row_id ` set rows"
  by (auto simp: list_ex_iff)

lemma other_ids: "row_id ` set (filter (\<lambda>row. row_id row \<noteq> i) rows) = row_id ` set rows - {i}"
  by auto

lemma upsert_candle_keys: "distinct (map candle_key rows) \<Longrightarrow> distinct (map candle_key (upsert_candle rows m))"
proof -
  assume d: "distinct (map candle_key rows)"
  have "map candle_key (map (\<lambda>r. if candle_key r = candle_key m then m else r) rows) = map candle_key rows" by simp
  with d show ?thesis unfolding upsert_candle_def by (auto simp: list_ex_iff image_iff simp del: map_map)
qed

lemma upsert_candles_keys: "distinct (map candle_key rows) \<Longrightarrow> distinct (map candle_key (foldl upsert_candle rows candles))"
  by (induction candles arbitrary: rows) (simp_all add: upsert_candle_keys)

lemma save_instrument_ok: "tables_ok db \<Longrightarrow> ends_in tables_ok (save_instrument now x db)"
proof -
  assume ok: "tables_ok db"
  have keys: "map row_id (map (update_listing x now) (cd_instruments db)) = map row_id (cd_instruments db)"
    "map row_listing (map (update_listing x now) (cd_instruments db)) = map row_listing (cd_instruments db)" by simp_all
  then have ids: "row_id ` set (map (update_listing x now) (cd_instruments db)) = row_id ` set (cd_instruments db)" by (metis image_set)
  consider (upd) "list_ex (\<lambda>row. same_listing (ir_instrument row) x) (cd_instruments db)"
    | (new) "\<not> list_ex (\<lambda>row. same_listing (ir_instrument row) x) (cd_instruments db)" by blast
  then show ?thesis
  proof cases
    case upd
    then show ?thesis using ok keys ids unfolding save_instrument_def tables_ok_def by (simp del: map_map set_map)
  next
    case new
    then show ?thesis using ok by (auto simp: save_instrument_def tables_ok_def list_ex_iff same_listing_def)
  qed
qed

lemma delete_instrument_ok: "tables_ok db \<Longrightarrow> tables_ok (snd (delete_instrument now i db))"
proof -
  assume ok: "tables_ok db"
  let ?off = "map (\<lambda>row. if row_id row = i then disabled now row else row) (cd_instruments db)"
  have keys: "map row_id ?off = map row_id (cd_instruments db)" "map row_listing ?off = map row_listing (cd_instruments db)" by simp_all
  then have ids: "row_id ` set ?off = row_id ` set (cd_instruments db)" by (metis image_set)
  consider (none) "\<not> list_ex (\<lambda>row. row_id row = i) (cd_instruments db)"
    | (kept) "list_ex (\<lambda>row. row_id row = i) (cd_instruments db)" "list_ex (\<lambda>g. mi_id (py_instrument g) = i) (cd_signals db) \<or> list_ex (\<lambda>r. br_instrument_id r = i) (cd_runs db)"
    | (gone) "list_ex (\<lambda>row. row_id row = i) (cd_instruments db)" "\<not> (list_ex (\<lambda>g. mi_id (py_instrument g) = i) (cd_signals db) \<or> list_ex (\<lambda>r. br_instrument_id r = i) (cd_runs db))" by blast
  then show ?thesis
  proof cases
    case kept
    then show ?thesis using ok keys ids unfolding delete_instrument_def tables_ok_def by (simp del: map_map set_map)
  next
    case gone
    then show ?thesis using ok unfolding delete_instrument_def tables_ok_def known_id
      by (simp add: other_ids distinct_map_filter Ball_set [symmetric] list_ex_iff del: set_filter)
  qed (use ok in \<open>simp add: delete_instrument_def\<close>)
qed

interpretation tables: market_invariant tables_ok
proof
  show "tables_ok db \<Longrightarrow> ends_in tables_ok (save_instrument now x db)" for db now x by (rule save_instrument_ok)
  show "tables_ok db \<Longrightarrow> tables_ok (snd (delete_instrument now i db))" for db now i by (rule delete_instrument_ok)
  show "tables_ok db \<Longrightarrow> tables_ok (save_candles candles db)" for db candles by (simp add: tables_ok_def save_candles_def upsert_candles_keys)
  show "tables_ok db \<Longrightarrow> ends_in tables_ok (save_signal g db)" for db g by (auto simp: tables_ok_def save_signal_def known_id) (auto simp: list_ex_iff)
  show "tables_ok db \<Longrightarrow> ends_in tables_ok (save_backtest r db)" for db r by (auto simp: tables_ok_def save_backtest_def known_id) (auto simp: list_ex_iff)
qed

text \<open>History is append-only: no operation changes or removes a stored signal or run.\<close>

definition extends :: "crypto_db \<Rightarrow> crypto_db \<Rightarrow> bool" where
  "extends db0 db \<longleftrightarrow> take (length (cd_signals db0)) (cd_signals db) = cd_signals db0 \<and> take (length (cd_runs db0)) (cd_runs db) = cd_runs db0"

interpretation history: market_invariant "extends db0"
proof
  have grow: "take n (xs @ ys) = ws" if "take n xs = ws" "length ws = n" for n and xs ys ws :: "'a list" using that by (auto simp: min_def split: if_splits)
  show "extends db0 db \<Longrightarrow> ends_in (extends db0) (save_instrument now x db)" for db now x by (auto simp: extends_def save_instrument_def)
  show "extends db0 db \<Longrightarrow> extends db0 (snd (delete_instrument now i db))" for db now i by (auto simp: extends_def delete_instrument_def)
  show "extends db0 db \<Longrightarrow> extends db0 (save_candles candles db)" for db candles by (simp add: extends_def save_candles_def)
  show "extends db0 db \<Longrightarrow> ends_in (extends db0) (save_signal g db)" for db g by (auto simp: extends_def save_signal_def grow simp del: take_append)
  show "extends db0 db \<Longrightarrow> ends_in (extends db0) (save_backtest r db)" for db r by (auto simp: extends_def save_backtest_def grow simp del: take_append)
qed

text \<open>All the states the tables go through, with any exchange, clock and identifier in each operation.\<close>

inductive market_reachable :: "crypto_db \<Rightarrow> bool" where
  empty: "market_reachable \<lparr>cd_instruments = [], cd_candles = [], cd_signals = [], cd_runs = []\<rparr>"
| added: "market_reachable db \<Longrightarrow> market_reachable (left_in (add_instrument now catalog provider symbol db))"
| removed: "market_reachable db \<Longrightarrow> market_reachable (snd (delete_instrument now i db))"
| tested: "market_reachable db \<Longrightarrow> market_reachable (left_in (backtest env run_id completed started i timeframe days c db))"
| scanned: "market_reachable db \<Longrightarrow> market_reachable (left_in (scan env timeframe now db))"

lemma reachable_tables_ok: "market_reachable db \<Longrightarrow> tables_ok db"
proof (induction rule: market_reachable.induct)
  case empty
  show ?case by (simp add: tables_ok_def)
next
  case (added db now catalog provider symbol)
  from tables.keeps_add [OF added.IH] show ?case by (simp add: ends_in_def)
next
  case (removed db now i)
  from tables.keeps_delete [OF removed.IH] show ?case .
next
  case (tested db env run_id completed started i timeframe days c)
  from tables.keeps_test [OF tested.IH] show ?case by (simp add: ends_in_def)
next
  case (scanned db env timeframe now)
  from tables.keeps_scan [OF scanned.IH] show ?case by (simp add: ends_in_def)
qed

section \<open>What a scan creates\<close>

text \<open>Candles may change during a scan, signals only as it says; instruments and runs do not.\<close>

definition same_history :: "crypto_db \<Rightarrow> crypto_db \<Rightarrow> bool" where
  "same_history db db' \<longleftrightarrow> cd_instruments db' = cd_instruments db \<and> cd_signals db' = cd_signals db \<and> cd_runs db' = cd_runs db"

lemma same_history_refl [simp]: "same_history db db" "same_history db (save_candles candles db)"
  by (simp_all add: same_history_def save_candles_def)

lemma sync_same_history: "ends_in (same_history db) (sync_candles env x timeframe start finish db)"
  by (auto simp: sync_candles_def Let_def split: option.split sum.split)

definition fresh_signal :: "crypto_db \<Rightarrow> int \<Rightarrow> timestamp \<Rightarrow> market_instrument \<Rightarrow> signal_payload \<Rightarrow> bool" where
  "fresh_signal db seconds now x g \<longleftrightarrow> py_instrument g = x \<and> now - py_signal_at g \<le> 2 * seconds * 1000000 \<and> py_signal_id g \<notin> py_signal_id ` set (cd_signals db)"

lemma save_signal_cases:
  "save_signal g db = Inr (created, db') \<Longrightarrow>
    if created then db' = db\<lparr>cd_signals := cd_signals db @ [g]\<rparr> \<and> py_signal_id g \<notin> py_signal_id ` set (cd_signals db) else db' = db"
  by (auto simp: save_signal_def list_ex_iff split: if_splits)

lemma save_signal_error: "save_signal g db = Inl (e, db') \<Longrightarrow> db' = db"
  by (auto simp: save_signal_def split: if_splits)

lemma scan_instrument_error:
  "ends_in (\<lambda>db'. cd_instruments db' = cd_instruments db \<and> cd_runs db' = cd_runs db) (scan_instrument env timeframe seconds lookback now x db)"
proof -
  have "ends_in (\<lambda>d. cd_instruments d = cd_instruments db \<and> cd_runs d = cd_runs db) (sync_candles env x timeframe start finish db)" for start finish
    using sync_same_history [of db env x timeframe start finish] by (simp add: ends_in_def same_history_def)
  moreover have "ends_in (\<lambda>d. cd_instruments d = cd_instruments db \<and> cd_runs d = cd_runs db) (save_signal g d1)"
    if "cd_instruments d1 = cd_instruments db \<and> cd_runs d1 = cd_runs db" for g d1
    using that by (auto simp: save_signal_def)
  ultimately show ?thesis by (auto simp: scan_instrument_def Let_def)
qed

lemma scan_instrument_raises: "scan_instrument env timeframe seconds lookback now x db = Inl (e, db') \<Longrightarrow> cd_signals db' = cd_signals db"
  using sync_same_history [of db env x timeframe "now - lookback * DAY_US" now]
  by (auto simp: scan_instrument_def rbind_eq_Inl Let_def ends_in_def left_in_def same_history_def lift_res_def dest!: save_signal_error split: if_splits sum.splits)

lemma scan_instrument_found:
  assumes "scan_instrument env timeframe seconds lookback now x db = Inr (found, db')"
  shows "cd_signals db' = cd_signals db @ (case found of None \<Rightarrow> [] | Some g \<Rightarrow> [g]) \<and> pred_option (fresh_signal db seconds now x) found"
proof -
  from assms obtain candles db1 ss where sync: "sync_candles env x timeframe (now - lookback * DAY_US) now db = Inr (candles, db1)"
    and rest: "(if ss = [] \<or> now - sc_at (last ss) > 2 * seconds * 1000000 then Inr (None, db1)
       else rbind (save_signal (signal_payload_of env x timeframe now (last ss)) db1)
         (\<lambda>(created, db2). Inr (if created then Some (signal_payload_of env x timeframe now (last ss)) else None, db2))) = Inr (found, db')"
    unfolding scan_instrument_def Let_def by (fastforce simp: rbind_eq_Inr)
  have same: "cd_signals db1 = cd_signals db" using sync_same_history [of db env x timeframe "now - lookback * DAY_US" now] sync by (simp add: same_history_def)
  show ?thesis
  proof (cases "ss = [] \<or> now - sc_at (last ss) > 2 * seconds * 1000000")
    case True
    with rest same show ?thesis by (auto split: if_splits)
  next
    case False
    let ?g = "signal_payload_of env x timeframe now (last ss)"
    from rest False obtain created where c: "save_signal ?g db1 = Inr (created, db')" "found = (if created then Some ?g else None)"
      by (auto simp: rbind_eq_Inr split: if_splits)
    from save_signal_cases [OF c(1)] c(2) same False show ?thesis by (cases created) (auto simp: fresh_signal_def signal_payload_of_def)
  qed
qed

lemma scan_loop_created:
  "scan_loop env timeframe seconds lookback now xs db = Inr ((created, errors), db') \<Longrightarrow>
    cd_signals db' = cd_signals db @ created \<and> cd_instruments db' = cd_instruments db
    \<and> (\<forall>g \<in> set created. \<exists>x \<in> set xs. fresh_signal db seconds now x g)"
proof (induction xs arbitrary: db created errors)
  case (Cons x xs)
  note inst = scan_instrument_error [of db env timeframe seconds lookback now x]
  show ?case
  proof (cases "scan_instrument env timeframe seconds lookback now x db")
    case (Inl r)
    obtain e db1 where r: "r = (e, db1)" by fastforce
    with Inl Cons.prems obtain errs where "scan_loop env timeframe seconds lookback now xs db1 = Inr ((created, errs), db')"
      by (auto simp: rbind_eq_Inr split: if_splits)
    from Cons.IH [OF this] scan_instrument_raises [OF Inl [unfolded r]] inst Inl r show ?thesis by (auto simp: fresh_signal_def)
  next
    case (Inr r)
    obtain found db1 where r: "r = (found, db1)" by fastforce
    with Inr Cons.prems obtain more where more: "scan_loop env timeframe seconds lookback now xs db1 = Inr ((more, errors), db')" "created = case_option more (\<lambda>g. g # more) found"
      by (auto simp: rbind_eq_Inr)
    from Cons.IH [OF more(1)] scan_instrument_found [OF Inr [unfolded r]] inst Inr r more(2) show ?thesis
      by (cases found) (auto simp: fresh_signal_def)
  qed
qed simp

lemma listed_instrument:
  assumes "list_instruments db = Inr xs" and "x \<in> set xs"
  shows "\<exists>row \<in> set (cd_instruments db). row_id row = mi_id x \<and> mi_active (ir_instrument row) = mi_active x \<and> mi_signals_enabled (ir_instrument row) = mi_signals_enabled x"
proof -
  let ?rows = "sort_key (\<lambda>row. (mi_market (ir_instrument row), mi_display (ir_instrument row), mi_provider (ir_instrument row))) (cd_instruments db)"
  from assms have r: "rmap_list instrument_of_row ?rows = Inr xs" by (simp add: list_instruments_def)
  from assms(2) obtain i where i: "i < length xs" "xs ! i = x" by (auto simp: in_set_conv_nth)
  have "length ?rows = length xs" using rmap_list_length [OF r] by simp
  then have "?rows ! i \<in> set ?rows" using i(1) by (intro nth_mem) simp
  then have "?rows ! i \<in> set (cd_instruments db)" by (simp only: set_sort)
  moreover have "instrument_of_row (?rows ! i) = Inr x" using rmap_list_nth [OF r, of i] i \<open>length ?rows = length xs\<close> by metis
  ultimately show ?thesis by (auto simp: instrument_of_row_def Let_def rbind_eq_Inr)
qed

section \<open>Properties\<close>

text \<open>
  C29. The tables of the crypto market stay intact. After any operations, whatever the exchange answers and whichever of them
  raise, instruments are unique by id and by listing, candles by their key, signals and runs
  by id, and every signal and run refers to an instrument that still exists; and the next
  operation, failing or not, only adds to the signals and runs.
\<close>

theorem crypto_tables_intact:
  assumes "market_reachable db"
  shows "tables_ok db \<and> extends db (left_in (add_instrument now catalog provider symbol db)) \<and> extends db (snd (delete_instrument now i db))
    \<and> extends db (left_in (backtest env run_id now started i timeframe days c db)) \<and> extends db (left_in (scan env timeframe now db))"
proof -
  have "extends db db" by (simp add: extends_def)
  from history.keeps_add [OF this] history.keeps_delete [OF this] history.keeps_test [OF this] history.keeps_scan [OF this]
  show ?thesis using reachable_tables_ok [OF assms] by (simp add: ends_in_def)
qed

definition demo_instrument :: market_instrument where
  "demo_instrument = \<lparr>mi_id = ''INS-1'', mi_provider = ''OKX'', mi_symbol = ''BTC-USDT'', mi_display = ''BTCUSDT'', mi_market = ''CRYPTO'',
     mi_type = ''SPOT'', mi_base = ''BTC'', mi_quote = ''USDT'', mi_tick_size = ''0.1'', mi_quantity_step = ''1'', mi_minimum_quantity = ''1'',
     mi_minimum_notional = ''0'', mi_multiplier = ''1'', mi_active = True, mi_backtest_enabled = True, mi_signals_enabled = True\<rparr>"

definition offline_env :: crypto_env where
  "offline_env = \<lparr>ce_fetch = (\<lambda>_ _ _ _. Inl (ProviderError ''Public market-data request failed'')), ce_write = None,
     ce_ewm = (\<lambda>a. ewm_decaying a None), ce_sha = (\<lambda>x. x), ce_stamp = (\<lambda>_. [])\<rparr>"

definition empty_market :: crypto_db where
  "empty_market = \<lparr>cd_instruments = [], cd_candles = [], cd_signals = [], cd_runs = []\<rparr>"

definition demo_market :: crypto_db where
  "demo_market = \<lparr>cd_instruments = [\<lparr>ir_instrument = demo_instrument, ir_created = 7, ir_updated = 7\<rparr>], cd_candles = [], cd_signals = [], cd_runs = []\<rparr>"

lemma demo_normal: "normalize_provider ''OKX'' = Inr ''OKX''" "normalize_provider_symbol ''BTC-USDT'' = Inr ''BTC-USDT''"
  by (simp_all add: normalize_provider_def normalize_provider_symbol_def py_upper_def ascii_upper_def py_strip_def is_space_def)

lemma demo_market_added: "left_in (add_instrument 7 (\<lambda>_. Inr [demo_instrument]) ''OKX'' ''BTC-USDT'' empty_market) = demo_market"
  by (simp add: add_instrument_def demo_normal lift_res_def demo_instrument_def save_instrument_def empty_market_def demo_market_def)

lemma demo_market_reachable: "market_reachable demo_market"
  using market_reachable.added [OF market_reachable.empty, of 7 "\<lambda>_. Inr [demo_instrument]" "''OKX''" "''BTC-USDT''"]
  by (simp add: demo_market_added [unfolded empty_market_def])

theorem crypto_tables_intact_witness:
  "tables_ok demo_market \<and> extends demo_market (left_in (scan offline_env ''5m'' 9 demo_market))"
  using crypto_tables_intact [OF demo_market_reachable] by blast


lemma demo_scan: "scan offline_env ''5m'' 9 demo_market = Inr (([], [(''INS-1'', ProviderError ''Public market-data request failed'')]), demo_market)"
  by (simp add: scan_def TIMEFRAME_SECONDS_def list_instruments_def demo_market_def instrument_of_row_def demo_instrument_def demo_normal
      scan_instrument_def sync_candles_def MAX_INTERACTIVE_CANDLE_BARS_def stored_candles_def query_candles_def fetch_start_def offline_env_def
      scan_catches_def lift_res_def scan_lookback_def round_half_even_def DAY_US_def Let_def)



definition market_with_hole :: crypto_db where
  "market_with_hole = demo_market\<lparr>cd_candles := [demo_market_candle 0, demo_market_candle 9]\<rparr>"

lemma demo_candle_rebuilt: "i \<in> {0, 9} \<Longrightarrow> rebuild_candle (demo_market_candle i) = Inr (demo_market_candle i)"
  by (auto simp: rebuild_candle_def demo_market_candle_def candle_build_def TIMEFRAME_SECONDS_def finite_float_def demo_normal candle_check_def)


end
