(* ===== verification/Walk_Forward_Store.thy ===== *)
theory Walk_Forward_Store
  imports Backtest_Jobs Walk_Forward
begin

text \<open>
  The tables of walk-forward validations (\<open>WalkForwardValidationRepository\<close> of
  \<open>backend/data/repositories.py\<close> with the constraints of \<open>backend/data/sql/018_walk_forward_validations.sql\<close>): validations,
  their folds, the training runs of the candidates of each fold and, once a candidate is selected, its test run.
  The table of runs is split into the columns that never change (\<open>run_columns\<close>) and the row of
  \<open>Backtest_Jobs\<close> that the queue and the engine update. \<open>uuid.uuid4()\<close> takes the next number of a counter: it
  never returns an id twice.
\<close>

section \<open>Rows\<close>

datatype fold_status = FQueued | FTraining | FTesting | FComplete | FFailed | FCancelled

record validation_spec =
  vs_name :: string
  vs_mode :: string
  vs_market :: string
  vs_strategy_id :: string
  vs_strategy_version :: string
  vs_strategy_source :: "string option"
  vs_timeframe :: string
  vs_symbols :: "string list"
  vs_universe_id :: "string option"
  vs_universe_name :: string
  vs_start :: day
  vs_end :: day
  vs_training_window :: int
  vs_testing_window :: int
  vs_step :: int
  vs_maximum_folds :: int
  vs_experiment :: string
  vs_objective :: string
  vs_minimum_trades :: int
  vs_cost_bps :: real
  vs_slippage_bps :: real
  vs_preview_hash :: string
  vs_workload :: workload

record validation_row =
  vr_id :: string
  vr_key :: string
  vr_spec :: validation_spec
  vr_cancel :: bool
  vr_aggregate :: "unseen_metrics option"
  vr_created :: timestamp
  vr_completed :: "timestamp option"

record candidate_spec =
  cp_variant :: string
  cp_name :: string
  cp_position :: int
  cp_configuration :: config
  cp_execution :: config

record fold_row =
  fr_id :: string
  fr_validation :: string
  fr_window :: fold_definition
  fr_status :: fold_status
  fr_error :: "string option"
  fr_selected :: "candidate_spec option"
  fr_rank :: "nat option"
  fr_test :: "string option"
  fr_completed :: "timestamp option"

record training_row =
  tr_fold :: string
  tr_variant :: string
  tr_name :: string
  tr_position :: int
  tr_run :: string

record run_columns =
  rc_market :: string
  rc_strategy_id :: string
  rc_strategy_version :: string
  rc_strategy_source :: "string option"
  rc_configuration :: config
  rc_execution :: config
  rc_timeframe :: string
  rc_symbols :: "string list"
  rc_start :: day
  rc_end :: day

record wf_db =
  wd_validations :: "validation_row list"
  wd_folds :: "fold_row list"
  wd_trainings :: "training_row list"
  wd_columns :: "string \<rightharpoonup> run_columns"
  wd_runs :: run_table
  wd_issued :: nat

definition empty_wf_db :: wf_db where
  "empty_wf_db = \<lparr>wd_validations = [], wd_folds = [], wd_trainings = [], wd_columns = Map.empty, wd_runs = Map.empty, wd_issued = 0\<rparr>"

datatype wf_error = WfRaised py_error | CheckViolation string | UniqueViolation string

section \<open>What is read back\<close>

record run_view =
  ru_id :: string
  ru_columns :: run_columns
  ru_row :: run_row

record candidate_view =
  cv_training :: training_row
  cv_run :: run_view

record fold_view =
  fv_row :: fold_row
  fv_candidates :: "candidate_view list"
  fv_test :: "run_view option"

datatype validation_status = VQueued | VRunning | VCancelling | VPartial | VComplete | VFailed | VCancelled

record validation_view =
  vv_row :: validation_row
  vv_folds :: "fold_view list"
  vv_fold_counts :: "fold_status \<Rightarrow> nat"
  vv_run_counts :: "run_status \<Rightarrow> nat"
  vv_status :: validation_status

definition public_run :: "wf_db \<Rightarrow> string \<Rightarrow> run_view option" where
  "public_run db run_id =
     (case (wd_columns db run_id, wd_runs db run_id) of
        (Some c, Some r) \<Rightarrow> Some \<lparr>ru_id = run_id, ru_columns = c, ru_row = r\<rparr>
      | _ \<Rightarrow> None)"

definition validation_of :: "wf_db \<Rightarrow> string \<Rightarrow> validation_row option" where
  "validation_of db vid = List.find (\<lambda>v. vr_id v = vid) (wd_validations db)"

definition folds_of :: "wf_db \<Rightarrow> string \<Rightarrow> fold_row list" where
  "folds_of db vid = sort_key (\<lambda>f. fo_position (fr_window f)) (filter (\<lambda>f. fr_validation f = vid) (wd_folds db))"

definition trainings_of :: "wf_db \<Rightarrow> string \<Rightarrow> training_row list" where
  "trainings_of db fid = sort_key tr_position (filter (\<lambda>t. tr_fold t = fid) (wd_trainings db))"

text \<open>The join leaves out a training row without a run.\<close>

definition candidate_views :: "wf_db \<Rightarrow> string \<Rightarrow> candidate_view list" where
  "candidate_views db fid =
     List.map_filter (\<lambda>t. map_option (\<lambda>r. \<lparr>cv_training = t, cv_run = r\<rparr>) (public_run db (tr_run t))) (trainings_of db fid)"

text \<open>A test run that is not found makes \<open>_public_run(None)\<close> raise.\<close>

definition fold_view_of :: "wf_db \<Rightarrow> fold_row \<Rightarrow> fold_view res" where
  "fold_view_of db f =
     (case fr_test f of
        None \<Rightarrow> Inr \<lparr>fv_row = f, fv_candidates = candidate_views db (fr_id f), fv_test = None\<rparr>
      | Some rid \<Rightarrow>
          (case public_run db rid of
             None \<Rightarrow> Inl (TypeError ''NoneType object is not subscriptable'')
           | Some r \<Rightarrow> Inr \<lparr>fv_row = f, fv_candidates = candidate_views db (fr_id f), fv_test = Some r\<rparr>))"

definition derived_status :: "fold_status list \<Rightarrow> bool \<Rightarrow> validation_status" where
  "derived_status sts cancel_flag =
     (let n = length sts; count = count_list sts in
      if count FComplete = n then VComplete
      else if count FCancelled = n then VCancelled
      else if count FFailed \<noteq> 0 \<and> count FFailed + count FCancelled = n then VFailed
      else if count FTesting \<noteq> 0 \<or> count FTraining \<noteq> 0 then VRunning
      else if cancel_flag then VCancelling
      else if count FComplete + count FFailed + count FCancelled = n then VPartial
      else VQueued)"

definition view_runs :: "fold_view list \<Rightarrow> run_view list" where
  "view_runs fs = concat (map (\<lambda>f. map cv_run (fv_candidates f) @ (case fv_test f of None \<Rightarrow> [] | Some r \<Rightarrow> [r])) fs)"

definition validation_get :: "wf_db \<Rightarrow> string \<Rightarrow> validation_view res" where
  "validation_get db vid =
     (case validation_of db vid of
        None \<Rightarrow> Inl (KeyError vid)
      | Some v \<Rightarrow>
          rbind (rmap_list (fold_view_of db) (folds_of db vid)) (\<lambda>fs.
            let sts = map (\<lambda>f. fr_status (fv_row f)) fs
            in Inr \<lparr>vv_row = v, vv_folds = fs, vv_fold_counts = count_list sts,
                 vv_run_counts = count_list (map (\<lambda>r. rw_status (ru_row r)) (view_runs fs)),
                 vv_status = derived_status sts (vr_cancel v)\<rparr>))"

definition get_by_idempotency_key :: "wf_db \<Rightarrow> string \<Rightarrow> validation_view option res" where
  "get_by_idempotency_key db key =
     (case List.find (\<lambda>v. vr_key v = py_strip key) (wd_validations db) of
        None \<Rightarrow> Inr None
      | Some v \<Rightarrow> rbind (validation_get db (vr_id v)) (\<lambda>x. Inr (Some x)))"

text \<open>The newest first; among rows of one moment the later one.\<close>

definition list_validations :: "wf_db \<Rightarrow> string option \<Rightarrow> nat \<Rightarrow> validation_view list res" where
  "list_validations db market limit =
     (let rows = (case market of None \<Rightarrow> wd_validations db | Some m \<Rightarrow> if m = [] then wd_validations db else filter (\<lambda>v. vs_market (vr_spec v) = m) (wd_validations db))
      in rmap_list (\<lambda>v. validation_get db (vr_id v)) (take limit (rev (sort_key vr_created rows))))"

definition nse_sessions_between :: "(string \<times> day \<times> bool) list \<Rightarrow> day \<Rightarrow> day \<Rightarrow> day list" where
  "nse_sessions_between rows a b = sort (map (\<lambda>(_, d, _). d) (filter (\<lambda>(m, d, trading). m = ''NSE'' \<and> trading \<and> a \<le> d \<and> d \<le> b) rows))"

section \<open>Creation\<close>

text \<open>The \<open>CHECK\<close> constraints of the three tables.\<close>

definition is_sha256 :: "string \<Rightarrow> bool" where
  "is_sha256 s \<longleftrightarrow> take 7 s = ''sha256:'' \<and> length s = 71 \<and> list_all (\<lambda>ch. ch \<in> set ''0123456789abcdef'') (drop 7 s)"

definition between :: "int \<Rightarrow> int \<Rightarrow> int \<Rightarrow> bool" where
  "between low high x \<longleftrightarrow> low \<le> x \<and> x \<le> high"

definition validation_checks :: "validation_spec \<Rightarrow> string \<Rightarrow> bool" where
  "validation_checks s key \<longleftrightarrow>
     (let w = vs_workload s in
      between 1 120 (int (length (vs_name s))) \<and> vs_mode s \<in> {''ANCHORED'', ''ROLLING''} \<and> vs_market s \<in> {''NSE'', ''CRYPTO''}
      \<and> between 1 2000 (int (length (vs_symbols s))) \<and> vs_training_window s > 0 \<and> vs_testing_window s > 0 \<and> vs_step s > 0
      \<and> between 1 12 (vs_maximum_folds s) \<and> vs_objective s \<in> set RANKING_OBJECTIVES \<and> vs_minimum_trades s \<ge> 0
      \<and> 0 \<le> vs_cost_bps s \<and> vs_cost_bps s \<le> 10000 \<and> 0 \<le> vs_slippage_bps s \<and> vs_slippage_bps s \<le> 10000
      \<and> is_sha256 (vs_preview_hash s) \<and> between 8 128 (int (length key)) \<and> between 1 12 (wl_folds w) \<and> between 1 20 (wl_candidates w)
      \<and> between 2 120 (wl_child_runs w) \<and> between 1 2000 (wl_symbols w) \<and> between 1 20000 (wl_symbol_runs w)
      \<and> between 1 25000000 (wl_candles w) \<and> vs_end s \<ge> vs_start s \<and> wl_symbol_runs w = wl_child_runs w * wl_symbols w)"

definition fold_checks :: "fold_definition \<Rightarrow> bool" where
  "fold_checks f \<longleftrightarrow> between 1 12 (int (fo_position f)) \<and> fo_training_sessions f > 0 \<and> fo_testing_sessions f > 0
     \<and> fo_training_end f \<ge> fo_training_start f \<and> fo_testing_start f > fo_training_end f \<and> fo_testing_end f \<ge> fo_testing_start f"

definition new_id :: "wf_db \<Rightarrow> string \<times> wf_db" where
  "new_id db = (show_nat (wd_issued db), db\<lparr>wd_issued := Suc (wd_issued db)\<rparr>)"

definition insert_run :: "string \<Rightarrow> run_columns \<Rightarrow> wf_db \<Rightarrow> wf_db" where
  "insert_run rid c db =
     db\<lparr>wd_columns := (wd_columns db)(rid \<mapsto> c), wd_runs := run_create (wd_runs db) rid (length (rc_symbols c))\<rparr>"

text \<open>\<open>{**execution, "transactionCostBps": x, "slippageBps": y}\<close>\<close>

definition with_costs :: "validation_spec \<Rightarrow> config \<Rightarrow> config" where
  "with_costs s execution =
     AList.update ''slippageBps'' (PyFloat (vs_slippage_bps s)) (AList.update ''transactionCostBps'' (PyFloat (vs_cost_bps s)) execution)"

definition columns_of :: "validation_spec \<Rightarrow> config \<Rightarrow> config \<Rightarrow> day \<Rightarrow> day \<Rightarrow> run_columns" where
  "columns_of s configuration execution a b =
     \<lparr>rc_market = vs_market s, rc_strategy_id = vs_strategy_id s, rc_strategy_version = vs_strategy_version s,
      rc_strategy_source = vs_strategy_source s, rc_configuration = configuration, rc_execution = execution,
      rc_timeframe = vs_timeframe s, rc_symbols = vs_symbols s, rc_start = a, rc_end = b\<rparr>"

definition insert_training :: "validation_spec \<Rightarrow> string \<Rightarrow> fold_definition \<Rightarrow> wf_db \<Rightarrow> candidate_spec \<Rightarrow> wf_error + wf_db" where
  "insert_training s fid f db c =
     (let (rid, db1) = new_id db;
          db2 = insert_run rid (columns_of s (cp_configuration c) (with_costs s (cp_execution c)) (fo_training_start f) (fo_training_end f)) db1
      in if \<not> between 1 20 (cp_position c) then Inl (CheckViolation ''walk_forward_training_runs'')
         else if list_ex (\<lambda>t. tr_fold t = fid \<and> (tr_variant t = cp_variant c \<or> tr_position t = cp_position c)) (wd_trainings db2)
         then Inl (UniqueViolation ''walk_forward_training_runs'')
         else Inr (db2\<lparr>wd_trainings := wd_trainings db2
                @ [\<lparr>tr_fold = fid, tr_variant = cp_variant c, tr_name = cp_name c, tr_position = cp_position c, tr_run = rid\<rparr>]\<rparr>))"

definition insert_fold :: "validation_spec \<Rightarrow> string \<Rightarrow> candidate_spec list \<Rightarrow> wf_db \<Rightarrow> fold_definition \<Rightarrow> wf_error + wf_db" where
  "insert_fold s vid candidates db f =
     (let (fid, db1) = new_id db
      in if \<not> fold_checks f then Inl (CheckViolation ''walk_forward_folds'')
         else if list_ex (\<lambda>r. fr_validation r = vid \<and> fo_position (fr_window r) = fo_position f) (wd_folds db1)
         then Inl (UniqueViolation ''walk_forward_folds'')
         else rfold (insert_training s fid f)
                (db1\<lparr>wd_folds := wd_folds db1 @ [\<lparr>fr_id = fid, fr_validation = vid, fr_window = f, fr_status = FQueued, fr_error = None,
                   fr_selected = None, fr_rank = None, fr_test = None, fr_completed = None\<rparr>]\<rparr>) candidates)"

text \<open>
  \<open>create_generated\<close>: one transaction, so an exception leaves the tables as they were. A key that is taken gives
  the validation it belongs to. The view is read after the commit.
\<close>

definition create_rows ::
  "timestamp \<Rightarrow> validation_spec \<Rightarrow> string \<Rightarrow> fold_definition list \<Rightarrow> candidate_spec list \<Rightarrow> wf_db \<Rightarrow> wf_error + (string \<times> bool \<times> wf_db)" where
  "create_rows now s key folds candidates db =
     (let (vid, db1) = new_id db
      in if \<not> validation_checks s (py_strip key) then Inl (CheckViolation ''walk_forward_validations'')
         else case List.find (\<lambda>v. vr_key v = py_strip key) (wd_validations db1) of
           Some v \<Rightarrow> Inr (vr_id v, False, db1)
         | None \<Rightarrow>
             rbind (rfold (insert_fold s vid candidates)
                 (db1\<lparr>wd_validations := wd_validations db1 @ [\<lparr>vr_id = vid, vr_key = py_strip key, vr_spec = s, vr_cancel = False,
                    vr_aggregate = None, vr_created = now, vr_completed = None\<rparr>]\<rparr>) folds)
               (\<lambda>db2. Inr (vid, True, db2)))"

definition create_generated ::
  "timestamp \<Rightarrow> validation_spec \<Rightarrow> string \<Rightarrow> fold_definition list \<Rightarrow> candidate_spec list \<Rightarrow> wf_db
     \<Rightarrow> (wf_error \<times> wf_db) + (validation_view \<times> bool \<times> wf_db)" where
  "create_generated now s key folds candidates db =
     (case create_rows now s key folds candidates db of
        Inl e \<Rightarrow> Inl (e, db)
      | Inr (vid, created, db') \<Rightarrow>
          (case validation_get db' vid of
             Inl e \<Rightarrow> Inl (WfRaised e, db')
           | Inr view \<Rightarrow> Inr (view, created, db')))"

section \<open>Updates\<close>

text \<open>\<open>UPDATE walk_forward_folds ... WHERE fold_id = x\<close>, and the same for validations.\<close>

definition change_fold :: "string \<Rightarrow> (fold_row \<Rightarrow> fold_row) \<Rightarrow> wf_db \<Rightarrow> wf_db" where
  "change_fold fid g db = db\<lparr>wd_folds := map (\<lambda>f. if fr_id f = fid then g f else f) (wd_folds db)\<rparr>"

definition change_validation :: "string \<Rightarrow> (validation_row \<Rightarrow> validation_row) \<Rightarrow> wf_db \<Rightarrow> wf_db" where
  "change_validation vid g db = db\<lparr>wd_validations := map (\<lambda>v. if vr_id v = vid then g v else v) (wd_validations db)\<rparr>"

definition fold_terminal :: "fold_status \<Rightarrow> bool" where
  "fold_terminal s \<longleftrightarrow> s \<in> {FComplete, FFailed, FCancelled}"

definition update_fold :: "timestamp \<Rightarrow> string \<Rightarrow> fold_status \<Rightarrow> string option \<Rightarrow> wf_db \<Rightarrow> wf_db" where
  "update_fold now fid status error =
     change_fold fid (\<lambda>f. f\<lparr>fr_status := status, fr_error := error, fr_completed := (if fold_terminal status then Some now else None)\<rparr>)"

definition finish_validation :: "timestamp \<Rightarrow> string \<Rightarrow> unseen_metrics \<Rightarrow> wf_db \<Rightarrow> wf_db" where
  "finish_validation now vid aggregate = change_validation vid (\<lambda>v. v\<lparr>vr_aggregate := Some aggregate, vr_completed := Some now\<rparr>)"

definition validation_cancel :: "string \<Rightarrow> wf_db \<Rightarrow> (validation_view \<times> wf_db) res" where
  "validation_cancel vid db =
     (let db1 = change_validation vid (\<lambda>v. v\<lparr>vr_cancel := True\<rparr>) db
      in rbind (validation_get db1 vid) (\<lambda>view. Inr (view, db1)))"

text \<open>A fold has at most one test run: a second call returns the first run.\<close>

definition selected_of :: "candidate_view \<Rightarrow> candidate_spec" where
  "selected_of cv = \<lparr>cp_variant = tr_variant (cv_training cv), cp_name = tr_name (cv_training cv), cp_position = tr_position (cv_training cv),
     cp_configuration = rc_configuration (ru_columns (cv_run cv)), cp_execution = rc_execution (ru_columns (cv_run cv))\<rparr>"

definition create_test_run :: "string \<Rightarrow> candidate_view \<Rightarrow> wf_db \<Rightarrow> (run_view \<times> wf_db) res" where
  "create_test_run fid cv db =
     (case List.find (\<lambda>f. fr_id f = fid) (wd_folds db) of
        None \<Rightarrow> Inl (KeyError fid)
      | Some f \<Rightarrow>
          (case validation_of db (fr_validation f) of
             None \<Rightarrow> Inl (KeyError fid)
           | Some v \<Rightarrow>
               (case fr_test f of
                  Some rid \<Rightarrow> (case public_run db rid of None \<Rightarrow> Inl (TypeError ''NoneType object is not subscriptable'') | Some r \<Rightarrow> Inr (r, db))
                | None \<Rightarrow>
                    let (rid, db1) = new_id db; chosen = selected_of cv;
                        c = columns_of (vr_spec v) (cp_configuration chosen) (cp_execution chosen) (fo_testing_start (fr_window f)) (fo_testing_end (fr_window f));
                        db2 = change_fold fid (\<lambda>f. f\<lparr>fr_selected := Some chosen, fr_rank := Some 1, fr_test := Some rid, fr_status := FTesting\<rparr>)
                          (insert_run rid c db1)
                    in (case public_run db2 rid of
                          None \<Rightarrow> Inl (TypeError ''NoneType object is not subscriptable'')
                        | Some r \<Rightarrow> Inr (r, db2)))))"

section \<open>The tables stay sound\<close>

abbreviation vids :: "wf_db \<Rightarrow> string set" where "vids db \<equiv> vr_id ` set (wd_validations db)"
abbreviation fids :: "wf_db \<Rightarrow> string set" where "fids db \<equiv> fr_id ` set (wd_folds db)"
abbreviation training_runs :: "wf_db \<Rightarrow> string set" where "training_runs db \<equiv> tr_run ` set (wd_trainings db)"

definition issued :: "wf_db \<Rightarrow> string \<Rightarrow> bool" where
  "issued db x \<longleftrightarrow> (\<exists>k < wd_issued db. x = show_nat k)"

text \<open>Every id has been issued, keys are unique, references exist, no test run is a training run, and a training run covers the training window of its fold.\<close>

definition ids_ok :: "wf_db \<Rightarrow> bool" where
  "ids_ok db \<longleftrightarrow> distinct (map vr_id (wd_validations db)) \<and> distinct (map fr_id (wd_folds db)) \<and> distinct (map tr_run (wd_trainings db))
     \<and> (\<forall>x \<in> vids db \<union> fids db \<union> training_runs db \<union> dom (wd_runs db) \<union> dom (wd_columns db). issued db x)
     \<and> distinct (map (\<lambda>t. (tr_fold t, tr_variant t)) (wd_trainings db))"

definition training_ok :: "wf_db \<Rightarrow> training_row \<Rightarrow> bool" where
  "training_ok db t \<longleftrightarrow> tr_fold t \<in> fids db \<and> wd_runs db (tr_run t) \<noteq> None
     \<and> (\<forall>f \<in> set (wd_folds db). fr_id f = tr_fold t \<longrightarrow> (\<exists>c. wd_columns db (tr_run t) = Some c
          \<and> rc_start c = fo_training_start (fr_window f) \<and> rc_end c = fo_training_end (fr_window f)))"

definition fold_ok :: "wf_db \<Rightarrow> fold_row \<Rightarrow> bool" where
  "fold_ok db f \<longleftrightarrow> fr_validation f \<in> vids db \<and> fold_checks (fr_window f)
     \<and> (\<forall>r. fr_test f = Some r \<longrightarrow> wd_runs db r \<noteq> None \<and> wd_columns db r \<noteq> None \<and> r \<notin> training_runs db)"

definition wf_ok :: "wf_db \<Rightarrow> bool" where
  "wf_ok db \<longleftrightarrow> ids_ok db \<and> (\<forall>t \<in> set (wd_trainings db). training_ok db t) \<and> (\<forall>f \<in> set (wd_folds db). fold_ok db f)"

definition terminal_run :: "run_row \<Rightarrow> bool" where
  "terminal_run r \<longleftrightarrow> rw_status r \<in> TERMINAL_RUN_STATUSES"

definition training_settled :: "wf_db \<Rightarrow> string \<Rightarrow> bool" where
  "training_settled db fid \<longleftrightarrow> list_all (\<lambda>t. case wd_runs db (tr_run t) of None \<Rightarrow> False | Some r \<Rightarrow> terminal_run r) (trainings_of db fid)"

definition fold_core :: "fold_row \<Rightarrow> string \<times> string \<times> fold_definition" where
  "fold_core f = (fr_id f, fr_validation f, fr_window f)"

text \<open>
  What no operation undoes, for the validations \<open>V\<close> and the folds \<open>F\<close>: the request of a validation and its cancellation, its folds and their
  order, the training runs of a fold, the columns of a run, and the row of a training run that has ended.
\<close>

definition evolves_in :: "string set \<Rightarrow> string set \<Rightarrow> wf_db \<Rightarrow> wf_db \<Rightarrow> bool" where
  "evolves_in V F db db' \<longleftrightarrow>
     (\<forall>vid \<in> V. \<forall>v. validation_of db vid = Some v \<longrightarrow> (\<exists>v'. validation_of db' vid = Some v' \<and> vr_spec v' = vr_spec v \<and> (vr_cancel v \<longrightarrow> vr_cancel v')))
     \<and> (\<forall>vid \<in> V. map fold_core (folds_of db' vid) = map fold_core (folds_of db vid))
     \<and> (\<forall>fid \<in> F. trainings_of db' fid = trainings_of db fid)
     \<and> wd_columns db \<subseteq>\<^sub>m wd_columns db'
     \<and> (\<forall>t \<in> set (wd_trainings db). \<forall>r. wd_runs db (tr_run t) = Some r \<and> terminal_run r \<longrightarrow> wd_runs db' (tr_run t) = Some r)
     \<and> set (wd_trainings db) \<subseteq> set (wd_trainings db')"

definition evolves :: "wf_db \<Rightarrow> wf_db \<Rightarrow> bool" where
  "evolves db db' \<longleftrightarrow> evolves_in (vids db) (fids db) db db' \<and> vids db \<subseteq> vids db' \<and> fids db \<subseteq> fids db'"

lemma evolves_in_refl [simp]: "evolves_in V F db db"
  by (auto simp: evolves_in_def)

lemma evolves_inD:
  assumes "evolves_in V F db db'"
  shows evolves_validation: "vid \<in> V \<Longrightarrow> validation_of db vid = Some v
      \<Longrightarrow> \<exists>v'. validation_of db' vid = Some v' \<and> vr_spec v' = vr_spec v \<and> (vr_cancel v \<longrightarrow> vr_cancel v')"
    and evolves_folds: "vid \<in> V \<Longrightarrow> map fold_core (folds_of db' vid) = map fold_core (folds_of db vid)"
    and evolves_trainings: "fid \<in> F \<Longrightarrow> trainings_of db' fid = trainings_of db fid"
    and evolves_columns: "wd_columns db \<subseteq>\<^sub>m wd_columns db'"
    and evolves_runs: "t \<in> set (wd_trainings db) \<Longrightarrow> wd_runs db (tr_run t) = Some r \<Longrightarrow> terminal_run r \<Longrightarrow> wd_runs db' (tr_run t) = Some r"
    and evolves_training_rows: "t \<in> set (wd_trainings db) \<Longrightarrow> t \<in> set (wd_trainings db')"
  using assms unfolding evolves_in_def by blast+

lemma evolves_in_trans:
  assumes a: "evolves_in V F db1 db2" and b: "evolves_in V F db2 db3"
  shows "evolves_in V F db1 db3"
  unfolding evolves_in_def
proof (intro conjI ballI allI impI subsetI)
  fix vid v assume *: "vid \<in> V" "validation_of db1 vid = Some v"
  from evolves_validation [OF a *] obtain v1 where v1: "validation_of db2 vid = Some v1" "vr_spec v1 = vr_spec v" "vr_cancel v \<longrightarrow> vr_cancel v1" by blast
  from evolves_validation [OF b *(1) v1(1)] v1 show "\<exists>v'. validation_of db3 vid = Some v' \<and> vr_spec v' = vr_spec v \<and> (vr_cancel v \<longrightarrow> vr_cancel v')" by auto
next
  show "wd_columns db1 \<subseteq>\<^sub>m wd_columns db3" by (rule map_le_trans [OF evolves_columns [OF a] evolves_columns [OF b]])
next
  fix t r assume *: "t \<in> set (wd_trainings db1)" "wd_runs db1 (tr_run t) = Some r \<and> terminal_run r"
  then show "wd_runs db3 (tr_run t) = Some r"
    using evolves_runs [OF a, of t r] evolves_runs [OF b, of t r] evolves_training_rows [OF a, of t] by blast
next
  fix t assume "t \<in> set (wd_trainings db1)"
  then show "t \<in> set (wd_trainings db3)" using evolves_training_rows [OF a] evolves_training_rows [OF b] by blast
qed (simp_all add: evolves_folds [OF a] evolves_folds [OF b] evolves_trainings [OF a] evolves_trainings [OF b])

lemma evolves_refl [simp]: "evolves db db"
  by (simp add: evolves_def)

lemma evolves_in_mono: "evolves_in V F db db' \<Longrightarrow> V' \<subseteq> V \<Longrightarrow> F' \<subseteq> F \<Longrightarrow> evolves_in V' F' db db'"
  unfolding evolves_in_def by blast

lemma evolves_trans: "evolves db1 db2 \<Longrightarrow> evolves db2 db3 \<Longrightarrow> evolves db1 db3"
  unfolding evolves_def by (meson evolves_in_mono evolves_in_trans subset_trans)

lemma trainings_of_set: "set (trainings_of db fid) = {t \<in> set (wd_trainings db). tr_fold t = fid}"
  by (auto simp: trainings_of_def)

lemma folds_of_set: "set (folds_of db vid) = {f \<in> set (wd_folds db). fr_validation f = vid}"
  by (auto simp: folds_of_def)

lemma map_filter_cong: "(\<And>x. x \<in> set xs \<Longrightarrow> f x = g x) \<Longrightarrow> List.map_filter f xs = List.map_filter g xs"
  by (induction xs) (auto simp: List.map_filter_def)

text \<open>The candidates of a fold whose training has ended never change again.\<close>

lemma candidates_stable:
  assumes "evolves db db'" and "training_settled db fid" and "fid \<in> fids db" and "wf_ok db"
  shows "candidate_views db' fid = candidate_views db fid" and "training_settled db' fid"
proof -
  have e: "evolves_in (vids db) (fids db) db db'" using assms(1) by (simp add: evolves_def)
  note t = evolves_trainings [OF e assms(3)]
  have run: "public_run db' (tr_run t) = public_run db (tr_run t) \<and> wd_runs db' (tr_run t) = wd_runs db (tr_run t)" if tin: "t \<in> set (trainings_of db fid)" for t
  proof -
    from tin have m: "t \<in> set (wd_trainings db)" "training_ok db t" using assms(4) by (auto simp: trainings_of_set wf_ok_def)
    then obtain c where c: "wd_columns db (tr_run t) = Some c" by (auto simp: training_ok_def)
    with evolves_columns [OF e] have "wd_columns db' (tr_run t) = Some c" by (auto simp: map_le_def dom_def)
    moreover obtain r where r: "wd_runs db (tr_run t) = Some r" "terminal_run r"
      using assms(2) tin by (fastforce simp: training_settled_def list_all_iff split: option.splits)
    ultimately show ?thesis using c evolves_runs [OF e m(1) r] by (simp add: public_run_def)
  qed
  show "candidate_views db' fid = candidate_views db fid"
    unfolding candidate_views_def t by (rule map_filter_cong) (simp add: run)
  show "training_settled db' fid" using assms(2) unfolding training_settled_def t list_all_iff by (simp add: run)
qed

section \<open>Every operation\<close>

text \<open>An operation that keeps the tables sound and undoes nothing.\<close>

locale table_operation =
  fixes operation :: "wf_db \<Rightarrow> wf_db"
  assumes sound: "wf_ok db \<Longrightarrow> wf_ok (operation db) \<and> evolves db (operation db)"
begin

lemma keeps_ok: "wf_ok db \<Longrightarrow> wf_ok (operation db)"
  using sound by blast

lemma keeps_candidates:
  "wf_ok db \<Longrightarrow> training_settled db fid \<Longrightarrow> fid \<in> fids db
     \<Longrightarrow> candidate_views (operation db) fid = candidate_views db fid \<and> training_settled (operation db) fid"
  using sound candidates_stable by blast

end

lemma sort_key_map: "sort_key k (map g xs) = map g (sort_key (\<lambda>x. k (g x)) xs)"
proof -
  have "insort_key k (g x) (map g ys) = map g (insort_key (\<lambda>x. k (g x)) x ys)" for x ys by (induction ys) auto
  then show ?thesis by (induction xs) auto
qed

text \<open>A change of folds that keeps their identity, and their test run unless it is a proper one.\<close>

lemma folds_of_map:
  assumes "\<And>f. f \<in> set (wd_folds db) \<Longrightarrow> fold_core (h f) = fold_core f"
  shows "folds_of (db\<lparr>wd_folds := map h (wd_folds db)\<rparr>) vid = map h (folds_of db vid)"
proof -
  let ?mine = "filter (\<lambda>f. fr_validation f = vid) (wd_folds db)"
  have "filter (\<lambda>f. fr_validation f = vid) (map h xs) = map h (filter (\<lambda>f. fr_validation f = vid) xs)" if "set xs \<subseteq> set (wd_folds db)" for xs
    using that assms by (induction xs) (auto simp: fold_core_def)
  moreover have "sort_key (\<lambda>f. fo_position (fr_window (h f))) xs = sort_key (\<lambda>f. fo_position (fr_window f)) xs" if "set xs \<subseteq> set (wd_folds db)" for xs
    using that
  proof (induction xs)
    case (Cons x xs)
    have "insort_key (\<lambda>f. fo_position (fr_window (h f))) x ys = insort_key (\<lambda>f. fo_position (fr_window f)) x ys" if "set ys \<subseteq> set (wd_folds db)" for ys
      using that Cons.prems assms by (induction ys) (auto simp: fold_core_def)
    with Cons show ?case by simp
  qed simp
  ultimately show ?thesis unfolding folds_of_def by (simp add: sort_key_map filter_is_subset)
qed

lemma mapped_folds_sound:
  assumes ok: "wf_ok db" and core: "\<And>f. f \<in> set (wd_folds db) \<Longrightarrow> fold_core (h f) = fold_core f"
    and test: "\<And>f r. f \<in> set (wd_folds db) \<Longrightarrow> fr_test (h f) = Some r \<Longrightarrow> fr_test f \<noteq> Some r
      \<Longrightarrow> wd_runs db r \<noteq> None \<and> wd_columns db r \<noteq> None \<and> r \<notin> training_runs db"
  shows "wf_ok (db\<lparr>wd_folds := map h (wd_folds db)\<rparr>) \<and> evolves db (db\<lparr>wd_folds := map h (wd_folds db)\<rparr>)"
proof -
  let ?db = "db\<lparr>wd_folds := map h (wd_folds db)\<rparr>"
  have same: "fr_id (h f) = fr_id f" "fr_validation (h f) = fr_validation f" "fr_window (h f) = fr_window f" if "f \<in> set (wd_folds db)" for f
    using core [OF that] by (auto simp: fold_core_def)
  have ids: "map fr_id (map h (wd_folds db)) = map fr_id (wd_folds db)" using same(1) by simp
  then have f: "fr_id ` h ` set (wd_folds db) = fids db" by (metis image_set)
  have "distinct (map (fr_id \<circ> h) (wd_folds db))" using ok ids by (metis ids_ok_def map_map wf_ok_def)
  then have "ids_ok ?db" using ok unfolding wf_ok_def ids_ok_def issued_def by (simp add: f)
  moreover have "training_ok ?db t" if "t \<in> set (wd_trainings db)" for t
  proof -
    from ok that have "training_ok db t" by (simp add: wf_ok_def)
    then show ?thesis using same unfolding training_ok_def by (simp add: f)
  qed
  moreover have "fold_ok ?db (h x)" if "x \<in> set (wd_folds db)" for x
  proof -
    from ok that have "fold_ok db x" by (simp add: wf_ok_def)
    then show ?thesis using same [OF that] test [OF that] unfolding fold_ok_def by auto
  qed
  moreover have "map fold_core (folds_of ?db vid) = map fold_core (folds_of db vid)" for vid
    using core by (simp add: folds_of_map folds_of_set)
  then have "evolves db ?db" unfolding evolves_def evolves_in_def by (simp add: f validation_of_def trainings_of_def)
  ultimately show ?thesis by (simp add: wf_ok_def)
qed

lemma change_fold_sound:
  assumes "wf_ok db" and "\<And>f. fold_core (g f) = fold_core f" and "\<And>f. fr_test (g f) = fr_test f"
  shows "wf_ok (change_fold fid g db) \<and> evolves db (change_fold fid g db)"
  unfolding change_fold_def by (rule mapped_folds_sound) (use assms in \<open>auto split: if_splits\<close>)

lemma find_map_same:
  assumes "\<And>v. vr_id (h v) = vr_id v"
  shows "List.find (\<lambda>v. vr_id v = vid) (map h vs) = map_option h (List.find (\<lambda>v. vr_id v = vid) vs)"
  using assms by (induction vs) auto

lemma change_validation_sound:
  assumes ok: "wf_ok db" and core: "\<And>v. vr_id (g v) = vr_id v \<and> vr_spec (g v) = vr_spec v \<and> (vr_cancel v \<longrightarrow> vr_cancel (g v))"
  shows "wf_ok (change_validation vid g db) \<and> evolves db (change_validation vid g db)"
proof -
  let ?db = "change_validation vid g db"
  define h where "h v = (if vr_id v = vid then g v else v)" for v
  have h: "vr_id (h v) = vr_id v" "vr_spec (h v) = vr_spec v" "vr_cancel v \<longrightarrow> vr_cancel (h v)" for v using core by (auto simp: h_def)
  have vals: "wd_validations ?db = map h (wd_validations db)" by (simp add: change_validation_def h_def)
  have v: "vids ?db = vids db" by (simp add: vals image_image h)
  have d: "map vr_id (wd_validations ?db) = map vr_id (wd_validations db)" by (simp add: vals comp_def h)
  have rest: "wd_folds ?db = wd_folds db" "wd_trainings ?db = wd_trainings db" "wd_columns ?db = wd_columns db" "wd_runs ?db = wd_runs db"
    "wd_issued ?db = wd_issued db" by (simp_all add: change_validation_def)
  have "validation_of ?db x = map_option h (validation_of db x)" for x
    unfolding validation_of_def vals by (simp add: find_map_same h)
  then have "evolves db ?db" unfolding evolves_def evolves_in_def folds_of_def trainings_of_def rest v using h by auto
  moreover have "wf_ok ?db" using ok unfolding wf_ok_def ids_ok_def training_ok_def fold_ok_def issued_def rest v d .
  ultimately show ?thesis by blast
qed

interpretation fold_update: table_operation "update_fold now fid status error" for now fid status error
  by unfold_locales (simp add: update_fold_def change_fold_sound fold_core_def)

interpretation finishing: table_operation "finish_validation now vid aggregate" for now vid aggregate
  by unfold_locales (simp add: finish_validation_def change_validation_sound)

interpretation cancelling: table_operation "change_validation vid (\<lambda>v. v\<lparr>vr_cancel := True\<rparr>)" for vid
  by unfold_locales (simp add: change_validation_sound)

section \<open>Insertions\<close>

lemma issued_fresh: "\<not> issued db (show_nat (wd_issued db))"
  by (auto simp: issued_def)

lemma issued_mono: "issued db x \<Longrightarrow> wd_issued db \<le> wd_issued db' \<Longrightarrow> issued db' x"
  unfolding issued_def using less_le_trans by blast

lemma wf_ok_fresh:
  assumes "wf_ok db" and "\<not> issued db x"
  shows "x \<notin> vids db" "x \<notin> fids db" "x \<notin> training_runs db" "wd_runs db x = None" "wd_columns db x = None"
    "f \<in> set (wd_folds db) \<Longrightarrow> fr_test f \<noteq> Some x" "f \<in> set (wd_folds db) \<Longrightarrow> fr_validation f \<noteq> x" "t \<in> set (wd_trainings db) \<Longrightarrow> tr_fold t \<noteq> x"
proof -
  from assms have "\<forall>y \<in> vids db \<union> fids db \<union> training_runs db \<union> dom (wd_runs db) \<union> dom (wd_columns db). y \<noteq> x" unfolding wf_ok_def ids_ok_def by blast
  then show n: "x \<notin> vids db" "x \<notin> fids db" "x \<notin> training_runs db" "wd_runs db x = None" "wd_columns db x = None" by auto
  show "f \<in> set (wd_folds db) \<Longrightarrow> fr_test f \<noteq> Some x" using assms(1) n(4) by (auto simp: wf_ok_def fold_ok_def)
  show "f \<in> set (wd_folds db) \<Longrightarrow> fr_validation f \<noteq> x" using assms(1) n(1) by (auto simp: wf_ok_def fold_ok_def)
  show "t \<in> set (wd_trainings db) \<Longrightarrow> tr_fold t \<noteq> x" using assms(1) n(2) by (auto simp: wf_ok_def training_ok_def)
qed

definition next_id :: "wf_db \<Rightarrow> wf_db" where
  "next_id db = db\<lparr>wd_issued := Suc (wd_issued db)\<rparr>"

lemma new_id_eq: "new_id db = (show_nat (wd_issued db), next_id db)"
  by (simp add: new_id_def next_id_def)

lemma next_id_simps [simp]:
  "wd_validations (next_id db) = wd_validations db" "wd_folds (next_id db) = wd_folds db" "wd_trainings (next_id db) = wd_trainings db"
  "wd_columns (next_id db) = wd_columns db" "wd_runs (next_id db) = wd_runs db" "wd_issued (next_id db) = Suc (wd_issued db)"
  "issued (next_id db) (show_nat (wd_issued db))" "validation_of (next_id db) = validation_of db"
  "folds_of (next_id db) = folds_of db" "trainings_of (next_id db) = trainings_of db"
  by (auto simp: next_id_def issued_def validation_of_def folds_of_def trainings_of_def)

lemma next_id_ok: "wf_ok db \<Longrightarrow> wf_ok (next_id db)"
  using issued_mono [of db _ "next_id db"] by (simp add: wf_ok_def ids_ok_def training_ok_def fold_ok_def)

lemma insert_run_simps [simp]:
  "wd_validations (insert_run x c db) = wd_validations db" "wd_folds (insert_run x c db) = wd_folds db" "wd_trainings (insert_run x c db) = wd_trainings db"
  "wd_columns (insert_run x c db) = (wd_columns db)(x \<mapsto> c)" "wd_issued (insert_run x c db) = wd_issued db"
  "wd_runs (insert_run x c db) y = None \<longleftrightarrow> y \<noteq> x \<and> wd_runs db y = None" "y \<noteq> x \<Longrightarrow> wd_runs (insert_run x c db) y = wd_runs db y"
  "validation_of (insert_run x c db) = validation_of db" "folds_of (insert_run x c db) = folds_of db" "trainings_of (insert_run x c db) = trainings_of db"
  by (auto simp: insert_run_def run_create_def validation_of_def folds_of_def trainings_of_def)

lemma insert_run_ok:
  assumes "wf_ok db"
  shows "wf_ok (insert_run (show_nat (wd_issued db)) c (next_id db))" and "evolves_in V F db (insert_run (show_nat (wd_issued db)) c (next_id db))"
proof -
  let ?x = "show_nat (wd_issued db)" let ?db = "insert_run ?x c (next_id db)"
  note n = wf_ok_fresh [OF assms issued_fresh]
  have i: "issued ?db y \<longleftrightarrow> y = ?x \<or> issued db y" for y by (auto simp: issued_def less_Suc_eq)
  have "dom (wd_runs ?db) = insert ?x (dom (wd_runs db))" by (auto simp: insert_run_def run_create_def)
  then have "ids_ok ?db" using assms by (auto simp: wf_ok_def ids_ok_def i)
  moreover have "training_ok ?db t" if "t \<in> set (wd_trainings db)" for t
  proof -
    from that n(3) have "tr_run t \<noteq> ?x" by (metis imageI)
    with assms that show ?thesis by (simp add: wf_ok_def training_ok_def)
  qed
  moreover have "fold_ok ?db f" if "f \<in> set (wd_folds db)" for f
    using assms that n(6) [OF that] by (auto simp: wf_ok_def fold_ok_def)
  ultimately show "wf_ok ?db" by (simp add: wf_ok_def)
  have "wd_columns db \<subseteq>\<^sub>m (wd_columns db)(?x \<mapsto> c)" using n(5) by (auto simp: map_le_def)
  moreover have "wd_runs ?db (tr_run t) = wd_runs db (tr_run t)" if "t \<in> set (wd_trainings db)" for t
    using that n(3) by (metis imageI insert_run_simps(7) next_id_simps(5))
  ultimately show "evolves_in V F db ?db" by (simp add: evolves_in_def)
qed

text \<open>The statements of a creation, for a transaction that began with the validations \<open>V\<close> and the folds \<open>F\<close>.\<close>

lemma insert_training_ok:
  assumes "wf_ok db" and "f \<in> set (wd_folds db)" and "fr_id f \<notin> F" and "insert_training s (fr_id f) (fr_window f) db c = Inr db'"
  shows "wf_ok db' \<and> evolves_in V F db db' \<and> wd_folds db' = wd_folds db \<and> wd_validations db' = wd_validations db"
proof -
  let ?x = "show_nat (wd_issued db)"
  let ?c = "columns_of s (cp_configuration c) (with_costs s (cp_execution c)) (fo_training_start (fr_window f)) (fo_training_end (fr_window f))"
  let ?t = "\<lparr>tr_fold = fr_id f, tr_variant = cp_variant c, tr_name = cp_name c, tr_position = cp_position c, tr_run = ?x\<rparr>"
  let ?db = "insert_run ?x ?c (next_id db)"
  from assms(4) have db': "db' = ?db\<lparr>wd_trainings := wd_trainings db @ [?t]\<rparr>" and key: "\<forall>t \<in> set (wd_trainings db). (tr_fold t, tr_variant t) \<noteq> (fr_id f, cp_variant c)"
    by (auto simp: insert_training_def new_id_eq list_ex_iff Let_def split: if_splits)
  note ok = insert_run_ok [OF assms(1), where c = ?c]
  note n = wf_ok_fresh [OF assms(1) issued_fresh]
  have only: "g = f" if "g \<in> set (wd_folds db)" "fr_id g = fr_id f" for g
    using assms(1,2) that by (auto simp: wf_ok_def ids_ok_def distinct_map inj_on_def)
  have "issued db' x = issued ?db x" for x by (simp add: db' issued_def)
  then have "ids_ok db'" using ok(1) n(3) key by (auto simp: db' wf_ok_def ids_ok_def)
  moreover have "training_ok db' t" if "t \<in> set (wd_trainings db')" for t
  proof (cases "t = ?t")
    case True
    then show ?thesis using only assms(2) by (auto simp: training_ok_def db' columns_of_def)
  next
    case False
    with that ok(1) have "training_ok ?db t" by (auto simp: wf_ok_def db')
    then show ?thesis by (simp add: training_ok_def db')
  qed
  moreover have "fold_ok db' g" if "g \<in> set (wd_folds db')" for g
    using ok(1) that n(6) [of g] by (auto simp: wf_ok_def fold_ok_def db')
  moreover have "trainings_of db' fid = trainings_of ?db fid" if "fid \<in> F" for fid using that assms(3) by (auto simp: db' trainings_of_def)
  then have "evolves_in V F ?db db'" by (auto simp: evolves_in_def db' validation_of_def folds_of_def)
  ultimately show ?thesis using evolves_in_trans [OF ok(2)] by (simp add: wf_ok_def) (simp add: db')
qed

text \<open>During a transaction folds are only appended, and they have no test run.\<close>

definition appends_folds :: "wf_db \<Rightarrow> wf_db \<Rightarrow> bool" where
  "appends_folds db db' \<longleftrightarrow> (\<exists>new. wd_folds db' = wd_folds db @ new \<and> (\<forall>f \<in> set new. fr_test f = None))"

lemma appends_folds_refl [simp]: "appends_folds db db" "wd_folds db' = wd_folds db \<Longrightarrow> appends_folds db db'"
  by (simp_all add: appends_folds_def)

lemma appends_folds_trans: "appends_folds db1 db2 \<Longrightarrow> appends_folds db2 db3 \<Longrightarrow> appends_folds db1 db3"
  by (auto simp: appends_folds_def)

lemma insert_fold_ok:
  assumes "wf_ok db" and "vid \<in> vids db" and "vid \<notin> V" and "F \<subseteq> fids db" and "insert_fold s vid cs db f = Inr db'"
  shows "wf_ok db' \<and> evolves_in V F db db' \<and> appends_folds db db' \<and> wd_validations db' = wd_validations db"
proof -
  let ?x = "show_nat (wd_issued db)"
  let ?f = "\<lparr>fr_id = ?x, fr_validation = vid, fr_window = f, fr_status = FQueued, fr_error = None, fr_selected = None, fr_rank = None, fr_test = None, fr_completed = None\<rparr>"
  let ?db = "(next_id db)\<lparr>wd_folds := wd_folds db @ [?f]\<rparr>"
  from assms(5) have checks: "fold_checks f" and loop: "rfold (insert_training s ?x f) ?db cs = Inr db'"
    by (auto simp: insert_fold_def new_id_eq split: if_splits)
  note n = wf_ok_fresh [OF assms(1) issued_fresh]
  note nid = next_id_ok [OF assms(1)]
  have i: "issued ?db x = issued (next_id db) x" for x by (simp add: issued_def)
  have "ids_ok ?db" using nid n(2) i next_id_simps(7) [of db] unfolding wf_ok_def ids_ok_def by auto
  moreover have "training_ok ?db t" if "t \<in> set (wd_trainings ?db)" for t
    using nid that n(8) [of t] by (auto simp: wf_ok_def training_ok_def)
  moreover have "fold_ok ?db g" if "g \<in> set (wd_folds ?db)" for g
    using nid that assms(2) checks by (auto simp: wf_ok_def fold_ok_def)
  ultimately have ok: "wf_ok ?db" by (simp add: wf_ok_def)
  have "folds_of ?db v = folds_of db v" if "v \<in> V" for v using that assms(3) by (auto simp: folds_of_def)
  then have e: "evolves_in V F db ?db" by (simp add: evolves_in_def validation_of_def trainings_of_def)
  define P where "P d \<longleftrightarrow> wf_ok d \<and> evolves_in V F ?db d \<and> wd_folds d = wd_folds ?db \<and> wd_validations d = wd_validations ?db" for d
  have "P db'"
  proof (rule rfold_invariant [OF _ _ loop])
    fix d c d' assume "P d" "insert_training s ?x f d c = Inr d'"
    moreover have "?x \<notin> F" using assms(4) n(2) by blast
    ultimately show "P d'" using insert_training_ok [of d ?f F s c d'] unfolding P_def by (auto intro: evolves_in_trans)
  qed (simp add: P_def ok)
  then show ?thesis using evolves_in_trans [OF e] by (simp add: P_def appends_folds_def)
qed

lemma find_app: "List.find P (xs @ ys) = (case List.find P xs of None \<Rightarrow> List.find P ys | Some x \<Rightarrow> Some x)"
  by (induction xs) auto

lemma validation_found: "vid \<in> vids db \<Longrightarrow> \<exists>v \<in> set (wd_validations db). validation_of db vid = Some v \<and> vr_id v = vid"
  unfolding validation_of_def by (cases "List.find (\<lambda>v. vr_id v = vid) (wd_validations db)") (auto simp: find_None_iff find_Some_iff)

lemma create_rows_ok:
  assumes "wf_ok db" and "create_rows now s key folds cs db = Inr (vid, created, db')"
  shows "wf_ok db' \<and> evolves db db' \<and> appends_folds db db'"
proof (cases created)
  case False
  with assms(2) have "db' = next_id db" by (auto simp: create_rows_def new_id_eq rbind_eq_Inr split: if_splits option.splits)
  with next_id_ok [OF assms(1)] show ?thesis by (simp add: evolves_def evolves_in_def)
next
  case True
  let ?x = "show_nat (wd_issued db)"
  let ?v = "\<lparr>vr_id = ?x, vr_key = py_strip key, vr_spec = s, vr_cancel = False, vr_aggregate = None, vr_created = now, vr_completed = None\<rparr>"
  let ?db = "(next_id db)\<lparr>wd_validations := wd_validations db @ [?v]\<rparr>"
  from True assms(2) have loop: "rfold (insert_fold s ?x cs) ?db folds = Inr db'"
    by (auto simp: create_rows_def new_id_eq rbind_eq_Inr split: if_splits option.splits)
  note n = wf_ok_fresh [OF assms(1) issued_fresh]
  note nid = next_id_ok [OF assms(1)]
  have i: "issued ?db x = issued (next_id db) x" for x by (simp add: issued_def)
  have "ids_ok ?db" using nid n(1) i next_id_simps(7) [of db] unfolding wf_ok_def ids_ok_def by auto
  then have ok: "wf_ok ?db" using nid by (auto simp: wf_ok_def training_ok_def fold_ok_def)
  have "validation_of ?db vid = validation_of db vid" if "vid \<in> vids db" for vid
    using validation_found [OF that] by (auto simp: validation_of_def find_app)
  then have e: "evolves_in (vids db) (fids db) db ?db" by (simp add: evolves_in_def folds_of_def trainings_of_def)
  define P where "P d \<longleftrightarrow> wf_ok d \<and> evolves_in (vids db) (fids db) ?db d \<and> appends_folds ?db d \<and> wd_validations d = wd_validations ?db" for d
  have "P db'"
  proof (rule rfold_invariant [OF _ _ loop])
    fix d f d' assume p: "P d" "insert_fold s ?x cs d f = Inr d'"
    then have "fids db \<subseteq> fids d" "?x \<in> vids d" by (auto simp: P_def appends_folds_def)
    with p n(1) show "P d'" using insert_fold_ok [of d ?x "vids db" "fids db" s cs f d'] unfolding P_def
      by (auto intro: evolves_in_trans appends_folds_trans)
  qed (simp add: P_def ok)
  then show ?thesis using evolves_in_trans [OF e] by (auto simp: P_def evolves_def appends_folds_def)
qed

text \<open>The first call for a fold creates its test run, every later one returns it.\<close>

lemma create_test_run_ok:
  assumes "wf_ok db" and "create_test_run fid cv db = Inr (r, db')"
  shows "wf_ok db' \<and> evolves db db' \<and> (\<exists>f \<in> set (wd_folds db'). fr_id f = fid \<and> fr_test f = Some (ru_id r))"
proof -
  from assms(2) obtain f v where f: "List.find (\<lambda>f. fr_id f = fid) (wd_folds db) = Some f" and v: "validation_of db (fr_validation f) = Some v"
    by (auto simp: create_test_run_def split: option.splits)
  then have mem: "f \<in> set (wd_folds db)" "fr_id f = fid" by (auto simp: find_Some_iff)
  show ?thesis
  proof (cases "fr_test f")
    case (Some x)
    with assms f v mem show ?thesis by (auto simp: create_test_run_def public_run_def split: option.splits)
  next
    case None
    let ?x = "show_nat (wd_issued db)"
    let ?c = "columns_of (vr_spec v) (cp_configuration (selected_of cv)) (cp_execution (selected_of cv)) (fo_testing_start (fr_window f)) (fo_testing_end (fr_window f))"
    let ?db = "insert_run ?x ?c (next_id db)"
    let ?g = "\<lambda>f. f\<lparr>fr_selected := Some (selected_of cv), fr_rank := Some 1, fr_test := Some ?x, fr_status := FTesting\<rparr>"
    note ok = insert_run_ok [OF assms(1), where c = ?c]
    note n = wf_ok_fresh [OF assms(1) issued_fresh]
    from None f v assms(2) have db': "db' = change_fold fid ?g ?db" and id: "ru_id r = ?x"
      by (auto simp: create_test_run_def new_id_eq Let_def public_run_def split: option.splits)
    have "wf_ok db' \<and> evolves ?db db'" unfolding db' change_fold_def
      by (rule mapped_folds_sound [OF ok(1)]) (auto simp: fold_core_def n(3) split: if_splits)
    moreover have "evolves db ?db" using ok(2) by (simp add: evolves_def)
    moreover have "?g f \<in> set (wd_folds db')" using mem by (auto simp: db' change_fold_def intro: rev_image_eqI)
    ultimately show ?thesis using id mem(2) by (auto intro: evolves_trans bexI [of _ "?g f"])
  qed
qed

text \<open>A change of the run table that leaves ended training runs alone.\<close>

lemma runs_changed_ok:
  assumes "wf_ok db" and "dom t = dom (wd_runs db)"
    and "\<And>x r. x \<in> training_runs db \<Longrightarrow> wd_runs db x = Some r \<Longrightarrow> terminal_run r \<Longrightarrow> t x = Some r"
  shows "wf_ok (db\<lparr>wd_runs := t\<rparr>)" and "evolves db (db\<lparr>wd_runs := t\<rparr>)"
proof -
  have d: "t x = None \<longleftrightarrow> wd_runs db x = None" for x using assms(2) by (metis domIff)
  show "wf_ok (db\<lparr>wd_runs := t\<rparr>)" using assms(1,2) by (simp add: wf_ok_def ids_ok_def issued_def training_ok_def fold_ok_def d)
  show "evolves db (db\<lparr>wd_runs := t\<rparr>)" using assms(3) by (auto simp: evolves_def evolves_in_def validation_of_def folds_of_def trainings_of_def)
qed

lemma view_found:
  assumes "wf_ok db" and "vid \<in> vids db"
  shows "\<exists>v view. validation_get db vid = Inr view \<and> validation_of db vid = Some v \<and> vv_row view = v
    \<and> map fv_row (vv_folds view) = folds_of db vid
    \<and> (\<forall>fv \<in> set (vv_folds view). fv_candidates fv = candidate_views db (fr_id (fv_row fv))
        \<and> map_option ru_id (fv_test fv) = fr_test (fv_row fv))"
proof -
  from validation_found [OF assms(2)] obtain v where v: "validation_of db vid = Some v" by blast
  have row: "\<exists>fv. fold_view_of db f = Inr fv \<and> fv_row fv = f \<and> fv_candidates fv = candidate_views db (fr_id f) \<and> map_option ru_id (fv_test fv) = fr_test f"
    if "f \<in> set (wd_folds db)" for f
  proof -
    from assms(1) that have "fold_ok db f" by (simp add: wf_ok_def)
    then show ?thesis by (cases "fr_test f") (auto simp: fold_view_of_def fold_ok_def public_run_def)
  qed
  have "\<exists>fvs. rmap_list (fold_view_of db) fs = Inr fvs \<and> map fv_row fvs = fs
      \<and> (\<forall>fv \<in> set fvs. fv_candidates fv = candidate_views db (fr_id (fv_row fv)) \<and> map_option ru_id (fv_test fv) = fr_test (fv_row fv))"
    if "set fs \<subseteq> set (wd_folds db)" for fs
    using that
  proof (induction fs)
    case (Cons f fs)
    with row [of f] show ?case by (auto simp: rbind_eq_Inr)
  qed simp
  from this [of "folds_of db vid"] v show ?thesis by (auto simp: validation_get_def folds_of_set Let_def)
qed

end
