(* ===== verification/Walk_Forward_Jobs.thy ===== *)
theory Walk_Forward_Jobs
  imports Walk_Forward_Store
begin

text \<open>
  \<open>backend/research/walk_forward_jobs.py\<close>: the bounded queue of validations and the coordinator that takes one validation
  from fold to fold: wait for the training runs, rank them, create and run the test of the winner. Its local
  variables between two accesses to the database are the phase of the job, and one access is one step, so
  the backtest workers, requests for cancellation and new validations interleave between any two of them.
  Reading a validation is one access.
\<close>

section \<open>The queue of validations\<close>

record wf_queue =
  wq_max_pending :: int
  wq_reserved :: nat
  wq_futures :: "string list"
  wq_used :: "bool list"
  wq_shut_down :: bool

definition wq_reserve :: "wf_queue \<Rightarrow> (nat \<times> wf_queue) res" where
  "wq_reserve q =
     (if int (length (wq_futures q) + wq_reserved q) \<ge> wq_max_pending q then Inl (BacktestQueueFull (length (wq_futures q) + wq_reserved q))
      else Inr (length (wq_used q), q\<lparr>wq_reserved := Suc (wq_reserved q), wq_used := wq_used q @ [False]\<rparr>))"

definition wq_submit_reserved :: "wf_queue \<Rightarrow> string \<Rightarrow> (py_error \<times> wf_queue) + wf_queue" where
  "wq_submit_reserved q vid =
     (if wq_reserved q < 1 then Inl (RuntimeError ''Walk-forward queue reservation was lost'', q)
      else let q1 = q\<lparr>wq_reserved := wq_reserved q - 1\<rparr>
           in if vid \<in> set (wq_futures q1) then Inr q1
              else if wq_shut_down q1 then Inl (RuntimeError ''cannot schedule new futures after shutdown'', q1)
              else Inr (q1\<lparr>wq_futures := wq_futures q1 @ [vid]\<rparr>))"

definition wq_submit :: "wf_queue \<Rightarrow> nat \<Rightarrow> string \<Rightarrow> (py_error \<times> wf_queue) + wf_queue" where
  "wq_submit q i vid =
     (if wq_used q ! i then Inl (RuntimeError ''Walk-forward reservation is no longer active'', q)
      else rbind (wq_submit_reserved q vid) (\<lambda>q1. Inr (q1\<lparr>wq_used := (wq_used q1)[i := True]\<rparr>)))"

definition wq_release :: "wf_queue \<Rightarrow> nat \<Rightarrow> wf_queue" where
  "wq_release q i = (if wq_used q ! i then q else q\<lparr>wq_reserved := wq_reserved q - 1, wq_used := (wq_used q)[i := True]\<rparr>)"

text \<open>\<open>submit\<close>: the exit of the reservation releases it unless it was used.\<close>

definition wq_submit_validation :: "wf_queue \<Rightarrow> string \<Rightarrow> (py_error \<times> wf_queue) + wf_queue" where
  "wq_submit_validation q vid =
     (case wq_reserve q of
        Inl e \<Rightarrow> Inl (e, q)
      | Inr (i, q1) \<Rightarrow> (case wq_submit q1 i vid of Inl (e, q2) \<Rightarrow> Inl (e, wq_release q2 i) | Inr q2 \<Rightarrow> Inr (wq_release q2 i)))"

definition wq_done :: "string \<Rightarrow> wf_queue \<Rightarrow> wf_queue" where
  "wq_done vid q = q\<lparr>wq_futures := filter (\<lambda>x. x \<noteq> vid) (wq_futures q)\<rparr>"

definition wq_shutdown :: "wf_queue \<Rightarrow> wf_queue" where
  "wq_shutdown q = q\<lparr>wq_shut_down := True\<rparr>"

section \<open>Ranking what the training runs wrote\<close>

text \<open>The metrics of a run as the dict that is stored.\<close>

definition summary_row :: "run_summary \<Rightarrow> metric_row" where
  "summary_row s =
     [(''totalSignals'', Some (real (rsm_total_signals s))), (''completedTrades'', Some (real (rsm_completed s))),
      (''targetHits'', Some (real (rsm_target_hits s))), (''stoppedTrades'', Some (real (rsm_stopped s))),
      (''expiredTrades'', Some (real (rsm_expired s))), (''openTrades'', Some (real (rsm_open s))), (''realizedPnl'', Some (rsm_realized s)),
      (''profitableTrades'', Some (real (rsm_profitable s))), (''losingTrades'', Some (real (rsm_losing s))),
      (''breakevenTrades'', Some (real (rsm_breakeven s))), (''grossProfit'', Some (rsm_gross_profit s)), (''grossLoss'', Some (rsm_gross_loss s)),
      (''profitFactor'', rsm_profit_factor s), (''unrealizedPnl'', Some (rsm_unrealized s)), (''fees'', Some (rsm_fees s)),
      (''slippage'', Some (rsm_slippage s)), (''exposureMinutes'', Some (rsm_exposure_minutes s)), (''winRate'', rsm_win_rate s),
      (''averageMaePct'', rsm_average_mae s), (''averageMfePct'', rsm_average_mfe s), (''averageHoldingMinutes'', rsm_average_holding s),
      (''medianHoldingMinutes'', rsm_median_holding s), (''maximumDrawdown'', Some (rsm_maximum_drawdown s)),
      (''symbolsProcessed'', Some (real (rsm_symbols_processed s))), (''symbolsFailed'', Some (real (rsm_symbols_failed s)))]"

fun run_status_name :: "run_status \<Rightarrow> string" where
  "run_status_name QUEUED = ''QUEUED''" | "run_status_name RUNNING = ''RUNNING''" | "run_status_name COMPLETE = ''COMPLETE''"
| "run_status_name CANCELLED = ''CANCELLED''" | "run_status_name FAILED = ''FAILED''" | "run_status_name INTERRUPTED = ''INTERRUPTED''"

definition ranking_candidate :: "candidate_view \<Rightarrow> candidate" where
  "ranking_candidate cv = \<lparr>cn_id = tr_variant (cv_training cv), cn_position = Some (tr_position (cv_training cv)),
     cn_status = Some (run_status_name (rw_status (ru_row (cv_run cv)))), cn_metrics = map_option summary_row (rw_metrics (ru_row (cv_run cv)))\<rparr>"

text \<open>
  The metrics of a run that has none are \<open>None\<close>, whose \<open>get\<close> raises when a complete run is tested for its trades. The
  ranking gives back the candidates themselves, found by their variant.
\<close>

definition rank_training :: "candidate_view list \<Rightarrow> validation_spec \<Rightarrow> candidate_view list res" where
  "rank_training cvs s =
     (if vs_objective s \<in> set RANKING_OBJECTIVES
         \<and> list_ex (\<lambda>cv. rw_status (ru_row (cv_run cv)) = COMPLETE \<and> rw_metrics (ru_row (cv_run cv)) = None) cvs
      then Inl (AttributeError ''get'')
      else rbind (rank_completed_candidates (map ranking_candidate cvs) (vs_objective s) (vs_minimum_trades s)) (\<lambda>ranked.
        Inr (List.map_filter (\<lambda>c. List.find (\<lambda>cv. tr_variant (cv_training cv) = cn_id c) cvs) ranked)))"

section \<open>The world of a job\<close>

datatype wf_phase =
    Opening
  | Begin
  | Train string
  | AwaitTraining
  | Trained fold_view
  | Reject string
  | Select string candidate_view
  | Submit string backtest_request
  | AwaitTest string string
  | Settle string run_view
  | Finishing
  | Crashed py_error
  | Done

record wf_job =
  wj_validation :: string
  wj_count :: int
  wj_position :: nat
  wj_phase :: wf_phase

record wf_world =
  ww_db :: wf_db
  ww_queue :: runner_state
  ww_cancels :: "fold_view list"
  ww_job :: "wf_job option"

definition set_runs :: "run_table \<Rightarrow> wf_world \<Rightarrow> wf_world" where
  "set_runs t w = w\<lparr>ww_db := (ww_db w)\<lparr>wd_runs := t\<rparr>\<rparr>"

definition on_db :: "(wf_db \<Rightarrow> wf_db) \<Rightarrow> wf_world \<Rightarrow> wf_world" where
  "on_db g w = w\<lparr>ww_db := g (ww_db w)\<rparr>"

type_synonym world_res = "(py_error \<times> wf_world) + wf_world"

definition left_world :: "world_res \<Rightarrow> wf_world" where
  "left_world r = (case r of Inl (_, w) \<Rightarrow> w | Inr w \<Rightarrow> w)"

text \<open>\<open>backtests.cancel\<close>, for one run and for the runs of a fold as it was read; a fold that had ended is left alone.\<close>

definition cancel_run :: "wf_world \<Rightarrow> run_view \<Rightarrow> world_res" where
  "cancel_run w r =
     (if terminal_run (ru_row r) then Inr w
      else case job_cancel (ww_queue w) (wd_runs (ww_db w)) (ru_id r) of
        Inl e \<Rightarrow> Inl (e, w)
      | Inr (_, q, t) \<Rightarrow> Inr ((set_runs t w)\<lparr>ww_queue := q\<rparr>))"

definition cancel_fold :: "timestamp \<Rightarrow> fold_view \<Rightarrow> wf_world \<Rightarrow> world_res" where
  "cancel_fold now fv w =
     (if fold_terminal (fr_status (fv_row fv)) then Inr w
      else rbind (rfold cancel_run w (map cv_run (fv_candidates fv) @ (case fv_test fv of None \<Rightarrow> [] | Some r \<Rightarrow> [r])))
        (\<lambda>w1. Inr (on_db (update_fold now (fr_id (fv_row fv)) FCancelled None) w1)))"

section \<open>The coordinator\<close>

definition enter_phase :: "wf_phase \<Rightarrow> wf_job \<Rightarrow> wf_job" where
  "enter_phase p j = j\<lparr>wj_phase := p\<rparr>"

definition next_position :: "wf_job \<Rightarrow> wf_job" where
  "next_position j = j\<lparr>wj_position := Suc (wj_position j), wj_phase := Begin\<rparr>"

text \<open>An exception ends the loop over the folds.\<close>

definition attempt :: "'a res \<Rightarrow> wf_job \<Rightarrow> wf_world \<Rightarrow> ('a \<Rightarrow> wf_job \<times> wf_world) \<Rightarrow> wf_job \<times> wf_world" where
  "attempt r j w k = (case r of Inl e \<Rightarrow> (enter_phase (Crashed e) j, w) | Inr x \<Rightarrow> k x)"

definition attempt_world :: "world_res \<Rightarrow> wf_job \<Rightarrow> (wf_world \<Rightarrow> wf_job \<times> wf_world) \<Rightarrow> wf_job \<times> wf_world" where
  "attempt_world r j k = (case r of Inl (e, w) \<Rightarrow> (enter_phase (Crashed e) j, w) | Inr w \<Rightarrow> k w)"

text \<open>\<open>validation["folds"][position - 1]\<close>, with positions from one.\<close>

definition fold_numbered :: "validation_view \<Rightarrow> nat \<Rightarrow> fold_view res" where
  "fold_numbered view p = (if p - 1 < length (vv_folds view) then Inr (vv_folds view ! (p - 1)) else Inl IndexError)"

definition current :: "wf_job \<Rightarrow> wf_world \<Rightarrow> validation_view res" where
  "current j w = validation_get (ww_db w) (wj_validation j)"

definition current_fold :: "wf_job \<Rightarrow> wf_world \<Rightarrow> (validation_view \<times> fold_view) res" where
  "current_fold j w = rbind (current j w) (\<lambda>view. rbind (fold_numbered view (wj_position j)) (\<lambda>fv. Inr (view, fv)))"

definition view_cancelled :: "validation_view \<Rightarrow> bool" where
  "view_cancelled view = vr_cancel (vv_row view)"

definition step_open :: "wf_job \<Rightarrow> wf_world \<Rightarrow> wf_job \<times> wf_world" where
  "step_open j w = attempt (current j w) j w (\<lambda>view.
     (j\<lparr>wj_count := wl_folds (vs_workload (vr_spec (vv_row view))), wj_position := 1, wj_phase := Begin\<rparr>, w))"

definition step_begin :: "timestamp \<Rightarrow> wf_job \<Rightarrow> wf_world \<Rightarrow> wf_job \<times> wf_world" where
  "step_begin now j w =
     (if int (wj_position j) > wj_count j then (enter_phase Finishing j, w)
      else attempt (current_fold j w) j w (\<lambda>(view, fv).
        if view_cancelled view then attempt_world (cancel_fold now fv w) j (\<lambda>w1. (next_position j, w1))
        else if fold_terminal (fr_status (fv_row fv)) then (next_position j, w)
        else (enter_phase (Train (fr_id (fv_row fv))) j, w)))"

definition step_await_training :: "wf_job \<Rightarrow> wf_world \<Rightarrow> wf_job \<times> wf_world" where
  "step_await_training j w =
     attempt (current_fold j w) j w (\<lambda>(view, fv).
       if view_cancelled view \<or> list_all (\<lambda>cv. terminal_run (ru_row (cv_run cv))) (fv_candidates fv) then (enter_phase (Trained fv) j, w)
       else (j, w))"

definition step_trained :: "timestamp \<Rightarrow> fold_view \<Rightarrow> wf_job \<Rightarrow> wf_world \<Rightarrow> wf_job \<times> wf_world" where
  "step_trained now fv j w =
     attempt (current j w) j w (\<lambda>view.
       if view_cancelled view then attempt_world (cancel_fold now fv w) j (\<lambda>w1. (next_position j, w1))
       else attempt (rank_training (fv_candidates fv) (vr_spec (vv_row view))) j w (\<lambda>ranked.
         case ranked of
           [] \<Rightarrow> (enter_phase (Reject (fr_id (fv_row fv))) j, w)
         | winner # _ \<Rightarrow> (enter_phase (Select (fr_id (fv_row fv)) winner) j, w)))"

definition request_of :: "run_view \<Rightarrow> backtest_request res" where
  "request_of r =
     (let c = ru_columns r in
      rbind (settings_from_mapping (rc_execution c) (rc_market c = ''NSE'')) (\<lambda>execution.
        Inr \<lparr>br_run_id = ru_id r, br_market = rc_market c, br_strategy_id = rc_strategy_id c, br_symbols = rc_symbols c,
          br_timeframe = rc_timeframe c, br_start_date = rc_start c, br_end_date = rc_end c, br_configuration = rc_configuration c,
          br_execution = execution\<rparr>))"

definition step_select :: "string \<Rightarrow> candidate_view \<Rightarrow> wf_job \<Rightarrow> wf_world \<Rightarrow> wf_job \<times> wf_world" where
  "step_select fid winner j w =
     attempt (create_test_run fid winner (ww_db w)) j w (\<lambda>(r, db).
       let w1 = w\<lparr>ww_db := db\<rparr> in attempt (request_of r) j w1 (\<lambda>request. (enter_phase (Submit fid request) j, w1)))"

text \<open>A full queue is tried again; a cancelled validation ends its run, which no worker knows.\<close>

definition step_submit :: "string \<Rightarrow> backtest_request \<Rightarrow> wf_job \<Rightarrow> wf_world \<Rightarrow> wf_job \<times> wf_world" where
  "step_submit fid request j w =
     (let rid = br_run_id request in
      attempt (current j w) j w (\<lambda>view.
        if view_cancelled view then
          attempt (job_cancel (ww_queue w) (wd_runs (ww_db w)) rid) j w (\<lambda>(_, q, t).
            let w1 = (set_runs t w)\<lparr>ww_queue := q\<rparr>
            in attempt (run_finish t rid CANCELLED None None) j w1 (\<lambda>(_, t1). (enter_phase (AwaitTest fid rid) j, set_runs t1 w1)))
        else case submit_many (ww_queue w) [rid] of
            Inr q \<Rightarrow> (enter_phase (AwaitTest fid rid) j, w\<lparr>ww_queue := q\<rparr>)
          | Inl (BacktestQueueFull n, q) \<Rightarrow> (j, w\<lparr>ww_queue := q\<rparr>)
          | Inl (e, q) \<Rightarrow> (enter_phase (Crashed e) j, w\<lparr>ww_queue := q\<rparr>)))"

definition step_await_test :: "string \<Rightarrow> string \<Rightarrow> wf_job \<Rightarrow> wf_world \<Rightarrow> wf_job \<times> wf_world" where
  "step_await_test fid rid j w =
     attempt (current j w) j w (\<lambda>view.
       case List.find (\<lambda>r. ru_id r = rid) (List.map_filter fv_test (vv_folds view)) of
         None \<Rightarrow> (j, w)
       | Some r \<Rightarrow>
           if terminal_run (ru_row r) then (enter_phase (Settle fid r) j, w)
           else if view_cancelled view then attempt_world (cancel_run w r) j (\<lambda>w1. (j, w1))
           else (j, w))"

definition step_settle :: "timestamp \<Rightarrow> string \<Rightarrow> run_view \<Rightarrow> wf_job \<Rightarrow> wf_world \<Rightarrow> wf_job \<times> wf_world" where
  "step_settle now fid r j w =
     (let row = ru_row r;
          (status, error) = (if rw_status row = COMPLETE then (FComplete, None)
            else if rw_status row = CANCELLED then (FCancelled, None)
            else (FFailed, Some (case rw_error row of Some (ch # text) \<Rightarrow> ch # text | _ \<Rightarrow> ''Unseen test run failed'')))
      in (next_position j, on_db (update_fold now fid status error) w))"

text \<open>The metrics of the tests that completed; a complete fold without a test run raises.\<close>

definition unseen_rows :: "fold_view list \<Rightarrow> metric_row list res" where
  "unseen_rows fvs =
     rbind (rmap_list (\<lambda>fv. case fv_test fv of None \<Rightarrow> Inl (AttributeError ''get'') | Some r \<Rightarrow> Inr (map_option summary_row (rw_metrics (ru_row r))))
         (filter (\<lambda>fv. fr_status (fv_row fv) = FComplete) fvs))
       (\<lambda>rows. Inr (List.map_filter id rows))"

definition step_finish :: "timestamp \<Rightarrow> wf_job \<Rightarrow> wf_world \<Rightarrow> wf_job \<times> wf_world" where
  "step_finish now j w =
     attempt (current j w) j w (\<lambda>view.
       attempt (unseen_rows (vv_folds view)) j w (\<lambda>rows.
         (enter_phase Done j, on_db (finish_validation now (wj_validation j) (aggregate_unseen_metrics rows)) w)))"

text \<open>After an exception every fold that has not ended has failed, unless this raises as well.\<close>

definition step_crash :: "(py_error \<Rightarrow> string) \<Rightarrow> timestamp \<Rightarrow> py_error \<Rightarrow> wf_job \<Rightarrow> wf_world \<Rightarrow> wf_job \<times> wf_world" where
  "step_crash text now e j w =
     (case current j w of
        Inl _ \<Rightarrow> (enter_phase Done j, w)
      | Inr view \<Rightarrow>
          (enter_phase Done j, foldl (\<lambda>w fv. if fold_terminal (fr_status (fv_row fv)) then w
             else on_db (update_fold now (fr_id (fv_row fv)) FFailed (Some (text e))) w) w (vv_folds view)))"

fun coordinator_step :: "(py_error \<Rightarrow> string) \<Rightarrow> timestamp \<Rightarrow> wf_job \<Rightarrow> wf_world \<Rightarrow> wf_job \<times> wf_world" where
  "coordinator_step text now j w =
     (case wj_phase j of
        Opening \<Rightarrow> step_open j w
      | Begin \<Rightarrow> step_begin now j w
      | Train fid \<Rightarrow> (enter_phase AwaitTraining j, on_db (update_fold now fid FTraining None) w)
      | AwaitTraining \<Rightarrow> step_await_training j w
      | Trained fv \<Rightarrow> step_trained now fv j w
      | Reject fid \<Rightarrow> (next_position j, on_db (update_fold now fid FFailed (Some ''No completed training candidate met the minimum-trades requirement'')) w)
      | Select fid winner \<Rightarrow> step_select fid winner j w
      | Submit fid request \<Rightarrow> step_submit fid request j w
      | AwaitTest fid rid \<Rightarrow> step_await_test fid rid j w
      | Settle fid r \<Rightarrow> step_settle now fid r j w
      | Finishing \<Rightarrow> step_finish now j w
      | Crashed e \<Rightarrow> step_crash text now e j w
      | Done \<Rightarrow> (j, w))"

text \<open>A job starts when its lease is held; otherwise \<open>_execute\<close> returns at once.\<close>

definition start_job :: "bool \<Rightarrow> string \<Rightarrow> wf_job option" where
  "start_job acquired vid = (if acquired then Some \<lparr>wj_validation = vid, wj_count = 0, wj_position = 0, wj_phase = Opening\<rparr> else None)"

section \<open>Everything that can happen\<close>

text \<open>What a worker, a restart or a request does to the table of runs: a run that has ended is not written again.\<close>

inductive run_change :: "run_table \<Rightarrow> run_table \<Rightarrow> bool" where
  marked: "run_change t (mark_started t x)"
| progressed: "t x = Some r \<Longrightarrow> \<not> terminal_run r \<Longrightarrow> run_change t (update_progress t x n symbol)"
| finished: "t x = Some r \<Longrightarrow> \<not> terminal_run r \<Longrightarrow> run_finish t x status metrics error = Inr (row, t') \<Longrightarrow> run_change t t'"
| cancelled: "request_cancel t x = Inr (row, t') \<Longrightarrow> run_change t t'"
| interrupted: "run_change t (interrupt_stale t)"

inductive_cases run_changeE: "run_change t t'"

lemma run_change_keeps:
  assumes "run_change t t'"
  shows "dom t' = dom t" and "t x = Some r \<Longrightarrow> terminal_run r \<Longrightarrow> t' x = Some r"
proof -
  have upd: "dom (run_update t y p f) = dom t" for y p f
    by (cases "t y") (auto simp: run_update_def insert_absorb)
  have req: "request_cancel t y = Inr (row, t1) \<Longrightarrow> t1 = run_update t y (\<lambda>r. rw_status r \<in> {QUEUED, RUNNING}) (\<lambda>r. r\<lparr>rw_cancel_requested := True\<rparr>)" for y row t1
    by (auto simp: request_cancel_def rbind_eq_Inr Let_def)
  have fin: "run_finish t y st m e = Inr (row, t1) \<Longrightarrow> t1 = run_update t y (\<lambda>_. True)
      (\<lambda>r. r\<lparr>rw_status := st, rw_metrics := m, rw_error := e, rw_current_symbol := None\<rparr>)" for y st m e row t1
    by (auto simp: run_finish_def rbind_eq_Inr Let_def split: if_splits)
  have "(\<exists>y p f. t' = run_update t y p f) \<or> t' = interrupt_stale t"
    using assms by (cases rule: run_changeE) (auto simp: mark_started_def update_progress_def dest!: req fin)
  moreover have "dom (interrupt_stale t) = dom t" by (auto simp: interrupt_stale_def)
  ultimately show "dom t' = dom t" using upd by metis
  assume r: "t x = Some r" "terminal_run r"
  from assms show "t' x = Some r"
    by (cases rule: run_changeE)
      (use r in \<open>auto simp: run_update_def mark_started_def update_progress_def interrupt_stale_def terminal_run_def TERMINAL_RUN_STATUSES_def
        dest!: req fin split: option.split\<close>)
qed

text \<open>
  Validations are created with the workload of their folds, as the route estimates it. A request for cancellation reads all
  folds and visits what it read later; a visit may come at any time.
\<close>

definition create_result :: "(wf_error \<times> wf_db) + (validation_view \<times> bool \<times> wf_db) \<Rightarrow> wf_db" where
  "create_result r = (case r of Inl (_, db) \<Rightarrow> db | Inr (_, _, db) \<Rightarrow> db)"

inductive wf_reachable :: "wf_world \<Rightarrow> bool" where
  launched: "new_runner workers pending = Inr q \<Longrightarrow> wf_reachable \<lparr>ww_db = empty_wf_db, ww_queue = q, ww_cancels = [], ww_job = None\<rparr>"
| created: "wf_reachable w \<Longrightarrow> workload_estimate (vs_market s) (vs_timeframe s) folds (int (length cs)) (int (length (vs_symbols s))) = Inr (vs_workload s)
    \<Longrightarrow> wf_reachable (on_db (\<lambda>db. create_result (create_generated now s key folds cs db)) w)"
| worked: "wf_reachable w \<Longrightarrow> run_change (wd_runs (ww_db w)) t \<Longrightarrow> wf_reachable (set_runs t w)"
| queued: "wf_reachable w \<Longrightarrow> job_step (ww_queue w) q \<Longrightarrow> wf_reachable (w\<lparr>ww_queue := q\<rparr>)"
| requested: "wf_reachable w \<Longrightarrow> validation_cancel vid (ww_db w) = Inr (view, db)
    \<Longrightarrow> wf_reachable (w\<lparr>ww_db := db, ww_cancels := ww_cancels w @ vv_folds view\<rparr>)"
| visited: "wf_reachable w \<Longrightarrow> fv \<in> set (ww_cancels w) \<Longrightarrow> wf_reachable (left_world (cancel_fold now fv w))"
| started: "wf_reachable w \<Longrightarrow> ww_job w = None \<or> (\<exists>j. ww_job w = Some j \<and> wj_phase j = Done) \<Longrightarrow> vid \<in> vids (ww_db w)
    \<Longrightarrow> wf_reachable (w\<lparr>ww_job := start_job acquired vid\<rparr>)"
| stepped: "wf_reachable w \<Longrightarrow> ww_job w = Some j \<Longrightarrow> coordinator_step text now j w = (j', w') \<Longrightarrow> wf_reachable (w'\<lparr>ww_job := Some j'\<rparr>)"
| restarted: "wf_reachable w \<Longrightarrow> new_runner workers pending = Inr q
    \<Longrightarrow> wf_reachable ((set_runs (interrupt_stale (wd_runs (ww_db w))) w)\<lparr>ww_queue := q, ww_cancels := [], ww_job := None\<rparr>)"

end
