(* ===== verification/Walk_Forward_Selection.thy ===== *)
theory Walk_Forward_Selection
  imports Walk_Forward_Jobs
begin

text \<open>
  What holds in every state of walk-forward validation (\<open>wf_reachable\<close>): the test of a fold is the one of the best of
  its ended training runs, over sessions none of them saw; a job that is done leaves no fold open; and a step of
  the coordinator either makes progress or waits for a stated reason.
\<close>

section \<open>Calm operations\<close>

definition ended :: "wf_db \<Rightarrow> string \<Rightarrow> bool" where
  "ended db x \<longleftrightarrow> (\<forall>f \<in> set (wd_folds db). fr_id f = x \<longrightarrow> fold_terminal (fr_status f))"

definition fold_ids :: "wf_db \<Rightarrow> string \<Rightarrow> string list" where
  "fold_ids db vid = map fr_id (folds_of db vid)"

text \<open>No test is chosen or forgotten, and only the folds of \<open>X\<close> may be opened again.\<close>

definition calm :: "string set \<Rightarrow> wf_db \<Rightarrow> wf_db \<Rightarrow> bool" where
  "calm X db db' \<longleftrightarrow> wf_ok db' \<and> evolves db db'
     \<and> (\<forall>f' \<in> set (wd_folds db'). fr_test f' \<noteq> None \<longrightarrow> (\<exists>f \<in> set (wd_folds db). fold_core f' = fold_core f \<and> fr_test f' = fr_test f \<and> fr_selected f' = fr_selected f))
     \<and> (\<forall>f \<in> set (wd_folds db). fr_test f \<noteq> None \<longrightarrow> (\<exists>f' \<in> set (wd_folds db'). fold_core f' = fold_core f \<and> fr_test f' = fr_test f))
     \<and> (\<forall>x \<in> fids db - X. ended db x \<longrightarrow> ended db' x)"

lemma calm_refl [simp]: "wf_ok db \<Longrightarrow> calm X db db"
  by (auto simp: calm_def)

lemma calmD:
  assumes "calm X db db'"
  shows calm_ok: "wf_ok db'" and calm_evolves: "evolves db db'"
    and calm_test: "f' \<in> set (wd_folds db') \<Longrightarrow> fr_test f' \<noteq> None
      \<Longrightarrow> \<exists>f \<in> set (wd_folds db). fold_core f' = fold_core f \<and> fr_test f' = fr_test f \<and> fr_selected f' = fr_selected f"
    and calm_persist: "f \<in> set (wd_folds db) \<Longrightarrow> fr_test f \<noteq> None \<Longrightarrow> \<exists>f' \<in> set (wd_folds db'). fold_core f' = fold_core f \<and> fr_test f' = fr_test f"
    and calm_ended: "x \<in> fids db \<Longrightarrow> x \<notin> X \<Longrightarrow> ended db x \<Longrightarrow> ended db' x"
  using assms unfolding calm_def by blast+

lemma calm_trans:
  assumes a: "calm X db1 db2" and b: "calm X db2 db3"
  shows "calm X db1 db3"
proof -
  have "fids db1 \<subseteq> fids db2" using calm_evolves [OF a] by (simp add: evolves_def)
  moreover have "\<exists>f \<in> set (wd_folds db1). fold_core f' = fold_core f \<and> fr_test f' = fr_test f \<and> fr_selected f' = fr_selected f"
    if f: "f' \<in> set (wd_folds db3)" "fr_test f' \<noteq> None" for f'
  proof -
    from calm_test [OF b f] obtain g where g: "g \<in> set (wd_folds db2)" "fold_core f' = fold_core g" "fr_test f' = fr_test g" "fr_selected f' = fr_selected g" by blast
    from calm_test [OF a g(1)] f(2) g show ?thesis by auto
  qed
  moreover have "\<exists>f' \<in> set (wd_folds db3). fold_core f' = fold_core f \<and> fr_test f' = fr_test f" if f: "f \<in> set (wd_folds db1)" "fr_test f \<noteq> None" for f
  proof -
    from calm_persist [OF a f] obtain g where g: "g \<in> set (wd_folds db2)" "fold_core g = fold_core f" "fr_test g = fr_test f" by blast
    from calm_persist [OF b g(1)] f(2) g show ?thesis by auto
  qed
  ultimately show ?thesis
    using calm_ok [OF b] evolves_trans [OF calm_evolves [OF a] calm_evolves [OF b]] calm_ended [OF a] calm_ended [OF b]
    unfolding calm_def by blast
qed

text \<open>A test and the candidate it was chosen for.\<close>

definition chosen_for :: "wf_db \<Rightarrow> fold_row \<Rightarrow> string \<Rightarrow> bool" where
  "chosen_for db f r \<longleftrightarrow> (\<exists>v winner rest.
     validation_of db (fr_validation f) = Some v \<and> training_settled db (fr_id f)
     \<and> rank_training (candidate_views db (fr_id f)) (vr_spec v) = Inr (winner # rest) \<and> fr_selected f = Some (selected_of winner)
     \<and> wd_columns db r = Some (columns_of (vr_spec v) (rc_configuration (ru_columns (cv_run winner))) (rc_execution (ru_columns (cv_run winner)))
          (fo_testing_start (fr_window f)) (fo_testing_end (fr_window f))))"

definition chosen_best :: "wf_db \<Rightarrow> fold_row \<Rightarrow> bool" where
  "chosen_best db f \<longleftrightarrow> (\<forall>r. fr_test f = Some r \<longrightarrow> chosen_for db f r)"

definition all_chosen :: "wf_db \<Rightarrow> bool" where
  "all_chosen db \<longleftrightarrow> (\<forall>f \<in> set (wd_folds db). chosen_best db f)"

lemma evolves_facts:
  assumes "evolves db db'"
  shows "vid \<in> vids db \<Longrightarrow> vid \<in> vids db'" and "x \<in> fids db \<Longrightarrow> x \<in> fids db'"
    and "vid \<in> vids db \<Longrightarrow> fold_ids db' vid = fold_ids db vid"
    and "vid \<in> vids db \<Longrightarrow> validation_of db vid = Some v \<Longrightarrow> \<exists>v'. validation_of db' vid = Some v' \<and> vr_spec v' = vr_spec v \<and> (vr_cancel v \<longrightarrow> vr_cancel v')"
    and "wd_columns db r = Some c \<Longrightarrow> wd_columns db' r = Some c"
proof -
  have e: "evolves_in (vids db) (fids db) db db'" using assms by (simp add: evolves_def)
  show "vid \<in> vids db \<Longrightarrow> vid \<in> vids db'" "x \<in> fids db \<Longrightarrow> x \<in> fids db'" using assms by (auto simp: evolves_def)
  show "vid \<in> vids db \<Longrightarrow> fold_ids db' vid = fold_ids db vid"
  proof -
    assume "vid \<in> vids db"
    from arg_cong [OF evolves_folds [OF e this], of "map fst"] show ?thesis by (simp add: fold_ids_def fold_core_def comp_def)
  qed
  show "vid \<in> vids db \<Longrightarrow> validation_of db vid = Some v \<Longrightarrow> \<exists>v'. validation_of db' vid = Some v' \<and> vr_spec v' = vr_spec v \<and> (vr_cancel v \<longrightarrow> vr_cancel v')"
    by (rule evolves_validation [OF e])
  show "wd_columns db r = Some c \<Longrightarrow> wd_columns db' r = Some c" using evolves_columns [OF e] by (auto simp: map_le_def dom_def)
qed

lemma chosen_best_stable:
  assumes ok: "wf_ok db" and e: "evolves db db'" and f: "f \<in> set (wd_folds db)" "chosen_best db f"
    and same: "fold_core f' = fold_core f" "fr_test f' = fr_test f" "fr_selected f' = fr_selected f"
  shows "chosen_best db' f'"
proof -
  have "chosen_for db' f' r" if "fr_test f = Some r" for r
  proof -
    from that f(2) obtain v winner rest where c: "validation_of db (fr_validation f) = Some v" "training_settled db (fr_id f)"
      "rank_training (candidate_views db (fr_id f)) (vr_spec v) = Inr (winner # rest)" "fr_selected f = Some (selected_of winner)"
      "wd_columns db r = Some (columns_of (vr_spec v) (rc_configuration (ru_columns (cv_run winner))) (rc_execution (ru_columns (cv_run winner)))
          (fo_testing_start (fr_window f)) (fo_testing_end (fr_window f)))" unfolding chosen_best_def chosen_for_def by blast
    have v: "fr_validation f \<in> vids db" using ok f(1) by (simp add: wf_ok_def fold_ok_def)
    from f(1) have i: "fr_id f \<in> fids db" by simp
    from evolves_facts(4) [OF e v c(1)] candidates_stable [OF e c(2) i ok] evolves_facts(5) [OF e c(5)] c(3,4) same
    show ?thesis unfolding chosen_for_def by (auto simp: fold_core_def)
  qed
  then show ?thesis using same by (simp add: chosen_best_def)
qed

lemma calm_chosen:
  assumes "wf_ok db" and "calm X db db'" and "all_chosen db"
  shows "all_chosen db'"
  unfolding all_chosen_def
proof
  fix f' assume f': "f' \<in> set (wd_folds db')"
  show "chosen_best db' f'"
  proof (cases "fr_test f'")
    case None
    then show ?thesis by (simp add: chosen_best_def)
  next
    case (Some r)
    with calm_test [OF assms(2) f'] obtain f where f: "f \<in> set (wd_folds db)" "fold_core f' = fold_core f" "fr_test f' = fr_test f" "fr_selected f' = fr_selected f" by auto
    with assms(3) show ?thesis by (auto simp: all_chosen_def intro: chosen_best_stable [OF assms(1) calm_evolves [OF assms(2)]])
  qed
qed

text \<open>Calm, and without new validations.\<close>

definition steady :: "string set \<Rightarrow> wf_db \<Rightarrow> wf_db \<Rightarrow> bool" where
  "steady X db db' \<longleftrightarrow> calm X db db' \<and> vids db' = vids db"

lemma steady_refl [simp]: "wf_ok db \<Longrightarrow> steady X db db"
  by (simp add: steady_def)

lemma steady_trans: "steady X db1 db2 \<Longrightarrow> steady X db2 db3 \<Longrightarrow> steady X db1 db3"
  unfolding steady_def using calm_trans by metis

lemma steady_ok: "steady X db db' \<Longrightarrow> wf_ok db'"
  by (simp add: steady_def calm_def)

lemma mapped_steady:
  assumes ok: "wf_ok db"
    and same: "\<And>f. f \<in> set (wd_folds db) \<Longrightarrow> fold_core (h f) = fold_core f \<and> fr_test (h f) = fr_test f \<and> fr_selected (h f) = fr_selected f"
    and still: "\<And>f. f \<in> set (wd_folds db) \<Longrightarrow> fr_id f \<notin> X \<Longrightarrow> fold_terminal (fr_status f) \<Longrightarrow> fold_terminal (fr_status (h f))"
  shows "steady X db (db\<lparr>wd_folds := map h (wd_folds db)\<rparr>)"
proof -
  have i: "fr_id (h f) = fr_id f" if "f \<in> set (wd_folds db)" for f using same [OF that] by (simp add: fold_core_def)
  have "wf_ok (db\<lparr>wd_folds := map h (wd_folds db)\<rparr>) \<and> evolves db (db\<lparr>wd_folds := map h (wd_folds db)\<rparr>)"
    by (rule mapped_folds_sound [OF ok]) (simp_all add: same)
  moreover have "ended (db\<lparr>wd_folds := map h (wd_folds db)\<rparr>) x" if "x \<notin> X" "ended db x" for x
    using that still by (simp add: ended_def i)
  ultimately show ?thesis unfolding steady_def calm_def using same by simp blast
qed

lemma update_fold_steady:
  assumes "wf_ok db" and "fold_terminal st \<or> fid \<in> X"
  shows "steady X db (update_fold now fid st error db)"
proof -
  define h where "h f = (if fr_id f = fid then f\<lparr>fr_status := st, fr_error := error, fr_completed := (if fold_terminal st then Some now else None)\<rparr> else f)" for f :: fold_row
  have "update_fold now fid st error db = db\<lparr>wd_folds := map h (wd_folds db)\<rparr>" by (simp add: update_fold_def change_fold_def h_def)
  moreover have "fold_core (h f) = fold_core f \<and> fr_test (h f) = fr_test f \<and> fr_selected (h f) = fr_selected f" for f by (simp add: h_def fold_core_def)
  moreover have "fold_terminal (fr_status (h f))" if "fr_id f \<notin> X" "fold_terminal (fr_status f)" for f using that assms(2) by (auto simp: h_def)
  ultimately show ?thesis using mapped_steady [OF assms(1), of h X] by simp
qed

lemma update_fold_ended: "fold_terminal st \<Longrightarrow> ended (update_fold now fid st error db) fid"
  unfolding ended_def update_fold_def change_fold_def by (simp add: ball_Un)

lemma runs_steady:
  assumes "wf_ok db" and "dom t = dom (wd_runs db)"
    and "\<And>x r. x \<in> training_runs db \<Longrightarrow> wd_runs db x = Some r \<Longrightarrow> terminal_run r \<Longrightarrow> t x = Some r"
  shows "steady X db (db\<lparr>wd_runs := t\<rparr>)"
  using runs_changed_ok [OF assms] by (auto simp: steady_def calm_def ended_def)

lemma validation_steady:
  assumes "wf_ok db" and "\<And>v. vr_id (g v) = vr_id v \<and> vr_spec (g v) = vr_spec v \<and> (vr_cancel v \<longrightarrow> vr_cancel (g v))"
  shows "steady X db (change_validation vid g db)"
proof -
  define h where "h v = (if vr_id v = vid then g v else v)" for v
  have "vr_id (h v) = vr_id v" for v using assms(2) by (simp add: h_def)
  moreover have "wd_validations (change_validation vid g db) = map h (wd_validations db)" by (simp add: change_validation_def h_def)
  ultimately have "vids (change_validation vid g db) = vids db" by (simp add: image_image)
  moreover have "wd_folds (change_validation vid g db) = wd_folds db" by (simp add: change_validation_def)
  ultimately show ?thesis using change_validation_sound [OF assms, of vid] by (auto simp: steady_def calm_def ended_def)
qed

lemma job_cancel_change: "job_cancel q t x = Inr (row, q', t') \<Longrightarrow> run_change t t'"
  by (auto simp: job_cancel_def rbind_eq_Inr intro: run_change.cancelled)

lemma change_steady: "wf_ok db \<Longrightarrow> run_change (wd_runs db) t \<Longrightarrow> steady X db (db\<lparr>wd_runs := t\<rparr>)"
  by (rule runs_steady) (simp_all add: run_change_keeps)

text \<open>What an operation of the world may change, also when it raises.\<close>

definition keeps_world :: "wf_world \<Rightarrow> wf_world \<Rightarrow> bool" where
  "keeps_world w w' \<longleftrightarrow> steady {} (ww_db w) (ww_db w') \<and> ww_cancels w' = ww_cancels w \<and> ww_job w' = ww_job w"

lemma keeps_world_trans: "keeps_world w1 w2 \<Longrightarrow> keeps_world w2 w3 \<Longrightarrow> keeps_world w1 w3"
  unfolding keeps_world_def using steady_trans by metis

lemma cancel_run_keeps: "wf_ok (ww_db w) \<Longrightarrow> keeps_world w (left_world (cancel_run w r))"
  by (auto simp: cancel_run_def left_world_def keeps_world_def set_runs_def intro!: change_steady job_cancel_change split: sum.split)

lemma cancel_runs_keeps: "wf_ok (ww_db w) \<Longrightarrow> keeps_world w (left_world (rfold cancel_run w rs))"
proof (induction rs arbitrary: w)
  case Nil
  then show ?case by (simp add: left_world_def keeps_world_def)
next
  case (Cons r rs)
  note k = cancel_run_keeps [OF Cons.prems, of r]
  show ?case
  proof (cases "cancel_run w r")
    case (Inr w1)
    with k have k1: "keeps_world w w1" by (simp add: left_world_def)
    then have "wf_ok (ww_db w1)" using steady_ok by (auto simp: keeps_world_def)
    from keeps_world_trans [OF k1 Cons.IH [OF this]] Inr show ?thesis by simp
  qed (use k in \<open>simp add: left_world_def\<close>)
qed

lemma cancel_fold_keeps:
  assumes "wf_ok (ww_db w)"
  shows "keeps_world w (left_world (cancel_fold now fv w))"
    and "cancel_fold now fv w = Inr w' \<Longrightarrow> (fold_terminal (fr_status (fv_row fv)) \<Longrightarrow> ended (ww_db w) (fr_id (fv_row fv))) \<Longrightarrow> ended (ww_db w') (fr_id (fv_row fv))"
proof -
  let ?rs = "map cv_run (fv_candidates fv) @ (case fv_test fv of None \<Rightarrow> [] | Some r \<Rightarrow> [r])"
  note k = cancel_runs_keeps [OF assms, of ?rs]
  have "keeps_world w (on_db (update_fold now (fr_id (fv_row fv)) FCancelled None) w1)" if "rfold cancel_run w ?rs = Inr w1" for w1
  proof -
    from k that have k1: "keeps_world w w1" by (simp add: left_world_def)
    then have "wf_ok (ww_db w1)" using steady_ok by (auto simp: keeps_world_def)
    then have "keeps_world w1 (on_db (update_fold now (fr_id (fv_row fv)) FCancelled None) w1)"
      by (simp add: keeps_world_def on_db_def update_fold_steady fold_terminal_def)
    with k1 show ?thesis by (rule keeps_world_trans)
  qed
  then show "keeps_world w (left_world (cancel_fold now fv w))" using k assms
    by (cases "rfold cancel_run w ?rs") (auto simp: cancel_fold_def left_world_def keeps_world_def split: prod.splits)
  show "cancel_fold now fv w = Inr w' \<Longrightarrow> (fold_terminal (fr_status (fv_row fv)) \<Longrightarrow> ended (ww_db w) (fr_id (fv_row fv))) \<Longrightarrow> ended (ww_db w') (fr_id (fv_row fv))"
    by (auto simp: cancel_fold_def rbind_eq_Inr on_db_def update_fold_ended fold_terminal_def [of FCancelled] split: if_splits)
qed

section \<open>What a job knows\<close>

text \<open>The folds before the position of the job have ended, and \<open>fid\<close> is the fold at its position.\<close>

definition passed :: "wf_job \<Rightarrow> wf_db \<Rightarrow> bool" where
  "passed j db \<longleftrightarrow> 1 \<le> wj_position j \<and> wj_count j = int (length (fold_ids db (wj_validation j)))
     \<and> (\<forall>x \<in> set (take (wj_position j - 1) (fold_ids db (wj_validation j))). ended db x)"

definition here :: "wf_job \<Rightarrow> wf_db \<Rightarrow> string \<Rightarrow> bool" where
  "here j db fid \<longleftrightarrow> passed j db \<and> wj_position j - 1 < length (fold_ids db (wj_validation j)) \<and> fold_ids db (wj_validation j) ! (wj_position j - 1) = fid"

definition all_ended :: "wf_db \<Rightarrow> string \<Rightarrow> bool" where
  "all_ended db vid \<longleftrightarrow> (\<forall>x \<in> set (fold_ids db vid). ended db x)"

definition validation_cancelled :: "wf_db \<Rightarrow> string \<Rightarrow> bool" where
  "validation_cancelled db vid \<longleftrightarrow> (\<exists>v. validation_of db vid = Some v \<and> vr_cancel v)"

definition trained_view :: "wf_job \<Rightarrow> wf_db \<Rightarrow> fold_view \<Rightarrow> bool" where
  "trained_view j db fv \<longleftrightarrow> (fold_terminal (fr_status (fv_row fv)) \<longrightarrow> ended db (fr_id (fv_row fv)))
     \<and> (validation_cancelled db (wj_validation j) \<or> training_settled db (fr_id (fv_row fv)) \<and> fv_candidates fv = candidate_views db (fr_id (fv_row fv)))"

definition winner_of :: "wf_job \<Rightarrow> wf_db \<Rightarrow> string \<Rightarrow> candidate_view \<Rightarrow> bool" where
  "winner_of j db fid winner \<longleftrightarrow> training_settled db fid
     \<and> (\<exists>v rest. validation_of db (wj_validation j) = Some v \<and> rank_training (candidate_views db fid) (vr_spec v) = Inr (winner # rest))"

definition tests :: "wf_db \<Rightarrow> string \<Rightarrow> string \<Rightarrow> bool" where
  "tests db fid rid \<longleftrightarrow> (\<exists>f \<in> set (wd_folds db). fr_id f = fid \<and> fr_test f = Some rid)"

definition phase_fact :: "wf_job \<Rightarrow> wf_db \<Rightarrow> bool" where
  "phase_fact j db \<longleftrightarrow>
     (case wj_phase j of
        Opening \<Rightarrow> True
      | Crashed _ \<Rightarrow> True
      | Begin \<Rightarrow> passed j db
      | AwaitTraining \<Rightarrow> passed j db
      | Train fid \<Rightarrow> here j db fid
      | Reject fid \<Rightarrow> here j db fid
      | Trained fv \<Rightarrow> here j db (fr_id (fv_row fv)) \<and> trained_view j db fv
      | Select fid winner \<Rightarrow> here j db fid \<and> winner_of j db fid winner
      | Submit fid request \<Rightarrow> here j db fid \<and> tests db fid (br_run_id request)
      | AwaitTest fid rid \<Rightarrow> here j db fid \<and> tests db fid rid
      | Settle fid _ \<Rightarrow> here j db fid
      | Finishing \<Rightarrow> all_ended db (wj_validation j)
      | Done \<Rightarrow> all_ended db (wj_validation j))"

definition job_fact :: "wf_job \<Rightarrow> wf_db \<Rightarrow> bool" where
  "job_fact j db \<longleftrightarrow> wj_validation j \<in> vids db \<and> phase_fact j db"

lemma fold_ids_known: "x \<in> set (fold_ids db vid) \<Longrightarrow> x \<in> fids db"
  by (auto simp: fold_ids_def folds_of_set)

lemma here_known: "here j db fid \<Longrightarrow> fid \<in> fids db"
  unfolding here_def using fold_ids_known nth_mem by metis

lemma fold_ids_distinct:
  assumes "wf_ok db" shows "distinct (fold_ids db vid)"
proof -
  have "distinct (map fr_id (filter (\<lambda>f. fr_validation f = vid) (wd_folds db)))"
    using assms by (simp add: wf_ok_def ids_ok_def distinct_map_filter)
  then have "distinct (filter (\<lambda>f. fr_validation f = vid) (wd_folds db))" "inj_on fr_id {f \<in> set (wd_folds db). fr_validation f = vid}"
    by (simp_all add: distinct_map)
  then show ?thesis by (simp add: fold_ids_def folds_of_def distinct_map)
qed

text \<open>What a job knows survives every operation that opens at most its own fold.\<close>

lemma passed_stable:
  assumes "evolves db db'" and "\<And>x. x \<in> fids db \<Longrightarrow> x \<notin> X \<Longrightarrow> ended db x \<Longrightarrow> ended db' x" and "passed j db" and "wj_validation j \<in> vids db"
    and "\<And>x. x \<in> X \<Longrightarrow> x \<notin> set (take (wj_position j - 1) (fold_ids db (wj_validation j)))"
  shows "passed j db'"
proof -
  have "ended db' x" if "x \<in> set (take (wj_position j - 1) (fold_ids db (wj_validation j)))" for x
    using that assms(2,3,5) fold_ids_known in_set_takeD unfolding passed_def by metis
  then show ?thesis using assms(3) evolves_facts(3) [OF assms(1,4)] by (simp add: passed_def)
qed

lemma here_stable:
  assumes "evolves db db'" and "\<And>x. x \<in> fids db \<Longrightarrow> x \<noteq> fid \<Longrightarrow> ended db x \<Longrightarrow> ended db' x" and "here j db fid" and "wj_validation j \<in> vids db" and "wf_ok db"
  shows "here j db' fid"
proof -
  let ?ids = "fold_ids db (wj_validation j)"
  have "fid \<notin> set (take (wj_position j - 1) ?ids)"
    using assms(3) fold_ids_distinct [OF assms(5), of "wj_validation j"] unfolding here_def
    by (metis distinct_take id_take_nth_drop distinct_append disjoint_insert(1) inf.commute list.simps(15))
  then have "passed j db'" using assms(2,3) by (intro passed_stable [OF assms(1) _ _ assms(4), of "{fid}"]) (auto simp: here_def)
  then show ?thesis using assms(3) evolves_facts(3) [OF assms(1,4)] by (simp add: here_def)
qed

lemma calm_passed: "calm {} db db' \<Longrightarrow> passed j db \<Longrightarrow> wj_validation j \<in> vids db \<Longrightarrow> passed j db'"
  by (rule passed_stable [of db db' "{}"]) (auto dest: calm_evolves calm_ended)

lemma calm_here:
  "calm X db db' \<Longrightarrow> X \<subseteq> {fid} \<Longrightarrow> here j db fid \<Longrightarrow> wj_validation j \<in> vids db \<Longrightarrow> wf_ok db \<Longrightarrow> here j db' fid"
  by (rule here_stable) (auto dest: calm_evolves calm_ended)

lemma calm_tests: "calm X db db' \<Longrightarrow> tests db fid rid \<Longrightarrow> tests db' fid rid"
  unfolding tests_def using calm_persist by (fastforce simp: fold_core_def)

lemma calm_job:
  assumes c: "calm {} db db'" and ok: "wf_ok db" and j: "job_fact j db"
  shows "job_fact j db'"
proof -
  note e = calm_evolves [OF c]
  have vid: "wj_validation j \<in> vids db" using j by (simp add: job_fact_def)
  have h: "here j db fid \<Longrightarrow> here j db' fid" for fid by (rule calm_here [OF c _ _ vid ok]) simp_all
  have p: "passed j db \<Longrightarrow> passed j db'" by (rule calm_passed [OF c _ vid])
  have a: "all_ended db (wj_validation j) \<Longrightarrow> all_ended db' (wj_validation j)"
    unfolding all_ended_def evolves_facts(3) [OF e vid] using calm_ended [OF c] fold_ids_known by blast
  have t: "tests db fid rid \<Longrightarrow> tests db' fid rid" for fid rid by (rule calm_tests [OF c])
  have w: "winner_of j db fid winner \<Longrightarrow> winner_of j db' fid winner" if "here j db fid" for fid winner
    using candidates_stable [OF e _ here_known [OF that] ok] evolves_facts(4) [OF e vid] unfolding winner_of_def by metis
  have v: "trained_view j db fv \<Longrightarrow> trained_view j db' fv" if k: "here j db (fr_id (fv_row fv))" for fv
    using candidates_stable [OF e _ here_known [OF k] ok] calm_ended [OF c here_known [OF k]] evolves_facts(4) [OF e vid]
    unfolding trained_view_def validation_cancelled_def by (metis empty_iff)
  show ?thesis using j evolves_facts(1) [OF e vid] unfolding job_fact_def phase_fact_def
    by (cases "wj_phase j") (auto simp: h p a t w v)
qed

section \<open>Steps of the coordinator\<close>

definition counts_ok :: "wf_db \<Rightarrow> bool" where
  "counts_ok db \<longleftrightarrow> (\<forall>vid v. validation_of db vid = Some v \<longrightarrow> wl_folds (vs_workload (vr_spec v)) = int (length (fold_ids db vid)))"

definition sound_db :: "wf_db \<Rightarrow> bool" where
  "sound_db db \<longleftrightarrow> wf_ok db \<and> all_chosen db \<and> counts_ok db"

lemma validation_of_known: "validation_of db vid = Some v \<Longrightarrow> vid \<in> vids db"
  by (auto simp: validation_of_def find_Some_iff)

lemma counts_stable:
  assumes "evolves db db'" and "vids db' = vids db" and "counts_ok db"
  shows "counts_ok db'"
  unfolding counts_ok_def
proof (intro allI impI)
  fix vid v assume v: "validation_of db' vid = Some v"
  from validation_of_known [OF v] assms(2) have vid: "vid \<in> vids db" by simp
  from validation_found [OF vid] obtain u where u: "validation_of db vid = Some u" by blast
  from evolves_facts(3,4) [OF assms(1) vid] u v assms(3) show "wl_folds (vs_workload (vr_spec v)) = int (length (fold_ids db' vid))"
    by (auto simp: counts_ok_def)
qed

lemma steady_sound: "steady X db db' \<Longrightarrow> sound_db db \<Longrightarrow> sound_db db'"
  unfolding sound_db_def steady_def using calm_ok calm_chosen calm_evolves counts_stable by metis

text \<open>A step leaves sound tables and a job that knows what its phase says.\<close>

definition good :: "wf_job \<times> wf_world \<Rightarrow> bool" where
  "good r \<longleftrightarrow> sound_db (ww_db (snd r)) \<and> job_fact (fst r) (ww_db (snd r))"

lemma good_same: "sound_db (ww_db w) \<Longrightarrow> job_fact j (ww_db w) \<Longrightarrow> good (j, w)"
  by (simp add: good_def)

lemma good_steady:
  assumes "steady X (ww_db w) (ww_db w')" and "sound_db (ww_db w)" and "wj_validation j' \<in> vids (ww_db w)" and "phase_fact j' (ww_db w')"
  shows "good (j', w')"
  using assms steady_sound by (auto simp: good_def job_fact_def steady_def)

lemma phase_simps [simp]:
  "wj_phase (enter_phase p j) = p" "wj_validation (enter_phase p j) = wj_validation j" "wj_validation (next_position j) = wj_validation j"
  "wj_phase (next_position j) = Begin" "passed (enter_phase p j) db = passed j db" "here (enter_phase p j) db fid = here j db fid"
  by (simp_all add: enter_phase_def next_position_def passed_def here_def)

lemma good_attempt:
  "sound_db (ww_db w) \<Longrightarrow> wj_validation j \<in> vids (ww_db w) \<Longrightarrow> (\<And>x. r = Inr x \<Longrightarrow> good (k x)) \<Longrightarrow> good (attempt r j w k)"
  by (cases r) (simp_all add: attempt_def good_def job_fact_def phase_fact_def)

lemma good_attempt_world:
  assumes "sound_db (ww_db w)" and "wj_validation j \<in> vids (ww_db w)" and "keeps_world w (left_world r)"
    and "\<And>w1. r = Inr w1 \<Longrightarrow> steady {} (ww_db w) (ww_db w1) \<Longrightarrow> good (k w1)"
  shows "good (attempt_world r j k)"
proof (cases r)
  case (Inl p)
  then show ?thesis using good_steady [of "{}" w "snd p" "enter_phase (Crashed (fst p)) j"] assms(1-3)
    by (cases p) (simp add: attempt_world_def left_world_def keeps_world_def phase_fact_def)
next
  case (Inr w1)
  then show ?thesis using assms(3,4) by (simp add: attempt_world_def left_world_def keeps_world_def)
qed

lemma passed_next: "here j db fid \<Longrightarrow> ended db fid \<Longrightarrow> passed (next_position j) db"
  unfolding here_def passed_def next_position_def
  by (cases "wj_position j") (auto simp: take_Suc_conv_app_nth)

lemma terminal_ended: "wf_ok db \<Longrightarrow> f \<in> set (wd_folds db) \<Longrightarrow> fold_terminal (fr_status f) \<Longrightarrow> ended db (fr_id f)"
  by (auto simp: wf_ok_def ids_ok_def ended_def distinct_map inj_on_def)

lemma views_settled:
  assumes "wf_ok db" and "list_all (\<lambda>cv. terminal_run (ru_row (cv_run cv))) (candidate_views db fid)"
  shows "training_settled db fid"
proof -
  have "\<exists>r. wd_runs db (tr_run t) = Some r \<and> terminal_run r" if t: "t \<in> set (trainings_of db fid)" for t
  proof -
    from t assms(1) have "training_ok db t" by (simp add: trainings_of_set wf_ok_def)
    then obtain c r where p: "public_run db (tr_run t) = Some \<lparr>ru_id = tr_run t, ru_columns = c, ru_row = r\<rparr>" "wd_runs db (tr_run t) = Some r"
      by (auto simp: training_ok_def public_run_def)
    then have "\<lparr>cv_training = t, cv_run = \<lparr>ru_id = tr_run t, ru_columns = c, ru_row = r\<rparr>\<rparr> \<in> set (candidate_views db fid)"
      using t by (force simp: candidate_views_def List.map_filter_def image_iff)
    with assms(2) p(2) show ?thesis by (fastforce simp: list_all_iff)
  qed
  then show ?thesis by (fastforce simp: training_settled_def list_all_iff)
qed

text \<open>What the coordinator reads.\<close>

lemma current_read:
  assumes "wf_ok (ww_db w)" and "current j w = Inr view" and "wj_validation j \<in> vids (ww_db w)"
  shows "validation_of (ww_db w) (wj_validation j) = Some (vv_row view)" and "view_cancelled view = validation_cancelled (ww_db w) (wj_validation j)"
    and "map fv_row (vv_folds view) = folds_of (ww_db w) (wj_validation j)"
    and "fv \<in> set (vv_folds view) \<Longrightarrow> fv_candidates fv = candidate_views (ww_db w) (fr_id (fv_row fv))"
  using view_found [OF assms(1,3)] assms(2) by (auto simp: current_def view_cancelled_def validation_cancelled_def)

lemma current_fold_read:
  assumes "wf_ok (ww_db w)" and "current_fold j w = Inr (view, fv)" and "wj_validation j \<in> vids (ww_db w)" and "passed j (ww_db w)"
  shows "here j (ww_db w) (fr_id (fv_row fv))" and "fv_row fv \<in> set (wd_folds (ww_db w))"
    and "fv_candidates fv = candidate_views (ww_db w) (fr_id (fv_row fv))" and "view_cancelled view = validation_cancelled (ww_db w) (wj_validation j)"
proof -
  from assms(2) have view: "current j w = Inr view" and i: "wj_position j - 1 < length (vv_folds view)" "fv = vv_folds view ! (wj_position j - 1)"
    by (auto simp: current_fold_def fold_numbered_def rbind_eq_Inr split: if_splits)
  note r = current_read [OF assms(1) view assms(3)]
  have len: "length (folds_of (ww_db w) (wj_validation j)) = length (vv_folds view)" using r(3) by (metis length_map)
  have row: "fv_row fv = folds_of (ww_db w) (wj_validation j) ! (wj_position j - 1)" using r(3) i by (metis nth_map)
  then show "here j (ww_db w) (fr_id (fv_row fv))" using assms(4) i(1) len by (simp add: here_def fold_ids_def)
  show "fv_row fv \<in> set (wd_folds (ww_db w))" using nth_mem [of "wj_position j - 1" "folds_of (ww_db w) (wj_validation j)"] i(1) len row by (simp add: folds_of_set)
  show "fv_candidates fv = candidate_views (ww_db w) (fr_id (fv_row fv))" using r(4) i nth_mem by metis
  show "view_cancelled view = validation_cancelled (ww_db w) (wj_validation j)" by (rule r(2))
qed

text \<open>Ending the fold at the position of the job, and going on.\<close>

lemma good_end_fold:
  assumes "sound_db (ww_db w)" and "wj_validation j \<in> vids (ww_db w)" and "here j (ww_db w) fid" and "fold_terminal st"
  shows "good (next_position j, on_db (update_fold now fid st error) w)"
proof (rule good_steady [of "{}" w])
  have ok: "wf_ok (ww_db w)" using assms(1) by (simp add: sound_db_def)
  show s: "steady {} (ww_db w) (ww_db (on_db (update_fold now fid st error) w))"
    using update_fold_steady [OF ok, of st fid "{}"] assms(4) by (simp add: on_db_def)
  have "here j (ww_db (on_db (update_fold now fid st error) w)) fid"
    by (rule calm_here [OF s [unfolded steady_def, THEN conjunct1] _ assms(3,2) ok]) simp
  then show "phase_fact (next_position j) (ww_db (on_db (update_fold now fid st error) w))"
    by (simp add: phase_fact_def passed_next on_db_def update_fold_ended assms(4))
qed (simp_all add: assms)

lemma good_cancel_fold:
  assumes "sound_db (ww_db w)" and "wj_validation j \<in> vids (ww_db w)" and "here j (ww_db w) (fr_id (fv_row fv))"
    and "fold_terminal (fr_status (fv_row fv)) \<Longrightarrow> ended (ww_db w) (fr_id (fv_row fv))"
  shows "good (attempt_world (cancel_fold now fv w) j (\<lambda>w1. (next_position j, w1)))"
proof (rule good_attempt_world [OF assms(1,2)])
  have ok: "wf_ok (ww_db w)" using assms(1) by (simp add: sound_db_def)
  show "keeps_world w (left_world (cancel_fold now fv w))" by (rule cancel_fold_keeps(1) [OF ok])
  fix w1 assume r: "cancel_fold now fv w = Inr w1" and s: "steady {} (ww_db w) (ww_db w1)"
  have "here j (ww_db w1) (fr_id (fv_row fv))" by (rule calm_here [OF s [unfolded steady_def, THEN conjunct1] _ assms(3,2) ok]) simp
  moreover have "ended (ww_db w1) (fr_id (fv_row fv))" by (rule cancel_fold_keeps(2) [OF ok r assms(4)])
  ultimately show "good (next_position j, w1)" using good_steady [OF s assms(1), of "next_position j"] assms(2)
    by (simp add: phase_fact_def passed_next)
qed

text \<open>Each phase in turn.\<close>

lemma open_good:
  assumes "sound_db (ww_db w)" and "wj_validation j \<in> vids (ww_db w)"
  shows "good (step_open j w)"
  unfolding step_open_def
proof (rule good_attempt [OF assms])
  fix view assume "current j w = Inr view"
  then have "validation_of (ww_db w) (wj_validation j) = Some (vv_row view)" using current_read(1) assms by (simp add: sound_db_def)
  then show "good (j\<lparr>wj_count := wl_folds (vs_workload (vr_spec (vv_row view))), wj_position := 1, wj_phase := Begin\<rparr>, w)"
    using assms by (intro good_same) (simp_all add: job_fact_def phase_fact_def passed_def sound_db_def counts_ok_def)
qed

lemma begin_good:
  assumes "sound_db (ww_db w)" and "wj_validation j \<in> vids (ww_db w)" and "passed j (ww_db w)"
  shows "good (step_begin now j w)"
proof (cases "int (wj_position j) > wj_count j")
  case True
  then have "take (wj_position j - 1) (fold_ids (ww_db w) (wj_validation j)) = fold_ids (ww_db w) (wj_validation j)" using assms(3) by (simp add: passed_def)
  with assms(3) have "all_ended (ww_db w) (wj_validation j)" by (simp add: all_ended_def passed_def)
  with True assms(1,2) show ?thesis by (simp add: step_begin_def good_same job_fact_def phase_fact_def)
next
  case False
  have ok: "wf_ok (ww_db w)" using assms(1) by (simp add: sound_db_def)
  have "good (if view_cancelled view then attempt_world (cancel_fold now fv w) j (\<lambda>w1. (next_position j, w1))
        else if fold_terminal (fr_status (fv_row fv)) then (next_position j, w) else (enter_phase (Train (fr_id (fv_row fv))) j, w))"
    if "current_fold j w = Inr (view, fv)" for view fv
  proof -
    note r = current_fold_read [OF ok that assms(2,3)]
    note t = terminal_ended [OF ok r(2)]
    show ?thesis using good_cancel_fold [OF assms(1,2) r(1) t, of now] good_same [OF assms(1)] passed_next [OF r(1) t] r(1) assms(2)
      by (simp add: job_fact_def phase_fact_def)
  qed
  with False show ?thesis unfolding step_begin_def by (auto intro!: good_attempt [OF assms(1,2)])
qed

lemma train_good:
  assumes "sound_db (ww_db w)" and "wj_validation j \<in> vids (ww_db w)" and "here j (ww_db w) fid"
  shows "good (enter_phase AwaitTraining j, on_db (update_fold now fid FTraining None) w)"
proof (rule good_steady [of "{fid}" w])
  have ok: "wf_ok (ww_db w)" using assms(1) by (simp add: sound_db_def)
  show s: "steady {fid} (ww_db w) (ww_db (on_db (update_fold now fid FTraining None) w))" using update_fold_steady [OF ok] by (simp add: on_db_def)
  have "here j (ww_db (on_db (update_fold now fid FTraining None) w)) fid"
    by (rule calm_here [OF s [unfolded steady_def, THEN conjunct1] _ assms(3,2) ok]) simp
  then show "phase_fact (enter_phase AwaitTraining j) (ww_db (on_db (update_fold now fid FTraining None) w))" by (simp add: phase_fact_def here_def)
qed (simp_all add: assms)

lemma await_training_good:
  assumes "sound_db (ww_db w)" and "wj_validation j \<in> vids (ww_db w)" and "passed j (ww_db w)" and "wj_phase j = AwaitTraining"
  shows "good (step_await_training j w)"
proof -
  have ok: "wf_ok (ww_db w)" using assms(1) by (simp add: sound_db_def)
  have "good (if view_cancelled view \<or> list_all (\<lambda>cv. terminal_run (ru_row (cv_run cv))) (fv_candidates fv) then (enter_phase (Trained fv) j, w) else (j, w))"
    if "current_fold j w = Inr (view, fv)" for view fv
  proof -
    note r = current_fold_read [OF ok that assms(2,3)]
    have "job_fact j (ww_db w)" using assms(2-4) by (simp add: job_fact_def phase_fact_def)
    moreover have "job_fact (enter_phase (Trained fv) j) (ww_db w)"
      if "view_cancelled view \<or> list_all (\<lambda>cv. terminal_run (ru_row (cv_run cv))) (fv_candidates fv)"
      using that r terminal_ended [OF ok r(2)] views_settled [OF ok] assms(2) by (auto simp: job_fact_def phase_fact_def trained_view_def)
    ultimately show ?thesis using good_same [OF assms(1)] by simp
  qed
  then show ?thesis unfolding step_await_training_def by (auto intro!: good_attempt [OF assms(1,2)])
qed

lemma trained_good:
  assumes "sound_db (ww_db w)" and "wj_validation j \<in> vids (ww_db w)" and "here j (ww_db w) (fr_id (fv_row fv))" and "trained_view j (ww_db w) fv"
  shows "good (step_trained now fv j w)"
  unfolding step_trained_def
proof (rule good_attempt [OF assms(1,2)])
  have ok: "wf_ok (ww_db w)" using assms(1) by (simp add: sound_db_def)
  fix view assume "current j w = Inr view"
  note r = current_read [OF ok this assms(2)]
  have rank: "good (case ranked of [] \<Rightarrow> (enter_phase (Reject (fr_id (fv_row fv))) j, w) | winner # _ \<Rightarrow> (enter_phase (Select (fr_id (fv_row fv)) winner) j, w))"
    if "\<not> view_cancelled view" "rank_training (fv_candidates fv) (vr_spec (vv_row view)) = Inr ranked" for ranked
  proof -
    have "training_settled (ww_db w) (fr_id (fv_row fv))" "fv_candidates fv = candidate_views (ww_db w) (fr_id (fv_row fv))"
      using that(1) r(2) assms(4) by (auto simp: trained_view_def)
    with that(2) r(1) assms(2,3) show ?thesis
      by (cases ranked) (auto intro!: good_same [OF assms(1)] simp: job_fact_def phase_fact_def winner_of_def)
  qed
  have "fold_terminal (fr_status (fv_row fv)) \<Longrightarrow> ended (ww_db w) (fr_id (fv_row fv))" using assms(4) by (simp add: trained_view_def)
  with rank show "good (if view_cancelled view then attempt_world (cancel_fold now fv w) j (\<lambda>w1. (next_position j, w1))
       else attempt (rank_training (fv_candidates fv) (vr_spec (vv_row view))) j w (\<lambda>ranked.
         case ranked of [] \<Rightarrow> (enter_phase (Reject (fr_id (fv_row fv))) j, w) | winner # _ \<Rightarrow> (enter_phase (Select (fr_id (fv_row fv)) winner) j, w)))"
    by (auto intro!: good_cancel_fold [OF assms(1-3)] good_attempt [OF assms(1,2)])
qed

lemma select_good:
  assumes "sound_db (ww_db w)" and "wj_validation j \<in> vids (ww_db w)" and "here j (ww_db w) fid" and "winner_of j (ww_db w) fid winner"
  shows "good (step_select fid winner j w)"
  unfolding step_select_def
proof (rule good_attempt [OF assms(1,2)], clarify)
  let ?db = "ww_db w"
  have ok: "wf_ok ?db" using assms(1) by (simp add: sound_db_def)
  fix r db' assume c: "create_test_run fid winner ?db = Inr (r, db')"
  note t = create_test_run_ok [OF ok c]
  have e: "evolves ?db db'" using t by blast
  from c obtain f v where f: "List.find (\<lambda>f. fr_id f = fid) (wd_folds ?db) = Some f" and v: "validation_of ?db (fr_validation f) = Some v"
    by (auto simp: create_test_run_def split: option.splits)
  have mem: "f \<in> set (wd_folds ?db)" "fr_id f = fid" using f by (auto simp: find_Some_iff)
  have other: "fr_validation f = wj_validation j"
  proof -
    from assms(3) have "fid \<in> set (fold_ids ?db (wj_validation j))" unfolding here_def using nth_mem by metis
    then obtain g where "g \<in> set (wd_folds ?db)" "fr_id g = fid" "fr_validation g = wj_validation j" by (auto simp: fold_ids_def folds_of_set)
    with mem ok show ?thesis by (auto simp: wf_ok_def ids_ok_def distinct_map inj_on_def)
  qed
  have new: "f' \<in> set (wd_folds ?db) \<or> fr_id f' = fid \<and> fold_core f' = fold_core f \<and> fr_selected f' = Some (selected_of winner)
      \<and> (\<exists>x. fr_test f' = Some x \<and> wd_columns db' x = Some (columns_of (vr_spec v) (cp_configuration (selected_of winner)) (cp_execution (selected_of winner))
          (fo_testing_start (fr_window f)) (fo_testing_end (fr_window f))))"
    if "f' \<in> set (wd_folds db')" for f'
  proof (cases "fr_test f")
    case (Some x)
    with c f v that show ?thesis by (auto simp: create_test_run_def split: option.splits)
  next
    case None
    have one: "g = f" if "g \<in> set (wd_folds ?db)" "fr_id g = fid" for g using that mem ok by (auto simp: wf_ok_def ids_ok_def distinct_map inj_on_def)
    from None c f v that show ?thesis
      by (auto simp: create_test_run_def new_id_eq Let_def change_fold_def fold_core_def dest!: one split: option.splits)
  qed
  have vids: "vids db' = vids ?db" using c f v by (auto simp: create_test_run_def new_id_eq Let_def change_fold_def split: option.splits)
  have still: "ended db' x" if "x \<noteq> fid" "ended ?db x" for x using that new by (auto simp: ended_def)
  have "chosen_best db' f'" if f': "f' \<in> set (wd_folds db')" for f'
    using new [OF f']
  proof
    assume "f' \<in> set (wd_folds ?db)"
    then show ?thesis using chosen_best_stable [OF ok e] assms(1) by (simp add: sound_db_def all_chosen_def)
  next
    assume n: "fr_id f' = fid \<and> fold_core f' = fold_core f \<and> fr_selected f' = Some (selected_of winner)
      \<and> (\<exists>x. fr_test f' = Some x \<and> wd_columns db' x = Some (columns_of (vr_spec v) (cp_configuration (selected_of winner)) (cp_execution (selected_of winner))
          (fo_testing_start (fr_window f)) (fo_testing_end (fr_window f))))"
    from assms(4) obtain u rest where u: "validation_of ?db (wj_validation j) = Some u" "training_settled ?db fid"
      "rank_training (candidate_views ?db fid) (vr_spec u) = Inr (winner # rest)" unfolding winner_of_def by blast
    note stable = candidates_stable [OF e u(2) here_known [OF assms(3)] ok] evolves_facts(4) [OF e assms(2) u(1)]
    from u v other have "u = v" by simp
    with n stable u(3) show ?thesis unfolding chosen_best_def chosen_for_def by (auto simp: fold_core_def other selected_of_def)
  qed
  then have sound: "sound_db db'" using t assms(1) counts_stable [OF e vids] by (simp add: sound_db_def all_chosen_def)
  have h: "here j db' fid" by (rule here_stable [OF e still assms(3,2) ok])
  moreover have "tests db' fid (ru_id r)" using t by (auto simp: tests_def)
  moreover have "wj_validation j \<in> vids db'" using assms(2) vids by simp
  moreover have "request_of r = Inr request \<Longrightarrow> br_run_id request = ru_id r" for request by (auto simp: request_of_def rbind_eq_Inr Let_def)
  ultimately have "good (attempt (request_of r) j (w\<lparr>ww_db := db'\<rparr>) (\<lambda>request. (enter_phase (Submit fid request) j, w\<lparr>ww_db := db'\<rparr>)))"
    using sound by (intro good_attempt) (simp_all add: good_def job_fact_def phase_fact_def)
  then show "good (let w1 = w\<lparr>ww_db := db'\<rparr> in attempt (request_of r) j w1 (\<lambda>request. (enter_phase (Submit fid request) j, w1)))" by (simp add: Let_def)
qed

lemma good_here:
  assumes "sound_db (ww_db w)" and "wj_validation j \<in> vids (ww_db w)" and "here j (ww_db w) fid" and "steady {} (ww_db w) (ww_db w')"
    and "\<And>db. here j db fid \<Longrightarrow> calm {} (ww_db w) db \<Longrightarrow> phase_fact (enter_phase p j) db"
  shows "good (enter_phase p j, w')"
proof -
  note c = assms(4) [unfolded steady_def, THEN conjunct1]
  have "here j (ww_db w') fid" using calm_here [OF c _ assms(3,2)] assms(1) by (simp add: sound_db_def)
  from good_steady [OF assms(4,1) _ assms(5) [OF this c]] assms(2) show ?thesis by simp
qed

lemma submit_good:
  assumes "sound_db (ww_db w)" and "wj_validation j \<in> vids (ww_db w)" and "here j (ww_db w) fid" and "tests (ww_db w) fid (br_run_id request)"
    and "wj_phase j = Submit fid request"
  shows "good (step_submit fid request j w)"
  unfolding step_submit_def Let_def
proof (rule good_attempt [OF assms(1,2)])
  let ?db = "ww_db w" let ?rid = "br_run_id request"
  have ok: "wf_ok ?db" using assms(1) by (simp add: sound_db_def)
  fix view
  have test: "?rid \<notin> training_runs ?db" using ok assms(4) by (auto simp: wf_ok_def fold_ok_def tests_def)
  have "good (attempt (run_finish t ?rid CANCELLED None None) j ((set_runs t w)\<lparr>ww_queue := q\<rparr>)
      (\<lambda>(_, t1). (enter_phase (AwaitTest fid ?rid) j, set_runs t1 ((set_runs t w)\<lparr>ww_queue := q\<rparr>))))"
    if "job_cancel (ww_queue w) (wd_runs ?db) ?rid = Inr (row, q, t)" for row q t
  proof -
    let ?w1 = "(set_runs t w)\<lparr>ww_queue := q\<rparr>"
    note change = job_cancel_change [OF that]
    have s: "steady {} ?db (ww_db ?w1)" using change_steady [OF ok change] by (simp add: set_runs_def)
    have fin: "steady {} ?db (?db\<lparr>wd_runs := t1\<rparr>)" if "run_finish t ?rid CANCELLED None None = Inr (row1, t1)" for row1 t1
    proof (rule runs_steady [OF ok])
      from that have t1: "t1 = run_update t ?rid (\<lambda>_. True) (\<lambda>r. r\<lparr>rw_status := CANCELLED, rw_metrics := None, rw_error := None, rw_current_symbol := None\<rparr>)"
        by (auto simp: run_finish_def rbind_eq_Inr Let_def split: if_splits)
      then have "dom t1 = dom t" by (cases "t ?rid") (auto simp: run_update_def insert_absorb)
      then show "dom t1 = dom (wd_runs ?db)" using run_change_keeps(1) [OF change] by simp
      show "t1 x = Some r" if "x \<in> training_runs ?db" "wd_runs ?db x = Some r" "terminal_run r" for x r
      proof -
        from that(1) test have "x \<noteq> ?rid" by blast
        then show ?thesis using run_change_keeps(2) [OF change that(2,3)] by (simp add: t1 run_update_def split: option.split)
      qed
    qed
    have "good (enter_phase (Crashed e) j, ?w1)" for e by (rule good_here [OF assms(1-3) s]) (simp add: phase_fact_def)
    moreover have "good (enter_phase (AwaitTest fid ?rid) j, set_runs t1 ?w1)" if "run_finish t ?rid CANCELLED None None = Inr (row1, t1)" for row1 t1
      by (rule good_here [OF assms(1-3)]) (use fin [OF that] assms(4) in \<open>auto simp: set_runs_def phase_fact_def intro: calm_tests\<close>)
    ultimately show ?thesis by (auto simp: attempt_def split: sum.split)
  qed
  moreover have "good (enter_phase (AwaitTest fid ?rid) j, w\<lparr>ww_queue := q\<rparr>)" "good (enter_phase (Crashed e) j, w\<lparr>ww_queue := q\<rparr>)" for q e
    by (rule good_here [OF assms(1-3)]; use assms(4) ok in \<open>auto simp: phase_fact_def intro: calm_tests\<close>)+
  moreover have "good (j, w\<lparr>ww_queue := q\<rparr>)" for q using assms by (simp add: good_def job_fact_def phase_fact_def)
  ultimately show "good (if view_cancelled view then attempt (job_cancel (ww_queue w) (wd_runs ?db) ?rid) j w (\<lambda>(_, q, t).
            attempt (run_finish t ?rid CANCELLED None None) j ((set_runs t w)\<lparr>ww_queue := q\<rparr>)
              (\<lambda>(_, t1). (enter_phase (AwaitTest fid ?rid) j, set_runs t1 ((set_runs t w)\<lparr>ww_queue := q\<rparr>))))
        else case submit_many (ww_queue w) [?rid] of
            Inr q \<Rightarrow> (enter_phase (AwaitTest fid ?rid) j, w\<lparr>ww_queue := q\<rparr>)
          | Inl (BacktestQueueFull n, q) \<Rightarrow> (j, w\<lparr>ww_queue := q\<rparr>)
          | Inl (e, q) \<Rightarrow> (enter_phase (Crashed e) j, w\<lparr>ww_queue := q\<rparr>))"
    by (auto intro!: good_attempt [OF assms(1,2)] split: sum.split py_error.split)
qed

lemma await_test_good:
  assumes "sound_db (ww_db w)" and "wj_validation j \<in> vids (ww_db w)" and "here j (ww_db w) fid" and "tests (ww_db w) fid rid" and "wj_phase j = AwaitTest fid rid"
  shows "good (step_await_test fid rid j w)"
  unfolding step_await_test_def
proof (rule good_attempt [OF assms(1,2)])
  have ok: "wf_ok (ww_db w)" using assms(1) by (simp add: sound_db_def)
  have self: "enter_phase (AwaitTest fid rid) j = j" using assms(5) by (simp add: enter_phase_def)
  have stay: "good (j, w1)" if "steady {} (ww_db w) (ww_db w1)" for w1
    using good_here [OF assms(1-3) that, of "AwaitTest fid rid"] self calm_tests [OF _ assms(4)] by (simp add: phase_fact_def assms(5))
  have settle: "good (enter_phase (Settle fid r) j, w)" for r by (rule good_here [OF assms(1-3)]) (simp_all add: ok phase_fact_def)
  have cancel: "good (attempt_world (cancel_run w r) j (\<lambda>w1. (j, w1)))" for r
    by (rule good_attempt_world [OF assms(1,2) cancel_run_keeps [OF ok]]) (rule stay)
  fix view
  show "good (case List.find (\<lambda>r. ru_id r = rid) (List.map_filter fv_test (vv_folds view)) of
         None \<Rightarrow> (j, w)
       | Some r \<Rightarrow> if terminal_run (ru_row r) then (enter_phase (Settle fid r) j, w)
           else if view_cancelled view then attempt_world (cancel_run w r) j (\<lambda>w1. (j, w1)) else (j, w))"
    using stay [of w] settle cancel ok by (auto split: option.split)
qed

lemma settle_good:
  assumes "sound_db (ww_db w)" and "wj_validation j \<in> vids (ww_db w)" and "here j (ww_db w) fid"
  shows "good (step_settle now fid r j w)"
  unfolding step_settle_def Let_def by (auto intro!: good_end_fold [OF assms] simp: fold_terminal_def)

lemma finish_good:
  assumes "sound_db (ww_db w)" and "wj_validation j \<in> vids (ww_db w)" and "all_ended (ww_db w) (wj_validation j)"
  shows "good (step_finish now j w)"
  unfolding step_finish_def
proof (rule good_attempt [OF assms(1,2)], rule good_attempt [OF assms(1,2)])
  have ok: "wf_ok (ww_db w)" using assms(1) by (simp add: sound_db_def)
  fix rows :: "metric_row list"
  let ?w = "on_db (finish_validation now (wj_validation j) (aggregate_unseen_metrics rows)) w"
  have s: "steady {} (ww_db w) (ww_db ?w)" by (simp add: on_db_def finish_validation_def validation_steady ok)
  have "all_ended (ww_db ?w) (wj_validation j)" using assms(3)
    by (simp add: all_ended_def ended_def fold_ids_def folds_of_def on_db_def finish_validation_def change_validation_def)
  then show "good (enter_phase Done j, ?w)" using good_steady [OF s assms(1), of "enter_phase Done j"] assms(2) by (simp add: phase_fact_def)
qed

lemma crash_good:
  assumes "sound_db (ww_db w)" and "wj_validation j \<in> vids (ww_db w)"
  shows "good (step_crash text now e j w)"
proof -
  let ?f = "\<lambda>w fv. if fold_terminal (fr_status (fv_row fv)) then w else on_db (update_fold now (fr_id (fv_row fv)) FFailed (Some (text e))) w"
  have ok: "wf_ok (ww_db w)" using assms(1) by (simp add: sound_db_def)
  from view_found [OF ok assms(2)] obtain view where view: "current j w = Inr view" by (auto simp: current_def)
  note rows = current_read(3) [OF ok view assms(2)]
  have go: "steady {} (ww_db w0) (ww_db (foldl ?f w0 fvs)) \<and> (\<forall>fv \<in> set fvs. ended (ww_db (foldl ?f w0 fvs)) (fr_id (fv_row fv)))"
    if "wf_ok (ww_db w0)" "\<forall>fv \<in> set fvs. fr_id (fv_row fv) \<in> fids (ww_db w0) \<and> (fold_terminal (fr_status (fv_row fv)) \<longrightarrow> ended (ww_db w0) (fr_id (fv_row fv)))" for w0 fvs
    using that
  proof (induction fvs rule: rev_induct)
    case (snoc fv fvs)
    let ?w1 = "foldl ?f w0 fvs"
    from snoc have IH: "steady {} (ww_db w0) (ww_db ?w1)" "\<forall>fv \<in> set fvs. ended (ww_db ?w1) (fr_id (fv_row fv))" by auto
    have ok1: "wf_ok (ww_db ?w1)" by (rule steady_ok [OF IH(1)])
    have s: "steady {} (ww_db ?w1) (ww_db (?f ?w1 fv))" using ok1 update_fold_steady [OF ok1, of FFailed] by (simp add: on_db_def fold_terminal_def)
    note c1 = IH(1) [unfolded steady_def, THEN conjunct1] note c2 = s [unfolded steady_def, THEN conjunct1]
    have keep: "ended (ww_db (?f ?w1 fv)) x" if "x \<in> fids (ww_db w0)" "ended (ww_db ?w1) x" for x
      by (rule calm_ended [OF c2 evolves_facts(2) [OF calm_evolves [OF c1] that(1)] _ that(2)]) simp
    have "ended (ww_db (?f ?w1 fv)) (fr_id (fv_row fv))"
    proof (cases "fold_terminal (fr_status (fv_row fv))")
      case True
      then have "ended (ww_db ?w1) (fr_id (fv_row fv))" using snoc.prems(2) by (intro calm_ended [OF c1]) simp_all
      then show ?thesis using True by simp
    qed (simp add: on_db_def update_fold_ended fold_terminal_def [of FFailed])
    with IH(2) keep snoc.prems(2) steady_trans [OF IH(1) s] show ?case by auto
  qed simp
  have "fr_id (fv_row fv) \<in> fids (ww_db w) \<and> (fold_terminal (fr_status (fv_row fv)) \<longrightarrow> ended (ww_db w) (fr_id (fv_row fv)))" if "fv \<in> set (vv_folds view)" for fv
  proof -
    from that rows have "fv_row fv \<in> set (folds_of (ww_db w) (wj_validation j))" by (metis image_eqI image_set)
    then show ?thesis using terminal_ended [OF ok] by (auto simp: folds_of_set)
  qed
  moreover define w1 where "w1 = foldl ?f w (vv_folds view)"
  ultimately have r: "steady {} (ww_db w) (ww_db w1)" "\<forall>fv \<in> set (vv_folds view). ended (ww_db w1) (fr_id (fv_row fv))" using go [OF ok] by blast+
  have "fold_ids (ww_db w1) (wj_validation j) = fold_ids (ww_db w) (wj_validation j)"
    by (rule evolves_facts(3) [OF calm_evolves [OF r(1) [unfolded steady_def, THEN conjunct1]] assms(2)])
  also have "\<dots> = map fr_id (map fv_row (vv_folds view))" by (simp only: fold_ids_def rows)
  finally have "all_ended (ww_db w1) (wj_validation j)" using r(2) by (simp add: all_ended_def)
  then show ?thesis using good_steady [OF r(1) assms(1), of "enter_phase Done j"] assms(2) by (simp add: step_crash_def view phase_fact_def w1_def)
qed

lemma coordinator_good:
  assumes "sound_db (ww_db w)" and "job_fact j (ww_db w)"
  shows "good (coordinator_step text now j w)"
proof -
  have vid: "wj_validation j \<in> vids (ww_db w)" using assms(2) by (simp add: job_fact_def)
  have f: "phase_fact j (ww_db w)" using assms(2) by (simp add: job_fact_def)
  show ?thesis
  proof (cases "wj_phase j")
    case Done
    then show ?thesis using good_same [OF assms] by simp
  qed (use f assms(1) vid in \<open>auto simp: phase_fact_def fold_terminal_def [of FFailed] intro: open_good begin_good train_good await_training_good trained_good
        good_end_fold select_good submit_good await_test_good settle_good finish_good crash_good\<close>)
qed

section \<open>Creation keeps the counts\<close>

lemma insert_training_folds: "insert_training s fid f db c = Inr db' \<Longrightarrow> wd_folds db' = wd_folds db \<and> wd_validations db' = wd_validations db"
  by (auto simp: insert_training_def new_id_eq Let_def split: if_splits)

lemma insert_fold_rows:
  assumes "insert_fold s vid cs db f = Inr db'"
  shows "\<exists>row. wd_folds db' = wd_folds db @ [row] \<and> fr_window row = f \<and> fr_validation row = vid \<and> wd_validations db' = wd_validations db"
proof -
  let ?row = "\<lparr>fr_id = show_nat (wd_issued db), fr_validation = vid, fr_window = f, fr_status = FQueued, fr_error = None, fr_selected = None, fr_rank = None, fr_test = None, fr_completed = None\<rparr>"
  from assms have loop: "rfold (insert_training s (show_nat (wd_issued db)) f) ((next_id db)\<lparr>wd_folds := wd_folds db @ [?row]\<rparr>) cs = Inr db'"
    by (auto simp: insert_fold_def new_id_eq split: if_splits)
  have "wd_folds db' = wd_folds db @ [?row] \<and> wd_validations db' = wd_validations db"
    by (rule rfold_invariant [OF _ _ loop]) (auto dest: insert_training_folds)
  then show ?thesis by auto
qed

lemma insert_folds_rows:
  "rfold (insert_fold s vid cs) db folds = Inr db'
     \<Longrightarrow> \<exists>rows. wd_folds db' = wd_folds db @ rows \<and> map fr_window rows = folds \<and> (\<forall>f \<in> set rows. fr_validation f = vid) \<and> wd_validations db' = wd_validations db"
proof (induction folds arbitrary: db)
  case (Cons f folds)
  then obtain db1 where 1: "insert_fold s vid cs db f = Inr db1" "rfold (insert_fold s vid cs) db1 folds = Inr db'" by (auto simp: rbind_eq_Inr)
  from insert_fold_rows [OF 1(1)] Cons.IH [OF 1(2)] show ?case by fastforce
qed simp

lemma workload_folds: "workload_estimate market timeframe folds n m = Inr wl \<Longrightarrow> wl_folds wl = int (length folds)"
  by (auto simp: workload_estimate_def Let_def split: if_splits option.splits)

lemma create_rows_calm:
  assumes "sound_db db" and "create_rows now s key folds cs db = Inr (vid, created, db')"
    and "workload_estimate market timeframe folds n m = Inr (vs_workload s)"
  shows "sound_db db' \<and> calm {} db db'"
proof -
  have ok: "wf_ok db" using assms(1) by (simp add: sound_db_def)
  note r = create_rows_ok [OF ok assms(2)]
  then obtain new where new: "wd_folds db' = wd_folds db @ new" "\<forall>f \<in> set new. fr_test f = None" by (auto simp: appends_folds_def)
  have "distinct (map fr_id (wd_folds db'))" using r by (simp add: wf_ok_def ids_ok_def)
  then have "fids db \<inter> fr_id ` set new = {}" by (simp add: new(1))
  then have still: "ended db x \<Longrightarrow> ended db' x" if "x \<in> fids db" for x using that unfolding ended_def new(1) by auto
  then have calm: "calm {} db db'" using r new by (auto simp: calm_def)
  have "counts_ok db'"
  proof (cases created)
    case False
    with assms(2) have "db' = next_id db" by (auto simp: create_rows_def new_id_eq rbind_eq_Inr split: if_splits option.splits)
    with assms(1) show ?thesis by (simp add: sound_db_def counts_ok_def fold_ids_def)
  next
    case True
    let ?x = "show_nat (wd_issued db)"
    let ?v = "\<lparr>vr_id = ?x, vr_key = py_strip key, vr_spec = s, vr_cancel = False, vr_aggregate = None, vr_created = now, vr_completed = None\<rparr>"
    from True assms(2) have "rfold (insert_fold s ?x cs) ((next_id db)\<lparr>wd_validations := wd_validations db @ [?v]\<rparr>) folds = Inr db'"
      by (auto simp: create_rows_def new_id_eq rbind_eq_Inr split: if_splits option.splits)
    from insert_folds_rows [OF this] obtain rows where rows: "wd_folds db' = wd_folds db @ rows" "length rows = length folds"
      "\<forall>f \<in> set rows. fr_validation f = ?x" "wd_validations db' = wd_validations db @ [?v]" by fastforce
    have none: "filter (\<lambda>f. fr_validation f = ?x) (wd_folds db) = []" using wf_ok_fresh(7) [OF ok issued_fresh] by simp
    have "filter (\<lambda>f. fr_validation f = ?x) rows = rows" using rows(3) by simp
    with rows(1,2) none have mine: "length (fold_ids db' ?x) = length folds" by (simp add: fold_ids_def folds_of_def)
    have others: "fold_ids db' vid = fold_ids db vid" if "vid \<noteq> ?x" for vid
    proof -
      have "filter (\<lambda>f. fr_validation f = vid) rows = []" using rows(3) that by auto
      then show ?thesis by (simp add: fold_ids_def folds_of_def rows(1))
    qed
    have "wl_folds (vs_workload s) = int (length folds)" by (rule workload_folds [OF assms(3)])
    moreover have "validation_of db ?x = None" using wf_ok_fresh(1) [OF ok issued_fresh] validation_of_known by fastforce
    then have "validation_of db' ?x = Some ?v" by (simp add: validation_of_def rows(4) find_app)
    moreover have "validation_of db' vid = validation_of db vid" if "vid \<noteq> ?x" for vid
      using that by (simp add: validation_of_def rows(4) find_app split: option.split)
    ultimately have "wl_folds (vs_workload (vr_spec v)) = int (length (fold_ids db' vid))" if "validation_of db' vid = Some v" for vid v
      using that mine others assms(1) by (cases "vid = ?x") (auto simp: sound_db_def counts_ok_def)
    then show ?thesis by (simp add: counts_ok_def)
  qed
  with r calm_chosen [OF ok calm] calm assms(1) show ?thesis by (simp add: sound_db_def)
qed

end
