(* ===== verification/Walk_Forward_Progress.thy ===== *)
theory Walk_Forward_Progress
  imports Walk_Forward_Selection
begin

text \<open>
  The invariant of all reachable worlds, the measure of a job, and what follows: tests are chosen from the best ended
  training run, a job that is done has closed all its folds, and every other step gets nearer to the end or waits
  for training runs, for a place in the queue or for the test run.
\<close>

section \<open>All reachable worlds\<close>

definition wf_inv :: "wf_world \<Rightarrow> bool" where
  "wf_inv w \<longleftrightarrow> sound_db (ww_db w) \<and> (\<forall>j. ww_job w = Some j \<longrightarrow> job_fact j (ww_db w))"

lemma inv_calm:
  assumes "wf_inv w" and "calm {} (ww_db w) (ww_db w')" and "sound_db (ww_db w')" and "ww_job w' = ww_job w"
  shows "wf_inv w'"
  using assms calm_job [OF assms(2)] by (simp add: wf_inv_def sound_db_def)

lemma inv_steady: "wf_inv w \<Longrightarrow> steady {} (ww_db w) (ww_db w') \<Longrightarrow> ww_job w' = ww_job w \<Longrightarrow> wf_inv w'"
  using inv_calm steady_sound unfolding steady_def wf_inv_def by metis

lemma wf_reachable_inv: "wf_reachable w \<Longrightarrow> wf_inv w"
proof (induction rule: wf_reachable.induct)
  case (launched workers pending q)
  show ?case by (simp add: wf_inv_def sound_db_def empty_wf_db_def wf_ok_def ids_ok_def all_chosen_def counts_ok_def validation_of_def)
next
  case (created w s folds cs now key)
  let ?w = "on_db (\<lambda>db. create_result (create_generated now s key folds cs db)) w"
  have s: "sound_db (ww_db w)" using created.IH by (simp add: wf_inv_def)
  have "ww_db ?w = ww_db w \<or> (\<exists>vid c. create_rows now s key folds cs (ww_db w) = Inr (vid, c, ww_db ?w))"
    by (auto simp: on_db_def create_generated_def create_result_def split: sum.split)
  then have "sound_db (ww_db ?w) \<and> calm {} (ww_db w) (ww_db ?w)"
    using create_rows_calm [OF s _ created.hyps(2)] s by (auto simp: sound_db_def)
  then show ?case using inv_calm [OF created.IH, of ?w] by (simp add: on_db_def)
next
  case (worked w t)
  then have "wf_ok (ww_db w)" by (simp add: wf_inv_def sound_db_def)
  from change_steady [OF this worked.hyps(2)] show ?case by (intro inv_steady [OF worked.IH]) (simp_all add: set_runs_def)
next
  case (queued w q)
  then show ?case by (simp add: wf_inv_def)
next
  case (requested w vid view db)
  from requested.hyps(2) have db: "db = change_validation vid (\<lambda>v. v\<lparr>vr_cancel := True\<rparr>) (ww_db w)" by (auto simp: validation_cancel_def rbind_eq_Inr Let_def)
  show ?case by (rule inv_steady [OF requested.IH]) (use requested.IH in \<open>auto simp: db wf_inv_def sound_db_def intro!: validation_steady\<close>)
next
  case (visited w fv now)
  then have "wf_ok (ww_db w)" by (simp add: wf_inv_def sound_db_def)
  from cancel_fold_keeps(1) [OF this, of now fv] show ?case by (intro inv_steady [OF visited.IH]) (simp_all add: keeps_world_def)
next
  case (started w vid acquired)
  then show ?case by (auto simp: wf_inv_def start_job_def job_fact_def phase_fact_def split: if_splits)
next
  case (stepped w j msg now j' w')
  then have "good (coordinator_step msg now j w)" by (intro coordinator_good) (simp_all add: wf_inv_def)
  then show ?case using stepped.hyps(3) by (simp add: good_def wf_inv_def)
next
  case (restarted w workers pending q)
  have ok: "wf_ok (ww_db w)" using restarted.IH by (simp add: wf_inv_def sound_db_def)
  have "sound_db (ww_db (set_runs (interrupt_stale (wd_runs (ww_db w))) w))"
    using steady_sound [OF change_steady [OF ok run_change.interrupted]] restarted.IH by (simp add: wf_inv_def set_runs_def)
  then show ?case by (simp add: wf_inv_def)
qed

section \<open>The best candidate\<close>

lemma status_name_inject: "run_status_name a = ''COMPLETE'' \<longleftrightarrow> a = COMPLETE"
  by (cases a) simp_all

lemma map_filter_head: "List.map_filter f xs = y # ys \<Longrightarrow> (\<And>x. x \<in> set xs \<Longrightarrow> f x \<noteq> None) \<Longrightarrow> \<exists>x rest. xs = x # rest \<and> f x = Some y"
  by (cases xs) (auto simp: List.map_filter_def)

lemma rank_training_head:
  assumes "rank_training cvs s = Inr (winner # rest)" and "distinct (map (\<lambda>cv. tr_variant (cv_training cv)) cvs)"
  shows "winner \<in> set cvs \<and> candidate_eligible (vs_minimum_trades s) (ranking_candidate winner)
    \<and> (\<exists>score. \<forall>cv \<in> set cvs. candidate_eligible (vs_minimum_trades s) (ranking_candidate cv)
         \<longrightarrow> candidate_score (vs_objective s) (ranking_candidate cv) = Inr (score cv) \<and> score cv \<le> score winner)"
proof -
  let ?find = "\<lambda>c. List.find (\<lambda>cv. tr_variant (cv_training cv) = cn_id c) cvs"
  from assms(1) obtain ranked where r: "rank_completed_candidates (map ranking_candidate cvs) (vs_objective s) (vs_minimum_trades s) = Inr ranked"
    and m: "List.map_filter ?find ranked = winner # rest"
    and whole: "vs_objective s \<in> set RANKING_OBJECTIVES \<Longrightarrow> \<forall>cv \<in> set cvs. rw_status (ru_row (cv_run cv)) = COMPLETE \<longrightarrow> rw_metrics (ru_row (cv_run cv)) \<noteq> None"
    by (auto simp: rank_training_def rbind_eq_Inr list_ex_iff split: if_splits)
  have o: "vs_objective s \<in> set RANKING_OBJECTIVES" using r by (auto simp: rank_completed_candidates_def split: if_splits)
  have "\<forall>c \<in> set (map ranking_candidate cvs). candidate_eligible (vs_minimum_trades s) c \<longrightarrow> cn_metrics c \<noteq> None"
    using whole [OF o] by (auto simp: candidate_eligible_def ranking_candidate_def status_name_inject)
  from candidates_ranked [OF o this] r obtain score where sc: "mset ranked = mset (filter (candidate_eligible (vs_minimum_trades s)) (map ranking_candidate cvs))"
    "\<forall>c \<in> set ranked. candidate_score (vs_objective s) c = Inr (score c)" "sorted_wrt (\<lambda>c d. score d \<le> score c) ranked" by auto
  have members: "set ranked = ranking_candidate ` {cv \<in> set cvs. candidate_eligible (vs_minimum_trades s) (ranking_candidate cv)}"
    using mset_eq_setD [OF sc(1)] by auto
  have found: "?find (ranking_candidate cv) = Some cv" if "cv \<in> set cvs" for cv
  proof -
    have "?find (ranking_candidate cv) \<noteq> None" using that by (auto simp: find_None_iff ranking_candidate_def)
    then obtain u where u: "?find (ranking_candidate cv) = Some u" by blast
    then have "u \<in> set cvs" "tr_variant (cv_training u) = tr_variant (cv_training cv)" by (auto simp: find_Some_iff ranking_candidate_def)
    with that assms(2) u show ?thesis by (auto simp: distinct_map inj_on_def)
  qed
  have "?find c \<noteq> None" if "c \<in> set ranked" for c using that members found by auto
  from map_filter_head [OF m this] obtain c others where c: "ranked = c # others" "?find c = Some winner" by blast
  then obtain cv where cv: "cv \<in> set cvs" "candidate_eligible (vs_minimum_trades s) (ranking_candidate cv)" "c = ranking_candidate cv" using members by auto
  with c(2) found have w: "winner = cv" by auto
  have "score d \<le> score c" if "d \<in> set ranked" for d using sc(3) c(1) that by auto
  then have "\<forall>u \<in> set cvs. candidate_eligible (vs_minimum_trades s) (ranking_candidate u)
       \<longrightarrow> candidate_score (vs_objective s) (ranking_candidate u) = Inr (score (ranking_candidate u)) \<and> score (ranking_candidate u) \<le> score (ranking_candidate winner)"
    using sc(2) members cv(3) w by blast
  with cv w show ?thesis by (intro conjI exI [of _ "\<lambda>u. score (ranking_candidate u)"]) auto
qed

lemma public_run_parts: "public_run db x = Some r \<Longrightarrow> ru_id r = x \<and> wd_columns db x = Some (ru_columns r) \<and> wd_runs db x = Some (ru_row r)"
  by (auto simp: public_run_def split: option.splits)

lemma distinct_map_filter_keys:
  "distinct (map g xs) \<Longrightarrow> (\<And>x y. f x = Some y \<Longrightarrow> h y = g x) \<Longrightarrow> distinct (map h (List.map_filter f xs))"
proof (induction xs)
  case (Cons x xs)
  have "h y \<in> g ` set xs" if "y \<in> set (List.map_filter f xs)" for y
    using that Cons.prems(2) by (auto simp: List.map_filter_def image_iff split: option.splits)
  with Cons show ?case by (cases "f x") (auto simp: List.map_filter_def)
qed (simp add: List.map_filter_def)

lemma candidate_view_facts:
  assumes "wf_ok db" and "f \<in> set (wd_folds db)"
  shows "distinct (map (\<lambda>cv. tr_variant (cv_training cv)) (candidate_views db (fr_id f)))"
    and "cv \<in> set (candidate_views db (fr_id f)) \<Longrightarrow> rc_start (ru_columns (cv_run cv)) = fo_training_start (fr_window f) \<and> rc_end (ru_columns (cv_run cv)) = fo_training_end (fr_window f)"
    and "cv \<in> set (candidate_views db (fr_id f)) \<Longrightarrow> training_settled db (fr_id f) \<Longrightarrow> terminal_run (ru_row (cv_run cv))"
proof -
  have view: "\<exists>t \<in> set (trainings_of db (fr_id f)). cv_training cv = t \<and> public_run db (tr_run t) = Some (cv_run cv)" if "cv \<in> set (candidate_views db (fr_id f))" for cv
    using that by (auto simp: candidate_views_def List.map_filter_def split: option.splits)
  have "distinct (map (\<lambda>t. (tr_fold t, tr_variant t)) (filter (\<lambda>t. tr_fold t = fr_id f) (wd_trainings db)))"
    using assms(1) by (simp add: wf_ok_def ids_ok_def distinct_map_filter)
  then have "distinct (map tr_variant (filter (\<lambda>t. tr_fold t = fr_id f) (wd_trainings db)))" by (auto simp: distinct_map inj_on_def)
  then have "distinct (map tr_variant (trainings_of db (fr_id f)))" by (simp add: trainings_of_def distinct_map)
  then show "distinct (map (\<lambda>cv. tr_variant (cv_training cv)) (candidate_views db (fr_id f)))"
    unfolding candidate_views_def by (rule distinct_map_filter_keys) auto
  show "cv \<in> set (candidate_views db (fr_id f)) \<Longrightarrow> rc_start (ru_columns (cv_run cv)) = fo_training_start (fr_window f) \<and> rc_end (ru_columns (cv_run cv)) = fo_training_end (fr_window f)"
  proof -
    assume "cv \<in> set (candidate_views db (fr_id f))"
    from view [OF this] obtain t where t: "t \<in> set (trainings_of db (fr_id f))" "public_run db (tr_run t) = Some (cv_run cv)" by blast
    then have "training_ok db t" "tr_fold t = fr_id f" using assms(1) by (auto simp: trainings_of_set wf_ok_def)
    with assms(2) obtain c where "wd_columns db (tr_run t) = Some c" "rc_start c = fo_training_start (fr_window f)" "rc_end c = fo_training_end (fr_window f)"
      by (auto simp: training_ok_def)
    with public_run_parts [OF t(2)] show ?thesis by simp
  qed
  show "cv \<in> set (candidate_views db (fr_id f)) \<Longrightarrow> training_settled db (fr_id f) \<Longrightarrow> terminal_run (ru_row (cv_run cv))"
  proof -
    assume cv: "cv \<in> set (candidate_views db (fr_id f))" and "training_settled db (fr_id f)"
    then have ended: "\<forall>t \<in> set (trainings_of db (fr_id f)). case wd_runs db (tr_run t) of None \<Rightarrow> False | Some r \<Rightarrow> terminal_run r"
      by (simp add: training_settled_def list_all_iff)
    from view [OF cv] obtain t where t: "t \<in> set (trainings_of db (fr_id f))" "public_run db (tr_run t) = Some (cv_run cv)" by blast
    with ended public_run_parts [OF t(2)] show ?thesis by fastforce
  qed
qed

section \<open>Getting nearer to the end\<close>

text \<open>Every phase but the first and the last counts down within its fold.\<close>

fun phase_rank :: "wf_phase \<Rightarrow> nat" where
  "phase_rank Opening = 10" | "phase_rank Begin = 9" | "phase_rank (Train _) = 8" | "phase_rank AwaitTraining = 7" | "phase_rank (Trained _) = 6"
| "phase_rank (Reject _) = 5" | "phase_rank (Select _ _) = 5" | "phase_rank (Submit _ _) = 4" | "phase_rank (AwaitTest _ _) = 3"
| "phase_rank (Settle _ _) = 2" | "phase_rank Finishing = 2" | "phase_rank (Crashed _) = 1" | "phase_rank Done = 0"

definition remaining :: "wf_job \<Rightarrow> nat" where
  "remaining j = 12 * nat (wj_count j + 1 - int (wj_position j)) + phase_rank (wj_phase j)"

text \<open>Why a job waits.\<close>

definition waits :: "wf_job \<Rightarrow> wf_world \<Rightarrow> bool" where
  "waits j w \<longleftrightarrow>
     (case wj_phase j of
        AwaitTraining \<Rightarrow> \<not> validation_cancelled (ww_db w) (wj_validation j)
          \<and> (\<exists>cv \<in> set (candidate_views (ww_db w) (fold_ids (ww_db w) (wj_validation j) ! (wj_position j - 1))). \<not> terminal_run (ru_row (cv_run cv)))
      | Submit _ _ \<Rightarrow> \<not> validation_cancelled (ww_db w) (wj_validation j) \<and> js_max_pending (ww_queue w) \<le> pending_count (ww_queue w)
      | AwaitTest _ rid \<Rightarrow> (\<exists>row. wd_runs (ww_db w) rid = Some row \<and> \<not> terminal_run row)
      | _ \<Rightarrow> False)"

definition progress :: "wf_job \<Rightarrow> wf_world \<Rightarrow> wf_job \<times> wf_world \<Rightarrow> bool" where
  "progress j w r \<longleftrightarrow> remaining (fst r) < remaining j \<or> fst r = j \<and> waits j w"

lemma remaining_enter: "phase_rank p < phase_rank (wj_phase j) \<Longrightarrow> remaining (enter_phase p j) < remaining j"
  by (simp add: remaining_def enter_phase_def)

lemma remaining_next: "int (wj_position j) \<le> wj_count j \<Longrightarrow> remaining (next_position j) < remaining j"
proof -
  assume "int (wj_position j) \<le> wj_count j"
  then have "nat (wj_count j + 1 - int (wj_position j)) = Suc (nat (wj_count j - int (wj_position j)))" by linarith
  then show ?thesis by (simp add: remaining_def next_position_def)
qed

lemma progress_enter: "phase_rank p < phase_rank (wj_phase j) \<Longrightarrow> progress j w (enter_phase p j, w')"
  by (simp add: progress_def remaining_enter)

lemma progress_attempt: "1 < phase_rank (wj_phase j) \<Longrightarrow> (\<And>x. r = Inr x \<Longrightarrow> progress j w (k x)) \<Longrightarrow> progress j w (attempt r j w1 k)"
  by (cases r) (auto simp: attempt_def intro: progress_enter)

lemma progress_attempt_world: "1 < phase_rank (wj_phase j) \<Longrightarrow> (\<And>x. r = Inr x \<Longrightarrow> progress j w (k x)) \<Longrightarrow> progress j w (attempt_world r j k)"
  by (cases r) (auto simp: attempt_world_def intro: progress_enter)

lemma here_counted: "here j db fid \<Longrightarrow> int (wj_position j) \<le> wj_count j"
  by (auto simp: here_def passed_def)

lemma progress_next: "int (wj_position j) \<le> wj_count j \<Longrightarrow> progress j w (next_position j, w')"
  by (simp add: progress_def remaining_next)

lemma fold_view_parts:
  "fold_view_of db f = Inr fv \<Longrightarrow> fv_row fv = f \<and> fv_test fv = Option.bind (fr_test f) (public_run db) \<and> (fr_test f \<noteq> None \<longrightarrow> fv_test fv \<noteq> None)"
  by (auto simp: fold_view_of_def split: option.splits)

text \<open>A test run that has ended is found and settled.\<close>

lemma ended_test_found:
  assumes ok: "wf_ok (ww_db w)" and view: "current j w = Inr view" and vid: "wj_validation j \<in> vids (ww_db w)"
    and here: "here j (ww_db w) fid" and test: "tests (ww_db w) fid rid"
  shows "\<exists>r. List.find (\<lambda>r. ru_id r = rid) (List.map_filter fv_test (vv_folds view)) = Some r \<and> wd_runs (ww_db w) rid = Some (ru_row r)"
proof -
  let ?db = "ww_db w"
  from here have "fid \<in> set (fold_ids ?db (wj_validation j))" unfolding here_def using nth_mem by blast
  then obtain g where g: "g \<in> set (wd_folds ?db)" "fr_id g = fid" "fr_validation g = wj_validation j" by (auto simp: fold_ids_def folds_of_set)
  from test obtain f where f: "f \<in> set (wd_folds ?db)" "fr_id f = fid" "fr_test f = Some rid" by (auto simp: tests_def)
  with g ok have "f = g" by (auto simp: wf_ok_def ids_ok_def distinct_map inj_on_def)
  then have "f \<in> set (folds_of ?db (wj_validation j))" using f g by (simp add: folds_of_set)
  moreover have rows: "rmap_list (fold_view_of ?db) (folds_of ?db (wj_validation j)) = Inr (vv_folds view)"
    using view by (auto simp: current_def validation_get_def rbind_eq_Inr Let_def split: option.splits)
  have each: "fold_view_of ?db (fv_row fv) = Inr fv" if "fv \<in> set (vv_folds view)" for fv
  proof -
    from that obtain i where i: "i < length (vv_folds view)" "vv_folds view ! i = fv" by (auto simp: in_set_conv_nth)
    with rmap_list_nth [OF rows, of i] rmap_list_length [OF rows] have "fold_view_of ?db (folds_of ?db (wj_validation j) ! i) = Inr fv" by simp
    then show ?thesis by (auto simp: fold_view_of_def split: option.splits)
  qed
  ultimately obtain fv where fv: "fv \<in> set (vv_folds view)" "fv_row fv = f" using current_read(3) [OF ok view vid] by (metis imageE image_set)
  from fold_view_parts [OF each [OF fv(1)]] fv(2) f(3) have "fv_test fv = public_run ?db rid \<and> public_run ?db rid \<noteq> None" by (cases "public_run ?db rid") auto
  then obtain r0 where r0: "public_run ?db rid = Some r0" "fv_test fv = Some r0" by (cases "public_run ?db rid") auto
  then have "r0 \<in> set (List.map_filter fv_test (vv_folds view))" using fv(1) by (force simp: List.map_filter_def)
  then have "List.find (\<lambda>r. ru_id r = rid) (List.map_filter fv_test (vv_folds view)) \<noteq> None" using public_run_parts [OF r0(1)] by (auto simp: find_None_iff)
  then obtain r where r: "List.find (\<lambda>r. ru_id r = rid) (List.map_filter fv_test (vv_folds view)) = Some r" by blast
  then have "r \<in> set (List.map_filter fv_test (vv_folds view))" "ru_id r = rid" by (auto simp: find_Some_iff)
  then obtain gv where gv: "gv \<in> set (vv_folds view)" "fv_test gv = Some r" by (auto simp: List.map_filter_def split: option.splits)
  from fold_view_parts [OF each [OF gv(1)]] gv(2) have "\<exists>x. public_run ?db x = Some r" by (cases "fr_test (fv_row gv)") auto
  with r \<open>ru_id r = rid\<close> show ?thesis using public_run_parts by blast
qed

lemma queue_full: "submit_many q [rid] = Inl (BacktestQueueFull n, q') \<Longrightarrow> js_max_pending q \<le> pending_count q \<and> q' = q"
  by (auto simp: submit_many_def reserve_def reservation_submit_def submit_reserved_def Let_def rbind_eq_Inl split: sum.splits if_splits prod.splits)

lemma coordinator_progress_step:
  assumes "wf_inv w" and "job_fact j (ww_db w)" and "wj_phase j \<notin> {Opening, Done}"
  shows "progress j w (coordinator_step text now j w)"
proof -
  let ?db = "ww_db w"
  have ok: "wf_ok ?db" using assms(1) by (simp add: wf_inv_def sound_db_def)
  have vid: "wj_validation j \<in> vids ?db" and f: "phase_fact j ?db" using assms(2) by (simp_all add: job_fact_def)
  show ?thesis
  proof (cases "wj_phase j")
    case Begin
    then show ?thesis
      by (auto simp: step_begin_def intro!: progress_enter progress_attempt progress_attempt_world progress_next)
  next
    case AwaitTraining
    with f have p: "passed j ?db" by (simp add: phase_fact_def)
    have "progress j w (if view_cancelled view \<or> list_all (\<lambda>cv. terminal_run (ru_row (cv_run cv))) (fv_candidates fv) then (enter_phase (Trained fv) j, w) else (j, w))"
      if "current_fold j w = Inr (view, fv)" for view fv
    proof -
      note r = current_fold_read [OF ok that vid p]
      then have "fold_ids ?db (wj_validation j) ! (wj_position j - 1) = fr_id (fv_row fv)" by (simp add: here_def)
      with r(3,4) AwaitTraining show ?thesis
        using remaining_enter [of "Trained fv" j] by (auto simp: progress_def waits_def list_all_iff)
    qed
    with AwaitTraining show ?thesis by (auto simp: step_await_training_def intro!: progress_attempt)
  next
    case (Trained fv)
    with f have "int (wj_position j) \<le> wj_count j" by (auto simp: phase_fact_def here_counted)
    with Trained show ?thesis
      by (auto simp: step_trained_def intro!: progress_enter progress_attempt progress_attempt_world progress_next split: list.split)
  next
    case (Submit fid request)
    have "progress j w (j, w\<lparr>ww_queue := q\<rparr>)" if "current j w = Inr view" "\<not> view_cancelled view" "submit_many (ww_queue w) [br_run_id request] = Inl (BacktestQueueFull n, q)" for view n q
      using queue_full [OF that(3)] current_read(2) [OF ok that(1) vid] that(2) Submit by (simp add: progress_def waits_def)
    with Submit show ?thesis
      by (auto simp: step_submit_def Let_def intro!: progress_enter progress_attempt split: sum.split py_error.split)
  next
    case (AwaitTest fid rid)
    with f have h: "here j ?db fid" "tests ?db fid rid" by (auto simp: phase_fact_def)
    have "progress j w (case List.find (\<lambda>r. ru_id r = rid) (List.map_filter fv_test (vv_folds view)) of
         None \<Rightarrow> (j, w)
       | Some r \<Rightarrow> if terminal_run (ru_row r) then (enter_phase (Settle fid r) j, w)
           else if view_cancelled view then attempt_world (cancel_run w r) j (\<lambda>w1. (j, w1)) else (j, w))" if "current j w = Inr view" for view
    proof -
      from ended_test_found [OF ok that vid h] obtain r where r: "List.find (\<lambda>r. ru_id r = rid) (List.map_filter fv_test (vv_folds view)) = Some r"
        "wd_runs ?db rid = Some (ru_row r)" by blast
      have "progress j w (j, w1)" if "\<not> terminal_run (ru_row r)" for w1 using that r(2) AwaitTest by (simp add: progress_def waits_def)
      with r(1) AwaitTest show ?thesis by (auto intro!: progress_enter progress_attempt_world)
    qed
    with AwaitTest show ?thesis by (auto simp: step_await_test_def intro!: progress_attempt)
  next
    case (Settle fid r)
    with f have "int (wj_position j) \<le> wj_count j" by (auto simp: phase_fact_def here_counted)
    with Settle show ?thesis by (simp add: step_settle_def Let_def progress_next split: prod.split)
  next
    case (Reject fid)
    with f have "int (wj_position j) \<le> wj_count j" by (auto simp: phase_fact_def here_counted)
    with Reject show ?thesis by (simp add: progress_next)
  qed (use assms(3) in \<open>auto simp: step_select_def step_finish_def step_crash_def Let_def intro!: progress_enter progress_attempt split: sum.split\<close>)
qed

section \<open>Properties\<close>

text \<open>
  C21. The unseen test of a fold is the one of its best candidate. In every reachable state, if a fold has a test run, all its
  training runs have ended and covered exactly its training window; the test has the configuration and the execution
  settings of a completed candidate with enough trades, whose score no other such candidate exceeds; and it covers the
  testing window, which begins after the training ended. No interleaving of workers, cancellations, restarts and
  other validations changes this.
\<close>

theorem walk_forward_tests_best:
  assumes "wf_reachable w" and "f \<in> set (wd_folds (ww_db w))" and "fr_test f = Some r"
  shows "\<exists>v winner c score. validation_of (ww_db w) (fr_validation f) = Some v \<and> winner \<in> set (candidate_views (ww_db w) (fr_id f))
    \<and> rw_status (ru_row (cv_run winner)) = COMPLETE \<and> candidate_eligible (vs_minimum_trades (vr_spec v)) (ranking_candidate winner)
    \<and> (\<forall>cv \<in> set (candidate_views (ww_db w) (fr_id f)). terminal_run (ru_row (cv_run cv))
         \<and> rc_start (ru_columns (cv_run cv)) = fo_training_start (fr_window f) \<and> rc_end (ru_columns (cv_run cv)) = fo_training_end (fr_window f)
         \<and> (candidate_eligible (vs_minimum_trades (vr_spec v)) (ranking_candidate cv)
              \<longrightarrow> candidate_score (vs_objective (vr_spec v)) (ranking_candidate cv) = Inr (score cv) \<and> score cv \<le> score winner))
    \<and> wd_columns (ww_db w) r = Some c \<and> rc_configuration c = rc_configuration (ru_columns (cv_run winner))
    \<and> rc_execution c = rc_execution (ru_columns (cv_run winner))
    \<and> rc_start c = fo_testing_start (fr_window f) \<and> rc_end c = fo_testing_end (fr_window f) \<and> fo_training_end (fr_window f) < rc_start c"
proof -
  let ?db = "ww_db w"
  have s: "sound_db ?db" using wf_reachable_inv [OF assms(1)] by (simp add: wf_inv_def)
  then have ok: "wf_ok ?db" and "chosen_best ?db f" using assms(2) by (simp_all add: sound_db_def all_chosen_def)
  with assms(3) obtain v winner rest where c: "validation_of ?db (fr_validation f) = Some v" "training_settled ?db (fr_id f)"
    "rank_training (candidate_views ?db (fr_id f)) (vr_spec v) = Inr (winner # rest)"
    "wd_columns ?db r = Some (columns_of (vr_spec v) (rc_configuration (ru_columns (cv_run winner))) (rc_execution (ru_columns (cv_run winner)))
          (fo_testing_start (fr_window f)) (fo_testing_end (fr_window f)))" unfolding chosen_best_def chosen_for_def by blast
  note facts = candidate_view_facts [OF ok assms(2)]
  from rank_training_head [OF c(3) facts(1)] obtain score where w: "winner \<in> set (candidate_views ?db (fr_id f))"
    "candidate_eligible (vs_minimum_trades (vr_spec v)) (ranking_candidate winner)"
    "\<forall>cv \<in> set (candidate_views ?db (fr_id f)). candidate_eligible (vs_minimum_trades (vr_spec v)) (ranking_candidate cv)
         \<longrightarrow> candidate_score (vs_objective (vr_spec v)) (ranking_candidate cv) = Inr (score cv) \<and> score cv \<le> score winner" by blast
  have complete: "rw_status (ru_row (cv_run winner)) = COMPLETE" using w(2) by (simp add: candidate_eligible_def ranking_candidate_def status_name_inject)
  have "fo_training_end (fr_window f) < fo_testing_start (fr_window f)" using ok assms(2) by (simp add: wf_ok_def fold_ok_def fold_checks_def)
  with c w complete facts(2,3) show ?thesis
    by (intro exI [of _ v] exI [of _ winner] exI [of _ "columns_of (vr_spec v) (rc_configuration (ru_columns (cv_run winner)))
          (rc_execution (ru_columns (cv_run winner))) (fo_testing_start (fr_window f)) (fo_testing_end (fr_window f))"] exI [of _ score])
       (simp add: columns_of_def)
qed

text \<open>
  C22. A validation job comes to its end. In every reachable state a step of a job that is past its first access and not done
  either lowers a natural number, or leaves the job where it is, and then a training run of the fold has not ended,
  the backtest queue is full, or the test run has not ended. When the job is done, also after an exception, every fold of
  its validation has ended.
\<close>

theorem walk_forward_job_ends:
  assumes "wf_reachable w" and "ww_job w = Some j" and "wj_phase j \<noteq> Opening"
  shows "if wj_phase j = Done then list_all (\<lambda>f. fr_validation f = wj_validation j \<longrightarrow> fold_terminal (fr_status f)) (wd_folds (ww_db w))
    else progress j w (coordinator_step text now j w)"
proof -
  have inv: "wf_inv w" by (rule wf_reachable_inv [OF assms(1)])
  then have j: "job_fact j (ww_db w)" using assms(2) by (simp add: wf_inv_def)
  show ?thesis
  proof (cases "wj_phase j = Done")
    case True
    with j show ?thesis by (auto simp: job_fact_def phase_fact_def all_ended_def ended_def fold_ids_def folds_of_set list_all_iff)
  next
    case False
    with coordinator_progress_step [OF inv j] assms(3) show ?thesis by simp
  qed
qed


end
