(* ===== verification/Walk_Forward_Trace.thy ===== *)
theory Walk_Forward_Trace
  imports Walk_Forward_Progress
begin

text \<open>
  One validation from its creation to the unseen test of its best candidate, step by step: one fold of two
  training days and one test day, and two candidates of which the second earns more.
\<close>

section \<open>The request\<close>

definition demo_spec :: validation_spec where
  "demo_spec = \<lparr>vs_name = ''Dip'', vs_mode = ''ROLLING'', vs_market = ''CRYPTO'', vs_strategy_id = ''rsi_buy_v1'', vs_strategy_version = ''1'',
     vs_strategy_source = None, vs_timeframe = ''1d'', vs_symbols = [''BTC''], vs_universe_id = None, vs_universe_name = ''Majors'',
     vs_start = 1, vs_end = 3, vs_training_window = 2, vs_testing_window = 1, vs_step = 1, vs_maximum_folds = 1, vs_experiment = ''E1'',
     vs_objective = ''NET_PNL'', vs_minimum_trades = 1, vs_cost_bps = 0, vs_slippage_bps = 0,
     vs_preview_hash = ''sha256:'' @ replicate 64 (CHR ''0''),
     vs_workload = \<lparr>wl_folds = 1, wl_candidates = 2, wl_child_runs = 3, wl_symbols = 1, wl_symbol_runs = 3, wl_candles = 5\<rparr>\<rparr>"

definition demo_window :: fold_definition where
  "demo_window = \<lparr>fo_position = 1, fo_training_start = 1, fo_training_end = 2, fo_testing_start = 3, fo_testing_end = 3,
     fo_training_sessions = 2, fo_testing_sessions = 1\<rparr>"

definition demo_candidate :: "string \<Rightarrow> int \<Rightarrow> candidate_spec" where
  "demo_candidate x p = \<lparr>cp_variant = x, cp_name = x, cp_position = p, cp_configuration = [(''buyRsi'', PyInt (30 + p))], cp_execution = []\<rparr>"

lemma demo_workload:
  "workload_estimate (vs_market demo_spec) (vs_timeframe demo_spec) [demo_window] (int (length [demo_candidate ''A'' 1, demo_candidate ''B'' 2]))
     (int (length (vs_symbols demo_spec))) = Inr (vs_workload demo_spec)"
  by (simp add: workload_estimate_def demo_spec_def demo_window_def MAX_CANDIDATES_PER_FOLD_def TIMEFRAME_SECONDS_def bars_per_session_def
      MAX_WALK_FORWARD_CHILD_RUNS_def MAX_WALK_FORWARD_SYMBOL_RUNS_def MAX_WALK_FORWARD_CANDLE_WORKLOAD_def)

lemma demo_checks: "validation_checks demo_spec ''demo-key'' \<and> fold_checks demo_window"
  by (simp add: validation_checks_def demo_spec_def Let_def between_def RANKING_OBJECTIVES_def is_sha256_def fold_checks_def demo_window_def list_all_iff)

lemma trace_key: "py_strip ''demo-key'' = ''demo-key'' \<and> py_strip '' demo-key'' = ''demo-key''"
  by code_simp

lemma demo_ids: "show_nat 0 = ''0'' \<and> show_nat (Suc 0) = ''1'' \<and> show_nat (Suc (Suc 0)) = ''2'' \<and> show_nat (Suc (Suc (Suc 0))) = ''3'' \<and> show_nat 4 = ''4''"
  by code_simp

section \<open>The rows\<close>

definition demo_row :: "run_status \<Rightarrow> run_summary option \<Rightarrow> run_row" where
  "demo_row st m = \<lparr>rw_status = st, rw_cancel_requested = False, rw_symbols_total = 1, rw_symbols_completed = 0, rw_current_symbol = None,
     rw_metrics = m, rw_error = None\<rparr>"

definition demo_columns :: "int \<Rightarrow> day \<Rightarrow> day \<Rightarrow> run_columns" where
  "demo_columns p a b = columns_of demo_spec [(''buyRsi'', PyInt (30 + p))] [(''transactionCostBps'', PyFloat 0), (''slippageBps'', PyFloat 0)] a b"

definition demo_training :: "string \<Rightarrow> int \<Rightarrow> string \<Rightarrow> training_row" where
  "demo_training x p rid = \<lparr>tr_fold = ''1'', tr_variant = x, tr_name = x, tr_position = p, tr_run = rid\<rparr>"

definition demo_validation :: validation_row where
  "demo_validation = \<lparr>vr_id = ''0'', vr_key = ''demo-key'', vr_spec = demo_spec, vr_cancel = False, vr_aggregate = None, vr_created = 5, vr_completed = None\<rparr>"

definition demo_fold :: "fold_status \<Rightarrow> fold_row" where
  "demo_fold st = \<lparr>fr_id = ''1'', fr_validation = ''0'', fr_window = demo_window, fr_status = st, fr_error = None,
     fr_selected = None, fr_rank = None, fr_test = None, fr_completed = None\<rparr>"

definition demo_db :: "fold_status \<Rightarrow> run_row \<Rightarrow> run_row \<Rightarrow> wf_db" where
  "demo_db st a b = \<lparr>wd_validations = [demo_validation], wd_folds = [demo_fold st],
     wd_trainings = [demo_training ''A'' 1 ''2'', demo_training ''B'' 2 ''3''],
     wd_columns = [''2'' \<mapsto> demo_columns 1 1 2, ''3'' \<mapsto> demo_columns 2 1 2], wd_runs = [''2'' \<mapsto> a, ''3'' \<mapsto> b], wd_issued = 4\<rparr>"

lemma demo_created:
  "create_rows 5 demo_spec ''demo-key'' [demo_window] [demo_candidate ''A'' 1, demo_candidate ''B'' 2] empty_wf_db
     = Inr (''0'', True, demo_db FQueued (demo_row QUEUED None) (demo_row QUEUED None))"
proof -
  have w: "with_costs demo_spec [] = [(''transactionCostBps'', PyFloat 0), (''slippageBps'', PyFloat 0)]" by (simp add: with_costs_def demo_spec_def)
  have one: "length (vs_symbols demo_spec) = 1" by (simp add: demo_spec_def)
  have t: "insert_training demo_spec ''1'' demo_window db (demo_candidate x p) = Inr (insert_run (show_nat (wd_issued db)) (demo_columns p 1 2) (next_id db)
      \<lparr>wd_trainings := wd_trainings db @ [demo_training x p (show_nat (wd_issued db))]\<rparr>)"
    if "p = 1 \<and> wd_trainings db = [] \<or> p = 2 \<and> x = ''B'' \<and> wd_trainings db = [demo_training ''A'' 1 ''2'']" for db x p
    using that by (auto simp: insert_training_def new_id_eq demo_candidate_def w demo_columns_def demo_window_def between_def demo_training_def Let_def)
  show ?thesis
    by (simp add: create_rows_def new_id_eq empty_wf_db_def demo_checks trace_key insert_fold_def t demo_ids Let_def next_id_def insert_run_def
        run_create_def demo_db_def demo_validation_def demo_fold_def demo_row_def demo_columns_def columns_of_def one)
qed

section \<open>The steps\<close>

definition demo_metrics :: "real \<Rightarrow> run_summary" where
  "demo_metrics x = \<lparr>rsm_total_signals = 3, rsm_completed = 2, rsm_target_hits = 2, rsm_stopped = 0, rsm_expired = 0, rsm_open = 0, rsm_realized = x,
     rsm_profitable = 2, rsm_losing = 0, rsm_breakeven = 0, rsm_gross_profit = x, rsm_gross_loss = 0, rsm_profit_factor = None, rsm_unrealized = 0,
     rsm_fees = 0, rsm_slippage = 0, rsm_exposure_minutes = 0, rsm_win_rate = Some 100, rsm_average_mae = None, rsm_average_mfe = None,
     rsm_average_holding = None, rsm_median_holding = None, rsm_maximum_drawdown = 0, rsm_symbols_processed = 1, rsm_symbols_failed = 0\<rparr>"

definition demo_done :: "real \<Rightarrow> run_row" where
  "demo_done x = demo_row COMPLETE (Some (demo_metrics x))"

definition demo_trained :: "fold_status \<Rightarrow> wf_db" where
  "demo_trained st = demo_db st (demo_done 10) (demo_done 20)"

definition demo_job :: "wf_phase \<Rightarrow> wf_job" where
  "demo_job p = \<lparr>wj_validation = ''0'', wj_count = (if p = Opening then 0 else 1), wj_position = (if p = Opening then 0 else 1), wj_phase = p\<rparr>"

definition demo_world :: "wf_db \<Rightarrow> wf_phase \<Rightarrow> wf_world" where
  "demo_world db p = \<lparr>ww_db = db,
     ww_queue = \<lparr>js_max_pending = 2, js_reserved = 0, js_futures = [], js_cancel_events = [], js_reservations = [], js_shut_down = False\<rparr>,
     ww_cancels = [], ww_job = Some (demo_job p)\<rparr>"

definition demo_candidate_view :: "string \<Rightarrow> int \<Rightarrow> string \<Rightarrow> real \<Rightarrow> candidate_view" where
  "demo_candidate_view x p rid m = \<lparr>cv_training = demo_training x p rid, cv_run = \<lparr>ru_id = rid, ru_columns = demo_columns p 1 2, ru_row = demo_done m\<rparr>\<rparr>"

definition demo_fold_view :: "fold_status \<Rightarrow> fold_view" where
  "demo_fold_view st = \<lparr>fv_row = demo_fold st, fv_candidates = [demo_candidate_view ''A'' 1 ''2'' 10, demo_candidate_view ''B'' 2 ''3'' 20], fv_test = None\<rparr>"

lemma demo_view:
  "\<exists>view. validation_get (demo_trained st) ''0'' = Inr view \<and> vv_row view = demo_validation \<and> vv_folds view = [demo_fold_view st]"
proof -
  have t: "trainings_of (demo_trained st) ''1'' = [demo_training ''A'' 1 ''2'', demo_training ''B'' 2 ''3'']"
    by (simp add: trainings_of_def demo_trained_def demo_db_def demo_training_def)
  have f: "folds_of (demo_trained st) ''0'' = [demo_fold st]" by (simp add: folds_of_def demo_trained_def demo_db_def demo_fold_def)
  have "candidate_views (demo_trained st) ''1'' = fv_candidates (demo_fold_view st)"
    unfolding candidate_views_def t
    by (simp add: List.map_filter_def public_run_def demo_trained_def demo_db_def demo_fold_view_def demo_candidate_view_def demo_training_def)
  then have "fold_view_of (demo_trained st) (demo_fold st) = Inr (demo_fold_view st)"
    by (simp add: fold_view_of_def demo_fold_def demo_fold_view_def)
  moreover have "validation_of (demo_trained st) ''0'' = Some demo_validation"
    by (simp add: validation_of_def demo_trained_def demo_db_def demo_validation_def)
  ultimately show ?thesis by (simp add: validation_get_def f Let_def)
qed

lemma demo_current:
  obtains view where "current (demo_job p) (demo_world (demo_trained st) q) = Inr view" "vv_row view = demo_validation" "vv_folds view = [demo_fold_view st]"
    "p \<noteq> Opening \<Longrightarrow> current_fold (demo_job p) (demo_world (demo_trained st) q) = Inr (view, demo_fold_view st)" "\<not> view_cancelled view"
proof -
  from demo_view [of st] obtain view where v: "validation_get (demo_trained st) ''0'' = Inr view" "vv_row view = demo_validation"
    "vv_folds view = [demo_fold_view st]" by blast
  then have "current (demo_job p) (demo_world (demo_trained st) q) = Inr view" by (simp add: current_def demo_job_def demo_world_def)
  moreover from this v(3) have "p \<noteq> Opening \<Longrightarrow> current_fold (demo_job p) (demo_world (demo_trained st) q) = Inr (view, demo_fold_view st)"
    by (simp add: current_fold_def fold_numbered_def demo_job_def)
  moreover have "\<not> view_cancelled view" using v(2) by (simp add: view_cancelled_def demo_validation_def)
  ultimately show thesis using that v(2,3) by blast
qed

lemma demo_finish:
  assumes "t x = Some (demo_row QUEUED None)"
  shows "run_change t (t(x \<mapsto> demo_done m))"
  by (rule run_change.finished [where t = t and x = x and r = "demo_row QUEUED None" and row = "demo_done m" and status = COMPLETE and metrics = "Some (demo_metrics m)" and error = None])
    (use assms in \<open>simp_all add: demo_row_def terminal_run_def TERMINAL_RUN_STATUSES_def run_finish_def run_update_def run_get_def demo_done_def Let_def\<close>)

lemma demo_creation:
  "create_result (create_generated 5 demo_spec ''demo-key'' [demo_window] [demo_candidate ''A'' 1, demo_candidate ''B'' 2] empty_wf_db)
     = demo_db FQueued (demo_row QUEUED None) (demo_row QUEUED None)"
  by (auto simp: create_generated_def demo_created create_result_def split: sum.split)

lemma demo_started: "wf_reachable (demo_world (demo_trained FQueued) Opening)"
proof -
  let ?q = "\<lparr>js_max_pending = 2, js_reserved = 0, js_futures = [], js_cancel_events = [], js_reservations = [], js_shut_down = False\<rparr>"
  let ?w = "\<lambda>db. \<lparr>ww_db = db, ww_queue = ?q, ww_cancels = [], ww_job = None\<rparr>"
  let ?db = "demo_db FQueued (demo_row QUEUED None) (demo_row QUEUED None)"
  have "wf_reachable (?w empty_wf_db)" by (rule wf_reachable.launched [of 1 2]) (simp add: new_runner_def)
  from wf_reachable.created [OF this demo_workload, of 5 "''demo-key''"]
  have "wf_reachable (?w ?db)" by (simp add: on_db_def demo_creation)
  from wf_reachable.worked [OF this, of "(wd_runs ?db)(''2'' \<mapsto> demo_done 10)"]
  have "wf_reachable (?w (?db\<lparr>wd_runs := (wd_runs ?db)(''2'' \<mapsto> demo_done 10)\<rparr>))"
    using demo_finish [of "wd_runs ?db" "''2''" 10] by (simp add: set_runs_def) (simp add: demo_db_def)
  from wf_reachable.worked [OF this, of "(wd_runs ?db)(''2'' \<mapsto> demo_done 10, ''3'' \<mapsto> demo_done 20)"]
  have "wf_reachable (?w (?db\<lparr>wd_runs := (wd_runs ?db)(''2'' \<mapsto> demo_done 10, ''3'' \<mapsto> demo_done 20)\<rparr>))"
    using demo_finish [of "(wd_runs ?db)(''2'' \<mapsto> demo_done 10)" "''3''" 20] by (simp add: set_runs_def) (simp add: demo_db_def)
  moreover have "?db\<lparr>wd_runs := (wd_runs ?db)(''2'' \<mapsto> demo_done 10, ''3'' \<mapsto> demo_done 20)\<rparr> = demo_trained FQueued"
    by (auto simp: demo_db_def demo_trained_def fun_upd_def)
  ultimately have "wf_reachable (?w (demo_trained FQueued))" by simp
  from wf_reachable.started [OF this, of "''0''" True]
  show ?thesis by (simp add: demo_world_def demo_job_def start_job_def demo_trained_def demo_db_def demo_validation_def)
qed

lemma demo_step:
  assumes "wf_reachable (demo_world db p)" and "coordinator_step (\<lambda>_. []) 7 (demo_job p) (demo_world db p) = (demo_job p', demo_world db' p)"
  shows "wf_reachable (demo_world db' p')"
  using wf_reachable.stepped [OF assms(1) _ assms(2)] by (simp add: demo_world_def)

lemma demo_ranked:
  "rank_training (fv_candidates (demo_fold_view st)) demo_spec = Inr [demo_candidate_view ''B'' 2 ''3'' 20, demo_candidate_view ''A'' 1 ''2'' 10]"
proof -
  let ?a = "ranking_candidate (demo_candidate_view ''A'' 1 ''2'' 10)" and ?b = "ranking_candidate (demo_candidate_view ''B'' 2 ''3'' 20)"
  have fields: "cn_id (ranking_candidate (demo_candidate_view x p rid m)) = x \<and> cn_position (ranking_candidate (demo_candidate_view x p rid m)) = Some p
      \<and> cn_status (ranking_candidate (demo_candidate_view x p rid m)) = Some ''COMPLETE''
      \<and> cn_metrics (ranking_candidate (demo_candidate_view x p rid m)) = Some (summary_row (demo_metrics m))" for x p rid m
    by (simp add: ranking_candidate_def demo_candidate_view_def demo_training_def demo_done_def demo_row_def)
  have m: "metric (summary_row (demo_metrics m)) ''realizedPnl'' = m" "metric (summary_row (demo_metrics m)) ''unrealizedPnl'' = 0"
    "metric (summary_row (demo_metrics m)) ''completedTrades'' = 2" for m
    by (simp_all add: metric_def summary_row_def demo_metrics_def)
  have e: "candidate_eligible 1 ?a" "candidate_eligible 1 ?b" by (simp_all add: candidate_eligible_def fields metric_int_def m)
  have sc: "candidate_score ''NET_PNL'' ?a = Inr (10, -1)" "candidate_score ''NET_PNL'' ?b = Inr (20, -2)"
    by (simp_all add: candidate_score_def fields net_pnl_def m)
  have "rank_completed_candidates [?a, ?b] ''NET_PNL'' 1 = Inr [?b, ?a]"
    by (simp add: rank_completed_candidates_def RANKING_OBJECTIVES_def e sc sort_falling_def)
  moreover have "vs_objective demo_spec = ''NET_PNL''" "vs_minimum_trades demo_spec = 1" by (simp_all add: demo_spec_def)
  ultimately show ?thesis
    by (simp add: rank_training_def demo_fold_view_def List.map_filter_def fields)
       (simp add: demo_candidate_view_def demo_training_def demo_done_def demo_row_def)
qed

lemma demo_waiting: "wf_reachable (demo_world (demo_trained FTraining) AwaitTraining)"
proof -
  have "wf_reachable (demo_world (demo_trained FQueued) Begin)"
  proof (rule demo_step [OF demo_started])
    show "coordinator_step (\<lambda>_. []) 7 (demo_job Opening) (demo_world (demo_trained FQueued) Opening) = (demo_job Begin, demo_world (demo_trained FQueued) Opening)"
      by (rule demo_current [of Opening FQueued Opening])
        (simp add: step_open_def attempt_def demo_job_def demo_validation_def demo_spec_def)
  qed
  then have "wf_reachable (demo_world (demo_trained FQueued) (Train ''1''))"
  proof (rule demo_step)
    show "coordinator_step (\<lambda>_. []) 7 (demo_job Begin) (demo_world (demo_trained FQueued) Begin) = (demo_job (Train ''1''), demo_world (demo_trained FQueued) Begin)"
      by (rule demo_current [of Begin FQueued Begin])
        (simp add: step_begin_def attempt_def demo_job_def enter_phase_def demo_fold_view_def demo_fold_def fold_terminal_def)
  qed
  then show ?thesis
    by (rule demo_step) (simp add: demo_job_def enter_phase_def demo_world_def on_db_def update_fold_def change_fold_def demo_trained_def demo_db_def
        demo_fold_def fold_terminal_def)
qed

lemma demo_selecting: "wf_reachable (demo_world (demo_trained FTraining) (Select ''1'' (demo_candidate_view ''B'' 2 ''3'' 20)))"
proof -
  from demo_waiting have "wf_reachable (demo_world (demo_trained FTraining) (Trained (demo_fold_view FTraining)))"
  proof (rule demo_step)
    show "coordinator_step (\<lambda>_. []) 7 (demo_job AwaitTraining) (demo_world (demo_trained FTraining) AwaitTraining)
        = (demo_job (Trained (demo_fold_view FTraining)), demo_world (demo_trained FTraining) AwaitTraining)"
      by (rule demo_current [of AwaitTraining FTraining AwaitTraining])
        (simp add: step_await_training_def attempt_def demo_job_def enter_phase_def demo_fold_view_def demo_candidate_view_def demo_done_def demo_row_def
          terminal_run_def TERMINAL_RUN_STATUSES_def)
  qed
  then show ?thesis
  proof (rule demo_step)
    show "coordinator_step (\<lambda>_. []) 7 (demo_job (Trained (demo_fold_view FTraining))) (demo_world (demo_trained FTraining) (Trained (demo_fold_view FTraining)))
        = (demo_job (Select ''1'' (demo_candidate_view ''B'' 2 ''3'' 20)), demo_world (demo_trained FTraining) (Trained (demo_fold_view FTraining)))"
      by (rule demo_current [of "Trained (demo_fold_view FTraining)" FTraining "Trained (demo_fold_view FTraining)"])
        (simp add: step_trained_def attempt_def demo_job_def enter_phase_def demo_ranked demo_validation_def demo_fold_view_def [of FTraining, THEN arg_cong [of _ _ fv_row]] demo_fold_def)
  qed
qed

definition demo_tested :: wf_db where
  "demo_tested = (case create_test_run ''1'' (demo_candidate_view ''B'' 2 ''3'' 20) (demo_trained FTraining) of Inl _ \<Rightarrow> empty_wf_db | Inr (_, db) \<Rightarrow> db)"

definition demo_tested_fold :: fold_row where
  "demo_tested_fold = (demo_fold FTesting)\<lparr>fr_selected := Some (selected_of (demo_candidate_view ''B'' 2 ''3'' 20)), fr_rank := Some 1, fr_test := Some ''4''\<rparr>"

lemma demo_created_test:
  "\<exists>r. create_test_run ''1'' (demo_candidate_view ''B'' 2 ''3'' 20) (demo_trained FTraining) = Inr (r, demo_tested)"
  "wd_folds demo_tested = [demo_tested_fold]"
  by (simp_all add: demo_tested_def create_test_run_def demo_trained_def demo_db_def demo_fold_def validation_of_def demo_validation_def new_id_def demo_ids
      public_run_def change_fold_def insert_run_def run_create_def Let_def demo_tested_fold_def)

lemma demo_testing: "\<exists>w. wf_reachable w \<and> ww_db w = demo_tested"
proof -
  let ?p = "Select ''1'' (demo_candidate_view ''B'' 2 ''3'' 20)"
  from demo_created_test(1) obtain r where r: "create_test_run ''1'' (demo_candidate_view ''B'' 2 ''3'' 20) (demo_trained FTraining) = Inr (r, demo_tested)" by blast
  obtain j w where step: "coordinator_step (\<lambda>_. []) 7 (demo_job ?p) (demo_world (demo_trained FTraining) ?p) = (j, w)" by fastforce
  then have "ww_db w = demo_tested"
    by (auto simp: step_select_def attempt_def demo_job_def demo_world_def r Let_def split: sum.splits)
  moreover have "wf_reachable (w\<lparr>ww_job := Some j\<rparr>)"
    by (rule wf_reachable.stepped [OF demo_selecting _ step]) (simp add: demo_world_def)
  ultimately show ?thesis by (intro exI [of _ "w\<lparr>ww_job := Some j\<rparr>"]) simp
qed

section \<open>The properties on this run\<close>

theorem walk_forward_tests_best_witness:
  "\<exists>v winner. validation_of demo_tested ''0'' = Some v \<and> winner \<in> set (candidate_views demo_tested ''1'')
     \<and> rw_status (ru_row (cv_run winner)) = COMPLETE \<and> candidate_eligible (vs_minimum_trades (vr_spec v)) (ranking_candidate winner)"
proof -
  from demo_testing obtain w where w: "wf_reachable w" "ww_db w = demo_tested" by blast
  have "demo_tested_fold \<in> set (wd_folds (ww_db w))" "fr_test demo_tested_fold = Some ''4''"
    by (simp_all add: w(2) demo_created_test(2) demo_tested_fold_def)
  from walk_forward_tests_best [OF w(1) this] w(2) show ?thesis by (simp add: demo_tested_fold_def demo_fold_def) blast
qed

theorem walk_forward_job_ends_witness:
  "progress (demo_job AwaitTraining) (demo_world (demo_trained FTraining) AwaitTraining)
     (coordinator_step (\<lambda>_. []) 7 (demo_job AwaitTraining) (demo_world (demo_trained FTraining) AwaitTraining))"
  using walk_forward_job_ends [OF demo_waiting, of "demo_job AwaitTraining" "\<lambda>_. []" 7] by (simp add: demo_world_def demo_job_def)


end
