(* ===== verification/Spec2Isabelle.thy ===== *)
theory Spec2Isabelle
  imports Profit_Target Strategies Execution_Policy Backtest_Run Backtest_Jobs Paper_Properties Signal_Properties
    Signal_Worker Trend_Strategies Screener Walk_Forward Worker_Leases Oi_Filter
    Parameter_Experiments Crypto_Market Walk_Forward_Trace
begin

text \<open>
  \<^bold>\<open>The program.\<close> OpenDelta is a trading platform for NSE shares and crypto pairs. Strategies turn
  completed candles into buy decisions. A backtest replays those decisions bar by bar and writes
  one trade row per lot; a paper broker fills the same decisions forward in time; a FIFO
  inventory decides which shares a sale gives away and so what it earned; fee models say what a
  fill costs; a job queue runs backtests on worker threads against a table of runs; a screener picks
  the symbols worth trading; walk-forward validation splits a range into training and unseen sessions;
  parameter experiments enumerate the variants of a strategy; leases keep two processes from doing the same work; a regime
  computed from the open interest of options and futures may veto long entries. A crypto service of its own keeps
  instruments, candles, signals and backtests in a small database and scans the markets.

  \<^bold>\<open>The theories.\<close> Each models the files of \<^verbatim>\<open>src/backend\<close> named with it, with the names of the code.

  \<^item> \<open>Platform_Prelude\<close>: exceptions as values (\<open>py_error\<close>), sequencing of fallible code (\<open>rbind\<close>,
    \<open>rfold\<close>, \<open>rmap_list\<close>), rounding as \<^verbatim>\<open>round\<close> does it (half to even), finiteness of doubles,
    decimal printing of naturals.
  \<^item> \<open>Market_Fees\<close>: \<^verbatim>\<open>markets/base.py\<close>, \<^verbatim>\<open>markets/nse/fees.py\<close>, \<^verbatim>\<open>markets/crypto/fees.py\<close>, the sessions, the
    percentage fees of \<^verbatim>\<open>backtest/engine.py\<close>. The locale \<open>fee_contract\<close> says what a client may rely on
    (adverse fills, monotone proceeds) and every valid fee model is shown to satisfy it.
  \<^item> \<open>Fifo_Ledger\<close>, \<open>Profit_Target\<close>: \<^verbatim>\<open>core/fifo.py\<close>. The inventory refines a queue of single shares; the
    search for the price that nets a target return is correct and ends.
  \<^item> \<open>Strategy_Config\<close>, \<open>Strategies\<close>: \<^verbatim>\<open>strategies/base.py\<close>, \<^verbatim>\<open>registry.py\<close>, \<^verbatim>\<open>lot_policy.py\<close>,
    \<^verbatim>\<open>rsi_dip_ladder_v1.py\<close>, \<^verbatim>\<open>core/models.py\<close>, \<^verbatim>\<open>core/indicators.py\<close>. Configuration values are a datatype of
    Python values; resolving a configuration is sound and idempotent; the vectorised frame of the
    RSI strategy equals the evaluation of every prefix.
  \<^item> \<open>Execution_Policy\<close>: the execution settings of \<^verbatim>\<open>backtest/engine.py\<close> and \<^verbatim>\<open>paper_trading/execution.py\<close>.
  \<^item> \<open>Backtest_Metrics\<close>: \<^verbatim>\<open>backtest/metrics.py\<close>.
  \<^item> \<open>Backtest_Engine\<close>: \<^verbatim>\<open>_run_symbol\<close> of \<^verbatim>\<open>backtest/engine.py\<close> from its loop on, with \<^verbatim>\<open>_enter\<close>, \<^verbatim>\<open>_maybe_exit\<close>,
    \<^verbatim>\<open>_refresh_fifo_targets\<close> and \<^verbatim>\<open>_trade_row\<close>. The state of the loop is the record \<open>bt_state\<close>, one bar
    is \<open>bar_step\<close>, and \<open>bt_inv\<close> is its invariant.
  \<^item> \<open>Backtest_Run\<close>: the bars of a symbol (also the projection of daily signals onto five-minute
    candles) and \<^verbatim>\<open>run\<close> over all symbols, over any symbol runner (locales \<open>symbol_runner\<close> and
    \<open>accounted_runner\<close>, interpreted on the engine).
  \<^item> \<open>Backtest_Jobs\<close>: \<^verbatim>\<open>backtest/jobs.py\<close> and the run table of \<^verbatim>\<open>data/repositories.py\<close>. Every section under
    the lock is one step; \<open>job_reachable\<close> are the states of all interleavings.
  \<^item> \<open>Paper_Store\<close>: the paper tables of \<^verbatim>\<open>data/repositories.py\<close> as lists of rows in insertion order, with
    their unique indexes and orderings. \<open>Paper_Portfolio\<close>: \<^verbatim>\<open>paper_trading/portfolio.py\<close> and
    \<^verbatim>\<open>accounting.py\<close>. \<open>Paper_Broker\<close>: \<^verbatim>\<open>paper_trading/broker.py\<close>, each operation with all its writes in
    order; one that raises returns the state it leaves behind.
  \<^item> \<open>Paper_Invariants\<close>: the operations as steps (\<open>apply_op\<close>, \<open>broker_reachable\<close>), the locale
    \<open>broker_invariant\<close>, which lifts what bookings, marks and closings keep to whole operations, and its
    interpretations: the portfolio mirrors the tables, the inventories are the replay of the trades,
    cash reconciles, stock matches lots. \<open>Paper_Restart\<close>: nothing is lost on a restart.
    \<open>Paper_Properties\<close>: what follows for the account, and a worked example.
  \<^item> \<open>Candle_History\<close>: \<^verbatim>\<open>signals/candle_processor.py\<close>, the bounded history of completed candles.
    \<open>Live_Signals\<close>: \<^verbatim>\<open>signals/engine.py\<close>, \<^verbatim>\<open>signals/recovery.py\<close> and the live signal table of
    \<^verbatim>\<open>data/repositories.py\<close>; an exception comes with the state it leaves behind.
    \<open>Signal_Properties\<close>: the operations as steps, the life cycle of signals, what one candle does to the
    open signals, and what a batch of candles loses. \<open>Signal_Worker\<close>: \<^verbatim>\<open>signals/workers.py\<close>, polls, the
    tracking feed and the loop with its backoff. The locale \<open>worker_invariant\<close> lifts what one symbol keeps
    to all rounds; sublocales give the order of deliveries and what is never delivered.
  \<^item> \<open>Indicators\<close>: the unseeded averages, true range, VWAP, directional movement, relative volume and
    higher-timeframe alignment of \<^verbatim>\<open>core/indicators.py\<close>. The exponential mean of pandas is a parameter with
    the laws of the locale \<open>causal_smoother\<close>. \<open>Trend_Strategies\<close>: \<^verbatim>\<open>strategies/strong_buy_v1.py\<close> and
    \<^verbatim>\<open>momentum_scalper_v1.py\<close>; for both the vectorised frame equals the evaluation of every prefix.
  \<^item> \<open>Screener\<close>: \<^verbatim>\<open>screener/filters.py\<close>, \<^verbatim>\<open>ranking.py\<close> and \<^verbatim>\<open>engine.py\<close>, with both ways to read candles.
  \<^item> \<open>Walk_Forward\<close>: \<^verbatim>\<open>research/walk_forward.py\<close>. \<open>Walk_Forward_Store\<close>: the validation tables of
    \<^verbatim>\<open>data/repositories.py\<close> with the constraints of \<^verbatim>\<open>data/sql/018_walk_forward_validations.sql\<close>; the locale
    \<open>table_operation\<close> says what an operation keeps. \<open>Walk_Forward_Jobs\<close>: \<^verbatim>\<open>research/walk_forward_jobs.py\<close>. What
    the coordinator holds between two accesses to the database is the phase of its job (\<open>wf_phase\<close>), one
    access is \<open>coordinator_step\<close>, and \<open>wf_reachable\<close> are the states of all interleavings with workers, requests for
    cancellation, new validations and restarts. \<open>Walk_Forward_Selection\<close>: every step keeps the tables sound and knows what its phase
    claims. \<open>Walk_Forward_Progress\<close>: the invariant of all reachable states, the measure of a job and the properties.
    \<open>Walk_Forward_Trace\<close>: one validation step by step.
  \<^item> \<open>Worker_Leases\<close>: the lease statements of \<^verbatim>\<open>monitoring/repository.py\<close> and \<^verbatim>\<open>monitoring/leases.py\<close>. The
    locale \<open>lease_statement\<close> says what a statement leaves alone and is interpreted on each of them;
    \<open>lease_reachable\<close> are the states of all interleavings of processes and heartbeat threads.
  \<^item> \<open>Oi_Regime\<close>: the scores of options, futures and spot trend of \<^verbatim>\<open>markets/nse/oi_regime.py\<close>, their
    combination into a regime and the decision on a long entry. \<open>Oi_Filter\<close>: the lookup of snapshots and the
    filter that replays the trades of all symbols in one stream of time.
  \<^item> \<open>Parameter_Experiments\<close>: \<^verbatim>\<open>research/parameter_experiments.py\<close>, grids and manual variants over
    decimals as exact numbers.
  \<^item> \<open>Crypto_Strategy\<close>: \<^verbatim>\<open>markets/crypto/strategy.py\<close>. The arms and the found signals are the record \<open>signal_scan\<close>, one
    bar is \<open>signal_step\<close>. \<open>Crypto_Market\<close>: \<^verbatim>\<open>markets/crypto/engine.py\<close> with the instruments and candles of
    \<^verbatim>\<open>markets/common.py\<close>. The tables are the record \<open>crypto_db\<close>; the locale \<open>market_invariant\<close> lifts what
    the statements keep to the operations of the service, and is interpreted on the integrity of the tables and on their history.

  \<^bold>\<open>What the lemmas show.\<close> Accounting: a sale takes exactly the oldest shares, quantity, cost and fees
  are conserved, the stock of a replay matches its open lots, and the summary of a run is the one of
  the rows it wrote. Causality: neither strategies nor the replay look ahead, orders fill on the
  next bar, and no lot exits on the bar it entered. Limits: entries per cycle, one target hit per bar
  on NSE, the bound of the job queue. Types: resolved configurations, settings and ladders are well
  formed and survive their round trips. Errors: which inputs raise and what is left behind. Paper
  account: one filled order per signal, cash and stock that reconcile with the trades, exits only
  where a candle justifies them, entries within their limits, and a restart that recovers the state.
  Live signals: one signal per candle and key, statuses that only move forward, exits where the
  candle reached stop, target or expiry, and no effect of a candle seen before; workers deliver each
  candle at most once, in order, and lose the candles the engine raised on. Screening: the ranks
  of the best symbols, a reason for every other one, and batches that change nothing. Walk-forward:
  tests only on sessions after the training ones, of the best candidate of a training that has ended; jobs that
  come to an end and close their folds; one creation for each key. Leases: at most one holder per task, groups all or nothing.
  Regime filter: bounded scores, verdicts that rest on data known by the signal, every trade kept or
  skipped exactly once, and one flag that escapes the test of causality. Experiments: all combinations, each once,
  and ranges of numbers that end. Crypto: signals and trades without look-ahead, tables that stay intact through
  failures of the exchange, scans that report what they store, and gaps in candles that are never filled.

  \<^bold>\<open>Modelling choices.\<close> Prices, quantities and fees are exact reals: the rounding the code writes
  (\<^verbatim>\<open>round(x, 4)\<close>, \<^verbatim>\<open>math.ceil\<close>) is modelled, the representation error of a double is not. Overflow
  to infinity is, where the code tests for it. Timestamps are integers (microseconds), dates are
  days, and NaN is \<open>None\<close>. The doubling loop of the target search has fuel 1025: a double is at
  least one and below \<open>2 ^ 1024\<close>, so the loop either ends or leaves the doubles within that many
  steps; the bisection has the 64 steps of the code. The writer of a run, the candle source, the
  cancellation flag and a strategy that is not built in are arguments of the definitions.

  \<^bold>\<open>Not modelled.\<close> Network, database and thread pool, the HTTP interface, logging, the collector and
  the sandbox for strategy source code are input and output, or code of other programs. The
  texts of reasons that print percentages are cut to their fixed part, and regime snapshots are a list
  rather than files. The collection and import of option chains and the building of the
  exchange calendar read and write vendor files and are not modelled. The identifiers of \<^verbatim>\<open>uuid4\<close> are the numbers of a counter: only that they
  never repeat matters. The wait of the validation coordinator between two polls is a step that changes nothing.
\<close>

end
